(* ===== verification/Prelude.thy ===== *)
theory Prelude
  imports Main "HOL-Library.Sublist" "HOL-Library.Monad_Syntax"
begin

text \<open>
  Shared vocabulary of the development: the outcome of a Rust call that may panic, the
  operations of Rust's \<open>str\<close> and \<open>Option\<close> that the modelled code uses, and the generic
  lemmas on lists and options that the component theories share.

  Rust strings are UTF-8; here a \<open>string\<close> is the list of their bytes. Equality, substring
  search and splitting at an ASCII separator give the same answers on bytes and on
  characters.
\<close>

named_theorems outcome_simps \<open>equations that evaluate sequenced calls\<close>
named_theorems str_simps \<open>equations of the string operations\<close>


section \<open>Calls that may panic\<close>

text \<open>A call of the modelled code either returns a value or panics.\<close>

datatype 'a outcome = Ret 'a | Panic

primrec bind_outcome :: "'a outcome \<Rightarrow> ('a \<Rightarrow> 'b outcome) \<Rightarrow> 'b outcome" where
  "bind_outcome (Ret x) f = f x"
| "bind_outcome Panic f = Panic"

declare bind_outcome.simps [outcome_simps]

lemma bind_outcome_assoc [outcome_simps]:
  "bind_outcome (bind_outcome m f) g = bind_outcome m (\<lambda>x. bind_outcome (f x) g)"
  by (cases m) simp_all

lemma bind_outcome_Ret [outcome_simps]: "bind_outcome m Ret = m"
  by (cases m) simp_all

lemma bind_outcome_eq_Ret:
  "bind_outcome m f = Ret y \<longleftrightarrow> (\<exists>x. m = Ret x \<and> f x = Ret y)"
  by (cases m) simp_all

lemma bind_outcome_eq_Panic:
  "bind_outcome m f = Panic \<longleftrightarrow> m = Panic \<or> (\<exists>x. m = Ret x \<and> f x = Panic)"
  by (cases m) simp_all


section \<open>Strings\<close>

text \<open>\<open>str::contains\<close>: \<open>needle\<close> occurs in \<open>hay\<close> as a contiguous substring.\<close>

fun str_contains :: "string \<Rightarrow> string \<Rightarrow> bool" where
  "str_contains [] needle = (needle = [])"
| "str_contains (c # cs) needle = (prefix needle (c # cs) \<or> str_contains cs needle)"

lemma str_contains_sublist: "str_contains hay needle \<longleftrightarrow> sublist needle hay"
  by (induction hay) (auto simp: sublist_Cons_right)

text \<open>
  \<open>str::split_once\<close>: the parts before and after the first occurrence of \<open>sep\<close>, which is not
  empty in the modelled code.
\<close>

fun split_once :: "string \<Rightarrow> string \<Rightarrow> (string \<times> string) option" where
  "split_once sep [] = (if sep = [] then Some ([], []) else None)"
| "split_once sep (c # cs) =
     (if prefix sep (c # cs) then Some ([], drop (length sep) (c # cs))
      else map_option (\<lambda>(a, b). (c # a, b)) (split_once sep cs))"

lemma split_once_Some: "split_once sep s = Some (a, b) \<Longrightarrow> s = a @ sep @ b"
proof (induction s arbitrary: a)
  case Nil
  then show ?case by (simp split: if_splits)
next
  case (Cons c s)
  then show ?case by (auto simp: prefix_def split: if_splits)
qed

lemma split_once_None: "split_once sep s = None \<longleftrightarrow> \<not> sublist sep s"
  by (induction s) (auto simp: sublist_Cons_right)

lemma split_once_append:
  assumes "\<not> sublist sep (a @ butlast sep)" "sep \<noteq> []"
  shows "split_once sep (a @ sep @ b) = Some (a, b)"
  using assms
proof (induction a)
  case Nil
  then show ?case by (cases sep) simp_all
next
  case (Cons c a)
  have "\<not> prefix sep (c # a @ sep @ b)"
  proof
    assume p: "prefix sep (c # a @ sep @ b)"
    have "prefix (c # a @ butlast sep) (c # a @ sep @ b)"
      by (metis Cons.prems(2) append_Cons append_butlast_last_id prefixI append_assoc)
    moreover have "length sep \<le> length (c # a @ butlast sep)" by simp
    ultimately have "prefix sep (c # a @ butlast sep)"
      using p by (metis prefix_length_prefix)
    then show False using Cons.prems(1) by (simp add: prefix_imp_sublist)
  qed
  moreover have "\<not> sublist sep (a @ butlast sep)"
    using Cons.prems(1) by (auto simp: sublist_Cons_right)
  ultimately show ?case using Cons by (auto simp: prefix_def)
qed


section \<open>Options and lists\<close>

lemma map_eq_self_iff: "map f xs = xs \<longleftrightarrow> (\<forall>x \<in> set xs. f x = x)"
  by (induction xs) auto

lemma filter_nth_count:
  "i < length xs \<Longrightarrow> length (filter P (take (Suc i) xs)) =
     length (filter P (take i xs)) + (if P (xs ! i) then 1 else 0)"
  by (simp add: take_Suc_conv_app_nth)

end
