(* ===== verification/Binary_Id.thy ===== *)
theory Binary_Id
  imports Prelude "HOL-Library.Char_ord" "HOL-Library.List_Lexorder" "HOL-Library.Product_Lexorder"
begin

text \<open>
  Binary identifiers and test case names of \<open>nextest-metadata/src/test_list.rs\<close>: how an
  identifier is built from a package, a target kind and a target name
  (\<open>RustBinaryId::from_parts\<close>), how it is taken apart again (\<open>RustBinaryIdComponents::new\<close>),
  and the canonical order on identifiers, which compares components and not strings.

  The theorems show that construction and decomposition are inverse to each other, that
  decomposition loses nothing, so that the order is a total order compatible with equality
  (an instance of \<open>linorder\<close>), and that the identifiers of one package's targets are unique.
\<close>

section \<open>Kinds and identifiers\<close>

type_synonym package_name = string

datatype rust_test_binary_kind = RustTestBinaryKind (kind_str: string)

definition kind_LIB :: rust_test_binary_kind where "kind_LIB = RustTestBinaryKind ''lib''"
definition kind_TEST :: rust_test_binary_kind where "kind_TEST = RustTestBinaryKind ''test''"
definition kind_BENCH :: rust_test_binary_kind where "kind_BENCH = RustTestBinaryKind ''bench''"
definition kind_BIN :: rust_test_binary_kind where "kind_BIN = RustTestBinaryKind ''bin''"
definition kind_EXAMPLE :: rust_test_binary_kind where
  "kind_EXAMPLE = RustTestBinaryKind ''example''"
definition kind_PROC_MACRO :: rust_test_binary_kind where
  "kind_PROC_MACRO = RustTestBinaryKind ''proc-macro''"

lemmas kind_defs =
  kind_LIB_def kind_TEST_def kind_BENCH_def kind_BIN_def kind_EXAMPLE_def kind_PROC_MACRO_def

datatype rust_binary_id = RustBinaryId (id_str: string)

definition from_parts :: "package_name \<Rightarrow> rust_test_binary_kind \<Rightarrow> string \<Rightarrow> rust_binary_id" where
  "from_parts package_name kind target_name = RustBinaryId
     (if kind = kind_LIB \<or> kind = kind_PROC_MACRO then package_name
      else if kind = kind_TEST then package_name @ ''::'' @ target_name
      else package_name @ ''::'' @ kind_str kind @ ''/'' @ target_name)"

datatype name_and_kind = NoName | NameOnly string | NameAndKind string string

record binary_id_components =
  comp_package_name :: string
  comp_binary_name_and_kind :: name_and_kind

text \<open>
  \<open>s.splitn(2, sep)\<close> yields the text before the first separator and, if there is one, the
  whole text after it.
\<close>

definition components :: "rust_binary_id \<Rightarrow> binary_id_components" where
  "components bid =
     (case split_once ''::'' (id_str bid) of
        None \<Rightarrow> \<lparr>comp_package_name = id_str bid, comp_binary_name_and_kind = NoName\<rparr>
      | Some (pkg, rest) \<Rightarrow>
          \<lparr>comp_package_name = pkg,
           comp_binary_name_and_kind =
             (case split_once ''/'' rest of
                None \<Rightarrow> NameOnly rest
              | Some (kind, binary_name) \<Rightarrow> NameAndKind kind binary_name)\<rparr>)"

fun from_components :: "binary_id_components \<Rightarrow> string" where
  "from_components c = comp_package_name c @
     (case comp_binary_name_and_kind c of
        NoName \<Rightarrow> [] | NameOnly n \<Rightarrow> ''::'' @ n | NameAndKind k n \<Rightarrow> ''::'' @ k @ ''/'' @ n)"

lemma from_components_components: "from_components (components bid) = id_str bid"
  by (auto simp: components_def split: option.splits dest!: split_once_Some)

lemma components_inject: "components a = components b \<longleftrightarrow> a = b"
  by (metis from_components_components rust_binary_id.expand)


section \<open>Round trip between parts and identifier\<close>

text \<open>
  A package name from \<open>Cargo.toml\<close> holds neither \<open>:\<close> nor \<open>/\<close>; a target name holds no
  \<open>/\<close>, and neither does a target kind.
\<close>

definition plain_name :: "string \<Rightarrow> bool" where
  "plain_name s \<longleftrightarrow> CHR '':'' \<notin> set s \<and> CHR ''/'' \<notin> set s"

definition kind_and_name :: "rust_test_binary_kind \<Rightarrow> string \<Rightarrow> name_and_kind" where
  "kind_and_name kind name =
     (if kind = kind_LIB \<or> kind = kind_PROC_MACRO then NoName
      else if kind = kind_TEST then NameOnly name
      else NameAndKind (kind_str kind) name)"

lemma split_once_colons:
  "CHR '':'' \<notin> set a \<Longrightarrow> split_once ''::'' (a @ ''::'' @ b) = Some (a, b)"
  by (rule split_once_append) (auto simp: sublist_def append_eq_append_conv2 append_eq_Cons_conv Cons_eq_append_conv)

lemma split_once_slash:
  "CHR ''/'' \<notin> set a \<Longrightarrow> split_once ''/'' (a @ ''/'' @ b) = Some (a, b)"
  by (rule split_once_append) (auto simp: sublist_def)

lemma split_once_absent: "c \<notin> set s \<Longrightarrow> c \<in> set sep \<Longrightarrow> split_once sep s = None"
  by (auto simp: split_once_None dest: set_mono_sublist)

lemma components_from_parts:
  assumes "plain_name pkg" "plain_name (kind_str kind)" "plain_name name"
  shows "components (from_parts pkg kind name) =
     \<lparr>comp_package_name = pkg, comp_binary_name_and_kind = kind_and_name kind name\<rparr>"
  using assms split_once_colons [of pkg] split_once_slash [of "kind_str kind" name]
  by (simp add: components_def from_parts_def kind_and_name_def plain_name_def
      split_once_absent [of "CHR '':''"] split_once_absent [of "CHR ''/''"])

lemma from_parts_inject:
  assumes "plain_name p1" "plain_name (kind_str k1)" "plain_name n1"
    and "plain_name p2" "plain_name (kind_str k2)" "plain_name n2"
  shows "from_parts p1 k1 n1 = from_parts p2 k2 n2 \<longleftrightarrow>
     p1 = p2 \<and> kind_and_name k1 n1 = kind_and_name k2 n2"
proof
  assume "from_parts p1 k1 n1 = from_parts p2 k2 n2"
  then have "components (from_parts p1 k1 n1) = components (from_parts p2 k2 n2)" by simp
  then show "p1 = p2 \<and> kind_and_name k1 n1 = kind_and_name k2 n2"
    using assms by (simp add: components_from_parts)
next
  assume "p1 = p2 \<and> kind_and_name k1 n1 = kind_and_name k2 n2"
  then show "from_parts p1 k1 n1 = from_parts p2 k2 n2"
    by (metis assms components_from_parts components_inject)
qed


section \<open>The canonical order\<close>

text \<open>
  \<open>#[derive(Ord)]\<close> compares enum variants in declaration order, then their fields, and
  struct fields in declaration order. A variant is encoded as its index and its fields.
\<close>

fun name_and_kind_key :: "name_and_kind \<Rightarrow> nat \<times> string \<times> string" where
  "name_and_kind_key NoName = (0, [], [])"
| "name_and_kind_key (NameOnly n) = (1, n, [])"
| "name_and_kind_key (NameAndKind k n) = (2, k, n)"

lemma name_and_kind_key_inject: "name_and_kind_key a = name_and_kind_key b \<longleftrightarrow> a = b"
  by (cases a; cases b) auto

definition components_key :: "binary_id_components \<Rightarrow> string \<times> nat \<times> string \<times> string" where
  "components_key c = (comp_package_name c, name_and_kind_key (comp_binary_name_and_kind c))"

lemma components_key_inject: "components_key a = components_key b \<longleftrightarrow> a = b"
  by (cases a; cases b) (simp add: components_key_def name_and_kind_key_inject)

text \<open>The canonical order of binary identifiers compares their components.\<close>

definition binary_id_le :: "rust_binary_id \<Rightarrow> rust_binary_id \<Rightarrow> bool" where
  "binary_id_le a b \<longleftrightarrow> components_key (components a) \<le> components_key (components b)"

instantiation rust_binary_id :: linorder
begin

definition less_eq_rust_binary_id :: "rust_binary_id \<Rightarrow> rust_binary_id \<Rightarrow> bool" where
  "less_eq_rust_binary_id = binary_id_le"

definition less_rust_binary_id :: "rust_binary_id \<Rightarrow> rust_binary_id \<Rightarrow> bool" where
  "a < b \<longleftrightarrow> components_key (components a) < components_key (components b)"

instance
proof
  fix x y z :: rust_binary_id
  show "x \<le> x" by (simp add: less_eq_rust_binary_id_def binary_id_le_def)
  show "(x < y) = (x \<le> y \<and> \<not> y \<le> x)"
    by (auto simp: less_eq_rust_binary_id_def binary_id_le_def less_rust_binary_id_def)
  show "x \<le> y \<Longrightarrow> y \<le> z \<Longrightarrow> x \<le> z"
    by (simp add: less_eq_rust_binary_id_def binary_id_le_def)
  show "x \<le> y \<Longrightarrow> y \<le> x \<Longrightarrow> x = y"
    by (metis antisym components_inject components_key_inject less_eq_rust_binary_id_def binary_id_le_def)
  show "x \<le> y \<or> y \<le> x"
    unfolding less_eq_rust_binary_id_def binary_id_le_def by (rule linear)
qed

end


section \<open>Test case names\<close>

datatype test_case_name = TestCaseName (case_str: string)

instantiation test_case_name :: linorder
begin

definition less_eq_test_case_name :: "test_case_name \<Rightarrow> test_case_name \<Rightarrow> bool" where
  "a \<le> b \<longleftrightarrow> case_str a \<le> case_str b"

definition less_test_case_name :: "test_case_name \<Rightarrow> test_case_name \<Rightarrow> bool" where
  "a < b \<longleftrightarrow> case_str a < case_str b"

instance
  by standard (auto simp: less_eq_test_case_name_def less_test_case_name_def test_case_name.expand)

end

text \<open>A test instance is identified, and sorted, by its binary and then by its name.\<close>

type_synonym test_instance_id = "rust_binary_id \<times> test_case_name"

text \<open>\<open>module_path_and_name\<close> splits at the last \<open>::\<close>.\<close>

fun rsplit_once_colons :: "string \<Rightarrow> (string \<times> string) option" where
  "rsplit_once_colons [] = None"
| "rsplit_once_colons (c # cs) =
     (case rsplit_once_colons cs of
        Some (a, b) \<Rightarrow> Some (c # a, b)
      | None \<Rightarrow> if prefix ''::'' (c # cs) then Some ([], drop 2 (c # cs)) else None)"

definition module_path_and_name :: "test_case_name \<Rightarrow> string option \<times> string" where
  "module_path_and_name t =
     (case rsplit_once_colons (case_str t) of
        Some (module_path, name) \<Rightarrow> (Some module_path, name)
      | None \<Rightarrow> (None, case_str t))"

lemma rsplit_once_colons_Some:
  "rsplit_once_colons s = Some (a, b) \<Longrightarrow> s = a @ ''::'' @ b"
  by (induction s arbitrary: a) (auto simp: prefix_def split: option.splits if_splits)

lemma rsplit_once_colons_None: "rsplit_once_colons s = None \<longleftrightarrow> \<not> sublist ''::'' s"
  by (induction s) (auto simp: sublist_Cons_right split: option.splits)

lemma rsplit_once_colons_last:
  "rsplit_once_colons s = Some (a, b) \<Longrightarrow> \<not> sublist ''::'' b"
proof (induction s arbitrary: a)
  case (Cons c s)
  show ?case
  proof (cases "rsplit_once_colons s")
    case None
    then have "\<not> sublist ''::'' s" by (simp add: rsplit_once_colons_None)
    moreover have "suffix b s"
      using Cons.prems None by (auto simp: prefix_def suffix_def split: if_splits)
    ultimately show ?thesis
      by (meson sublist_order.order.trans suffix_imp_sublist)
  next
    case (Some ab)
    with Cons show ?thesis by (cases ab) auto
  qed
qed simp


section \<open>Whether a test matches the filters\<close>

datatype mismatch_reason =
    MNotBenchmark | MIgnored | MString | MExpression | MPartition | MRerunAlreadyPassed | MDefaultFilter

fun is_substantive_skip :: "mismatch_reason \<Rightarrow> bool" where
  "is_substantive_skip MNotBenchmark = False"
| "is_substantive_skip _ = True"

fun is_ignore_mismatch :: "mismatch_reason \<Rightarrow> bool" where
  "is_ignore_mismatch MIgnored = True"
| "is_ignore_mismatch _ = False"

datatype filter_match = Matches | Mismatch mismatch_reason

definition filter_match_is_match :: "filter_match \<Rightarrow> bool" where
  "filter_match_is_match m = (m = Matches)"

datatype rust_test_kind = RustTestKind (test_kind_str: string)

instantiation rust_test_kind :: linorder
begin

definition less_eq_rust_test_kind :: "rust_test_kind \<Rightarrow> rust_test_kind \<Rightarrow> bool" where
  "less_eq_rust_test_kind a b \<longleftrightarrow> test_kind_str a \<le> test_kind_str b"

definition less_rust_test_kind :: "rust_test_kind \<Rightarrow> rust_test_kind \<Rightarrow> bool" where
  "less_rust_test_kind a b \<longleftrightarrow> test_kind_str a < test_kind_str b"

instance
  by standard (auto simp: less_eq_rust_test_kind_def less_rust_test_kind_def rust_test_kind.expand)

end

definition kind_test :: rust_test_kind where "kind_test = RustTestKind ''test''"
definition kind_bench :: rust_test_kind where "kind_bench = RustTestKind ''bench''"

end
