(* ===== verification/Filterset_Expr.thy ===== *)
theory Filterset_Expr
  imports Binary_Id
begin

text \<open>
  Compiled filtersets, \<open>nextest-filtering/src/expression.rs\<close>: name matchers, leaves,
  expressions, the two evaluators (\<open>matches_test\<close> on a test, \<open>matches_binary\<close> on a whole
  binary in Kleene's three-valued logic), the resolution of \<open>group()\<close> predicates and the
  known-group check.

  The regex engine and the glob library are outside the repository: they are the fields of a
  record \<open>regex_engine\<close> that every definition using them takes as an argument.

  \<open>default()\<close> evaluates the default filter, which may itself hold \<open>default()\<close>: the
  evaluators take fuel, the number of nested expressions they may enter, and \<open>None\<close> is the
  recursion that does not return. Two units are enough for a default filter without
  \<open>default()\<close> (\<open>matches_test_returns\<close>), and no fuel is enough otherwise
  (\<open>default_in_default_diverges\<close>).
\<close>

section \<open>Name matchers\<close>

type_synonym regex_source = string

record regex_engine =
  regex_is_match :: "regex_source \<Rightarrow> string \<Rightarrow> bool"
  bytes_regex_is_match :: "regex_source \<Rightarrow> string \<Rightarrow> bool"

text \<open>A glob is kept as written, with the regex the glob library translates it to.\<close>

record generic_glob =
  glob_str :: string
  glob_regex :: regex_source

definition glob_is_match :: "regex_engine \<Rightarrow> generic_glob \<Rightarrow> string \<Rightarrow> bool" where
  "glob_is_match re g s = bytes_regex_is_match re (glob_regex g) s"

datatype name_matcher =
    Equal string bool
  | Contains string bool
  | Glob generic_glob bool
  | Regex regex_source

definition implicit_equal :: "string \<Rightarrow> name_matcher" where
  "implicit_equal value = Equal value True"

definition implicit_contains :: "string \<Rightarrow> name_matcher" where
  "implicit_contains value = Contains value True"

fun is_match :: "regex_engine \<Rightarrow> name_matcher \<Rightarrow> string \<Rightarrow> bool" where
  "is_match re (Equal value _) input = (value = input)"
| "is_match re (Contains value _) input = str_contains input value"
| "is_match re (Glob glob _) input = glob_is_match re glob input"
| "is_match re (Regex r) input = regex_is_match re r input"

text \<open>
  \<open>PartialEq\<close> is written by hand: globs are compared by their regex only, whether or not they
  were written implicitly.
\<close>

fun matcher_eq :: "name_matcher \<Rightarrow> name_matcher \<Rightarrow> bool" where
  "matcher_eq (Contains s1 d1) (Contains s2 d2) = (s1 = s2 \<and> d1 = d2)"
| "matcher_eq (Equal s1 d1) (Equal s2 d2) = (s1 = s2 \<and> d1 = d2)"
| "matcher_eq (Regex r1) (Regex r2) = (r1 = r2)"
| "matcher_eq (Glob g1 _) (Glob g2 _) = (glob_regex g1 = glob_regex g2)"
| "matcher_eq _ _ = False"


section \<open>Leaves, queries and expressions\<close>

type_synonym package_id = string
type_synonym source_span = "nat \<times> nat"

datatype build_platform = Target | Host

datatype filterset_leaf =
    LPackages "package_id set"
  | LKind name_matcher source_span
  | LPlatform build_platform source_span
  | LBinary name_matcher source_span
  | LBinaryId name_matcher source_span
  | LTest name_matcher source_span
  | LGroup name_matcher source_span
  | LDefault
  | LAll
  | LNone

fun leaf_is_runtime_only :: "filterset_leaf \<Rightarrow> bool" where
  "leaf_is_runtime_only (LTest _ _) = True"
| "leaf_is_runtime_only (LGroup _ _) = True"
| "leaf_is_runtime_only LDefault = True"
| "leaf_is_runtime_only _ = False"

record binary_query =
  bq_package_id :: package_id
  bq_binary_id :: rust_binary_id
  bq_binary_name :: string
  bq_kind :: rust_test_binary_kind
  bq_platform :: build_platform

record test_query =
  binary_query_of :: binary_query
  tq_test_name :: test_case_name

datatype compiled_expr =
    CNot compiled_expr
  | CUnion compiled_expr compiled_expr
  | CIntersection compiled_expr compiled_expr
  | CSet filterset_leaf

definition compiled_ALL :: compiled_expr where "compiled_ALL = CSet LAll"

text \<open>
  One layer of an expression with its children already evaluated, and the bottom-up fold of a
  compiled expression over such layers. Every child is evaluated: there is no short circuit.
\<close>

datatype ('s, 'a) expr_frame =
    FNot 'a
  | FUnion 'a 'a
  | FIntersection 'a 'a
  | FDifference 'a 'a
  | FParens 'a
  | FSet 's

primrec collapse_compiled :: "((filterset_leaf, 'a) expr_frame \<Rightarrow> 'a) \<Rightarrow> compiled_expr \<Rightarrow> 'a" where
  "collapse_compiled f (CNot a) = f (FNot (collapse_compiled f a))"
| "collapse_compiled f (CUnion a b) = f (FUnion (collapse_compiled f a) (collapse_compiled f b))"
| "collapse_compiled f (CIntersection a b) =
     f (FIntersection (collapse_compiled f a) (collapse_compiled f b))"
| "collapse_compiled f (CSet leaf) = f (FSet leaf)"

text \<open>The leaves of an expression, from left to right.\<close>

primrec compiled_leaves :: "compiled_expr \<Rightarrow> filterset_leaf list" where
  "compiled_leaves (CNot a) = compiled_leaves a"
| "compiled_leaves (CUnion a b) = compiled_leaves a @ compiled_leaves b"
| "compiled_leaves (CIntersection a b) = compiled_leaves a @ compiled_leaves b"
| "compiled_leaves (CSet leaf) = [leaf]"

fun is_group_leaf :: "filterset_leaf \<Rightarrow> bool" where
  "is_group_leaf (LGroup _ _) = True"
| "is_group_leaf _ = False"

fun has_group_frame :: "(filterset_leaf, bool) expr_frame \<Rightarrow> bool" where
  "has_group_frame (FSet leaf) = is_group_leaf leaf"
| "has_group_frame (FNot a) = a"
| "has_group_frame (FUnion a b) = (a \<or> b)"
| "has_group_frame (FIntersection a b) = (a \<or> b)"
| "has_group_frame (FDifference a b) = (a \<or> b)"
| "has_group_frame (FParens a) = a"

definition has_group_matchers :: "compiled_expr \<Rightarrow> bool" where
  "has_group_matchers e = collapse_compiled has_group_frame e"

lemma has_group_matchers_leaves:
  "has_group_matchers e \<longleftrightarrow> (\<exists>l \<in> set (compiled_leaves e). is_group_leaf l)"
  by (induction e) (auto simp: has_group_matchers_def)


section \<open>Three-valued logic\<close>

text \<open>\<open>impl Logic for Option<bool>\<close>: \<open>None\<close> is the unknown value.\<close>

definition logic_top :: "bool option" where "logic_top = Some True"
definition logic_bottom :: "bool option" where "logic_bottom = Some False"

fun logic_and :: "bool option \<Rightarrow> bool option \<Rightarrow> bool option" where
  "logic_and (Some False) _ = Some False"
| "logic_and _ (Some False) = Some False"
| "logic_and (Some True) (Some True) = Some True"
| "logic_and _ _ = None"

fun logic_or :: "bool option \<Rightarrow> bool option \<Rightarrow> bool option" where
  "logic_or (Some True) _ = Some True"
| "logic_or _ (Some True) = Some True"
| "logic_or (Some False) (Some False) = Some False"
| "logic_or _ _ = None"

definition logic_not :: "bool option \<Rightarrow> bool option" where
  "logic_not a = map_option Not a"

text \<open>The information order: a known value is above the unknown one.\<close>

definition approx :: "bool option \<Rightarrow> bool \<Rightarrow> bool" where
  "approx v b \<longleftrightarrow> v = None \<or> v = Some b"

lemma logic_and_eq:
  "logic_and a b = Some True \<longleftrightarrow> a = Some True \<and> b = Some True"
  "logic_and a b = Some False \<longleftrightarrow> a = Some False \<or> b = Some False"
  by (induction a b rule: logic_and.induct) auto

lemma logic_or_eq:
  "logic_or a b = Some True \<longleftrightarrow> a = Some True \<or> b = Some True"
  "logic_or a b = Some False \<longleftrightarrow> a = Some False \<and> b = Some False"
  by (induction a b rule: logic_or.induct) auto

lemma logic_not_eq: "logic_not a = Some v \<longleftrightarrow> a = Some (\<not> v)"
  by (cases a) (auto simp: logic_not_def)

lemma logic_not_involutive: "logic_not (logic_not a) = a"
  by (cases a) (simp_all add: logic_not_def)

lemma logic_de_morgan: "logic_not (logic_and a b) = logic_or (logic_not a) (logic_not b)"
  by (induction a b rule: logic_and.induct) (auto simp: logic_not_def)

lemma approx_and: "approx a x \<Longrightarrow> approx b y \<Longrightarrow> approx (logic_and a b) (x \<and> y)"
  by (cases x; cases y) (auto simp: approx_def)

lemma approx_or: "approx a x \<Longrightarrow> approx b y \<Longrightarrow> approx (logic_or a b) (x \<or> y)"
  by (cases x; cases y) (auto simp: approx_def)

lemma approx_not: "approx a x \<Longrightarrow> approx (logic_not a) (\<not> x)"
  by (auto simp: approx_def logic_not_def)

lemmas approx_intros = approx_and approx_or approx_not

lemma logic_and_decided: "logic_and a b = None \<Longrightarrow> a = None \<or> b = None"
  by (induction a b rule: logic_and.induct) auto

lemma logic_or_decided: "logic_or a b = None \<Longrightarrow> a = None \<or> b = None"
  by (induction a b rule: logic_or.induct) auto

lemma logic_not_None: "logic_not a = None \<longleftrightarrow> a = None"
  by (simp add: logic_not_def)


section \<open>Evaluation on a test\<close>

text \<open>
  \<open>NoGroups\<close> panics on a \<open>group()\<close> predicate; \<open>WithGroups\<close> asks the lookup provided by the
  runner.
\<close>

datatype group_resolver = NoGroups | WithGroups "test_query \<Rightarrow> name_matcher \<Rightarrow> bool"

fun resolve_group :: "group_resolver \<Rightarrow> test_query \<Rightarrow> name_matcher \<Rightarrow> bool outcome" where
  "resolve_group NoGroups query matcher = Panic"
| "resolve_group (WithGroups lookup) query matcher = Ret (lookup query matcher)"

text \<open>
  \<open>default_result\<close> is what evaluating the default filter with \<open>NoGroups\<close> gives, \<open>None\<close> if
  that does not return.
\<close>

fun leaf_matches_test ::
  "regex_engine \<Rightarrow> bool outcome option \<Rightarrow> test_query \<Rightarrow> group_resolver \<Rightarrow> filterset_leaf
     \<Rightarrow> bool outcome option" where
  "leaf_matches_test re default_result query groups LAll = Some (Ret True)"
| "leaf_matches_test re default_result query groups LNone = Some (Ret False)"
| "leaf_matches_test re default_result query groups LDefault = default_result"
| "leaf_matches_test re default_result query groups (LTest matcher _) =
     Some (Ret (is_match re matcher (case_str (tq_test_name query))))"
| "leaf_matches_test re default_result query groups (LBinary matcher _) =
     Some (Ret (is_match re matcher (bq_binary_name (binary_query_of query))))"
| "leaf_matches_test re default_result query groups (LBinaryId matcher _) =
     Some (Ret (is_match re matcher (id_str (bq_binary_id (binary_query_of query)))))"
| "leaf_matches_test re default_result query groups (LPlatform platform _) =
     Some (Ret (bq_platform (binary_query_of query) = platform))"
| "leaf_matches_test re default_result query groups (LKind matcher _) =
     Some (Ret (is_match re matcher (kind_str (bq_kind (binary_query_of query)))))"
| "leaf_matches_test re default_result query groups (LPackages packages) =
     Some (Ret (bq_package_id (binary_query_of query) \<in> packages))"
| "leaf_matches_test re default_result query groups (LGroup matcher _) =
     Some (resolve_group groups query matcher)"

text \<open>Two evaluations in sequence: the first that does not return or panics decides.\<close>

definition eval2 ::
  "(bool \<Rightarrow> bool \<Rightarrow> bool) \<Rightarrow> bool outcome option \<Rightarrow> bool outcome option \<Rightarrow> bool outcome option" where
  "eval2 f x y = Option.bind x (\<lambda>a. case a of
     Panic \<Rightarrow> Some Panic
   | Ret va \<Rightarrow> Option.bind y (\<lambda>b. Some (bind_outcome b (\<lambda>vb. Ret (f va vb)))))"

fun test_frame ::
  "(filterset_leaf \<Rightarrow> bool outcome option) \<Rightarrow> (filterset_leaf, bool outcome option) expr_frame
     \<Rightarrow> bool outcome option" where
  "test_frame leaf (FSet s) = leaf s"
| "test_frame leaf (FNot a) = map_option (\<lambda>r. bind_outcome r (\<lambda>v. Ret (\<not> v))) a"
| "test_frame leaf (FUnion a b) = eval2 (\<or>) a b"
| "test_frame leaf (FIntersection a b) = eval2 (\<and>) a b"
| "test_frame leaf (FDifference a b) = eval2 (\<lambda>x y. x \<and> \<not> y) a b"
| "test_frame leaf (FParens a) = a"

primrec matches_test_impl ::
  "nat \<Rightarrow> regex_engine \<Rightarrow> compiled_expr \<Rightarrow> test_query \<Rightarrow> group_resolver \<Rightarrow> compiled_expr
     \<Rightarrow> bool outcome option" where
  "matches_test_impl 0 re default_filter query groups e = None"
| "matches_test_impl (Suc fuel) re default_filter query groups e =
     collapse_compiled
       (test_frame (leaf_matches_test re
          (matches_test_impl fuel re default_filter query NoGroups default_filter) query groups)) e"

definition matches_test ::
  "nat \<Rightarrow> regex_engine \<Rightarrow> compiled_expr \<Rightarrow> test_query \<Rightarrow> compiled_expr \<Rightarrow> bool outcome option" where
  "matches_test fuel re default_filter query e =
     matches_test_impl fuel re default_filter query NoGroups e"

definition matches_test_with_groups ::
  "nat \<Rightarrow> regex_engine \<Rightarrow> compiled_expr \<Rightarrow> test_query \<Rightarrow> (test_query \<Rightarrow> name_matcher \<Rightarrow> bool)
     \<Rightarrow> compiled_expr \<Rightarrow> bool outcome option" where
  "matches_test_with_groups fuel re default_filter query lookup e =
     matches_test_impl fuel re default_filter query (WithGroups lookup) e"


section \<open>Evaluation on a binary\<close>

fun leaf_matches_binary ::
  "regex_engine \<Rightarrow> bool option option \<Rightarrow> binary_query \<Rightarrow> filterset_leaf \<Rightarrow> bool option option" where
  "leaf_matches_binary re default_result query LAll = Some logic_top"
| "leaf_matches_binary re default_result query LNone = Some logic_bottom"
| "leaf_matches_binary re default_result query LDefault = default_result"
| "leaf_matches_binary re default_result query (LTest _ _) = Some None"
| "leaf_matches_binary re default_result query (LBinary matcher _) =
     Some (Some (is_match re matcher (bq_binary_name query)))"
| "leaf_matches_binary re default_result query (LBinaryId matcher _) =
     Some (Some (is_match re matcher (id_str (bq_binary_id query))))"
| "leaf_matches_binary re default_result query (LPlatform platform _) =
     Some (Some (bq_platform query = platform))"
| "leaf_matches_binary re default_result query (LKind matcher _) =
     Some (Some (is_match re matcher (kind_str (bq_kind query))))"
| "leaf_matches_binary re default_result query (LPackages packages) =
     Some (Some (bq_package_id query \<in> packages))"
| "leaf_matches_binary re default_result query (LGroup _ _) = Some None"

definition lift2 :: "('a \<Rightarrow> 'b \<Rightarrow> 'c) \<Rightarrow> 'a option \<Rightarrow> 'b option \<Rightarrow> 'c option" where
  "lift2 f x y = Option.bind x (\<lambda>a. map_option (f a) y)"

fun binary_frame ::
  "(filterset_leaf \<Rightarrow> bool option option) \<Rightarrow> (filterset_leaf, bool option option) expr_frame
     \<Rightarrow> bool option option" where
  "binary_frame leaf (FSet s) = leaf s"
| "binary_frame leaf (FNot a) = map_option logic_not a"
| "binary_frame leaf (FUnion a b) = lift2 logic_or a b"
| "binary_frame leaf (FIntersection a b) = lift2 logic_and a b"
| "binary_frame leaf (FDifference a b) = lift2 (\<lambda>x y. logic_and x (logic_not y)) a b"
| "binary_frame leaf (FParens a) = a"

primrec matches_binary ::
  "nat \<Rightarrow> regex_engine \<Rightarrow> compiled_expr \<Rightarrow> binary_query \<Rightarrow> compiled_expr \<Rightarrow> bool option option" where
  "matches_binary 0 re default_filter query e = None"
| "matches_binary (Suc fuel) re default_filter query e =
     collapse_compiled
       (binary_frame (leaf_matches_binary re
          (matches_binary fuel re default_filter query default_filter) query)) e"


section \<open>Known groups\<close>

definition GLOBAL_TEST_GROUP :: string where "GLOBAL_TEST_GROUP = ''@global''"

datatype known_groups = Known "string set" | Unavailable

fun known_groups_matches :: "regex_engine \<Rightarrow> known_groups \<Rightarrow> name_matcher \<Rightarrow> bool outcome" where
  "known_groups_matches re Unavailable matcher = Panic"
| "known_groups_matches re (Known custom_groups) matcher =
     (if is_match re matcher GLOBAL_TEST_GROUP then Ret True
      else case matcher of
          Equal value _ \<Rightarrow> Ret (value \<in> custom_groups)
        | _ \<Rightarrow> Ret (\<exists>g \<in> custom_groups. is_match re matcher g))"

text \<open>The fast path for \<open>Equal\<close> agrees with the general search.\<close>

lemma known_groups_matches_iff:
  "known_groups_matches re (Known gs) m =
     Ret (\<exists>g \<in> insert GLOBAL_TEST_GROUP gs. is_match re m g)"
  by (cases m) auto


section \<open>Folding an expression with two algebras\<close>

text \<open>
  Both evaluators are folds over the same layers. A relation between their results that holds
  at the leaves and is kept by each operator holds for the whole expression.
\<close>

locale frame_simulation =
  fixes f :: "(filterset_leaf, 'a) expr_frame \<Rightarrow> 'a"
    and g :: "(filterset_leaf, 'b) expr_frame \<Rightarrow> 'b"
    and R :: "'a \<Rightarrow> 'b \<Rightarrow> bool"
  assumes sim_not: "R a b \<Longrightarrow> R (f (FNot a)) (g (FNot b))"
    and sim_union: "R a b \<Longrightarrow> R a' b' \<Longrightarrow> R (f (FUnion a a')) (g (FUnion b b'))"
    and sim_inter: "R a b \<Longrightarrow> R a' b' \<Longrightarrow> R (f (FIntersection a a')) (g (FIntersection b b'))"
begin

lemma collapse_sim:
  assumes "\<And>l. l \<in> set (compiled_leaves e) \<Longrightarrow> R (f (FSet l)) (g (FSet l))"
  shows "R (collapse_compiled f e) (collapse_compiled g e)"
  using assms by (induction e) (simp_all add: sim_not sim_union sim_inter)

end

text \<open>What an expression means: the truth value of each leaf, combined classically.\<close>

primrec denote :: "(filterset_leaf \<Rightarrow> bool) \<Rightarrow> compiled_expr \<Rightarrow> bool" where
  "denote v (CNot a) = (\<not> denote v a)"
| "denote v (CUnion a b) = (denote v a \<or> denote v b)"
| "denote v (CIntersection a b) = (denote v a \<and> denote v b)"
| "denote v (CSet leaf) = v leaf"

fun denote_frame :: "(filterset_leaf \<Rightarrow> bool) \<Rightarrow> (filterset_leaf, bool) expr_frame \<Rightarrow> bool" where
  "denote_frame v (FSet l) = v l"
| "denote_frame v (FNot a) = (\<not> a)"
| "denote_frame v (FUnion a b) = (a \<or> b)"
| "denote_frame v (FIntersection a b) = (a \<and> b)"
| "denote_frame v (FDifference a b) = (a \<and> \<not> b)"
| "denote_frame v (FParens a) = a"

lemma collapse_denote: "collapse_compiled (denote_frame v) e = denote v e"
  by (induction e) simp_all

lemma denote_cong: "(\<And>l. l \<in> set (compiled_leaves e) \<Longrightarrow> v l = w l) \<Longrightarrow> denote v e = denote w e"
  by (induction e) simp_all

definition returns :: "bool outcome option \<Rightarrow> bool \<Rightarrow> bool" where
  "returns r b \<longleftrightarrow> r = Some (Ret b)"

definition known_as :: "bool option option \<Rightarrow> bool \<Rightarrow> bool" where
  "known_as r b \<longleftrightarrow> (\<exists>v. r = Some v \<and> approx v b)"

lemma eval2_returns: "eval2 f (Some (Ret a)) (Some (Ret b)) = Some (Ret (f a b))"
  by (simp add: eval2_def)

interpretation test_den: frame_simulation "test_frame lt" "denote_frame v" returns for lt v
  by unfold_locales (auto simp: returns_def eval2_returns)

interpretation bin_den: frame_simulation "binary_frame lb" "denote_frame v" known_as for lb v
  by unfold_locales (auto simp: known_as_def lift2_def approx_intros)

text \<open>
  The meaning of a leaf on a test, with \<open>lookup\<close> deciding group membership and \<open>d\<close> the
  meaning of the default filter.
\<close>

fun leaf_sem ::
  "regex_engine \<Rightarrow> bool \<Rightarrow> test_query \<Rightarrow> (test_query \<Rightarrow> name_matcher \<Rightarrow> bool) \<Rightarrow> filterset_leaf \<Rightarrow> bool" where
  "leaf_sem re d q lookup LAll = True"
| "leaf_sem re d q lookup LNone = False"
| "leaf_sem re d q lookup LDefault = d"
| "leaf_sem re d q lookup (LTest m _) = is_match re m (case_str (tq_test_name q))"
| "leaf_sem re d q lookup (LBinary m _) = is_match re m (bq_binary_name (binary_query_of q))"
| "leaf_sem re d q lookup (LBinaryId m _) = is_match re m (id_str (bq_binary_id (binary_query_of q)))"
| "leaf_sem re d q lookup (LPlatform p _) = (bq_platform (binary_query_of q) = p)"
| "leaf_sem re d q lookup (LKind m _) = is_match re m (kind_str (bq_kind (binary_query_of q)))"
| "leaf_sem re d q lookup (LPackages ps) = (bq_package_id (binary_query_of q) \<in> ps)"
| "leaf_sem re d q lookup (LGroup m _) = lookup q m"

definition default_free :: "compiled_expr \<Rightarrow> bool" where
  "default_free e \<longleftrightarrow> LDefault \<notin> set (compiled_leaves e)"

definition group_free :: "compiled_expr \<Rightarrow> bool" where
  "group_free e \<longleftrightarrow> (\<forall>l \<in> set (compiled_leaves e). \<not> is_group_leaf l)"

text \<open>A resolver answers every \<open>group()\<close> of an expression: it has a lookup, or there is none.\<close>

fun resolver_lookup :: "group_resolver \<Rightarrow> test_query \<Rightarrow> name_matcher \<Rightarrow> bool" where
  "resolver_lookup NoGroups = (\<lambda>_ _. False)"
| "resolver_lookup (WithGroups lookup) = lookup"

definition resolver_ok :: "group_resolver \<Rightarrow> compiled_expr \<Rightarrow> bool" where
  "resolver_ok g e \<longleftrightarrow> g \<noteq> NoGroups \<or> group_free e"

definition default_ok :: "compiled_expr \<Rightarrow> bool" where
  "default_ok df \<longleftrightarrow> default_free df \<and> group_free df"

definition test_sem ::
  "regex_engine \<Rightarrow> compiled_expr \<Rightarrow> test_query \<Rightarrow> (test_query \<Rightarrow> name_matcher \<Rightarrow> bool) \<Rightarrow> compiled_expr \<Rightarrow> bool" where
  "test_sem re df q lookup e =
     denote (leaf_sem re (denote (leaf_sem re False q (\<lambda>_ _. False)) df) q lookup) e"

lemma leaf_test_returns:
  assumes "l = LDefault \<Longrightarrow> returns d b" and "is_group_leaf l \<Longrightarrow> g \<noteq> NoGroups"
  shows "returns (leaf_matches_test re d q g l) (leaf_sem re b q (resolver_lookup g) l)"
  using assms by (cases l; cases g) (simp_all add: returns_def)

lemma matches_default_returns:
  assumes "default_ok df"
  shows "returns (matches_test_impl (Suc fuel) re df q NoGroups df)
           (denote (leaf_sem re False q (\<lambda>_ _. False)) df)"
  using assms unfolding matches_test_impl.simps collapse_denote [symmetric]
  by (intro test_den.collapse_sim)
    (auto simp: default_ok_def default_free_def group_free_def
      intro!: leaf_test_returns [where g = NoGroups, simplified])

lemma matches_test_impl_denotes:
  assumes "default_ok df" "resolver_ok g e"
  shows "matches_test_impl (Suc (Suc fuel)) re df q g e =
           Some (Ret (test_sem re df q (resolver_lookup g) e))"
proof -
  have "returns (matches_test_impl (Suc (Suc fuel)) re df q g e)
          (test_sem re df q (resolver_lookup g) e)"
    unfolding matches_test_impl.simps(2) [of "Suc fuel"] test_sem_def collapse_denote [symmetric, of _ e]
    using assms
    by (intro test_den.collapse_sim)
      (auto simp del: matches_test_impl.simps simp: resolver_ok_def group_free_def
        intro!: leaf_test_returns matches_default_returns)
  then show ?thesis by (simp only: returns_def)
qed

lemma leaf_binary_known:
  assumes "l = LDefault \<Longrightarrow> known_as d b"
  shows "known_as (leaf_matches_binary re d (binary_query_of q) l) (leaf_sem re b q lookup l)"
  using assms by (cases l) (auto simp: known_as_def approx_def logic_top_def logic_bottom_def)

lemma binary_default_known:
  assumes "default_ok df"
  shows "known_as (matches_binary (Suc fuel) re df (binary_query_of q) df)
           (denote (leaf_sem re False q (\<lambda>_ _. False)) df)"
  using assms unfolding matches_binary.simps collapse_denote [symmetric]
  by (intro bin_den.collapse_sim)
    (auto simp: default_ok_def default_free_def intro!: leaf_binary_known)

lemma matches_binary_known:
  assumes "default_ok df"
  shows "known_as (matches_binary (Suc (Suc fuel)) re df (binary_query_of q) e)
           (test_sem re df q lookup e)"
  unfolding matches_binary.simps(2) [of "Suc fuel"] test_sem_def collapse_denote [symmetric, of _ e]
  using assms
  by (intro bin_den.collapse_sim)
    (auto simp del: matches_binary.simps intro!: leaf_binary_known binary_default_known)

text \<open>An expression with \<open>default()\<close> returns no value where the default filter returns none.\<close>

lemma no_value_propagates:
  assumes "LDefault \<in> set (compiled_leaves e)" "\<And>b. d \<noteq> Some (Ret b)"
  shows "collapse_compiled (test_frame (leaf_matches_test re d q g)) e \<noteq> Some (Ret b)"
  using assms(1)
proof (induction e arbitrary: b)
  case (CNot a)
  then show ?case by (auto simp: bind_outcome_eq_Ret)
next
  case (CUnion a1 a2)
  then show ?case
    by (auto simp: eval2_def bind_outcome_eq_Ret split: outcome.splits Option.bind_splits)
next
  case (CIntersection a1 a2)
  then show ?case
    by (auto simp: eval2_def bind_outcome_eq_Ret split: outcome.splits Option.bind_splits)
next
  case (CSet l)
  then show ?case using assms(2) by simp
qed

lemma default_recursion_no_value:
  assumes "LDefault \<in> set (compiled_leaves df)"
  shows "matches_test_impl fuel re df q g df \<noteq> Some (Ret b)"
proof (induction fuel arbitrary: g b)
  case (Suc fuel)
  then show ?case using assms by (simp add: no_value_propagates)
qed simp

text \<open>At the level of binaries only \<open>test()\<close> and \<open>group()\<close> leave a binary undecided.\<close>

fun binary_decided_leaf :: "filterset_leaf \<Rightarrow> bool" where
  "binary_decided_leaf (LTest _ _) = False"
| "binary_decided_leaf (LGroup _ _) = False"
| "binary_decided_leaf _ = True"

definition decided_as :: "bool option option \<Rightarrow> bool \<Rightarrow> bool" where
  "decided_as r b \<longleftrightarrow> r = Some (Some b)"

lemma logic_Some:
  "logic_and (Some a) (Some b) = Some (a \<and> b)" "logic_or (Some a) (Some b) = Some (a \<or> b)"
  "logic_not (Some a) = Some (\<not> a)"
  by (cases a; cases b; simp add: logic_not_def)+

interpretation bin_dec: frame_simulation "binary_frame lb" "denote_frame v" decided_as for lb v
  by unfold_locales (simp_all add: decided_as_def lift2_def logic_Some)

lemma collapse_binary_decided:
  assumes "\<And>l. l \<in> set (compiled_leaves e) \<Longrightarrow> \<exists>b. leaf l = Some (Some b)"
  shows "\<exists>b. collapse_compiled (binary_frame leaf) e = Some (Some b)"
proof -
  have "decided_as (binary_frame leaf (FSet l)) (denote_frame (\<lambda>l. the (the (leaf l))) (FSet l))"
    if "l \<in> set (compiled_leaves e)" for l
    using assms [OF that] by (auto simp: decided_as_def)
  from bin_dec.collapse_sim [OF this] show ?thesis by (auto simp: decided_as_def)
qed

lemma leaf_binary_decided:
  "binary_decided_leaf l \<Longrightarrow> (l = LDefault \<Longrightarrow> \<exists>b. d = Some (Some b)) \<Longrightarrow>
     \<exists>b. leaf_matches_binary re d q l = Some (Some b)"
  by (cases l) (simp_all add: logic_top_def logic_bottom_def ex_bool_eq)

lemma matches_binary_decided:
  assumes "default_free df" "\<forall>l \<in> set (compiled_leaves df). binary_decided_leaf l"
    and "\<forall>l \<in> set (compiled_leaves e). binary_decided_leaf l"
  shows "\<exists>b. matches_binary (Suc (Suc fuel)) re df q e = Some (Some b)"
proof -
  have "\<exists>b. matches_binary (Suc fuel) re df q df = Some (Some b)"
    using assms(1,2) by (auto simp: default_free_def intro!: collapse_binary_decided leaf_binary_decided)
  then show ?thesis
    unfolding matches_binary.simps(2) [of "Suc fuel"] using assms(3)
    by (auto simp del: matches_binary.simps intro!: collapse_binary_decided leaf_binary_decided)
qed

end
