(* ===== verification/Filterset_Compile.thy ===== *)
theory Filterset_Compile
  imports Filterset_Expr
begin

text \<open>
  Compilation of parsed filtersets, \<open>nextest-filtering/src/compile.rs\<close> with the parsed syntax
  of \<open>parsing.rs\<close> and the parse-context cache of \<open>expression.rs\<close>. The package graph (the
  \<open>guppy\<close> library) is a parameter: the workspace packages with their build targets, and the
  dependency query, whose error result is \<open>None\<close>.

  The theorems show that compilation keeps the meaning of the source expression, that each
  kind of filterset is free of the predicates banned for it, that a compiled default filter
  makes evaluation return without a panic, and which errors compilation reports.
\<close>

section \<open>Parsed syntax\<close>

datatype not_operator = LiteralNot | Exclamation
datatype or_operator = LiteralOr | Pipe | Plus
datatype and_operator = LiteralAnd | Ampersand
datatype difference_operator = Minus

datatype parsed_leaf =
    PPackage name_matcher source_span
  | PDeps name_matcher source_span
  | PRdeps name_matcher source_span
  | PKind name_matcher source_span
  | PBinary name_matcher source_span
  | PBinaryId name_matcher source_span
  | PPlatform build_platform source_span
  | PTest name_matcher source_span
  | PGroup name_matcher source_span
  | PDefault source_span
  | PAll
  | PNone

fun parsed_is_runtime_only :: "parsed_leaf \<Rightarrow> bool" where
  "parsed_is_runtime_only (PTest _ _) = True"
| "parsed_is_runtime_only (PGroup _ _) = True"
| "parsed_is_runtime_only (PDefault _) = True"
| "parsed_is_runtime_only _ = False"

datatype parsed_expr =
    ENot not_operator parsed_expr
  | EUnion or_operator parsed_expr parsed_expr
  | EIntersection and_operator parsed_expr parsed_expr
  | EDifference difference_operator parsed_expr parsed_expr
  | EParens parsed_expr
  | ESet parsed_leaf

text \<open>The leaves of a parsed expression, in the order in which a fold visits them.\<close>

primrec parsed_leaves :: "parsed_expr \<Rightarrow> parsed_leaf list" where
  "parsed_leaves (ENot _ a) = parsed_leaves a"
| "parsed_leaves (EUnion _ a b) = parsed_leaves a @ parsed_leaves b"
| "parsed_leaves (EIntersection _ a b) = parsed_leaves a @ parsed_leaves b"
| "parsed_leaves (EDifference _ a b) = parsed_leaves a @ parsed_leaves b"
| "parsed_leaves (EParens a) = parsed_leaves a"
| "parsed_leaves (ESet l) = [l]"

definition runtime_only_leaves :: "parsed_expr \<Rightarrow> parsed_leaf list" where
  "runtime_only_leaves e = filter parsed_is_runtime_only (parsed_leaves e)"


section \<open>Errors\<close>

datatype filterset_kind = KTest | KTestArchive | KOverrideFilter | KDefaultFilter

datatype banned_predicate_reason =
    DefaultInfiniteRecursion
  | GroupCircularDependency
  | GroupNotAvailableInDefaultFilter
  | GroupNotAvailableInArchive
  | TestNotAvailableInArchive

datatype glob_construct_error = InvalidGlobPattern string | GlobRegexError string

datatype parse_single_error =
    InvalidRegex source_span string
  | InvalidGlob source_span glob_construct_error
  | BannedPredicate filterset_kind source_span banned_predicate_reason
  | InvalidRegexWithoutMessage source_span
  | ExpectedCloseRegex source_span
  | InvalidOrOperator source_span
  | InvalidAndOperator source_span
  | UnexpectedArgument source_span
  | UnexpectedComma source_span
  | InvalidString source_span
  | ExpectedOpenParenthesis source_span
  | ExpectedCloseParenthesis source_span
  | InvalidEscapeCharacter source_span
  | ExpectedExpr source_span
  | ExprFoundBinaryOp string string source_span
  | ExprFoundUnaryOp string string source_span
  | ExpectedEndOfExpression source_span
  | NoPackageMatch source_span
  | NoGroupMatch source_span
  | NoBinaryIdMatch source_span
  | NoBinaryNameMatch source_span
  | InvalidPlatformArgument source_span
  | UnsupportedExpression source_span
  | UnknownParseError

type_synonym errors = "parse_single_error list"


section \<open>The package graph and the parse-context cache\<close>

datatype build_target_id =
    TargetLibrary
  | TargetBenchmark string
  | TargetExample string
  | TargetBuildScript
  | TargetBinary string
  | TargetTest string
  | TargetOther string

record package_metadata =
  pm_id :: package_id
  pm_name :: string
  pm_targets :: "(build_target_id \<times> string) list"

record package_graph =
  pg_workspace :: "package_metadata list"
  pg_depends_on :: "package_id \<Rightarrow> package_id \<Rightarrow> bool option"

record parse_context_cache =
  workspace_packages :: "package_metadata list"
  cx_binary_ids :: "string set"
  cx_binary_names :: "string set"

fun compute_kind :: "build_target_id \<Rightarrow> rust_test_binary_kind option outcome" where
  "compute_kind TargetLibrary = Ret (Some kind_LIB)"
| "compute_kind (TargetBenchmark _) = Ret (Some kind_BENCH)"
| "compute_kind (TargetExample _) = Ret (Some kind_EXAMPLE)"
| "compute_kind TargetBuildScript = Ret None"
| "compute_kind (TargetBinary _) = Ret (Some kind_BIN)"
| "compute_kind (TargetTest _) = Ret (Some kind_TEST)"
| "compute_kind (TargetOther _) = Panic"

fun target_ids_and_names ::
  "package_name \<Rightarrow> (build_target_id \<times> string) list \<Rightarrow> (string \<times> string) list outcome" where
  "target_ids_and_names pkg [] = Ret []"
| "target_ids_and_names pkg ((tid, name) # ts) =
     bind_outcome (compute_kind tid) (\<lambda>k.
     bind_outcome (target_ids_and_names pkg ts) (\<lambda>rest.
       case k of
         None \<Rightarrow> Ret rest
       | Some kind \<Rightarrow> Ret ((id_str (from_parts pkg kind name), name) # rest)))"

fun packages_ids_and_names :: "package_metadata list \<Rightarrow> (string \<times> string) list outcome" where
  "packages_ids_and_names [] = Ret []"
| "packages_ids_and_names (p # ps) =
     bind_outcome (target_ids_and_names (pm_name p) (pm_targets p)) (\<lambda>xs.
     bind_outcome (packages_ids_and_names ps) (\<lambda>ys. Ret (xs @ ys)))"

definition parse_context_cache_new :: "package_graph \<Rightarrow> parse_context_cache outcome" where
  "parse_context_cache_new graph =
     bind_outcome (packages_ids_and_names (pg_workspace graph)) (\<lambda>pairs.
       Ret \<lparr>workspace_packages = pg_workspace graph,
            cx_binary_ids = set (map fst pairs),
            cx_binary_names = set (map snd pairs)\<rparr>)"


section \<open>Banned predicates\<close>

fun banned_error :: "filterset_kind \<Rightarrow> parsed_leaf \<Rightarrow> errors" where
  "banned_error KOverrideFilter (PGroup _ span) =
     [BannedPredicate KOverrideFilter span GroupCircularDependency]"
| "banned_error KTestArchive (PTest _ span) =
     [BannedPredicate KTestArchive span TestNotAvailableInArchive]"
| "banned_error KTestArchive (PGroup _ span) =
     [BannedPredicate KTestArchive span GroupNotAvailableInArchive]"
| "banned_error KDefaultFilter (PDefault span) =
     [BannedPredicate KDefaultFilter span DefaultInfiniteRecursion]"
| "banned_error KDefaultFilter (PGroup _ span) =
     [BannedPredicate KDefaultFilter span GroupNotAvailableInDefaultFilter]"
| "banned_error _ _ = []"

primrec check_banned_predicates :: "parsed_expr \<Rightarrow> filterset_kind \<Rightarrow> errors \<Rightarrow> errors" where
  "check_banned_predicates (ENot _ a) kind errs = check_banned_predicates a kind errs"
| "check_banned_predicates (EUnion _ a b) kind errs =
     check_banned_predicates b kind (check_banned_predicates a kind errs)"
| "check_banned_predicates (EIntersection _ a b) kind errs =
     check_banned_predicates b kind (check_banned_predicates a kind errs)"
| "check_banned_predicates (EDifference _ a b) kind errs =
     check_banned_predicates b kind (check_banned_predicates a kind errs)"
| "check_banned_predicates (EParens a) kind errs = check_banned_predicates a kind errs"
| "check_banned_predicates (ESet l) kind errs = errs @ banned_error kind l"


section \<open>Compiling leaves\<close>

definition matching_packages ::
  "regex_engine \<Rightarrow> name_matcher \<Rightarrow> package_metadata list \<Rightarrow> package_id set" where
  "matching_packages re matcher all_packages =
     set (map pm_id (filter (\<lambda>p. is_match re matcher (pm_name p)) all_packages))"

definition depends_or_false :: "package_graph \<Rightarrow> package_id \<Rightarrow> package_id \<Rightarrow> bool" where
  "depends_or_false graph a b = (case pg_depends_on graph a b of Some r \<Rightarrow> r | None \<Rightarrow> False)"

definition dependencies_packages ::
  "regex_engine \<Rightarrow> package_graph \<Rightarrow> name_matcher \<Rightarrow> package_metadata list \<Rightarrow> package_id set" where
  "dependencies_packages re graph matcher all_packages =
     set (concat (map (\<lambda>p1. map pm_id (filter (\<lambda>p2. depends_or_false graph (pm_id p1) (pm_id p2)) all_packages))
       (filter (\<lambda>p. is_match re matcher (pm_name p)) all_packages)))"

definition rdependencies_packages ::
  "regex_engine \<Rightarrow> package_graph \<Rightarrow> name_matcher \<Rightarrow> package_metadata list \<Rightarrow> package_id set" where
  "rdependencies_packages re graph matcher all_packages =
     set (concat (map (\<lambda>p1. map pm_id (filter (\<lambda>p2. depends_or_false graph (pm_id p2) (pm_id p1)) all_packages))
       (filter (\<lambda>p. is_match re matcher (pm_name p)) all_packages)))"

definition expect_non_empty_packages ::
  "package_id set \<Rightarrow> source_span \<Rightarrow> errors \<Rightarrow> package_id set \<times> errors" where
  "expect_non_empty_packages packages span errs =
     (packages, if packages = {} then errs @ [NoPackageMatch span] else errs)"

definition any_name_matches :: "regex_engine \<Rightarrow> name_matcher \<Rightarrow> string set \<Rightarrow> bool" where
  "any_name_matches re matcher names =
     (case matcher of
        Equal value _ \<Rightarrow> value \<in> names
      | _ \<Rightarrow> (\<exists>n \<in> names. is_match re matcher n))"

definition expect_non_empty_binary_names ::
  "regex_engine \<Rightarrow> name_matcher \<Rightarrow> string set \<Rightarrow> source_span \<Rightarrow> errors \<Rightarrow> name_matcher \<times> errors" where
  "expect_non_empty_binary_names re matcher all_binary_names span errs =
     (matcher, if any_name_matches re matcher all_binary_names then errs
               else errs @ [NoBinaryNameMatch span])"

definition expect_non_empty_binary_ids ::
  "regex_engine \<Rightarrow> name_matcher \<Rightarrow> string set \<Rightarrow> source_span \<Rightarrow> errors \<Rightarrow> name_matcher \<times> errors" where
  "expect_non_empty_binary_ids re matcher all_binary_ids span errs =
     (matcher, if any_name_matches re matcher all_binary_ids then errs
               else errs @ [NoBinaryIdMatch span])"

definition expect_known_group ::
  "regex_engine \<Rightarrow> name_matcher \<Rightarrow> known_groups \<Rightarrow> source_span \<Rightarrow> errors
     \<Rightarrow> (name_matcher \<times> errors) outcome" where
  "expect_known_group re matcher kg span errs =
     bind_outcome (known_groups_matches re kg matcher) (\<lambda>known.
       Ret (matcher, if known then errs else errs @ [NoGroupMatch span]))"

fun compile_set_def ::
  "regex_engine \<Rightarrow> package_graph \<Rightarrow> parse_context_cache \<Rightarrow> known_groups \<Rightarrow> parsed_leaf \<Rightarrow> errors
     \<Rightarrow> (filterset_leaf \<times> errors) outcome" where
  "compile_set_def re graph cx kg (PPackage matcher span) errs =
     Ret (map_prod LPackages id (expect_non_empty_packages
       (matching_packages re matcher (workspace_packages cx)) span errs))"
| "compile_set_def re graph cx kg (PDeps matcher span) errs =
     Ret (map_prod LPackages id (expect_non_empty_packages
       (dependencies_packages re graph matcher (workspace_packages cx)) span errs))"
| "compile_set_def re graph cx kg (PRdeps matcher span) errs =
     Ret (map_prod LPackages id (expect_non_empty_packages
       (rdependencies_packages re graph matcher (workspace_packages cx)) span errs))"
| "compile_set_def re graph cx kg (PKind matcher span) errs = Ret (LKind matcher span, errs)"
| "compile_set_def re graph cx kg (PBinary matcher span) errs =
     Ret (map_prod (\<lambda>m. LBinary m span) id
       (expect_non_empty_binary_names re matcher (cx_binary_names cx) span errs))"
| "compile_set_def re graph cx kg (PBinaryId matcher span) errs =
     Ret (map_prod (\<lambda>m. LBinaryId m span) id
       (expect_non_empty_binary_ids re matcher (cx_binary_ids cx) span errs))"
| "compile_set_def re graph cx kg (PPlatform platform span) errs = Ret (LPlatform platform span, errs)"
| "compile_set_def re graph cx kg (PTest matcher span) errs = Ret (LTest matcher span, errs)"
| "compile_set_def re graph cx kg (PGroup matcher span) errs =
     bind_outcome (expect_known_group re matcher kg span errs) (\<lambda>(m, errs').
       Ret (LGroup m span, errs'))"
| "compile_set_def re graph cx kg (PDefault _) errs = Ret (LDefault, errs)"
| "compile_set_def re graph cx kg PAll errs = Ret (LAll, errs)"
| "compile_set_def re graph cx kg PNone errs = Ret (LNone, errs)"


section \<open>Compiling expressions\<close>

primrec compile_expr ::
  "regex_engine \<Rightarrow> package_graph \<Rightarrow> parse_context_cache \<Rightarrow> known_groups \<Rightarrow> parsed_expr \<Rightarrow> errors
     \<Rightarrow> (compiled_expr \<times> errors) outcome" where
  "compile_expr re graph cx kg (ESet l) errs =
     bind_outcome (compile_set_def re graph cx kg l errs) (\<lambda>(leaf, errs'). Ret (CSet leaf, errs'))"
| "compile_expr re graph cx kg (ENot _ a) errs =
     bind_outcome (compile_expr re graph cx kg a errs) (\<lambda>(e, errs'). Ret (CNot e, errs'))"
| "compile_expr re graph cx kg (EUnion _ a b) errs =
     bind_outcome (compile_expr re graph cx kg a errs) (\<lambda>(e1, errs').
     bind_outcome (compile_expr re graph cx kg b errs') (\<lambda>(e2, errs'').
       Ret (CUnion e1 e2, errs'')))"
| "compile_expr re graph cx kg (EIntersection _ a b) errs =
     bind_outcome (compile_expr re graph cx kg a errs) (\<lambda>(e1, errs').
     bind_outcome (compile_expr re graph cx kg b errs') (\<lambda>(e2, errs'').
       Ret (CIntersection e1 e2, errs'')))"
| "compile_expr re graph cx kg (EDifference _ a b) errs =
     bind_outcome (compile_expr re graph cx kg a errs) (\<lambda>(e1, errs').
     bind_outcome (compile_expr re graph cx kg b errs') (\<lambda>(e2, errs'').
       Ret (CIntersection e1 (CNot e2), errs'')))"
| "compile_expr re graph cx kg (EParens a) errs = compile_expr re graph cx kg a errs"

definition compile ::
  "regex_engine \<Rightarrow> package_graph \<Rightarrow> parsed_expr \<Rightarrow> filterset_kind \<Rightarrow> known_groups
     \<Rightarrow> (errors + compiled_expr) outcome" where
  "compile re graph e kind kg =
     (let errs = check_banned_predicates e kind [] in
      if errs \<noteq> [] then Ret (Inl errs)
      else bind_outcome (parse_context_cache_new graph) (\<lambda>cx.
           bind_outcome (compile_expr re graph cx kg e errs) (\<lambda>(c, errs').
             if errs' = [] then Ret (Inr c) else Ret (Inl errs'))))"


section \<open>What a parsed expression means\<close>

text \<open>
  The meaning of the filterset language, written over the parsed syntax and the package graph
  without the compiler: \<open>a - b\<close> is set difference and \<open>deps(m)\<close> holds the workspace packages a
  matching workspace package depends on.
\<close>

fun parsed_leaf_sem ::
  "regex_engine \<Rightarrow> package_graph \<Rightarrow> bool \<Rightarrow> test_query \<Rightarrow> (test_query \<Rightarrow> name_matcher \<Rightarrow> bool)
     \<Rightarrow> parsed_leaf \<Rightarrow> bool" where
  "parsed_leaf_sem re graph d q lookup (PPackage m _) =
     (\<exists>p \<in> set (pg_workspace graph).
        pm_id p = bq_package_id (binary_query_of q) \<and> is_match re m (pm_name p))"
| "parsed_leaf_sem re graph d q lookup (PDeps m _) =
     (\<exists>p1 \<in> set (pg_workspace graph). \<exists>p2 \<in> set (pg_workspace graph).
        is_match re m (pm_name p1) \<and> pm_id p2 = bq_package_id (binary_query_of q) \<and>
        pg_depends_on graph (pm_id p1) (pm_id p2) = Some True)"
| "parsed_leaf_sem re graph d q lookup (PRdeps m _) =
     (\<exists>p1 \<in> set (pg_workspace graph). \<exists>p2 \<in> set (pg_workspace graph).
        is_match re m (pm_name p1) \<and> pm_id p2 = bq_package_id (binary_query_of q) \<and>
        pg_depends_on graph (pm_id p2) (pm_id p1) = Some True)"
| "parsed_leaf_sem re graph d q lookup (PKind m _) =
     is_match re m (kind_str (bq_kind (binary_query_of q)))"
| "parsed_leaf_sem re graph d q lookup (PBinary m _) =
     is_match re m (bq_binary_name (binary_query_of q))"
| "parsed_leaf_sem re graph d q lookup (PBinaryId m _) =
     is_match re m (id_str (bq_binary_id (binary_query_of q)))"
| "parsed_leaf_sem re graph d q lookup (PPlatform p _) = (bq_platform (binary_query_of q) = p)"
| "parsed_leaf_sem re graph d q lookup (PTest m _) = is_match re m (case_str (tq_test_name q))"
| "parsed_leaf_sem re graph d q lookup (PGroup m _) = lookup q m"
| "parsed_leaf_sem re graph d q lookup (PDefault _) = d"
| "parsed_leaf_sem re graph d q lookup PAll = True"
| "parsed_leaf_sem re graph d q lookup PNone = False"

primrec parsed_sem :: "(parsed_leaf \<Rightarrow> bool) \<Rightarrow> parsed_expr \<Rightarrow> bool" where
  "parsed_sem v (ENot _ a) = (\<not> parsed_sem v a)"
| "parsed_sem v (EUnion _ a b) = (parsed_sem v a \<or> parsed_sem v b)"
| "parsed_sem v (EIntersection _ a b) = (parsed_sem v a \<and> parsed_sem v b)"
| "parsed_sem v (EDifference _ a b) = (parsed_sem v a \<and> \<not> parsed_sem v b)"
| "parsed_sem v (EParens a) = parsed_sem v a"
| "parsed_sem v (ESet l) = v l"

text \<open>The validation error of a leaf, if any: its matcher selects nothing that exists.\<close>

fun leaf_errors ::
  "regex_engine \<Rightarrow> package_graph \<Rightarrow> parse_context_cache \<Rightarrow> string set \<Rightarrow> parsed_leaf \<Rightarrow> errors" where
  "leaf_errors re graph cx gs (PPackage m span) =
     (if \<exists>p \<in> set (workspace_packages cx). is_match re m (pm_name p) then [] else [NoPackageMatch span])"
| "leaf_errors re graph cx gs (PDeps m span) =
     (if dependencies_packages re graph m (workspace_packages cx) \<noteq> {} then [] else [NoPackageMatch span])"
| "leaf_errors re graph cx gs (PRdeps m span) =
     (if rdependencies_packages re graph m (workspace_packages cx) \<noteq> {} then [] else [NoPackageMatch span])"
| "leaf_errors re graph cx gs (PBinary m span) =
     (if \<exists>n \<in> cx_binary_names cx. is_match re m n then [] else [NoBinaryNameMatch span])"
| "leaf_errors re graph cx gs (PBinaryId m span) =
     (if \<exists>n \<in> cx_binary_ids cx. is_match re m n then [] else [NoBinaryIdMatch span])"
| "leaf_errors re graph cx gs (PGroup m span) =
     (if \<exists>g \<in> insert GLOBAL_TEST_GROUP gs. is_match re m g then [] else [NoGroupMatch span])"
| "leaf_errors re graph cx gs _ = []"


section \<open>Lemmas on the compiler\<close>

lemma any_name_matches_iff: "any_name_matches re m names \<longleftrightarrow> (\<exists>n \<in> names. is_match re m n)"
  by (cases m) (auto simp: any_name_matches_def)

lemma check_banned_eq:
  "check_banned_predicates e kind errs = errs @ concat (map (banned_error kind) (parsed_leaves e))"
  by (induction e arbitrary: errs) simp_all

lemma no_banned_errors:
  "check_banned_predicates e kind [] = [] \<longleftrightarrow> (\<forall>l \<in> set (parsed_leaves e). banned_error kind l = [])"
  by (simp add: check_banned_eq)

fun is_group_parsed :: "parsed_leaf \<Rightarrow> bool" where
  "is_group_parsed (PGroup _ _) = True"
| "is_group_parsed _ = False"

text \<open>The group names in force; unavailable groups stand for none.\<close>

fun groups_of :: "known_groups \<Rightarrow> string set" where
  "groups_of (Known gs) = gs"
| "groups_of Unavailable = {}"

lemma compile_set_def_Ret:
  assumes "is_group_parsed l \<Longrightarrow> kg \<noteq> Unavailable"
  shows "\<exists>leaf. compile_set_def re graph cx kg l errs =
           Ret (leaf, errs @ leaf_errors re graph cx (groups_of kg) l)"
  using assms
  by (cases l; cases kg)
    (auto simp del: known_groups_matches.simps simp: expect_non_empty_packages_def
      expect_non_empty_binary_names_def expect_non_empty_binary_ids_def expect_known_group_def
      any_name_matches_iff known_groups_matches_iff matching_packages_def filter_empty_conv)

definition groups_available :: "known_groups \<Rightarrow> parsed_expr \<Rightarrow> bool" where
  "groups_available kg e \<longleftrightarrow> kg \<noteq> Unavailable \<or> (\<forall>l \<in> set (parsed_leaves e). \<not> is_group_parsed l)"

definition all_leaf_errors ::
  "regex_engine \<Rightarrow> package_graph \<Rightarrow> parse_context_cache \<Rightarrow> string set \<Rightarrow> parsed_expr \<Rightarrow> errors" where
  "all_leaf_errors re graph cx gs e = concat (map (leaf_errors re graph cx gs) (parsed_leaves e))"

lemma compile_expr_Ret:
  assumes "groups_available kg e"
  shows "\<exists>c. \<forall>errs. compile_expr re graph cx kg e errs =
           Ret (c errs, errs @ all_leaf_errors re graph cx (groups_of kg) e)"
  using assms
proof (induction e)
  case (ESet l)
  then have "\<forall>errs. \<exists>leaf. compile_set_def re graph cx kg l errs =
      Ret (leaf, errs @ leaf_errors re graph cx (groups_of kg) l)"
    by (auto simp: groups_available_def intro: compile_set_def_Ret)
  then obtain leaf where "\<forall>errs. compile_set_def re graph cx kg l errs =
      Ret (leaf errs, errs @ leaf_errors re graph cx (groups_of kg) l)" by metis
  then show ?case by (auto simp: all_leaf_errors_def)
next
  case (ENot op a)
  then show ?case by (auto simp: groups_available_def all_leaf_errors_def)
next
  case (EParens a)
  then show ?case by (auto simp: groups_available_def all_leaf_errors_def)
qed (auto simp: groups_available_def all_leaf_errors_def)

text \<open>Each compiled leaf means what the parsed leaf means.\<close>

lemma depends_or_false_iff: "depends_or_false graph a b \<longleftrightarrow> pg_depends_on graph a b = Some True"
  by (auto simp: depends_or_false_def split: option.splits)

lemma package_sets_iff:
  "x \<in> matching_packages re m ps \<longleftrightarrow> (\<exists>p \<in> set ps. pm_id p = x \<and> is_match re m (pm_name p))"
  "x \<in> dependencies_packages re graph m ps \<longleftrightarrow>
     (\<exists>p1 \<in> set ps. \<exists>p2 \<in> set ps. is_match re m (pm_name p1) \<and> pm_id p2 = x \<and>
        pg_depends_on graph (pm_id p1) (pm_id p2) = Some True)"
  "x \<in> rdependencies_packages re graph m ps \<longleftrightarrow>
     (\<exists>p1 \<in> set ps. \<exists>p2 \<in> set ps. is_match re m (pm_name p1) \<and> pm_id p2 = x \<and>
        pg_depends_on graph (pm_id p2) (pm_id p1) = Some True)"
  unfolding matching_packages_def dependencies_packages_def rdependencies_packages_def
  by (auto simp: depends_or_false_iff)

lemmas expect_defs = expect_non_empty_packages_def expect_non_empty_binary_names_def
  expect_non_empty_binary_ids_def expect_known_group_def

lemma compile_set_def_sem:
  assumes "compile_set_def re graph cx kg l errs = Ret (leaf, errs')"
    and "workspace_packages cx = pg_workspace graph"
  shows "leaf_sem re d q lookup leaf = parsed_leaf_sem re graph d q lookup l"
  using assms
  by (cases l; clarsimp simp: expect_defs bind_outcome_eq_Ret package_sets_iff)

lemma compile_expr_sem:
  assumes "workspace_packages cx = pg_workspace graph"
    and "compile_expr re graph cx kg e errs = Ret (c, errs')"
  shows "denote (leaf_sem re d q lookup) c = parsed_sem (parsed_leaf_sem re graph d q lookup) e"
  using assms(2)
proof (induction e arbitrary: c errs errs')
  case (ESet l)
  then obtain leaf where "compile_set_def re graph cx kg l errs = Ret (leaf, errs')" "c = CSet leaf"
    by (auto simp: bind_outcome_eq_Ret)
  then show ?case using compile_set_def_sem [OF _ assms(1)] by simp
qed (auto simp: bind_outcome_eq_Ret)

lemma compile_set_def_shape:
  assumes "compile_set_def re graph cx kg l errs = Ret (leaf, errs')"
  shows "(leaf = LDefault \<longleftrightarrow> (\<exists>s. l = PDefault s)) \<and> (is_group_leaf leaf \<longleftrightarrow> is_group_parsed l) \<and>
     (binary_decided_leaf leaf \<longleftrightarrow> \<not> is_group_parsed l \<and> (\<forall>m s. l \<noteq> PTest m s))"
  using assms
  by (cases l) (auto simp: expect_defs bind_outcome_eq_Ret)

lemma compile_expr_leaves:
  assumes "compile_expr re graph cx kg e errs = Ret (c, errs')"
  shows "list_all2 (\<lambda>l leaf. \<exists>es es'. compile_set_def re graph cx kg l es = Ret (leaf, es'))
           (parsed_leaves e) (compiled_leaves c)"
  using assms
  by (induction e arbitrary: c errs errs')
    (auto simp: bind_outcome_eq_Ret intro!: list_all2_appendI, blast)

lemma compile_expr_leaf:
  assumes "compile_expr re graph cx kg e errs = Ret (c, errs')" "leaf \<in> set (compiled_leaves c)"
  obtains l es es' where "l \<in> set (parsed_leaves e)"
    "compile_set_def re graph cx kg l es = Ret (leaf, es')"
proof -
  from assms(2) obtain i where i: "i < length (compiled_leaves c)" "leaf = compiled_leaves c ! i"
    by (auto simp: in_set_conv_nth)
  with compile_expr_leaves [OF assms(1)] obtain es es' where
    "i < length (parsed_leaves e)" "compile_set_def re graph cx kg (parsed_leaves e ! i) es = Ret (leaf, es')"
    by (auto simp: list_all2_conv_all_nth)
  then show thesis using that by (meson nth_mem)
qed

lemma cache_workspace: "parse_context_cache_new graph = Ret cx \<Longrightarrow> workspace_packages cx = pg_workspace graph"
  by (auto simp: parse_context_cache_new_def bind_outcome_eq_Ret)

lemma compile_InrE:
  assumes "compile re graph e kind kg = Ret (Inr c)"
  obtains cx errs where "check_banned_predicates e kind [] = []"
    "parse_context_cache_new graph = Ret cx" "compile_expr re graph cx kg e [] = Ret (c, [])"
  using assms by (auto simp: compile_def Let_def bind_outcome_eq_Ret split: if_splits)

definition bans_group :: "filterset_kind \<Rightarrow> bool" where
  "bans_group kind \<longleftrightarrow> kind \<noteq> KTest"

lemma compile_group_free:
  assumes "compile re graph e kind kg = Ret (Inr c)" "bans_group kind"
  shows "group_free c"
  unfolding group_free_def
proof
  fix leaf assume l: "leaf \<in> set (compiled_leaves c)"
  from assms(1) obtain cx where ban: "check_banned_predicates e kind [] = []"
    and ce: "compile_expr re graph cx kg e [] = Ret (c, [])" by (rule compile_InrE)
  from ce l obtain p es es' where p: "p \<in> set (parsed_leaves e)"
    and sd: "compile_set_def re graph cx kg p es = Ret (leaf, es')" by (rule compile_expr_leaf)
  from ban p have "banned_error kind p = []" by (simp add: no_banned_errors)
  then have "\<not> is_group_parsed p" using assms(2) by (cases p; cases kind) (auto simp: bans_group_def)
  with compile_set_def_shape [OF sd] show "\<not> is_group_leaf leaf" by simp
qed

lemma compile_default_free:
  assumes "compile re graph e KDefaultFilter kg = Ret (Inr c)"
  shows "default_free c"
proof -
  from assms obtain cx where ban: "check_banned_predicates e KDefaultFilter [] = []"
    and ce: "compile_expr re graph cx kg e [] = Ret (c, [])" by (rule compile_InrE)
  have "leaf \<noteq> LDefault" if l: "leaf \<in> set (compiled_leaves c)" for leaf
  proof -
    from ce l obtain p es es' where p: "p \<in> set (parsed_leaves e)"
      and sd: "compile_set_def re graph cx kg p es = Ret (leaf, es')" by (rule compile_expr_leaf)
    from ban p have "banned_error KDefaultFilter p = []" by (simp add: no_banned_errors)
    then have "\<nexists>s. p = PDefault s" by auto
    with compile_set_def_shape [OF sd] show ?thesis by simp
  qed
  then show ?thesis by (auto simp: default_free_def)
qed

lemma compile_default_ok: "compile re graph e KDefaultFilter kg = Ret (Inr df) \<Longrightarrow> default_ok df"
  by (simp add: default_ok_def compile_default_free compile_group_free bans_group_def)

lemma compile_archive_decided:
  assumes "compile re graph e KTestArchive kg = Ret (Inr c)" "leaf \<in> set (compiled_leaves c)"
  shows "binary_decided_leaf leaf"
proof -
  from assms(1) obtain cx where ban: "check_banned_predicates e KTestArchive [] = []"
    and ce: "compile_expr re graph cx kg e [] = Ret (c, [])" by (rule compile_InrE)
  from ce assms(2) obtain p es es' where p: "p \<in> set (parsed_leaves e)"
    and sd: "compile_set_def re graph cx kg p es = Ret (leaf, es')" by (rule compile_expr_leaf)
  from ban p have "banned_error KTestArchive p = []" by (simp add: no_banned_errors)
  then have "\<not> is_group_parsed p" "\<And>m s. p \<noteq> PTest m s" by (cases p; auto)+
  with compile_set_def_shape [OF sd] show ?thesis by simp
qed

lemma compile_sem:
  assumes "compile re graph e kind kg = Ret (Inr c)"
  shows "denote (leaf_sem re d q lookup) c = parsed_sem (parsed_leaf_sem re graph d q lookup) e"
  using assms by (metis cache_workspace compile_InrE compile_expr_sem)

end
