(* ===== verification/Filterset_Props.thy ===== *)
theory Filterset_Props
  imports Filterset_Compile
begin

text \<open>
  Properties of the filterset pipeline as a whole: from a parsed expression and a package
  graph, through compilation, to the answers given for a test and for a binary.
\<close>

section \<open>A concrete workspace\<close>

text \<open>
  Two packages, \<open>app\<close> depending on \<open>core\<close>, and an engine whose regexes match literally; the
  properties below are instantiated on it.
\<close>

definition ex_engine :: regex_engine where
  "ex_engine = \<lparr>regex_is_match = (\<lambda>r s. str_contains s r), bytes_regex_is_match = (\<lambda>r s. r = s)\<rparr>"

definition ex_graph :: package_graph where
  "ex_graph = \<lparr>pg_workspace =
     [\<lparr>pm_id = ''app 1.0'', pm_name = ''app'',
       pm_targets = [(TargetLibrary, ''app''), (TargetTest ''smoke'', ''smoke''), (TargetBuildScript, ''build'')]\<rparr>,
      \<lparr>pm_id = ''core 1.0'', pm_name = ''core'', pm_targets = [(TargetLibrary, ''core'')]\<rparr>],
     pg_depends_on = (\<lambda>a b. Some (a = b \<or> a = ''app 1.0'' \<and> b = ''core 1.0''))\<rparr>"

definition ex_query :: "string \<Rightarrow> test_query" where
  "ex_query name = \<lparr>binary_query_of = \<lparr>bq_package_id = ''core 1.0'', bq_binary_id = RustBinaryId ''core'',
      bq_binary_name = ''core'', bq_kind = kind_LIB, bq_platform = Target\<rparr>,
     tq_test_name = TestCaseName name\<rparr>"

text \<open>\<open>deps(=app) - test(slow)\<close> and the default filter \<open>all()\<close>.\<close>

definition ex_expr :: parsed_expr where
  "ex_expr = EDifference Minus (ESet (PDeps (Equal ''app'' False) (0, 4)))
     (ESet (PTest (Contains ''slow'' True) (13, 4)))"

definition ex_compiled :: compiled_expr where
  "ex_compiled = CIntersection (CSet (LPackages {''app 1.0'', ''core 1.0''}))
     (CNot (CSet (LTest (Contains ''slow'' True) (13, 4))))"

lemmas ex_defs = ex_engine_def ex_graph_def ex_query_def ex_expr_def ex_compiled_def

lemma ex_compile: "compile ex_engine ex_graph ex_expr KOverrideFilter Unavailable = Ret (Inr ex_compiled)"
  by code_simp

lemma ex_compile_default: "compile ex_engine ex_graph (ESet PAll) KDefaultFilter Unavailable = Ret (Inr (CSet LAll))"
  by code_simp


section \<open>Evaluation on tests\<close>

text \<open>C3. A compiled filterset, with the default filter compiled for the same workspace and a
  lookup for group membership, is evaluated without panic and without unbounded recursion, and
  accepts exactly the tests that the source expression denotes over the package graph.\<close>

theorem filterset_matches_meaning:
  assumes "compile re graph ed KDefaultFilter kgd = Ret (Inr df)"
    and "compile re graph e kind kg = Ret (Inr c)"
  shows "matches_test_with_groups (Suc (Suc fuel)) re df q lookup c =
     Some (Ret (parsed_sem (parsed_leaf_sem re graph
       (parsed_sem (parsed_leaf_sem re graph False q (\<lambda>_ _. False)) ed) q lookup) e))"
  using compile_sem [OF assms(1)] compile_sem [OF assms(2)] compile_default_ok [OF assms(1)]
  by (simp add: matches_test_with_groups_def matches_test_impl_denotes resolver_ok_def test_sem_def
      del: matches_test_impl.simps)

theorem filterset_matches_meaning_witness:
  "matches_test_with_groups 2 ex_engine (CSet LAll) (ex_query ''fast_one'') (\<lambda>_ _. False) ex_compiled = Some (Ret True) \<and>
   matches_test_with_groups 2 ex_engine (CSet LAll) (ex_query ''slow_one'') (\<lambda>_ _. False) ex_compiled = Some (Ret False)"
  using filterset_matches_meaning [OF ex_compile_default ex_compile, of 0]
  by (simp add: numeral_2_eq_2 del: matches_test_impl.simps) (code_simp)

text \<open>For every kind of filterset other than the command line's, \<open>group()\<close> never survives
  compilation, so \<open>matches_test\<close>, which panics on \<open>group()\<close>, returns the expression's meaning.\<close>

theorem groupless_filterset_no_panic:
  assumes "compile re graph ed KDefaultFilter kgd = Ret (Inr df)"
    and "compile re graph e kind kg = Ret (Inr c)" and "kind \<noteq> KTest"
  shows "\<not> has_group_matchers c \<and>
     matches_test (Suc (Suc fuel)) re df q c =
       Some (Ret (parsed_sem (parsed_leaf_sem re graph
         (parsed_sem (parsed_leaf_sem re graph False q (\<lambda>_ _. False)) ed) q (\<lambda>_ _. False)) e))"
proof -
  have "group_free c" using compile_group_free [OF assms(2)] assms(3) by (simp add: bans_group_def)
  then show ?thesis
    using compile_sem [OF assms(1)] compile_sem [OF assms(2)] compile_default_ok [OF assms(1)]
    by (simp add: matches_test_def matches_test_impl_denotes resolver_ok_def test_sem_def
        has_group_matchers_leaves group_free_def del: matches_test_impl.simps)
qed

theorem groupless_filterset_no_panic_witness:
  "\<not> has_group_matchers ex_compiled \<and>
   matches_test 2 ex_engine (CSet LAll) (ex_query ''slow_one'') ex_compiled = Some (Ret False)"
  using groupless_filterset_no_panic [OF ex_compile_default ex_compile, of 0 "ex_query ''slow_one''"]
  by (simp add: numeral_2_eq_2 del: matches_test_impl.simps) (code_simp)

text \<open>A default filter that holds \<open>default()\<close> would never produce an answer: whatever the
  fuel, an expression with \<open>default()\<close> returns no value. The ban on \<open>default()\<close> in default
  filters is what rules this out.\<close>

theorem default_in_default_diverges:
  assumes "LDefault \<in> set (compiled_leaves df)" and "LDefault \<in> set (compiled_leaves e)"
  shows "matches_test_impl fuel re df q g e \<noteq> Some (Ret b)"
proof (cases fuel)
  case (Suc n)
  then show ?thesis
    using assms default_recursion_no_value [OF assms(1)] by (simp add: no_value_propagates)
qed simp

theorem default_in_default_diverges_witness:
  "matches_test_impl 7 ex_engine (CNot (CSet LDefault)) (ex_query ''a'') NoGroups (CSet LDefault) \<noteq> Some (Ret True)"
  by (rule default_in_default_diverges) simp_all


section \<open>Evaluation on binaries\<close>

text \<open>C27. The three-valued answer for a binary is sound: if it is known, every test of that
  binary gets exactly this answer. Skipping a binary because its filterset is \<open>Some(false)\<close>
  never drops a test that would have been selected.\<close>

theorem matches_binary_sound:
  assumes "default_ok df" and "resolver_ok g e"
    and "matches_binary (Suc (Suc fuel)) re df bq e = Some (Some b)"
    and "binary_query_of q = bq"
  shows "matches_test_impl (Suc (Suc fuel)) re df q g e = Some (Ret b)"
proof -
  have "known_as (Some (Some b)) (test_sem re df q (resolver_lookup g) e)"
    using matches_binary_known [OF assms(1), of fuel re q e] assms(3,4)
    by (simp del: matches_binary.simps)
  then have "b = test_sem re df q (resolver_lookup g) e"
    by (auto simp: known_as_def approx_def)
  then show ?thesis using matches_test_impl_denotes [OF assms(1,2)] by (simp del: matches_test_impl.simps)
qed

theorem matches_binary_sound_witness:
  "matches_test_impl 2 ex_engine (CSet LAll) (ex_query ''any'') NoGroups
     (CIntersection (CSet (LPackages {''app 1.0''})) (CSet (LTest (Equal ''any'' True) (0, 0)))) = Some (Ret False)"
proof -
  have "default_ok (CSet LAll)"
    "resolver_ok NoGroups (CIntersection (CSet (LPackages {''app 1.0''})) (CSet (LTest (Equal ''any'' True) (0, 0))))"
    by (simp_all add: default_ok_def default_free_def group_free_def resolver_ok_def)
  moreover have "matches_binary (Suc (Suc 0)) ex_engine (CSet LAll) (binary_query_of (ex_query ''any''))
     (CIntersection (CSet (LPackages {''app 1.0''})) (CSet (LTest (Equal ''any'' True) (0, 0)))) = Some (Some False)"
    by code_simp
  ultimately show ?thesis
    using matches_binary_sound [of "CSet LAll" NoGroups _ 0] by (simp only: numeral_2_eq_2)
qed

text \<open>An archive filterset is decided for every binary: \<open>test()\<close> and \<open>group()\<close> are banned,
  so, with a default filter of the same nature, \<open>matches_binary\<close> is never \<open>None\<close> and archiving
  never has to guess.\<close>

theorem archive_filterset_decided:
  assumes "compile re graph e KTestArchive kg = Ret (Inr c)"
    and "compile re graph ed KDefaultFilter kgd = Ret (Inr df)"
    and "\<forall>l \<in> set (compiled_leaves df). binary_decided_leaf l"
  shows "\<exists>b. matches_binary (Suc (Suc fuel)) re df q c = Some (Some b)"
  using assms compile_archive_decided [OF assms(1)] compile_default_free [OF assms(2)]
  by (intro matches_binary_decided) auto

theorem archive_filterset_decided_witness:
  "\<exists>b. matches_binary 2 ex_engine (CSet LAll) (binary_query_of (ex_query ''any''))
     (CUnion (CSet LDefault) (CSet (LPackages {''app 1.0''}))) = Some (Some b)"
proof -
  have "compile ex_engine ex_graph
      (EUnion Pipe (ESet (PDefault (0, 9))) (ESet (PPackage (Equal ''app'' False) (20, 4)))) KTestArchive Unavailable
    = Ret (Inr (CUnion (CSet LDefault) (CSet (LPackages {''app 1.0''}))))"
    by code_simp
  from archive_filterset_decided [OF this ex_compile_default, of 0] show ?thesis
    by (simp only: numeral_2_eq_2) simp
qed


section \<open>Errors of compilation\<close>

text \<open>C33. Compilation of a valid workspace never panics where group names are available or
  \<open>group()\<close> does not occur, and its result is determined by two lists of errors: the banned
  predicates in source order, which are reported alone, and otherwise the leaves that select
  nothing, in source order. It succeeds exactly if both are empty.\<close>

theorem compile_errors_exact:
  assumes "parse_context_cache_new graph = Ret cx"
    and "kg = Unavailable \<Longrightarrow> kind \<noteq> KTest \<or> (\<forall>l \<in> set (parsed_leaves e). \<not> is_group_parsed l)"
  shows "\<exists>c. compile re graph e kind kg =
     Ret (let banned = concat (map (banned_error kind) (parsed_leaves e));
              invalid = concat (map (leaf_errors re graph cx (groups_of kg)) (parsed_leaves e))
          in if banned \<noteq> [] then Inl banned else if invalid \<noteq> [] then Inl invalid else Inr c)"
proof (cases "check_banned_predicates e kind [] = []")
  case False
  then show ?thesis by (simp add: compile_def check_banned_eq Let_def)
next
  case True
  have "\<not> is_group_parsed l" if "l \<in> set (parsed_leaves e)" "kind \<noteq> KTest" for l
    using True that by (cases l; cases kind) (auto simp: no_banned_errors dest!: bspec)
  then have "groups_available kg e" using assms(2) by (auto simp: groups_available_def)
  then obtain c where "\<forall>errs. compile_expr re graph cx kg e errs =
      Ret (c errs, errs @ all_leaf_errors re graph cx (groups_of kg) e)"
    using compile_expr_Ret by metis
  then have ce: "compile_expr re graph cx kg e [] =
      Ret (c [], all_leaf_errors re graph cx (groups_of kg) e)" by simp
  have ban: "concat (map (banned_error kind) (parsed_leaves e)) = []"
    using True check_banned_eq [of e kind "[]"] by simp
  show ?thesis
    using True assms(1) ce unfolding ban all_leaf_errors_def
    by (intro exI [of _ "c []"]) (simp add: compile_def Let_def)
qed

theorem compile_errors_exact_witness:
  "\<exists>c. compile ex_engine ex_graph
     (EIntersection LiteralAnd (ESet (PGroup (Equal ''g'' False) (0, 1))) (ESet (PBinary (Equal ''nope'' False) (5, 4))))
     KTest (Known {''h''}) =
   Ret (if ([]::errors) \<noteq> [] then Inl [] else if [NoGroupMatch (0, 1), NoBinaryNameMatch (5, 4)] \<noteq> []
        then Inl [NoGroupMatch (0, 1), NoBinaryNameMatch (5, 4)] else Inr c)"
proof -
  obtain cx where cx: "parse_context_cache_new ex_graph = Ret cx"
    "cx_binary_names cx = {''app'', ''smoke'', ''core''}"
    by (simp add: parse_context_cache_new_def ex_graph_def)
  from compile_errors_exact [OF cx(1), of "Known {''h''}" KTest
      "EIntersection LiteralAnd (ESet (PGroup (Equal ''g'' False) (0, 1))) (ESet (PBinary (Equal ''nope'' False) (5, 4)))"
      ex_engine]
  show ?thesis using cx(2) by (simp add: GLOBAL_TEST_GROUP_def)
qed

end
