(* ===== verification/Rust_Num.thy ===== *)
theory Rust_Num
  imports Prelude
begin

text \<open>
  Decimal integers as Rust's standard library prints and parses them: \<open>Display\<close> of unsigned
  integers, \<open>from_str\<close> of \<open>usize\<close>/\<open>u64\<close> and \<open>isize\<close>/\<open>i64\<close> with the four kinds of
  \<open>ParseIntError\<close>, each checked digit by digit in the order the library checks them, and
  \<open>str::to_lowercase\<close> restricted to ASCII. Words are 64 bits wide.
\<close>

datatype int_error_kind = EmptyInt | InvalidDigit | PosOverflow | NegOverflow

definition U64_MAX :: int where "U64_MAX = 18446744073709551615"
definition I64_MAX :: int where "I64_MAX = 9223372036854775807"
definition I64_MIN :: int where "I64_MIN = -9223372036854775808"

definition digit_char :: "nat \<Rightarrow> char" where
  "digit_char d = char_of (48 + d)"

fun show_nat :: "nat \<Rightarrow> string" where
  "show_nat n = (if n < 10 then [digit_char n] else show_nat (n div 10) @ [digit_char (n mod 10)])"

declare show_nat.simps [simp del]

definition to_digit :: "char \<Rightarrow> nat option" where
  "to_digit c = (let n = of_char c :: nat in if 48 \<le> n \<and> n \<le> 57 then Some (n - 48) else None)"

fun parse_pos :: "int \<Rightarrow> int \<Rightarrow> string \<Rightarrow> int_error_kind + int" where
  "parse_pos hi acc [] = Inr acc"
| "parse_pos hi acc (c # cs) =
     (case to_digit c of
        None \<Rightarrow> Inl InvalidDigit
      | Some d \<Rightarrow> if acc * 10 + int d > hi then Inl PosOverflow else parse_pos hi (acc * 10 + int d) cs)"

fun parse_neg :: "int \<Rightarrow> int \<Rightarrow> string \<Rightarrow> int_error_kind + int" where
  "parse_neg lo acc [] = Inr acc"
| "parse_neg lo acc (c # cs) =
     (case to_digit c of
        None \<Rightarrow> Inl InvalidDigit
      | Some d \<Rightarrow> if acc * 10 - int d < lo then Inl NegOverflow else parse_neg lo (acc * 10 - int d) cs)"

definition parse_u64 :: "string \<Rightarrow> int_error_kind + int" where
  "parse_u64 s =
     (case s of
        [] \<Rightarrow> Inl EmptyInt
      | [c] \<Rightarrow> if c = CHR ''+'' \<or> c = CHR ''-'' then Inl InvalidDigit else parse_pos U64_MAX 0 s
      | c # cs \<Rightarrow> if c = CHR ''+'' then parse_pos U64_MAX 0 cs else parse_pos U64_MAX 0 s)"

definition parse_i64 :: "string \<Rightarrow> int_error_kind + int" where
  "parse_i64 s =
     (case s of
        [] \<Rightarrow> Inl EmptyInt
      | [c] \<Rightarrow> if c = CHR ''+'' \<or> c = CHR ''-'' then Inl InvalidDigit else parse_pos I64_MAX 0 s
      | c # cs \<Rightarrow> if c = CHR ''+'' then parse_pos I64_MAX 0 cs
                  else if c = CHR ''-'' then parse_neg I64_MIN 0 cs
                  else parse_pos I64_MAX 0 s)"

definition is_hexdigit :: "char \<Rightarrow> bool" where
  "is_hexdigit c = (let n = of_char c :: nat in 48 \<le> n \<and> n \<le> 57 \<or> 65 \<le> n \<and> n \<le> 70 \<or> 97 \<le> n \<and> n \<le> 102)"

definition to_ascii_lower :: "char \<Rightarrow> char" where
  "to_ascii_lower c = (let n = of_char c :: nat in if 65 \<le> n \<and> n \<le> 90 then char_of (n + 32) else c)"

definition to_lowercase :: "string \<Rightarrow> string" where
  "to_lowercase = map to_ascii_lower"


section \<open>Round trip\<close>

lemma of_char_digit_char: "d < 10 \<Longrightarrow> of_char (digit_char d) = 48 + d"
  by (simp add: digit_char_def)

lemma to_digit_digit_char: "d < 10 \<Longrightarrow> to_digit (digit_char d) = Some d"
  by (simp add: to_digit_def of_char_digit_char)

lemma show_nat_nonempty: "show_nat n \<noteq> []"
  by (subst show_nat.simps) simp

lemma show_nat_digits: "\<forall>c \<in> set (show_nat n). \<exists>d < 10. c = digit_char d"
proof (induction n rule: show_nat.induct)
  case (1 n)
  then show ?case
    by (cases "n < 10") (auto simp: show_nat.simps [of n] intro: exI [of _ "n mod 10"])
qed

lemma digit_char_neq: "d < 10 \<Longrightarrow> of_char c < (48::nat) \<or> of_char c > (57::nat) \<Longrightarrow> digit_char d \<noteq> c"
  using of_char_digit_char by fastforce

lemma show_nat_free: "of_char c < (48::nat) \<or> of_char c > (57::nat) \<Longrightarrow> c \<notin> set (show_nat n)"
  using show_nat_digits digit_char_neq by metis

lemma parse_pos_append:
  "parse_pos hi acc (xs @ ys) =
     (case parse_pos hi acc xs of Inl e \<Rightarrow> Inl e | Inr a \<Rightarrow> parse_pos hi a ys)"
  by (induction xs arbitrary: acc) (auto split: option.splits)

lemma parse_pos_show_nat:
  "int n \<le> hi \<Longrightarrow> parse_pos hi 0 (show_nat n) = Inr (int n)"
proof (induction n rule: show_nat.induct)
  case (1 n)
  show ?case
  proof (cases "n < 10")
    case True
    with "1.prems" show ?thesis by (simp add: show_nat.simps [of n] to_digit_digit_char)
  next
    case False
    then have "int (n div 10) \<le> hi" using "1.prems" by linarith
    then have "parse_pos hi 0 (show_nat (n div 10)) = Inr (int (n div 10))"
      using "1.IH" False by simp
    moreover have "int (n div 10) * 10 + int (n mod 10) = int n" by presburger
    ultimately show ?thesis
      using False "1.prems" by (simp add: show_nat.simps [of n] parse_pos_append to_digit_digit_char)
  qed
qed

lemma show_nat_Cons:
  obtains c cs where "show_nat n = c # cs" "c \<noteq> CHR ''+''" "c \<noteq> CHR ''-''"
proof -
  obtain c cs where c: "show_nat n = c # cs" using show_nat_nonempty by (metis list.exhaust)
  have "CHR ''+'' \<notin> set (show_nat n)" "CHR ''-'' \<notin> set (show_nat n)"
    by (simp_all add: show_nat_free)
  with c that show thesis by (metis list.set_intros(1))
qed

lemma parse_u64_show_nat: "int n \<le> U64_MAX \<Longrightarrow> parse_u64 (show_nat n) = Inr (int n)"
proof -
  assume "int n \<le> U64_MAX"
  then have "parse_pos U64_MAX 0 (show_nat n) = Inr (int n)" by (rule parse_pos_show_nat)
  moreover obtain c cs where "show_nat n = c # cs" "c \<noteq> CHR ''+''" "c \<noteq> CHR ''-''"
    by (rule show_nat_Cons)
  ultimately show ?thesis
    by (auto simp: parse_u64_def simp del: parse_pos.simps split: list.splits)
qed

lemma parse_i64_show_nat: "int n \<le> I64_MAX \<Longrightarrow> parse_i64 (show_nat n) = Inr (int n)"
proof -
  assume "int n \<le> I64_MAX"
  then have "parse_pos I64_MAX 0 (show_nat n) = Inr (int n)" by (rule parse_pos_show_nat)
  moreover obtain c cs where "show_nat n = c # cs" "c \<noteq> CHR ''+''" "c \<noteq> CHR ''-''"
    by (rule show_nat_Cons)
  ultimately show ?thesis
    by (auto simp: parse_i64_def simp del: parse_pos.simps split: list.splits)
qed

lemma parse_pos_range:
  "parse_pos hi acc s = Inr v \<Longrightarrow> 0 \<le> acc \<Longrightarrow> acc \<le> hi \<Longrightarrow> acc \<le> v \<and> v \<le> hi"
proof (induction s arbitrary: acc)
  case (Cons c cs)
  then obtain d where "to_digit c = Some d" "acc * 10 + int d \<le> hi"
    "parse_pos hi (acc * 10 + int d) cs = Inr v"
    by (auto split: option.splits if_splits)
  with Cons.IH [of "acc * 10 + int d"] Cons.prems show ?case by auto
qed simp

lemma parse_neg_range:
  "parse_neg lo acc s = Inr v \<Longrightarrow> acc \<le> 0 \<Longrightarrow> lo \<le> acc \<Longrightarrow> lo \<le> v \<and> v \<le> acc"
proof (induction s arbitrary: acc)
  case (Cons c cs)
  then obtain d where "to_digit c = Some d" "lo \<le> acc * 10 - int d"
    "parse_neg lo (acc * 10 - int d) cs = Inr v"
    by (auto split: option.splits if_splits)
  with Cons.IH [of "acc * 10 - int d"] Cons.prems show ?case by auto
qed simp

lemma parse_i64_cases:
  "parse_i64 s = Inr v \<Longrightarrow> (\<exists>t. parse_pos I64_MAX 0 t = Inr v) \<or> (\<exists>t. parse_neg I64_MIN 0 t = Inr v)"
  unfolding parse_i64_def
  by (auto simp del: parse_pos.simps parse_neg.simps split: list.splits if_splits)

lemma parse_i64_range: "parse_i64 s = Inr v \<Longrightarrow> I64_MIN \<le> v \<and> v \<le> I64_MAX"
  using parse_i64_cases [of s v] parse_pos_range [of I64_MAX 0 _ v] parse_neg_range [of I64_MIN 0 _ v]
  by (auto simp: I64_MAX_def I64_MIN_def) fastforce+

lemma parse_u64_cases: "parse_u64 s = Inr v \<Longrightarrow> \<exists>t. parse_pos U64_MAX 0 t = Inr v"
  unfolding parse_u64_def by (auto simp del: parse_pos.simps split: list.splits if_splits)

lemma parse_u64_range: "parse_u64 s = Inr v \<Longrightarrow> 0 \<le> v \<and> v \<le> U64_MAX"
  using parse_u64_cases [of s v] parse_pos_range [of U64_MAX 0 _ v] by (auto simp: U64_MAX_def)

end
