(* ===== verification/Unicode_Text.thy ===== *)
theory Unicode_Text
  imports Rust_Num
begin

text \<open>
  Rust's \<open>char\<close> and \<open>str\<close> where the filterset parser looks at characters and not at bytes: Unicode
  scalar values as natural numbers, their UTF-8 encoding and decoding, \<open>char::from_u32\<close>,
  \<open>char::escape_default\<close>, \<open>str::trim\<close>, and hexadecimal numbers as \<open>u32::from_str_radix\<close> reads
  them and \<open>escape_default\<close> writes them.
\<close>

section \<open>UTF-8\<close>

type_synonym scalar = nat

definition is_scalar :: "scalar \<Rightarrow> bool" where
  "is_scalar c \<longleftrightarrow> c < 0xD800 \<or> 0xE000 \<le> c \<and> c \<le> 0x10FFFF"

definition char_from_u32 :: "nat \<Rightarrow> scalar option" where
  "char_from_u32 n = (if is_scalar n then Some n else None)"

text \<open>\<open>char_of\<close> takes the lowest eight bits of its argument.\<close>

definition utf8 :: "scalar \<Rightarrow> string" where
  "utf8 c =
     (if c < 0x80 then [char_of c]
      else if c < 0x800 then [char_of (0xC0 + c div 64), char_of (0x80 + c mod 64)]
      else if c < 0x10000 then
        [char_of (0xE0 + c div 4096), char_of (0x80 + c div 64 mod 64), char_of (0x80 + c mod 64)]
      else
        [char_of (0xF0 + c div 262144), char_of (0x80 + c div 4096 mod 64),
         char_of (0x80 + c div 64 mod 64), char_of (0x80 + c mod 64)])"

definition str_of :: "scalar list \<Rightarrow> string" where
  "str_of cs = concat (map utf8 cs)"

text \<open>The first byte tells how many bytes a character has; the later ones hold six bits each.\<close>

definition utf8_width :: "char \<Rightarrow> nat" where
  "utf8_width b = (let n = of_char b :: nat in
     if n < 0xC0 then 1 else if n < 0xE0 then 2 else if n < 0xF0 then 3 else 4)"

definition lead_bits :: "char \<Rightarrow> nat" where
  "lead_bits b = (let n = of_char b :: nat in
     if n < 0xC0 then n else if n < 0xE0 then n mod 32 else if n < 0xF0 then n mod 16 else n mod 8)"

definition decode_char :: "char \<Rightarrow> string \<Rightarrow> scalar" where
  "decode_char b bs = foldl (\<lambda>acc c. acc * 64 + of_char c mod 64) (lead_bits b) (take (utf8_width b - 1) bs)"

function chars :: "string \<Rightarrow> scalar list" where
  "chars [] = []"
| "chars (b # bs) = decode_char b bs # chars (drop (utf8_width b - 1) bs)"
  by pat_completeness auto
termination by (relation "measure length") auto

definition valid_str :: "string \<Rightarrow> bool" where
  "valid_str s \<longleftrightarrow> list_all is_scalar (chars s) \<and> str_of (chars s) = s"

lemma char_byte: "n < 256 \<Longrightarrow> of_char (char_of n :: char) = (n :: nat)"
  by simp

lemma six_bits:
  "(0x80 + x mod 64) mod 64 = (x mod 64 :: nat)"
  "k < 32 \<Longrightarrow> (0xC0 + k) mod 32 = (k :: nat)"
  "k < 16 \<Longrightarrow> (0xE0 + k) mod 16 = (k :: nat)"
  "k < 8 \<Longrightarrow> (0xF0 + k) mod 8 = (k :: nat)"
  using mod_mult_self2 [of "x mod 64" 64 2] mod_mult_self2 [of k 32 6]
    mod_mult_self2 [of k 16 14] mod_mult_self2 [of k 8 30]
  by (simp_all add: add.commute)

lemma joined_bits:
  "c div 64 * 64 + c mod 64 = (c :: nat)"
  "c div 4096 * 64 + c div 64 mod 64 = (c div 64 :: nat)"
  "c div 262144 * 64 + c div 4096 mod 64 = (c div 4096 :: nat)"
  using div_mult_mod_eq [of c 64] div_mult_mod_eq [of "c div 64" 64] div_mult_mod_eq [of "c div 4096" 64]
  by (simp_all add: div_mult2_eq [symmetric])

lemmas utf8_simps = utf8_def utf8_width_def lead_bits_def decode_char_def Let_def six_bits joined_bits

lemma chars_utf8:
  assumes "is_scalar c"
  shows "chars (utf8 c @ s) = c # chars s"
proof -
  consider "c < 0x80" | "0x80 \<le> c" "c < 0x800" | "0x800 \<le> c" "c < 0x10000" | "0x10000 \<le> c" by linarith
  then show ?thesis
  proof cases
    case 1
    then show ?thesis by (simp add: utf8_simps)
  next
    case 2
    then have "c div 64 < 32" by auto
    with 2 show ?thesis by (simp add: utf8_simps)
  next
    case 3
    then have "c div 4096 < 16" by auto
    with 3 show ?thesis by (simp add: utf8_simps)
  next
    case 4
    then have "c div 262144 < 8" using assms by (auto simp: is_scalar_def)
    with 4 show ?thesis by (simp add: utf8_simps)
  qed
qed

lemma chars_str_of: "list_all is_scalar cs \<Longrightarrow> chars (str_of cs @ s) = cs @ chars s"
  by (induction cs) (simp_all add: str_of_def chars_utf8)

lemma valid_str_of: "list_all is_scalar cs \<Longrightarrow> valid_str (str_of cs)"
  using chars_str_of [of cs "[]"] by (simp add: valid_str_def)

lemma valid_str_iff: "valid_str s \<longleftrightarrow> (\<exists>cs. list_all is_scalar cs \<and> s = str_of cs)"
  by (metis valid_str_def valid_str_of)

lemma utf8_ascii: "c < 128 \<Longrightarrow> utf8 c = [char_of c]"
  by (simp add: utf8_def)

lemma utf8_not_Nil: "utf8 c \<noteq> []"
  by (simp add: utf8_def)

text \<open>A character other than an ASCII one has no ASCII byte.\<close>

lemma utf8_high_bytes:
  assumes "is_scalar c" "128 \<le> c" "b \<in> set (utf8 c)"
  shows "128 \<le> (of_char b :: nat)"
proof -
  have "c div 64 < 32" if "c < 0x800" using that by auto
  moreover have "c div 4096 < 16" if "c < 0x10000" using that by auto
  moreover have "c div 262144 < 8" using assms(1) by (auto simp: is_scalar_def)
  ultimately show ?thesis using assms(2,3) by (auto simp: utf8_def split: if_splits)
qed


section \<open>Hexadecimal numbers\<close>

text \<open>\<open>u32::from_str_radix(s, 16)\<close> on at most six digits, which cannot overflow.\<close>

definition hex_value :: "char \<Rightarrow> nat" where
  "hex_value c = (let n = of_char c :: nat in if n \<le> 57 then n - 48 else if n \<le> 70 then n - 55 else n - 87)"

definition from_hex :: "string \<Rightarrow> nat" where
  "from_hex s = foldl (\<lambda>acc c. acc * 16 + hex_value c) 0 s"

definition hex_digit :: "nat \<Rightarrow> char" where
  "hex_digit d = char_of (if d < 10 then 48 + d else 87 + d)"

fun show_hex :: "nat \<Rightarrow> string" where
  "show_hex n = (if n < 16 then [hex_digit n] else show_hex (n div 16) @ [hex_digit (n mod 16)])"

declare show_hex.simps [simp del]

lemma hex_digit_value: "d < 16 \<Longrightarrow> hex_value (hex_digit d) = d"
proof -
  assume "d < 16"
  then have "(of_char (hex_digit d) :: nat) = (if d < 10 then 48 + d else 87 + d)"
    by (simp add: hex_digit_def)
  then show ?thesis using \<open>d < 16\<close> by (simp add: hex_value_def)
qed

lemma hex_digit_is_hexdigit: "d < 16 \<Longrightarrow> is_hexdigit (hex_digit d)"
  by (simp add: is_hexdigit_def hex_digit_def)

lemma from_hex_show_hex: "from_hex (show_hex n) = n"
proof (induction n rule: show_hex.induct)
  case (1 n)
  then show ?case
    by (cases "n < 16") (simp_all add: show_hex.simps [of n] from_hex_def hex_digit_value)
qed

lemma show_hex_digits: "c \<in> set (show_hex n) \<Longrightarrow> is_hexdigit c"
proof (induction n rule: show_hex.induct)
  case (1 n)
  then show ?case
    by (cases "n < 16") (auto simp: show_hex.simps [of n] hex_digit_is_hexdigit)
qed

lemma show_hex_length: "n < 16 ^ Suc k \<Longrightarrow> length (show_hex n) \<le> Suc k"
proof (induction k arbitrary: n)
  case 0
  then show ?case by (simp add: show_hex.simps [of n])
next
  case (Suc k)
  then have "n div 16 < 16 ^ Suc k" by (simp add: less_mult_imp_div_less)
  with Suc.IH show ?case by (simp add: show_hex.simps [of n])
qed

lemma show_hex_not_Nil: "show_hex n \<noteq> []"
  by (simp add: show_hex.simps [of n])


section \<open>Escapes and white space\<close>

text \<open>\<open>char::escape_default\<close>.\<close>

abbreviation backslash :: char where "backslash \<equiv> CHR 0x5C"

definition escape_default :: "scalar \<Rightarrow> string" where
  "escape_default c =
     (if c = 9 then [backslash, CHR ''t'']
      else if c = 13 then [backslash, CHR ''r'']
      else if c = 10 then [backslash, CHR ''n'']
      else if c = 39 \<or> c = 34 \<or> c = 92 then [backslash, char_of c]
      else if 32 \<le> c \<and> c \<le> 126 then [char_of c]
      else [backslash] @ ''u{'' @ show_hex c @ ''}'')"

text \<open>\<open>str::trim\<close> removes the characters with the Unicode property \<open>White_Space\<close> at both ends.\<close>

definition is_whitespace :: "scalar \<Rightarrow> bool" where
  "is_whitespace c \<longleftrightarrow> 9 \<le> c \<and> c \<le> 13 \<or> c = 0x20 \<or> c = 0x85 \<or> c = 0xA0 \<or> c = 0x1680 \<or>
     0x2000 \<le> c \<and> c \<le> 0x200A \<or> c = 0x2028 \<or> c = 0x2029 \<or> c = 0x202F \<or> c = 0x205F \<or> c = 0x3000"

definition str_trim :: "string \<Rightarrow> string" where
  "str_trim s = str_of (rev (dropWhile is_whitespace (rev (dropWhile is_whitespace (chars s)))))"

end
