(* ===== verification/Filterset_Parser.thy ===== *)
theory Filterset_Parser
  imports Unicode_Text Filterset_Compile
begin

text \<open>
  The parser of filtersets, \<open>nextest-filtering/src/parsing.rs\<close> with \<open>parsing/unicode_string.rs\<close>
  and \<open>parsing/glob.rs\<close>: from a string to a parsed expression, with the errors it reports on the
  way.

  The parser is written with the combinators of the library \<open>winnow\<close>, whose documented behaviour
  the first section states: a parser returns a value or asks its caller to backtrack, the input
  is only put back where the code or a combinator says so, and the list of reported errors is not
  part of what is put back. The regular expression and glob libraries are parameters.
\<close>

section \<open>Parser state and combinators\<close>

text \<open>\<open>Span\<close>: the input that is left, where it starts in the whole input, and the errors so far.\<close>

record span =
  unread :: string
  offset :: nat
  reported :: errors

text \<open>
  \<open>Stuck\<close> is the result that does not come: the recursion ran out of fuel, or \<open>repeat\<close> was given
  a parser that succeeds without reading anything, which the library refuses.
\<close>

datatype 'a reply = Done 'a | Backtrack | Stuck

type_synonym 'a parser = "span \<Rightarrow> 'a reply \<times> span"

definition new_span :: "string \<Rightarrow> span" where
  "new_span s = \<lparr>unread = s, offset = 0, reported = []\<rparr>"

definition advance :: "nat \<Rightarrow> span \<Rightarrow> span" where
  "advance n st = st\<lparr>unread := drop n (unread st), offset := offset st + n\<rparr>"

text \<open>\<open>reset\<close> to a checkpoint: the errors stay.\<close>

definition reset_to :: "span \<Rightarrow> span \<Rightarrow> span" where
  "reset_to start st = st\<lparr>unread := unread start, offset := offset start\<rparr>"

definition report_error :: "parse_single_error \<Rightarrow> unit parser" where
  "report_error e st = (Done (), st\<lparr>reported := reported st @ [e]\<rparr>)"

definition location :: "nat parser" where
  "location st = (Done (offset st), st)"

definition p_return :: "'a \<Rightarrow> 'a parser" where
  "p_return x st = (Done x, st)"

definition p_then :: "'a parser \<Rightarrow> ('a \<Rightarrow> 'b parser) \<Rightarrow> 'b parser" where
  "p_then p f st = (case p st of
     (Done x, st') \<Rightarrow> f x st' | (Backtrack, st') \<Rightarrow> (Backtrack, st') | (Stuck, st') \<Rightarrow> (Stuck, st'))"

definition p_map :: "('a \<Rightarrow> 'b) \<Rightarrow> 'a parser \<Rightarrow> 'b parser" where
  "p_map f p = p_then p (\<lambda>x. p_return (f x))"

definition p_value :: "'b \<Rightarrow> 'a parser \<Rightarrow> 'b parser" where
  "p_value y p = p_map (\<lambda>_. y) p"

definition preceded :: "'a parser \<Rightarrow> 'b parser \<Rightarrow> 'b parser" where
  "preceded p q = p_then p (\<lambda>_. q)"

definition terminated :: "'a parser \<Rightarrow> 'b parser \<Rightarrow> 'a parser" where
  "terminated p q = p_then p (\<lambda>x. p_value x q)"

definition delimited :: "'a parser \<Rightarrow> 'b parser \<Rightarrow> 'c parser \<Rightarrow> 'b parser" where
  "delimited p q r = preceded p (terminated q r)"

definition p_pair :: "'a parser \<Rightarrow> 'b parser \<Rightarrow> ('a \<times> 'b) parser" where
  "p_pair p q = p_then p (\<lambda>x. p_map (Pair x) q)"

definition p_verify :: "('a \<Rightarrow> bool) \<Rightarrow> 'a parser \<Rightarrow> 'a parser" where
  "p_verify P p st = (case p st of
     (Done x, st') \<Rightarrow> if P x then (Done x, st') else (Backtrack, reset_to st st') | r \<Rightarrow> r)"

definition p_verify_map :: "('a \<Rightarrow> 'b option) \<Rightarrow> 'a parser \<Rightarrow> 'b parser" where
  "p_verify_map f p st = (case p st of
     (Done x, st') \<Rightarrow> (case f x of Some y \<Rightarrow> (Done y, st') | None \<Rightarrow> (Backtrack, reset_to st st'))
   | (Backtrack, st') \<Rightarrow> (Backtrack, st') | (Stuck, st') \<Rightarrow> (Stuck, st'))"

text \<open>\<open>alt\<close>: the first parser that does not backtrack, each one tried at the same place.\<close>

fun p_alt :: "'a parser list \<Rightarrow> 'a parser" where
  "p_alt [] st = (Backtrack, st)"
| "p_alt [p] st = p st"
| "p_alt (p # ps) st = (case p st of (Backtrack, st') \<Rightarrow> p_alt ps (reset_to st st') | r \<Rightarrow> r)"

definition p_peek :: "'a parser \<Rightarrow> 'a parser" where
  "p_peek p st = (case p st of (r, st') \<Rightarrow> (r, reset_to st st'))"

definition p_not :: "'a parser \<Rightarrow> unit parser" where
  "p_not p st = (case p st of
     (Done _, st') \<Rightarrow> (Backtrack, reset_to st st')
   | (Backtrack, st') \<Rightarrow> (Done (), reset_to st st')
   | (Stuck, st') \<Rightarrow> (Stuck, st'))"

text \<open>\<open>repeat(0.., p).fold(..)\<close>: as often as \<open>p\<close> succeeds.\<close>

function p_repeat :: "'a parser \<Rightarrow> ('b \<Rightarrow> 'a \<Rightarrow> 'b) \<Rightarrow> 'b \<Rightarrow> 'b parser" where
  "p_repeat p f acc st = (case p st of
     (Done x, st') \<Rightarrow>
       if length (unread st') < length (unread st) then p_repeat p f (f acc x) st' else (Stuck, st')
   | (Backtrack, st') \<Rightarrow> (Done acc, reset_to st st')
   | (Stuck, st') \<Rightarrow> (Stuck, st'))"
  by pat_completeness auto
termination by (relation "measure (\<lambda>(p, f, acc, st). length (unread st))") auto

declare p_repeat.simps [simp del]

text \<open>Tokens: a literal string, one character, the longest run of at least \<open>m\<close> bytes, the end.\<close>

definition p_literal :: "string \<Rightarrow> string parser" where
  "p_literal s st = (if prefix s (unread st) then (Done s, advance (length s) st) else (Backtrack, st))"

definition one_of :: "(scalar \<Rightarrow> bool) \<Rightarrow> scalar parser" where
  "one_of P st = (case unread st of
     [] \<Rightarrow> (Backtrack, st)
   | b # bs \<Rightarrow> if P (decode_char b bs) then (Done (decode_char b bs), advance (utf8_width b) st)
               else (Backtrack, st))"

definition take_till :: "nat \<Rightarrow> (char \<Rightarrow> bool) \<Rightarrow> string parser" where
  "take_till m P st = (let s = takeWhile (\<lambda>c. \<not> P c) (unread st) in
     if length s < m then (Backtrack, st) else (Done s, advance (length s) st))"

definition take_while_upto :: "nat \<Rightarrow> nat \<Rightarrow> (char \<Rightarrow> bool) \<Rightarrow> string parser" where
  "take_while_upto m n P st = (let s = take n (takeWhile P (unread st)) in
     if length s < m then (Backtrack, st) else (Done s, advance (length s) st))"

definition p_eof :: "unit parser" where
  "p_eof st = (if unread st = [] then (Done (), st) else (Backtrack, st))"

definition line_ending :: "string parser" where
  "line_ending = p_alt [p_literal [CHR 0x0A], p_literal [CHR 0x0D, CHR 0x0A]]"

text \<open>
  What the other libraries answer: which characters are alphanumeric, whether a regular expression
  is accepted and why not, the regex of a glob, and whether that regex is accepted.
\<close>

datatype regex_syntax_verdict = SyntaxOk | SyntaxError string nat nat | SyntaxOtherError

record syntax_libs =
  sx_alphanum :: "scalar \<Rightarrow> bool"
  sx_regex_new :: "string \<Rightarrow> bool"
  sx_regex_syntax :: "string \<Rightarrow> regex_syntax_verdict"
  sx_globset :: "string \<Rightarrow> string + regex_source"
  sx_bytes_regex_new :: "regex_source \<Rightarrow> string option"


section \<open>Expectations\<close>

datatype span_length = Unknown | Exact nat | Offset int nat

text \<open>
  \<open>expect_inner\<close>: a parser that would backtrack reports an error instead and gives no value. The
  addition to the offset saturates at 0.
\<close>

definition error_span :: "span_length \<Rightarrow> span \<Rightarrow> source_span" where
  "error_span limit st =
     (let fragment_start = offset st; fragment_length = length (unread st) in
      case limit of
        Unknown \<Rightarrow> (fragment_start, fragment_length)
      | Exact x \<Rightarrow> (fragment_start, min x fragment_length)
      | Offset off x \<Rightarrow>
          let effective_start = nat (int fragment_start + off);
              effective_end = effective_start + fragment_length
          in (effective_start, min (effective_end - effective_start) x))"

definition expect_inner ::
  "'a parser \<Rightarrow> (source_span \<Rightarrow> parse_single_error) \<Rightarrow> span_length \<Rightarrow> 'a option parser" where
  "expect_inner p make_err limit st = (case p st of
     (Done x, st') \<Rightarrow> (Done (Some x), st')
   | (Backtrack, st') \<Rightarrow> p_value None (report_error (make_err (error_span limit st'))) st'
   | (Stuck, st') \<Rightarrow> (Stuck, st'))"

definition expect :: "'a parser \<Rightarrow> (source_span \<Rightarrow> parse_single_error) \<Rightarrow> 'a option parser" where
  "expect p make_err = expect_inner p make_err Unknown"

definition expect_n ::
  "'a parser \<Rightarrow> (source_span \<Rightarrow> parse_single_error) \<Rightarrow> span_length \<Rightarrow> 'a option parser" where
  "expect_n p make_err limit = expect_inner p make_err limit"

definition silent_expect :: "'a parser \<Rightarrow> 'a option parser" where
  "silent_expect p st = (case p st of
     (Done x, st') \<Rightarrow> (Done (Some x), st')
   | (Backtrack, st') \<Rightarrow> (Done None, st')
   | (Stuck, st') \<Rightarrow> (Stuck, st'))"

text \<open>Spaces and line endings before a parser; the input is put back if it fails.\<close>

definition skip_space :: "unit parser" where
  "skip_space = p_repeat (p_alt [p_value () (p_literal '' ''), p_value () line_ending]) (\<lambda>_ _. ()) ()"

definition ws :: "'a parser \<Rightarrow> 'a parser" where
  "ws inner st = p_then skip_space (\<lambda>_ st1. case inner st1 of
     (Done x, st2) \<Rightarrow> (Done x, st2)
   | (Backtrack, st2) \<Rightarrow> (Backtrack, reset_to st st2)
   | (Stuck, st2) \<Rightarrow> (Stuck, st2)) st"

definition expect_char :: "string \<Rightarrow> (source_span \<Rightarrow> parse_single_error) \<Rightarrow> string option parser" where
  "expect_char c make_err = expect_inner (ws (p_literal c)) make_err (Exact 0)"

definition word_boundary :: "syntax_libs \<Rightarrow> unit parser" where
  "word_boundary sx = p_peek (p_not (one_of (\<lambda>c. sx_alphanum sx c \<or> c = 95)))"


section \<open>Strings\<close>

definition parse_unicode :: "scalar parser" where
  "parse_unicode =
     p_verify_map char_from_u32
       (p_map from_hex
         (preceded (p_literal ''u'')
           (delimited (p_literal ''{'') (take_while_upto 1 6 is_hexdigit) (p_literal ''}''))))"

definition valid_escape :: "scalar parser" where
  "valid_escape = p_alt [
     parse_unicode,
     p_value 10 (p_literal ''n''),
     p_value 13 (p_literal ''r''),
     p_value 9 (p_literal ''t''),
     p_value 8 (p_literal ''b''),
     p_value 12 (p_literal ''f''),
     p_value 92 (p_literal [backslash]),
     p_value 47 (p_literal ''/''),
     p_alt [p_value 41 (p_literal '')''), p_value 44 (p_literal '','')]]"

definition parse_escaped_char :: "scalar option parser" where
  "parse_escaped_char =
     preceded (p_literal [backslash]) (expect_n valid_escape InvalidEscapeCharacter (Offset (-1) 2))"

definition ends_literal :: "char \<Rightarrow> bool" where
  "ends_literal c \<longleftrightarrow> c = CHR '','' \<or> c = CHR '')'' \<or> c = backslash"

definition parse_literal :: "string parser" where
  "parse_literal = p_verify (\<lambda>s. s \<noteq> []) (take_till 1 ends_literal)"

datatype string_fragment = LiteralText string | EscapedChar scalar

definition parse_fragment :: "string_fragment option parser" where
  "parse_fragment = p_alt [
     p_map (\<lambda>s. Some (LiteralText s)) parse_literal,
     p_map (map_option EscapedChar) parse_escaped_char]"

fun push_fragment :: "string option \<Rightarrow> string_fragment option \<Rightarrow> string option" where
  "push_fragment (Some s) (Some (LiteralText t)) = Some (s @ t)"
| "push_fragment (Some s) (Some (EscapedChar c)) = Some (s @ utf8 c)"
| "push_fragment (Some _) None = None"
| "push_fragment None _ = None"

definition parse_string :: "string option parser" where
  "parse_string = p_repeat parse_fragment push_fragment (Some [])"

text \<open>Every parser that cannot fail leaves the \<open>unreachable!()\<close> of its caller aside.\<close>

definition parse_matcher_text :: "string option parser" where
  "parse_matcher_text =
     p_then (expect parse_string InvalidString) (\<lambda>res0.
       let res = Option.bind res0 (\<lambda>r. r) in
       if res = Some [] then
         p_then location (\<lambda>start.
         p_then (report_error (InvalidString (start, 0))) (\<lambda>_. p_return res))
       else p_return res)"


section \<open>Matchers\<close>

definition parse_contains_matcher :: "name_matcher option parser" where
  "parse_contains_matcher =
     p_map (map_option (\<lambda>value. Contains value False)) (preceded (p_literal ''~'') parse_matcher_text)"

definition parse_equal_matcher :: "name_matcher option parser" where
  "parse_equal_matcher =
     ws (p_map (map_option (\<lambda>value. Equal value False)) (preceded (p_literal ''='') parse_matcher_text))"

datatype regex_frag = FragLiteral string | FragEscape string

fun push_frag :: "string \<Rightarrow> regex_frag \<Rightarrow> string" where
  "push_frag s (FragEscape c) = s @ c"
| "push_frag s (FragLiteral t) = s @ t"

definition ends_regex_literal :: "char \<Rightarrow> bool" where
  "ends_regex_literal c \<longleftrightarrow> c = backslash \<or> c = CHR ''/''"

definition parse_regex_frag :: "regex_frag parser" where
  "parse_regex_frag = p_alt [
     p_map FragEscape (p_alt [p_value ''/'' (p_literal [backslash, CHR ''/'']), p_literal [backslash]]),
     p_map FragLiteral (p_verify (\<lambda>s. s \<noteq> []) (take_till 1 ends_regex_literal))]"

definition parse_regex_inner :: "string parser" where
  "parse_regex_inner =
     p_then (p_repeat parse_regex_frag push_frag []) (\<lambda>res.
     p_then (p_peek (p_literal ''/'')) (\<lambda>_. p_return res))"

text \<open>\<open>ParseSingleError::invalid_regex\<close>.\<close>

definition invalid_regex :: "syntax_libs \<Rightarrow> string \<Rightarrow> nat \<Rightarrow> nat \<Rightarrow> parse_single_error" where
  "invalid_regex sx s start fin = (case sx_regex_syntax sx s of
     SyntaxOk \<Rightarrow> InvalidRegexWithoutMessage (start, fin - start)
   | SyntaxOtherError \<Rightarrow> InvalidRegexWithoutMessage (start, fin - start)
   | SyntaxError message err_from err_to \<Rightarrow>
       let err_start = start + err_from; err_end = start + err_to
       in InvalidRegex (err_start, err_end - err_start) message)"

definition is_close_paren :: "char \<Rightarrow> bool" where
  "is_close_paren c \<longleftrightarrow> c = CHR '')''"

definition parse_regex :: "syntax_libs \<Rightarrow> name_matcher option parser" where
  "parse_regex sx st = (case parse_regex_inner st of
     (Done res, st1) \<Rightarrow>
       if sx_regex_new sx res then (Done (Some (Regex res)), st1)
       else p_value None (report_error (invalid_regex sx res (offset st) (offset st1))) st1
   | (Backtrack, st1) \<Rightarrow>
       p_then (take_till 0 is_close_paren) (\<lambda>_.
       p_then location (\<lambda>start.
         p_value None (report_error (ExpectedCloseRegex (start, 0))))) (reset_to st st1)
   | (Stuck, st1) \<Rightarrow> (Stuck, st1))"

definition parse_regex_matcher :: "syntax_libs \<Rightarrow> name_matcher option parser" where
  "parse_regex_matcher sx =
     ws (delimited (p_literal ''/'') (parse_regex sx) (silent_expect (ws (p_literal ''/''))))"

definition generic_glob_new :: "syntax_libs \<Rightarrow> string \<Rightarrow> glob_construct_error + generic_glob" where
  "generic_glob_new sx s = (case sx_globset sx s of
     Inl e \<Rightarrow> Inl (InvalidGlobPattern e)
   | Inr regex \<Rightarrow> (case sx_bytes_regex_new sx regex of
         Some e \<Rightarrow> Inl (GlobRegexError e)
       | None \<Rightarrow> Inr \<lparr>glob_str = s, glob_regex = regex\<rparr>))"

definition parse_glob :: "syntax_libs \<Rightarrow> bool \<Rightarrow> name_matcher option parser" where
  "parse_glob sx implicit =
     p_then location (\<lambda>start.
     p_then parse_matcher_text (\<lambda>res. case res of
       None \<Rightarrow> p_return None
     | Some parsed_value \<Rightarrow> (case generic_glob_new sx parsed_value of
           Inr glob \<Rightarrow> p_return (Some (Glob glob implicit))
         | Inl error \<Rightarrow>
             p_then location (\<lambda>fin.
             p_value None (report_error (InvalidGlob (start, fin - start) error))))))"

definition parse_glob_matcher :: "syntax_libs \<Rightarrow> name_matcher option parser" where
  "parse_glob_matcher sx = ws (preceded (p_literal ''#'') (parse_glob sx False))"

datatype default_matcher = DefaultEqual | DefaultContains | DefaultGlob

fun default_matcher_parser :: "syntax_libs \<Rightarrow> default_matcher \<Rightarrow> name_matcher option parser" where
  "default_matcher_parser sx DefaultEqual = p_map (map_option implicit_equal) parse_matcher_text"
| "default_matcher_parser sx DefaultContains = p_map (map_option implicit_contains) parse_matcher_text"
| "default_matcher_parser sx DefaultGlob = parse_glob sx True"

definition set_matcher :: "syntax_libs \<Rightarrow> default_matcher \<Rightarrow> name_matcher option parser" where
  "set_matcher sx d = ws (p_alt [
     parse_regex_matcher sx,
     parse_glob_matcher sx,
     parse_equal_matcher,
     parse_contains_matcher,
     default_matcher_parser sx d])"


section \<open>Set definitions\<close>

definition recover_unexpected_comma :: "unit parser" where
  "recover_unexpected_comma st = (case p_peek (ws (p_literal '','')) st of
     (Done _, st1) \<Rightarrow>
       p_then location (\<lambda>pos.
       p_then (report_error (UnexpectedComma (pos, 0))) (\<lambda>_.
       p_value () (take_till 0 is_close_paren))) st1
   | (_, st1) \<Rightarrow> (Done (), reset_to st st1))"

definition nullary_set_def :: "string \<Rightarrow> (source_span \<Rightarrow> parsed_leaf) \<Rightarrow> parsed_leaf option parser" where
  "nullary_set_def name make_set =
     p_then location (\<lambda>start.
     p_then (p_literal name) (\<lambda>_.
     p_then (expect_char ''('' ExpectedOpenParenthesis) (\<lambda>_.
     p_then location (\<lambda>err_loc.
     p_then (take_till 0 is_close_paren) (\<lambda>res.
     p_then (if str_trim res \<noteq> [] then report_error (UnexpectedArgument (err_loc, length res))
             else p_return ()) (\<lambda>_.
     p_then (expect_char '')'' ExpectedCloseParenthesis) (\<lambda>_.
     p_then location (\<lambda>fin.
       p_return (Some (make_set (start, fin - start)))))))))))"

definition unary_set_def ::
  "syntax_libs \<Rightarrow> string \<Rightarrow> default_matcher \<Rightarrow> (name_matcher \<Rightarrow> source_span \<Rightarrow> parsed_leaf)
     \<Rightarrow> parsed_leaf option parser" where
  "unary_set_def sx name d make_set =
     p_then (p_literal name) (\<lambda>_.
     p_then (expect_char ''('' ExpectedOpenParenthesis) (\<lambda>_.
     p_then location (\<lambda>start.
     p_then (set_matcher sx d) (\<lambda>res.
     p_then location (\<lambda>fin.
     p_then recover_unexpected_comma (\<lambda>_.
     p_then (expect_char '')'' ExpectedCloseParenthesis) (\<lambda>_.
       p_return (map_option (\<lambda>matcher. make_set matcher (start, fin - start)) res))))))))"

definition platform_def :: "parsed_leaf option parser" where
  "platform_def =
     p_then (p_literal ''platform'') (\<lambda>_.
     p_then (expect_char ''('' ExpectedOpenParenthesis) (\<lambda>_.
     p_then location (\<lambda>start.
     p_then (ws parse_matcher_text) (\<lambda>res.
     p_then location (\<lambda>fin.
     p_then recover_unexpected_comma (\<lambda>_.
     p_then (expect_char '')'' ExpectedCloseParenthesis) (\<lambda>_.
     p_then (case map_option str_trim res of
               None \<Rightarrow> p_return None
             | Some s \<Rightarrow> if s = ''host'' then p_return (Some Host)
                         else if s = ''target'' then p_return (Some Target)
                         else p_value None (report_error (InvalidPlatformArgument (start, fin - start))))
       (\<lambda>platform. p_return (map_option (\<lambda>p. PPlatform p (start, fin - start)) platform)))))))))"

definition parse_set_def :: "syntax_libs \<Rightarrow> parsed_leaf option parser" where
  "parse_set_def sx = ws (p_alt [
     unary_set_def sx ''package'' DefaultGlob PPackage,
     unary_set_def sx ''deps'' DefaultGlob PDeps,
     unary_set_def sx ''rdeps'' DefaultGlob PRdeps,
     unary_set_def sx ''kind'' DefaultEqual PKind,
     unary_set_def sx ''binary_id'' DefaultGlob PBinaryId,
     unary_set_def sx ''binary'' DefaultGlob PBinary,
     unary_set_def sx ''test'' DefaultContains PTest,
     p_alt [
       unary_set_def sx ''group'' DefaultGlob PGroup,
       platform_def,
       nullary_set_def ''default'' PDefault,
       nullary_set_def ''all'' (\<lambda>_. PAll),
       nullary_set_def ''none'' (\<lambda>_. PNone)]])"


section \<open>Expressions\<close>

datatype expr_result = Valid parsed_expr | Error

fun result_combine ::
  "expr_result \<Rightarrow> (parsed_expr \<Rightarrow> parsed_expr \<Rightarrow> parsed_expr) \<Rightarrow> expr_result \<Rightarrow> expr_result" where
  "result_combine (Valid e1) f (Valid e2) = Valid (f e1 e2)"
| "result_combine _ _ _ = Error"

fun result_negate :: "not_operator \<Rightarrow> expr_result \<Rightarrow> expr_result" where
  "result_negate op (Valid e) = Valid (ENot op e)"
| "result_negate op Error = Error"

fun result_parens :: "expr_result \<Rightarrow> expr_result" where
  "result_parens (Valid e) = Valid (EParens e)"
| "result_parens Error = Error"

definition expect_expr :: "expr_result parser \<Rightarrow> expr_result parser" where
  "expect_expr p = p_map (\<lambda>res. case res of Some r \<Rightarrow> r | None \<Rightarrow> Error) (expect p ExpectedExpr)"

definition misplaced_binary_ops :: "syntax_libs \<Rightarrow> (string \<times> string) parser" where
  "misplaced_binary_ops sx = p_alt [
     p_value (''and'', ''and'') (terminated (p_literal ''and'') (word_boundary sx)),
     p_value (''or'', ''or'') (terminated (p_literal ''or'') (word_boundary sx)),
     p_value (''AND'', ''and'') (terminated (p_literal ''AND'') (word_boundary sx)),
     p_value (''OR'', ''or'') (terminated (p_literal ''OR'') (word_boundary sx)),
     p_value (''&&'', ''&'') (p_literal ''&&''),
     p_value (''||'', ''|'') (p_literal ''||'')]"

definition parse_misplaced_binary_op :: "syntax_libs \<Rightarrow> expr_result parser" where
  "parse_misplaced_binary_op sx =
     p_then location (\<lambda>start.
     p_then (misplaced_binary_ops sx) (\<lambda>(op, suggest).
     p_value Error (report_error (ExprFoundBinaryOp op suggest (start, length op)))))"

definition parse_misplaced_unary_op :: "syntax_libs \<Rightarrow> expr_result parser" where
  "parse_misplaced_unary_op sx =
     p_then location (\<lambda>start.
     p_then (p_value ''NOT'' (terminated (p_literal ''NOT'') (word_boundary sx))) (\<lambda>op.
     p_value Error (report_error (ExprFoundUnaryOp op ''not'' (start, length op)))))"

definition parse_not_operator :: "syntax_libs \<Rightarrow> not_operator parser" where
  "parse_not_operator sx = p_alt [
     p_value LiteralNot (terminated (p_literal ''not'') (word_boundary sx)),
     p_value Exclamation (p_literal ''!'')]"

definition parse_or_operator :: "syntax_libs \<Rightarrow> or_operator option parser" where
  "parse_or_operator sx = ws (p_alt [
     p_then location (\<lambda>start.
     p_then (p_alt [p_literal ''||'', terminated (p_literal ''OR'') (word_boundary sx)]) (\<lambda>op.
     p_value None (report_error (InvalidOrOperator (start, length op))))),
     p_value (Some LiteralOr) (terminated (p_literal ''or'') (word_boundary sx)),
     p_value (Some Pipe) (p_literal ''|''),
     p_value (Some Plus) (p_literal ''+'')])"

datatype and_or_difference_operator = OpAnd and_operator | OpDifference difference_operator

definition parse_and_or_difference_operator :: "syntax_libs \<Rightarrow> and_or_difference_operator option parser" where
  "parse_and_or_difference_operator sx = ws (p_alt [
     p_then location (\<lambda>start.
     p_then (p_alt [p_literal ''&&'', terminated (p_literal ''AND'') (word_boundary sx)]) (\<lambda>op.
     p_value None (report_error (InvalidAndOperator (start, length op))))),
     p_value (Some (OpAnd LiteralAnd)) (terminated (p_literal ''and'') (word_boundary sx)),
     p_value (Some (OpAnd Ampersand)) (p_literal ''&''),
     p_value (Some (OpDifference Minus)) (p_literal ''-'')])"

text \<open>
  An expression is parsed by three functions that call each other. Here those above the
  innermost take the parser of basic expressions as an argument.
\<close>

fun apply_and_or_difference ::
  "expr_result \<Rightarrow> and_or_difference_operator option \<times> expr_result \<Rightarrow> expr_result" where
  "apply_and_or_difference e1 (Some (OpAnd op), e2) = result_combine e1 (EIntersection op) e2"
| "apply_and_or_difference e1 (Some (OpDifference op), e2) = result_combine e1 (EDifference op) e2"
| "apply_and_or_difference e1 (None, e2) = Error"

fun apply_or :: "expr_result \<Rightarrow> or_operator option \<times> expr_result \<Rightarrow> expr_result" where
  "apply_or e1 (Some op, e2) = result_combine e1 (EUnion op) e2"
| "apply_or e1 (None, e2) = Error"

definition parse_and_or_difference_expr :: "syntax_libs \<Rightarrow> expr_result parser \<Rightarrow> expr_result parser" where
  "parse_and_or_difference_expr sx basic =
     p_then (expect_expr basic) (\<lambda>expr.
     p_then (p_repeat (p_pair (parse_and_or_difference_operator sx) (expect_expr basic))
               (\<lambda>ops x. ops @ [x]) []) (\<lambda>ops.
       p_return (foldl apply_and_or_difference expr ops)))"

definition parse_expr :: "syntax_libs \<Rightarrow> expr_result parser \<Rightarrow> expr_result parser" where
  "parse_expr sx basic =
     p_then (expect_expr (parse_and_or_difference_expr sx basic)) (\<lambda>expr.
     p_then (p_repeat (p_pair (parse_or_operator sx) (expect_expr (parse_and_or_difference_expr sx basic)))
               (\<lambda>ops x. ops @ [x]) []) (\<lambda>ops.
       p_return (foldl apply_or expr ops)))"

definition parse_expr_not :: "syntax_libs \<Rightarrow> expr_result parser \<Rightarrow> expr_result parser" where
  "parse_expr_not sx basic =
     p_map (\<lambda>(op, expr). result_negate op expr)
       (p_pair (parse_not_operator sx) (expect_expr (ws basic)))"

definition parse_parentheses_expr :: "expr_result parser \<Rightarrow> expr_result parser" where
  "parse_parentheses_expr expr =
     p_map result_parens
       (delimited (p_literal ''('') (expect_expr expr) (expect_char '')'' ExpectedCloseParenthesis))"

text \<open>The fuel is the number of basic expressions that may be open inside one another.\<close>

fun parse_basic_expr :: "syntax_libs \<Rightarrow> nat \<Rightarrow> expr_result parser" where
  "parse_basic_expr sx 0 st = (Stuck, st)"
| "parse_basic_expr sx (Suc fuel) st = ws (p_alt [
     p_map (\<lambda>set. case set of Some leaf \<Rightarrow> Valid (ESet leaf) | None \<Rightarrow> Error) (parse_set_def sx),
     parse_expr_not sx (parse_basic_expr sx fuel),
     parse_parentheses_expr (parse_expr sx (parse_basic_expr sx fuel)),
     parse_misplaced_binary_op sx,
     parse_misplaced_unary_op sx]) st"

text \<open>The whole input: an expression and nothing after it. A basic expression inside another
  starts at least one byte later, so that the length of the input bounds the nesting.\<close>

definition parse :: "syntax_libs \<Rightarrow> string \<Rightarrow> expr_result reply \<times> span" where
  "parse sx s =
     terminated (parse_expr sx (parse_basic_expr sx (Suc (length s))))
       (expect (ws p_eof) ExpectedEndOfExpression) (new_span s)"

text \<open>\<open>ParsedExpr::parse\<close>, where \<open>unwrap\<close> panics on a parser that failed.\<close>

definition parsed_expr_parse :: "syntax_libs \<Rightarrow> string \<Rightarrow> (errors + parsed_expr) outcome" where
  "parsed_expr_parse sx s = (case parse sx s of
     (Done (Valid e), st) \<Rightarrow> Ret (Inr e)
   | (Done Error, st) \<Rightarrow> Ret (Inl (reported st))
   | _ \<Rightarrow> Panic)"

end
