(* ===== verification/Filterset_Parser_Props.thy ===== *)
theory Filterset_Parser_Props
  imports Filterset_Parser
begin

text \<open>
  What the filterset parser guarantees on every input, proved with a weakest precondition for
  parsers: it always answers, it only moves forward, the errors it reports lie inside the
  input, and it reports an error unless it returns an expression in the form that
  \<open>well_bracketed\<close> describes.
\<close>

section \<open>Where errors point\<close>

fun error_spans :: "parse_single_error \<Rightarrow> source_span list" where
  "error_spans (InvalidRegex sp _) = [sp]"
| "error_spans (InvalidGlob sp _) = [sp]"
| "error_spans (BannedPredicate _ sp _) = [sp]"
| "error_spans (InvalidRegexWithoutMessage sp) = [sp]"
| "error_spans (ExpectedCloseRegex sp) = [sp]"
| "error_spans (InvalidOrOperator sp) = [sp]"
| "error_spans (InvalidAndOperator sp) = [sp]"
| "error_spans (UnexpectedArgument sp) = [sp]"
| "error_spans (UnexpectedComma sp) = [sp]"
| "error_spans (InvalidString sp) = [sp]"
| "error_spans (ExpectedOpenParenthesis sp) = [sp]"
| "error_spans (ExpectedCloseParenthesis sp) = [sp]"
| "error_spans (InvalidEscapeCharacter sp) = [sp]"
| "error_spans (ExpectedExpr sp) = [sp]"
| "error_spans (ExprFoundBinaryOp _ _ sp) = [sp]"
| "error_spans (ExprFoundUnaryOp _ _ sp) = [sp]"
| "error_spans (ExpectedEndOfExpression sp) = [sp]"
| "error_spans (NoPackageMatch sp) = [sp]"
| "error_spans (NoGroupMatch sp) = [sp]"
| "error_spans (NoBinaryIdMatch sp) = [sp]"
| "error_spans (NoBinaryNameMatch sp) = [sp]"
| "error_spans (InvalidPlatformArgument sp) = [sp]"
| "error_spans (UnsupportedExpression sp) = [sp]"
| "error_spans UnknownParseError = []"

definition in_input :: "nat \<Rightarrow> parse_single_error \<Rightarrow> bool" where
  "in_input n e \<longleftrightarrow> (\<forall>(start, len) \<in> set (error_spans e). start + len \<le> n)"

text \<open>The library \<open>regex-syntax\<close> points into the regular expression it was given.\<close>

definition syntax_spans_ok :: "syntax_libs \<Rightarrow> bool" where
  "syntax_spans_ok sx \<longleftrightarrow>
     (\<forall>s message a b. sx_regex_syntax sx s = SyntaxError message a b \<longrightarrow> a \<le> b \<and> b \<le> length s)"


section \<open>Weakest preconditions\<close>

text \<open>
  A step of a parser: some bytes are read, some errors are added. \<open>B\<close> tells whether the errors are
  known to point into the input.
\<close>

definition good :: "bool \<Rightarrow> span \<Rightarrow> span \<Rightarrow> bool" where
  "good B st st' \<longleftrightarrow> (\<exists>n new. n \<le> length (unread st) \<and> unread st' = drop n (unread st) \<and>
     offset st' = offset st + n \<and> reported st' = reported st @ new \<and>
     (\<forall>e \<in> set new. B \<longrightarrow> in_input (offset st + length (unread st)) e))"

definition wp :: "bool \<Rightarrow> span \<Rightarrow> 'a parser \<Rightarrow> ('a \<Rightarrow> span \<Rightarrow> bool) \<Rightarrow> bool" where
  "wp B st p Q \<longleftrightarrow> (case p st of
     (Done x, st') \<Rightarrow> good B st st' \<and> Q x st' | (Backtrack, st') \<Rightarrow> good B st st' | (Stuck, _) \<Rightarrow> False)"

definition told :: "span \<Rightarrow> span \<Rightarrow> bool" where
  "told st st' \<longleftrightarrow> length (reported st) < length (reported st')"

definition answers :: "span \<Rightarrow> ('a \<Rightarrow> bool) \<Rightarrow> 'a option \<Rightarrow> span \<Rightarrow> bool" where
  "answers st P r st' \<longleftrightarrow> told st st' \<or> (\<exists>x. r = Some x \<and> P x)"

lemma good_refl [simp, intro]: "good B st st"
  by (auto simp: good_def intro: exI [of _ 0])

lemma good_trans:
  assumes "good B st st1" "good B st1 st2"
  shows "good B st st2"
proof -
  from assms(1) obtain n new where 1: "n \<le> length (unread st)" "unread st1 = drop n (unread st)"
    "offset st1 = offset st + n" "reported st1 = reported st @ new"
    "\<forall>e \<in> set new. B \<longrightarrow> in_input (offset st + length (unread st)) e"
    by (auto simp: good_def)
  from assms(2) obtain m new' where 2: "m \<le> length (unread st1)" "unread st2 = drop m (unread st1)"
    "offset st2 = offset st1 + m" "reported st2 = reported st1 @ new'"
    "\<forall>e \<in> set new'. B \<longrightarrow> in_input (offset st1 + length (unread st1)) e"
    by (auto simp: good_def)
  from 1 2 show ?thesis
    unfolding good_def by (intro exI [of _ "n + m"] exI [of _ "new @ new'"]) (auto simp: add_ac)
qed

lemma good_facts:
  assumes "good B st st'"
  shows "offset st' + length (unread st') = offset st + length (unread st)"
    and "length (reported st) \<le> length (reported st')"
    and "length (unread st') \<le> length (unread st)" and "offset st \<le> offset st'"
  using assms by (auto simp: good_def)

lemma good_errors:
  assumes "good B st st'" B "\<forall>e \<in> set (reported st). in_input (offset st + length (unread st)) e"
  shows "\<forall>e \<in> set (reported st'). in_input (offset st + length (unread st)) e"
  using assms by (auto simp: good_def)

lemma good_reset: "good B st st' \<Longrightarrow> good B st (reset_to st st')"
  by (auto simp: good_def reset_to_def intro!: exI [of _ 0])

lemma good_advance: "n \<le> length (unread st) \<Longrightarrow> good B st (advance n st)"
  by (auto simp: good_def advance_def)

lemma reset_simps [simp]:
  "unread (reset_to st st') = unread st" "offset (reset_to st st') = offset st"
  "reported (reset_to st st') = reported st'"
  by (simp_all add: reset_to_def)

lemma advance_simps [simp]:
  "unread (advance n st) = drop n (unread st)" "offset (advance n st) = offset st + n"
  "reported (advance n st) = reported st"
  by (simp_all add: advance_def)

lemma told_trans: "good B st st1 \<Longrightarrow> told st1 st2 \<Longrightarrow> told st st2"
  "told st st1 \<Longrightarrow> good B st1 st2 \<Longrightarrow> told st st2"
  by (auto simp: told_def dest: good_facts(2))

lemma answers_Some [simp]: "P x \<Longrightarrow> answers st P (Some x) st'"
  by (simp add: answers_def)

lemma wp_conseq:
  assumes "wp B st p Q" "\<And>x st'. good B st st' \<Longrightarrow> Q x st' \<Longrightarrow> Q' x st'"
  shows "wp B st p Q'"
  using assms by (auto simp: wp_def split: prod.splits reply.splits)

lemma wp_continue: "good B st st1 \<Longrightarrow> wp B st1 q Q \<Longrightarrow> p st = q st1 \<Longrightarrow> wp B st p Q"
  by (auto simp: wp_def split: prod.splits reply.splits intro: good_trans)

lemma wp_return: "Q x st \<Longrightarrow> wp B st (p_return x) Q"
  by (simp add: wp_def p_return_def)

lemma wp_then:
  assumes "wp B st p Q1" "\<And>x st1. good B st st1 \<Longrightarrow> Q1 x st1 \<Longrightarrow> wp B st1 (f x) Q"
  shows "wp B st (p_then p f) Q"
  using assms unfolding wp_def p_then_def
  by (fastforce split: prod.splits reply.splits intro: good_trans)

lemma wp_map: "wp B st p (\<lambda>x st'. Q (f x) st') \<Longrightarrow> wp B st (p_map f p) Q"
  unfolding p_map_def by (erule wp_then) (rule wp_return)

lemma wp_value: "wp B st p (\<lambda>_ st'. Q y st') \<Longrightarrow> wp B st (p_value y p) Q"
  unfolding p_value_def by (rule wp_map)

lemma wp_preceded:
  assumes "wp B st p Q1" "\<And>x st1. good B st st1 \<Longrightarrow> Q1 x st1 \<Longrightarrow> wp B st1 q Q"
  shows "wp B st (preceded p q) Q"
  unfolding preceded_def using assms by (rule wp_then)

lemma wp_terminated:
  assumes "wp B st p Q1" "\<And>x st1. good B st st1 \<Longrightarrow> Q1 x st1 \<Longrightarrow> wp B st1 q (\<lambda>_ st2. Q x st2)"
  shows "wp B st (terminated p q) Q"
  unfolding terminated_def using assms by (blast intro: wp_then wp_value)

lemma wp_pair:
  assumes "wp B st p Q1" "\<And>x st1. good B st st1 \<Longrightarrow> Q1 x st1 \<Longrightarrow> wp B st1 q (\<lambda>y st2. Q (x, y) st2)"
  shows "wp B st (p_pair p q) Q"
  unfolding p_pair_def using assms by (blast intro: wp_then wp_map)

lemma wp_location: "Q (offset st) st \<Longrightarrow> wp B st location Q"
  by (simp add: wp_def location_def)

lemma wp_then_location: "wp B st (f (offset st)) Q \<Longrightarrow> wp B st (p_then location f) Q"
  by (simp add: wp_def p_then_def location_def)

lemma wp_report:
  assumes "B \<Longrightarrow> in_input (offset st + length (unread st)) e"
    and "\<And>st'. told st st' \<Longrightarrow> unread st' = unread st \<Longrightarrow> offset st' = offset st \<Longrightarrow> Q () st'"
  shows "wp B st (report_error e) Q"
proof -
  let ?st = "st\<lparr>reported := reported st @ [e]\<rparr>"
  have "good B st ?st" using assms(1) by (auto simp: good_def intro!: exI [of _ 0])
  moreover have "Q () ?st" by (rule assms(2)) (simp_all add: told_def)
  ultimately show ?thesis by (simp add: wp_def report_error_def)
qed

lemma wp_literal:
  assumes "\<And>st'. good B st st' \<Longrightarrow> offset st' = offset st + length s \<Longrightarrow>
             length (unread st) = length s + length (unread st') \<Longrightarrow> Q s st'"
  shows "wp B st (p_literal s) Q"
proof (cases "prefix s (unread st)")
  case True
  then have "length s \<le> length (unread st)" by (rule prefix_length_le)
  then have "good B st (advance (length s) st)" "Q s (advance (length s) st)"
    by (auto intro!: assms good_advance)
  with True show ?thesis by (simp add: wp_def p_literal_def)
qed (simp add: wp_def p_literal_def)

lemma wp_take_till:
  assumes "\<And>s st'. good B st st' \<Longrightarrow> m \<le> length s \<Longrightarrow> offset st' = offset st + length s \<Longrightarrow>
             length (unread st) = length s + length (unread st') \<Longrightarrow> Q s st'"
  shows "wp B st (take_till m P) Q"
proof -
  let ?s = "takeWhile (\<lambda>c. \<not> P c) (unread st)"
  have le: "length ?s \<le> length (unread st)" by (rule length_takeWhile_le)
  then have "good B st (advance (length ?s) st)" by (rule good_advance)
  moreover from this le have "m \<le> length ?s \<Longrightarrow> Q ?s (advance (length ?s) st)" by (intro assms) simp_all
  ultimately show ?thesis by (simp add: wp_def take_till_def Let_def)
qed

lemma wp_take_till_length: "wp B st (take_till m P) (\<lambda>s st'. offset st' = offset st + length s)"
  by (rule wp_take_till)

lemma wp_take_while_upto:
  assumes "\<And>s st'. good B st st' \<Longrightarrow> m \<le> length s \<Longrightarrow> Q s st'"
  shows "wp B st (take_while_upto m n P) Q"
proof -
  let ?s = "take n (takeWhile P (unread st))"
  have "length ?s \<le> length (unread st)"
    by (metis length_take length_takeWhile_le min.cobounded1 order_trans)
  then have "good B st (advance (length ?s) st)" by (rule good_advance)
  moreover from this have "m \<le> length ?s \<Longrightarrow> Q ?s (advance (length ?s) st)" by (intro assms)
  ultimately show ?thesis
    unfolding wp_def take_while_upto_def Let_def by (simp add: not_less del: length_take)
qed

lemma wp_eof: "Q () st \<Longrightarrow> wp B st p_eof Q"
  by (simp add: wp_def p_eof_def)

lemma wp_verify: "wp B st p Q \<Longrightarrow> wp B st (p_verify P p) Q"
  by (auto simp: wp_def p_verify_def split: prod.splits reply.splits intro: good_reset)

lemma wp_verify_map: "wp B st p (\<lambda>_ _. True) \<Longrightarrow> wp B st (p_verify_map f p) (\<lambda>_ _. True)"
  by (auto simp: wp_def p_verify_map_def split: prod.splits reply.splits option.splits intro: good_reset)

lemma wp_alt_Nil: "wp B st (p_alt []) Q"
  by (simp add: wp_def)

lemma wp_alt_Cons:
  assumes "wp B st p Q"
    and "\<And>st'. good B st st' \<Longrightarrow> unread st' = unread st \<Longrightarrow> offset st' = offset st \<Longrightarrow> wp B st' (p_alt ps) Q"
  shows "wp B st (p_alt (p # ps)) Q"
proof (cases ps)
  case Nil
  with assms(1) show ?thesis by (simp add: wp_def)
next
  case (Cons q qs)
  show ?thesis
  proof (cases "p st")
    case (Pair r st1)
    with assms(1) have "r = Backtrack \<Longrightarrow> good B st st1" by (simp add: wp_def)
    then show ?thesis
      using assms(1) Pair Cons assms(2) [of "reset_to st st1"]
      by (auto simp: wp_def good_reset split: reply.splits prod.splits intro: good_trans [OF good_reset])
  qed
qed

text \<open>A parser that does not tell anything when it fails and ignores where it stands.\<close>

lemma wp_peek: "wp B st p (\<lambda>x st'. Q x (reset_to st st')) \<Longrightarrow> wp B st (p_peek p) Q"
  by (auto simp: wp_def p_peek_def split: prod.splits reply.splits intro: good_reset)

lemma wp_not:
  assumes "wp B st p (\<lambda>_ _. True)" "\<And>st'. good B st st' \<Longrightarrow> Q () (reset_to st st')"
  shows "wp B st (p_not p) Q"
  using assms by (auto simp: wp_def p_not_def split: prod.splits reply.splits intro: good_reset)

text \<open>The invariant of a loop may not depend on what is put back when the body fails.\<close>

lemma wp_repeat:
  assumes body: "\<And>acc st. I acc st \<Longrightarrow>
      wp B st p (\<lambda>x st'. length (unread st') < length (unread st) \<and> I (f acc x) st')"
    and stable: "\<And>acc st st'. I acc st \<Longrightarrow> good B st st' \<Longrightarrow> I acc (reset_to st st')"
  shows "I acc st \<Longrightarrow> wp B st (p_repeat p f acc) I"
proof (induction "length (unread st)" arbitrary: acc st rule: less_induct)
  case less
  obtain r st1 where p: "p st = (r, st1)" by (cases "p st")
  with body [OF less.prems] have b: "case r of Done x \<Rightarrow> good B st st1 \<and>
      length (unread st1) < length (unread st) \<and> I (f acc x) st1 | Backtrack \<Rightarrow> good B st st1 | Stuck \<Rightarrow> False"
    by (simp add: wp_def split: reply.splits)
  show ?case
  proof (cases r)
    case (Done x)
    with b have "wp B st1 (p_repeat p f (f acc x)) I" by (intro less.hyps) simp_all
    with Done b p show ?thesis
      by (auto simp: wp_def p_repeat.simps [of p f acc st] split: prod.splits reply.splits intro: good_trans)
  next
    case Backtrack
    with b p less.prems show ?thesis
      by (simp add: wp_def p_repeat.simps [of p f acc st] good_reset stable)
  next
    case Stuck
    with b show ?thesis by simp
  qed
qed

lemma wp_good: "wp B st p Q \<Longrightarrow> wp B st p (\<lambda>x st'. good B st st' \<and> Q x st')"
  by (rule wp_conseq) auto

lemmas wp_intros = wp_return wp_map wp_value wp_location wp_alt_Nil wp_alt_Cons wp_peek wp_eof
  wp_verify wp_preceded wp_terminated wp_pair


section \<open>Expectations and strings\<close>

definition limit_ok :: "span_length \<Rightarrow> bool" where
  "limit_ok limit = (case limit of Offset off _ \<Rightarrow> off \<le> 0 | _ \<Rightarrow> True)"

text \<open>Constructors of errors that carry the span and nothing else that points into the input.\<close>

definition plain_error :: "(source_span \<Rightarrow> parse_single_error) \<Rightarrow> bool" where
  "plain_error make_err \<longleftrightarrow> (\<forall>sp. error_spans (make_err sp) = [sp])"

lemma plain_errors [simp]:
  "plain_error InvalidString" "plain_error ExpectedOpenParenthesis" "plain_error ExpectedCloseParenthesis"
  "plain_error InvalidEscapeCharacter" "plain_error ExpectedExpr" "plain_error ExpectedEndOfExpression"
  by (simp_all add: plain_error_def)

lemma error_span_bound:
  "limit_ok limit \<Longrightarrow> error_span limit st = (a, n) \<Longrightarrow> a + n \<le> offset st + length (unread st)"
  by (auto simp: error_span_def limit_ok_def Let_def split: span_length.splits)

lemma error_span_in_input:
  assumes "plain_error make_err" "limit_ok limit"
  shows "in_input (offset st + length (unread st)) (make_err (error_span limit st))"
proof -
  obtain a n where "error_span limit st = (a, n)" by (cases "error_span limit st")
  with assms error_span_bound [OF assms(2) this] show ?thesis by (simp add: in_input_def plain_error_def)
qed

lemma wp_expect_inner:
  assumes p: "wp B st p (\<lambda>x. Q (Some x))" and err: "plain_error make_err" "limit_ok limit"
    and none: "\<And>st'. good B st st' \<Longrightarrow> told st st' \<Longrightarrow> Q None st'"
  shows "wp B st (expect_inner p make_err limit) Q"
proof -
  obtain r st1 where r: "p st = (r, st1)" by (cases "p st")
  show ?thesis
  proof (cases r)
    case Backtrack
    with p r have g: "good B st st1" by (simp add: wp_def)
    have "wp B st1 (p_value None (report_error (make_err (error_span limit st1)))) (\<lambda>_. told st1)"
      by (auto intro!: wp_value wp_report error_span_in_input err)
    then show ?thesis
      using g none Backtrack r
      by (auto simp: wp_def expect_inner_def split: prod.splits reply.splits intro: good_trans told_trans
          simp: p_value_def p_map_def p_then_def p_return_def report_error_def)
  qed (use p r in \<open>simp_all add: wp_def expect_inner_def\<close>)
qed

lemma wp_expect:
  assumes "wp B st p (\<lambda>x. Q (Some x))" "plain_error make_err"
    and "\<And>st'. good B st st' \<Longrightarrow> told st st' \<Longrightarrow> Q None st'"
  shows "wp B st (expect p make_err) Q"
  unfolding expect_def using assms by (intro wp_expect_inner) (auto simp: limit_ok_def)

lemma wp_silent_expect:
  assumes "wp B st p (\<lambda>x. Q (Some x))" "\<And>st'. good B st st' \<Longrightarrow> Q None st'"
  shows "wp B st (silent_expect p) Q"
  using assms by (auto simp: wp_def silent_expect_def split: prod.splits reply.splits)

lemma wp_skip_space: "wp B st skip_space (\<lambda>_ _. True)"
  unfolding skip_space_def line_ending_def
  by (rule wp_repeat) (auto intro!: wp_intros wp_literal)

lemma wp_ws:
  assumes "\<And>st1. good B st st1 \<Longrightarrow> wp B st1 p Q"
  shows "wp B st (ws p) Q"
proof -
  obtain r st1 where s: "skip_space st = (r, st1)" by (cases "skip_space st")
  with wp_skip_space [of B st] have r: "r \<noteq> Stuck" and g: "good B st st1"
    by (auto simp: wp_def split: reply.splits)
  from assms [OF g] s r g show ?thesis
    by (auto simp: wp_def ws_def p_then_def split: prod.splits reply.splits
        intro: good_trans good_reset [OF good_trans])
qed

lemma wp_ws_literal:
  assumes "\<And>st'. good B st st' \<Longrightarrow> length (unread st') + length s \<le> length (unread st) \<Longrightarrow> Q s st'"
  shows "wp B st (ws (p_literal s)) Q"
proof (rule wp_ws)
  fix st1
  assume g: "good B st st1"
  show "wp B st1 (p_literal s) Q"
  proof (rule wp_literal)
    fix st'
    assume "good B st1 st'" "length (unread st1) = length s + length (unread st')"
    with good_facts(3) [OF g] g show "Q s st'" by (intro assms) (auto intro: good_trans)
  qed
qed

lemma wp_expect_char:
  assumes "plain_error make_err" "\<And>r st'. good B st st' \<Longrightarrow> Q r st'"
  shows "wp B st (expect_char c make_err) Q"
  unfolding expect_char_def using assms by (intro wp_expect_inner wp_ws_literal) (auto simp: limit_ok_def)

lemma wp_one_of_True: "wp B st (p_peek (p_not (one_of P))) (\<lambda>_ st'. unread st' = unread st \<and> offset st' = offset st)"
proof -
  obtain r st1 where p: "p_peek (p_not (one_of P)) st = (r, st1)" by (cases "p_peek (p_not (one_of P)) st")
  then have "r \<noteq> Stuck" "unread st1 = unread st" "offset st1 = offset st" "reported st1 = reported st"
    by (auto simp: p_peek_def p_not_def one_of_def split: list.splits if_splits prod.splits reply.splits)
  moreover from this have "good B st st1" by (auto simp: good_def intro!: exI [of _ 0])
  ultimately show ?thesis using p by (simp add: wp_def split: reply.splits)
qed

lemma wp_keyword:
  assumes "\<And>st'. good B st st' \<Longrightarrow> length (unread st) = length s + length (unread st') \<Longrightarrow>
      offset st' = offset st + length s \<Longrightarrow> Q s st'"
  shows "wp B st (terminated (p_literal s) (word_boundary sx)) Q"
proof (rule wp_terminated)
  show "wp B st (p_literal s) (\<lambda>x st1. x = s \<and> offset st1 = offset st + length s \<and>
      length (unread st) = length s + length (unread st1))"
    by (rule wp_literal) simp
next
  fix x st1
  assume g: "good B st st1" and x: "x = s \<and> offset st1 = offset st + length s \<and>
      length (unread st) = length s + length (unread st1)"
  show "wp B st1 (word_boundary sx) (\<lambda>_. Q x)"
    unfolding word_boundary_def
  proof (rule wp_conseq [OF wp_one_of_True])
    fix y :: unit and st'
    assume "good B st1 st'" "unread st' = unread st1 \<and> offset st' = offset st1"
    with g x have "Q s st'" by (intro assms) (auto intro: good_trans)
    with x show "Q x st'" by simp
  qed
qed

lemma wp_parse_unicode: "wp B st parse_unicode (\<lambda>_ _. True)"
  unfolding parse_unicode_def delimited_def
  by (intro wp_verify_map wp_map wp_preceded wp_terminated wp_literal wp_take_while_upto) simp_all

lemma wp_valid_escape: "wp B st valid_escape (\<lambda>_ _. True)"
  unfolding valid_escape_def
  by (intro wp_alt_Cons wp_alt_Nil wp_parse_unicode wp_value wp_literal) simp_all

lemma wp_parse_escaped_char:
  "wp B st parse_escaped_char (\<lambda>r st'. length (unread st') < length (unread st) \<and> answers st (\<lambda>_. True) r st')"
  unfolding parse_escaped_char_def
proof (rule wp_preceded)
  show "wp B st (p_literal [backslash]) (\<lambda>_ st1. length (unread st1) < length (unread st))"
    by (rule wp_literal) simp
next
  fix x st1
  assume g: "good B st st1" and lt: "length (unread st1) < length (unread st)"
  show "wp B st1 (expect_n valid_escape InvalidEscapeCharacter (Offset (-1) 2))
      (\<lambda>r st'. length (unread st') < length (unread st) \<and> answers st (\<lambda>_. True) r st')"
    unfolding expect_n_def
  proof (rule wp_expect_inner)
    show "wp B st1 valid_escape
      (\<lambda>x st'. length (unread st') < length (unread st) \<and> answers st (\<lambda>_. True) (Some x) st')"
      by (rule wp_conseq [OF wp_valid_escape]) (use lt good_facts(3) in fastforce)
  next
    fix st'
    assume "good B st1 st'" "told st1 st'"
    with g lt show "length (unread st') < length (unread st) \<and> answers st (\<lambda>_. True) None st'"
      using good_facts(3) [of B st1 st'] by (auto simp: answers_def intro: told_trans)
  qed (simp_all add: limit_ok_def)
qed

lemma wp_parse_fragment:
  "wp B st parse_fragment (\<lambda>r st'. length (unread st') < length (unread st) \<and> answers st (\<lambda>_. True) r st')"
  unfolding parse_fragment_def parse_literal_def
proof (intro wp_alt_Cons wp_alt_Nil wp_map wp_verify wp_take_till)
  fix st1
  assume g: "good B st st1" and same: "unread st1 = unread st"
  show "wp B st1 parse_escaped_char (\<lambda>x st'. length (unread st') < length (unread st) \<and>
      answers st (\<lambda>_. True) (map_option EscapedChar x) st')"
    by (rule wp_conseq [OF wp_parse_escaped_char])
      (use g same in \<open>auto simp: answers_def intro: told_trans\<close>)
qed auto

lemma wp_parse_string: "wp B st parse_string (answers st (\<lambda>_. True))"
proof -
  let ?I = "\<lambda>(acc :: string option) s. good B st s \<and> answers st (\<lambda>_. True) acc s"
  have "wp B st parse_string ?I"
    unfolding parse_string_def
  proof (rule wp_repeat)
    fix acc s
    assume I: "?I acc s"
    show "wp B s parse_fragment (\<lambda>x s'. length (unread s') < length (unread s) \<and> ?I (push_fragment acc x) s')"
    proof (rule wp_conseq [OF wp_parse_fragment])
      fix x :: "string_fragment option" and s'
      assume g: "good B s s'" and x: "length (unread s') < length (unread s) \<and> answers s (\<lambda>_. True) x s'"
      have "answers st (\<lambda>_. True) (push_fragment acc x) s'"
      proof (cases "told st s \<or> told s s'")
        case True
        then have "told st s'" using g I told_trans by blast
        then show ?thesis by (simp add: answers_def)
      next
        case False
        then obtain t y where "acc = Some t" "x = Some y" using I x by (auto simp: answers_def)
        then show ?thesis by (cases y) simp_all
      qed
      then show "length (unread s') < length (unread s) \<and> ?I (push_fragment acc x) s'"
        using g I x good_trans by blast
    qed
  next
    fix acc s s'
    assume "?I acc s" "good B s s'"
    then show "?I acc (reset_to s s')"
      by (auto simp: answers_def intro: good_trans good_reset told_trans(2))
  qed simp
  then show ?thesis by (rule wp_conseq) simp
qed


section \<open>Matchers and sets\<close>

lemma answers_earlier: "good B st0 st \<Longrightarrow> answers st P r st' \<Longrightarrow> answers st0 P r st'"
  by (auto simp: answers_def intro: told_trans)

lemma answers_later: "answers st P r st1 \<Longrightarrow> good B st1 st2 \<Longrightarrow> answers st P r st2"
  by (auto simp: answers_def intro: told_trans)

lemma answers_map:
  "answers st P r st' \<Longrightarrow> (\<And>x. P x \<Longrightarrow> P' (f x)) \<Longrightarrow> answers st P' (map_option f r) st'"
  by (auto simp: answers_def)

lemma answers_told: "told st st' \<Longrightarrow> answers st P r st'"
  by (simp add: answers_def)

lemma wp_earlier: "good B st0 st \<Longrightarrow> wp B st p (answers st P) \<Longrightarrow> wp B st p (answers st0 P)"
  by (erule wp_conseq) (rule answers_earlier)

lemma wp_answers_map:
  "wp B st p (answers st P) \<Longrightarrow> (\<And>x. P x \<Longrightarrow> P' (f x)) \<Longrightarrow> wp B st (p_map (map_option f) p) (answers st P')"
  by (intro wp_map) (erule wp_conseq, erule answers_map)

lemma wp_ws_answers:
  assumes "\<And>st1. wp B st1 p (answers st1 P)"
  shows "wp B st (ws p) (answers st P)"
  by (rule wp_ws) (rule wp_earlier, assumption, rule assms)

lemma wp_alt_answers:
  assumes "\<And>p st'. p \<in> set ps \<Longrightarrow> wp B st' p (answers st' P)"
  shows "wp B st (p_alt ps) (answers st P)"
  using assms
proof (induction ps arbitrary: st)
  case (Cons p ps)
  have "wp B st' (p_alt ps) (answers st' P)" for st' by (rule Cons.IH, rule Cons.prems) simp
  moreover have "wp B st p (answers st P)" by (rule Cons.prems) simp
  ultimately show ?case by (intro wp_alt_Cons) (auto intro: wp_earlier)
qed (rule wp_alt_Nil)

lemma wp_preceded_answers:
  assumes "\<And>st1. wp B st1 p (answers st1 P)"
  shows "wp B st (preceded (p_literal s) p) (answers st P)"
  by (rule wp_preceded [OF wp_literal [where Q = "\<lambda>_ _. True"]]) (auto intro: wp_earlier assms)

lemma wp_parse_matcher_text: "wp B st parse_matcher_text (answers st (\<lambda>s. s \<noteq> []))"
  unfolding parse_matcher_text_def Let_def
proof (rule wp_then)
  let ?Q = "\<lambda>(r :: string option option). answers st (\<lambda>_ :: string. True) (Option.bind r (\<lambda>x. x))"
  show "wp B st (expect parse_string InvalidString) ?Q"
    by (rule wp_expect, rule wp_conseq [OF wp_parse_string]) (auto intro: answers_told)
next
  fix r and st1
  assume g: "good B st st1" and "answers st (\<lambda>_ :: string. True) (Option.bind r (\<lambda>x. x)) st1"
  then have a: "answers st (\<lambda>s. s \<noteq> []) (Option.bind r (\<lambda>x. x)) st1" if "Option.bind r (\<lambda>x. x) \<noteq> Some []"
    using that by (auto simp: answers_def)
  show "wp B st1 (if Option.bind r (\<lambda>x. x) = Some [] then
        p_then location (\<lambda>start. p_then (report_error (InvalidString (start, 0)))
          (\<lambda>_. p_return (Option.bind r (\<lambda>x. x))))
      else p_return (Option.bind r (\<lambda>x. x))) (answers st (\<lambda>s. s \<noteq> []))"
  proof (cases "Option.bind r (\<lambda>x. x) = Some []")
    case True
    then show ?thesis
      by (auto intro!: wp_then_location wp_then [OF wp_report [where Q = "\<lambda>_. told st1"]] wp_return
          answers_told simp: in_input_def intro: told_trans(1) [OF g])
  next
    case False
    with a show ?thesis by (simp add: wp_return)
  qed
qed

text \<open>
  The matchers a set definition accepts, given its default kind: an implicit matcher has the
  default kind, no text is empty, and globs and regular expressions come from their libraries.
\<close>

fun matcher_from :: "syntax_libs \<Rightarrow> default_matcher \<Rightarrow> name_matcher \<Rightarrow> bool" where
  "matcher_from sx d (Equal value implicit) \<longleftrightarrow> value \<noteq> [] \<and> (implicit \<longrightarrow> d = DefaultEqual)"
| "matcher_from sx d (Contains value implicit) \<longleftrightarrow> value \<noteq> [] \<and> (implicit \<longrightarrow> d = DefaultContains)"
| "matcher_from sx d (Glob glob implicit) \<longleftrightarrow>
     glob_str glob \<noteq> [] \<and> (implicit \<longrightarrow> d = DefaultGlob) \<and> generic_glob_new sx (glob_str glob) = Inr glob"
| "matcher_from sx d (Regex r) \<longleftrightarrow> sx_regex_new sx r"

lemma generic_glob_new_str: "generic_glob_new sx s = Inr g \<Longrightarrow> glob_str g = s"
  by (auto simp: generic_glob_new_def split: sum.splits option.splits)

lemma wp_parse_glob:
  assumes "implicit \<longrightarrow> d = DefaultGlob"
  shows "wp B st (parse_glob sx implicit) (answers st (matcher_from sx d))"
  unfolding parse_glob_def
proof (rule wp_then_location, rule wp_then [OF wp_parse_matcher_text])
  fix res :: "string option" and st1
  assume g: "good B st st1" and a: "answers st (\<lambda>s. s \<noteq> []) res st1"
  show "wp B st1 (case res of
       None \<Rightarrow> p_return None
     | Some parsed_value \<Rightarrow> (case generic_glob_new sx parsed_value of
           Inr glob \<Rightarrow> p_return (Some (Glob glob implicit))
         | Inl error \<Rightarrow> p_then location (\<lambda>fin.
             p_value None (report_error (InvalidGlob (offset st, fin - offset st) error)))))
     (answers st (matcher_from sx d))"
  proof (cases res)
    case None
    with a show ?thesis by (auto simp: answers_def intro: wp_return)
  next
    case (Some v)
    show ?thesis
    proof (cases "generic_glob_new sx v")
      case (Inl error)
      have "in_input (offset st1 + length (unread st1)) (InvalidGlob (offset st, offset st1 - offset st) error)"
        using good_facts(4) [OF g] by (simp add: in_input_def)
      with Some Inl show ?thesis
        by (auto intro!: wp_then_location wp_value wp_report answers_told intro: told_trans(1) [OF g])
    next
      case (Inr glob)
      with Some a assms generic_glob_new_str [OF Inr] show ?thesis
        by (auto simp: answers_def intro!: wp_return)
    qed
  qed
qed

lemma wp_parse_regex_inner:
  "wp B st parse_regex_inner (\<lambda>res st'. length res + offset st \<le> offset st')"
proof -
  let ?I = "\<lambda>(acc :: string) (s :: span). length acc + offset st \<le> offset s"
  have frag: "wp B s parse_regex_frag (\<lambda>x s'. length (unread s') < length (unread s) \<and>
      (\<forall>acc. length (push_frag acc x) + offset s \<le> length acc + offset s'))" for s
    unfolding parse_regex_frag_def
    by (intro wp_alt_Cons wp_alt_Nil wp_map wp_value wp_verify wp_literal wp_take_till) auto
  have "wp B st (p_repeat parse_regex_frag push_frag []) ?I"
  proof (rule wp_repeat)
    fix acc :: string and s :: span
    assume I: "?I acc s"
    show "wp B s parse_regex_frag (\<lambda>x s'. length (unread s') < length (unread s) \<and> ?I (push_frag acc x) s')"
    proof (rule wp_conseq [OF frag])
      fix x :: regex_frag and s' :: span
      assume *: "length (unread s') < length (unread s) \<and>
        (\<forall>acc. length (push_frag acc x) + offset s \<le> length acc + offset s')"
      then have "length (push_frag acc x) + offset s \<le> length acc + offset s'" by blast
      with I have "?I (push_frag acc x) s'" by linarith
      with * show "length (unread s') < length (unread s) \<and> ?I (push_frag acc x) s'" by blast
    qed
  qed simp_all
  then show ?thesis
    unfolding parse_regex_inner_def
    by (rule wp_then)
      (auto intro!: wp_then [OF wp_peek [OF wp_literal [where Q = "\<lambda>_ _. True"]]] wp_return
        dest: good_facts(4))
qed

lemma invalid_regex_in_input:
  assumes "syntax_spans_ok sx" "start + length s \<le> fin" "fin \<le> n"
  shows "in_input n (invalid_regex sx s start fin)"
proof (cases "sx_regex_syntax sx s")
  case (SyntaxError message a b)
  with assms(1) have "a \<le> b" "b \<le> length s" by (auto simp: syntax_spans_ok_def)
  with SyntaxError assms show ?thesis by (simp add: invalid_regex_def in_input_def Let_def)
qed (use assms in \<open>simp_all add: invalid_regex_def in_input_def\<close>)

lemma wp_parse_regex:
  assumes "B \<Longrightarrow> syntax_spans_ok sx"
  shows "wp B st (parse_regex sx) (answers st (matcher_from sx d))"
proof -
  obtain r st1 where inner: "parse_regex_inner st = (r, st1)" by (cases "parse_regex_inner st")
  with wp_parse_regex_inner [of B st] have w: "case r of
      Done res \<Rightarrow> good B st st1 \<and> length res + offset st \<le> offset st1 | Backtrack \<Rightarrow> good B st st1 | Stuck \<Rightarrow> False"
    by (simp add: wp_def split: reply.splits)
  show ?thesis
  proof (cases r)
    case (Done res)
    have "wp B st1 (if sx_regex_new sx res then p_return (Some (Regex res))
        else p_value None (report_error (invalid_regex sx res (offset st) (offset st1))))
        (answers st (matcher_from sx d))"
    proof (cases "sx_regex_new sx res")
      case True
      then show ?thesis by (simp add: wp_return)
    next
      case False
      then show ?thesis
        using w Done assms good_facts(1) [of B st st1]
        by (auto intro!: wp_value wp_report invalid_regex_in_input answers_told intro: told_trans(1))
    qed
    moreover have "parse_regex sx st = (if sx_regex_new sx res then p_return (Some (Regex res))
        else p_value None (report_error (invalid_regex sx res (offset st) (offset st1)))) st1"
      using Done inner by (simp add: parse_regex_def p_return_def)
    moreover have "good B st st1" using w Done by simp
    ultimately show ?thesis using wp_continue by blast
  next
    case Backtrack
    then have g: "good B st (reset_to st st1)" using w by (simp add: good_reset)
    have "wp B (reset_to st st1) (p_then (take_till 0 is_close_paren) (\<lambda>_. p_then location (\<lambda>start.
        p_value None (report_error (ExpectedCloseRegex (start, 0)))))) (answers st (matcher_from sx d))"
      by (rule wp_then [OF wp_take_till [where Q = "\<lambda>_ _. True"]])
        (auto simp: in_input_def intro!: wp_then_location wp_value wp_report answers_told
          intro: told_trans(1) good_trans [OF g])
    moreover have "parse_regex sx st = p_then (take_till 0 is_close_paren) (\<lambda>_. p_then location (\<lambda>start.
        p_value None (report_error (ExpectedCloseRegex (start, 0))))) (reset_to st st1)"
      using Backtrack inner by (simp add: parse_regex_def)
    ultimately show ?thesis by (rule wp_continue [OF g])
  next
    case Stuck
    with w show ?thesis by simp
  qed
qed

lemma wp_parse_regex_matcher:
  assumes "B \<Longrightarrow> syntax_spans_ok sx"
  shows "wp B st (parse_regex_matcher sx) (answers st (matcher_from sx d))"
  unfolding parse_regex_matcher_def delimited_def
proof (rule wp_ws_answers, rule wp_preceded_answers)
  fix st1
  show "wp B st1 (terminated (parse_regex sx) (silent_expect (ws (p_literal ''/''))))
      (answers st1 (matcher_from sx d))"
    by (rule wp_terminated [OF wp_parse_regex [OF assms]], assumption, rule wp_silent_expect)
      (auto intro!: wp_ws_literal intro: answers_later)
qed

lemma wp_default_matcher: "wp B st (default_matcher_parser sx d) (answers st (matcher_from sx d))"
  by (cases d) (auto simp: implicit_equal_def implicit_contains_def
      intro: wp_answers_map [OF wp_parse_matcher_text] wp_parse_glob)

lemma wp_set_matcher:
  assumes "B \<Longrightarrow> syntax_spans_ok sx"
  shows "wp B st (set_matcher sx d) (answers st (matcher_from sx d))"
  unfolding set_matcher_def parse_glob_matcher_def parse_equal_matcher_def parse_contains_matcher_def
  by (intro wp_ws_answers wp_alt_answers)
    (auto intro: wp_parse_regex_matcher assms wp_default_matcher
      intro!: wp_ws_answers wp_preceded_answers wp_parse_glob
      wp_answers_map [OF wp_preceded_answers [OF wp_parse_matcher_text]])

text \<open>What a set definition stands for, in an input of \<open>n\<close> bytes.\<close>

fun leaf_from :: "syntax_libs \<Rightarrow> nat \<Rightarrow> parsed_leaf \<Rightarrow> bool" where
  "leaf_from sx n (PPackage m (a, len)) \<longleftrightarrow> matcher_from sx DefaultGlob m \<and> a + len \<le> n"
| "leaf_from sx n (PDeps m (a, len)) \<longleftrightarrow> matcher_from sx DefaultGlob m \<and> a + len \<le> n"
| "leaf_from sx n (PRdeps m (a, len)) \<longleftrightarrow> matcher_from sx DefaultGlob m \<and> a + len \<le> n"
| "leaf_from sx n (PKind m (a, len)) \<longleftrightarrow> matcher_from sx DefaultEqual m \<and> a + len \<le> n"
| "leaf_from sx n (PBinary m (a, len)) \<longleftrightarrow> matcher_from sx DefaultGlob m \<and> a + len \<le> n"
| "leaf_from sx n (PBinaryId m (a, len)) \<longleftrightarrow> matcher_from sx DefaultGlob m \<and> a + len \<le> n"
| "leaf_from sx n (PPlatform _ (a, len)) \<longleftrightarrow> a + len \<le> n"
| "leaf_from sx n (PTest m (a, len)) \<longleftrightarrow> matcher_from sx DefaultContains m \<and> a + len \<le> n"
| "leaf_from sx n (PGroup m (a, len)) \<longleftrightarrow> matcher_from sx DefaultGlob m \<and> a + len \<le> n"
| "leaf_from sx n (PDefault (a, len)) \<longleftrightarrow> a + len \<le> n"
| "leaf_from sx n PAll \<longleftrightarrow> True"
| "leaf_from sx n PNone \<longleftrightarrow> True"

abbreviation input_length :: "span \<Rightarrow> nat" where
  "input_length st \<equiv> offset st + length (unread st)"

lemma wp_recover_unexpected_comma: "wp B st recover_unexpected_comma (\<lambda>_ _. True)"
proof -
  let ?p = "p_peek (ws (p_literal '',''))"
  obtain r st1 where p: "?p st = (r, st1)" by (cases "?p st")
  have "wp B st ?p (\<lambda>_ _. True)" by (auto intro!: wp_peek wp_ws_literal)
  with p have g: "good B st st1" by (auto simp: wp_def split: reply.splits)
  have w: "wp B st1 (p_then location (\<lambda>pos. p_then (report_error (UnexpectedComma (pos, 0)))
      (\<lambda>_. p_value () (take_till 0 is_close_paren)))) (\<lambda>_ _. True)"
    by (auto simp: in_input_def intro!: wp_then_location wp_value wp_take_till
        wp_then [OF wp_report [where Q = "\<lambda>_ _. True"]])
  show ?thesis
  proof (cases r)
    case (Done x)
    with p have "recover_unexpected_comma st = p_then location (\<lambda>pos. p_then (report_error (UnexpectedComma (pos, 0)))
      (\<lambda>_. p_value () (take_till 0 is_close_paren))) st1"
      unfolding recover_unexpected_comma_def by simp
    then show ?thesis using wp_continue [OF g w] by blast
  next
    case Backtrack
    with p good_reset [OF g] show ?thesis unfolding wp_def recover_unexpected_comma_def by simp
  next
    case Stuck
    with p good_reset [OF g] show ?thesis unfolding wp_def recover_unexpected_comma_def by simp
  qed
qed

lemma wp_nullary_set_def:
  assumes "\<And>a len. a + len \<le> input_length st \<Longrightarrow> leaf_from sx (input_length st) (make_set (a, len))"
  shows "wp B st (nullary_set_def name make_set) (answers st (leaf_from sx (input_length st)))"
  unfolding nullary_set_def_def
proof (rule wp_then_location, rule wp_then [OF wp_literal [where Q = "\<lambda>_ _. True"]], simp,
    rule wp_then [OF wp_expect_char [where Q = "\<lambda>_ _. True"]], simp, simp, rule wp_then_location,
    rule wp_then [OF wp_take_till_length])
  fix n1 st1 n2 st2 and res :: string and st3
  assume g: "good B st st1" "good B st1 st2" "good B st2 st3"
    and res: "offset st3 = offset st2 + length res"
  have "wp B st3 (if str_trim res \<noteq> [] then report_error (UnexpectedArgument (offset st2, length res))
      else p_return ()) (\<lambda>_ _. True)"
    using res by (auto simp: in_input_def intro!: wp_report wp_return)
  then show "wp B st3 (p_then (if str_trim res \<noteq> [] then report_error (UnexpectedArgument (offset st2, length res))
      else p_return ()) (\<lambda>_. p_then (expect_char '')'' ExpectedCloseParenthesis)
      (\<lambda>_. p_then location (\<lambda>fin. p_return (Some (make_set (offset st, fin - offset st)))))))
      (answers st (leaf_from sx (input_length st)))"
  proof (rule wp_then, intro wp_then [OF wp_expect_char [where Q = "\<lambda>_ _. True"]] wp_then_location wp_return)
    fix u st4 v st5
    assume "good B st3 st4" "good B st4 st5"
    with g have "good B st st5" by (blast intro: good_trans)
    from good_facts [OF this] show "answers st (leaf_from sx (input_length st))
        (Some (make_set (offset st, offset st5 - offset st))) st5"
      by (intro answers_Some assms) linarith
  qed simp_all
qed

lemma good_input_length: "good B st st' \<Longrightarrow> input_length st' = input_length st"
  by (rule good_facts(1))

text \<open>The end of a set definition with an argument: a comma is reported, the parenthesis expected.\<close>

lemma wp_set_end:
  assumes "answers st P r st1"
  shows "wp B st1 (p_then recover_unexpected_comma (\<lambda>_. expect_char '')'' ExpectedCloseParenthesis))
           (\<lambda>_. answers st P r)"
  by (rule wp_then [OF wp_recover_unexpected_comma], rule wp_expect_char)
    (auto intro: answers_later [OF assms] good_trans)

lemma p_then_assoc: "p_then (p_then p f) g = p_then p (\<lambda>x. p_then (f x) g)"
  by (auto simp: p_then_def fun_eq_iff split: prod.splits reply.splits)

lemma wp_unary_set_def:
  assumes sx: "B \<Longrightarrow> syntax_spans_ok sx"
    and make: "\<And>m a len. matcher_from sx d m \<Longrightarrow> a + len \<le> input_length st \<Longrightarrow>
                 leaf_from sx (input_length st) (make_set m (a, len))"
  shows "wp B st (unary_set_def sx name d make_set) (answers st (leaf_from sx (input_length st)))"
  unfolding unary_set_def_def
proof (rule wp_then [OF wp_literal [where Q = "\<lambda>_ _. True"]], simp,
    rule wp_then [OF wp_expect_char [where Q = "\<lambda>_ _. True"]], simp, simp, rule wp_then_location,
    rule wp_then [OF wp_set_matcher [OF sx]], assumption, rule wp_then_location)
  fix n1 st1 n2 st2 res st3
  assume g: "good B st st1" "good B st1 st2" "good B st2 st3" and res: "answers st2 (matcher_from sx d) res st3"
  then have g2: "good B st st2" "good B st st3" by (blast intro: good_trans)+
  have "answers st (leaf_from sx (input_length st))
      (map_option (\<lambda>m. make_set m (offset st2, offset st3 - offset st2)) res) st3"
    using good_facts(4) [OF g(3)] good_facts(1) [OF g2(2)]
    by (intro answers_map [OF answers_earlier [OF g2(1) res]] make) simp_all
  then have "wp B st3 (p_then (p_then recover_unexpected_comma (\<lambda>_. expect_char '')'' ExpectedCloseParenthesis))
      (\<lambda>_. p_return (map_option (\<lambda>m. make_set m (offset st2, offset st3 - offset st2)) res)))
      (answers st (leaf_from sx (input_length st)))"
    by (intro wp_then [OF wp_set_end] wp_return)
  then show "wp B st3 (p_then recover_unexpected_comma (\<lambda>_. p_then (expect_char '')'' ExpectedCloseParenthesis)
      (\<lambda>_. p_return (map_option (\<lambda>m. make_set m (offset st2, offset st3 - offset st2)) res))))
      (answers st (leaf_from sx (input_length st)))"
    by (simp add: p_then_assoc)
qed

lemma wp_platform_def: "wp B st platform_def (answers st (leaf_from sx (input_length st)))"
  unfolding platform_def_def
proof (rule wp_then [OF wp_literal [where Q = "\<lambda>_ _. True"]], simp,
    rule wp_then [OF wp_expect_char [where Q = "\<lambda>_ _. True"]], simp, simp, rule wp_then_location,
    rule wp_then [OF wp_ws_answers [OF wp_parse_matcher_text]], rule wp_then_location)
  fix n1 st1 n2 st2 and res :: "string option" and st3
  assume g: "good B st st1" "good B st1 st2" "good B st2 st3" and res: "answers st2 (\<lambda>s. s \<noteq> []) res st3"
  then have g2: "good B st st2" "good B st st3" by (blast intro: good_trans)+
  let ?span = "(offset st2, offset st3 - offset st2)"
  let ?choose = "case map_option str_trim res of
               None \<Rightarrow> p_return None
             | Some s \<Rightarrow> if s = ''host'' then p_return (Some Host)
                         else if s = ''target'' then p_return (Some Target)
                         else p_value None (report_error (InvalidPlatformArgument ?span))"
  have bound: "offset st2 + (offset st3 - offset st2) \<le> input_length st"
    using good_facts(4) [OF g(3)] good_facts(1) [OF g2(2)] by simp
  have choose: "wp B st4 ?choose (answers st (\<lambda>_. True))" if g4: "good B st st4" and a: "answers st (\<lambda>s. s \<noteq> []) res st4" for st4
  proof (cases res)
    case None
    with a show ?thesis by (simp add: answers_def wp_return)
  next
    case (Some s)
    have "wp B st4 (p_value None (report_error (InvalidPlatformArgument ?span)))
        (answers st (\<lambda>_ :: build_platform. True))"
      using bound good_facts(1) [OF g4]
      by (auto simp: in_input_def intro!: wp_value wp_report answers_told intro: told_trans(1) [OF g4])
    with Some show ?thesis by (simp add: wp_return)
  qed
  have "wp B st3 (p_then (p_then recover_unexpected_comma (\<lambda>_. expect_char '')'' ExpectedCloseParenthesis))
      (\<lambda>_. p_then ?choose (\<lambda>platform. p_return (map_option (\<lambda>p. PPlatform p ?span) platform))))
      (answers st (leaf_from sx (input_length st)))"
  proof (rule wp_then [OF wp_set_end [OF answers_earlier [OF g2(1) res]]])
    fix u st4
    assume "good B st3 st4" "answers st (\<lambda>s. s \<noteq> []) res st4"
    with g2 have "wp B st4 ?choose (answers st (\<lambda>_. True))" by (intro choose) (auto intro: good_trans)
    then show "wp B st4 (p_then ?choose (\<lambda>platform. p_return (map_option (\<lambda>p. PPlatform p ?span) platform)))
      (answers st (leaf_from sx (input_length st)))"
      by (rule wp_then) (use bound in \<open>auto intro!: wp_return elim: answers_map\<close>)
  qed
  then show "wp B st3 (p_then recover_unexpected_comma (\<lambda>_. p_then (expect_char '')'' ExpectedCloseParenthesis)
      (\<lambda>_. p_then ?choose (\<lambda>platform. p_return (map_option (\<lambda>p. PPlatform p ?span) platform)))))
      (answers st (leaf_from sx (input_length st)))"
    by (simp add: p_then_assoc)
qed

text \<open>The same rules where the parsers know how long the input is.\<close>

lemma wp_ws_sized:
  assumes "input_length st = n" "\<And>st1. input_length st1 = n \<Longrightarrow> wp B st1 p (answers st1 P)"
  shows "wp B st (ws p) (answers st P)"
proof (rule wp_ws)
  fix st1
  assume g: "good B st st1"
  show "wp B st1 p (answers st P)"
    by (rule wp_earlier [OF g assms(2)]) (use good_input_length [OF g] assms(1) in simp)
qed

lemma wp_alt_sized:
  assumes "input_length st = n"
    and "\<And>p st'. p \<in> set ps \<Longrightarrow> input_length st' = n \<Longrightarrow> wp B st' p (answers st' P)"
  shows "wp B st (p_alt ps) (answers st P)"
  using assms
proof (induction ps arbitrary: st)
  case (Cons p ps)
  have "wp B st p (answers st P)" by (rule Cons.prems) (use Cons.prems(1) in simp_all)
  moreover have "wp B st' (p_alt ps) (answers st P)" if g: "good B st st'" for st'
    by (rule wp_earlier [OF g], rule Cons.IH) (use Cons.prems good_input_length [OF g] in simp_all)
  ultimately show ?case by (intro wp_alt_Cons) auto
qed (rule wp_alt_Nil)

lemma wp_unary_sized:
  assumes "B \<Longrightarrow> syntax_spans_ok sx" "input_length st = n"
    and "\<And>m a len. matcher_from sx d m \<Longrightarrow> a + len \<le> n \<Longrightarrow> leaf_from sx n (make_set m (a, len))"
  shows "wp B st (unary_set_def sx name d make_set) (answers st (leaf_from sx n))"
  using wp_unary_set_def [OF assms(1)] assms(2,3) by fastforce

lemma wp_nullary_sized:
  assumes "input_length st = n" "\<And>a len. a + len \<le> n \<Longrightarrow> leaf_from sx n (make_set (a, len))"
  shows "wp B st (nullary_set_def name make_set) (answers st (leaf_from sx n))"
  using wp_nullary_set_def assms by fastforce

lemma wp_platform_sized: "input_length st = n \<Longrightarrow> wp B st platform_def (answers st (leaf_from sx n))"
  using wp_platform_def by fastforce

lemma wp_parse_set_def:
  assumes "B \<Longrightarrow> syntax_spans_ok sx" and n: "input_length st = n"
  shows "wp B st (parse_set_def sx) (answers st (leaf_from sx n))"
  unfolding parse_set_def_def
proof (rule wp_ws_sized [OF n], rule wp_alt_sized, assumption, unfold list.set, elim insertE emptyE)
  fix p st1 st2
  assume n: "input_length st2 = n"
    and p: "p = p_alt [unary_set_def sx ''group'' DefaultGlob PGroup, platform_def,
       nullary_set_def ''default'' PDefault, nullary_set_def ''all'' (\<lambda>_. PAll), nullary_set_def ''none'' (\<lambda>_. PNone)]"
  show "wp B st2 p (answers st2 (leaf_from sx n))"
    unfolding p by (rule wp_alt_sized [OF n], unfold list.set, elim insertE emptyE)
      (auto intro!: wp_unary_sized wp_nullary_sized wp_platform_sized assms(1))
qed (auto intro!: wp_unary_sized assms(1))


section \<open>Expressions\<close>

fun is_basic :: "parsed_expr \<Rightarrow> bool" where
  "is_basic (ENot _ _) = True"
| "is_basic (EParens _) = True"
| "is_basic (ESet _) = True"
| "is_basic _ = False"

fun is_union :: "parsed_expr \<Rightarrow> bool" where
  "is_union (EUnion _ _ _) = True"
| "is_union _ = False"

text \<open>
  The expressions that can be written down: \<open>not\<close> binds strongest, then \<open>and\<close> and the difference,
  which share a level, then \<open>or\<close>; binary operators group to the left; any other grouping has an
  \<open>EParens\<close> of its own.
\<close>

fun well_bracketed :: "(parsed_leaf \<Rightarrow> bool) \<Rightarrow> parsed_expr \<Rightarrow> bool" where
  "well_bracketed L (ENot _ a) \<longleftrightarrow> is_basic a \<and> well_bracketed L a"
| "well_bracketed L (EUnion _ a b) \<longleftrightarrow> \<not> is_union b \<and> well_bracketed L a \<and> well_bracketed L b"
| "well_bracketed L (EIntersection _ a b) \<longleftrightarrow>
     \<not> is_union a \<and> is_basic b \<and> well_bracketed L a \<and> well_bracketed L b"
| "well_bracketed L (EDifference _ a b) \<longleftrightarrow>
     \<not> is_union a \<and> is_basic b \<and> well_bracketed L a \<and> well_bracketed L b"
| "well_bracketed L (EParens a) \<longleftrightarrow> well_bracketed L a"
| "well_bracketed L (ESet l) \<longleftrightarrow> L l"

definition yields :: "span \<Rightarrow> (parsed_expr \<Rightarrow> bool) \<Rightarrow> expr_result \<Rightarrow> span \<Rightarrow> bool" where
  "yields st P r st' \<longleftrightarrow> told st st' \<or> (\<exists>e. r = Valid e \<and> P e)"

lemma yields_earlier: "good B st0 st \<Longrightarrow> yields st P r st' \<Longrightarrow> yields st0 P r st'"
  by (auto simp: yields_def intro: told_trans)

lemma yields_later: "yields st P r st1 \<Longrightarrow> good B st1 st2 \<Longrightarrow> yields st P r st2"
  by (auto simp: yields_def intro: told_trans)

lemma yields_told: "told st st' \<Longrightarrow> yields st P r st'"
  by (simp add: yields_def)

lemma yields_Valid: "P e \<Longrightarrow> yields st P (Valid e) st'"
  by (simp add: yields_def)

lemma yields_mono: "yields st P r st' \<Longrightarrow> (\<And>e. P e \<Longrightarrow> P' e) \<Longrightarrow> yields st P' r st'"
  by (auto simp: yields_def)

lemma wp_yields_earlier: "good B st0 st \<Longrightarrow> wp B st p (yields st P) \<Longrightarrow> wp B st p (yields st0 P)"
  by (erule wp_conseq) (rule yields_earlier)

lemma wp_yields_mono: "wp B st p (yields st P) \<Longrightarrow> (\<And>e. P e \<Longrightarrow> P' e) \<Longrightarrow> wp B st p (yields st P')"
  by (erule wp_conseq) (rule yields_mono)

lemma wp_expect_expr:
  assumes "wp B st p (yields st P)"
  shows "wp B st (expect_expr p) (yields st P)"
  unfolding expect_expr_def
  by (intro wp_map wp_expect) (auto intro: assms yields_told)

lemma wp_keyword_progress:
  assumes "s \<noteq> []"
  shows "wp B st (terminated (p_literal s) (word_boundary sx))
    (\<lambda>op st'. length (unread st') < length (unread st) \<and> op = s \<and> offset st' = offset st + length s)"
  using assms by (intro wp_keyword) auto

lemma wp_literal_progress:
  assumes "s \<noteq> []"
  shows "wp B st (p_literal s)
    (\<lambda>op st'. length (unread st') < length (unread st) \<and> op = s \<and> offset st' = offset st + length s)"
  using assms by (intro wp_literal) auto

text \<open>An operator reads something; an operator that is no operator is reported.\<close>

definition operator_ok :: "bool \<Rightarrow> span \<Rightarrow> 'a option parser \<Rightarrow> bool" where
  "operator_ok B st p \<longleftrightarrow>
     wp B st p (\<lambda>r st'. length (unread st') < length (unread st) \<and> answers st (\<lambda>_. True) r st')"

lemma operator_ok_value:
  assumes "wp B st p (\<lambda>op st'. length (unread st') < length (unread st) \<and> Q op st')"
  shows "operator_ok B st (p_value (Some x) p)"
  unfolding operator_ok_def by (intro wp_value wp_conseq [OF assms]) (simp add: answers_def)

lemma operator_ok_alt:
  assumes "\<And>p st'. p \<in> set ps \<Longrightarrow> operator_ok B st' p"
  shows "operator_ok B st (p_alt ps)"
  using assms
proof (induction ps arbitrary: st)
  case (Cons p ps)
  then have 1: "operator_ok B st p" and 2: "\<And>st'. operator_ok B st' (p_alt ps)" by simp_all
  have "wp B st' (p_alt ps) (\<lambda>r st''. length (unread st'') < length (unread st) \<and> answers st (\<lambda>_. True) r st'')"
    if "good B st st'" "unread st' = unread st" for st'
    by (rule wp_conseq [OF 2 [unfolded operator_ok_def]])
      (use that in \<open>auto intro: answers_earlier\<close>)
  with 1 show ?case unfolding operator_ok_def by (intro wp_alt_Cons) auto
qed (simp add: operator_ok_def wp_alt_Nil)

lemma operator_ok_ws:
  assumes "\<And>st1. operator_ok B st1 p"
  shows "operator_ok B st (ws p)"
  unfolding operator_ok_def
proof (rule wp_ws)
  fix st1
  assume g: "good B st st1"
  show "wp B st1 p (\<lambda>r st'. length (unread st') < length (unread st) \<and> answers st (\<lambda>_. True) r st')"
    by (rule wp_conseq [OF assms [unfolded operator_ok_def]])
      (use g good_facts(3) [OF g] in \<open>auto intro: answers_earlier\<close>)
qed

lemma operator_ok_report:
  fixes p :: "string parser"
  assumes "plain_error make_err"
    and "wp B st p (\<lambda>op st'. length (unread st') < length (unread st) \<and> offset st' = offset st + length op)"
  shows "operator_ok B st (p_then location (\<lambda>start. p_then p (\<lambda>op.
           p_value None (report_error (make_err (start, length op))))))"
  unfolding operator_ok_def
proof (rule wp_then_location, rule wp_then [OF assms(2)])
  fix op :: string and st1
  assume g: "good B st st1"
    and lt: "length (unread st1) < length (unread st) \<and> offset st1 = offset st + length op"
  then have "in_input (input_length st1) (make_err (offset st, length op))"
    using assms(1) by (simp add: plain_error_def in_input_def)
  then show "wp B st1 (p_value None (report_error (make_err (offset st, length op))))
      (\<lambda>r st'. length (unread st') < length (unread st) \<and> answers st (\<lambda>_. True) r st')"
    using lt by (auto intro!: wp_value wp_report answers_told intro: told_trans(1) [OF g])
qed

lemma plain_operator_errors [simp]: "plain_error InvalidOrOperator" "plain_error InvalidAndOperator"
  by (simp_all add: plain_error_def)

lemma wp_bad_operator:
  assumes "s \<noteq> []" "t \<noteq> []"
  shows "wp B st (p_alt [p_literal s, terminated (p_literal t) (word_boundary sx)])
    (\<lambda>op st'. length (unread st') < length (unread st) \<and> offset st' = offset st + length op)"
proof (intro wp_alt_Cons wp_alt_Nil)
  show "wp B st (p_literal s) (\<lambda>op st'. length (unread st') < length (unread st) \<and> offset st' = offset st + length op)"
    by (rule wp_conseq [OF wp_literal_progress [OF assms(1)]]) simp
next
  fix st1 :: span
  assume "unread st1 = unread st" "offset st1 = offset st"
  then show "wp B st1 (terminated (p_literal t) (word_boundary sx))
      (\<lambda>op st'. length (unread st') < length (unread st) \<and> offset st' = offset st + length op)"
    by (intro wp_conseq [OF wp_keyword_progress [OF assms(2)]]) simp
qed

lemma operator_ok_or: "operator_ok B st (parse_or_operator sx)"
  unfolding parse_or_operator_def
  by (intro operator_ok_ws operator_ok_alt, unfold list.set, elim insertE emptyE)
    (auto intro!: operator_ok_report wp_bad_operator
      intro: operator_ok_value [OF wp_keyword_progress] operator_ok_value [OF wp_literal_progress])

lemma operator_ok_and: "operator_ok B st (parse_and_or_difference_operator sx)"
  unfolding parse_and_or_difference_operator_def
  by (intro operator_ok_ws operator_ok_alt, unfold list.set, elim insertE emptyE)
    (auto intro!: operator_ok_report wp_bad_operator
      intro: operator_ok_value [OF wp_keyword_progress] operator_ok_value [OF wp_literal_progress])

text \<open>A chain of operators and operands, whatever the level.\<close>

definition chain_ok :: "(parsed_expr \<Rightarrow> bool) \<Rightarrow> ('op option \<times> expr_result) list \<Rightarrow> bool" where
  "chain_ok P ops \<longleftrightarrow> (\<forall>x \<in> set ops. \<exists>op e. x = (Some op, Valid e) \<and> P e)"

lemma wp_chain:
  assumes operator: "\<And>s. operator_ok B s operator"
    and operand: "\<And>s. good B st s \<Longrightarrow> wp B s operand (yields s P)"
  shows "wp B st (p_repeat (p_pair operator (expect_expr operand)) (\<lambda>ops x. ops @ [x]) [])
           (\<lambda>ops st'. told st st' \<or> chain_ok P ops)"
proof -
  let ?I = "\<lambda>(ops :: ('a option \<times> expr_result) list) s. good B st s \<and> (told st s \<or> chain_ok P ops)"
  have "wp B st (p_repeat (p_pair operator (expect_expr operand)) (\<lambda>ops x. ops @ [x]) []) ?I"
  proof (rule wp_repeat)
    fix ops :: "('a option \<times> expr_result) list" and s
    assume I: "?I ops s"
    show "wp B s (p_pair operator (expect_expr operand))
        (\<lambda>x s'. length (unread s') < length (unread s) \<and> ?I (ops @ [x]) s')"
    proof (rule wp_pair [OF operator [unfolded operator_ok_def]])
      fix op :: "'a option" and s1
      assume g1: "good B s s1"
        and op: "length (unread s1) < length (unread s) \<and> answers s (\<lambda>_. True) op s1"
      with I have "good B st s1" by (blast intro: good_trans)
      then have "wp B s1 (expect_expr operand) (yields s1 P)" by (intro wp_expect_expr operand)
      then show "wp B s1 (expect_expr operand)
          (\<lambda>e s'. length (unread s') < length (unread s) \<and> ?I (ops @ [(op, e)]) s')"
      proof (rule wp_conseq)
        fix e :: expr_result and s'
        assume g2: "good B s1 s'" and e: "yields s1 P e s'"
        have g: "good B st s'" using I g1 g2 by (blast intro: good_trans)
        have "told st s' \<or> chain_ok P (ops @ [(op, e)])"
        proof (cases "told st s \<or> told s s1 \<or> told s1 s'")
          case True
          then show ?thesis using I g1 g2 by (blast intro: told_trans good_trans)
        next
          case False
          with I op e show ?thesis by (auto simp: chain_ok_def answers_def yields_def)
        qed
        with g op good_facts(3) [OF g2]
        show "length (unread s') < length (unread s) \<and> ?I (ops @ [(op, e)]) s'" by simp
      qed
    qed
  next
    fix ops :: "('a option \<times> expr_result) list" and s s'
    assume "?I ops s" "good B s s'"
    then show "?I ops (reset_to s s')" by (blast intro: good_trans good_reset told_trans(2))
  qed (simp add: chain_ok_def)
  then show ?thesis by (rule wp_conseq) simp
qed

definition basic_ok :: "(parsed_leaf \<Rightarrow> bool) \<Rightarrow> parsed_expr \<Rightarrow> bool" where
  "basic_ok L e \<longleftrightarrow> is_basic e \<and> well_bracketed L e"

definition and_ok :: "(parsed_leaf \<Rightarrow> bool) \<Rightarrow> parsed_expr \<Rightarrow> bool" where
  "and_ok L e \<longleftrightarrow> \<not> is_union e \<and> well_bracketed L e"

lemma basic_not_union: "is_basic e \<Longrightarrow> \<not> is_union e"
  by (cases e) simp_all

lemma foldl_and_ok:
  "and_ok L e \<Longrightarrow> chain_ok (basic_ok L) ops \<Longrightarrow>
     \<exists>e'. foldl apply_and_or_difference (Valid e) ops = Valid e' \<and> and_ok L e'"
proof (induction ops arbitrary: e)
  case (Cons x ops)
  then obtain op b where x: "x = (Some op, Valid b)" "basic_ok L b" by (auto simp: chain_ok_def)
  have IH: "\<exists>e''. foldl apply_and_or_difference (Valid e') ops = Valid e'' \<and> and_ok L e''" if "and_ok L e'" for e'
    by (rule Cons.IH [OF that]) (use Cons.prems(2) in \<open>simp add: chain_ok_def\<close>)
  show ?case
    by (cases op) (use x Cons.prems(1) in \<open>auto intro!: IH [unfolded and_ok_def] simp: and_ok_def basic_ok_def\<close>)
qed auto

lemma foldl_or_ok:
  "well_bracketed L e \<Longrightarrow> chain_ok (and_ok L) ops \<Longrightarrow>
     \<exists>e'. foldl apply_or (Valid e) ops = Valid e' \<and> well_bracketed L e'"
proof (induction ops arbitrary: e)
  case (Cons x ops)
  then obtain op b where x: "x = (Some op, Valid b)" "and_ok L b" by (auto simp: chain_ok_def)
  have IH: "\<exists>e''. foldl apply_or (Valid e') ops = Valid e'' \<and> well_bracketed L e''" if "well_bracketed L e'" for e'
    by (rule Cons.IH [OF that]) (use Cons.prems(2) in \<open>simp add: chain_ok_def\<close>)
  show ?case using x Cons.prems(1) by (auto intro!: IH simp: and_ok_def)
qed auto

lemma wp_parse_and_or_difference_expr:
  assumes basic: "\<And>s. good B st s \<Longrightarrow> wp B s basic (yields s (basic_ok L))"
  shows "wp B st (parse_and_or_difference_expr sx basic) (yields st (and_ok L))"
  unfolding parse_and_or_difference_expr_def
proof (rule wp_then [OF wp_expect_expr [OF basic [OF good_refl]]])
  fix e st1
  assume g: "good B st st1" and e: "yields st (basic_ok L) e st1"
  have "wp B st1 (p_repeat (p_pair (parse_and_or_difference_operator sx) (expect_expr basic)) (\<lambda>ops x. ops @ [x]) [])
      (\<lambda>ops st'. told st1 st' \<or> chain_ok (basic_ok L) ops)"
    by (intro wp_chain operator_ok_and basic) (rule good_trans [OF g])
  then show "wp B st1 (p_then (p_repeat (p_pair (parse_and_or_difference_operator sx) (expect_expr basic))
      (\<lambda>ops x. ops @ [x]) []) (\<lambda>ops. p_return (foldl apply_and_or_difference e ops))) (yields st (and_ok L))"
  proof (rule wp_then, intro wp_return)
    fix ops :: "(and_or_difference_operator option \<times> expr_result) list" and st2
    assume g2: "good B st1 st2" and "told st1 st2 \<or> chain_ok (basic_ok L) ops"
    with e g show "yields st (and_ok L) (foldl apply_and_or_difference e ops) st2"
      using foldl_and_ok [of L] basic_not_union
      by (auto simp: yields_def basic_ok_def and_ok_def intro: told_trans)
  qed
qed

lemma wp_parse_expr:
  assumes basic: "\<And>s. good B st s \<Longrightarrow> wp B s basic (yields s (basic_ok L))"
  shows "wp B st (parse_expr sx basic) (yields st (well_bracketed L))"
  unfolding parse_expr_def
proof (rule wp_then [OF wp_expect_expr [OF wp_parse_and_or_difference_expr [OF basic]]], assumption)
  have conj: "wp B s (parse_and_or_difference_expr sx basic) (yields s (and_ok L))" if "good B st s" for s
    using that by (intro wp_parse_and_or_difference_expr basic) (rule good_trans)
  fix e st1
  assume g: "good B st st1" and e: "yields st (and_ok L) e st1"
  have "wp B st1 (p_repeat (p_pair (parse_or_operator sx) (expect_expr (parse_and_or_difference_expr sx basic)))
      (\<lambda>ops x. ops @ [x]) []) (\<lambda>ops st'. told st1 st' \<or> chain_ok (and_ok L) ops)"
    by (intro wp_chain operator_ok_or conj) (rule good_trans [OF g])
  then show "wp B st1 (p_then (p_repeat (p_pair (parse_or_operator sx) (expect_expr (parse_and_or_difference_expr sx basic)))
      (\<lambda>ops x. ops @ [x]) []) (\<lambda>ops. p_return (foldl apply_or e ops))) (yields st (well_bracketed L))"
  proof (rule wp_then, intro wp_return)
    fix ops :: "(or_operator option \<times> expr_result) list" and st2
    assume g2: "good B st1 st2" and "told st1 st2 \<or> chain_ok (and_ok L) ops"
    with e g show "yields st (well_bracketed L) (foldl apply_or e ops) st2"
      using foldl_or_ok [of L] by (auto simp: yields_def and_ok_def intro: told_trans)
  qed
qed

lemma wp_alt_yields:
  assumes "\<And>s p. good B st s \<Longrightarrow> p \<in> set ps \<Longrightarrow> wp B s p (yields s P)"
  shows "wp B st (p_alt ps) (yields st P)"
  using assms
proof (induction ps arbitrary: st)
  case (Cons p ps)
  have "wp B st p (yields st P)" by (rule Cons.prems) simp_all
  moreover have "wp B st' (p_alt ps) (yields st P)" if g: "good B st st'" for st'
    by (rule wp_yields_earlier [OF g], rule Cons.IH, rule Cons.prems) (auto intro: good_trans [OF g])
  ultimately show ?case by (intro wp_alt_Cons) auto
qed (rule wp_alt_Nil)

text \<open>What a basic expression may be; the ones inside it start later in the input.\<close>

lemma wp_misplaced:
  "wp B st (parse_misplaced_binary_op sx) (yields st P)"
  "wp B st (parse_misplaced_unary_op sx) (yields st P)"
proof -
  have op: "wp B st (misplaced_binary_ops sx) (\<lambda>x st'. offset st' = offset st + length (fst x))" for st
    unfolding misplaced_binary_ops_def
    by (intro wp_alt_Cons wp_alt_Nil wp_value wp_keyword wp_literal) simp_all
  show "wp B st (parse_misplaced_binary_op sx) (yields st P)"
    unfolding parse_misplaced_binary_op_def
  proof (rule wp_then_location, rule wp_then [OF op])
    fix x :: "string \<times> string" and st1
    assume g: "good B st st1" and "offset st1 = offset st + length (fst x)"
    then show "wp B st1 (case x of (op, suggest) \<Rightarrow>
        p_value Error (report_error (ExprFoundBinaryOp op suggest (offset st, length op)))) (yields st P)"
      by (cases x) (auto simp: in_input_def intro!: wp_value wp_report yields_told intro: told_trans(1) [OF g])
  qed
  have unary: "wp B st (p_value ''NOT'' (terminated (p_literal ''NOT'') (word_boundary sx)))
      (\<lambda>op st'. op = ''NOT'' \<and> offset st' = offset st + 3)"
    by (intro wp_value wp_keyword) simp
  show "wp B st (parse_misplaced_unary_op sx) (yields st P)"
    unfolding parse_misplaced_unary_op_def
  proof (rule wp_then_location, rule wp_then [OF unary])
    fix op :: string and st1
    assume g: "good B st st1" and "op = ''NOT'' \<and> offset st1 = offset st + 3"
    then show "wp B st1 (p_value Error (report_error (ExprFoundUnaryOp op ''not'' (offset st, length op)))) (yields st P)"
      by (auto simp: in_input_def intro!: wp_value wp_report yields_told intro: told_trans(1) [OF g])
  qed
qed

lemma wp_not_operator:
  "wp B st (parse_not_operator sx) (\<lambda>_ st'. length (unread st') < length (unread st))"
  unfolding parse_not_operator_def
  by (intro wp_alt_Cons wp_alt_Nil wp_value)
    (auto intro: wp_conseq [OF wp_keyword_progress] wp_conseq [OF wp_literal_progress])

lemma wp_parse_expr_not:
  assumes "\<And>s. good B st s \<Longrightarrow> length (unread s) < length (unread st) \<Longrightarrow> wp B s basic (yields s (basic_ok L))"
  shows "wp B st (parse_expr_not sx basic) (yields st (basic_ok L))"
  unfolding parse_expr_not_def
proof (rule wp_map, rule wp_pair [OF wp_not_operator])
  fix op st1
  assume g: "good B st st1" and lt: "length (unread st1) < length (unread st)"
  have "wp B st1 (ws basic) (yields st1 (basic_ok L))"
  proof (rule wp_ws)
    fix st2
    assume g2: "good B st1 st2"
    show "wp B st2 basic (yields st1 (basic_ok L))"
      by (rule wp_yields_earlier [OF g2], rule assms)
        (use g2 lt good_facts(3) [OF g2] in \<open>auto intro: good_trans [OF g]\<close>)
  qed
  then have "wp B st1 (expect_expr (ws basic)) (yields st1 (basic_ok L))" by (rule wp_expect_expr)
  then show "wp B st1 (expect_expr (ws basic))
      (\<lambda>e st'. yields st (basic_ok L) (case (op, e) of (op, expr) \<Rightarrow> result_negate op expr) st')"
    by (rule wp_conseq) (auto simp: yields_def basic_ok_def intro: told_trans(1) [OF g])
qed

lemma wp_parse_parentheses_expr:
  assumes "\<And>s. good B st s \<Longrightarrow> length (unread s) < length (unread st) \<Longrightarrow> wp B s expr (yields s (well_bracketed L))"
  shows "wp B st (parse_parentheses_expr expr) (yields st (basic_ok L))"
  unfolding parse_parentheses_expr_def delimited_def
proof (rule wp_map, rule wp_preceded [OF wp_literal_progress])
  fix s st1
  assume g: "good B st st1" and "length (unread st1) < length (unread st) \<and> s = ''('' \<and> offset st1 = offset st + length ''(''"
  then have "wp B st1 (expect_expr expr) (yields st1 (well_bracketed L))" by (intro wp_expect_expr assms) simp_all
  then have "wp B st1 (terminated (expect_expr expr) (expect_char '')'' ExpectedCloseParenthesis))
      (yields st1 (well_bracketed L))"
    by (rule wp_terminated) (auto intro!: wp_expect_char intro: yields_later)
  then show "wp B st1 (terminated (expect_expr expr) (expect_char '')'' ExpectedCloseParenthesis))
      (\<lambda>e st'. yields st (basic_ok L) (result_parens e) st')"
    by (rule wp_conseq) (auto simp: yields_def basic_ok_def intro: told_trans(1) [OF g])
qed simp

text \<open>Fuel that exceeds what is left of the input is enough.\<close>

lemma wp_parse_basic_expr:
  assumes sx: "B \<Longrightarrow> syntax_spans_ok sx"
  shows "length (unread st) < fuel \<Longrightarrow> input_length st = n \<Longrightarrow>
    wp B st (parse_basic_expr sx fuel) (yields st (basic_ok (leaf_from sx n)))"
proof (induction fuel arbitrary: st)
  case (Suc fuel)
  let ?P = "yields st (basic_ok (leaf_from sx n))"
  let ?basic = "parse_basic_expr sx fuel"
  let ?alts = "[p_map (\<lambda>set. case set of Some leaf \<Rightarrow> Valid (ESet leaf) | None \<Rightarrow> Error) (parse_set_def sx),
     parse_expr_not sx ?basic, parse_parentheses_expr (parse_expr sx ?basic),
     parse_misplaced_binary_op sx, parse_misplaced_unary_op sx]"
  have basic: "wp B s ?basic (yields s (basic_ok (leaf_from sx n)))"
    if "good B st s" "length (unread s) < length (unread st)" for s
    using that Suc.prems good_input_length [OF that(1)] by (intro Suc.IH) simp_all
  have alt: "wp B s p (yields s (basic_ok (leaf_from sx n)))" if g: "good B st s" and "p \<in> set ?alts" for s p
  proof -
    have n: "input_length s = n" using Suc.prems(2) good_input_length [OF g] by simp
    have inner: "wp B s' ?basic (yields s' (basic_ok (leaf_from sx n)))"
      if "good B s s'" "length (unread s') < length (unread s)" for s'
      using that g good_facts(3) [OF g] by (intro basic) (auto intro: good_trans)
    have "wp B s (parse_parentheses_expr (parse_expr sx ?basic)) (yields s (basic_ok (leaf_from sx n)))"
    proof (rule wp_parse_parentheses_expr, rule wp_parse_expr, rule inner)
      fix s1 s2
      assume g1: "good B s s1" and g2: "good B s1 s2" and lt: "length (unread s1) < length (unread s)"
      show "good B s s2" by (rule good_trans [OF g1 g2])
      show "length (unread s2) < length (unread s)" using lt good_facts(3) [OF g2] by simp
    qed
    moreover have "wp B s (p_map (\<lambda>set. case set of Some leaf \<Rightarrow> Valid (ESet leaf) | None \<Rightarrow> Error) (parse_set_def sx))
        (yields s (basic_ok (leaf_from sx n)))"
      by (rule wp_map, rule wp_conseq [OF wp_parse_set_def [OF sx n]])
        (auto simp: yields_def answers_def basic_ok_def)
    ultimately show ?thesis using that(2) wp_misplaced wp_parse_expr_not [OF inner] by auto
  qed
  have "wp B st (ws (p_alt ?alts)) ?P"
  proof (rule wp_ws)
    fix st1
    assume g: "good B st st1"
    show "wp B st1 (p_alt ?alts) ?P"
      by (rule wp_yields_earlier [OF g], rule wp_alt_yields, rule alt) (blast intro: good_trans [OF g])+
  qed
  then show ?case by (rule wp_continue [OF good_refl]) (rule parse_basic_expr.simps)
qed simp


section \<open>The whole input\<close>

text \<open>High-level parsers report an error where they could have failed.\<close>

definition never_fails :: "'a parser \<Rightarrow> bool" where
  "never_fails p \<longleftrightarrow> (\<forall>st. fst (p st) \<noteq> Backtrack)"

lemma never_fails_then: "never_fails p \<Longrightarrow> (\<And>x. never_fails (f x)) \<Longrightarrow> never_fails (p_then p f)"
  unfolding never_fails_def p_then_def by (auto split: prod.splits reply.splits) (metis fst_conv)+

lemma never_fails_return: "never_fails (p_return x)"
  by (simp add: never_fails_def p_return_def)

lemma never_fails_expect: "never_fails (expect p make_err)"
  by (auto simp: never_fails_def expect_def expect_inner_def p_value_def p_map_def p_then_def
      report_error_def p_return_def split: prod.splits reply.splits)

lemma never_fails_repeat: "never_fails (p_repeat p f acc)"
proof -
  have "fst (p_repeat p f acc st) \<noteq> Backtrack" for st
    by (induction p f acc st rule: p_repeat.induct)
      (subst p_repeat.simps, auto split: prod.splits reply.splits)
  then show ?thesis by (simp add: never_fails_def)
qed

lemma never_fails_parse_expr: "never_fails (parse_expr sx basic)"
  unfolding parse_expr_def expect_expr_def p_map_def
  by (intro never_fails_then never_fails_repeat never_fails_return never_fails_expect)

lemma parse_wp:
  assumes sx: "B \<Longrightarrow> syntax_spans_ok sx"
  shows "\<exists>r st'. parse sx s = (Done r, st') \<and> good B (new_span s) st' \<and>
    yields (new_span s) (well_bracketed (leaf_from sx (length s))) r st'"
proof -
  let ?basic = "parse_basic_expr sx (Suc (length s))" and ?P = "well_bracketed (leaf_from sx (length s))"
  have n: "input_length (new_span s) = length s" by (simp add: new_span_def)
  have basic: "wp B st ?basic (yields st (basic_ok (leaf_from sx (length s))))" if g: "good B (new_span s) st" for st
    using good_input_length [OF g] good_facts(3) [OF g] n
    by (intro wp_parse_basic_expr sx) (simp_all add: new_span_def)
  have "wp B (new_span s) (terminated (parse_expr sx ?basic) (expect (ws p_eof) ExpectedEndOfExpression))
      (yields (new_span s) ?P)"
  proof (rule wp_terminated [OF wp_parse_expr [OF basic]], assumption)
    fix e st1
    assume e: "yields (new_span s) ?P e st1"
    show "wp B st1 (expect (ws p_eof) ExpectedEndOfExpression) (\<lambda>_. yields (new_span s) ?P e)"
      by (intro wp_expect wp_ws wp_eof) (auto intro: yields_later [OF e] good_trans)
  qed
  moreover obtain r st' where p: "parse sx s = (r, st')" by (cases "parse sx s")
  ultimately have w: "case r of Done x \<Rightarrow> good B (new_span s) st' \<and> yields (new_span s) ?P x st'
      | Backtrack \<Rightarrow> good B (new_span s) st' | Stuck \<Rightarrow> False"
    by (simp add: wp_def parse_def split: reply.splits)
  have "never_fails (terminated (parse_expr sx ?basic) (expect (ws p_eof) ExpectedEndOfExpression))"
    unfolding terminated_def p_value_def p_map_def
    by (intro never_fails_then never_fails_parse_expr never_fails_return never_fails_expect)
  with p have "r \<noteq> Backtrack" unfolding never_fails_def parse_def by (metis fst_conv)
  with w p show ?thesis by (cases r) simp_all
qed

end
