(* ===== verification/Filterset_Display.thy ===== *)
theory Filterset_Display
  imports Filterset_Parser_Props
begin

text \<open>
  How filtersets are printed (\<open>Display\<close> in \<open>nextest-filtering/src/parsing.rs\<close>,
  \<open>parsing/unicode_string.rs\<close> and \<open>expression.rs\<close>), and that the parser reads back what is printed:
  exactly those texts without a quotation mark, and every expression whose leaves are
  \<open>displayable\<close>.

  The name of a build platform is printed by the \<open>guppy\<close> library, which is a parameter.
\<close>

section \<open>Printing\<close>

definition display_char :: "scalar \<Rightarrow> string" where
  "display_char c =
     (if c = 47 then [backslash, CHR ''/'']
      else if c = 41 then [backslash, CHR '')'']
      else if c = 44 then [backslash, CHR '','']
      else escape_default c)"

definition display_parsed_string :: "string \<Rightarrow> string" where
  "display_parsed_string s = concat (map display_char (chars s))"

text \<open>
  \<open>DisplayParsedRegex\<close>. Backslashes and slashes are single bytes, so that going over the bytes gives
  what going over the characters does.
\<close>

fun display_regex_from :: "bool \<Rightarrow> string \<Rightarrow> string" where
  "display_regex_from escaped [] = []"
| "display_regex_from True (c # cs) = c # display_regex_from False cs"
| "display_regex_from False (c # cs) =
     (if c = backslash then c # display_regex_from True cs
      else if c = CHR ''/'' then backslash # CHR ''/'' # display_regex_from False cs
      else c # display_regex_from False cs)"

definition display_parsed_regex :: "string \<Rightarrow> string" where
  "display_parsed_regex r = display_regex_from False r"

fun display_matcher :: "name_matcher \<Rightarrow> string" where
  "display_matcher (Equal value implicit) = (if implicit then [] else ''='') @ display_parsed_string value"
| "display_matcher (Contains value implicit) = (if implicit then [] else ''~'') @ display_parsed_string value"
| "display_matcher (Glob glob implicit) =
     (if implicit then [] else ''#'') @ display_parsed_string (glob_str glob)"
| "display_matcher (Regex r) = ''/'' @ display_parsed_regex r @ ''/''"

fun display_leaf :: "(build_platform \<Rightarrow> string) \<Rightarrow> parsed_leaf \<Rightarrow> string" where
  "display_leaf bp (PPackage m _) = ''package('' @ display_matcher m @ '')''"
| "display_leaf bp (PDeps m _) = ''deps('' @ display_matcher m @ '')''"
| "display_leaf bp (PRdeps m _) = ''rdeps('' @ display_matcher m @ '')''"
| "display_leaf bp (PKind m _) = ''kind('' @ display_matcher m @ '')''"
| "display_leaf bp (PBinary m _) = ''binary('' @ display_matcher m @ '')''"
| "display_leaf bp (PBinaryId m _) = ''binary_id('' @ display_matcher m @ '')''"
| "display_leaf bp (PPlatform p _) = ''platform('' @ bp p @ '')''"
| "display_leaf bp (PTest m _) = ''test('' @ display_matcher m @ '')''"
| "display_leaf bp (PGroup m _) = ''group('' @ display_matcher m @ '')''"
| "display_leaf bp (PDefault _) = ''default()''"
| "display_leaf bp PAll = ''all()''"
| "display_leaf bp PNone = ''none()''"

fun display_not :: "not_operator \<Rightarrow> string" where
  "display_not LiteralNot = ''not''"
| "display_not Exclamation = ''!''"

fun display_or :: "or_operator \<Rightarrow> string" where
  "display_or LiteralOr = ''or''"
| "display_or Pipe = ''|''"
| "display_or Plus = ''+''"

fun display_and :: "and_operator \<Rightarrow> string" where
  "display_and LiteralAnd = ''and''"
| "display_and Ampersand = ''&''"

fun display_difference :: "difference_operator \<Rightarrow> string" where
  "display_difference Minus = ''-''"

fun display_expr :: "(build_platform \<Rightarrow> string) \<Rightarrow> parsed_expr \<Rightarrow> string" where
  "display_expr bp (ENot op a) = display_not op @ '' '' @ display_expr bp a"
| "display_expr bp (EUnion op a b) = display_expr bp a @ '' '' @ display_or op @ '' '' @ display_expr bp b"
| "display_expr bp (EIntersection op a b) =
     display_expr bp a @ '' '' @ display_and op @ '' '' @ display_expr bp b"
| "display_expr bp (EDifference op a b) =
     display_expr bp a @ '' '' @ display_difference op @ '' '' @ display_expr bp b"
| "display_expr bp (EParens a) = ''('' @ display_expr bp a @ '')''"
| "display_expr bp (ESet l) = display_leaf bp l"

text \<open>Expressions up to the places they were read from.\<close>

fun leaf_drop_span :: "parsed_leaf \<Rightarrow> parsed_leaf" where
  "leaf_drop_span (PPackage m _) = PPackage m (0, 0)"
| "leaf_drop_span (PDeps m _) = PDeps m (0, 0)"
| "leaf_drop_span (PRdeps m _) = PRdeps m (0, 0)"
| "leaf_drop_span (PKind m _) = PKind m (0, 0)"
| "leaf_drop_span (PBinary m _) = PBinary m (0, 0)"
| "leaf_drop_span (PBinaryId m _) = PBinaryId m (0, 0)"
| "leaf_drop_span (PPlatform p _) = PPlatform p (0, 0)"
| "leaf_drop_span (PTest m _) = PTest m (0, 0)"
| "leaf_drop_span (PGroup m _) = PGroup m (0, 0)"
| "leaf_drop_span (PDefault _) = PDefault (0, 0)"
| "leaf_drop_span PAll = PAll"
| "leaf_drop_span PNone = PNone"

fun drop_source_span :: "parsed_expr \<Rightarrow> parsed_expr" where
  "drop_source_span (ENot op a) = ENot op (drop_source_span a)"
| "drop_source_span (EUnion op a b) = EUnion op (drop_source_span a) (drop_source_span b)"
| "drop_source_span (EIntersection op a b) = EIntersection op (drop_source_span a) (drop_source_span b)"
| "drop_source_span (EDifference op a b) = EDifference op (drop_source_span a) (drop_source_span b)"
| "drop_source_span (EParens a) = EParens (drop_source_span a)"
| "drop_source_span (ESet l) = ESet (leaf_drop_span l)"


section \<open>Reading without errors\<close>

text \<open>
  \<open>reads p s k P\<close>: in front of \<open>k\<close> the parser \<open>p\<close> reads exactly \<open>s\<close>, reports nothing, and its
  result has \<open>P\<close>. \<open>fails p u\<close>: it backtracks on \<open>u\<close> and reports nothing.
\<close>

abbreviation at :: "string \<Rightarrow> nat \<Rightarrow> errors \<Rightarrow> span" where
  "at u n e \<equiv> \<lparr>unread = u, offset = n, reported = e\<rparr>"

definition reads :: "'a parser \<Rightarrow> string \<Rightarrow> string \<Rightarrow> ('a \<Rightarrow> bool) \<Rightarrow> bool" where
  "reads p s k P \<longleftrightarrow> (\<forall>n e. \<exists>x. P x \<and> p (at (s @ k) n e) = (Done x, at k (n + length s) e))"

definition fails :: "'a parser \<Rightarrow> string \<Rightarrow> bool" where
  "fails p u \<longleftrightarrow> (\<forall>n e. \<exists>v m. p (at u n e) = (Backtrack, at v m e))"

lemma readsE:
  assumes "reads p s k P"
  obtains x where "P x" "p (at (s @ k) n e) = (Done x, at k (n + length s) e)"
  using assms by (auto simp: reads_def)

lemma failsE:
  assumes "fails p u"
  obtains v m where "p (at u n e) = (Backtrack, at v m e)"
  using assms unfolding fails_def by blast

lemma reset_at [simp]: "reset_to (at u n e) (at v m e') = at u n e'"
  by (simp add: reset_to_def)

lemma advance_at [simp]: "advance m (at u n e) = at (drop m u) (n + m) e"
  by (simp add: advance_def)

lemma reads_return: "P x \<Longrightarrow> reads (p_return x) [] k P"
  by (simp add: reads_def p_return_def)

lemma reads_location: "reads location [] k (\<lambda>_. True)"
  by (simp add: reads_def location_def)

lemma reads_then:
  assumes "reads p s (t @ k) P" "\<And>x. P x \<Longrightarrow> reads (f x) t k Q"
  shows "reads (p_then p f) (s @ t) k Q"
  unfolding reads_def
proof (intro allI)
  fix n e
  obtain x where x: "P x" "p (at (s @ t @ k) n e) = (Done x, at (t @ k) (n + length s) e)"
    using assms(1) by (rule readsE)
  obtain y where "Q y" "f x (at (t @ k) (n + length s) e) = (Done y, at k (n + length s + length t) e)"
    using assms(2) [OF x(1)] by (rule readsE)
  with x show "\<exists>y. Q y \<and> p_then p f (at ((s @ t) @ k) n e) = (Done y, at k (n + length (s @ t)) e)"
    by (auto simp: p_then_def add.assoc)
qed

lemma reads_then0: "reads p [] (t @ k) P \<Longrightarrow> (\<And>x. P x \<Longrightarrow> reads (f x) t k Q) \<Longrightarrow> reads (p_then p f) t k Q"
  using reads_then [of p "[]" t k P f Q] by simp

lemma reads_then_end: "reads p s k P \<Longrightarrow> (\<And>x. P x \<Longrightarrow> reads (f x) [] k Q) \<Longrightarrow> reads (p_then p f) s k Q"
  using reads_then [of p s "[]" k P f Q] by simp

lemma reads_mono: "reads p s k P \<Longrightarrow> (\<And>x. P x \<Longrightarrow> Q x) \<Longrightarrow> reads p s k Q"
  unfolding reads_def by blast

lemma reads_map: "reads p s k (\<lambda>x. P (f x)) \<Longrightarrow> reads (p_map f p) s k P"
  using reads_then [of p s "[]" k "\<lambda>x. P (f x)" "\<lambda>x. p_return (f x)" P] by (simp add: p_map_def reads_return)

lemma reads_value: "reads p s k (\<lambda>_. P y) \<Longrightarrow> reads (p_value y p) s k P"
  unfolding p_value_def by (rule reads_map)

lemma reads_preceded: "reads p s (t @ k) P \<Longrightarrow> reads q t k Q \<Longrightarrow> reads (preceded p q) (s @ t) k Q"
  unfolding preceded_def by (rule reads_then)

lemma reads_terminated: "reads p s (t @ k) P \<Longrightarrow> reads q t k (\<lambda>_. True) \<Longrightarrow> reads (terminated p q) (s @ t) k P"
  unfolding terminated_def by (erule reads_then) (auto intro: reads_value reads_mono)

lemma reads_pair:
  "reads p s (t @ k) P \<Longrightarrow> (\<And>x. P x \<Longrightarrow> reads q t k (\<lambda>y. Q (x, y))) \<Longrightarrow> reads (p_pair p q) (s @ t) k Q"
  unfolding p_pair_def by (erule reads_then) (rule reads_map, blast)

lemma reads_literal: "reads (p_literal s) s k (\<lambda>x. x = s)"
  by (simp add: reads_def p_literal_def)

lemma fails_literal: "\<not> prefix s u \<Longrightarrow> fails (p_literal s) u"
  by (simp add: fails_def p_literal_def)

lemma fails_then: "fails p u \<Longrightarrow> fails (p_then p f) u"
  unfolding fails_def p_then_def by (metis (mono_tags, lifting) case_prod_conv reply.simps(9))

lemma fails_map: "fails p u \<Longrightarrow> fails (p_map f p) u"
  unfolding p_map_def by (rule fails_then)

lemma fails_value: "fails p u \<Longrightarrow> fails (p_value y p) u"
  unfolding p_value_def by (rule fails_map)

lemma fails_preceded: "fails p u \<Longrightarrow> fails (preceded p q) u"
  unfolding preceded_def by (rule fails_then)

lemma fails_terminated: "fails p u \<Longrightarrow> fails (terminated p q) u"
  unfolding terminated_def by (rule fails_then)

lemma fails_pair: "fails p u \<Longrightarrow> fails (p_pair p q) u"
  unfolding p_pair_def by (rule fails_then)

lemma fails_location: "(\<And>n. fails (f n) u) \<Longrightarrow> fails (p_then location f) u"
  by (simp add: fails_def p_then_def location_def)

lemma reads_alt_here: "reads p s k P \<Longrightarrow> reads (p_alt (p # ps)) s k P"
  unfolding reads_def by (cases ps) (simp_all, metis (mono_tags, lifting) case_prod_conv reply.simps(8))

lemma reads_alt_next:
  assumes "fails p (s @ k)" "reads (p_alt ps) s k P"
  shows "reads (p_alt (p # ps)) s k P"
proof (cases ps)
  case Nil
  with assms(2) show ?thesis by (auto simp: reads_def)
next
  case (Cons q qs)
  show ?thesis
    unfolding reads_def
  proof (intro allI)
    fix n e
    obtain v m where "p (at (s @ k) n e) = (Backtrack, at v m e)" using assms(1) by (rule failsE)
    with assms(2) Cons show "\<exists>x. P x \<and> p_alt (p # ps) (at (s @ k) n e) = (Done x, at k (n + length s) e)"
      by (simp add: reads_def)
  qed
qed

lemma reads_alt:
  assumes "reads p s k P" "\<forall>q \<in> set ps. fails q (s @ k)"
  shows "reads (p_alt (ps @ p # qs)) s k P"
  using assms(2) by (induction ps) (auto intro: reads_alt_here reads_alt_next assms(1))

lemma fails_alt_Nil: "fails (p_alt []) u"
  by (simp add: fails_def)

lemma fails_alt_Cons: "fails p u \<Longrightarrow> fails (p_alt ps) u \<Longrightarrow> fails (p_alt (p # ps)) u"
proof (cases ps)
  case (Cons q qs)
  assume p: "fails p u" and ps: "fails (p_alt ps) u"
  show ?thesis
    unfolding fails_def
  proof (intro allI)
    fix n e
    obtain v m where "p (at u n e) = (Backtrack, at v m e)" using p by (rule failsE)
    with ps Cons show "\<exists>v m. p_alt (p # ps) (at u n e) = (Backtrack, at v m e)"
      by (simp add: fails_def)
  qed
qed (simp add: fails_def)

lemmas fails_intros = fails_literal fails_map fails_value fails_preceded fails_terminated fails_pair
  fails_alt_Nil fails_alt_Cons

lemma reads_expect_inner: "reads p s k (\<lambda>x. P (Some x)) \<Longrightarrow> reads (expect_inner p make_err limit) s k P"
  unfolding reads_def expect_inner_def by (metis (mono_tags, lifting) case_prod_conv reply.simps(8))

lemma reads_silent_expect: "reads p s k (\<lambda>x. P (Some x)) \<Longrightarrow> reads (silent_expect p) s k P"
  unfolding reads_def silent_expect_def by (metis (mono_tags, lifting) case_prod_conv reply.simps(8))

lemma reads_peek:
  assumes "reads p s k P"
  shows "reads (p_peek p) [] (s @ k) P"
  unfolding reads_def p_peek_def
proof (intro allI)
  fix n e
  obtain x where "P x" "p (at (s @ k) n e) = (Done x, at k (n + length s) e)" using assms by (rule readsE)
  then show "\<exists>x. P x \<and> (case p (at ([] @ s @ k) n e) of (r, st') \<Rightarrow> (r, reset_to (at ([] @ s @ k) n e) st')) =
      (Done x, at (s @ k) (n + length []) e)" by auto
qed

lemma fails_peek: "fails p u \<Longrightarrow> fails (p_peek p) u"
  unfolding fails_def p_peek_def by (metis (no_types, lifting) case_prod_conv reset_at)

lemma reads_not: "fails p k \<Longrightarrow> reads (p_not p) [] k (\<lambda>_. True)"
  unfolding reads_def
proof (intro allI)
  fix n e
  assume "fails p k"
  then obtain v m where "p (at k n e) = (Backtrack, at v m e)" by (rule failsE)
  then show "\<exists>x. True \<and> p_not p (at ([] @ k) n e) = (Done x, at k (n + length []) e)"
    by (simp add: p_not_def)
qed

lemma reads_repeat_Nil: "fails p k \<Longrightarrow> reads (p_repeat p f acc) [] k (\<lambda>x. x = acc)"
  unfolding reads_def
proof (intro allI)
  fix n e
  assume "fails p k"
  then obtain v m where "p (at k n e) = (Backtrack, at v m e)" by (rule failsE)
  then show "\<exists>x. x = acc \<and> p_repeat p f acc (at ([] @ k) n e) = (Done x, at k (n + length []) e)"
    by (simp add: p_repeat.simps [of p f acc "at k n e"])
qed

lemma reads_repeat_Cons:
  assumes "reads p s (t @ k) P" "s \<noteq> []" "\<And>x. P x \<Longrightarrow> reads (p_repeat p f (f acc x)) t k Q"
  shows "reads (p_repeat p f acc) (s @ t) k Q"
  unfolding reads_def
proof (intro allI)
  fix n e
  obtain x where x: "P x" "p (at (s @ t @ k) n e) = (Done x, at (t @ k) (n + length s) e)"
    using assms(1) by (rule readsE)
  obtain y where "Q y" "p_repeat p f (f acc x) (at (t @ k) (n + length s) e) = (Done y, at k (n + length s + length t) e)"
    using assms(3) [OF x(1)] by (rule readsE)
  with x assms(2) show "\<exists>y. Q y \<and> p_repeat p f acc (at ((s @ t) @ k) n e) = (Done y, at k (n + length (s @ t)) e)"
    by (auto simp: p_repeat.simps [of p f acc "at (s @ t @ k) n e"] add.assoc)
qed


section \<open>White space and keywords\<close>

definition starts_blank :: "string \<Rightarrow> bool" where
  "starts_blank u \<longleftrightarrow> prefix '' '' u \<or> prefix [CHR 0x0A] u \<or> prefix [CHR 0x0D, CHR 0x0A] u"

lemma not_blank_hd: "c \<notin> {CHR '' '', CHR 0x0A, CHR 0x0D} \<Longrightarrow> \<not> starts_blank (c # u)"
  by (auto simp: starts_blank_def)

lemma not_blank_Nil [simp]: "\<not> starts_blank []"
  by (simp add: starts_blank_def)

lemma fails_blank:
  "\<not> starts_blank u \<Longrightarrow> fails (p_alt [p_value () (p_literal '' ''), p_value () line_ending]) u"
  unfolding starts_blank_def line_ending_def by (intro fails_intros) simp_all

text \<open>The printer separates words by at most one space.\<close>

definition spaced :: "string \<Rightarrow> bool" where
  "spaced sp \<longleftrightarrow> sp = [] \<or> sp = '' ''"

lemma spaced_simps [simp]: "spaced []" "spaced '' ''"
  by (simp_all add: spaced_def)

lemma reads_skip_space:
  assumes "spaced sp" "\<not> starts_blank u"
  shows "reads skip_space sp u (\<lambda>_. True)"
proof -
  let ?rep = "p_repeat (p_alt [p_value () (p_literal '' ''), p_value () line_ending]) (\<lambda>_ _. ()) ()"
  have nil: "reads ?rep [] u (\<lambda>_. True)"
    by (rule reads_mono [OF reads_repeat_Nil [OF fails_blank [OF assms(2)]]]) simp
  have space: "reads (p_alt [p_value () (p_literal '' ''), p_value () line_ending]) '' '' k (\<lambda>_. True)" for k
    by (intro reads_alt_here reads_value reads_mono [OF reads_literal]) simp
  have "reads ?rep '' '' u (\<lambda>_. True)"
    using reads_repeat_Cons [OF space, where t = "[]" and k = u and f = "\<lambda>_ _. ()" and acc = "()" and Q = "\<lambda>_. True"] nil by simp
  with nil assms(1) show ?thesis by (auto simp: skip_space_def spaced_def)
qed

lemma reads_ws:
  assumes "spaced sp" "\<not> starts_blank (s @ k)" "reads p s k P"
  shows "reads (ws p) (sp @ s) k P"
  unfolding reads_def
proof (intro allI)
  fix n e
  obtain x where "skip_space (at (sp @ s @ k) n e) = (Done x, at (s @ k) (n + length sp) e)"
    using reads_skip_space [OF assms(1,2)] by (rule readsE)
  moreover obtain y where "P y" "p (at (s @ k) (n + length sp) e) = (Done y, at k (n + length sp + length s) e)"
    using assms(3) by (rule readsE)
  ultimately show "\<exists>y. P y \<and> ws p (at ((sp @ s) @ k) n e) = (Done y, at k (n + length (sp @ s)) e)"
    by (auto simp: ws_def p_then_def add.assoc)
qed

lemma reads_ws0: "\<not> starts_blank (s @ k) \<Longrightarrow> reads p s k P \<Longrightarrow> reads (ws p) s k P"
  using reads_ws [of "[]" s k p P] by simp

lemma fails_ws:
  assumes "spaced sp" "\<not> starts_blank u" "fails p u"
  shows "fails (ws p) (sp @ u)"
  unfolding fails_def
proof (intro allI)
  fix n e
  obtain x where "skip_space (at (sp @ u) n e) = (Done x, at u (n + length sp) e)"
    using reads_skip_space [OF assms(1,2)] by (rule readsE)
  moreover obtain v m where "p (at u (n + length sp) e) = (Backtrack, at v m e)"
    using assms(3) by (rule failsE)
  ultimately show "\<exists>v m. ws p (at (sp @ u) n e) = (Backtrack, at v m e)"
    by (simp add: ws_def p_then_def)
qed

lemma fails_ws0: "\<not> starts_blank u \<Longrightarrow> fails p u \<Longrightarrow> fails (ws p) u"
  using fails_ws [of "[]" u p] by simp

lemma reads_expect_char:
  "c \<notin> {CHR '' '', CHR 0x0A, CHR 0x0D} \<Longrightarrow> reads (expect_char [c] make_err) [c] k (\<lambda>_. True)"
  unfolding expect_char_def
  by (intro reads_expect_inner reads_ws0 reads_mono [OF reads_literal]) (auto simp: starts_blank_def)

text \<open>What the parser relies on: a space is no letter, and platforms are called host and target.\<close>

definition libs_ok :: "syntax_libs \<Rightarrow> (build_platform \<Rightarrow> string) \<Rightarrow> bool" where
  "libs_ok sx bp \<longleftrightarrow> \<not> sx_alphanum sx 32 \<and> bp Host = ''host'' \<and> bp Target = ''target''"

lemma reads_word_boundary:
  assumes "\<not> sx_alphanum sx 32"
  shows "reads (word_boundary sx) [] ('' '' @ k) (\<lambda>_. True)"
proof -
  have "decode_char (CHR '' '') k = 32"
    by (simp add: decode_char_def lead_bits_def utf8_width_def)
  with assms have "fails (one_of (\<lambda>c. sx_alphanum sx c \<or> c = 95)) ('' '' @ k)"
    by (simp add: fails_def one_of_def)
  then have "reads (p_not (one_of (\<lambda>c. sx_alphanum sx c \<or> c = 95))) [] ('' '' @ k) (\<lambda>_. True)"
    by (rule reads_not)
  from reads_peek [OF this] show ?thesis by (simp add: word_boundary_def)
qed

lemma reads_keyword:
  "\<not> sx_alphanum sx 32 \<Longrightarrow> reads (terminated (p_literal s) (word_boundary sx)) s ('' '' @ k) (\<lambda>x. x = s)"
  using reads_terminated [of "p_literal s" s "[]" "'' '' @ k" "\<lambda>x. x = s" "word_boundary sx"]
    reads_literal reads_word_boundary by simp


section \<open>Text\<close>

lemma literal_char_step:
  assumes "\<not> ends_literal c"
  shows "p_repeat parse_fragment push_fragment acc (at (c # u) n e) =
    p_repeat parse_fragment push_fragment (push_fragment acc (Some (LiteralText [c]))) (at u (Suc n) e)"
proof -
  let ?w = "\<lambda>u. takeWhile (\<lambda>c. \<not> ends_literal c) u"
  have fragment: "parse_fragment (at v m e) =
      (Done (Some (LiteralText (?w v))), at (drop (length (?w v)) v) (m + length (?w v)) e)"
    if "?w v \<noteq> []" for v m
    using that by (simp add: parse_fragment_def parse_literal_def p_map_def p_then_def p_verify_def take_till_def
        p_return_def Let_def)
  have longer: "push_fragment (push_fragment a (Some (LiteralText s))) (Some (LiteralText t)) =
      push_fragment a (Some (LiteralText (s @ t)))" for a s t
    by (cases a) simp_all
  have lt: "length (drop (length (?w v)) v) < length v" if "?w v \<noteq> []" for v
    using that by (cases v) auto
  show ?thesis
  proof (cases "?w u")
    case Nil
    with assms fragment [of "c # u" n] show ?thesis
      by (simp add: p_repeat.simps [of parse_fragment push_fragment acc "at (c # u) n e"])
  next
    case (Cons d w)
    then have ne: "?w u \<noteq> []" by simp
    have "p_repeat parse_fragment push_fragment acc (at (c # u) n e) =
        p_repeat parse_fragment push_fragment (push_fragment acc (Some (LiteralText (c # ?w u))))
          (at (drop (length (?w u)) u) (Suc n + length (?w u)) e)"
      using assms fragment [of "c # u" n] lt [of "c # u"]
      by (subst p_repeat.simps) simp
    also have "\<dots> = p_repeat parse_fragment push_fragment (push_fragment acc (Some (LiteralText [c]))) (at u (Suc n) e)"
      using fragment [OF ne, of "Suc n"] lt [OF ne] longer [of acc "[c]" "?w u"]
      by (subst (2) p_repeat.simps) simp
    finally show ?thesis .
  qed
qed

lemma fails_parse_unicode: "\<not> prefix ''u'' u \<Longrightarrow> fails parse_unicode u"
proof -
  assume "\<not> prefix ''u'' u"
  then have "fails (p_map from_hex (preceded (p_literal ''u'')
      (delimited (p_literal ''{'') (take_while_upto 1 6 is_hexdigit) (p_literal ''}'')))) u"
    by (intro fails_intros)
  then show ?thesis
    unfolding fails_def parse_unicode_def p_verify_map_def by (metis (mono_tags, lifting) case_prod_conv reply.simps(9))
qed

lemmas parser_unfold = p_value_def p_map_def p_then_def p_return_def p_literal_def preceded_def terminated_def
  delimited_def p_verify_map_def p_verify_def report_error_def Let_def

lemma escape_letters:
  "parse_escaped_char (at (backslash # CHR ''n'' # k) n e) = (Done (Some 10), at k (n + 2) e)"
  "parse_escaped_char (at (backslash # CHR ''r'' # k) n e) = (Done (Some 13), at k (n + 2) e)"
  "parse_escaped_char (at (backslash # CHR ''t'' # k) n e) = (Done (Some 9), at k (n + 2) e)"
  "parse_escaped_char (at (backslash # backslash # k) n e) = (Done (Some 92), at k (n + 2) e)"
  "parse_escaped_char (at (backslash # CHR ''/'' # k) n e) = (Done (Some 47), at k (n + 2) e)"
  "parse_escaped_char (at (backslash # CHR '')'' # k) n e) = (Done (Some 41), at k (n + 2) e)"
  "parse_escaped_char (at (backslash # CHR '','' # k) n e) = (Done (Some 44), at k (n + 2) e)"
  by (simp_all add: parse_escaped_char_def expect_n_def expect_inner_def valid_escape_def parse_unicode_def parser_unfold)

definition is_quote :: "scalar \<Rightarrow> bool" where
  "is_quote c \<longleftrightarrow> c = 34 \<or> c = 39"

lemma quote_chars: "char_of (34 :: nat) = CHR 0x22" "char_of (39 :: nat) = CHR 0x27"
  "char_of (92 :: nat) = backslash"
  by (simp_all add: char_of_def bit_0)

lemma escape_quote:
  assumes "is_quote c"
  shows "parse_escaped_char (at (backslash # char_of c # k) n e) =
    (Done None, at (char_of c # k) (Suc n) (e @ [InvalidEscapeCharacter (n, min (Suc (length k)) 2)]))"
proof -
  have "char_of c = CHR 0x22 \<or> char_of c = CHR 0x27" using assms quote_chars by (auto simp: is_quote_def)
  then show ?thesis
    by (elim disjE; simp add: parse_escaped_char_def expect_n_def expect_inner_def valid_escape_def
        parse_unicode_def parser_unfold error_span_def)
qed

lemma take_hex_digits:
  assumes "h \<noteq> []" "length h \<le> 6" "\<forall>c \<in> set h. is_hexdigit c"
  shows "take_while_upto 1 6 is_hexdigit (at (h @ CHR ''}'' # k) n e) = (Done h, at (CHR ''}'' # k) (n + length h) e)"
proof -
  have "takeWhile is_hexdigit (h @ CHR ''}'' # k) = h"
    using assms(3) by (simp add: is_hexdigit_def)
  with assms show ?thesis by (simp add: take_while_upto_def Let_def Suc_le_eq)
qed

lemma escape_hex:
  assumes "is_scalar c"
  shows "parse_escaped_char (at ([backslash] @ ''u{'' @ show_hex c @ ''}'' @ k) n e) =
    (Done (Some c), at k (n + 4 + length (show_hex c)) e)"
proof -
  have "c < 16 ^ Suc 5" using assms by (auto simp: is_scalar_def)
  then have "length (show_hex c) \<le> 6" using show_hex_length [of c 5] by simp
  then have "take_while_upto 1 6 is_hexdigit (at (show_hex c @ CHR ''}'' # k) m e) =
      (Done (show_hex c), at (CHR ''}'' # k) (m + length (show_hex c)) e)" for m
    by (intro take_hex_digits show_hex_not_Nil) (auto dest: show_hex_digits)
  then show ?thesis
    using assms
    by (simp add: parse_escaped_char_def expect_n_def expect_inner_def valid_escape_def parse_unicode_def
        parser_unfold from_hex_show_hex char_from_u32_def)
qed

lemma fragment_escaped:
  "parse_fragment (at (backslash # u) n e) =
     (case parse_escaped_char (at (backslash # u) n e) of
        (Done x, st) \<Rightarrow> (Done (map_option EscapedChar x), st) | (Backtrack, st) \<Rightarrow> (Backtrack, st) | (Stuck, st) \<Rightarrow> (Stuck, st))"
  by (simp add: parse_fragment_def parse_literal_def take_till_def ends_literal_def parser_unfold
      split: prod.splits reply.splits)

text \<open>One character of a text, printed and read.\<close>

definition quote_error :: "nat \<Rightarrow> scalar \<Rightarrow> errors" where
  "quote_error n c = (if is_quote c then [InvalidEscapeCharacter (n, 2)] else [])"

definition push_scalar :: "string option \<Rightarrow> scalar \<Rightarrow> string option" where
  "push_scalar acc c = (if is_quote c then None else map_option (\<lambda>s. s @ utf8 c) acc)"

lemma push_fragment_simps:
  "push_fragment acc (Some (EscapedChar c)) = map_option (\<lambda>s. s @ utf8 c) acc"
  "push_fragment acc (Some (LiteralText t)) = map_option (\<lambda>s. s @ t) acc"
  "push_fragment acc None = None"
  by (cases acc; simp)+

lemma repeat_escaped:
  assumes "parse_escaped_char (at (backslash # u) n e) = (Done x, at v m e')" "length v \<le> length u"
  shows "p_repeat parse_fragment push_fragment acc (at (backslash # u) n e) =
    p_repeat parse_fragment push_fragment (push_fragment acc (map_option EscapedChar x)) (at v m e')"
  using assms by (subst p_repeat.simps) (simp add: fragment_escaped)

lemma display_char_step:
  assumes "is_scalar c" "k \<noteq> []"
  shows "p_repeat parse_fragment push_fragment acc (at (display_char c @ k) n e) =
    p_repeat parse_fragment push_fragment (push_scalar acc c) (at k (n + length (display_char c)) (e @ quote_error n c))"
proof -
  consider (quote) "is_quote c" | (letter) "c \<in> {9, 10, 13, 92, 47, 41, 44}"
    | (plain) "32 \<le> c" "c \<le> 126" "\<not> is_quote c" "c \<notin> {92, 47, 41, 44}"
    | (hex) "c \<notin> {9, 10, 13, 92, 47, 41, 44}" "\<not> is_quote c" "c < 32 \<or> 126 < c"
    by fastforce
  then show ?thesis
  proof cases
    case quote
    have d: "display_char c = [backslash, char_of c]"
      using quote by (auto simp: display_char_def escape_default_def is_quote_def)
    have m: "min (Suc (length k)) 2 = 2" using assms(2) by (cases k) simp_all
    have "p_repeat parse_fragment push_fragment acc (at (display_char c @ k) n e) =
        p_repeat parse_fragment push_fragment None (at (char_of c # k) (Suc n) (e @ [InvalidEscapeCharacter (n, 2)]))"
      using repeat_escaped [OF escape_quote [OF quote, of k n e, unfolded m], of acc]
      by (simp only: d push_fragment_simps append_Cons append_Nil option.map)
    also have "\<dots> = p_repeat parse_fragment push_fragment None (at k (Suc (Suc n)) (e @ [InvalidEscapeCharacter (n, 2)]))"
      using quote quote_chars
      by (subst literal_char_step) (auto simp: is_quote_def ends_literal_def push_fragment_simps)
    finally show ?thesis using quote by (simp add: d push_scalar_def quote_error_def)
  next
    case letter
    then have q: "\<not> is_quote c" by (auto simp: is_quote_def)
    have "\<exists>l. display_char c = [backslash, l] \<and> parse_escaped_char (at (backslash # l # k) n e) = (Done (Some c), at k (n + 2) e)"
      using letter by (elim insertE emptyE) (simp_all add: display_char_def escape_default_def escape_letters quote_chars)
    then obtain l where "display_char c = [backslash, l]"
      "parse_escaped_char (at (backslash # l # k) n e) = (Done (Some c), at k (n + 2) e)" by blast
    with q show ?thesis
      using repeat_escaped [of "l # k" n e "Some c" k "n + 2" e acc]
      by (simp add: push_fragment_simps push_scalar_def quote_error_def)
  next
    case plain
    then have d: "display_char c = [char_of c]"
      by (auto simp: display_char_def escape_default_def is_quote_def)
    have "\<not> ends_literal (char_of c)"
    proof -
      have "c = of_char b" if "char_of c = (b :: char)" for b
        using plain(2) that [symmetric] by simp
      from this [of "CHR '',''"] this [of "CHR '')''"] this [of backslash] plain(4)
      show ?thesis by (auto simp: ends_literal_def)
    qed
    with d plain show ?thesis
      by (simp add: literal_char_step push_fragment_simps push_scalar_def quote_error_def utf8_ascii)
  next
    case hex
    then have d: "display_char c = [backslash] @ ''u{'' @ show_hex c @ ''}''"
      by (auto simp: display_char_def escape_default_def is_quote_def)
    from repeat_escaped [OF escape_hex [OF assms(1), of k n e, simplified], of acc] hex(2)
    show ?thesis by (simp add: d push_fragment_simps push_scalar_def quote_error_def numeral_eq_Suc)
  qed
qed

text \<open>
  A whole text: it is read back unless it has a quotation mark. Each quotation mark is printed with
  a backslash, which the parser does not know and reports.
\<close>

fun quote_errors :: "nat \<Rightarrow> scalar list \<Rightarrow> errors" where
  "quote_errors n [] = []"
| "quote_errors n (c # cs) = quote_error n c @ quote_errors (n + length (display_char c)) cs"

definition quote_free :: "string \<Rightarrow> bool" where
  "quote_free s \<longleftrightarrow> \<not> (\<exists>c \<in> set (chars s). is_quote c)"

lemma display_chars_read:
  assumes "list_all is_scalar cs"
  shows "p_repeat parse_fragment push_fragment acc (at (concat (map display_char cs) @ CHR '')'' # k) n e) =
    (Done (foldl push_scalar acc cs), at (CHR '')'' # k) (n + length (concat (map display_char cs))) (e @ quote_errors n cs))"
  using assms
proof (induction cs arbitrary: acc n e)
  case Nil
  have "parse_fragment (at (CHR '')'' # k) n e) = (Backtrack, at (CHR '')'' # k) n e)"
    by (simp add: parse_fragment_def parse_literal_def take_till_def ends_literal_def parse_escaped_char_def parser_unfold)
  then show ?case by (subst p_repeat.simps) simp
next
  case (Cons c cs)
  then show ?case by (simp add: display_char_step add.assoc)
qed

lemma foldl_push_scalar:
  "foldl push_scalar None cs = None"
  "foldl push_scalar (Some s) cs = (if \<exists>c \<in> set cs. is_quote c then None else Some (s @ str_of cs))"
proof -
  show none: "foldl push_scalar None cs = None" for cs
    by (induction cs) (simp_all add: push_scalar_def)
  show "foldl push_scalar (Some s) cs = (if \<exists>c \<in> set cs. is_quote c then None else Some (s @ str_of cs))"
    by (induction cs arbitrary: s) (simp_all add: push_scalar_def none str_of_def)
qed

lemma parse_string_display:
  assumes "valid_str s"
  shows "parse_string (at (display_parsed_string s @ CHR '')'' # k) n e) =
    (Done (if quote_free s then Some s else None),
     at (CHR '')'' # k) (n + length (display_parsed_string s)) (e @ quote_errors n (chars s)))"
  using assms display_chars_read [of "chars s" "Some []" k n e]
  by (auto simp: valid_str_def parse_string_def display_parsed_string_def foldl_push_scalar quote_free_def)

lemma quote_errors_Nil: "quote_errors n cs = [] \<longleftrightarrow> \<not> (\<exists>c \<in> set cs. is_quote c)"
  by (induction cs arbitrary: n) (auto simp: quote_error_def)

lemma parse_matcher_text_display:
  assumes "valid_str s" "s \<noteq> []"
  shows "parse_matcher_text (at (display_parsed_string s @ CHR '')'' # k) n e) =
    (Done (if quote_free s then Some s else None),
     at (CHR '')'' # k) (n + length (display_parsed_string s)) (e @ quote_errors n (chars s)))"
  using assms(2) parse_string_display [OF assms(1), of k n e]
  by (simp add: parse_matcher_text_def expect_def expect_inner_def parser_unfold)

lemma reads_matcher_text:
  assumes "valid_str s" "s \<noteq> []" "quote_free s"
  shows "reads parse_matcher_text (display_parsed_string s) (CHR '')'' # k) (\<lambda>r. r = Some s)"
proof -
  have "quote_errors n (chars s) = []" for n using assms(3) by (simp add: quote_errors_Nil quote_free_def)
  with parse_matcher_text_display [OF assms(1,2), of k] assms(3) show ?thesis by (simp add: reads_def)
qed


section \<open>Regular expressions\<close>

text \<open>
  A regular expression is read back if it does not end in a backslash and none of its slashes is
  escaped already.
\<close>

fun regex_plain_from :: "bool \<Rightarrow> string \<Rightarrow> bool" where
  "regex_plain_from escaped [] = True"
| "regex_plain_from True (c # cs) = (c \<noteq> CHR ''/'' \<and> regex_plain_from False cs)"
| "regex_plain_from False (c # cs) = regex_plain_from (c = backslash) cs"

definition regex_plain :: "string \<Rightarrow> bool" where
  "regex_plain r \<longleftrightarrow> regex_plain_from False r \<and> (r = [] \<or> last r \<noteq> backslash)"

lemma regex_char_step:
  assumes "\<not> ends_regex_literal c"
  shows "p_repeat parse_regex_frag push_frag acc (at (c # u) n e) =
    p_repeat parse_regex_frag push_frag (acc @ [c]) (at u (Suc n) e)"
proof -
  let ?w = "\<lambda>u. takeWhile (\<lambda>c. \<not> ends_regex_literal c) u"
  have fragment: "parse_regex_frag (at v m e) = (Done (FragLiteral (?w v)), at (drop (length (?w v)) v) (m + length (?w v)) e)"
    if ne: "?w v \<noteq> []" for v m
  proof -
    obtain d v' where v: "v = d # v'" "\<not> ends_regex_literal d" using ne by (cases v) (auto split: if_splits)
    then have "\<not> prefix [backslash, CHR ''/''] v" "\<not> prefix [backslash] v" by (auto simp: ends_regex_literal_def)
    with ne show ?thesis
      by (simp add: parse_regex_frag_def parser_unfold take_till_def)
  qed
  have lt: "length (drop (length (?w v)) v) < length v" if "?w v \<noteq> []" for v
    using that by (cases v) auto
  show ?thesis
  proof (cases "?w u")
    case Nil
    with assms fragment [of "c # u" n] show ?thesis
      by (simp add: p_repeat.simps [of parse_regex_frag push_frag acc "at (c # u) n e"])
  next
    case (Cons d w)
    then have ne: "?w u \<noteq> []" by simp
    have "p_repeat parse_regex_frag push_frag acc (at (c # u) n e) =
        p_repeat parse_regex_frag push_frag (acc @ c # ?w u) (at (drop (length (?w u)) u) (Suc n + length (?w u)) e)"
      using assms fragment [of "c # u" n] lt [of "c # u"]
      by (subst p_repeat.simps) simp
    also have "\<dots> = p_repeat parse_regex_frag push_frag (acc @ [c]) (at u (Suc n) e)"
      using fragment [OF ne, of "Suc n"] lt [OF ne]
      by (subst (2) p_repeat.simps) simp
    finally show ?thesis .
  qed
qed

lemma regex_slash_step:
  "p_repeat parse_regex_frag push_frag acc (at (backslash # CHR ''/'' # u) n e) =
    p_repeat parse_regex_frag push_frag (acc @ ''/'') (at u (n + 2) e)"
  by (subst p_repeat.simps) (simp add: parse_regex_frag_def parser_unfold)

lemma regex_backslash_step:
  "\<not> prefix ''/'' u \<Longrightarrow> p_repeat parse_regex_frag push_frag acc (at (backslash # u) n e) =
    p_repeat parse_regex_frag push_frag (acc @ [backslash]) (at u (Suc n) e)"
  by (subst p_repeat.simps) (simp add: parse_regex_frag_def parser_unfold)

text \<open>After a backslash the next character is not a slash: a slash would be printed with one more.\<close>

lemma display_regex_read:
  assumes "regex_plain_from escaped r" "r = [] \<longrightarrow> \<not> escaped" "r = [] \<or> last r \<noteq> backslash"
  shows "p_repeat parse_regex_frag push_frag acc (at (display_regex_from escaped r @ CHR ''/'' # k) n e) =
    (Done (acc @ r), at (CHR ''/'' # k) (n + length (display_regex_from escaped r)) e)"
  using assms
proof (induction escaped r arbitrary: acc n rule: display_regex_from.induct)
  case (1 escaped)
  have "parse_regex_frag (at (CHR ''/'' # k) n e) = (Backtrack, at (CHR ''/'' # k) n e)"
    by (simp add: parse_regex_frag_def parser_unfold take_till_def ends_regex_literal_def)
  then show ?case by (subst p_repeat.simps) simp
next
  case (2 c cs)
  have rest: "p_repeat parse_regex_frag push_frag acc' (at (display_regex_from False cs @ CHR ''/'' # k) n' e) =
      (Done (acc' @ cs), at (CHR ''/'' # k) (n' + length (display_regex_from False cs)) e)" for acc' n'
    using "2.prems" by (intro "2.IH") (auto split: if_splits)
  show ?case
  proof (cases "c = backslash")
    case True
    have "cs \<noteq> []" using True "2.prems"(3) by auto
    then have "\<not> prefix ''/'' (display_regex_from False cs @ CHR ''/'' # k)"
      by (cases cs) auto
    with True show ?thesis by (simp add: regex_backslash_step rest)
  next
    case False
    with "2.prems"(1) have "\<not> ends_regex_literal c" by (simp add: ends_regex_literal_def)
    then show ?thesis by (simp add: regex_char_step rest)
  qed
next
  case (3 c cs)
  consider (bs) "c = backslash" | (slash) "c = CHR ''/''" | (other) "c \<noteq> backslash" "c \<noteq> CHR ''/''" by blast
  then show ?case
  proof cases
    case bs
    then have ne: "cs \<noteq> []" using "3.prems"(3) by auto
    then obtain d ds where cs: "cs = d # ds" by (cases cs) auto
    then have "\<not> prefix ''/'' (display_regex_from True cs @ CHR ''/'' # k)" using "3.prems"(1) bs by auto
    moreover have "p_repeat parse_regex_frag push_frag (acc @ [backslash]) (at (display_regex_from True cs @ CHR ''/'' # k) (Suc n) e) =
      (Done ((acc @ [backslash]) @ cs), at (CHR ''/'' # k) (Suc n + length (display_regex_from True cs)) e)"
      using "3.prems" bs ne by (intro "3.IH"(1)) auto
    ultimately show ?thesis using bs by (simp add: regex_backslash_step)
  next
    case slash
    have "p_repeat parse_regex_frag push_frag (acc @ ''/'') (at (display_regex_from False cs @ CHR ''/'' # k) (n + 2) e) =
      (Done ((acc @ ''/'') @ cs), at (CHR ''/'' # k) (n + 2 + length (display_regex_from False cs)) e)"
      using "3.prems" slash by (intro "3.IH"(2)) (auto split: if_splits)
    with slash show ?thesis by (simp add: regex_slash_step)
  next
    case other
    have "p_repeat parse_regex_frag push_frag (acc @ [c]) (at (display_regex_from False cs @ CHR ''/'' # k) (Suc n) e) =
      (Done ((acc @ [c]) @ cs), at (CHR ''/'' # k) (Suc n + length (display_regex_from False cs)) e)"
      using "3.prems" other by (intro "3.IH"(3)) (auto split: if_splits)
    moreover have "\<not> ends_regex_literal c" using other by (simp add: ends_regex_literal_def)
    ultimately show ?thesis using other by (simp add: regex_char_step)
  qed
qed

lemma reads_regex:
  assumes "regex_plain r" "sx_regex_new sx r"
  shows "reads (parse_regex sx) (display_parsed_regex r) (CHR ''/'' # k) (\<lambda>x. x = Some (Regex r))"
proof -
  have "parse_regex_inner (at (display_regex_from False r @ CHR ''/'' # k) n e) =
      (Done r, at (CHR ''/'' # k) (n + length (display_regex_from False r)) e)" for n e
    using display_regex_read [of False r "[]" k n e] assms(1)
    by (simp add: regex_plain_def parse_regex_inner_def parser_unfold p_peek_def)
  with assms(2) show ?thesis by (simp add: reads_def parse_regex_def display_parsed_regex_def)
qed


section \<open>Matchers and sets\<close>

text \<open>
  The texts that survive: characters other than quotation marks, and for an implicit matcher no
  first character that means something else in front of a text.
\<close>

definition printable_text :: "bool \<Rightarrow> string \<Rightarrow> bool" where
  "printable_text implicit s \<longleftrightarrow>
     valid_str s \<and> quote_free s \<and> (implicit \<longrightarrow> s = [] \<or> hd s \<notin> {CHR '' '', CHR ''='', CHR ''~'', CHR ''#''})"

fun printable_matcher :: "name_matcher \<Rightarrow> bool" where
  "printable_matcher (Equal value implicit) = printable_text implicit value"
| "printable_matcher (Contains value implicit) = printable_text implicit value"
| "printable_matcher (Glob glob implicit) = printable_text implicit (glob_str glob)"
| "printable_matcher (Regex r) = regex_plain r"

fun printable_leaf :: "parsed_leaf \<Rightarrow> bool" where
  "printable_leaf (PPackage m _) = printable_matcher m"
| "printable_leaf (PDeps m _) = printable_matcher m"
| "printable_leaf (PRdeps m _) = printable_matcher m"
| "printable_leaf (PKind m _) = printable_matcher m"
| "printable_leaf (PBinary m _) = printable_matcher m"
| "printable_leaf (PBinaryId m _) = printable_matcher m"
| "printable_leaf (PPlatform _ _) = True"
| "printable_leaf (PTest m _) = printable_matcher m"
| "printable_leaf (PGroup m _) = printable_matcher m"
| "printable_leaf (PDefault _) = True"
| "printable_leaf PAll = True"
| "printable_leaf PNone = True"

lemma display_char_first:
  assumes "is_scalar c"
  shows "(\<exists>u. display_char c = backslash # u) \<or> 32 \<le> c \<and> c \<le> 126 \<and> c \<noteq> 47 \<and> display_char c = [char_of c]"
  by (auto simp: display_char_def escape_default_def)

lemma display_text_first:
  assumes "valid_str s" "s \<noteq> []"
  shows "\<exists>c u. display_parsed_string s = c # u \<and> (c = backslash \<or> c = hd s \<and> c \<noteq> CHR ''/'' \<and> 32 \<le> (of_char c :: nat))"
proof -
  obtain x xs where x: "chars s = x # xs" using assms(2) by (cases s) simp_all
  with assms(1) have sc: "is_scalar x" and s: "s = utf8 x @ str_of xs"
    by (auto simp: valid_str_def str_of_def)
  show ?thesis
  proof (cases "\<exists>u. display_char x = backslash # u")
    case True
    with x show ?thesis by (auto simp: display_parsed_string_def)
  next
    case False
    with display_char_first [OF sc] have p: "32 \<le> x" "x \<le> 126" "x \<noteq> 47" "display_char x = [char_of x]" by auto
    have b: "of_char (char_of x :: char) = x" using p(2) by simp
    have "char_of x \<noteq> CHR ''/''"
    proof
      assume "char_of x = CHR ''/''"
      with b have "x = of_char (CHR ''/'')" by metis
      with p(3) show False by simp
    qed
    with p b x s show ?thesis by (auto simp: display_parsed_string_def utf8_ascii)
  qed
qed

definition ordinary_start :: "string \<Rightarrow> bool" where
  "ordinary_start u \<longleftrightarrow> u \<noteq> [] \<and>
     hd u \<notin> {CHR '' '', CHR 0x0A, CHR 0x0D, CHR ''='', CHR ''~'', CHR ''#'', CHR ''/''}"

lemma ordinary_implicit:
  assumes "printable_text True s" "s \<noteq> []"
  shows "ordinary_start (display_parsed_string s @ k)"
proof -
  have "32 \<le> (of_char c :: nat) \<Longrightarrow> c \<noteq> CHR 0x0A \<and> c \<noteq> CHR 0x0D" for c by auto
  with display_text_first [of s] assms show ?thesis
    by (auto simp: printable_text_def ordinary_start_def)
qed

lemma ordinary_fails:
  assumes "ordinary_start u"
  shows "\<not> starts_blank u" "fails (parse_regex_matcher sx) u" "fails (parse_glob_matcher sx) u"
    "fails parse_equal_matcher u" "fails parse_contains_matcher u"
proof -
  obtain c v where u: "u = c # v" and c: "c \<notin> {CHR '' '', CHR 0x0A, CHR 0x0D, CHR ''='', CHR ''~'', CHR ''#'', CHR ''/''}"
    using assms by (cases u) (auto simp: ordinary_start_def)
  show b: "\<not> starts_blank u" unfolding u by (rule not_blank_hd) (use c in simp)
  show "fails (parse_regex_matcher sx) u" "fails (parse_glob_matcher sx) u"
    "fails parse_equal_matcher u" "fails parse_contains_matcher u"
    unfolding parse_regex_matcher_def parse_glob_matcher_def parse_equal_matcher_def parse_contains_matcher_def
      delimited_def
    by (intro fails_ws0 b fails_intros; use c u in auto)+
qed

lemma reads_glob_text:
  assumes "valid_str s" "s \<noteq> []" "quote_free s" "generic_glob_new sx s = Inr g"
  shows "reads (parse_glob sx implicit) (display_parsed_string s) (CHR '')'' # k) (\<lambda>r. r = Some (Glob g implicit))"
proof -
  show ?thesis
    unfolding parse_glob_def
  proof (intro reads_then0 [OF reads_location] reads_then_end [OF reads_matcher_text [OF assms(1-3)]])
    fix start :: nat and res
    assume "res = Some s"
    with assms(4) show "reads (case res of None \<Rightarrow> p_return None
       | Some parsed_value \<Rightarrow> (case generic_glob_new sx parsed_value of
             Inr glob \<Rightarrow> p_return (Some (Glob glob implicit))
           | Inl error \<Rightarrow> p_then location (\<lambda>fin.
               p_value None (report_error (InvalidGlob (start, fin - start) error))))) []
      (CHR '')'' # k) (\<lambda>r. r = Some (Glob g implicit))"
      by (simp add: reads_return)
  qed
qed

lemma reads_text_map:
  assumes "valid_str s" "s \<noteq> []" "quote_free s"
  shows "reads (p_map (map_option f) parse_matcher_text) (display_parsed_string s) (CHR '')'' # k) (\<lambda>r. r = Some (f s))"
  by (rule reads_map, rule reads_mono [OF reads_matcher_text [OF assms]]) simp

lemma reads_prefixed:
  assumes "reads p s k P"
  shows "reads (preceded (p_literal c) p) (c @ s) k P"
  by (rule reads_preceded [OF reads_literal assms])

lemma reads_default_matcher:
  assumes "matcher_from sx d m" "printable_matcher m" "display_matcher m = display_parsed_string s"
    "m = Equal s True \<or> m = Contains s True \<or> (\<exists>g. m = Glob g True \<and> s = glob_str g)"
  shows "reads (default_matcher_parser sx d) (display_matcher m) (CHR '')'' # k) (\<lambda>r. r = Some m)"
  using assms
  by (elim disjE exE conjE)
    (auto simp: printable_text_def implicit_equal_def implicit_contains_def
      intro: reads_text_map reads_glob_text reads_mono [OF reads_text_map])

lemma matcher_fails:
  assumes "c \<notin> {CHR '' '', CHR 0x0A, CHR 0x0D}"
  shows "c \<noteq> CHR ''/'' \<Longrightarrow> fails (parse_regex_matcher sx) (c # u)"
    "c \<noteq> CHR ''#'' \<Longrightarrow> fails (parse_glob_matcher sx) (c # u)"
    "c \<noteq> CHR ''='' \<Longrightarrow> fails parse_equal_matcher (c # u)"
    "c \<noteq> CHR ''~'' \<Longrightarrow> fails parse_contains_matcher (c # u)"
  unfolding parse_regex_matcher_def parse_glob_matcher_def parse_equal_matcher_def parse_contains_matcher_def
    delimited_def
  using not_blank_hd [OF assms] by (auto intro!: fails_ws0 fails_intros)

lemma reads_explicit:
  assumes "printable_text False s" "s \<noteq> []"
  shows "reads parse_equal_matcher (''='' @ display_parsed_string s) (CHR '')'' # k) (\<lambda>r. r = Some (Equal s False))"
    "reads parse_contains_matcher (''~'' @ display_parsed_string s) (CHR '')'' # k) (\<lambda>r. r = Some (Contains s False))"
    "generic_glob_new sx s = Inr g \<Longrightarrow>
       reads (parse_glob_matcher sx) (''#'' @ display_parsed_string s) (CHR '')'' # k) (\<lambda>r. r = Some (Glob g False))"
proof -
  have s: "valid_str s" "quote_free s" using assms(1) by (simp_all add: printable_text_def)
  have nb: "\<not> starts_blank ((c # t) @ v)" if "c \<in> {CHR ''='', CHR ''~'', CHR ''#''}" for c t v
    using that not_blank_hd [of c] by auto
  have read_map: "reads (p_map (map_option f) (preceded (p_literal c) parse_matcher_text))
      (c @ display_parsed_string s) (CHR '')'' # k) (\<lambda>r. r = Some (f s))" for f :: "string \<Rightarrow> name_matcher" and c
    by (rule reads_map, rule reads_prefixed, rule reads_mono [OF reads_matcher_text]) (use s assms in simp_all)
  show "reads parse_equal_matcher (''='' @ display_parsed_string s) (CHR '')'' # k) (\<lambda>r. r = Some (Equal s False))"
    unfolding parse_equal_matcher_def
    by (rule reads_ws0) (use nb read_map [of "\<lambda>v. Equal v False" "''=''"] in auto)
  show "reads parse_contains_matcher (''~'' @ display_parsed_string s) (CHR '')'' # k) (\<lambda>r. r = Some (Contains s False))"
    unfolding parse_contains_matcher_def using read_map [of "\<lambda>v. Contains v False" "''~''"] by simp
  show "reads (parse_glob_matcher sx) (''#'' @ display_parsed_string s) (CHR '')'' # k) (\<lambda>r. r = Some (Glob g False))"
    if "generic_glob_new sx s = Inr g"
    unfolding parse_glob_matcher_def
    by (rule reads_ws0, use nb in auto, rule reads_prefixed [where c = "''#''", simplified])
      (use reads_glob_text [OF s(1) assms(2) s(2) that, of False k] in simp)
qed

lemma reads_regex_matcher:
  assumes "regex_plain r" "sx_regex_new sx r"
  shows "reads (parse_regex_matcher sx) (''/'' @ display_parsed_regex r @ ''/'') k (\<lambda>x. x = Some (Regex r))"
proof -
  have "reads (ws (p_literal ''/'')) ''/'' k (\<lambda>x. x = ''/'')"
    by (rule reads_ws0 [OF _ reads_literal]) (auto simp: starts_blank_def)
  moreover have "reads (parse_regex sx) (display_parsed_regex r) (''/'' @ k) (\<lambda>x. x = Some (Regex r))"
    using reads_regex [OF assms] by simp
  ultimately have "reads (terminated (parse_regex sx) (silent_expect (ws (p_literal ''/''))))
      (display_parsed_regex r @ ''/'') k (\<lambda>x. x = Some (Regex r))"
    by (intro reads_terminated reads_silent_expect) (auto intro: reads_mono)
  then show ?thesis
    unfolding parse_regex_matcher_def delimited_def
    by (intro reads_ws0 reads_prefixed) (auto simp: starts_blank_def)
qed

lemma reads_set_matcher:
  assumes matcher: "matcher_from sx d m" and print: "printable_matcher m"
  shows "reads (set_matcher sx d) (display_matcher m) (CHR '')'' # k) (\<lambda>r. r = Some m)"
proof -
  let ?alts = "[parse_regex_matcher sx, parse_glob_matcher sx, parse_equal_matcher, parse_contains_matcher,
     default_matcher_parser sx d]"
  have implicit: "reads (p_alt ?alts) (display_matcher m) (CHR '')'' # k) (\<lambda>r. r = Some m) \<and>
      \<not> starts_blank (display_matcher m @ CHR '')'' # k)"
    if m: "m = Equal s True \<or> m = Contains s True \<or> (\<exists>g. m = Glob g True \<and> s = glob_str g)" for s
  proof -
    have d: "display_matcher m = display_parsed_string s" and s: "printable_text True s" "s \<noteq> []"
      using m matcher print by auto
    note ord = ordinary_fails [OF ordinary_implicit [OF s, of "CHR '')'' # k"]]
    show ?thesis
      using reads_alt [where qs = "[]" and ps = "[parse_regex_matcher sx, parse_glob_matcher sx, parse_equal_matcher,
          parse_contains_matcher]", OF reads_default_matcher [OF matcher print d m, of k]] ord
      unfolding d by simp
  qed
  have explicit: "\<not> starts_blank (c # t)" "c \<noteq> CHR ''/'' \<Longrightarrow> fails (parse_regex_matcher sx) (c # t)"
      "c \<noteq> CHR ''#'' \<Longrightarrow> fails (parse_glob_matcher sx) (c # t)"
      "c \<noteq> CHR ''='' \<Longrightarrow> fails parse_equal_matcher (c # t)"
    if "c \<in> {CHR ''='', CHR ''~'', CHR ''#'', CHR ''/''}" for c t
    using that not_blank_hd [of c t] matcher_fails(1-3) [of c] by auto
  have "reads (p_alt ?alts) (display_matcher m) (CHR '')'' # k) (\<lambda>r. r = Some m) \<and> \<not> starts_blank (display_matcher m @ CHR '')'' # k)"
  proof (cases m)
    case (Equal s i)
    show ?thesis
    proof (cases i)
      case False
      with Equal matcher print show ?thesis
        using reads_alt [where ps = "[parse_regex_matcher sx, parse_glob_matcher sx]", OF reads_explicit(1) [of s k]]
          explicit by simp
    qed (use implicit Equal in blast)
  next
    case (Contains s i)
    show ?thesis
    proof (cases i)
      case False
      with Contains matcher print show ?thesis
        using reads_alt [where ps = "[parse_regex_matcher sx, parse_glob_matcher sx, parse_equal_matcher]",
            OF reads_explicit(2) [of s k]] explicit by simp
    qed (use implicit Contains in blast)
  next
    case (Glob g i)
    show ?thesis
    proof (cases i)
      case False
      with Glob matcher print show ?thesis
        using reads_alt [where ps = "[parse_regex_matcher sx]", OF reads_explicit(3) [of "glob_str g" sx g k]]
          explicit by simp
    qed (use implicit Glob in blast)
  next
    case (Regex r)
    with matcher print show ?thesis
      using reads_alt_here [OF reads_regex_matcher [of r sx "CHR '')'' # k"]] explicit by simp
  qed
  then show ?thesis unfolding set_matcher_def by (intro reads_ws0) simp_all
qed

lemma reads_recover: "reads recover_unexpected_comma [] ('')'' @ k) (\<lambda>_. True)"
  unfolding reads_def
proof (intro allI)
  fix n e
  have "fails (p_peek (ws (p_literal '',''))) ('')'' @ k)"
    by (intro fails_peek fails_ws0 fails_literal) (auto simp: starts_blank_def)
  then obtain v m where "p_peek (ws (p_literal '','')) (at ('')'' @ k) n e) = (Backtrack, at v m e)" by (rule failsE)
  then show "\<exists>x. True \<and> recover_unexpected_comma (at ([] @ '')'' @ k) n e) = (Done x, at ('')'' @ k) (n + length []) e)"
    by (simp add: recover_unexpected_comma_def)
qed

lemma reads_close: "reads (expect_char '')'' make_err) '')'' k (\<lambda>_. True)"
  by (rule reads_expect_char) simp

lemma reads_unary_set_def:
  assumes "matcher_from sx d m" "printable_matcher m"
  shows "reads (unary_set_def sx name d make_set) (name @ ''('' @ display_matcher m @ '')'') k
           (\<lambda>r. \<exists>sp. r = Some (make_set m sp))"
  unfolding unary_set_def_def
proof (rule reads_then [OF reads_literal], rule reads_then [OF reads_expect_char], simp,
    rule reads_then0 [OF reads_location], rule reads_then)
  show "reads (set_matcher sx d) (display_matcher m) ('')'' @ k) (\<lambda>r. r = Some m)"
    using reads_set_matcher [OF assms] by simp
next
  fix start :: nat and res
  assume "res = Some m"
  then show "reads (p_then location (\<lambda>fin. p_then recover_unexpected_comma
      (\<lambda>_. p_then (expect_char '')'' ExpectedCloseParenthesis)
      (\<lambda>_. p_return (map_option (\<lambda>matcher. make_set matcher (start, fin - start)) res))))) '')'' k
      (\<lambda>r. \<exists>sp. r = Some (make_set m sp))"
    by (intro reads_then0 [OF reads_location] reads_then0 [OF reads_recover]
        reads_then_end [OF reads_close] reads_return) auto
qed

lemma reads_take_till:
  assumes "\<forall>c \<in> set s. \<not> P c" "P b"
  shows "reads (take_till 0 P) s (b # k) (\<lambda>x. x = s)"
proof -
  have "takeWhile (\<lambda>c. \<not> P c) (s @ b # k) = s" using assms by simp
  then show ?thesis by (simp add: reads_def take_till_def)
qed

lemma reads_nullary_set_def:
  "reads (nullary_set_def name make_set) (name @ ''()'') k (\<lambda>r. \<exists>sp. r = Some (make_set sp))"
proof -
  have take: "reads (take_till 0 is_close_paren) [] ('')'' @ k) (\<lambda>x. x = [])"
    using reads_take_till [of "[]" is_close_paren "CHR '')''" k] by (simp add: is_close_paren_def)
  have "reads (nullary_set_def name make_set) (name @ ''('' @ '')'') k (\<lambda>r. \<exists>sp. r = Some (make_set sp))"
    unfolding nullary_set_def_def
  proof (rule reads_then0 [OF reads_location], rule reads_then [OF reads_literal],
      rule reads_then [OF reads_expect_char], simp, rule reads_then0 [OF reads_location], rule reads_then0 [OF take])
    fix start loc :: nat and res :: string
    assume "res = []"
    moreover have "str_trim [] = []" by (simp add: str_trim_def str_of_def)
    ultimately show "reads (p_then (if str_trim res \<noteq> [] then report_error (UnexpectedArgument (loc, length res)) else p_return ())
        (\<lambda>_. p_then (expect_char '')'' ExpectedCloseParenthesis) (\<lambda>_. p_then location
        (\<lambda>fin. p_return (Some (make_set (start, fin - start))))))) '')'' k (\<lambda>r. \<exists>sp. r = Some (make_set sp))"
      by (auto intro!: reads_then0 [OF reads_return [of "\<lambda>_. True"]] reads_then_end [OF reads_close]
          reads_then_end [OF reads_location] reads_return)
  qed
  then show ?thesis by simp
qed

lemma reads_platform_def:
  assumes "libs_ok sx bp"
  shows "reads platform_def (''platform('' @ bp p @ '')'') k (\<lambda>r. \<exists>sp. r = Some (PPlatform p sp))"
proof -
  have p: "(p = Host \<and> bp p = ''host'') \<or> (p = Target \<and> bp p = ''target'')"
    using assms by (cases p) (simp_all add: libs_ok_def)
  have ascii: "valid_str s" "quote_free s" "display_parsed_string s = s" "str_trim s = s" "\<not> starts_blank (s @ v)"
    if "s = ''host'' \<or> s = ''target''" for s v
    using that by (auto simp: valid_str_def quote_free_def display_parsed_string_def str_trim_def is_scalar_def
        is_quote_def decode_char_def utf8_width_def lead_bits_def str_of_def utf8_def display_char_def
        escape_default_def is_whitespace_def starts_blank_def char_of_def bit_0 Let_def)
  have matcher: "reads (ws parse_matcher_text) (bp p) ('')'' @ k) (\<lambda>r. r = Some (bp p))"
    using reads_ws0 [OF ascii(5) reads_matcher_text [OF ascii(1), of "bp p" k]] ascii [of "bp p"] p by auto
  have "reads platform_def (''platform'' @ ''('' @ bp p @ '')'') k (\<lambda>r. \<exists>sp. r = Some (PPlatform p sp))"
    unfolding platform_def_def
  proof (rule reads_then [OF reads_literal], rule reads_then [OF reads_expect_char], simp,
      rule reads_then0 [OF reads_location], rule reads_then [OF matcher], rule reads_then0 [OF reads_location],
      rule reads_then0, rule reads_recover, rule reads_then_end [OF reads_close])
    fix start fin :: nat and res
    assume "res = Some (bp p)"
    with p ascii(4) [of "bp p"] have choose: "(case map_option str_trim res of None \<Rightarrow> p_return None
         | Some s \<Rightarrow> if s = ''host'' then p_return (Some Host) else if s = ''target'' then p_return (Some Target)
                     else p_value None (report_error (InvalidPlatformArgument (start, fin - start)))) = p_return (Some p)"
      by auto
    show "reads (p_then (case map_option str_trim res of None \<Rightarrow> p_return None
         | Some s \<Rightarrow> if s = ''host'' then p_return (Some Host) else if s = ''target'' then p_return (Some Target)
                     else p_value None (report_error (InvalidPlatformArgument (start, fin - start))))
        (\<lambda>platform. p_return (map_option (\<lambda>p. PPlatform p (start, fin - start)) platform))) [] k
        (\<lambda>r. \<exists>sp. r = Some (PPlatform p sp))"
      unfolding choose by (rule reads_then0 [OF reads_return [of "\<lambda>x. x = Some p"]]) (auto intro: reads_return)
  qed
  then show ?thesis by simp
qed

text \<open>Leaves that can be read back: what a set definition stands for, with texts that survive.\<close>

definition displayable_leaf :: "syntax_libs \<Rightarrow> parsed_leaf \<Rightarrow> bool" where
  "displayable_leaf sx l \<longleftrightarrow> leaf_from sx 0 (leaf_drop_span l) \<and> printable_leaf l"

lemma fails_set_def:
  "\<not> prefix name u \<Longrightarrow> fails (unary_set_def sx name d make_set) u"
  "\<not> prefix name u \<Longrightarrow> fails (nullary_set_def name make_set') u"
  "\<not> prefix ''platform'' u \<Longrightarrow> fails platform_def u"
  unfolding unary_set_def_def nullary_set_def_def platform_def_def
  by (intro fails_then fails_location fails_literal; assumption)+

lemma reads_parse_set_def:
  assumes libs: "libs_ok sx bp" and l: "displayable_leaf sx l"
  shows "reads (parse_set_def sx) (display_leaf bp l) k (\<lambda>r. \<exists>l'. r = Some l' \<and> leaf_drop_span l' = leaf_drop_span l)"
proof -
  let ?P = "\<lambda>r. \<exists>l'. r = Some l' \<and> leaf_drop_span l' = leaf_drop_span l"
  let ?unary = "\<lambda>name d make. unary_set_def sx name d make"
  let ?a1 = "?unary ''package'' DefaultGlob PPackage" and ?a2 = "?unary ''deps'' DefaultGlob PDeps"
    and ?a3 = "?unary ''rdeps'' DefaultGlob PRdeps" and ?a4 = "?unary ''kind'' DefaultEqual PKind"
    and ?a5 = "?unary ''binary_id'' DefaultGlob PBinaryId" and ?a6 = "?unary ''binary'' DefaultGlob PBinary"
    and ?a7 = "?unary ''test'' DefaultContains PTest" and ?b1 = "?unary ''group'' DefaultGlob PGroup"
    and ?b3 = "nullary_set_def ''default'' PDefault" and ?b4 = "nullary_set_def ''all'' (\<lambda>_. PAll)"
    and ?b5 = "nullary_set_def ''none'' (\<lambda>_. PNone)"
  let ?inner = "p_alt [?b1, platform_def, ?b3, ?b4, ?b5]"
  let ?alts = "[?a1, ?a2, ?a3, ?a4, ?a5, ?a6, ?a7, ?inner]"
  have unary: "reads (?unary name d make) (name @ ''('' @ display_matcher m @ '')'') k ?P"
    if "matcher_from sx d m" "printable_matcher m" "\<And>sp. leaf_drop_span (make m sp) = leaf_drop_span l" for name d make m
    by (rule reads_mono [OF reads_unary_set_def [OF that(1,2)]]) (use that(3) in auto)
  have nullary: "reads (nullary_set_def name make) (name @ ''()'') k ?P"
    if "\<And>sp. leaf_drop_span (make sp) = leaf_drop_span l" for name make
    by (rule reads_mono [OF reads_nullary_set_def]) (use that in auto)
  have inner: "reads (p_alt ?alts) (display_leaf bp l) k ?P"
    if "reads ?inner (display_leaf bp l) k ?P"
      "\<And>name. name \<in> {''package'', ''deps'', ''rdeps'', ''kind'', ''binary_id'', ''binary'', ''test''} \<Longrightarrow>
         \<not> prefix name (display_leaf bp l @ k)"
    using reads_alt [where ps = "[?a1, ?a2, ?a3, ?a4, ?a5, ?a6, ?a7]" and qs = "[]", OF that(1)] that(2)
    by (simp add: fails_set_def)
  have "reads (p_alt ?alts) (display_leaf bp l) k ?P"
  proof (cases l)
    case (PPackage m sp)
    with l show ?thesis
      using reads_alt [where ps = "[]" and p = ?a1, OF unary [where name = "''package''" and make = PPackage and m = m]]
      by (simp add: displayable_leaf_def)
  next
    case (PDeps m sp)
    with l show ?thesis
      using reads_alt [where ps = "[?a1]" and p = ?a2, OF unary [where name = "''deps''" and make = PDeps and m = m]]
      by (simp add: displayable_leaf_def fails_set_def)
  next
    case (PRdeps m sp)
    with l show ?thesis
      using reads_alt [where ps = "[?a1, ?a2]" and p = ?a3, OF unary [where name = "''rdeps''" and make = PRdeps and m = m]]
      by (simp add: displayable_leaf_def fails_set_def)
  next
    case (PKind m sp)
    with l show ?thesis
      using reads_alt [where ps = "[?a1, ?a2, ?a3]" and p = ?a4, OF unary [where name = "''kind''" and make = PKind and m = m]]
      by (simp add: displayable_leaf_def fails_set_def)
  next
    case (PBinaryId m sp)
    with l show ?thesis
      using reads_alt [where ps = "[?a1, ?a2, ?a3, ?a4]" and p = ?a5,
          OF unary [where name = "''binary_id''" and make = PBinaryId and m = m]]
      by (simp add: displayable_leaf_def fails_set_def)
  next
    case (PBinary m sp)
    with l show ?thesis
      using reads_alt [where ps = "[?a1, ?a2, ?a3, ?a4, ?a5]" and p = ?a6,
          OF unary [where name = "''binary''" and make = PBinary and m = m]]
      by (simp add: displayable_leaf_def fails_set_def)
  next
    case (PTest m sp)
    with l show ?thesis
      using reads_alt [where ps = "[?a1, ?a2, ?a3, ?a4, ?a5, ?a6]" and p = ?a7,
          OF unary [where name = "''test''" and make = PTest and m = m]]
      by (simp add: displayable_leaf_def fails_set_def)
  next
    case (PGroup m sp)
    with l have "reads ?inner (display_leaf bp l) k ?P"
      using reads_alt [where ps = "[]" and p = ?b1, OF unary [where name = "''group''" and make = PGroup and m = m]]
      by (simp add: displayable_leaf_def)
    then show ?thesis by (rule inner) (auto simp: PGroup)
  next
    case (PPlatform p sp)
    have "reads platform_def (display_leaf bp l) k ?P"
      unfolding PPlatform display_leaf.simps by (rule reads_mono [OF reads_platform_def [OF libs]]) auto
    from reads_alt [where ps = "[?b1]", OF this] have "reads ?inner (display_leaf bp l) k ?P"
      by (simp add: fails_set_def PPlatform)
    then show ?thesis by (rule inner) (auto simp: PPlatform)
  next
    case (PDefault sp)
    then have "reads ?inner (display_leaf bp l) k ?P"
      using reads_alt [where ps = "[?b1, platform_def]" and p = ?b3, OF nullary [where name = "''default''" and make = PDefault]]
      by (simp add: fails_set_def)
    then show ?thesis by (rule inner) (auto simp: PDefault)
  next
    case PAll
    then have "reads ?inner (display_leaf bp l) k ?P"
      using reads_alt [where ps = "[?b1, platform_def, ?b3]" and p = ?b4, OF nullary [where name = "''all''" and make = "\<lambda>_. PAll"]]
      by (simp add: fails_set_def)
    then show ?thesis by (rule inner) (auto simp: PAll)
  next
    case PNone
    then have "reads ?inner (display_leaf bp l) k ?P"
      using reads_alt [where ps = "[?b1, platform_def, ?b3, ?b4]" and p = ?b5, OF nullary [where name = "''none''" and make = "\<lambda>_. PNone"]]
      by (simp add: fails_set_def)
    then show ?thesis by (rule inner) (auto simp: PNone)
  qed
  moreover have "\<not> starts_blank (display_leaf bp l @ k)" by (cases l) (auto simp: starts_blank_def)
  ultimately show ?thesis unfolding parse_set_def_def by (intro reads_ws0)
qed

end
