(* ===== verification/Filterset_Round_Trip.thy ===== *)
theory Filterset_Round_Trip
  imports Filterset_Display
begin

text \<open>
  Printed expressions are read back: the operators, then the three levels of the grammar, each in a
  form that leaves open what follows (\<open>reads_level\<close>), so that an operand is read with the operators
  behind it.
\<close>

section \<open>Operators\<close>

abbreviation no_and_operator :: "syntax_libs \<Rightarrow> string \<Rightarrow> bool" where
  "no_and_operator sx u \<equiv> fails (parse_and_or_difference_operator sx) u"

abbreviation no_or_operator :: "syntax_libs \<Rightarrow> string \<Rightarrow> bool" where
  "no_or_operator sx u \<equiv> fails (parse_or_operator sx) u"

lemma no_operator_after:
  assumes "spaced sp" "\<not> starts_blank u"
  shows "\<forall>s \<in> {''&&'', ''AND'', ''and'', ''&'', ''-''}. \<not> prefix s u \<Longrightarrow> no_and_operator sx (sp @ u)"
    "\<forall>s \<in> {''||'', ''OR'', ''or'', ''|'', ''+''}. \<not> prefix s u \<Longrightarrow> no_or_operator sx (sp @ u)"
  unfolding parse_and_or_difference_operator_def parse_or_operator_def
  by (intro fails_ws assms fails_intros fails_location fails_then; simp)+

lemma no_operator_end:
  "no_and_operator sx []" "no_or_operator sx []"
  "no_and_operator sx (CHR '')'' # k)" "no_or_operator sx (CHR '')'' # k)"
  using no_operator_after [of "[]" "[]" sx] no_operator_after [of "[]" "CHR '')'' # k" sx]
  by (auto simp: starts_blank_def)

lemma no_and_before_or: "no_and_operator sx ('' '' @ display_or op @ '' '' @ k)"
  by (intro no_operator_after(1)) (cases op; auto simp: starts_blank_def)+

lemma keyword_fails: "\<not> prefix s u \<Longrightarrow> fails (terminated (p_literal s) b) u"
  by (intro fails_intros)

lemma reads_and_operator:
  assumes "\<not> sx_alphanum sx 32"
  shows "reads (parse_and_or_difference_operator sx) ('' '' @ display_and op) ('' '' @ k) (\<lambda>r. r = Some (OpAnd op))"
    "reads (parse_and_or_difference_operator sx) ('' '' @ display_difference d) ('' '' @ k)
       (\<lambda>r. r = Some (OpDifference d))"
proof -
  let ?bad = "p_then location (\<lambda>start. p_then (p_alt [p_literal ''&&'', terminated (p_literal ''AND'') (word_boundary sx)])
    (\<lambda>op. p_value None (report_error (InvalidAndOperator (start, length op)))))"
  let ?and = "p_value (Some (OpAnd LiteralAnd)) (terminated (p_literal ''and'') (word_boundary sx))"
  let ?amp = "p_value (Some (OpAnd Ampersand)) (p_literal ''&'')"
  let ?minus = "p_value (Some (OpDifference Minus)) (p_literal ''-'')"
  have bad: "fails ?bad u" if "\<not> prefix ''&&'' u" "\<not> prefix ''AND'' u" for u
    by (intro fails_location fails_then fails_alt_Cons fails_alt_Nil fails_literal keyword_fails that)
  have lit: "reads (p_value y (p_literal s)) s (CHR '' '' # k) (\<lambda>r. r = y)" for y :: "and_or_difference_operator option" and s
    by (intro reads_value reads_mono [OF reads_literal]) simp
  have kw: "reads ?and ''and'' (CHR '' '' # k) (\<lambda>r. r = Some (OpAnd LiteralAnd))"
    by (intro reads_value reads_mono [OF reads_keyword [OF assms, simplified]]) simp
  have "reads (p_alt [?bad, ?and, ?amp, ?minus]) (display_and op) (CHR '' '' # k) (\<lambda>r. r = Some (OpAnd op))"
  proof (cases op)
    case LiteralAnd
    with reads_alt [where ps = "[?bad]", OF kw] show ?thesis by (simp add: bad)
  next
    case Ampersand
    with reads_alt [where ps = "[?bad, ?and]", OF lit [of "Some (OpAnd Ampersand)" "''&''"]] show ?thesis
      by (simp add: bad keyword_fails fails_value)
  qed
  then show "reads (parse_and_or_difference_operator sx) ('' '' @ display_and op) ('' '' @ k) (\<lambda>r. r = Some (OpAnd op))"
    unfolding parse_and_or_difference_operator_def
    by (intro reads_ws) (cases op; simp add: starts_blank_def)+
  have "reads (p_alt [?bad, ?and, ?amp, ?minus]) ''-'' (CHR '' '' # k) (\<lambda>r. r = Some (OpDifference Minus))"
    using reads_alt [where ps = "[?bad, ?and, ?amp]", OF lit [of "Some (OpDifference Minus)" "''-''"]]
    by (simp add: bad keyword_fails fails_value fails_literal)
  then show "reads (parse_and_or_difference_operator sx) ('' '' @ display_difference d) ('' '' @ k)
       (\<lambda>r. r = Some (OpDifference d))"
    unfolding parse_and_or_difference_operator_def
    by (intro reads_ws) (cases d; simp add: starts_blank_def)+
qed

lemma reads_or_operator:
  assumes "\<not> sx_alphanum sx 32"
  shows "reads (parse_or_operator sx) ('' '' @ display_or op) ('' '' @ k) (\<lambda>r. r = Some op)"
proof -
  let ?bad = "p_then location (\<lambda>start. p_then (p_alt [p_literal ''||'', terminated (p_literal ''OR'') (word_boundary sx)])
    (\<lambda>op. p_value None (report_error (InvalidOrOperator (start, length op)))))"
  let ?or = "p_value (Some LiteralOr) (terminated (p_literal ''or'') (word_boundary sx))"
  let ?pipe = "p_value (Some Pipe) (p_literal ''|'')"
  let ?plus = "p_value (Some Plus) (p_literal ''+'')"
  have bad: "fails ?bad u" if "\<not> prefix ''||'' u" "\<not> prefix ''OR'' u" for u
    by (intro fails_location fails_then fails_alt_Cons fails_alt_Nil fails_literal keyword_fails that)
  have lit: "reads (p_value y (p_literal s)) s (CHR '' '' # k) (\<lambda>r. r = y)" for y :: "or_operator option" and s
    by (intro reads_value reads_mono [OF reads_literal]) simp
  have kw: "reads ?or ''or'' (CHR '' '' # k) (\<lambda>r. r = Some LiteralOr)"
    by (intro reads_value reads_mono [OF reads_keyword [OF assms, simplified]]) simp
  have "reads (p_alt [?bad, ?or, ?pipe, ?plus]) (display_or op) (CHR '' '' # k) (\<lambda>r. r = Some op)"
  proof (cases op)
    case LiteralOr
    with reads_alt [where ps = "[?bad]", OF kw] show ?thesis by (simp add: bad)
  next
    case Pipe
    with reads_alt [where ps = "[?bad, ?or]", OF lit [of "Some Pipe" "''|''"]] show ?thesis
      by (simp add: bad keyword_fails fails_value)
  next
    case Plus
    with reads_alt [where ps = "[?bad, ?or, ?pipe]", OF lit [of "Some Plus" "''+''"]] show ?thesis
      by (simp add: bad keyword_fails fails_value fails_literal)
  qed
  then show ?thesis
    unfolding parse_or_operator_def by (intro reads_ws) (cases op; simp add: starts_blank_def)+
qed

lemma reads_not_operator:
  assumes "\<not> sx_alphanum sx 32"
  shows "reads (parse_not_operator sx) (display_not op) ('' '' @ k) (\<lambda>r. r = op)"
proof -
  let ?not = "p_value LiteralNot (terminated (p_literal ''not'') (word_boundary sx))"
  let ?ex = "p_value Exclamation (p_literal ''!'')"
  have kw: "reads ?not ''not'' ('' '' @ k) (\<lambda>r. r = LiteralNot)"
    by (intro reads_value reads_mono [OF reads_keyword [OF assms]]) simp
  have lit: "reads ?ex ''!'' ('' '' @ k) (\<lambda>r. r = Exclamation)"
    by (intro reads_value reads_mono [OF reads_literal]) simp
  show ?thesis
    unfolding parse_not_operator_def
    using reads_alt_here [OF kw] reads_alt [where ps = "[?not]", OF lit]
    by (cases op) (auto simp: keyword_fails fails_value)
qed


section \<open>Levels\<close>

definition same_expr :: "parsed_expr \<Rightarrow> expr_result \<Rightarrow> bool" where
  "same_expr e r \<longleftrightarrow> (\<exists>e'. r = Valid e' \<and> drop_source_span e' = drop_source_span e)"

text \<open>
  The three levels, for an expression printed as \<open>d\<close>. The upper two are given what comes after: the
  operators read so far make up the expression, and the rest of the input \<open>t\<close> is read from there.
\<close>

definition reads_basic :: "expr_result parser \<Rightarrow> string \<Rightarrow> parsed_expr \<Rightarrow> bool" where
  "reads_basic basic d e \<longleftrightarrow> (\<forall>sp k. spaced sp \<longrightarrow> reads basic (sp @ d) k (same_expr e))"

definition reads_level ::
  "expr_result parser \<Rightarrow> 'op option parser \<Rightarrow> expr_result parser \<Rightarrow> (expr_result \<Rightarrow> 'op option \<times> expr_result \<Rightarrow> expr_result)
     \<Rightarrow> (string \<Rightarrow> bool) \<Rightarrow> string \<Rightarrow> parsed_expr \<Rightarrow> bool" where
  "reads_level level operator operand f follow d e \<longleftrightarrow> (\<forall>sp t k Q. spaced sp \<longrightarrow> follow (t @ k) \<longrightarrow>
     (\<forall>e0 ops. same_expr e (foldl f e0 ops) \<longrightarrow>
        reads (p_repeat (p_pair operator (expect_expr operand)) (\<lambda>ops x. ops @ [x]) ops) t k (\<lambda>ops'. Q (foldl f e0 ops'))) \<longrightarrow>
     reads level (sp @ d @ t) k Q)"

text \<open>How both upper levels are built from an operand and a chain.\<close>

definition level_parser ::
  "'op option parser \<Rightarrow> expr_result parser \<Rightarrow> (expr_result \<Rightarrow> 'op option \<times> expr_result \<Rightarrow> expr_result) \<Rightarrow> expr_result parser" where
  "level_parser operator operand f =
     p_then (expect_expr operand) (\<lambda>expr.
     p_then (p_repeat (p_pair operator (expect_expr operand)) (\<lambda>ops x. ops @ [x]) []) (\<lambda>ops.
       p_return (foldl f expr ops)))"

lemma levels:
  "parse_and_or_difference_expr sx basic = level_parser (parse_and_or_difference_operator sx) basic apply_and_or_difference"
  "parse_expr sx basic = level_parser (parse_or_operator sx) (parse_and_or_difference_expr sx basic) apply_or"
  by (simp_all add: parse_and_or_difference_expr_def parse_expr_def level_parser_def)

lemma reads_expect_expr: "reads p s k P \<Longrightarrow> reads (expect_expr p) s k P"
  unfolding expect_expr_def expect_def by (intro reads_map reads_expect_inner) simp

lemma reads_level_operand:
  assumes "\<And>sp k. spaced sp \<Longrightarrow> follow k \<Longrightarrow> reads operand (sp @ d) k (same_expr e)"
  shows "reads_level (level_parser operator operand f) operator operand f follow d e"
  unfolding reads_level_def
proof (intro allI impI)
  fix sp t k :: string and Q
  assume sp: "spaced sp" "follow (t @ k)" and rest: "\<forall>e0 ops. same_expr e (foldl f e0 ops) \<longrightarrow>
      reads (p_repeat (p_pair operator (expect_expr operand)) (\<lambda>ops x. ops @ [x]) ops) t k (\<lambda>ops'. Q (foldl f e0 ops'))"
  have "reads (level_parser operator operand f) ((sp @ d) @ t) k Q"
    unfolding level_parser_def
  proof (rule reads_then, rule reads_expect_expr, rule assms [OF sp])
    fix e0
    assume "same_expr e e0"
    then have "reads (p_repeat (p_pair operator (expect_expr operand)) (\<lambda>ops x. ops @ [x]) []) t k (\<lambda>ops'. Q (foldl f e0 ops'))"
      using rest [rule_format, of e0 "[]"] by simp
    then show "reads (p_then (p_repeat (p_pair operator (expect_expr operand)) (\<lambda>ops x. ops @ [x]) [])
        (\<lambda>ops. p_return (foldl f e0 ops))) t k Q"
      by (rule reads_then_end) (rule reads_return)
  qed
  then show "reads (level_parser operator operand f) (sp @ d @ t) k Q" by simp
qed

lemma reads_level_step:
  assumes a: "reads_level level operator operand f follow da a"
    and operator: "\<And>k. reads operator ('' '' @ dop) ('' '' @ k) (\<lambda>r. r = Some op)"
    and b: "\<And>k. follow k \<Longrightarrow> reads operand ('' '' @ db) k (same_expr b)"
    and follow: "\<And>k. follow (('' '' @ dop) @ '' '' @ k)"
    and combine: "\<And>e0 r. same_expr a e0 \<Longrightarrow> same_expr b r \<Longrightarrow> same_expr e (f e0 (Some op, r))"
  shows "reads_level level operator operand f follow (da @ '' '' @ dop @ '' '' @ db) e"
  unfolding reads_level_def
proof (intro allI impI)
  fix sp t k :: string and Q
  assume sp: "spaced sp" "follow (t @ k)" and rest: "\<forall>e0 ops. same_expr e (foldl f e0 ops) \<longrightarrow>
      reads (p_repeat (p_pair operator (expect_expr operand)) (\<lambda>ops x. ops @ [x]) ops) t k (\<lambda>ops'. Q (foldl f e0 ops'))"
  let ?t = "(('' '' @ dop) @ '' '' @ db) @ t"
  have pair: "reads (p_pair operator (expect_expr operand)) (('' '' @ dop) @ '' '' @ db) (t @ k)
      (\<lambda>x. \<exists>r. x = (Some op, r) \<and> same_expr b r)"
  proof (rule reads_pair)
    show "reads operator ('' '' @ dop) (('' '' @ db) @ t @ k) (\<lambda>r. r = Some op)"
      using operator [of "db @ t @ k"] by simp
  next
    fix x
    assume "x = Some op"
    then show "reads (expect_expr operand) ('' '' @ db) (t @ k) (\<lambda>y. \<exists>r. (x, y) = (Some op, r) \<and> same_expr b r)"
      by (intro reads_expect_expr reads_mono [OF b [OF sp(2)]]) simp
  qed
  have chain: "reads (p_repeat (p_pair operator (expect_expr operand)) (\<lambda>ops x. ops @ [x]) ops) ?t k
      (\<lambda>ops'. Q (foldl f e0 ops'))" if "same_expr a (foldl f e0 ops)" for e0 ops
  proof (rule reads_repeat_Cons [OF pair])
    fix x
    assume "\<exists>r. x = (Some op, r) \<and> same_expr b r"
    then have "same_expr e (foldl f e0 (ops @ [x]))" using combine [OF that] by auto
    then show "reads (p_repeat (p_pair operator (expect_expr operand)) (\<lambda>ops x. ops @ [x]) (ops @ [x])) t k
        (\<lambda>ops'. Q (foldl f e0 ops'))"
      using rest by blast
  qed simp
  have "follow (?t @ k)" using follow [of "db @ t @ k"] by simp
  with a sp(1) chain have "reads level (sp @ da @ ?t) k Q" unfolding reads_level_def by blast
  then show "reads level (sp @ (da @ '' '' @ dop @ '' '' @ db) @ t) k Q" by simp
qed

text \<open>An expression with nothing behind it that belongs to its level.\<close>

lemma reads_level_end:
  assumes "reads_level level operator operand f follow d e" "fails operator k" "follow k" "spaced sp"
  shows "reads level (sp @ d) k (same_expr e)"
proof -
  have "reads (p_repeat (p_pair operator (expect_expr operand)) (\<lambda>ops x. ops @ [x]) ops) [] k (\<lambda>ops'. same_expr e (foldl f e0 ops'))"
    if "same_expr e (foldl f e0 ops)" for e0 and ops :: "('a option \<times> expr_result) list"
    by (rule reads_mono [OF reads_repeat_Nil [OF fails_pair [OF assms(2)]]]) (use that in simp)
  then show ?thesis
    using assms(1) [unfolded reads_level_def, rule_format, of sp "[]" k "same_expr e"] assms(3,4) by simp
qed


section \<open>Basic expressions\<close>

lemma reads_basic_alt:
  assumes "basic = ws (p_alt alts)" "alts = ps @ p # qs"
    and "\<And>k. reads p d k (same_expr e)" "\<And>k. \<not> starts_blank (d @ k)"
    and "\<And>q k. q \<in> set ps \<Longrightarrow> fails q (d @ k)"
  shows "reads_basic basic d e"
  unfolding reads_basic_def assms(1,2) using assms(3-5) by (auto intro!: reads_ws reads_alt)

lemma parse_basic_expr_Suc:
  "parse_basic_expr sx (Suc fuel) = ws (p_alt [
     p_map (\<lambda>set. case set of Some leaf \<Rightarrow> Valid (ESet leaf) | None \<Rightarrow> Error) (parse_set_def sx),
     parse_expr_not sx (parse_basic_expr sx fuel),
     parse_parentheses_expr (parse_expr sx (parse_basic_expr sx fuel)),
     parse_misplaced_binary_op sx,
     parse_misplaced_unary_op sx])"
  by (rule ext) simp

lemma five_alternatives:
  "[a, b, c, d, e] = [] @ a # [b, c, d, e]" "[a, b, c, d, e] = [a] @ b # [c, d, e]"
  "[a, b, c, d, e] = [a, b] @ c # [d, e]"
  by simp_all

lemma fails_parse_set_def:
  assumes "\<not> starts_blank u" "\<forall>name \<in> {''package'', ''deps'', ''rdeps'', ''kind'', ''binary_id'', ''binary'', ''test'',
      ''group'', ''platform'', ''default'', ''all'', ''none''}. \<not> prefix name u"
  shows "fails (parse_set_def sx) u"
  unfolding parse_set_def_def
  by (intro fails_ws0 assms(1) fails_alt_Cons fails_alt_Nil fails_set_def; use assms(2) in simp)

lemma reads_basic_set:
  assumes "libs_ok sx bp" "displayable_leaf sx l"
  shows "reads_basic (parse_basic_expr sx (Suc fuel)) (display_leaf bp l) (ESet l)"
proof (rule reads_basic_alt [OF parse_basic_expr_Suc five_alternatives(1)])
  show "reads (p_map (\<lambda>set. case set of Some leaf \<Rightarrow> Valid (ESet leaf) | None \<Rightarrow> Error) (parse_set_def sx))
      (display_leaf bp l) k (same_expr (ESet l))" for k
    by (rule reads_map, rule reads_mono [OF reads_parse_set_def [OF assms]]) (auto simp: same_expr_def)
  show "\<not> starts_blank (display_leaf bp l @ k)" for k by (cases l) (auto simp: starts_blank_def)
qed simp

lemma reads_basic_not:
  assumes "\<not> sx_alphanum sx 32" "reads_basic (parse_basic_expr sx fuel) d a" "\<And>k. \<not> starts_blank (d @ k)"
  shows "reads_basic (parse_basic_expr sx (Suc fuel)) (display_not op @ '' '' @ d) (ENot op a)"
proof (rule reads_basic_alt [OF parse_basic_expr_Suc five_alternatives(2)])
  have inner: "reads (ws (parse_basic_expr sx fuel)) ('' '' @ d) k (same_expr a)" for k
    by (rule reads_ws) (use assms(2,3) in \<open>auto simp: reads_basic_def dest: spec [of _ "[]"]\<close>)
  show "reads (parse_expr_not sx (parse_basic_expr sx fuel)) (display_not op @ '' '' @ d) k (same_expr (ENot op a))" for k
    unfolding parse_expr_not_def
  proof (rule reads_map, rule reads_pair)
    show "reads (parse_not_operator sx) (display_not op) (('' '' @ d) @ k) (\<lambda>r. r = op)"
      using reads_not_operator [OF assms(1), of op "d @ k"] by simp
    show "reads (expect_expr (ws (parse_basic_expr sx fuel))) ('' '' @ d) k
        (\<lambda>y. same_expr (ENot op a) (case (x, y) of (op, expr) \<Rightarrow> result_negate op expr))" if "x = op" for x
      by (rule reads_mono [OF reads_expect_expr [OF inner]]) (use that in \<open>auto simp: same_expr_def\<close>)
  qed
  show nb: "\<not> starts_blank ((display_not op @ '' '' @ d) @ k)" for k by (cases op) (auto simp: starts_blank_def)
  show "fails q ((display_not op @ '' '' @ d) @ k)"
    if "q \<in> set [p_map (\<lambda>set. case set of Some leaf \<Rightarrow> Valid (ESet leaf) | None \<Rightarrow> Error) (parse_set_def sx)]" for q k
    using that nb by (cases op) (auto intro!: fails_map fails_parse_set_def)
qed

lemma reads_basic_parens:
  assumes "\<And>k. reads (parse_expr sx (parse_basic_expr sx fuel)) d (CHR '')'' # k) (same_expr a)"
  shows "reads_basic (parse_basic_expr sx (Suc fuel)) (''('' @ d @ '')'') (EParens a)"
proof (rule reads_basic_alt [OF parse_basic_expr_Suc five_alternatives(3)])
  show "reads (parse_parentheses_expr (parse_expr sx (parse_basic_expr sx fuel))) (''('' @ d @ '')'') k
      (same_expr (EParens a))" for k
    unfolding parse_parentheses_expr_def delimited_def
  proof (rule reads_map, rule reads_prefixed, rule reads_mono, rule reads_terminated)
    show "reads (expect_expr (parse_expr sx (parse_basic_expr sx fuel))) d ('')'' @ k) (same_expr a)"
      using reads_expect_expr [OF assms] by simp
    show "reads (expect_char '')'' ExpectedCloseParenthesis) '')'' k (\<lambda>_. True)" by (rule reads_close)
    show "same_expr (EParens a) (result_parens x)" if "same_expr a x" for x
      using that by (auto simp: same_expr_def)
  qed
  show nb: "\<not> starts_blank ((''('' @ d @ '')'') @ k)" for k by (simp add: starts_blank_def)
  show "fails q ((''('' @ d @ '')'') @ k)"
    if "q \<in> set [p_map (\<lambda>set. case set of Some leaf \<Rightarrow> Valid (ESet leaf) | None \<Rightarrow> Error) (parse_set_def sx),
        parse_expr_not sx (parse_basic_expr sx fuel)]" for q k
    using that nb unfolding parse_expr_not_def parse_not_operator_def
    by (auto intro!: fails_map fails_parse_set_def fails_pair fails_alt_Cons fails_alt_Nil fails_value keyword_fails fails_literal)
qed


section \<open>Expressions\<close>

lemma display_expr_start:
  "\<not> starts_blank (display_expr bp e @ k)" "display_expr bp e \<noteq> []"
proof -
  show ne: "display_expr bp e \<noteq> []" for e
    by (induction e) (auto elim: display_leaf.elims)
  show "\<not> starts_blank (display_expr bp e @ k)"
  proof (induction e arbitrary: k)
    case (ENot op a)
    show ?case by (cases op) (auto simp: starts_blank_def)
  next
    case (ESet l)
    show ?case by (cases l) (auto simp: starts_blank_def)
  qed (auto simp: starts_blank_def)
qed

abbreviation reads_and where
  "reads_and sx fuel d e \<equiv> reads_level (parse_and_or_difference_expr sx (parse_basic_expr sx fuel))
     (parse_and_or_difference_operator sx) (parse_basic_expr sx fuel) apply_and_or_difference (\<lambda>_. True) d e"

abbreviation reads_or where
  "reads_or sx fuel d e \<equiv> reads_level (parse_expr sx (parse_basic_expr sx fuel)) (parse_or_operator sx)
     (parse_and_or_difference_expr sx (parse_basic_expr sx fuel)) apply_or (no_and_operator sx) d e"

lemma reads_and_basic: "reads_basic (parse_basic_expr sx fuel) d e \<Longrightarrow> reads_and sx fuel d e"
  unfolding levels(1) by (rule reads_level_operand) (simp add: reads_basic_def)

lemma reads_or_and: "reads_and sx fuel d e \<Longrightarrow> reads_or sx fuel d e"
  unfolding levels(2) by (rule reads_level_operand) (rule reads_level_end, simp_all)

lemma reads_and_step:
  assumes "\<not> sx_alphanum sx 32" "reads_and sx fuel da a" "reads_basic (parse_basic_expr sx fuel) db b"
  shows "reads_and sx fuel (da @ '' '' @ display_and op @ '' '' @ db) (EIntersection op a b)"
    "reads_and sx fuel (da @ '' '' @ display_difference d @ '' '' @ db) (EDifference d a b)"
proof -
  have b: "reads (parse_basic_expr sx fuel) ('' '' @ db) k (same_expr b)" for k
    using assms(3) by (simp only: reads_basic_def spaced_simps)
  show "reads_and sx fuel (da @ '' '' @ display_and op @ '' '' @ db) (EIntersection op a b)"
    by (rule reads_level_step [OF assms(2) reads_and_operator(1) [OF assms(1)] b]) (auto simp: same_expr_def)
  show "reads_and sx fuel (da @ '' '' @ display_difference d @ '' '' @ db) (EDifference d a b)"
    by (rule reads_level_step [OF assms(2) reads_and_operator(2) [OF assms(1)] b]) (auto simp: same_expr_def)
qed

lemma reads_or_step:
  assumes "\<not> sx_alphanum sx 32" "reads_or sx fuel da a" "reads_and sx fuel db b"
  shows "reads_or sx fuel (da @ '' '' @ display_or op @ '' '' @ db) (EUnion op a b)"
proof (rule reads_level_step [OF assms(2) reads_or_operator [OF assms(1)]])
  show "reads (parse_and_or_difference_expr sx (parse_basic_expr sx fuel)) ('' '' @ db) k (same_expr b)"
    if "no_and_operator sx k" for k
    by (rule reads_level_end [OF assms(3) that]) simp_all
  show "no_and_operator sx (('' '' @ display_or op) @ '' '' @ k)" for k
    using no_and_before_or [of sx op k] by simp
qed (auto simp: same_expr_def)

theorem reads_display_expr:
  assumes libs: "libs_ok sx bp"
  shows "well_bracketed (displayable_leaf sx) e \<Longrightarrow> length (display_expr bp e) < fuel \<Longrightarrow>
     (is_basic e \<longrightarrow> reads_basic (parse_basic_expr sx fuel) (display_expr bp e) e) \<and>
     (\<not> is_union e \<longrightarrow> reads_and sx fuel (display_expr bp e) e) \<and>
     reads_or sx fuel (display_expr bp e) e"
proof (induction e arbitrary: fuel)
  case (ENot op a)
  then obtain f where f: "fuel = Suc f" "length (display_expr bp a) < f" by (cases fuel) auto
  have "reads_basic (parse_basic_expr sx fuel) (display_expr bp (ENot op a)) (ENot op a)"
    unfolding f(1) display_expr.simps
    by (rule reads_basic_not) (use ENot f libs display_expr_start in \<open>auto simp: libs_ok_def\<close>)
  then show ?case using reads_and_basic reads_or_and by blast
next
  case (EParens a)
  then obtain f where f: "fuel = Suc f" "length (display_expr bp a) < f" by (cases fuel) auto
  then have "reads_or sx f (display_expr bp a) a" using EParens by simp
  from reads_level_end [OF this no_operator_end(4) no_operator_end(3) spaced_simps(1)]
  have "reads_basic (parse_basic_expr sx fuel) (display_expr bp (EParens a)) (EParens a)"
    unfolding f(1) display_expr.simps by (intro reads_basic_parens) simp
  then show ?case using reads_and_basic reads_or_and by blast
next
  case (ESet l)
  then obtain f where f: "fuel = Suc f" by (cases fuel) auto
  have "reads_basic (parse_basic_expr sx fuel) (display_expr bp (ESet l)) (ESet l)"
    unfolding f display_expr.simps by (rule reads_basic_set [OF libs]) (use ESet in simp)
  then show ?case using reads_and_basic reads_or_and by blast
next
  case (EUnion op a b)
  then have "reads_or sx fuel (display_expr bp a) a" "reads_and sx fuel (display_expr bp b) b" by simp_all
  with libs show ?case using reads_or_step [of sx] by (simp add: libs_ok_def)
next
  case (EIntersection op a b)
  then have "reads_and sx fuel (display_expr bp a) a" "reads_basic (parse_basic_expr sx fuel) (display_expr bp b) b"
    by simp_all
  with libs have "reads_and sx fuel (display_expr bp (EIntersection op a b)) (EIntersection op a b)"
    using reads_and_step(1) [of sx] by (simp add: libs_ok_def)
  then show ?case using reads_or_and by auto
next
  case (EDifference op a b)
  then have "reads_and sx fuel (display_expr bp a) a" "reads_basic (parse_basic_expr sx fuel) (display_expr bp b) b"
    by simp_all
  with libs have "reads_and sx fuel (display_expr bp (EDifference op a b)) (EDifference op a b)"
    using reads_and_step(2) [of sx] by (simp add: libs_ok_def)
  then show ?case using reads_or_and by auto
qed

end
