(* ===== verification/Max_Fail.thy ===== *)
theory Max_Fail
  imports Rust_Num
begin

text \<open>
  The fail-fast setting, \<open>nextest-runner/src/config/elements/max_fail.rs\<close>: when a run stops
  after failures, its command-line syntax with \<open>Display\<close>, and its two configuration forms.
\<close>

datatype terminate_mode = Wait | Immediate

definition default_terminate_mode :: terminate_mode where "default_terminate_mode = Wait"

datatype max_fail = Count nat terminate_mode | All

definition from_fail_fast :: "bool \<Rightarrow> max_fail" where
  "from_fail_fast fail_fast = (if fail_fast then Count 1 Wait else All)"

fun is_exceeded :: "max_fail \<Rightarrow> nat \<Rightarrow> terminate_mode option" where
  "is_exceeded (Count limit terminate) failed = (if failed \<ge> limit then Some terminate else None)"
| "is_exceeded All failed = None"

datatype max_fail_parse_error =
    InvalidCount int_error_kind string
  | CountNotPositive
  | InvalidTerminateMode string

fun show_terminate_mode :: "terminate_mode \<Rightarrow> string" where
  "show_terminate_mode Wait = ''wait''"
| "show_terminate_mode Immediate = ''immediate''"

definition parse_terminate_mode :: "string \<Rightarrow> max_fail_parse_error + terminate_mode" where
  "parse_terminate_mode s =
     (if s = ''wait'' then Inr Wait
      else if s = ''immediate'' then Inr Immediate
      else Inl (InvalidTerminateMode s))"

definition parse_max_fail :: "string \<Rightarrow> max_fail_parse_error + max_fail" where
  "parse_max_fail s =
     (if to_lowercase s = ''all'' then Inr All
      else case (case split_once '':'' s of
                   Some (count, mode_str) \<Rightarrow>
                     (case parse_terminate_mode mode_str of Inl e \<Rightarrow> Inl e | Inr m \<Rightarrow> Inr (count, m))
                 | None \<Rightarrow> Inr (s, default_terminate_mode)) of
          Inl e \<Rightarrow> Inl e
        | Inr (count_str, terminate) \<Rightarrow>
            (case parse_i64 count_str of
               Inl e \<Rightarrow> Inl (InvalidCount e count_str)
             | Inr n \<Rightarrow> if n \<le> 0 then Inl CountNotPositive else Inr (Count (nat n) terminate)))"

fun show_max_fail :: "max_fail \<Rightarrow> string" where
  "show_max_fail All = ''all''"
| "show_max_fail (Count limit terminate) =
     (if terminate = default_terminate_mode then show_nat limit
      else show_nat limit @ '':'' @ show_terminate_mode terminate)"

text \<open>
  The configuration file gives a boolean, or a table with \<open>max-fail\<close>, a string or an integer,
  and optionally \<open>terminate\<close>.
\<close>

datatype max_fail_value = ValueStr string | ValueInt int

datatype fail_fast_value = FailFastBool bool | FailFastMap max_fail_value "terminate_mode option"

datatype max_fail_value_error =
    NumberInQuotes string
  | NonPositiveInQuotes string
  | NotAllOrNumber string
  | NotPositive int

datatype max_fail_count = CountN nat | CountAll

fun deserialize_max_fail_count :: "max_fail_value \<Rightarrow> max_fail_value_error + max_fail_count" where
  "deserialize_max_fail_count (ValueStr v) =
     (if v = ''all'' then Inr CountAll
      else case parse_i64 v of
          Inr val \<Rightarrow> if val > 0 then Inl (NumberInQuotes v) else Inl (NonPositiveInQuotes v)
        | Inl _ \<Rightarrow> Inl (NotAllOrNumber v))"
| "deserialize_max_fail_count (ValueInt v) =
     (if v > 0 then Inr (CountN (nat v)) else Inl (NotPositive v))"

fun deserialize_fail_fast :: "fail_fast_value \<Rightarrow> max_fail_value_error + max_fail" where
  "deserialize_fail_fast (FailFastBool v) = Inr (from_fail_fast v)"
| "deserialize_fail_fast (FailFastMap v terminate) =
     (case deserialize_max_fail_count v of
        Inl e \<Rightarrow> Inl e
      | Inr (CountN n) \<Rightarrow>
          Inr (Count n (case terminate of None \<Rightarrow> default_terminate_mode | Some t \<Rightarrow> t))
      | Inr CountAll \<Rightarrow> Inr All)"


section \<open>Properties\<close>

text \<open>A setting the program can hold: every way in accepts positive counts only.\<close>

fun max_fail_wf :: "max_fail \<Rightarrow> bool" where
  "max_fail_wf All = True"
| "max_fail_wf (Count n _) = (0 < n \<and> int n \<le> I64_MAX)"

lemma show_nat_not_all: "to_lowercase (show_nat n @ t) \<noteq> ''all''"
proof
  assume "to_lowercase (show_nat n @ t) = ''all''"
  moreover obtain c cs where c: "show_nat n = c # cs" using show_nat_nonempty by (metis list.exhaust)
  ultimately have "to_ascii_lower c = CHR ''a''" by (simp add: to_lowercase_def)
  moreover obtain d where "d < 10" "c = digit_char d"
    using show_nat_digits c by (metis list.set_intros(1))
  ultimately show False
    by (auto simp: to_ascii_lower_def Let_def of_char_digit_char dest: arg_cong [of _ _ "of_char :: char \<Rightarrow> nat"])
qed

lemma split_once_show_nat: "split_once '':'' (show_nat n @ '':'' @ t) = Some (show_nat n, t)"
proof (rule split_once_append)
  have "CHR '':'' \<notin> set (show_nat n)" by (simp add: show_nat_free)
  then show "\<not> sublist '':'' (show_nat n @ butlast '':'')" by (auto simp: sublist_def)
qed simp

lemma split_once_show_nat_None: "split_once '':'' (show_nat n) = None"
  using show_nat_free [of "CHR '':''" n] by (auto simp: split_once_None sublist_def)

lemma parse_show_terminate_mode: "parse_terminate_mode (show_terminate_mode m) = Inr m"
  by (cases m) (simp_all add: parse_terminate_mode_def)

lemma parse_show_max_fail:
  assumes "max_fail_wf m"
  shows "parse_max_fail (show_max_fail m) = Inr m"
proof (cases m)
  case All
  then show ?thesis by (simp add: parse_max_fail_def) (simp add: to_lowercase_def to_ascii_lower_def)
next
  case (Count n t)
  then have "parse_i64 (show_nat n) = Inr (int n)" "0 < n" using assms by (simp_all add: parse_i64_show_nat)
  then show ?thesis
    using Count show_nat_not_all [of n "[]"] show_nat_not_all [of n "'':'' @ show_terminate_mode t"]
    by (simp add: parse_max_fail_def split_once_show_nat [simplified] split_once_show_nat_None parse_show_terminate_mode)
qed

lemma parse_max_fail_wf: "parse_max_fail s = Inr m \<Longrightarrow> max_fail_wf m"
  using parse_i64_range
  by (fastforce simp: parse_max_fail_def split: if_splits sum.splits option.splits prod.splits)

lemma is_exceeded_mono: "is_exceeded m n = Some t \<Longrightarrow> n \<le> n' \<Longrightarrow> is_exceeded m n' = Some t"
  by (cases m) (auto split: if_splits)

end
