(* ===== verification/Run_Events.thy ===== *)
theory Run_Events
  imports Prelude
begin

text \<open>
  Results of executions and the run statistics of \<open>nextest-runner/src/reporter/events.rs\<close>:
  execution results and their success, the statuses of a test's attempts, the counters kept
  for a run and how a finished test or setup script changes them, the final summary, run
  outcomes with their combination, and the progress of a stress run.

  Counters (\<open>usize\<close>, \<open>u32\<close>) are natural numbers: they count tests, scripts and sub-runs, and
  \<open>saturating_sub\<close> is subtraction on \<open>nat\<close>. Durations are natural numbers of nanoseconds. The
  captured output and the timestamps of an attempt take no part in any decision modelled here
  and are left out.
\<close>

type_synonym duration = nat

section \<open>Execution results\<close>

datatype leak_timeout_result = LeakFail | LeakPass
datatype slow_timeout_result = SlowFail | SlowPass
datatype flaky_result = FlakyFail | FlakyPass

datatype abort_description =
    UnixSignal int "string option"
  | WindowsNtStatus int "string option"
  | WindowsJobObject

datatype failure_description = ExitCode int | Abort abort_description

datatype execution_result =
    Pass
  | Leak leak_timeout_result
  | Fail failure_description bool
  | ExecFail
  | Timeout slow_timeout_result

fun is_success :: "execution_result \<Rightarrow> bool" where
  "is_success Pass = True"
| "is_success (Timeout SlowPass) = True"
| "is_success (Leak LeakPass) = True"
| "is_success (Leak LeakFail) = False"
| "is_success (Fail _ _) = False"
| "is_success ExecFail = False"
| "is_success (Timeout SlowFail) = False"

fun as_static_str :: "execution_result \<Rightarrow> string" where
  "as_static_str Pass = ''pass''"
| "as_static_str (Leak _) = ''leak''"
| "as_static_str (Fail _ _) = ''fail''"
| "as_static_str ExecFail = ''exec-fail''"
| "as_static_str (Timeout _) = ''timeout''"

definition SIGTERM :: int where "SIGTERM = 15"

fun is_termination_failure :: "execution_result \<Rightarrow> bool" where
  "is_termination_failure (Fail (Abort (UnixSignal signal _)) _) = (signal = SIGTERM)"
| "is_termination_failure (Fail (Abort WindowsJobObject) _) = True"
| "is_termination_failure _ = False"

record retry_data =
  attempt :: nat
  total_attempts :: nat

definition is_last_attempt :: "retry_data \<Rightarrow> bool" where
  "is_last_attempt rd \<longleftrightarrow> attempt rd \<ge> total_attempts rd"

record execute_status =
  es_retry_data :: retry_data
  es_result :: execution_result
  es_time_taken :: duration
  es_is_slow :: bool
  es_delay_before_start :: duration

record execution_statuses =
  statuses :: "execute_status list"
  flaky_result_of :: flaky_result

text \<open>Taking the last status of an empty list panics (\<open>expect\<close>).\<close>

definition last_status :: "execution_statuses \<Rightarrow> execute_status outcome" where
  "last_status es = (if statuses es = [] then Panic else Ret (last (statuses es)))"

datatype execution_description =
    DSuccess execute_status
  | DFlaky execute_status "execute_status list" flaky_result
  | DFailure execute_status execute_status "execute_status list"

definition describe :: "execution_statuses \<Rightarrow> execution_description outcome" where
  "describe es = bind_outcome (last_status es) (\<lambda>l.
     if is_success (es_result l) then
       (if length (statuses es) > 1
        then Ret (DFlaky l (butlast (statuses es)) (flaky_result_of es))
        else Ret (DSuccess l))
     else Ret (DFailure (hd (statuses es)) l (tl (statuses es))))"


section \<open>Cancellation reasons, by severity\<close>

datatype cancel_reason =
    SetupScriptFailure
  | TestFailure
  | ReportError
  | TestFailureImmediate
  | GlobalTimeout
  | Signal
  | Interrupt
  | SecondSignal

text \<open>The derived order follows the declaration.\<close>

primrec severity :: "cancel_reason \<Rightarrow> nat" where
  "severity SetupScriptFailure = 0"
| "severity TestFailure = 1"
| "severity ReportError = 2"
| "severity TestFailureImmediate = 3"
| "severity GlobalTimeout = 4"
| "severity Signal = 5"
| "severity Interrupt = 6"
| "severity SecondSignal = 7"

lemma severity_inject: "severity a = severity b \<longleftrightarrow> a = b"
  by (cases a; cases b) simp_all

instantiation cancel_reason :: linorder
begin

definition less_eq_cancel_reason :: "cancel_reason \<Rightarrow> cancel_reason \<Rightarrow> bool" where
  "a \<le> b \<longleftrightarrow> severity a \<le> severity b"

definition less_cancel_reason :: "cancel_reason \<Rightarrow> cancel_reason \<Rightarrow> bool" where
  "a < b \<longleftrightarrow> severity a < severity b"

instance
  by standard (auto simp: less_eq_cancel_reason_def less_cancel_reason_def severity_inject)

end

lemmas cancel_order = less_eq_cancel_reason_def less_cancel_reason_def

text \<open>The order of \<open>Option<CancelReason>\<close>: \<open>None\<close> is below every reason.\<close>

fun cancel_less :: "cancel_reason option \<Rightarrow> cancel_reason \<Rightarrow> bool" where
  "cancel_less None r = True"
| "cancel_less (Some s) r = (s < r)"


section \<open>Run statistics\<close>

record run_stats =
  initial_run_count :: nat
  finished_count :: nat
  setup_scripts_initial_count :: nat
  setup_scripts_finished_count :: nat
  setup_scripts_passed :: nat
  setup_scripts_failed :: nat
  setup_scripts_exec_failed :: nat
  setup_scripts_timed_out :: nat
  passed :: nat
  passed_slow :: nat
  passed_timed_out :: nat
  flaky :: nat
  failed :: nat
  failed_slow :: nat
  failed_timed_out :: nat
  leaky :: nat
  leaky_failed :: nat
  exec_failed :: nat
  skipped :: nat
  cancel_reason_of :: "cancel_reason option"

definition default_run_stats :: run_stats where
  "default_run_stats = \<lparr>initial_run_count = 0, finished_count = 0, setup_scripts_initial_count = 0,
     setup_scripts_finished_count = 0, setup_scripts_passed = 0, setup_scripts_failed = 0,
     setup_scripts_exec_failed = 0, setup_scripts_timed_out = 0, passed = 0, passed_slow = 0,
     passed_timed_out = 0, flaky = 0, failed = 0, failed_slow = 0, failed_timed_out = 0, leaky = 0,
     leaky_failed = 0, exec_failed = 0, skipped = 0, cancel_reason_of = None\<rparr>"

definition failed_setup_script_count :: "run_stats \<Rightarrow> nat" where
  "failed_setup_script_count s =
     setup_scripts_failed s + setup_scripts_exec_failed s + setup_scripts_timed_out s"

definition failed_count :: "run_stats \<Rightarrow> nat" where
  "failed_count s = failed s + exec_failed s + failed_timed_out s"

definition has_failures :: "run_stats \<Rightarrow> bool" where
  "has_failures s \<longleftrightarrow> failed_setup_script_count s > 0 \<or> failed_count s > 0"

datatype run_stats_failure_kind = KindSetupScript | KindTest nat nat

datatype final_run_stats =
    FSuccess
  | FNoTestsRun
  | FCancelled "cancel_reason option" run_stats_failure_kind
  | FFailed run_stats_failure_kind

definition summarize_failure :: "run_stats \<Rightarrow> run_stats_failure_kind \<Rightarrow> final_run_stats" where
  "summarize_failure s kind =
     (case cancel_reason_of s of
        None \<Rightarrow> FFailed kind
      | Some SetupScriptFailure \<Rightarrow> FFailed kind
      | Some TestFailure \<Rightarrow> FFailed kind
      | Some TestFailureImmediate \<Rightarrow> FFailed kind
      | Some _ \<Rightarrow> FCancelled (cancel_reason_of s) kind)"

definition summarize_final :: "run_stats \<Rightarrow> final_run_stats" where
  "summarize_final s =
     (if failed_setup_script_count s > 0 then summarize_failure s KindSetupScript
      else if setup_scripts_initial_count s > setup_scripts_finished_count s
        then FCancelled (cancel_reason_of s) KindSetupScript
      else if failed_count s > 0
        then summarize_failure s
          (KindTest (initial_run_count s) (initial_run_count s - finished_count s))
      else if initial_run_count s > finished_count s
        then FCancelled (cancel_reason_of s)
          (KindTest (initial_run_count s) (initial_run_count s - finished_count s))
      else if finished_count s = 0 then FNoTestsRun
      else FSuccess)"

definition on_setup_script_finished :: "run_stats \<Rightarrow> execution_result \<Rightarrow> run_stats" where
  "on_setup_script_finished s r =
     (let s = s\<lparr>setup_scripts_finished_count := setup_scripts_finished_count s + 1\<rparr> in
      case r of
        Pass \<Rightarrow> s\<lparr>setup_scripts_passed := setup_scripts_passed s + 1\<rparr>
      | Leak LeakPass \<Rightarrow> s\<lparr>setup_scripts_passed := setup_scripts_passed s + 1\<rparr>
      | Fail _ _ \<Rightarrow> s\<lparr>setup_scripts_failed := setup_scripts_failed s + 1\<rparr>
      | Leak LeakFail \<Rightarrow> s\<lparr>setup_scripts_failed := setup_scripts_failed s + 1\<rparr>
      | ExecFail \<Rightarrow> s\<lparr>setup_scripts_exec_failed := setup_scripts_exec_failed s + 1\<rparr>
      | Timeout _ \<Rightarrow> s\<lparr>setup_scripts_timed_out := setup_scripts_timed_out s + 1\<rparr>)"

text \<open>The two updates every counted test makes: passed or failed, and the slow counter.\<close>

definition count_passed :: "bool \<Rightarrow> run_stats \<Rightarrow> run_stats" where
  "count_passed slow s =
     (let s = s\<lparr>passed := passed s + 1\<rparr> in if slow then s\<lparr>passed_slow := passed_slow s + 1\<rparr> else s)"

definition count_failed :: "bool \<Rightarrow> run_stats \<Rightarrow> run_stats" where
  "count_failed slow s =
     (let s = s\<lparr>failed := failed s + 1\<rparr> in if slow then s\<lparr>failed_slow := failed_slow s + 1\<rparr> else s)"

definition on_test_finished :: "run_stats \<Rightarrow> execution_statuses \<Rightarrow> run_stats outcome" where
  "on_test_finished s es =
     bind_outcome (last_status es) (\<lambda>l.
     let s = s\<lparr>finished_count := finished_count s + 1\<rparr>;
         slow = es_is_slow l;
         is_flaky = length (statuses es) > 1
     in Ret (case es_result l of
       Pass \<Rightarrow>
         (if is_flaky then
            (case flaky_result_of es of
               FlakyFail \<Rightarrow> count_failed slow s
             | FlakyPass \<Rightarrow> (count_passed slow s)\<lparr>flaky := flaky s + 1\<rparr>)
          else count_passed slow s)
     | Leak LeakPass \<Rightarrow>
         (if is_flaky then
            (case flaky_result_of es of
               FlakyFail \<Rightarrow> (count_failed slow s)\<lparr>leaky := leaky s + 1\<rparr>
             | FlakyPass \<Rightarrow> (count_passed slow s)\<lparr>leaky := leaky s + 1, flaky := flaky s + 1\<rparr>)
          else (count_passed slow s)\<lparr>leaky := leaky s + 1\<rparr>)
     | Leak LeakFail \<Rightarrow> (count_failed slow s)\<lparr>leaky_failed := leaky_failed s + 1\<rparr>
     | Fail _ _ \<Rightarrow> count_failed slow s
     | Timeout SlowPass \<Rightarrow>
         (if is_flaky then
            (case flaky_result_of es of
               FlakyFail \<Rightarrow> count_failed slow s
             | FlakyPass \<Rightarrow> s\<lparr>passed := passed s + 1, passed_timed_out := passed_timed_out s + 1,
                              flaky := flaky s + 1\<rparr>)
          else s\<lparr>passed := passed s + 1, passed_timed_out := passed_timed_out s + 1\<rparr>)
     | Timeout SlowFail \<Rightarrow> s\<lparr>failed_timed_out := failed_timed_out s + 1\<rparr>
     | ExecFail \<Rightarrow> s\<lparr>exec_failed := exec_failed s + 1\<rparr>))"


section \<open>Run outcomes\<close>

datatype run_failure_step = StepTest | StepSetupScript

fun step_max :: "run_failure_step \<Rightarrow> run_failure_step \<Rightarrow> run_failure_step" where
  "step_max StepTest b = b"
| "step_max StepSetupScript _ = StepSetupScript"

fun failure_step :: "run_stats_failure_kind \<Rightarrow> run_failure_step" where
  "failure_step KindSetupScript = StepSetupScript"
| "failure_step (KindTest _ _) = StepTest"

datatype run_outcome =
    OSuccess | ONoTestsRun | OCancelled run_failure_step | OFailed run_failure_step

fun from_final_stats :: "final_run_stats \<Rightarrow> run_outcome" where
  "from_final_stats FSuccess = OSuccess"
| "from_final_stats FNoTestsRun = ONoTestsRun"
| "from_final_stats (FCancelled _ kind) = OCancelled (failure_step kind)"
| "from_final_stats (FFailed kind) = OFailed (failure_step kind)"

fun combine :: "run_outcome \<Rightarrow> run_outcome \<Rightarrow> run_outcome" where
  "combine (OFailed a) (OFailed b) = OFailed (step_max a b)"
| "combine (OFailed step) _ = OFailed step"
| "combine _ (OFailed step) = OFailed step"
| "combine (OCancelled a) (OCancelled b) = OCancelled (step_max a b)"
| "combine (OCancelled step) _ = OCancelled step"
| "combine _ (OCancelled step) = OCancelled step"
| "combine OSuccess _ = OSuccess"
| "combine ONoTestsRun OSuccess = OSuccess"
| "combine ONoTestsRun ONoTestsRun = ONoTestsRun"


section \<open>Stress runs\<close>

datatype stress_count = StressCount nat | StressInfinite

datatype stress_condition = CondCount stress_count | CondDuration duration

datatype stress_progress =
    ProgressCount stress_count duration nat
  | ProgressTime duration duration nat

datatype stress_remaining = RemainingCount nat | RemainingInfinite | RemainingTime duration

fun remaining :: "stress_progress \<Rightarrow> stress_remaining option" where
  "remaining (ProgressCount (StressCount count) _ completed) =
     (if completed \<le> count \<and> count - completed \<noteq> 0 then Some (RemainingCount (count - completed)) else None)"
| "remaining (ProgressCount StressInfinite _ _) = Some RemainingInfinite"
| "remaining (ProgressTime limit elapsed _) =
     (if elapsed \<le> limit \<and> limit - elapsed \<noteq> 0 then Some (RemainingTime (limit - elapsed)) else None)"

record stress_index =
  si_current :: nat
  si_total :: "nat option"

record stress_run_stats =
  srs_completed :: stress_index
  srs_success_count :: nat
  srs_failed_count :: nat
  srs_last_final_stats :: final_run_stats

datatype stress_final_run_stats = SFSuccess | SFNoTestsRun | SFCancelled | SFFailed

fun is_cancelled_stats :: "final_run_stats \<Rightarrow> bool" where
  "is_cancelled_stats (FCancelled _ _) = True"
| "is_cancelled_stats _ = False"

fun is_failed_stats :: "final_run_stats \<Rightarrow> bool" where
  "is_failed_stats (FFailed _) = True"
| "is_failed_stats _ = False"

definition stress_summarize_final :: "stress_run_stats \<Rightarrow> stress_final_run_stats" where
  "stress_summarize_final s =
     (if srs_failed_count s > 0 then SFFailed
      else if is_cancelled_stats (srs_last_final_stats s) then SFCancelled
      else if srs_last_final_stats s = FNoTestsRun then SFNoTestsRun
      else SFSuccess)"


section \<open>Lemmas on the statistics\<close>

text \<open>
  A finished test counts as passed if its last attempt succeeded and it is not a flaky test
  that the configuration treats as failed.
\<close>

definition test_passes :: "execution_statuses \<Rightarrow> bool" where
  "test_passes es \<longleftrightarrow> is_success (es_result (last (statuses es))) \<and>
     (length (statuses es) > 1 \<longrightarrow> flaky_result_of es = FlakyPass)"

text \<open>The consistency of the counters that every event keeps.\<close>

definition stats_wf :: "run_stats \<Rightarrow> bool" where
  "stats_wf s \<longleftrightarrow>
     finished_count s = passed s + failed_count s \<and>
     setup_scripts_finished_count s = setup_scripts_passed s + failed_setup_script_count s \<and>
     passed_slow s + passed_timed_out s \<le> passed s \<and> flaky s \<le> passed s \<and>
     failed_slow s \<le> failed s \<and> leaky_failed s \<le> failed s \<and>
     leaky s + leaky_failed s \<le> passed s + failed s"

lemma stats_wf_default: "stats_wf (default_run_stats\<lparr>initial_run_count := n\<rparr>)"
  by (simp add: stats_wf_def default_run_stats_def failed_count_def failed_setup_script_count_def)

lemmas stats_simps = failed_count_def failed_setup_script_count_def count_passed_def count_failed_def
  on_test_finished_def on_setup_script_finished_def last_status_def Let_def

lemma on_test_finished_Ret:
  "statuses es \<noteq> [] \<Longrightarrow> \<exists>s'. on_test_finished s es = Ret s'"
  by (simp add: on_test_finished_def last_status_def Let_def)

lemma stats_wf_test:
  assumes "stats_wf s" "on_test_finished s es = Ret s'"
  shows "stats_wf s'"
  using assms
  by (auto simp: stats_wf_def stats_simps split: if_splits execution_result.splits
      leak_timeout_result.splits slow_timeout_result.splits flaky_result.splits)

lemma stats_wf_setup: "stats_wf s \<Longrightarrow> stats_wf (on_setup_script_finished s r)"
  by (auto simp: stats_wf_def stats_simps split: execution_result.splits leak_timeout_result.splits)

lemma on_test_finished_counts:
  assumes "on_test_finished s es = Ret s'"
  shows "finished_count s' = finished_count s + 1 \<and>
     passed s' = passed s + (if test_passes es then 1 else 0) \<and>
     failed_count s' = failed_count s + (if test_passes es then 0 else 1) \<and>
     cancel_reason_of s' = cancel_reason_of s \<and> initial_run_count s' = initial_run_count s \<and>
     skipped s' = skipped s"
  using assms
  by (cases "es_result (last (statuses es))")
    (auto simp: test_passes_def stats_simps split: if_splits
      leak_timeout_result.splits slow_timeout_result.splits flaky_result.splits)

lemma on_test_finished_setup_counts:
  assumes "on_test_finished s es = Ret s'"
  shows "setup_scripts_initial_count s' = setup_scripts_initial_count s \<and>
     setup_scripts_finished_count s' = setup_scripts_finished_count s \<and>
     failed_setup_script_count s' = failed_setup_script_count s"
  using assms
  by (cases "es_result (last (statuses es))")
    (auto simp: stats_simps split: if_splits
      leak_timeout_result.splits slow_timeout_result.splits flaky_result.splits)

text \<open>A setup script counts as failed unless it passed, leaked with \<open>pass\<close>: a timeout always fails.\<close>

definition script_passes :: "execution_result \<Rightarrow> bool" where
  "script_passes r \<longleftrightarrow> r = Pass \<or> r = Leak LeakPass"

lemma on_setup_script_counts:
  "failed_setup_script_count (on_setup_script_finished s r) =
     failed_setup_script_count s + (if script_passes r then 0 else 1)"
  "finished_count (on_setup_script_finished s r) = finished_count s"
  "failed_count (on_setup_script_finished s r) = failed_count s"
  "cancel_reason_of (on_setup_script_finished s r) = cancel_reason_of s"
  "initial_run_count (on_setup_script_finished s r) = initial_run_count s"
  "setup_scripts_initial_count (on_setup_script_finished s r) = setup_scripts_initial_count s"
  by (auto simp: stats_simps script_passes_def split: execution_result.splits leak_timeout_result.splits)


section \<open>Lemmas on outcomes\<close>

primrec step_rank :: "run_failure_step \<Rightarrow> nat" where
  "step_rank StepTest = 0"
| "step_rank StepSetupScript = 1"

fun outcome_rank :: "run_outcome \<Rightarrow> nat" where
  "outcome_rank ONoTestsRun = 0"
| "outcome_rank OSuccess = 1"
| "outcome_rank (OCancelled s) = 2 + step_rank s"
| "outcome_rank (OFailed s) = 4 + step_rank s"

lemma outcome_exhaust:
  "r = ONoTestsRun \<or> r = OSuccess \<or> r = OCancelled StepTest \<or> r = OCancelled StepSetupScript \<or>
   r = OFailed StepTest \<or> r = OFailed StepSetupScript"
  by (cases r) (metis run_failure_step.exhaust)+

lemma outcome_rank_inject: "outcome_rank a = outcome_rank b \<longleftrightarrow> a = b"
  using outcome_exhaust [of a] outcome_exhaust [of b] by (elim disjE) simp_all

lemma combine_rank: "outcome_rank (combine a b) = max (outcome_rank a) (outcome_rank b)"
  using outcome_exhaust [of a] outcome_exhaust [of b] by (elim disjE) simp_all

interpretation outcome: semilattice combine
proof
  fix a b c
  show "combine (combine a b) c = combine a (combine b c)"
    by (simp flip: outcome_rank_inject add: combine_rank max.assoc)
  show "combine a b = combine b a"
    by (simp flip: outcome_rank_inject add: combine_rank max.commute)
  show "combine a a = a"
    by (simp flip: outcome_rank_inject add: combine_rank)
qed

end
