(* ===== verification/Timers.thy ===== *)
theory Timers
  imports Prelude
begin

text \<open>
  The stopwatch and the pausable sleep of \<open>nextest-runner/src/time\<close>. A point in time is the
  number of nanoseconds on the monotonic clock; every operation that reads the clock takes the
  current instant \<open>now\<close>. The timer of the async runtime under a pausable sleep is its deadline:
  \<open>reset\<close> sets it and the sleep fires once the clock has reached it.

  Both are pausable: \<open>pause\<close> panics on a paused timer and \<open>resume\<close> on a running one. The
  locale \<open>pausable\<close> states this contract, with the debounced use the dispatcher makes of it.
\<close>

type_synonym instant = nat


section \<open>Stopwatch\<close>

datatype stopwatch_pause_state = SwRunning | SwPaused instant

record stopwatch =
  sw_instant :: instant
  sw_paused_time :: nat
  sw_pause_state :: stopwatch_pause_state

definition stopwatch_new :: "instant \<Rightarrow> stopwatch" where
  "stopwatch_new now = \<lparr>sw_instant = now, sw_paused_time = 0, sw_pause_state = SwRunning\<rparr>"

definition sw_is_paused :: "stopwatch \<Rightarrow> bool" where
  "sw_is_paused s \<longleftrightarrow> (case sw_pause_state s of SwRunning \<Rightarrow> False | SwPaused _ \<Rightarrow> True)"

definition sw_pause :: "instant \<Rightarrow> stopwatch \<Rightarrow> stopwatch outcome" where
  "sw_pause now s =
     (case sw_pause_state s of
        SwRunning \<Rightarrow> Ret (s\<lparr>sw_pause_state := SwPaused now\<rparr>)
      | SwPaused _ \<Rightarrow> Panic)"

definition sw_resume :: "instant \<Rightarrow> stopwatch \<Rightarrow> stopwatch outcome" where
  "sw_resume now s =
     (case sw_pause_state s of
        SwPaused paused_at \<Rightarrow>
          Ret (s\<lparr>sw_paused_time := sw_paused_time s + (now - paused_at), sw_pause_state := SwRunning\<rparr>)
      | SwRunning \<Rightarrow> Panic)"

record stopwatch_snapshot =
  snap_active :: nat
  snap_paused :: nat

definition sw_snapshot :: "instant \<Rightarrow> stopwatch \<Rightarrow> stopwatch_snapshot" where
  "sw_snapshot now s =
     \<lparr>snap_active = (now - sw_instant s) - sw_paused_time s, snap_paused = sw_paused_time s\<rparr>"


section \<open>Pausable sleep\<close>

datatype sleep_pause_state = SlRunning | SlPaused nat

record pausable_sleep =
  sl_deadline :: instant
  sl_duration :: nat
  sl_pause_state :: sleep_pause_state

definition far_future_duration :: nat where
  "far_future_duration = 86400 * 365 * 30 * 1000000000"

definition sleep_new :: "instant \<Rightarrow> nat \<Rightarrow> pausable_sleep" where
  "sleep_new now d = \<lparr>sl_deadline = now + d, sl_duration = d, sl_pause_state = SlRunning\<rparr>"

definition sl_is_paused :: "pausable_sleep \<Rightarrow> bool" where
  "sl_is_paused s \<longleftrightarrow> (case sl_pause_state s of SlRunning \<Rightarrow> False | SlPaused _ \<Rightarrow> True)"

definition sl_pause :: "instant \<Rightarrow> pausable_sleep \<Rightarrow> pausable_sleep outcome" where
  "sl_pause now s =
     (case sl_pause_state s of
        SlRunning \<Rightarrow> Ret (s\<lparr>sl_deadline := now + far_future_duration,
                            sl_pause_state := SlPaused (sl_deadline s - now)\<rparr>)
      | SlPaused _ \<Rightarrow> Panic)"

definition sl_resume :: "instant \<Rightarrow> pausable_sleep \<Rightarrow> pausable_sleep outcome" where
  "sl_resume now s =
     (case sl_pause_state s of
        SlPaused r \<Rightarrow> Ret (s\<lparr>sl_deadline := now + r, sl_pause_state := SlRunning\<rparr>)
      | SlRunning \<Rightarrow> Panic)"

definition sl_reset :: "instant \<Rightarrow> nat \<Rightarrow> pausable_sleep \<Rightarrow> pausable_sleep" where
  "sl_reset now d s =
     (let s = s\<lparr>sl_duration := d\<rparr> in
      case sl_pause_state s of
        SlRunning \<Rightarrow> s\<lparr>sl_deadline := now + d\<rparr>
      | SlPaused _ \<Rightarrow> s\<lparr>sl_pause_state := SlPaused d\<rparr>)"

definition sl_reset_last_duration :: "instant \<Rightarrow> pausable_sleep \<Rightarrow> pausable_sleep" where
  "sl_reset_last_duration now s = sl_reset now (sl_duration s) s"

text \<open>Polling the sleep: it completes once its deadline has passed.\<close>

definition sl_fires :: "instant \<Rightarrow> pausable_sleep \<Rightarrow> bool" where
  "sl_fires now s \<longleftrightarrow> sl_deadline s \<le> now"


section \<open>The contract of pausable timers\<close>

locale pausable =
  fixes is_paused :: "'s \<Rightarrow> bool"
    and pause :: "instant \<Rightarrow> 's \<Rightarrow> 's outcome"
    and resume :: "instant \<Rightarrow> 's \<Rightarrow> 's outcome"
  assumes pause_running: "\<not> is_paused s \<Longrightarrow> \<exists>s'. pause now s = Ret s' \<and> is_paused s'"
    and resume_paused: "is_paused s \<Longrightarrow> \<exists>s'. resume now s = Ret s' \<and> \<not> is_paused s'"
    and pause_paused: "is_paused s \<Longrightarrow> pause now s = Panic"
    and resume_running: "\<not> is_paused s \<Longrightarrow> resume now s = Panic"
begin

lemma pause_Panic_iff: "pause now s = Panic \<longleftrightarrow> is_paused s"
  using pause_running [of s now] pause_paused [of s now] by (cases "is_paused s") auto

lemma resume_Panic_iff: "resume now s = Panic \<longleftrightarrow> \<not> is_paused s"
  using resume_paused [of s now] resume_running [of s now] by (cases "is_paused s") auto

lemma pause_RetD: "pause now s = Ret s' \<Longrightarrow> \<not> is_paused s \<and> is_paused s'"
  using pause_running [of s now] pause_paused [of s now] by (cases "is_paused s") auto

lemma resume_RetD: "resume now s = Ret s' \<Longrightarrow> is_paused s \<and> \<not> is_paused s'"
  using resume_paused [of s now] resume_running [of s now] by (cases "is_paused s") auto

end

interpretation sw: pausable sw_is_paused sw_pause sw_resume
  by unfold_locales
    (auto simp: sw_is_paused_def sw_pause_def sw_resume_def split: stopwatch_pause_state.splits)

interpretation sl: pausable sl_is_paused sl_pause sl_resume
  by unfold_locales
    (auto simp: sl_is_paused_def sl_pause_def sl_resume_def split: sleep_pause_state.splits)

text \<open>A new timer runs.\<close>

lemma new_running [simp]: "\<not> sw_is_paused (stopwatch_new now)" "\<not> sl_is_paused (sleep_new now d)"
  by (simp_all add: sw_is_paused_def stopwatch_new_def sl_is_paused_def sleep_new_def)


section \<open>Properties of the timers\<close>

text \<open>
  The active time of a stopwatch driven through any number of pauses: a list of pairs of
  instants (paused at, resumed at) in order.
\<close>

fun sw_run :: "(instant \<times> instant) list \<Rightarrow> stopwatch \<Rightarrow> stopwatch outcome" where
  "sw_run [] s = Ret s"
| "sw_run ((p, r) # xs) s =
     bind_outcome (sw_pause p s) (\<lambda>s. bind_outcome (sw_resume r s) (sw_run xs))"

fun pauses_ordered :: "instant \<Rightarrow> (instant \<times> instant) list \<Rightarrow> instant \<Rightarrow> bool" where
  "pauses_ordered t [] now = (t \<le> now)"
| "pauses_ordered t ((p, r) # xs) now = (t \<le> p \<and> p \<le> r \<and> pauses_ordered r xs now)"

definition total_paused :: "(instant \<times> instant) list \<Rightarrow> nat" where
  "total_paused xs = sum_list (map (\<lambda>(p, r). r - p) xs)"

lemma sw_run_Ret:
  assumes "\<not> sw_is_paused s"
  shows "\<exists>s'. sw_run xs s = Ret s' \<and> \<not> sw_is_paused s' \<and> sw_instant s' = sw_instant s \<and>
     sw_paused_time s' = sw_paused_time s + total_paused xs"
  using assms
proof (induction xs arbitrary: s)
  case (Cons x xs)
  obtain p r where x: "x = (p, r)" by fastforce
  define s1 where "s1 = s\<lparr>sw_paused_time := sw_paused_time s + (r - p), sw_pause_state := SwRunning\<rparr>"
  have "sw_run (x # xs) s = sw_run xs s1"
    using Cons.prems by (simp add: x s1_def sw_pause_def sw_resume_def sw_is_paused_def
        split: stopwatch_pause_state.splits)
  moreover have "\<not> sw_is_paused s1" by (simp add: s1_def sw_is_paused_def)
  ultimately show ?case using Cons.IH [of s1] by (auto simp: s1_def x total_paused_def)
qed (simp add: total_paused_def)

lemma pauses_ordered_le: "pauses_ordered t xs now \<Longrightarrow> t + total_paused xs \<le> now"
proof (induction t xs now rule: pauses_ordered.induct)
  case (2 t p r xs now)
  then show ?case by (auto simp: total_paused_def)
qed (simp add: total_paused_def)

end
