(* ===== verification/Dispatcher.thy ===== *)
theory Dispatcher
  imports Run_Events Max_Fail Timers Binary_Id
begin

text \<open>
  The dispatcher, \<open>nextest-runner/src/runner/dispatcher.rs\<close> with the events of
  \<open>internal_events.rs\<close> and \<open>signal.rs\<close>: the state machine that receives events from the
  executor, signals, keyboard input and timers, keeps the run statistics and the running units,
  decides on cancellation, and reports to the reporter and to the running units.

  The state is the record \<open>dispatcher\<close>. Its last three fields record what the dispatcher has
  done to its environment, oldest first: the calls of the reporter callback, the requests sent
  to units, and what it has let start (setup scripts, tests and retries). \<open>env\<close> is what an event handler observes: the clock
  when the event arrives and after the handler has waited for units, whether the task that asks
  to start is still there to take the answer, which units still receive requests, and how many
  of them answer a query in time. Fields that are only passed on for display (program and arguments, output,
  slot and command line, JUnit settings) and the USDT probes are left out. The model is of the
  release build on Unix: \<open>debug_assert!\<close> is not executed.
\<close>

section \<open>Events\<close>

datatype shutdown_signal_event = Hangup | Term | Quit | SigInterrupt

datatype shutdown_event = ShutdownSignal shutdown_signal_event | ShutdownTestFailureImmediate

definition TERMINATE :: shutdown_event where "TERMINATE = ShutdownSignal Term"

datatype shutdown_request = Once shutdown_event | Twice

datatype signal_request = ReqStop | ReqContinue | ReqShutdown shutdown_request

datatype run_unit_request = SignalReq signal_request | OtherCancel | QueryGetInfo

datatype job_control_event = JobStop | JobContinue
datatype signal_info_event = Usr1 | SigInfo

datatype signal_event =
    SigJobControl job_control_event
  | SigShutdown shutdown_event
  | SigInfoEvent signal_info_event

datatype input_event = InputInfo | InputEnter

type_synonym script_id = string

datatype executor_event =
    SetupScriptStarted script_id nat nat
  | SetupScriptSlow script_id duration "duration option"
  | SetupScriptFinished script_id nat nat execution_result
  | Started test_instance_id flaky_result
  | Slow test_instance_id retry_data duration "duration option"
  | AttemptFailedWillRetry test_instance_id execute_status duration
  | RetryStarted test_instance_id retry_data
  | Finished test_instance_id execute_status
  | Skipped test_instance_id mismatch_reason

datatype internal_event =
    Tick
  | Executor executor_event
  | SignalEv signal_event
  | InputEv input_event
  | ReportCancel
  | GlobalTimeoutEv

datatype info_event = InfoSignal signal_info_event | InfoInput

datatype cancel_event = CancelReport | CancelTestFailure | CancelGlobalTimeout | CancelSignal shutdown_request

datatype handle_event_response =
    RespJobControl job_control_event
  | RespInfo info_event
  | RespCancel cancel_event
  | RespNone

datatype signal_count = CountOnce | CountTwice

fun to_request :: "signal_count \<Rightarrow> shutdown_event \<Rightarrow> shutdown_request" where
  "to_request CountOnce event = Once event"
| "to_request CountTwice event = Twice"

fun event_to_cancel_reason :: "shutdown_event \<Rightarrow> cancel_reason" where
  "event_to_cancel_reason (ShutdownSignal SigInterrupt) = Interrupt"
| "event_to_cancel_reason (ShutdownSignal _) = Signal"
| "event_to_cancel_reason ShutdownTestFailureImmediate = TestFailureImmediate"


section \<open>State\<close>

record context_test_instance =
  past_attempts :: "execute_status list"
  ctx_flaky_result :: flaky_result

definition ctx_finish :: "context_test_instance \<Rightarrow> execute_status \<Rightarrow> execution_statuses" where
  "ctx_finish c l = \<lparr>statuses = past_attempts c @ [l], flaky_result_of = ctx_flaky_result c\<rparr>"

datatype rerun_context = InitialRun | Rerun "test_instance_id set"

record stress_state =
  ss_condition :: stress_condition
  ss_sub_stopwatch :: stopwatch
  ss_completed :: nat
  ss_failed :: nat
  ss_cancelled :: bool
  ss_outcome :: "run_outcome option"

datatype unit_key = UScript script_id | UTest test_instance_id

datatype start_grant = GrantScript script_id | GrantTest test_instance_id | GrantRetry test_instance_id retry_data

record tests_not_seen =
  tns_not_seen :: "test_instance_id list"
  tns_total_not_seen :: nat

datatype run_finished_stats = Single run_stats | Stress stress_run_stats

datatype reporter_event =
    RTick
  | RSetupScriptStarted script_id nat nat
  | RSetupScriptSlow script_id duration bool
  | RSetupScriptFinished script_id nat nat execution_result
  | RTestStarted test_instance_id run_stats nat
  | RTestSlow test_instance_id retry_data duration bool
  | RTestAttemptFailedWillRetry test_instance_id execute_status duration nat
  | RTestRetryStarted test_instance_id retry_data nat
  | RTestFinished test_instance_id execution_statuses run_stats nat
  | RTestSkipped test_instance_id mismatch_reason
  | RInfoStarted nat run_stats
  | RInfoResponse nat nat
  | RInfoFinished nat
  | RInputEnter run_stats nat
  | RRunBeginCancel nat run_stats nat
  | RRunBeginKill nat run_stats nat
  | RRunPaused nat nat
  | RRunContinued nat nat
  | RStressSubRunStarted stress_progress
  | RStressSubRunFinished stress_progress duration run_stats
  | RRunFinished duration run_finished_stats "tests_not_seen option"

record dispatcher =
  dc_stopwatch :: stopwatch
  dc_run_stats :: run_stats
  dc_max_fail :: max_fail
  dc_global_timeout :: duration
  dc_running_setup_script :: "script_id option"
  dc_running_tests :: "(test_instance_id \<times> context_test_instance) list"
  dc_signal_count :: "signal_count option"
  dc_stress_cx :: "stress_state option"
  dc_rerun_cx :: rerun_context
  dc_reported :: "reporter_event list"
  dc_sent :: "(unit_key \<times> run_unit_request) list"
  dc_unblocked :: "start_grant list"

record env =
  env_now :: instant
  env_after :: instant
  env_ack :: bool
  env_alive :: "unit_key \<Rightarrow> bool"
  env_responses :: nat

definition stress_new :: "instant \<Rightarrow> stress_condition option \<Rightarrow> stress_state option" where
  "stress_new now condition =
     map_option (\<lambda>c. \<lparr>ss_condition = c, ss_sub_stopwatch = stopwatch_new now, ss_completed = 0,
        ss_failed = 0, ss_cancelled = False, ss_outcome = None\<rparr>) condition"

definition rerun_new :: "test_instance_id set option \<Rightarrow> rerun_context" where
  "rerun_new expected = (case expected of Some e \<Rightarrow> Rerun e | None \<Rightarrow> InitialRun)"

definition dispatcher_new ::
  "instant \<Rightarrow> nat \<Rightarrow> max_fail \<Rightarrow> duration \<Rightarrow> stress_condition option \<Rightarrow> test_instance_id set option \<Rightarrow> dispatcher" where
  "dispatcher_new now run_count mf timeout stress expected =
     \<lparr>dc_stopwatch = stopwatch_new now,
      dc_run_stats = default_run_stats\<lparr>initial_run_count := run_count\<rparr>,
      dc_max_fail = mf, dc_global_timeout = timeout, dc_running_setup_script = None,
      dc_running_tests = [], dc_signal_count = None, dc_stress_cx = stress_new now stress,
      dc_rerun_cx = rerun_new expected, dc_reported = [], dc_sent = [], dc_unblocked = []\<rparr>"


section \<open>Operations on the state\<close>

definition callback :: "reporter_event \<Rightarrow> dispatcher \<Rightarrow> dispatcher" where
  "callback ev d = d\<lparr>dc_reported := dc_reported d @ [ev]\<rparr>"

definition setup_scripts_running :: "dispatcher \<Rightarrow> nat" where
  "setup_scripts_running d = (if dc_running_setup_script d = None then 0 else 1)"

definition running :: "dispatcher \<Rightarrow> nat" where
  "running d = length (dc_running_tests d)"

text \<open>The units a broadcast reaches: the setup script, then the tests in key order.\<close>

definition running_units :: "dispatcher \<Rightarrow> unit_key list" where
  "running_units d =
     (case dc_running_setup_script d of None \<Rightarrow> [] | Some s \<Rightarrow> [UScript s]) @
     map (UTest \<circ> fst) (dc_running_tests d)"

definition broadcast_request :: "env \<Rightarrow> run_unit_request \<Rightarrow> dispatcher \<Rightarrow> dispatcher \<times> nat" where
  "broadcast_request env req d =
     (let receivers = filter (env_alive env) (running_units d)
      in (d\<lparr>dc_sent := dc_sent d @ map (\<lambda>u. (u, req)) receivers\<rparr>, length receivers))"

definition new_setup_script :: "script_id \<Rightarrow> dispatcher \<Rightarrow> dispatcher" where
  "new_setup_script s d = d\<lparr>dc_running_setup_script := Some s\<rparr>"

definition finish_setup_script :: "dispatcher \<Rightarrow> dispatcher" where
  "finish_setup_script d = d\<lparr>dc_running_setup_script := None\<rparr>"

definition mark_seen :: "test_instance_id \<Rightarrow> rerun_context \<Rightarrow> rerun_context" where
  "mark_seen t cx = (case cx of InitialRun \<Rightarrow> InitialRun | Rerun expected \<Rightarrow> Rerun (expected - {t}))"

definition into_tests_not_seen :: "rerun_context \<Rightarrow> tests_not_seen option" where
  "into_tests_not_seen cx =
     (case cx of
        InitialRun \<Rightarrow> None
      | Rerun not_seen \<Rightarrow>
          Some \<lparr>tns_not_seen = take 8 (sorted_list_of_set not_seen), tns_total_not_seen = card not_seen\<rparr>)"

definition new_test :: "test_instance_id \<Rightarrow> flaky_result \<Rightarrow> dispatcher \<Rightarrow> dispatcher outcome" where
  "new_test t fr d =
     (let d = d\<lparr>dc_rerun_cx := mark_seen t (dc_rerun_cx d)\<rparr> in
      if t \<in> fst ` set (dc_running_tests d) then Panic
      else Ret (d\<lparr>dc_running_tests :=
             insort_key fst (t, \<lparr>past_attempts = [], ctx_flaky_result = fr\<rparr>) (dc_running_tests d)\<rparr>))"

definition update_ctx ::
  "test_instance_id \<Rightarrow> (context_test_instance \<Rightarrow> context_test_instance)
     \<Rightarrow> (test_instance_id \<times> context_test_instance) list \<Rightarrow> (test_instance_id \<times> context_test_instance) list" where
  "update_ctx t f xs = map (\<lambda>(k, c). if k = t then (k, f c) else (k, c)) xs"

definition test_attempt_failed_will_retry ::
  "test_instance_id \<Rightarrow> execute_status \<Rightarrow> dispatcher \<Rightarrow> dispatcher outcome" where
  "test_attempt_failed_will_retry t st d =
     (if t \<notin> fst ` set (dc_running_tests d) then Panic
      else Ret (d\<lparr>dc_running_tests :=
             update_ctx t (\<lambda>c. c\<lparr>past_attempts := past_attempts c @ [st]\<rparr>) (dc_running_tests d)\<rparr>))"

definition finish_test ::
  "test_instance_id \<Rightarrow> execute_status \<Rightarrow> dispatcher \<Rightarrow> (dispatcher \<times> execution_statuses) outcome" where
  "finish_test t st d =
     (case map_of (dc_running_tests d) t of
        None \<Rightarrow> Panic
      | Some c \<Rightarrow>
          Ret (d\<lparr>dc_running_tests := filter (\<lambda>(k, _). k \<noteq> t) (dc_running_tests d)\<rparr>, ctx_finish c st))"

definition increment_signal_count :: "dispatcher \<Rightarrow> (dispatcher \<times> signal_count) outcome" where
  "increment_signal_count d =
     (case dc_signal_count d of
        None \<Rightarrow> Ret (d\<lparr>dc_signal_count := Some CountOnce\<rparr>, CountOnce)
      | Some CountOnce \<Rightarrow> Ret (d\<lparr>dc_signal_count := Some CountTwice\<rparr>, CountTwice)
      | Some CountTwice \<Rightarrow> Panic)"

definition set_cancel_reason :: "cancel_reason \<Rightarrow> dispatcher \<Rightarrow> dispatcher" where
  "set_cancel_reason r d = d\<lparr>dc_run_stats := (dc_run_stats d)\<lparr>cancel_reason_of := Some r\<rparr>\<rparr>"

definition begin_cancel ::
  "cancel_reason \<Rightarrow> cancel_event \<Rightarrow> dispatcher \<Rightarrow> dispatcher \<times> handle_event_response" where
  "begin_cancel reason event d =
     (if event = CancelSignal Twice then
        (let d = set_cancel_reason SecondSignal d in
         (callback (RRunBeginKill (setup_scripts_running d) (dc_run_stats d) (running d)) d, RespCancel event))
      else if cancel_less (cancel_reason_of (dc_run_stats d)) reason then
        (let d = set_cancel_reason reason d in
         (callback (RRunBeginCancel (setup_scripts_running d) (dc_run_stats d) (running d)) d, RespCancel event))
      else (d, RespNone))"

definition handle_signal_event ::
  "env \<Rightarrow> signal_event \<Rightarrow> dispatcher \<Rightarrow> (dispatcher \<times> handle_event_response) outcome" where
  "handle_signal_event env event d =
     (case event of
        SigShutdown ev \<Rightarrow>
          bind_outcome
            (case ev of
               ShutdownTestFailureImmediate \<Rightarrow> Ret (d, Once ev)
             | ShutdownSignal _ \<Rightarrow>
                 bind_outcome (increment_signal_count d) (\<lambda>(d, c). Ret (d, to_request c ev)))
            (\<lambda>(d, req). Ret (begin_cancel (event_to_cancel_reason ev) (CancelSignal req) d))
      | SigJobControl JobStop \<Rightarrow>
          (if \<not> sw_is_paused (dc_stopwatch d) then
             bind_outcome (sw_pause (env_now env) (dc_stopwatch d)) (\<lambda>w.
               Ret ((callback (RRunPaused (setup_scripts_running d) (running d)) d)\<lparr>dc_stopwatch := w\<rparr>,
                    RespJobControl JobStop))
           else Ret (d, RespNone))
      | SigJobControl JobContinue \<Rightarrow>
          (if sw_is_paused (dc_stopwatch d) then
             bind_outcome (sw_resume (env_now env) (dc_stopwatch d)) (\<lambda>w.
               Ret (callback (RRunContinued (setup_scripts_running d) (running d)) (d\<lparr>dc_stopwatch := w\<rparr>),
                    RespJobControl JobContinue))
           else Ret (d, RespNone))
      | SigInfoEvent ev \<Rightarrow> Ret (d, RespInfo (InfoSignal ev)))"


section \<open>Events\<close>

definition handle_started :: "env \<Rightarrow> test_instance_id \<Rightarrow> flaky_result \<Rightarrow> dispatcher \<Rightarrow> dispatcher outcome" where
  "handle_started env t fr d =
     (if cancel_reason_of (dc_run_stats d) \<noteq> None then Ret d
      else
        let d = callback (RTestStarted t (dc_run_stats d) (running d + 1)) d in
        if \<not> env_ack env then Ret d
        else new_test t fr (d\<lparr>dc_unblocked := dc_unblocked d @ [GrantTest t]\<rparr>))"

definition handle_setup_script_started :: "env \<Rightarrow> script_id \<Rightarrow> nat \<Rightarrow> nat \<Rightarrow> dispatcher \<Rightarrow> dispatcher" where
  "handle_setup_script_started env s index tot d =
     (if cancel_reason_of (dc_run_stats d) \<noteq> None then d
      else
        let d = callback (RSetupScriptStarted s index tot) d in
        if \<not> env_ack env then d
        else new_setup_script s (d\<lparr>dc_unblocked := dc_unblocked d @ [GrantScript s]\<rparr>))"

definition handle_setup_script_finished ::
  "script_id \<Rightarrow> nat \<Rightarrow> nat \<Rightarrow> execution_result \<Rightarrow> dispatcher \<Rightarrow> dispatcher \<times> handle_event_response" where
  "handle_setup_script_finished s index tot result d =
     (let d = finish_setup_script d;
          d = d\<lparr>dc_run_stats := on_setup_script_finished (dc_run_stats d) result\<rparr>;
          fail_cancel = (\<not> is_success result);
          d = callback (RSetupScriptFinished s index tot result) d
      in if fail_cancel then begin_cancel SetupScriptFailure CancelTestFailure d else (d, RespNone))"

definition handle_retry_started :: "env \<Rightarrow> test_instance_id \<Rightarrow> retry_data \<Rightarrow> dispatcher \<Rightarrow> dispatcher" where
  "handle_retry_started env t rd d =
     (if cancel_reason_of (dc_run_stats d) \<noteq> None then d
      else
        let d = callback (RTestRetryStarted t rd (running d)) d in
        if env_ack env then d\<lparr>dc_unblocked := dc_unblocked d @ [GrantRetry t rd]\<rparr> else d)"

definition immediate_shutdown :: shutdown_request where
  "immediate_shutdown = Once ShutdownTestFailureImmediate"

definition handle_finished ::
  "env \<Rightarrow> test_instance_id \<Rightarrow> execute_status \<Rightarrow> dispatcher \<Rightarrow> (dispatcher \<times> handle_event_response) outcome" where
  "handle_finished env t st d =
     bind_outcome (finish_test t st d) (\<lambda>(d, run_statuses).
     bind_outcome (on_test_finished (dc_run_stats d) run_statuses) (\<lambda>stats.
     let d = d\<lparr>dc_run_stats := stats\<rparr>;
         terminate_mode = is_exceeded (dc_max_fail d) (failed_count stats);
         d = callback (RTestFinished t run_statuses stats (running d)) d
     in Ret (case terminate_mode of
       Some Immediate \<Rightarrow>
         (let d = fst (broadcast_request env (SignalReq (ReqShutdown immediate_shutdown)) d)
          in begin_cancel TestFailureImmediate (CancelSignal immediate_shutdown) d)
     | Some Wait \<Rightarrow> begin_cancel TestFailure CancelTestFailure d
     | None \<Rightarrow> (d, RespNone))))"

definition handle_skipped :: "test_instance_id \<Rightarrow> mismatch_reason \<Rightarrow> dispatcher \<Rightarrow> dispatcher" where
  "handle_skipped t reason d =
     callback (RTestSkipped t reason)
       (if is_substantive_skip reason
        then d\<lparr>dc_run_stats := (dc_run_stats d)\<lparr>skipped := skipped (dc_run_stats d) + 1\<rparr>\<rparr>
        else d)"

fun handle_event :: "env \<Rightarrow> internal_event \<Rightarrow> dispatcher \<Rightarrow> (dispatcher \<times> handle_event_response) outcome" where
  "handle_event env Tick d = Ret (callback RTick d, RespNone)"
| "handle_event env (Executor (SetupScriptStarted s index tot)) d =
     Ret (handle_setup_script_started env s index tot d, RespNone)"
| "handle_event env (Executor (SetupScriptSlow s elapsed will_terminate)) d =
     Ret (callback (RSetupScriptSlow s elapsed (will_terminate \<noteq> None)) d, RespNone)"
| "handle_event env (Executor (SetupScriptFinished s index tot result)) d =
     Ret (handle_setup_script_finished s index tot result d)"
| "handle_event env (Executor (Started t fr)) d =
     bind_outcome (handle_started env t fr d) (\<lambda>d. Ret (d, RespNone))"
| "handle_event env (Executor (Slow t rd elapsed will_terminate)) d =
     Ret (callback (RTestSlow t rd elapsed (will_terminate \<noteq> None)) d, RespNone)"
| "handle_event env (Executor (AttemptFailedWillRetry t st delay)) d =
     bind_outcome (test_attempt_failed_will_retry t st d) (\<lambda>d.
       Ret (callback (RTestAttemptFailedWillRetry t st delay (running d)) d, RespNone))"
| "handle_event env (Executor (RetryStarted t rd)) d = Ret (handle_retry_started env t rd d, RespNone)"
| "handle_event env (Executor (Finished t st)) d = handle_finished env t st d"
| "handle_event env (Executor (Skipped t reason)) d = Ret (handle_skipped t reason d, RespNone)"
| "handle_event env (SignalEv event) d = handle_signal_event env event d"
| "handle_event env GlobalTimeoutEv d = Ret (begin_cancel GlobalTimeout CancelGlobalTimeout d)"
| "handle_event env (InputEv InputInfo) d = Ret (d, RespInfo InfoInput)"
| "handle_event env (InputEv InputEnter) d =
     Ret (callback (RInputEnter (dc_run_stats d) (running d)) d, RespNone)"
| "handle_event env ReportCancel d = Ret (begin_cancel ReportError CancelReport d)"


section \<open>Stress runs\<close>

definition stress_progress_at :: "duration \<Rightarrow> stress_state \<Rightarrow> stress_progress" where
  "stress_progress_at total_elapsed s =
     (case ss_condition s of
        CondCount tot \<Rightarrow> ProgressCount tot total_elapsed (ss_completed s)
      | CondDuration tot \<Rightarrow> ProgressTime tot total_elapsed (ss_completed s))"

definition stress_progress_of :: "instant \<Rightarrow> dispatcher \<Rightarrow> stress_progress option" where
  "stress_progress_of now d =
     map_option (stress_progress_at (snap_active (sw_snapshot now (dc_stopwatch d)))) (dc_stress_cx d)"

definition stress_index_of :: "stress_state \<Rightarrow> stress_index" where
  "stress_index_of s =
     \<lparr>si_current = ss_completed s,
      si_total = (case ss_condition s of CondCount (StressCount count) \<Rightarrow> Some count | _ \<Rightarrow> None)\<rparr>"

definition mark_completed :: "instant \<Rightarrow> final_run_stats \<Rightarrow> stress_state \<Rightarrow> stress_state \<times> duration" where
  "mark_completed now summary s =
     (let sub_run_outcome = from_final_stats summary;
          s = s\<lparr>ss_completed := ss_completed s + 1,
                ss_outcome := Some (case ss_outcome s of
                    Some so_far \<Rightarrow> combine so_far sub_run_outcome | None \<Rightarrow> sub_run_outcome)\<rparr>;
          s = (case summary of
                 FSuccess \<Rightarrow> s
               | FNoTestsRun \<Rightarrow> s
               | FFailed _ \<Rightarrow> s\<lparr>ss_failed := ss_failed s + 1\<rparr>
               | FCancelled _ _ \<Rightarrow> s\<lparr>ss_cancelled := True\<rparr>)
      in (s\<lparr>ss_sub_stopwatch := stopwatch_new now\<rparr>, snap_active (sw_snapshot now (ss_sub_stopwatch s))))"

definition stress_run_stats_of :: "final_run_stats \<Rightarrow> stress_state \<Rightarrow> stress_run_stats" where
  "stress_run_stats_of last_final_stats s =
     (let success_count = ss_completed s - ss_failed s;
          success_count = (if ss_cancelled s then success_count - 1 else success_count)
      in \<lparr>srs_completed = stress_index_of s, srs_success_count = success_count,
          srs_failed_count = ss_failed s, srs_last_final_stats = last_final_stats\<rparr>)"

definition final_outcome :: "final_run_stats \<Rightarrow> dispatcher \<Rightarrow> run_outcome outcome" where
  "final_outcome final_stats d =
     (case dc_stress_cx d of
        None \<Rightarrow> Ret (from_final_stats final_stats)
      | Some s \<Rightarrow> (case ss_outcome s of None \<Rightarrow> Panic | Some r \<Rightarrow> Ret r))"

fun stress_summary_for_outcome :: "run_outcome \<Rightarrow> stress_final_run_stats" where
  "stress_summary_for_outcome OSuccess = SFSuccess"
| "stress_summary_for_outcome ONoTestsRun = SFNoTestsRun"
| "stress_summary_for_outcome (OCancelled _) = SFCancelled"
| "stress_summary_for_outcome (OFailed _) = SFFailed"

definition pause_stopwatch :: "instant \<Rightarrow> dispatcher \<Rightarrow> dispatcher outcome" where
  "pause_stopwatch now d =
     (case dc_stress_cx d of
        None \<Rightarrow> Ret d
      | Some s \<Rightarrow> bind_outcome (sw_pause now (ss_sub_stopwatch s))
                   (\<lambda>w. Ret (d\<lparr>dc_stress_cx := Some (s\<lparr>ss_sub_stopwatch := w\<rparr>)\<rparr>)))"

definition resume_stopwatch :: "instant \<Rightarrow> dispatcher \<Rightarrow> dispatcher outcome" where
  "resume_stopwatch now d =
     (case dc_stress_cx d of
        None \<Rightarrow> Ret d
      | Some s \<Rightarrow> bind_outcome (sw_resume now (ss_sub_stopwatch s))
                   (\<lambda>w. Ret (d\<lparr>dc_stress_cx := Some (s\<lparr>ss_sub_stopwatch := w\<rparr>)\<rparr>)))"

datatype stress_loop_action = StressContinue stress_progress | StressStop

definition after_sub_run ::
  "final_run_stats \<Rightarrow> cancel_reason option \<Rightarrow> stress_progress \<Rightarrow> stress_loop_action" where
  "after_sub_run sub_final_stats reason next_progress =
     (case reason of
        Some _ \<Rightarrow> StressStop
      | None \<Rightarrow>
          (case sub_final_stats of
             FCancelled _ _ \<Rightarrow> StressStop
           | _ \<Rightarrow> (case remaining next_progress of
                     Some _ \<Rightarrow> StressContinue next_progress
                   | None \<Rightarrow> StressStop)))"

definition stress_sub_run_started :: "stress_progress \<Rightarrow> dispatcher \<Rightarrow> dispatcher" where
  "stress_sub_run_started progress d =
     (let sub_stats = dc_run_stats d;
          d = d\<lparr>dc_run_stats := default_run_stats\<lparr>initial_run_count := initial_run_count sub_stats\<rparr>\<rparr>
      in callback (RStressSubRunStarted progress) d)"

text \<open>Marking a sub-run of a run that is not a stress run panics.\<close>

definition stress_sub_run_finished :: "env \<Rightarrow> dispatcher \<Rightarrow> (dispatcher \<times> stress_loop_action) outcome" where
  "stress_sub_run_finished env d =
     (case dc_stress_cx d of
        None \<Rightarrow> Panic
      | Some s \<Rightarrow>
          (let sub_final_stats = summarize_final (dc_run_stats d);
               (s, sub_elapsed) = mark_completed (env_now env) sub_final_stats s;
               d = d\<lparr>dc_stress_cx := Some s\<rparr>;
               progress_at = (\<lambda>now. stress_progress_at (snap_active (sw_snapshot now (dc_stopwatch d))) s);
               d = callback (RStressSubRunFinished (progress_at (env_now env)) sub_elapsed (dc_run_stats d)) d
           in Ret (d, after_sub_run sub_final_stats (cancel_reason_of (dc_run_stats d))
                        (progress_at (env_after env)))))"

definition run_finished :: "instant \<Rightarrow> dispatcher \<Rightarrow> (dispatcher \<times> run_outcome) outcome" where
  "run_finished now d =
     (let elapsed = snap_active (sw_snapshot now (dc_stopwatch d));
          final_stats = summarize_final (dc_run_stats d)
      in bind_outcome (final_outcome final_stats d) (\<lambda>result.
         let stress_stats = map_option (stress_run_stats_of final_stats) (dc_stress_cx d);
             not_seen = into_tests_not_seen (dc_rerun_cx d);
             d = d\<lparr>dc_rerun_cx := InitialRun\<rparr>;
             stats = (case stress_stats of None \<Rightarrow> Single (dc_run_stats d) | Some st \<Rightarrow> Stress st)
         in Ret (callback (RRunFinished elapsed stats not_seen) d, result)))"


section \<open>The run loop\<close>

text \<open>
  One pass of the loop in \<open>run\<close>: the event is handled, then the response. The loop keeps the
  global timeout with whether it has fired.
\<close>

record run_state =
  rs_dispatcher :: dispatcher
  rs_sleep :: pausable_sleep
  rs_fired :: bool

definition do_broadcast :: "env \<Rightarrow> run_unit_request \<Rightarrow> dispatcher \<Rightarrow> dispatcher" where
  "do_broadcast env req d = fst (broadcast_request env req d)"

fun cancel_request :: "cancel_event \<Rightarrow> run_unit_request" where
  "cancel_request CancelReport = OtherCancel"
| "cancel_request CancelTestFailure = OtherCancel"
| "cancel_request CancelGlobalTimeout = SignalReq (ReqShutdown (Once TERMINATE))"
| "cancel_request (CancelSignal req) = SignalReq (ReqShutdown req)"

text \<open>
  An information request: it is broadcast, the responses that arrive in time are reported, and
  then the number of missing ones. Every unit that received the request answers at most once.
\<close>

definition collect_info :: "env \<Rightarrow> dispatcher \<Rightarrow> dispatcher" where
  "collect_info env d =
     (let (d, tot) = broadcast_request env QueryGetInfo d;
          d = callback (RInfoStarted tot (dc_run_stats d)) d;
          received = min (env_responses env) tot;
          d = fold (\<lambda>index. callback (RInfoResponse index tot)) [0..<received] d
      in callback (RInfoFinished (tot - (received + 1))) d)"

fun respond :: "env \<Rightarrow> handle_event_response \<Rightarrow> run_state \<Rightarrow> run_state outcome" where
  "respond env (RespJobControl JobStop) s =
     (let d = do_broadcast env (SignalReq ReqStop) (rs_dispatcher s) in
      bind_outcome (sl_pause (env_after env) (rs_sleep s)) (\<lambda>sleep.
      bind_outcome (pause_stopwatch (env_after env) d) (\<lambda>d.
      Ret (s\<lparr>rs_dispatcher := d, rs_sleep := sleep\<rparr>))))"
| "respond env (RespJobControl JobContinue) s =
     bind_outcome (sl_resume (env_after env) (rs_sleep s)) (\<lambda>sleep.
     bind_outcome (resume_stopwatch (env_after env) (rs_dispatcher s)) (\<lambda>d.
     Ret (s\<lparr>rs_dispatcher := do_broadcast env (SignalReq ReqContinue) d, rs_sleep := sleep\<rparr>)))"
| "respond env (RespInfo _) s = Ret (s\<lparr>rs_dispatcher := collect_info env (rs_dispatcher s)\<rparr>)"
| "respond env (RespCancel c) s =
     Ret (s\<lparr>rs_dispatcher := do_broadcast env (cancel_request c) (rs_dispatcher s)\<rparr>)"
| "respond env RespNone s = Ret s"

definition run_step :: "env \<Rightarrow> internal_event \<Rightarrow> run_state \<Rightarrow> run_state outcome" where
  "run_step env event s =
     (let s = (if event = GlobalTimeoutEv then s\<lparr>rs_fired := True\<rparr> else s) in
      bind_outcome (handle_event env event (rs_dispatcher s)) (\<lambda>(d, resp).
      respond env resp (s\<lparr>rs_dispatcher := d\<rparr>)))"

text \<open>When \<open>select!\<close> can take an event: the global timeout fires at most once, past its deadline.\<close>

definition event_ready :: "env \<Rightarrow> internal_event \<Rightarrow> run_state \<Rightarrow> bool" where
  "event_ready env event s \<longleftrightarrow>
     env_now env \<le> env_after env \<and>
     (event = GlobalTimeoutEv \<longrightarrow> \<not> rs_fired s \<and> sl_fires (env_now env) (rs_sleep s))"

text \<open>Entering \<open>run\<close>, and the start of the run in \<open>TestRunnerInner::execute\<close>.\<close>

definition enter_run :: "instant \<Rightarrow> dispatcher \<Rightarrow> run_state" where
  "enter_run now d =
     \<lparr>rs_dispatcher = d, rs_sleep = sleep_new now (dc_global_timeout d), rs_fired = False\<rparr>"

definition start_run :: "instant \<Rightarrow> dispatcher \<Rightarrow> run_state" where
  "start_run now d =
     (case stress_progress_of now d of
        None \<Rightarrow> enter_run now d
      | Some progress \<Rightarrow> enter_run now (stress_sub_run_started progress d))"

definition next_sub_run :: "env \<Rightarrow> run_state \<Rightarrow> run_state option outcome" where
  "next_sub_run env s =
     bind_outcome (stress_sub_run_finished env (rs_dispatcher s)) (\<lambda>(d, action).
       Ret (case action of
              StressContinue progress \<Rightarrow> Some (enter_run (env_after env) (stress_sub_run_started progress d))
            | StressStop \<Rightarrow> None))"

end
