(* ===== verification/Partition.thy ===== *)
theory Partition
  imports Rust_Num "HOL-Library.Word"
begin

text \<open>
  Partitioning of a test run over several machines (\<open>nextest-runner/src/partition.rs\<close>): the
  syntax \<open>count:M/N\<close>, \<open>hash:M/N\<close> and \<open>slice:M/N\<close>, and the partitioners, which decide for one
  test after the other whether it belongs to the shard. Shard numbers are 64-bit words, as in
  the code, so that \<open>shard - 1\<close>, \<open>curr + 1\<close> and the remainders are those of the machine.

  The hash function, \<open>xxh64\<close> of the third-party crate \<open>xxhash-rust\<close> with seed 0, is a
  parameter; nothing is assumed of it.

  The lemmas show what a partitioner does after any number of tests: the next test falls into
  a bucket that depends on the kind of partitioning and on the number of shards only, and the
  shard takes exactly the tests of its own bucket.
\<close>

type_synonym u32 = "32 word"
type_synonym u64 = "64 word"
type_synonym xxh64 = "string \<Rightarrow> u64"

section \<open>Building a partitioner\<close>

datatype partitioner_builder =
    CountBuilder (pb_shard: u64) (pb_total_shards: u64)
  | HashBuilder (pb_shard: u64) (pb_total_shards: u64)
  | SliceBuilder (pb_shard: u64) (pb_total_shards: u64)

datatype partitioner_scope = PerBinary | CrossBinary

fun partitioner_scope_of :: "partitioner_builder \<Rightarrow> partitioner_scope" where
  "partitioner_scope_of (CountBuilder _ _) = PerBinary"
| "partitioner_scope_of (HashBuilder _ _) = PerBinary"
| "partitioner_scope_of (SliceBuilder _ _) = CrossBinary"

record count_partitioner =
  cp_shard_minus_one :: u64
  cp_total_shards :: u64
  cp_curr :: u64

record hash_partitioner =
  hp_shard_minus_one :: u64
  hp_total_shards :: u64

datatype partitioner = CountPart count_partitioner | HashPart hash_partitioner

definition count_partitioner_new :: "u64 \<Rightarrow> u64 \<Rightarrow> count_partitioner" where
  "count_partitioner_new shard total_shards =
     \<lparr>cp_shard_minus_one = shard - 1, cp_total_shards = total_shards, cp_curr = 0\<rparr>"

definition hash_partitioner_new :: "u64 \<Rightarrow> u64 \<Rightarrow> hash_partitioner" where
  "hash_partitioner_new shard total_shards =
     \<lparr>hp_shard_minus_one = shard - 1, hp_total_shards = total_shards\<rparr>"

fun partitioner_build :: "partitioner_builder \<Rightarrow> partitioner" where
  "partitioner_build (CountBuilder shard total_shards) = CountPart (count_partitioner_new shard total_shards)"
| "partitioner_build (SliceBuilder shard total_shards) = CountPart (count_partitioner_new shard total_shards)"
| "partitioner_build (HashBuilder shard total_shards) = HashPart (hash_partitioner_new shard total_shards)"

text \<open>
  The partitioner takes the next test: its new state, and whether the test is in the shard. The
  remainder of a division by zero panics.
\<close>

definition count_test_matches :: "count_partitioner \<Rightarrow> (count_partitioner \<times> bool) outcome" where
  "count_test_matches p =
     (let matches = (cp_curr p = cp_shard_minus_one p)
      in if cp_total_shards p = 0 then Panic
         else Ret (p\<lparr>cp_curr := (cp_curr p + 1) mod cp_total_shards p\<rparr>, matches))"

definition hash_test_matches :: "xxh64 \<Rightarrow> hash_partitioner \<Rightarrow> string \<Rightarrow> bool outcome" where
  "hash_test_matches xxh p test_name =
     (if hp_total_shards p = 0 then Panic
      else Ret (xxh test_name mod hp_total_shards p = hp_shard_minus_one p))"

fun partitioner_test_matches :: "xxh64 \<Rightarrow> partitioner \<Rightarrow> string \<Rightarrow> (partitioner \<times> bool) outcome" where
  "partitioner_test_matches xxh (CountPart p) test_name =
     bind_outcome (count_test_matches p) (\<lambda>(p, m). Ret (CountPart p, m))"
| "partitioner_test_matches xxh (HashPart p) test_name =
     bind_outcome (hash_test_matches xxh p test_name) (\<lambda>m. Ret (HashPart p, m))"


section \<open>The syntax\<close>

text \<open>The errors, one constructor for each message; the text of a message repeats the input.\<close>

datatype shards_error =
    NotMOverN string
  | BadShard string int_error_kind
  | BadTotalShards string int_error_kind
  | ShardOutOfRange u64 u64

datatype partitioner_parse_error = UnknownPartitioner string | ShardsError string shards_error

definition parse_shards :: "string \<Rightarrow> shards_error + (u64 \<times> u64)" where
  "parse_shards input =
     (case split_once ''/'' input of
        None \<Rightarrow> Inl (NotMOverN input)
      | Some (shard_str, total_shards_str) \<Rightarrow>
          (case parse_u64 shard_str of
             Inl err \<Rightarrow> Inl (BadShard shard_str err)
           | Inr shard \<Rightarrow>
               (case parse_u64 total_shards_str of
                  Inl err \<Rightarrow> Inl (BadTotalShards total_shards_str err)
                | Inr total_shards \<Rightarrow>
                    (let m = word_of_int shard; n = word_of_int total_shards
                     in if \<not> (1 \<le> m \<and> m \<le> n) then Inl (ShardOutOfRange m n) else Inr (m, n)))))"

definition parse_partitioner :: "string \<Rightarrow> partitioner_parse_error + partitioner_builder" where
  "parse_partitioner s =
     (if prefix ''hash:'' s then
        (case parse_shards (drop 5 s) of
           Inl e \<Rightarrow> Inl (ShardsError ''hash:M/N'' e) | Inr (m, n) \<Rightarrow> Inr (HashBuilder m n))
      else if prefix ''count:'' s then
        (case parse_shards (drop 6 s) of
           Inl e \<Rightarrow> Inl (ShardsError ''count:M/N'' e) | Inr (m, n) \<Rightarrow> Inr (CountBuilder m n))
      else if prefix ''slice:'' s then
        (case parse_shards (drop 6 s) of
           Inl e \<Rightarrow> Inl (ShardsError ''slice:M/N'' e) | Inr (m, n) \<Rightarrow> Inr (SliceBuilder m n))
      else Inl (UnknownPartitioner s))"


section \<open>What the syntax accepts\<close>

definition valid_builder :: "partitioner_builder \<Rightarrow> bool" where
  "valid_builder b \<longleftrightarrow> 1 \<le> pb_shard b \<and> pb_shard b \<le> pb_total_shards b"

definition partitioner_prefix :: "partitioner_builder \<Rightarrow> string" where
  "partitioner_prefix b =
     (case b of CountBuilder _ _ \<Rightarrow> ''count:'' | HashBuilder _ _ \<Rightarrow> ''hash:'' | SliceBuilder _ _ \<Rightarrow> ''slice:'')"

definition show_partitioner :: "partitioner_builder \<Rightarrow> string" where
  "show_partitioner b =
     partitioner_prefix b @ show_nat (unat (pb_shard b)) @ ''/'' @ show_nat (unat (pb_total_shards b))"

lemma unat_le_U64_MAX: "int (unat (w :: u64)) \<le> U64_MAX"
proof -
  have "unat w < 2 ^ LENGTH(64)" by (rule unsigned_less)
  then have "int (unat w) < 2 ^ LENGTH(64)" by (metis of_nat_less_iff of_nat_numeral of_nat_power)
  then show ?thesis by (simp add: U64_MAX_def)
qed

lemma parse_shards_show:
  assumes "1 \<le> m" "m \<le> n"
  shows "parse_shards (show_nat (unat m) @ ''/'' @ show_nat (unat n)) = Inr (m, n)"
proof -
  have "CHR ''/'' \<notin> set (show_nat (unat m))" by (rule show_nat_free) simp
  then have "split_once ''/'' (show_nat (unat m) @ ''/'' @ show_nat (unat n)) =
      Some (show_nat (unat m), show_nat (unat n))"
    by (intro split_once_append) (auto simp: sublist_def in_set_conv_decomp)
  with assms show ?thesis
    by (simp add: parse_shards_def parse_u64_show_nat [OF unat_le_U64_MAX])
qed

lemma parse_shards_valid: "parse_shards s = Inr (m, n) \<Longrightarrow> 1 \<le> m \<and> m \<le> n"
  by (auto simp: parse_shards_def Let_def split: option.splits sum.splits prod.splits if_splits)

lemma parse_partitioner_valid: "parse_partitioner s = Inr b \<Longrightarrow> valid_builder b"
  by (auto simp: parse_partitioner_def valid_builder_def dest: parse_shards_valid
      split: if_splits sum.splits prod.splits)

lemma parse_partitioner_show: "valid_builder b \<Longrightarrow> parse_partitioner (show_partitioner b) = Inr b"
  using parse_shards_show [of "pb_shard b" "pb_total_shards b"]
  by (cases b) (simp_all add: show_partitioner_def partitioner_prefix_def parse_partitioner_def valid_builder_def)


section \<open>Buckets\<close>

text \<open>
  The bucket of the \<open>j\<close>-th test of a sequence, which does not depend on the shard, and the
  state of a partitioner after \<open>j\<close> tests.
\<close>

definition bucket :: "xxh64 \<Rightarrow> partitioner_builder \<Rightarrow> nat \<Rightarrow> string \<Rightarrow> nat" where
  "bucket xxh b j test_name = (case b of
     HashBuilder _ n \<Rightarrow> unat (xxh test_name) mod unat n
   | CountBuilder _ n \<Rightarrow> j mod unat n
   | SliceBuilder _ n \<Rightarrow> j mod unat n)"

definition in_shard :: "xxh64 \<Rightarrow> partitioner_builder \<Rightarrow> nat \<Rightarrow> string \<Rightarrow> bool" where
  "in_shard xxh b j test_name \<longleftrightarrow> Suc (bucket xxh b j test_name) = unat (pb_shard b)"

definition state_after :: "partitioner_builder \<Rightarrow> nat \<Rightarrow> partitioner" where
  "state_after b j = (case partitioner_build b of
     CountPart p \<Rightarrow> CountPart (p\<lparr>cp_curr := of_nat (j mod unat (cp_total_shards p))\<rparr>)
   | HashPart p \<Rightarrow> HashPart p)"

lemma state_after_0: "state_after b 0 = partitioner_build b"
  by (cases b) (simp_all add: state_after_def count_partitioner_new_def)

lemma valid_builder_pos: "valid_builder b \<Longrightarrow> pb_total_shards b \<noteq> 0"
  by (metis valid_builder_def word_gt_0 word_le_less_eq word_less_1 dual_order.trans not_one_le_zero word_zero_le antisym)

lemma valid_builder_nat:
  "valid_builder b \<longleftrightarrow> 1 \<le> unat (pb_shard b) \<and> unat (pb_shard b) \<le> unat (pb_total_shards b)"
  by (simp add: valid_builder_def word_le_nat_alt)

lemma unat_shard_minus_one: "1 \<le> (m :: u64) \<Longrightarrow> unat (m - 1) = unat m - 1"
  by (simp add: unat_sub word_le_nat_alt)

lemma unat_of_nat_mod: "(n :: u64) \<noteq> 0 \<Longrightarrow> unat (of_nat (j mod unat n) :: u64) = j mod unat n"
proof -
  assume "n \<noteq> 0"
  then have "j mod unat n < unat n" by (simp add: unat_gt_0)
  also have "unat n < 2 ^ LENGTH(64)" by (rule unsigned_less)
  finally show ?thesis by (simp add: unsigned_of_nat take_bit_nat_eq_self)
qed

lemma count_next:
  assumes "(n :: u64) \<noteq> 0"
  shows "(of_nat (j mod unat n) + 1) mod n = of_nat (Suc j mod unat n)"
proof -
  have lt: "j mod unat n < unat n" using assms by (simp add: unat_gt_0)
  have "unat n < 2 ^ LENGTH(64)" by (rule unsigned_less)
  then have "unat (of_nat (Suc (j mod unat n)) :: u64) = Suc (j mod unat n)"
    using lt by (simp add: unsigned_of_nat take_bit_nat_eq_self del: of_nat_Suc)
  then have "unat ((of_nat (Suc (j mod unat n)) :: u64) mod n) = unat (of_nat (Suc j mod unat n) :: u64)"
    by (simp add: unat_mod unat_of_nat_mod [OF assms] mod_Suc_eq del: of_nat_Suc)
  then show ?thesis by (simp add: word_unat_eq_iff add.commute)
qed

lemma partitioner_step:
  assumes "valid_builder b"
  shows "partitioner_test_matches xxh (state_after b j) test_name =
           Ret (state_after b (Suc j), in_shard xxh b j test_name)"
proof -
  have n: "pb_total_shards b \<noteq> 0" using assms by (rule valid_builder_pos)
  have m: "unat (pb_shard b - 1) = unat (pb_shard b) - 1" "1 \<le> unat (pb_shard b)"
    using assms by (auto simp: valid_builder_def valid_builder_nat [symmetric] unat_shard_minus_one word_le_nat_alt)
  have eq: "(a = unat (pb_shard b - 1)) = (Suc a = unat (pb_shard b))" for a using m by arith
  show ?thesis
    using n eq
    by (cases b) (simp_all add: state_after_def count_test_matches_def hash_test_matches_def in_shard_def
        bucket_def count_partitioner_new_def hash_partitioner_new_def word_unat_eq_iff [of _ "_ - 1"]
        unat_of_nat_mod count_next unat_mod)
qed

lemma bucket_lt: "valid_builder b \<Longrightarrow> bucket xxh b j test_name < unat (pb_total_shards b)"
  using valid_builder_pos [of b] by (cases b) (simp_all add: bucket_def unat_gt_0)

end
