(* ===== verification/Attempts.thy ===== *)
theory Attempts
  imports Dispatcher Partition
begin

text \<open>
  Retries: the retry policy with its validation
  (\<open>nextest-runner/src/config/elements/retry_policy.rs\<close>), the delays between attempts, and the
  loop that runs the attempts of one test (\<open>run_test_instance\<close> and \<open>BackoffIter\<close> in
  \<open>nextest-runner/src/runner/executor.rs\<close>).

  Counts are 32-bit words, since \<open>count() + 1\<close> can wrap. What happens outside the loop is an
  input (\<open>attempt_env\<close>): the status that an attempt ends with, whether the dispatcher lets a
  start or a retry go on, and the two operations of the backoff on floating-point numbers,
  \<open>Duration::mul_f64\<close>, which panics when the product is out of range, and the random jitter. The
  factor of the backoff is a power of two, which \<open>f64\<close> holds exactly.
\<close>

section \<open>Retry policies\<close>

datatype retry_policy =
    Fixed u32 duration bool
  | Exponential u32 duration bool "duration option"

definition new_without_delay :: "u32 \<Rightarrow> retry_policy" where
  "new_without_delay count = Fixed count 0 False"

fun retry_count :: "retry_policy \<Rightarrow> u32" where
  "retry_count (Fixed count _ _) = count"
| "retry_count (Exponential count _ _ _) = count"

text \<open>
  A configured value is a number or a table; serde has already rejected other shapes, unknown
  fields and missing ones.
\<close>

datatype retry_value = RetryNumber int | RetryTable retry_policy

datatype retry_error =
    RetryNegative int
  | RetryTooLarge int
  | JitterWithoutDelay
  | ExponentialCountZero
  | ExponentialDelayZero
  | MaxDelayZero
  | MaxDelayBelowDelay

definition retry_visit :: "retry_value \<Rightarrow> retry_error + retry_policy" where
  "retry_visit v = (case v of
     RetryNumber n \<Rightarrow>
       (if n \<ge> 0 then (if n < 2 ^ 32 then Inr (new_without_delay (word_of_int n)) else Inl (RetryTooLarge n))
        else Inl (RetryNegative n))
   | RetryTable p \<Rightarrow> Inr p)"

definition deserialize_retry_policy :: "retry_value \<Rightarrow> retry_error + retry_policy" where
  "deserialize_retry_policy v = (case retry_visit v of
     Inl e \<Rightarrow> Inl e
   | Inr p \<Rightarrow> (case p of
       Fixed _ delay jitter \<Rightarrow> if delay = 0 \<and> jitter then Inl JitterWithoutDelay else Inr p
     | Exponential count delay _ max_delay \<Rightarrow>
         if count = 0 then Inl ExponentialCountZero
         else if delay = 0 then Inl ExponentialDelayZero
         else if max_delay = Some 0 then Inl MaxDelayZero
         else (case max_delay of
                 Some m \<Rightarrow> if m < delay then Inl MaxDelayBelowDelay else Inr p
               | None \<Rightarrow> Inr p)))"


section \<open>Backoff\<close>

record attempt_env =
  ae_run :: "u32 \<Rightarrow> duration \<Rightarrow> execute_status"
  ae_start :: bool
  ae_retry :: "u32 \<Rightarrow> bool"
  ae_mul :: "duration \<Rightarrow> nat \<Rightarrow> duration outcome"
  ae_jitter :: "u32 \<Rightarrow> duration \<Rightarrow> duration"

record backoff_iter =
  bi_policy :: retry_policy
  bi_current_factor :: nat
  bi_remaining :: u32

definition backoff_new :: "retry_policy \<Rightarrow> backoff_iter" where
  "backoff_new policy = \<lparr>bi_policy = policy, bi_current_factor = 1, bi_remaining = retry_count policy\<rparr>"

definition next_delay_and_jitter :: "attempt_env \<Rightarrow> backoff_iter \<Rightarrow> (backoff_iter \<times> duration \<times> bool) outcome" where
  "next_delay_and_jitter env b = (case bi_policy b of
     Fixed _ delay jitter \<Rightarrow> Ret (b, delay, jitter)
   | Exponential _ delay jitter max_delay \<Rightarrow>
       bind_outcome (ae_mul env delay (bi_current_factor b)) (\<lambda>exp_delay.
         case max_delay of
           Some m \<Rightarrow> if exp_delay > m then Ret (b, m, jitter)
                     else Ret (b\<lparr>bi_current_factor := bi_current_factor b * 2\<rparr>, exp_delay, jitter)
         | None \<Rightarrow> Ret (b\<lparr>bi_current_factor := bi_current_factor b * 2\<rparr>, exp_delay, jitter)))"

definition backoff_next :: "attempt_env \<Rightarrow> backoff_iter \<Rightarrow> (backoff_iter \<times> duration option) outcome" where
  "backoff_next env b =
     (if bi_remaining b > 0 then
        bind_outcome (next_delay_and_jitter env b) (\<lambda>(b', delay, jitter).
          let delay = (if jitter then ae_jitter env (bi_remaining b') delay else delay)
          in Ret (b'\<lparr>bi_remaining := bi_remaining b' - 1\<rparr>, Some delay))
      else Ret (b, None))"


section \<open>The attempts of a test\<close>

lemma attempts_left_decrease:
  assumes "(n :: u32) < tot"
  shows "unat (tot - (n + 1)) < unat (tot - n)"
proof -
  have "tot - n \<noteq> 0" using assms by auto
  then have "unat (tot - n - 1) = unat (tot - n) - 1" "0 < unat (tot - n)"
    by (auto simp: unat_minus_one unat_gt_0)
  then show ?thesis by (simp add: diff_diff_add)
qed

text \<open>
  One pass of the loop for each attempt: the events that are sent, in order. The test exits
  silently if the dispatcher does not let a retry start. \<open>expect\<close> panics if the backoff is
  exhausted.
\<close>

function attempt_loop ::
  "attempt_env \<Rightarrow> test_instance_id \<Rightarrow> u32 \<Rightarrow> u32 \<Rightarrow> duration \<Rightarrow> backoff_iter \<Rightarrow> executor_event list outcome" where
  "attempt_loop env t tot prev delay b =
     (let n = prev + 1; rd = \<lparr>attempt = unat n, total_attempts = unat tot\<rparr>;
          started = (if n > 1 then [RetryStarted t rd] else [])
      in if n > 1 \<and> \<not> ae_retry env n then Ret started
         else
           (let st = ae_run env n delay
            in if is_success (es_result st) then Ret (started @ [Finished t st])
               else if n < tot then
                 bind_outcome (backoff_next env b) (\<lambda>(b, d). case d of
                   None \<Rightarrow> Panic
                 | Some d \<Rightarrow>
                     bind_outcome (attempt_loop env t tot n d b) (\<lambda>evs.
                       Ret (started @ AttemptFailedWillRetry t st d # evs)))
               else Ret (started @ [Finished t st])))"
  by pat_completeness auto

termination
  by (relation "measure (\<lambda>(env, t, tot, prev, delay, b). unat (tot - (prev + 1)))")
    (auto dest: attempts_left_decrease)

declare attempt_loop.simps [simp del]

definition run_test_instance ::
  "attempt_env \<Rightarrow> test_instance_id \<Rightarrow> filter_match \<Rightarrow> flaky_result \<Rightarrow> retry_policy \<Rightarrow> executor_event list outcome" where
  "run_test_instance env t fm fr retry_policy =
     (let tot = retry_count retry_policy + 1; b = backoff_new retry_policy
      in case fm of
           Mismatch reason \<Rightarrow> Ret [Skipped t reason]
         | Matches \<Rightarrow>
             if \<not> ae_start env then Ret [Started t fr]
             else bind_outcome (attempt_loop env t tot 0 0 b) (\<lambda>evs. Ret (Started t fr # evs)))"


section \<open>The loop as a list of attempts\<close>

text \<open>
  The delays that the backoff yields, one after the other, and the events of the attempts with
  these delays: attempt \<open>k\<close> runs after the delay \<open>ds ! (k - 2)\<close>, the first without delay.
\<close>

fun backoff_delays :: "attempt_env \<Rightarrow> backoff_iter \<Rightarrow> nat \<Rightarrow> duration list outcome" where
  "backoff_delays env b 0 = Ret []"
| "backoff_delays env b (Suc n) = bind_outcome (backoff_next env b) (\<lambda>(b, d). case d of
     None \<Rightarrow> Panic | Some d \<Rightarrow> bind_outcome (backoff_delays env b n) (\<lambda>ds. Ret (d # ds)))"

fun attempt_events ::
  "attempt_env \<Rightarrow> test_instance_id \<Rightarrow> nat \<Rightarrow> nat \<Rightarrow> duration \<Rightarrow> duration list \<Rightarrow> executor_event list" where
  "attempt_events env t tot k delay ds =
     (if k > 1 then [RetryStarted t \<lparr>attempt = k, total_attempts = tot\<rparr>] else []) @
     (if k > 1 \<and> \<not> ae_retry env (of_nat k) then []
      else let st = ae_run env (of_nat k) delay in
        if is_success (es_result st) then [Finished t st]
        else (case ds of
                [] \<Rightarrow> [Finished t st]
              | d # ds \<Rightarrow> AttemptFailedWillRetry t st d # attempt_events env t tot (Suc k) d ds))"

end
