(* ===== verification/Test_List.thy ===== *)
theory Test_List
  imports Test_Filter Partition
begin

text \<open>
  The test list (\<open>nextest-runner/src/list/test_list.rs\<close>): parsing what the test binaries print
  when asked for their tests, applying the test filter, dividing the selected tests into
  shards, counting what is skipped, and the order in which tests are queued
  (\<open>nextest-runner/src/config/elements/priority.rs\<close>).

  Running a binary to list its tests is a parameter (\<open>lp_exec\<close>: its two outputs, or an error),
  and so is the lookup of test groups, which the profile computes from all listed tests. The
  binaries are listed concurrently; \<open>test_list_new\<close> takes them in the order of completion.

  Suites and test cases are kept in ordered maps of the third-party crate \<open>iddqd\<close>. A map is
  represented by the list of its items in the order of iteration, and the two operations that
  build maps are parameters (\<open>ord_maps\<close>), whose documented behaviour \<open>ord_maps_ok\<close> states:
  iteration is in key order, and inserting replaces the item with the same key. A suite holds
  the parts of a test binary that filters look at (a \<open>binary_query\<close>); its paths and the other
  metadata pass through the code unchanged.
\<close>

section \<open>Data\<close>

record parsed_test_case =
  pt_name :: test_case_name
  pt_kind :: rust_test_kind
  pt_ignored :: bool

datatype parsed_test_binary =
    ParsedListed binary_query "parsed_test_case list"
  | ParsedSkipped binary_query binary_mismatch_reason

record rust_test_case =
  tc_name :: test_case_name
  tc_kind :: "rust_test_kind option"
  tc_ignored :: bool
  tc_filter_match :: filter_match

datatype rust_test_suite_status = SuiteListed "rust_test_case list" | SuiteSkipped binary_mismatch_reason

record rust_test_suite =
  ts_query :: binary_query
  ts_status :: rust_test_suite_status

abbreviation ts_binary_id :: "rust_test_suite \<Rightarrow> rust_binary_id" where
  "ts_binary_id s \<equiv> bq_binary_id (ts_query s)"

datatype 'e create_test_list_error = ParseLine rust_binary_id string string | ListFailed 'e

record ord_maps =
  om_insert_case :: "rust_test_case \<Rightarrow> rust_test_case list \<Rightarrow> rust_test_case list"
  om_collect_suites :: "rust_test_suite list \<Rightarrow> rust_test_suite list"

record 'e list_profile =
  lp_ecx :: eval_context
  lp_exec :: "binary_query \<Rightarrow> 'e + (string \<times> string)"
  lp_groups :: "test_query list \<Rightarrow> group_lookup"


section \<open>Parsing the list of tests\<close>

text \<open>\<open>str::lines\<close>: a line ends with LF or CR LF, and the last line may have no end.\<close>

definition strip_cr :: "string \<Rightarrow> string" where
  "strip_cr s = (if s \<noteq> [] \<and> last s = CHR 0x0D then butlast s else s)"

fun lines_from :: "string \<Rightarrow> string \<Rightarrow> string list" where
  "lines_from acc [] = (if acc = [] then [] else [acc])"
| "lines_from acc (c # cs) =
     (if c = CHR 0x0A then strip_cr acc # lines_from [] cs else lines_from (acc @ [c]) cs)"

definition str_lines :: "string \<Rightarrow> string list" where "str_lines s = lines_from [] s"

definition strip_suffix :: "string \<Rightarrow> string \<Rightarrow> string option" where
  "strip_suffix suf s = (if suffix suf s then Some (take (length s - length suf) s) else None)"

fun parse_list_lines ::
  "rust_binary_id \<Rightarrow> string \<Rightarrow> string list \<Rightarrow> 'e create_test_list_error + (string \<times> rust_test_kind) list" where
  "parse_list_lines binary_id list_output [] = Inr []"
| "parse_list_lines binary_id list_output (l # ls) =
     (case (case strip_suffix '': test'' l of
              Some test_name \<Rightarrow> Some (test_name, kind_test)
            | None \<Rightarrow> map_option (\<lambda>test_name. (test_name, kind_bench)) (strip_suffix '': benchmark'' l)) of
        None \<Rightarrow> Inl (ParseLine binary_id l list_output)
      | Some t \<Rightarrow> (case parse_list_lines binary_id list_output ls of Inl e \<Rightarrow> Inl e | Inr ts \<Rightarrow> Inr (t # ts)))"

definition parse_list :: "rust_binary_id \<Rightarrow> string \<Rightarrow> 'e create_test_list_error + (string \<times> rust_test_kind) list" where
  "parse_list binary_id list_output =
     (case parse_list_lines binary_id list_output (str_lines list_output) of
        Inl e \<Rightarrow> Inl e | Inr ts \<Rightarrow> Inr (sort ts))"

definition parsed_cases :: "bool \<Rightarrow> (string \<times> rust_test_kind) list \<Rightarrow> parsed_test_case list" where
  "parsed_cases ignored =
     map (\<lambda>(test_name, kind). \<lparr>pt_name = TestCaseName test_name, pt_kind = kind, pt_ignored = ignored\<rparr>)"

definition parse_output ::
  "binary_query \<Rightarrow> string \<Rightarrow> string \<Rightarrow> 'e create_test_list_error + parsed_test_binary" where
  "parse_output test_binary non_ignored ignored =
     (case parse_list (bq_binary_id test_binary) non_ignored of
        Inl e \<Rightarrow> Inl e
      | Inr ts \<Rightarrow>
          (case parse_list (bq_binary_id test_binary) ignored of
             Inl e \<Rightarrow> Inl e
           | Inr ts' \<Rightarrow> Inr (ParsedListed test_binary (parsed_cases False ts @ parsed_cases True ts'))))"


section \<open>Applying the filter\<close>

fun filter_cases ::
  "nat \<Rightarrow> ord_maps \<Rightarrow> test_filter \<Rightarrow> binary_query \<Rightarrow> eval_context \<Rightarrow> filter_bound \<Rightarrow> group_lookup option
     \<Rightarrow> rust_test_case list \<Rightarrow> parsed_test_case list \<Rightarrow> rust_test_case list evaluation" where
  "filter_cases fuel om f query ecx bound groups m [] = Some (Ret m)"
| "filter_cases fuel om f query ecx bound groups m (tc # tcs) =
     bind_eval (test_filter_match fuel f query (pt_name tc) (pt_kind tc) ecx bound (pt_ignored tc) groups)
       (\<lambda>fm. filter_cases fuel om f query ecx bound groups
          (om_insert_case om \<lparr>tc_name = pt_name tc, tc_kind = Some (pt_kind tc), tc_ignored = pt_ignored tc,
             tc_filter_match = fm\<rparr> m) tcs)"

fun build_suite_list ::
  "nat \<Rightarrow> ord_maps \<Rightarrow> test_filter \<Rightarrow> eval_context \<Rightarrow> filter_bound \<Rightarrow> group_lookup option
     \<Rightarrow> parsed_test_binary list \<Rightarrow> rust_test_suite list evaluation" where
  "build_suite_list fuel om f ecx bound groups [] = Some (Ret [])"
| "build_suite_list fuel om f ecx bound groups (ParsedListed query tcs # bs) =
     bind_eval (filter_cases fuel om f query ecx bound groups [] tcs) (\<lambda>filtered.
     bind_eval (build_suite_list fuel om f ecx bound groups bs) (\<lambda>suites.
       Some (Ret (\<lparr>ts_query = query, ts_status = SuiteListed filtered\<rparr> # suites))))"
| "build_suite_list fuel om f ecx bound groups (ParsedSkipped query reason # bs) =
     bind_eval (build_suite_list fuel om f ecx bound groups bs) (\<lambda>suites.
       Some (Ret (\<lparr>ts_query = query, ts_status = SuiteSkipped reason\<rparr> # suites)))"

definition build_suites ::
  "nat \<Rightarrow> ord_maps \<Rightarrow> test_filter \<Rightarrow> eval_context \<Rightarrow> filter_bound \<Rightarrow> group_lookup option
     \<Rightarrow> parsed_test_binary list \<Rightarrow> rust_test_suite list evaluation" where
  "build_suites fuel om f ecx bound groups parsed =
     bind_eval (build_suite_list fuel om f ecx bound groups parsed) (\<lambda>suites.
       Some (Ret (om_collect_suites om suites)))"

definition collect_test_queries :: "parsed_test_binary list \<Rightarrow> test_query list" where
  "collect_test_queries parsed =
     concat (map (\<lambda>b. case b of
        ParsedListed query tcs \<Rightarrow> map (\<lambda>tc. \<lparr>binary_query_of = query, tq_test_name = pt_name tc\<rparr>) tcs
      | ParsedSkipped _ _ \<Rightarrow> []) parsed)"


section \<open>Partitioning\<close>

definition apply_partition_to_test ::
  "xxh64 \<Rightarrow> partitioner \<Rightarrow> rust_test_case \<Rightarrow> (partitioner \<times> rust_test_case) outcome" where
  "apply_partition_to_test xxh p tc =
     (case tc_filter_match tc of
        Matches \<Rightarrow>
          bind_outcome (partitioner_test_matches xxh p (case_str (tc_name tc))) (\<lambda>(p, m).
            Ret (p, if \<not> m then tc\<lparr>tc_filter_match := Mismatch MPartition\<rparr> else tc))
      | Mismatch MRerunAlreadyPassed \<Rightarrow>
          bind_outcome (partitioner_test_matches xxh p (case_str (tc_name tc))) (\<lambda>(p, _). Ret (p, tc))
      | Mismatch _ \<Rightarrow> Ret (p, tc))"

fun apply_partitioner_to_tests ::
  "xxh64 \<Rightarrow> bool \<Rightarrow> partitioner \<Rightarrow> rust_test_case list \<Rightarrow> (partitioner \<times> rust_test_case list) outcome" where
  "apply_partitioner_to_tests xxh ignored p [] = Ret (p, [])"
| "apply_partitioner_to_tests xxh ignored p (tc # tcs) =
     (if tc_ignored tc = ignored then
        bind_outcome (apply_partition_to_test xxh p tc) (\<lambda>(p, tc').
        bind_outcome (apply_partitioner_to_tests xxh ignored p tcs) (\<lambda>(p, tcs'). Ret (p, tc' # tcs')))
      else bind_outcome (apply_partitioner_to_tests xxh ignored p tcs) (\<lambda>(p, tcs'). Ret (p, tc # tcs')))"

fun apply_per_binary_partitioning ::
  "xxh64 \<Rightarrow> partitioner_builder \<Rightarrow> rust_test_suite list \<Rightarrow> rust_test_suite list outcome" where
  "apply_per_binary_partitioning xxh b [] = Ret []"
| "apply_per_binary_partitioning xxh b (s # ss) =
     (case ts_status s of
        SuiteSkipped _ \<Rightarrow>
          bind_outcome (apply_per_binary_partitioning xxh b ss) (\<lambda>ss'. Ret (s # ss'))
      | SuiteListed tcs \<Rightarrow>
          bind_outcome (apply_partitioner_to_tests xxh False (partitioner_build b) tcs) (\<lambda>(_, tcs).
          bind_outcome (apply_partitioner_to_tests xxh True (partitioner_build b) tcs) (\<lambda>(_, tcs).
          bind_outcome (apply_per_binary_partitioning xxh b ss) (\<lambda>ss'.
            Ret (s\<lparr>ts_status := SuiteListed tcs\<rparr> # ss')))))"

text \<open>One pass over all suites with one partitioner.\<close>

fun cross_binary_pass ::
  "xxh64 \<Rightarrow> bool \<Rightarrow> partitioner \<Rightarrow> rust_test_suite list \<Rightarrow> rust_test_suite list outcome" where
  "cross_binary_pass xxh ignored p [] = Ret []"
| "cross_binary_pass xxh ignored p (s # ss) =
     (case ts_status s of
        SuiteSkipped _ \<Rightarrow> bind_outcome (cross_binary_pass xxh ignored p ss) (\<lambda>ss'. Ret (s # ss'))
      | SuiteListed tcs \<Rightarrow>
          bind_outcome (apply_partitioner_to_tests xxh ignored p tcs) (\<lambda>(p, tcs).
          bind_outcome (cross_binary_pass xxh ignored p ss) (\<lambda>ss'.
            Ret (s\<lparr>ts_status := SuiteListed tcs\<rparr> # ss'))))"

definition apply_cross_binary_partitioning ::
  "xxh64 \<Rightarrow> partitioner_builder \<Rightarrow> rust_test_suite list \<Rightarrow> rust_test_suite list outcome" where
  "apply_cross_binary_partitioning xxh b suites =
     bind_outcome (cross_binary_pass xxh False (partitioner_build b) suites) (\<lambda>suites.
       cross_binary_pass xxh True (partitioner_build b) suites)"

definition apply_partitioning ::
  "xxh64 \<Rightarrow> partitioner_builder option \<Rightarrow> rust_test_suite list \<Rightarrow> rust_test_suite list outcome" where
  "apply_partitioning xxh b suites =
     (case b of
        None \<Rightarrow> Ret suites
      | Some b \<Rightarrow> (case partitioner_scope_of b of
            PerBinary \<Rightarrow> apply_per_binary_partitioning xxh b suites
          | CrossBinary \<Rightarrow> apply_cross_binary_partitioning xxh b suites))"


section \<open>The test list\<close>

fun suite_test_cases :: "rust_test_suite_status \<Rightarrow> rust_test_case list" where
  "suite_test_cases (SuiteListed tcs) = tcs"
| "suite_test_cases (SuiteSkipped _) = []"

fun suite_test_count :: "rust_test_suite_status \<Rightarrow> nat" where
  "suite_test_count (SuiteListed tcs) = length tcs"
| "suite_test_count (SuiteSkipped _) = 0"

definition suite_get :: "test_case_name \<Rightarrow> rust_test_suite_status \<Rightarrow> rust_test_case option" where
  "suite_get name st = (case st of
     SuiteListed tcs \<Rightarrow> find (\<lambda>tc. tc_name tc = name) tcs | SuiteSkipped _ \<Rightarrow> None)"

record test_list =
  tl_test_count :: nat
  tl_mode :: nextest_run_mode
  tl_rust_suites :: "rust_test_suite list"

definition list_binary ::
  "nat \<Rightarrow> test_filter \<Rightarrow> 'e list_profile \<Rightarrow> filter_bound \<Rightarrow> binary_query
     \<Rightarrow> ('e create_test_list_error + parsed_test_binary) option" where
  "list_binary fuel f profile bound query =
     map_option (\<lambda>m. case m of
        BinaryMismatch reason \<Rightarrow> Inr (ParsedSkipped query reason)
      | _ \<Rightarrow> (case lp_exec profile query of
                Inl e \<Rightarrow> Inl (ListFailed e)
              | Inr (non_ignored, ignored) \<Rightarrow> parse_output query non_ignored ignored))
       (filter_binary_match_of fuel f query (lp_ecx profile) bound)"

fun list_binaries ::
  "nat \<Rightarrow> test_filter \<Rightarrow> 'e list_profile \<Rightarrow> filter_bound \<Rightarrow> binary_query list
     \<Rightarrow> ('e create_test_list_error + parsed_test_binary list) option" where
  "list_binaries fuel f profile bound [] = Some (Inr [])"
| "list_binaries fuel f profile bound (q # qs) =
     Option.bind (list_binary fuel f profile bound q) (\<lambda>r. case r of
        Inl e \<Rightarrow> Some (Inl e)
      | Inr b \<Rightarrow> map_option (map_sum id (\<lambda>bs. b # bs)) (list_binaries fuel f profile bound qs))"

definition test_list_new ::
  "nat \<Rightarrow> ord_maps \<Rightarrow> xxh64 \<Rightarrow> test_filter \<Rightarrow> partitioner_builder option \<Rightarrow> 'e list_profile \<Rightarrow> filter_bound
     \<Rightarrow> binary_query list \<Rightarrow> ('e create_test_list_error + test_list) evaluation" where
  "test_list_new fuel om xxh f pb profile bound completed =
     Option.bind (list_binaries fuel f profile bound completed) (\<lambda>r. case r of
        Inl e \<Rightarrow> Some (Ret (Inl e))
      | Inr parsed \<Rightarrow>
          (let groups = (if has_group_predicates f then Some (lp_groups profile (collect_test_queries parsed))
                         else None)
           in bind_eval (build_suites fuel om f (lp_ecx profile) bound groups parsed) (\<lambda>suites.
              bind_eval (Some (apply_partitioning xxh pb suites)) (\<lambda>suites.
                Some (Ret (Inr \<lparr>tl_test_count = sum_list (map (\<lambda>s. suite_test_count (ts_status s)) suites),
                   tl_mode = tf_mode f, tl_rust_suites = suites\<rparr>))))))"

definition iter_tests :: "test_list \<Rightarrow> (binary_query \<times> rust_test_case) list" where
  "iter_tests l =
     concat (map (\<lambda>s. map (\<lambda>tc. (ts_query s, tc)) (suite_test_cases (ts_status s))) (tl_rust_suites l))"

record skip_counts =
  sc_skipped_tests :: nat
  sc_skipped_tests_rerun :: nat
  sc_skipped_tests_non_benchmark :: nat
  sc_skipped_tests_default_filter :: nat
  sc_skipped_binaries :: nat
  sc_skipped_binaries_default_filter :: nat

definition skip_counts_of :: "test_list \<Rightarrow> skip_counts" where
  "skip_counts_of l =
     (let ms = map (tc_filter_match \<circ> snd) (iter_tests l);
          sts = map ts_status (tl_rust_suites l);
          count = (\<lambda>P xs. length (filter P xs))
      in \<lparr>sc_skipped_tests = count (\<lambda>m. m \<noteq> Matches) ms,
          sc_skipped_tests_rerun = count (\<lambda>m. m = Mismatch MRerunAlreadyPassed) ms,
          sc_skipped_tests_non_benchmark =
            count (\<lambda>m. case m of Mismatch r \<Rightarrow> \<not> is_substantive_skip r | Matches \<Rightarrow> False) ms,
          sc_skipped_tests_default_filter = count (\<lambda>m. m = Mismatch MDefaultFilter) ms,
          sc_skipped_binaries =
            length (filter (\<lambda>st. case st of SuiteSkipped _ \<Rightarrow> True | SuiteListed _ \<Rightarrow> False) sts),
          sc_skipped_binaries_default_filter = length (filter (\<lambda>st. st = SuiteSkipped BDefaultSet) sts)\<rparr>)"

text \<open>An unsigned subtraction that would go below zero panics.\<close>

definition run_count :: "test_list \<Rightarrow> nat outcome" where
  "run_count l =
     (let k = sc_skipped_tests (skip_counts_of l)
      in if k \<le> tl_test_count l then Ret (tl_test_count l - k) else Panic)"

definition binary_count :: "test_list \<Rightarrow> nat" where
  "binary_count l = length (tl_rust_suites l)"

definition listed_binary_count :: "test_list \<Rightarrow> nat outcome" where
  "listed_binary_count l =
     (let k = sc_skipped_binaries (skip_counts_of l)
      in if k \<le> binary_count l then Ret (binary_count l - k) else Panic)"


section \<open>Priorities\<close>

text \<open>A priority is an 8-bit integer from -100 to 100. Higher priorities compare as smaller.\<close>

datatype test_priority = TestPriority (to_i8: int)

definition test_priority_new :: "int \<Rightarrow> int + test_priority" where
  "test_priority_new priority =
     (if \<not> (-100 \<le> priority \<and> priority \<le> 100) then Inl priority else Inr (TestPriority priority))"

definition priority_le :: "test_priority \<Rightarrow> test_priority \<Rightarrow> bool" where
  "priority_le a b \<longleftrightarrow> to_i8 b \<le> to_i8 a"

instantiation test_priority :: linorder
begin

definition less_eq_test_priority :: "test_priority \<Rightarrow> test_priority \<Rightarrow> bool" where
  "less_eq_test_priority = priority_le"

definition less_test_priority :: "test_priority \<Rightarrow> test_priority \<Rightarrow> bool" where
  "less_test_priority a b \<longleftrightarrow> to_i8 b < to_i8 a"

instance
  by standard (auto simp: less_eq_test_priority_def priority_le_def less_test_priority_def test_priority.expand)

end

text \<open>
  The queue pairs every test with its settings, which the profile computes; of the settings,
  the order looks at the priority.
\<close>

definition test_priority_queue ::
  "(test_query \<Rightarrow> test_priority) \<Rightarrow> test_list \<Rightarrow> (binary_query \<times> rust_test_case) list" where
  "test_priority_queue priority_of l =
     sort_key (\<lambda>(query, tc). priority_of \<lparr>binary_query_of = query, tq_test_name = tc_name tc\<rparr>) (iter_tests l)"

end
