(* ===== verification/Config_Elements.thy ===== *)
theory Config_Elements
  imports Max_Fail Attempts Test_List
begin

text \<open>
  The values of the configuration, \<open>nextest-runner/src/config/elements\<close> and
  \<open>config/core/identifier.rs\<close>: identifiers of test groups and scripts, thread counts, timeouts,
  test groups, JUnit and archive settings, and what is accepted for them.

  Parsing TOML and dispatching to the \<open>visit_\<close> methods is done by third-party crates; a value
  arrives as a string, an integer or a table. The number of CPUs, and the parser of durations (the
  crate \<open>humantime\<close>), are arguments. Unicode tables and normalization are those of third-party
  crates too: a validated identifier is a value of \<open>config_identifier\<close>.
\<close>

section \<open>Identifiers\<close>

text \<open>
  \<open>ConfigIdentifier::new\<close> accepts \<open>name\<close> and \<open>@tool:tool:name\<close>, where neither part is empty or
  holds a colon; the two constructors are these two forms.
\<close>

datatype config_identifier = RegularIdent string | ToolIdent string string

fun ident_str :: "config_identifier \<Rightarrow> string" where
  "ident_str (RegularIdent name) = name"
| "ident_str (ToolIdent tool name) = ''@tool:'' @ tool @ '':'' @ name"

fun is_tool_identifier :: "config_identifier \<Rightarrow> bool" where
  "is_tool_identifier (ToolIdent _ _) = True"
| "is_tool_identifier (RegularIdent _) = False"

fun tool_components :: "config_identifier \<Rightarrow> (string \<times> string) option" where
  "tool_components (ToolIdent tool name) = Some (tool, name)"
| "tool_components (RegularIdent _) = None"

datatype test_group = CustomGroup config_identifier | GlobalGroup

fun group_str :: "test_group \<Rightarrow> string" where
  "group_str (CustomGroup g) = ident_str g"
| "group_str GlobalGroup = GLOBAL_TEST_GROUP"

definition make_all_groups :: "config_identifier set \<Rightarrow> test_group set" where
  "make_all_groups custom = CustomGroup ` custom \<union> {GlobalGroup}"


section \<open>Thread counts\<close>

datatype toml_scalar = TomlStr string | TomlInt int

datatype test_threads = ThreadsCount nat | NumCpus

fun compute_threads :: "nat \<Rightarrow> test_threads \<Rightarrow> nat" where
  "compute_threads num_cpus (ThreadsCount threads) = threads"
| "compute_threads num_cpus NumCpus = num_cpus"

definition deserialize_test_threads :: "nat \<Rightarrow> toml_scalar \<Rightarrow> toml_scalar + test_threads" where
  "deserialize_test_threads num_cpus v = (case v of
     TomlStr s \<Rightarrow> if s = ''num-cpus'' then Inr NumCpus else Inl v
   | TomlInt n \<Rightarrow>
       if n > 0 then Inr (ThreadsCount (nat n))
       else if n < 0 then Inr (ThreadsCount (nat (max (int num_cpus + n) 1)))
       else Inl v)"

datatype threads_required = RequiredCount nat | RequiredNumCpus | RequiredNumTestThreads

fun compute_required :: "nat \<Rightarrow> nat \<Rightarrow> threads_required \<Rightarrow> nat" where
  "compute_required num_cpus test_threads (RequiredCount threads) = threads"
| "compute_required num_cpus test_threads RequiredNumCpus = num_cpus"
| "compute_required num_cpus test_threads RequiredNumTestThreads = test_threads"

definition deserialize_threads_required :: "toml_scalar \<Rightarrow> toml_scalar + threads_required" where
  "deserialize_threads_required v = (case v of
     TomlStr s \<Rightarrow>
       if s = ''num-cpus'' then Inr RequiredNumCpus
       else if s = ''num-test-threads'' then Inr RequiredNumTestThreads
       else Inl v
   | TomlInt n \<Rightarrow> if n > 0 then Inr (RequiredCount (nat n)) else Inl v)"


section \<open>Timeouts\<close>

record slow_timeout =
  st_period :: duration
  st_terminate_after :: "nat option"
  st_grace_period :: duration
  st_on_timeout :: slow_timeout_result

record leak_timeout =
  lt_period :: duration
  lt_result :: leak_timeout_result

record global_timeout =
  gt_period :: duration

definition default_grace_period :: duration where
  "default_grace_period = 10 * 1000000000"

text \<open>
  A table has the fields of \<open>SlowTimeout\<close>, with durations still as strings and those that have a
  default optional. \<open>terminate-after\<close> is not zero (\<open>NonZeroUsize\<close>).
\<close>

record slow_timeout_table =
  stt_period :: string
  stt_terminate_after :: "nat option"
  stt_grace_period :: "string option"
  stt_on_timeout :: "slow_timeout_result option"

datatype slow_timeout_value = SlowStr string | SlowTable slow_timeout_table

datatype timeout_error = InvalidDuration string | ZeroTerminateAfter | PassNotSupported

type_synonym humantime = "string \<Rightarrow> duration option"

definition parse_duration :: "humantime \<Rightarrow> string \<Rightarrow> timeout_error + duration" where
  "parse_duration humantime s = (case humantime s of Some d \<Rightarrow> Inr d | None \<Rightarrow> Inl (InvalidDuration s))"

definition deserialize_slow_timeout ::
  "humantime \<Rightarrow> slow_timeout_value \<Rightarrow> timeout_error + slow_timeout option" where
  "deserialize_slow_timeout humantime v = (case v of
     SlowStr s \<Rightarrow>
       if s = [] then Inr None
       else (case parse_duration humantime s of
               Inl e \<Rightarrow> Inl e
             | Inr period \<Rightarrow> Inr (Some \<lparr>st_period = period, st_terminate_after = None,
                 st_grace_period = default_grace_period, st_on_timeout = SlowFail\<rparr>))
   | SlowTable t \<Rightarrow>
       (case parse_duration humantime (stt_period t) of
          Inl e \<Rightarrow> Inl e
        | Inr period \<Rightarrow>
            if stt_terminate_after t = Some 0 then Inl ZeroTerminateAfter
            else (case (case stt_grace_period t of
                          None \<Rightarrow> Inr default_grace_period
                        | Some g \<Rightarrow> parse_duration humantime g) of
                    Inl e \<Rightarrow> Inl e
                  | Inr grace \<Rightarrow> Inr (Some \<lparr>st_period = period, st_terminate_after = stt_terminate_after t,
                      st_grace_period = grace,
                      st_on_timeout = (case stt_on_timeout t of None \<Rightarrow> SlowFail | Some r \<Rightarrow> r)\<rparr>))))"

record setup_script_slow_timeout =
  sst_period :: duration
  sst_terminate_after :: "nat option"
  sst_grace_period :: duration

definition deserialize_setup_script_slow_timeout ::
  "humantime \<Rightarrow> slow_timeout_value \<Rightarrow> timeout_error + setup_script_slow_timeout option" where
  "deserialize_setup_script_slow_timeout humantime v = (case deserialize_slow_timeout humantime v of
     Inl e \<Rightarrow> Inl e
   | Inr None \<Rightarrow> Inr None
   | Inr (Some st) \<Rightarrow> (case st_on_timeout st of
       SlowFail \<Rightarrow> Inr (Some \<lparr>sst_period = st_period st, sst_terminate_after = st_terminate_after st,
         sst_grace_period = st_grace_period st\<rparr>)
     | SlowPass \<Rightarrow> Inl PassNotSupported))"

datatype leak_timeout_value = LeakStr string | LeakTable string "leak_timeout_result option"

text \<open>Unlike a slow timeout, an empty leak timeout is given to the parser of durations.\<close>

definition deserialize_leak_timeout ::
  "humantime \<Rightarrow> leak_timeout_value \<Rightarrow> timeout_error + leak_timeout option" where
  "deserialize_leak_timeout humantime v = (case v of
     LeakStr s \<Rightarrow> (case parse_duration humantime s of
       Inl e \<Rightarrow> Inl e | Inr period \<Rightarrow> Inr (Some \<lparr>lt_period = period, lt_result = LeakPass\<rparr>))
   | LeakTable s r \<Rightarrow> (case parse_duration humantime s of
       Inl e \<Rightarrow> Inl e
     | Inr period \<Rightarrow> Inr (Some \<lparr>lt_period = period, lt_result = (case r of None \<Rightarrow> LeakPass | Some x \<Rightarrow> x)\<rparr>)))"


section \<open>Reporting, JUnit and archives\<close>

datatype test_output_display = DisplayImmediate | DisplayImmediateFinal | DisplayFinal | DisplayNever

datatype status_level =
  StatusNone | StatusFail | StatusRetry | StatusSlow | StatusLeak | StatusPass | StatusSkip | StatusAll

datatype final_status_level =
  FinalNone | FinalFail | FinalFlaky | FinalSlow | FinalSkip | FinalLeak | FinalPass | FinalAll

datatype report_skip_policy = ReportNone | ReportIgnored | ReportAll

datatype junit_flaky_fail_status = FlakyAsFailure | FlakyAsSuccess

record junit_impl =
  ji_path :: "string option"
  ji_report_name :: "string option"
  ji_store_success_output :: "bool option"
  ji_store_failure_output :: "bool option"
  ji_report_skipped :: "report_skip_policy option"
  ji_flaky_fail_status :: "junit_flaky_fail_status option"

record default_junit_impl =
  dj_path :: "string option"
  dj_report_name :: string
  dj_store_success_output :: bool
  dj_store_failure_output :: bool
  dj_report_skipped :: report_skip_policy
  dj_flaky_fail_status :: junit_flaky_fail_status

text \<open>\<open>Option::expect\<close>.\<close>

definition expect_some :: "'a option \<Rightarrow> 'a outcome" where
  "expect_some v = (case v of Some x \<Rightarrow> Ret x | None \<Rightarrow> Panic)"

lemma expect_some_simps [simp]: "expect_some (Some x) = Ret x" "expect_some None = Panic"
  by (simp_all add: expect_some_def)

definition junit_for_default_profile :: "junit_impl \<Rightarrow> default_junit_impl outcome" where
  "junit_for_default_profile data =
     bind_outcome (expect_some (ji_report_name data)) (\<lambda>report_name.
     bind_outcome (expect_some (ji_store_success_output data)) (\<lambda>store_success.
     bind_outcome (expect_some (ji_store_failure_output data)) (\<lambda>store_failure.
     bind_outcome (expect_some (ji_report_skipped data)) (\<lambda>report_skipped.
     bind_outcome (expect_some (ji_flaky_fail_status data)) (\<lambda>flaky_fail.
       Ret \<lparr>dj_path = ji_path data, dj_report_name = report_name,
            dj_store_success_output = store_success, dj_store_failure_output = store_failure,
            dj_report_skipped = report_skipped, dj_flaky_fail_status = flaky_fail\<rparr>)))))"

datatype recursion_depth = DepthFinite nat | DepthInfinite
datatype archive_include_on_missing = MissingIgnore | MissingWarn | MissingError

datatype archive_relative_to = RelativeToTarget

record archive_include =
  ai_path :: string
  ai_relative_to :: archive_relative_to
  ai_depth :: recursion_depth
  ai_depth_deserialized :: bool
  ai_on_missing :: archive_include_on_missing

record archive_config =
  ac_include :: "archive_include list"

record bench_config =
  bc_slow_timeout :: "slow_timeout option"
  bc_global_timeout :: "global_timeout option"

record default_bench_config =
  db_slow_timeout :: slow_timeout
  db_global_timeout :: global_timeout

definition bench_for_default_profile :: "bench_config \<Rightarrow> default_bench_config outcome" where
  "bench_for_default_profile data =
     bind_outcome (expect_some (bc_slow_timeout data)) (\<lambda>slow.
     bind_outcome (expect_some (bc_global_timeout data)) (\<lambda>global.
       Ret \<lparr>db_slow_timeout = slow, db_global_timeout = global\<rparr>))"

end
