(* ===== verification/Config_Profile.thy ===== *)
theory Config_Profile
  imports Config_Elements
begin

text \<open>
  Profiles of the configuration, \<open>nextest-runner/src/config/core/imp.rs\<close>: the settings of the
  default profile and of custom profiles, the inheritance between profiles, its validation and the
  resolution of the chain of ancestors.

  The other profiles are a hash map: they are a list of pairs with distinct names, in the order of
  iteration, whatever it is. Strongly connected components are computed by the third-party crate
  \<open>petgraph\<close>: the function is an argument, of the nodes and edges of a graph whose nodes are names;
  \<open>scc_ok\<close> states its documented behaviour. The search along \<open>inherits\<close> is a loop without a bound:
  its value is \<open>None\<close> if it does not end.
\<close>

section \<open>Overrides and scripts of a profile, as deserialized\<close>

type_synonym profile_name = string

record platform_strings =
  pf_host :: "string option"
  pf_target :: "string option"

text \<open>A platform is a table, or a string that gives the target.\<close>

datatype platform_value = PlatformStr string | PlatformTable "string option" "string option"

fun deserialize_platform_strings :: "platform_value \<Rightarrow> platform_strings" where
  "deserialize_platform_strings (PlatformStr s) = \<lparr>pf_host = None, pf_target = Some s\<rparr>"
| "deserialize_platform_strings (PlatformTable host target) = \<lparr>pf_host = host, pf_target = target\<rparr>"

record deserialized_junit_output =
  djo_store_success_output :: "bool option"
  djo_store_failure_output :: "bool option"
  djo_report_skipped :: "report_skip_policy option"
  djo_flaky_fail_status :: "junit_flaky_fail_status option"

record deserialized_override =
  do_platform :: platform_strings
  do_filter :: "string option"
  do_priority :: "test_priority option"
  do_default_filter :: "string option"
  do_threads_required :: "threads_required option"
  do_run_extra_args :: "string list option"
  do_retries :: "retry_policy option"
  do_flaky_result :: "flaky_result option"
  do_slow_timeout :: "slow_timeout option"
  do_leak_timeout :: "leak_timeout option"
  do_test_group :: "test_group option"
  do_success_output :: "test_output_display option"
  do_failure_output :: "test_output_display option"
  do_junit :: deserialized_junit_output
  do_bench_slow_timeout :: "slow_timeout option"

type_synonym config_script_id = config_identifier

record deserialized_profile_script =
  dps_platform :: platform_strings
  dps_filter :: "string option"
  dps_setup :: "config_script_id list"
  dps_list_wrapper :: "config_script_id option"
  dps_run_wrapper :: "config_script_id option"


section \<open>Profiles\<close>

record custom_profile =
  cp_default_filter :: "string option"
  cp_retries :: "retry_policy option"
  cp_flaky_result :: "flaky_result option"
  cp_test_threads :: "test_threads option"
  cp_threads_required :: "threads_required option"
  cp_run_extra_args :: "string list option"
  cp_status_level :: "status_level option"
  cp_final_status_level :: "final_status_level option"
  cp_failure_output :: "test_output_display option"
  cp_success_output :: "test_output_display option"
  cp_max_fail :: "max_fail option"
  cp_slow_timeout :: "slow_timeout option"
  cp_global_timeout :: "global_timeout option"
  cp_leak_timeout :: "leak_timeout option"
  cp_overrides :: "deserialized_override list"
  cp_scripts :: "deserialized_profile_script list"
  cp_junit :: junit_impl
  cp_archive :: "archive_config option"
  cp_bench :: "bench_config option"
  cp_inherits :: "profile_name option"

fun cp_slow_timeout_for :: "nextest_run_mode \<Rightarrow> custom_profile \<Rightarrow> slow_timeout option" where
  "cp_slow_timeout_for ModeTest p = cp_slow_timeout p"
| "cp_slow_timeout_for ModeBenchmark p = Option.bind (cp_bench p) bc_slow_timeout"

fun cp_global_timeout_for :: "nextest_run_mode \<Rightarrow> custom_profile \<Rightarrow> global_timeout option" where
  "cp_global_timeout_for ModeTest p = cp_global_timeout p"
| "cp_global_timeout_for ModeBenchmark p = Option.bind (cp_bench p) bc_global_timeout"

record default_profile =
  dp_test_threads :: test_threads
  dp_threads_required :: threads_required
  dp_run_extra_args :: "string list"
  dp_retries :: retry_policy
  dp_flaky_result :: flaky_result
  dp_status_level :: status_level
  dp_final_status_level :: final_status_level
  dp_failure_output :: test_output_display
  dp_success_output :: test_output_display
  dp_max_fail :: max_fail
  dp_slow_timeout :: slow_timeout
  dp_global_timeout :: global_timeout
  dp_leak_timeout :: leak_timeout
  dp_overrides :: "deserialized_override list"
  dp_scripts :: "deserialized_profile_script list"
  dp_junit :: default_junit_impl
  dp_archive :: archive_config
  dp_bench :: default_bench_config
  dp_inherits :: "profile_name option"

definition default_profile_new :: "custom_profile \<Rightarrow> default_profile outcome" where
  "default_profile_new p =
     bind_outcome (expect_some (cp_test_threads p)) (\<lambda>test_threads.
     bind_outcome (expect_some (cp_threads_required p)) (\<lambda>threads_required.
     bind_outcome (expect_some (cp_run_extra_args p)) (\<lambda>run_extra_args.
     bind_outcome (expect_some (cp_retries p)) (\<lambda>retries.
     bind_outcome (expect_some (cp_flaky_result p)) (\<lambda>flaky_result.
     bind_outcome (expect_some (cp_status_level p)) (\<lambda>status_level.
     bind_outcome (expect_some (cp_final_status_level p)) (\<lambda>final_status_level.
     bind_outcome (expect_some (cp_failure_output p)) (\<lambda>failure_output.
     bind_outcome (expect_some (cp_success_output p)) (\<lambda>success_output.
     bind_outcome (expect_some (cp_max_fail p)) (\<lambda>max_fail.
     bind_outcome (expect_some (cp_slow_timeout p)) (\<lambda>slow_timeout.
     bind_outcome (expect_some (cp_global_timeout p)) (\<lambda>global_timeout.
     bind_outcome (expect_some (cp_leak_timeout p)) (\<lambda>leak_timeout.
     bind_outcome (junit_for_default_profile (cp_junit p)) (\<lambda>junit.
     bind_outcome (expect_some (cp_archive p)) (\<lambda>archive.
     bind_outcome (bind_outcome (expect_some (cp_bench p)) bench_for_default_profile) (\<lambda>bench.
       Ret \<lparr>dp_test_threads = test_threads, dp_threads_required = threads_required,
            dp_run_extra_args = run_extra_args, dp_retries = retries, dp_flaky_result = flaky_result,
            dp_status_level = status_level, dp_final_status_level = final_status_level,
            dp_failure_output = failure_output, dp_success_output = success_output,
            dp_max_fail = max_fail, dp_slow_timeout = slow_timeout,
            dp_global_timeout = global_timeout, dp_leak_timeout = leak_timeout,
            dp_overrides = cp_overrides p, dp_scripts = cp_scripts p, dp_junit = junit,
            dp_archive = archive, dp_bench = bench, dp_inherits = cp_inherits p\<rparr>))))))))))))))))"

fun dp_slow_timeout_for :: "nextest_run_mode \<Rightarrow> default_profile \<Rightarrow> slow_timeout" where
  "dp_slow_timeout_for ModeTest p = dp_slow_timeout p"
| "dp_slow_timeout_for ModeBenchmark p = db_slow_timeout (dp_bench p)"

fun dp_global_timeout_for :: "nextest_run_mode \<Rightarrow> default_profile \<Rightarrow> global_timeout" where
  "dp_global_timeout_for ModeTest p = dp_global_timeout p"
| "dp_global_timeout_for ModeBenchmark p = db_global_timeout (dp_bench p)"


section \<open>Inheritance\<close>

text \<open>The part of \<open>NextestConfigImpl\<close> that holds the profiles.\<close>

record profiles_config =
  pc_default_profile :: default_profile
  pc_other_profiles :: "(profile_name \<times> custom_profile) list"

definition DEFAULT_PROFILE :: profile_name where "DEFAULT_PROFILE = ''default''"
definition DEFAULT_MIRI_PROFILE :: profile_name where "DEFAULT_MIRI_PROFILE = ''default-miri''"

definition all_profiles :: "profiles_config \<Rightarrow> profile_name list" where
  "all_profiles c = map fst (pc_other_profiles c) @ [DEFAULT_PROFILE]"

datatype profile_not_found = ProfileNotFound profile_name "profile_name list"

text \<open>The names are sorted.\<close>

definition profile_not_found_new :: "profile_name \<Rightarrow> profile_name list \<Rightarrow> profile_not_found" where
  "profile_not_found_new profile all = ProfileNotFound profile (sort all)"

definition get_profile ::
  "profiles_config \<Rightarrow> profile_name \<Rightarrow> profile_not_found + custom_profile option" where
  "get_profile c name =
     (if name = DEFAULT_PROFILE then Inr None
      else case map_of (pc_other_profiles c) name of
             Some p \<Rightarrow> Inr (Some p)
           | None \<Rightarrow> Inl (profile_not_found_new name (all_profiles c)))"

text \<open>\<open>cur\<close> (\<open>curr\<close>) and \<open>chain\<close> are the variables of the loop.\<close>

partial_function (option) chain_loop ::
  "profiles_config \<Rightarrow> profile_name option \<Rightarrow> (profile_name \<times> custom_profile) list
     \<Rightarrow> (profile_not_found + (profile_name \<times> custom_profile) list) option" where
  "chain_loop c cur chain = (case cur of
     None \<Rightarrow> Some (Inr chain)
   | Some name \<Rightarrow> (case get_profile c name of
       Inl e \<Rightarrow> Some (Inl e)
     | Inr None \<Rightarrow> Some (Inr chain)
     | Inr (Some p) \<Rightarrow> chain_loop c (cp_inherits p) (chain @ [(name, p)])))"

definition resolve_inheritance_chain ::
  "profiles_config \<Rightarrow> profile_name
     \<Rightarrow> (profile_not_found + (profile_name \<times> custom_profile) list) option" where
  "resolve_inheritance_chain c profile_name = (case get_profile c profile_name of
     Inl e \<Rightarrow> Some (Inl e)
   | Inr p \<Rightarrow> chain_loop c (Option.bind p cp_inherits) [])"

datatype inherits_error =
    DefaultProfileInheritance profile_name
  | UnknownInheritance profile_name profile_name
  | SelfReferentialInheritance profile_name
  | InheritanceCycle "profile_name list list"

definition sanitize_default_profile_inherits ::
  "profiles_config \<Rightarrow> inherits_error list \<Rightarrow> inherits_error list" where
  "sanitize_default_profile_inherits c errs =
     (if dp_inherits (pc_default_profile c) \<noteq> None then errs @ [DefaultProfileInheritance DEFAULT_PROFILE]
      else errs)"

definition starts_with_default :: "profile_name \<Rightarrow> bool" where
  "starts_with_default name = prefix ''default-'' name"

definition sanitize_custom_default_profile_inherits ::
  "profile_name \<Rightarrow> custom_profile \<Rightarrow> inherits_error list \<Rightarrow> bool \<times> inherits_error list" where
  "sanitize_custom_default_profile_inherits name p errs =
     (starts_with_default name,
      if starts_with_default name \<and> cp_inherits p \<noteq> None
      then errs @ [DefaultProfileInheritance name] else errs)"

text \<open>
  The graph of profiles: its nodes in the order they are added, each once, and its edges.
\<close>

record profile_graph =
  gr_nodes :: "profile_name list"
  gr_edges :: "(profile_name \<times> profile_name) list"

definition add_node :: "profile_name \<Rightarrow> profile_graph \<Rightarrow> profile_graph" where
  "add_node name g = (if name \<in> set (gr_nodes g) then g else g\<lparr>gr_nodes := gr_nodes g @ [name]\<rparr>)"

definition add_edge :: "profile_name \<Rightarrow> profile_name \<Rightarrow> profile_graph \<Rightarrow> profile_graph" where
  "add_edge a b g = g\<lparr>gr_edges := gr_edges g @ [(a, b)]\<rparr>"

definition add_profile_to_graph ::
  "profiles_config \<Rightarrow> profile_name set \<Rightarrow> profile_name \<Rightarrow> custom_profile
     \<Rightarrow> profile_graph \<times> inherits_error list \<Rightarrow> profile_graph \<times> inherits_error list" where
  "add_profile_to_graph c known_profiles name p = (\<lambda>(g, errs).
     case cp_inherits p of
       None \<Rightarrow> (g, errs)
     | Some inherits_name \<Rightarrow>
         if inherits_name = name then (g, errs @ [SelfReferentialInheritance name])
         else if \<not> isl (get_profile c inherits_name)
           then (add_edge name inherits_name (add_node inherits_name (add_node name g)), errs)
         else if inherits_name \<in> known_profiles then (g, errs)
         else (g, errs @ [UnknownInheritance name inherits_name]))"

type_synonym scc_function = "profile_graph \<Rightarrow> profile_name list list"

definition check_inheritance_cycles ::
  "scc_function \<Rightarrow> profile_graph \<Rightarrow> inherits_error list \<Rightarrow> inherits_error list" where
  "check_inheritance_cycles kosaraju_scc g errs =
     (let profile_sccs = filter (\<lambda>scc. length scc \<ge> 2) (kosaraju_scc g)
      in if profile_sccs \<noteq> [] then errs @ [InheritanceCycle profile_sccs] else errs)"

definition sanitize_custom_profile ::
  "profiles_config \<Rightarrow> profile_name set \<Rightarrow> profile_name \<times> custom_profile
     \<Rightarrow> profile_graph \<times> inherits_error list \<Rightarrow> profile_graph \<times> inherits_error list" where
  "sanitize_custom_profile c known_profiles = (\<lambda>(name, p) (g, errs).
     (let (default_name, errs') = sanitize_custom_default_profile_inherits name p errs
      in if \<not> default_name then add_profile_to_graph c known_profiles name p (g, errs') else (g, errs')))"

definition sanitize_custom_profile_inherits ::
  "scc_function \<Rightarrow> profiles_config \<Rightarrow> profile_name set \<Rightarrow> inherits_error list \<Rightarrow> inherits_error list" where
  "sanitize_custom_profile_inherits kosaraju_scc c known_profiles errs =
     (let (g, errs') = fold (sanitize_custom_profile c known_profiles) (pc_other_profiles c)
                         (\<lparr>gr_nodes = [], gr_edges = []\<rparr>, errs)
      in check_inheritance_cycles kosaraju_scc g errs')"

text \<open>The errors are what \<open>sanitize_profile_inherits\<close> reports; it succeeds if there are none.\<close>

definition sanitize_profile_inherits ::
  "scc_function \<Rightarrow> profiles_config \<Rightarrow> profile_name set \<Rightarrow> inherits_error list + unit" where
  "sanitize_profile_inherits kosaraju_scc c known_profiles =
     (let errs = sanitize_custom_profile_inherits kosaraju_scc c known_profiles
                   (sanitize_default_profile_inherits c [])
      in if errs \<noteq> [] then Inl errs else Inr ())"

end
