(* ===== verification/Config_Override.thy ===== *)
theory Config_Override
  imports Config_Profile Filterset_Compile
begin

text \<open>
  Overrides and scripts of profiles, compiled (\<open>nextest-runner/src/config/overrides/imp.rs\<close>,
  \<open>config/scripts/imp.rs\<close>): from the strings of one configuration file to filtersets and platform
  specifications, with the errors that are collected on the way; how the compiled data of several
  files and profiles is put together; and its evaluation on the build platforms.

  Platform specifications are parsed and evaluated by the third-party crate \<open>target-spec\<close>: parsing
  is an argument, and a specification is its answer for each platform, \<open>None\<close> if unknown. The
  concrete syntax of filtersets is an argument too: the parsed expression, if there is one, with the
  errors that were reported.
\<close>

section \<open>Filtersets from strings\<close>

record filterset =
  fs_input :: string
  fs_parsed :: parsed_expr
  fs_compiled :: compiled_expr

record filterset_parse_errors =
  fpe_input :: string
  fpe_errors :: errors

type_synonym platform = string
type_synonym target_spec = "platform \<Rightarrow> bool option"
type_synonym filterset_syntax = "string \<Rightarrow> (parsed_expr option \<times> errors) option"

text \<open>What compiling a configuration needs: the parse context and the third-party parsers.\<close>

record config_env =
  fe_syntax :: filterset_syntax
  fe_regex :: regex_engine
  fe_graph :: package_graph
  fe_target_spec :: "string \<Rightarrow> string + target_spec"

definition filterset_parse ::
  "config_env \<Rightarrow> string \<Rightarrow> filterset_kind \<Rightarrow> known_groups \<Rightarrow> (filterset_parse_errors + filterset) outcome" where
  "filterset_parse env input kind kg = (case fe_syntax env input of
     Some (res, errs) \<Rightarrow>
       if errs \<noteq> [] then Ret (Inl \<lparr>fpe_input = input, fpe_errors = errs\<rparr>)
       else (case res of
          Some parsed \<Rightarrow>
            bind_outcome (compile (fe_regex env) (fe_graph env) parsed kind kg) (\<lambda>r. case r of
                Inl es \<Rightarrow> Ret (Inl \<lparr>fpe_input = input, fpe_errors = es\<rparr>)
              | Inr compiled \<Rightarrow> Ret (Inr \<lparr>fs_input = input, fs_parsed = parsed, fs_compiled = compiled\<rparr>))
        | None \<Rightarrow> Ret (Inl \<lparr>fpe_input = input, fpe_errors = [UnknownParseError]\<rparr>))
   | None \<Rightarrow> Ret (Inl \<lparr>fpe_input = input, fpe_errors = [UnknownParseError]\<rparr>))"

text \<open>An optional string: nothing is parsed if there is none.\<close>

definition filterset_parse_option ::
  "config_env \<Rightarrow> string option \<Rightarrow> filterset_kind \<Rightarrow> known_groups
     \<Rightarrow> (filterset_parse_errors + filterset option) outcome" where
  "filterset_parse_option env input kind kg = (case input of
     None \<Rightarrow> Ret (Inr None)
   | Some s \<Rightarrow> bind_outcome (filterset_parse env s kind kg) (\<lambda>r. case r of
         Inl e \<Rightarrow> Ret (Inl e) | Inr f \<Rightarrow> Ret (Inr (Some f))))"


section \<open>Platforms\<close>

record build_platforms =
  bp_host :: platform
  bp_target :: "platform option"

datatype maybe_target_spec = ProvidedSpec target_spec | AnySpec

definition maybe_target_spec_new :: "config_env \<Rightarrow> string option \<Rightarrow> string + maybe_target_spec" where
  "maybe_target_spec_new env platform_str = (case platform_str of
     Some s \<Rightarrow> (case fe_target_spec env s of Inl e \<Rightarrow> Inl e | Inr spec \<Rightarrow> Inr (ProvidedSpec spec))
   | None \<Rightarrow> Inr AnySpec)"

fun target_spec_eval :: "maybe_target_spec \<Rightarrow> platform \<Rightarrow> bool" where
  "target_spec_eval (ProvidedSpec spec) p = (case spec p of Some b \<Rightarrow> b | None \<Rightarrow> True)"
| "target_spec_eval AnySpec p = True"

record final_config =
  host_eval :: bool
  host_test_eval :: bool
  target_eval :: bool

definition evaluate_platforms ::
  "maybe_target_spec \<Rightarrow> maybe_target_spec \<Rightarrow> build_platforms \<Rightarrow> final_config" where
  "evaluate_platforms host_spec target_spec platforms =
     (let host_test = target_spec_eval target_spec (bp_host platforms)
      in \<lparr>host_eval = target_spec_eval host_spec (bp_host platforms),
          host_test_eval = host_test,
          target_eval = (case bp_target platforms of
             None \<Rightarrow> host_test | Some target \<Rightarrow> target_spec_eval target_spec target)\<rparr>)"


section \<open>Errors\<close>

datatype config_compile_section = SecDefaultFilter | SecOverride nat | SecScript nat

datatype config_compile_error_kind =
    ConstraintsNotSpecified bool
  | FilterAndDefaultFilterSpecified
  | ParseError "string option" "string option" "filterset_parse_errors list"

record config_compile_error =
  cce_profile_name :: profile_name
  cce_section :: config_compile_section
  cce_kind :: config_compile_error_kind

type_synonym compile_errors = "config_compile_error list"


section \<open>Overrides\<close>

datatype config_source_kind = SourceTool string | ExplicitRepository | DiscoveredRepository

record config_source =
  cs_path :: string
  cs_kind :: config_source_kind

fun source_tool :: "config_source \<Rightarrow> string option" where
  "source_tool s = (case cs_kind s of SourceTool tool \<Rightarrow> Some tool | _ \<Rightarrow> None)"

datatype default_filter_section = FilterOfProfile | FilterOfOverride nat

record compiled_default_filter =
  cdf_expr :: compiled_expr
  cdf_profile :: profile_name
  cdf_section :: default_filter_section

definition default_filter_for_default_config :: compiled_default_filter where
  "default_filter_for_default_config =
     \<lparr>cdf_expr = compiled_ALL, cdf_profile = DEFAULT_PROFILE, cdf_section = FilterOfProfile\<rparr>"

datatype filter_or_default_filter = OverrideFilter filterset | OverrideDefaultFilter compiled_default_filter

record override_id =
  oi_config_source :: config_source
  oi_profile_name :: profile_name
  oi_index :: nat

record profile_override_data =
  od_host_spec :: maybe_target_spec
  od_target_spec :: maybe_target_spec
  od_filter :: "filter_or_default_filter option"
  od_priority :: "test_priority option"
  od_threads_required :: "threads_required option"
  od_run_extra_args :: "string list option"
  od_retries :: "retry_policy option"
  od_flaky_result :: "flaky_result option"
  od_slow_timeout :: "slow_timeout option"
  od_bench_slow_timeout :: "slow_timeout option"
  od_leak_timeout :: "leak_timeout option"
  od_test_group :: "test_group option"
  od_success_output :: "test_output_display option"
  od_failure_output :: "test_output_display option"
  od_junit :: deserialized_junit_output

text \<open>The state is \<open>unit\<close> before the build platforms are known, \<open>final_config\<close> afterwards.\<close>

record 'st compiled_override =
  co_id :: override_id
  co_state :: 'st
  co_data :: profile_override_data

definition compiled_override_new ::
  "config_env \<Rightarrow> config_source \<Rightarrow> profile_name \<Rightarrow> nat \<Rightarrow> deserialized_override
     \<Rightarrow> (config_compile_error + unit compiled_override) outcome" where
  "compiled_override_new env source profile_name index src =
     (let err = (\<lambda>kind. Inl \<lparr>cce_profile_name = profile_name, cce_section = SecOverride index, cce_kind = kind\<rparr>)
      in if pf_host (do_platform src) = None \<and> pf_target (do_platform src) = None \<and> do_filter src = None
         then Ret (err (ConstraintsNotSpecified (do_default_filter src \<noteq> None)))
         else
           (let host_spec = maybe_target_spec_new env (pf_host (do_platform src));
                target_spec = maybe_target_spec_new env (pf_target (do_platform src))
            in bind_outcome (filterset_parse_option env (do_filter src) KOverrideFilter Unavailable) (\<lambda>filter.
               bind_outcome (filterset_parse_option env (do_default_filter src) KDefaultFilter Unavailable) (\<lambda>default_filter.
               case (host_spec, target_spec, filter, default_filter) of
                 (Inr host, Inr target, Inr f, Inr d) \<Rightarrow>
                   (let ok = (\<lambda>fod. Inr \<lparr>
                          co_id = \<lparr>oi_config_source = source, oi_profile_name = profile_name, oi_index = index\<rparr>,
                          co_state = (),
                          co_data = \<lparr>od_host_spec = host, od_target_spec = target, od_filter = fod,
                            od_priority = do_priority src, od_threads_required = do_threads_required src,
                            od_run_extra_args = do_run_extra_args src, od_retries = do_retries src,
                            od_flaky_result = do_flaky_result src, od_slow_timeout = do_slow_timeout src,
                            od_bench_slow_timeout = do_bench_slow_timeout src,
                            od_leak_timeout = do_leak_timeout src, od_test_group = do_test_group src,
                            od_success_output = do_success_output src, od_failure_output = do_failure_output src,
                            od_junit = do_junit src\<rparr>\<rparr>)
                    in case (f, d) of
                         (Some _, Some _) \<Rightarrow> Ret (err FilterAndDefaultFilterSpecified)
                       | (Some f', None) \<Rightarrow> Ret (ok (Some (OverrideFilter f')))
                       | (None, Some d') \<Rightarrow> Ret (ok (Some (OverrideDefaultFilter
                           \<lparr>cdf_expr = fs_compiled d', cdf_profile = profile_name,
                            cdf_section = FilterOfOverride index\<rparr>)))
                       | (None, None) \<Rightarrow> Ret (ok None))
               | _ \<Rightarrow>
                   Ret (err (ParseError
                     (case host_spec of Inl e \<Rightarrow> Some e | Inr _ \<Rightarrow> None)
                     (case target_spec of Inl e \<Rightarrow> Some e | Inr _ \<Rightarrow> None)
                     ((case filter of Inl e \<Rightarrow> [e] | Inr _ \<Rightarrow> []) @
                      (case default_filter of Inl e \<Rightarrow> [e] | Inr _ \<Rightarrow> []))))))))"

definition override_apply_platforms ::
  "build_platforms \<Rightarrow> unit compiled_override \<Rightarrow> final_config compiled_override" where
  "override_apply_platforms platforms ov =
     \<lparr>co_id = co_id ov,
      co_state = evaluate_platforms (od_host_spec (co_data ov)) (od_target_spec (co_data ov)) platforms,
      co_data = co_data ov\<rparr>"


section \<open>Scripts of profiles\<close>

record profile_script_data =
  psd_host_spec :: maybe_target_spec
  psd_target_spec :: maybe_target_spec
  psd_expr :: "filterset option"

record 'st compiled_profile_scripts =
  cps_setup :: "config_script_id list"
  cps_list_wrapper :: "config_script_id option"
  cps_run_wrapper :: "config_script_id option"
  cps_data :: profile_script_data
  cps_state :: 'st

definition compiled_profile_scripts_new ::
  "config_env \<Rightarrow> profile_name \<Rightarrow> nat \<Rightarrow> deserialized_profile_script
     \<Rightarrow> (config_compile_error + unit compiled_profile_scripts) outcome" where
  "compiled_profile_scripts_new env profile_name index src =
     (let err = (\<lambda>kind. Inl \<lparr>cce_profile_name = profile_name, cce_section = SecScript index, cce_kind = kind\<rparr>)
      in if pf_host (dps_platform src) = None \<and> pf_target (dps_platform src) = None \<and> dps_filter src = None
         then Ret (err (ConstraintsNotSpecified False))
         else
           (let host_spec = maybe_target_spec_new env (pf_host (dps_platform src));
                target_spec = maybe_target_spec_new env (pf_target (dps_platform src))
            in bind_outcome (filterset_parse_option env (dps_filter src) KDefaultFilter Unavailable) (\<lambda>filter_expr.
               case (host_spec, target_spec, filter_expr) of
                 (Inr host, Inr target, Inr expr) \<Rightarrow>
                   Ret (Inr \<lparr>cps_setup = dps_setup src, cps_list_wrapper = dps_list_wrapper src,
                             cps_run_wrapper = dps_run_wrapper src,
                             cps_data = \<lparr>psd_host_spec = host, psd_target_spec = target, psd_expr = expr\<rparr>,
                             cps_state = ()\<rparr>)
               | _ \<Rightarrow>
                   Ret (err (ParseError
                     (case host_spec of Inl e \<Rightarrow> Some e | Inr _ \<Rightarrow> None)
                     (case target_spec of Inl e \<Rightarrow> Some e | Inr _ \<Rightarrow> None)
                     (case filter_expr of Inl e \<Rightarrow> [e] | Inr _ \<Rightarrow> []))))))"

definition scripts_apply_platforms ::
  "build_platforms \<Rightarrow> unit compiled_profile_scripts \<Rightarrow> final_config compiled_profile_scripts" where
  "scripts_apply_platforms platforms s =
     \<lparr>cps_setup = cps_setup s, cps_list_wrapper = cps_list_wrapper s, cps_run_wrapper = cps_run_wrapper s,
      cps_data = cps_data s,
      cps_state = evaluate_platforms (psd_host_spec (cps_data s)) (psd_target_spec (cps_data s)) platforms\<rparr>"


section \<open>Compiled data\<close>

record 'st compiled_data =
  cd_profile_default_filter :: "compiled_default_filter option"
  cd_overrides :: "'st compiled_override list"
  cd_scripts :: "'st compiled_profile_scripts list"

text \<open>
  \<open>enumerate().filter_map(..).collect()\<close>: what compiles is kept, and the errors are collected, in
  order.
\<close>

fun compile_each ::
  "(nat \<Rightarrow> 'a \<Rightarrow> (config_compile_error + 'b) outcome) \<Rightarrow> nat \<Rightarrow> 'a list \<Rightarrow> compile_errors
     \<Rightarrow> ('b list \<times> compile_errors) outcome" where
  "compile_each f i [] errs = Ret ([], errs)"
| "compile_each f i (x # xs) errs =
     bind_outcome (f i x) (\<lambda>r. case r of
         Inl e \<Rightarrow> compile_each f (Suc i) xs (errs @ [e])
       | Inr y \<Rightarrow> bind_outcome (compile_each f (Suc i) xs errs) (\<lambda>(ys, errs'). Ret (y # ys, errs')))"

definition compile_default_filter ::
  "config_env \<Rightarrow> profile_name \<Rightarrow> string option \<Rightarrow> compile_errors
     \<Rightarrow> (compiled_default_filter option \<times> compile_errors) outcome" where
  "compile_default_filter env profile_name file_default_filter errs = (case file_default_filter of
     Some default_filter \<Rightarrow>
       bind_outcome (filterset_parse env default_filter KDefaultFilter Unavailable) (\<lambda>r. case r of
           Inr expr \<Rightarrow> Ret (Some \<lparr>cdf_expr = fs_compiled expr, cdf_profile = profile_name,
                                  cdf_section = FilterOfProfile\<rparr>, errs)
         | Inl err \<Rightarrow> Ret (None, errs @ [\<lparr>cce_profile_name = profile_name,
               cce_section = SecDefaultFilter, cce_kind = ParseError None None [err]\<rparr>]))
   | None \<Rightarrow> Ret (None, errs))"

definition compiled_data_new ::
  "config_env \<Rightarrow> config_source \<Rightarrow> profile_name \<Rightarrow> string option \<Rightarrow> deserialized_override list
     \<Rightarrow> deserialized_profile_script list \<Rightarrow> compile_errors \<Rightarrow> (unit compiled_data \<times> compile_errors) outcome" where
  "compiled_data_new env source profile_name file_default_filter overrides scripts errs =
     bind_outcome (compile_default_filter env profile_name file_default_filter errs) (\<lambda>(default_filter, errs1).
     bind_outcome (compile_each (compiled_override_new env source profile_name) 0 overrides errs1) (\<lambda>(os, errs2).
     bind_outcome (compile_each (compiled_profile_scripts_new env profile_name) 0 scripts errs2) (\<lambda>(ss, errs3).
       Ret (\<lparr>cd_profile_default_filter = default_filter, cd_overrides = os, cd_scripts = ss\<rparr>, errs3))))"

definition extend_reverse :: "unit compiled_data \<Rightarrow> unit compiled_data \<Rightarrow> unit compiled_data" where
  "extend_reverse self other =
     \<lparr>cd_profile_default_filter =
        (if cd_profile_default_filter other \<noteq> None then cd_profile_default_filter other
         else cd_profile_default_filter self),
      cd_overrides = cd_overrides self @ rev (cd_overrides other),
      cd_scripts = cd_scripts self @ rev (cd_scripts other)\<rparr>"

definition reverse_data :: "unit compiled_data \<Rightarrow> unit compiled_data" where
  "reverse_data self = self\<lparr>cd_overrides := rev (cd_overrides self), cd_scripts := rev (cd_scripts self)\<rparr>"

definition chain_data :: "unit compiled_data \<Rightarrow> unit compiled_data \<Rightarrow> unit compiled_data" where
  "chain_data self other =
     \<lparr>cd_profile_default_filter =
        (case cd_profile_default_filter self of Some f \<Rightarrow> Some f | None \<Rightarrow> cd_profile_default_filter other),
      cd_overrides = cd_overrides self @ cd_overrides other,
      cd_scripts = cd_scripts self @ cd_scripts other\<rparr>"

definition data_apply_platforms :: "build_platforms \<Rightarrow> unit compiled_data \<Rightarrow> final_config compiled_data" where
  "data_apply_platforms platforms d =
     \<lparr>cd_profile_default_filter = cd_profile_default_filter d,
      cd_overrides = map (override_apply_platforms platforms) (cd_overrides d),
      cd_scripts = map (scripts_apply_platforms platforms) (cd_scripts d)\<rparr>"

record compiled_by_profile =
  cbp_default :: "unit compiled_data"
  cbp_other :: "profile_name \<rightharpoonup> unit compiled_data"

definition compiled_for_default_config :: compiled_by_profile where
  "compiled_for_default_config =
     \<lparr>cbp_default = \<lparr>cd_profile_default_filter = Some default_filter_for_default_config,
                      cd_overrides = [], cd_scripts = []\<rparr>,
      cbp_other = Map.empty\<rparr>"

text \<open>One file's compiled profiles are kept in the order in which the profiles are iterated.\<close>

fun compile_others ::
  "config_env \<Rightarrow> config_source \<Rightarrow> (profile_name \<times> custom_profile) list \<Rightarrow> compile_errors
     \<Rightarrow> ((profile_name \<times> unit compiled_data) list \<times> compile_errors) outcome" where
  "compile_others env source [] errs = Ret ([], errs)"
| "compile_others env source ((name, p) # ps) errs =
     bind_outcome (compiled_data_new env source name (cp_default_filter p) (cp_overrides p) (cp_scripts p) errs)
       (\<lambda>(d, errs1). bind_outcome (compile_others env source ps errs1) (\<lambda>(ds, errs2). Ret ((name, d) # ds, errs2)))"

definition compiled_by_profile_new ::
  "config_env \<Rightarrow> config_source \<Rightarrow> profiles_config \<Rightarrow> string option
     \<Rightarrow> (compile_errors + unit compiled_data \<times> (profile_name \<times> unit compiled_data) list) outcome" where
  "compiled_by_profile_new env source config default_filter =
     bind_outcome (compiled_data_new env source DEFAULT_PROFILE default_filter
         (dp_overrides (pc_default_profile config)) (dp_scripts (pc_default_profile config)) []) (\<lambda>(d, errs1).
     bind_outcome (compile_others env source (pc_other_profiles config) errs1) (\<lambda>(others, errs2).
       Ret (if errs2 = [] then Inr (d, others) else Inl errs2)))"

end
