(* ===== verification/Parser_Claims.thy ===== *)
theory Parser_Claims
  imports Filterset_Round_Trip Filterset_Props Config_Override
begin

text \<open>
  The properties of the filterset parser and of the printed form of filtersets, and the parser in
  the place that compiling a configuration has for it.
\<close>

section \<open>Libraries for the witnesses\<close>

text \<open>ASCII letters, regular expressions and globs that are all accepted.\<close>

definition ascii_alnum :: "scalar \<Rightarrow> bool" where
  "ascii_alnum c \<longleftrightarrow> 48 \<le> c \<and> c \<le> 57 \<or> 65 \<le> c \<and> c \<le> 90 \<or> 97 \<le> c \<and> c \<le> 122"

definition ascii_libs :: syntax_libs where
  "ascii_libs = \<lparr>sx_alphanum = ascii_alnum, sx_regex_new = (\<lambda>_. True), sx_regex_syntax = (\<lambda>_. SyntaxOk),
     sx_globset = Inr, sx_bytes_regex_new = (\<lambda>_. None)\<rparr>"

definition platform_names :: "build_platform \<Rightarrow> string" where
  "platform_names p = (case p of Target \<Rightarrow> ''target'' | Host \<Rightarrow> ''host'')"

lemma ascii_spans: "syntax_spans_ok ascii_libs"
  by (simp add: syntax_spans_ok_def ascii_libs_def)

lemma ascii_libs_ok: "libs_ok ascii_libs platform_names"
  by (simp add: libs_ok_def ascii_libs_def ascii_alnum_def platform_names_def)


text \<open>Texts of ASCII characters are their own characters.\<close>

lemma chars_ascii: "list_all (\<lambda>c. of_char c < (128 :: nat)) s \<Longrightarrow> chars s = map of_char s"
  by (induction s) (simp_all add: decode_char_def utf8_width_def lead_bits_def)

lemma valid_str_ascii:
  assumes "list_all (\<lambda>c. of_char c < (128 :: nat)) s"
  shows "valid_str s"
proof -
  have "list_all is_scalar (map of_char s)" using assms by (induction s) (simp_all add: is_scalar_def)
  moreover have "str_of (map of_char s) = s"
    using assms by (induction s) (simp_all add: str_of_def utf8_ascii)
  ultimately show ?thesis using valid_str_of [of "map of_char s"] by simp
qed

lemmas text_eval = decode_char_def utf8_width_def lead_bits_def valid_str_ascii quote_free_def is_quote_def display_parsed_string_def
  display_char_def escape_default_def char_of_def bit_0


section \<open>Answers\<close>

lemma default_parsed:
  "parse ascii_libs ''not default()'' =
     (Done (Valid (ENot LiteralNot (ESet (PDefault (4, 9))))), \<lparr>unread = [], offset = 13, reported = []\<rparr>)"
  by code_simp

text \<open>
  C13. The filterset parser answers on every input: it never runs out of nesting levels, it never
  fails without a result, so \<open>ParsedExpr::parse\<close> does not panic. Either errors are reported, or
  the result is an expression in which \<open>not\<close> binds strongest, then \<open>and\<close> and differences, then \<open>or\<close>,
  binary operators group to the left, and every leaf has a non-empty text and a place inside the input.
  In particular an input without a valid expression always has an error to show.
\<close>

theorem filterset_parser_answers:
  "(\<exists>r st. parse sx s = (Done r, st) \<and>
     (reported st \<noteq> [] \<or> (\<exists>e. r = Valid e \<and> well_bracketed (leaf_from sx (length s)) e))) \<and>
   parsed_expr_parse sx s \<noteq> Panic"
proof -
  obtain r st where p: "parse sx s = (Done r, st)" and
    y: "yields (new_span s) (well_bracketed (leaf_from sx (length s))) r st"
    using parse_wp [of False sx s] by blast
  from p have "parsed_expr_parse sx s \<noteq> Panic"
    by (cases r) (simp_all add: parsed_expr_parse_def)
  with p y show ?thesis by (auto simp: yields_def told_def new_span_def)
qed

theorem filterset_parser_answers_witness:
  "well_bracketed (leaf_from ascii_libs 13) (ENot LiteralNot (ESet (PDefault (4, 9)))) \<and>
   parsed_expr_parse ascii_libs ''not default()'' \<noteq> Panic"
proof -
  have "length ''not default()'' = 13" by simp
  with filterset_parser_answers [of ascii_libs "''not default()''"] show ?thesis
    by (simp add: default_parsed del: list.size)
qed

lemma argument_parsed:
  "parse ascii_libs ''all(aaa)'' =
     (Done (Valid (ESet PAll)), \<lparr>unread = [], offset = 8, reported = [UnexpectedArgument (4, 3)]\<rparr>)"
  by code_simp

text \<open>
  Every error the parser reports points into the input: its start and its length stay within the
  text that the error is shown for, whatever was typed, if \<open>regex-syntax\<close> points into the regular
  expression it was given.
\<close>

theorem parse_errors_in_input:
  assumes "syntax_spans_ok sx" "parse sx s = (r, st)" "e \<in> set (reported st)"
  shows "in_input (length s) e"
proof -
  obtain r' st' where "parse sx s = (Done r', st')" "good True (new_span s) st'"
    using parse_wp [of True sx s] assms(1) by blast
  with assms(2,3) good_errors [of True "new_span s" st'] show ?thesis by (auto simp: new_span_def)
qed

theorem parse_errors_in_input_witness:
  "\<exists>st. parse ascii_libs ''all(aaa)'' = (Done (Valid (ESet PAll)), st) \<and>
     reported st = [UnexpectedArgument (4, 3)] \<and> in_input 8 (UnexpectedArgument (4, 3))"
proof -
  have "length ''all(aaa)'' = 8" by simp
  with parse_errors_in_input [OF ascii_spans argument_parsed, of "UnexpectedArgument (4, 3)"]
    argument_parsed show ?thesis by (simp del: list.size)
qed


section \<open>Printing and reading back\<close>

text \<open>The end of the input, after an expression.\<close>

lemma reads_eof: "reads (expect (ws p_eof) ExpectedEndOfExpression) [] [] (\<lambda>_. True)"
  unfolding expect_def
  by (rule reads_expect_inner, rule reads_ws0) (simp_all add: reads_def p_eof_def)

lemma reads_parse:
  assumes "libs_ok sx bp" "well_bracketed (displayable_leaf sx) e"
  shows "\<exists>e' st. parse sx (display_expr bp e) = (Done (Valid e'), st) \<and> reported st = [] \<and>
    drop_source_span e' = drop_source_span e"
proof -
  let ?d = "display_expr bp e" and ?fuel = "Suc (length (display_expr bp e))"
  have "reads_or sx ?fuel ?d e" using reads_display_expr [OF assms, of ?fuel] by simp
  from reads_level_end [OF this no_operator_end(2) no_operator_end(1) spaced_simps(1)]
  have "reads (parse_expr sx (parse_basic_expr sx ?fuel)) ?d [] (same_expr e)" by simp
  then have "reads (terminated (parse_expr sx (parse_basic_expr sx ?fuel))
      (expect (ws p_eof) ExpectedEndOfExpression)) (?d @ []) [] (same_expr e)"
    by (intro reads_terminated reads_eof) simp
  then show ?thesis
    by (fastforce simp: reads_def parse_def new_span_def same_expr_def)
qed






text \<open>Expressions made of leaves with a property.\<close>

lemma well_bracketed_leaves:
  "well_bracketed L e \<longleftrightarrow> well_bracketed (\<lambda>_. True) e \<and> (\<forall>l \<in> set (parsed_leaves e). L l)"
  by (induction e) auto

lemma leaf_from_drop_span: "leaf_from sx n l \<Longrightarrow> leaf_from sx 0 (leaf_drop_span l)"
  by (cases l) auto

text \<open>
  C22. If the parser accepts an input and every text in the result survives printing, the printed form
  of the result is accepted too and means the same expression: whatever the blanks, the operators
  (\<open>and\<close>, \<open>&\<close>, \<open>not\<close>, \<open>!\<close> and so on) and the escapes of the input were, the grouping of the printed
  form is the one of the input. A text does not survive printing if it has a quotation mark, or if it
  has no prefix and starts, by an escape, with a blank or with the prefix of another matcher. Both
  exceptions occur: see \<open>text_display_read_back\<close> and \<open>escaped_prefix_changes_meaning\<close>.
\<close>

theorem accepted_filterset_prints_back:
  assumes "libs_ok sx bp" "parse sx s = (Done (Valid e), st)" "reported st = []"
    and "\<forall>l \<in> set (parsed_leaves e). printable_leaf l"
  shows "\<exists>e' st'. parse sx (display_expr bp e) = (Done (Valid e'), st') \<and> reported st' = [] \<and>
    drop_source_span e' = drop_source_span e"
proof (rule reads_parse [OF assms(1)])
  obtain r st' where "parse sx s = (Done r, st')" "yields (new_span s) (well_bracketed (leaf_from sx (length s))) r st'"
    using parse_wp [of False sx s] by blast
  with assms(2,3) have "well_bracketed (leaf_from sx (length s)) e"
    by (auto simp: yields_def told_def new_span_def)
  with assms(4) show "well_bracketed (displayable_leaf sx) e"
    unfolding well_bracketed_leaves [of "leaf_from sx _"] well_bracketed_leaves [of "displayable_leaf sx"]
    by (auto simp: displayable_leaf_def intro: leaf_from_drop_span)
qed

definition typed_example :: string where
  "typed_example = ''!(  all() + none( ))-default( )''"

definition typed_result :: parsed_expr where
  "typed_result = EDifference Minus
     (ENot Exclamation (EParens (EUnion Plus (ESet PAll) (ESet PNone)))) (ESet (PDefault (21, 10)))"

lemma typed_example_parsed:
  "parse ascii_libs typed_example = (Done (Valid typed_result), \<lparr>unread = [], offset = 31, reported = []\<rparr>)"
  by code_simp

theorem accepted_filterset_prints_back_witness:
  "display_expr platform_names typed_result = ''! (all() + none()) - default()'' \<and>
   (\<exists>e' st'. parse ascii_libs ''! (all() + none()) - default()'' = (Done (Valid e'), st') \<and> reported st' = [] \<and>
     drop_source_span e' = drop_source_span typed_result)"
proof -
  have d: "display_expr platform_names typed_result = ''! (all() + none()) - default()''" by code_simp
  have "\<forall>l \<in> set (parsed_leaves typed_result). printable_leaf l" by code_simp
  from accepted_filterset_prints_back [OF ascii_libs_ok typed_example_parsed _ this] d show ?thesis by simp
qed

text \<open>
  An equals sign that was typed as an escape, so that it belongs to the text, is printed as it is: the
  printed form asks for another text, and for equality instead of containment.
\<close>

definition escaped_input :: string where
  "escaped_input = ''test('' @ backslash # ''u{3d}a)''"

theorem escaped_prefix_changes_meaning:
  "parse ascii_libs escaped_input =
     (Done (Valid (ESet (PTest (Contains ''=a'' True) (5, 7)))), \<lparr>unread = [], offset = 13, reported = []\<rparr>) \<and>
   display_expr platform_names (ESet (PTest (Contains ''=a'' True) (5, 7))) = ''test(=a)'' \<and>
   parse ascii_libs ''test(=a)'' =
     (Done (Valid (ESet (PTest (Equal ''a'' False) (5, 2)))), \<lparr>unread = [], offset = 8, reported = []\<rparr>)"
proof (intro conjI)
  show "parse ascii_libs escaped_input =
     (Done (Valid (ESet (PTest (Contains ''=a'' True) (5, 7)))), \<lparr>unread = [], offset = 13, reported = []\<rparr>)"
    by code_simp
  show "display_expr platform_names (ESet (PTest (Contains ''=a'' True) (5, 7))) = ''test(=a)''" by code_simp
  show "parse ascii_libs ''test(=a)'' =
     (Done (Valid (ESet (PTest (Equal ''a'' False) (5, 2)))), \<lparr>unread = [], offset = 8, reported = []\<rparr>)"
    by code_simp
qed

text \<open>
  C35. A printed text is read back exactly if it has no quotation mark. Printing puts a backslash in
  front of every single and double quotation mark; the parser does not know that escape, reports an
  invalid escape character for each of them and has no text.
\<close>

theorem text_display_read_back:
  assumes "valid_str s" "s \<noteq> []"
  shows "\<exists>st. parse_matcher_text (new_span (display_parsed_string s @ '')'')) =
      (Done (if quote_free s then Some s else None), st) \<and>
    unread st = '')'' \<and> reported st = quote_errors 0 (chars s) \<and> (reported st = [] \<longleftrightarrow> quote_free s)"
  using parse_matcher_text_display [OF assms, of "[]" 0 "[]"]
  by (simp add: new_span_def quote_errors_Nil quote_free_def)

theorem text_display_read_back_witness:
  "display_parsed_string [CHR ''a'', CHR 0x27] = [CHR ''a'', backslash, CHR 0x27] \<and>
   (\<exists>st. parse_matcher_text (new_span ([CHR ''a'', backslash, CHR 0x27] @ '')'')) = (Done None, st) \<and>
     reported st = [InvalidEscapeCharacter (1, 2)])"
proof -
  have v: "valid_str [CHR ''a'', CHR 0x27]" by (simp add: valid_str_ascii)
  have d: "display_parsed_string [CHR ''a'', CHR 0x27] = [CHR ''a'', backslash, CHR 0x27]" by (simp add: text_eval)
  have q: "\<not> quote_free [CHR ''a'', CHR 0x27]" by (simp add: text_eval)
  have e: "quote_errors 0 (chars [CHR ''a'', CHR 0x27]) = [InvalidEscapeCharacter (1, 2)]"
    by (simp add: quote_error_def text_eval utf8_ascii)
  from text_display_read_back [OF v] d q e show ?thesis by auto
qed


section \<open>The parser in a configuration\<close>

text \<open>
  What \<open>Filterset::parse\<close> gets from the parser: the result, \<open>None\<close> for an expression with an
  error, and the errors reported.
\<close>

definition filterset_syntax_of :: "syntax_libs \<Rightarrow> filterset_syntax" where
  "filterset_syntax_of sx s = (case parse sx s of
     (Done (Valid e), st) \<Rightarrow> Some (Some e, reported st)
   | (Done Error, st) \<Rightarrow> Some (None, reported st)
   | _ \<Rightarrow> None)"

lemma filterset_syntax_of_cases:
  obtains (errors) r errs where "filterset_syntax_of sx s = Some (r, errs)" "errs \<noteq> []"
  | (expr) e where "filterset_syntax_of sx s = Some (Some e, [])" "well_bracketed (leaf_from sx (length s)) e"
proof -
  obtain r st where p: "parse sx s = (Done r, st)" and
    y: "yields (new_span s) (well_bracketed (leaf_from sx (length s))) r st"
    using parse_wp [of False sx s] by blast
  show thesis
  proof (cases "reported st = []")
    case True
    with y obtain e where "r = Valid e" "well_bracketed (leaf_from sx (length s)) e"
      by (auto simp: yields_def told_def)
    with p True show ?thesis by (intro expr) (simp_all add: filterset_syntax_of_def)
  next
    case False
    with p show ?thesis by (cases r) (auto intro!: errors simp: filterset_syntax_of_def)
  qed
qed

text \<open>
  C23. Parsing and compiling together: with this parser, \<open>Filterset::parse\<close> ends in one of three ways.
  The parser reported errors, and these are the errors of the filterset; or it had none and gave an
  expression in standard form, which either compiles, or has the errors of its compilation.
  The internal error \<open>UnknownParseError\<close>, which the code has for a parser that fails or that
  returns an error without reporting one, is never the answer.
\<close>

theorem filterset_parse_complete:
  assumes "fe_syntax env = filterset_syntax_of sx"
  shows "case filterset_syntax_of sx s of
      Some (Some e, []) \<Rightarrow> well_bracketed (leaf_from sx (length s)) e \<and>
        filterset_parse env s kind kg = bind_outcome (compile (fe_regex env) (fe_graph env) e kind kg) (\<lambda>r. case r of
           Inl es \<Rightarrow> Ret (Inl \<lparr>fpe_input = s, fpe_errors = es\<rparr>)
         | Inr c \<Rightarrow> Ret (Inr \<lparr>fs_input = s, fs_parsed = e, fs_compiled = c\<rparr>))
    | Some (_, errs) \<Rightarrow> errs \<noteq> [] \<and> filterset_parse env s kind kg = Ret (Inl \<lparr>fpe_input = s, fpe_errors = errs\<rparr>)
    | None \<Rightarrow> False"
proof (cases rule: filterset_syntax_of_cases [of sx s])
  case (errors r errs)
  then show ?thesis by (cases r; cases errs) (simp_all add: filterset_parse_def assms)
next
  case (expr e)
  then show ?thesis by (simp add: filterset_parse_def assms)
qed

definition parser_env :: config_env where
  "parser_env = \<lparr>fe_syntax = filterset_syntax_of ascii_libs, fe_regex = ex_engine, fe_graph = ex_graph,
     fe_target_spec = (\<lambda>_. Inl ''unknown'')\<rparr>"

lemma parser_env_syntax: "fe_syntax parser_env = filterset_syntax_of ascii_libs"
  by (simp add: parser_env_def)

lemma default_banned:
  "compile re graph (ENot op (ESet (PDefault sp))) KDefaultFilter kg =
     Ret (Inl [BannedPredicate KDefaultFilter sp DefaultInfiniteRecursion])"
  by (simp add: compile_def)

theorem filterset_parse_complete_witness:
  "filterset_parse parser_env ''all(aaa)'' KTest Unavailable =
     Ret (Inl \<lparr>fpe_input = ''all(aaa)'', fpe_errors = [UnexpectedArgument (4, 3)]\<rparr>) \<and>
   filterset_parse parser_env ''not default()'' KDefaultFilter Unavailable =
     Ret (Inl \<lparr>fpe_input = ''not default()'', fpe_errors = [BannedPredicate KDefaultFilter (4, 9) DefaultInfiniteRecursion]\<rparr>)"
  using filterset_parse_complete [OF parser_env_syntax, of "''all(aaa)''" KTest Unavailable]
    filterset_parse_complete [OF parser_env_syntax, of "''not default()''" KDefaultFilter Unavailable]
  unfolding filterset_syntax_of_def argument_parsed default_parsed by (simp add: default_banned)

text \<open>The errors of the compiler point at the leaves.\<close>

lemma banned_error_in_input:
  "leaf_from sx n l \<Longrightarrow> x \<in> set (banned_error kind l) \<Longrightarrow> in_input n x"
  by (cases l; cases kind) (auto simp: in_input_def)

lemma compile_set_def_in_input:
  assumes "compile_set_def re graph cx kg l errs = Ret (leaf, errs')" "leaf_from sx n l"
    "\<forall>x \<in> set errs. in_input n x"
  shows "\<forall>x \<in> set errs'. in_input n x"
  using assms by (cases l) (auto simp: expect_defs bind_outcome_eq_Ret in_input_def split: if_splits)

lemma compile_expr_in_input:
  assumes "compile_expr re graph cx kg e errs = Ret (c, errs')" "\<forall>l \<in> set (parsed_leaves e). leaf_from sx n l"
    "\<forall>x \<in> set errs. in_input n x"
  shows "\<forall>x \<in> set errs'. in_input n x"
  using assms
proof (induction e arbitrary: c errs errs')
  case (ESet l)
  then show ?case by (auto simp: bind_outcome_eq_Ret dest: compile_set_def_in_input)
qed (fastforce simp: bind_outcome_eq_Ret)+

lemma compile_errors_in_input:
  assumes "compile re graph e kind kg = Ret (Inl es)" "\<forall>l \<in> set (parsed_leaves e). leaf_from sx n l"
  shows "\<forall>x \<in> set es. in_input n x"
proof (cases "check_banned_predicates e kind [] = []")
  case True
  with assms(1) obtain cx c where "compile_expr re graph cx kg e [] = Ret (c, es)"
    by (auto simp: compile_def Let_def bind_outcome_eq_Ret split: if_splits)
  with assms(2) show ?thesis by (auto dest: compile_expr_in_input)
next
  case False
  with assms(1) have "es = check_banned_predicates e kind []"
    by (auto simp: compile_def Let_def split: if_splits)
  with assms(2) show ?thesis by (auto simp: check_banned_eq intro: banned_error_in_input)
qed

text \<open>
  C14. Every error that a filterset in the configuration is rejected with points into its text, whether the
  parser found it or the compiler: a banned predicate, a set that matches nothing. It is what the
  error display needs to underline the place.
\<close>

theorem filterset_errors_in_input:
  assumes "fe_syntax env = filterset_syntax_of sx" "syntax_spans_ok sx"
    and "filterset_parse env s kind kg = Ret (Inl errs)" "x \<in> set (fpe_errors errs)"
  shows "in_input (length s) x"
proof -
  obtain r st where p: "parse sx s = (Done r, st)" "good True (new_span s) st"
    using parse_wp [of True sx s] assms(2) by blast
  have told: "in_input (length s) y" if "y \<in> set (reported st)" for y
    using good_errors [OF p(2)] that by (simp add: new_span_def)
  show ?thesis
  proof (cases rule: filterset_syntax_of_cases [of sx s])
    case (errors r' es)
    then have "reported st = es" using p(1) by (cases r) (auto simp: filterset_syntax_of_def)
    with errors assms told show ?thesis by (auto simp: filterset_parse_def)
  next
    case (expr e)
    then have "\<forall>l \<in> set (parsed_leaves e). leaf_from sx (length s) l"
      using well_bracketed_leaves by blast
    moreover obtain r' where c: "compile (fe_regex env) (fe_graph env) e kind kg = Ret r'"
      "(case r' of Inl es \<Rightarrow> Ret (Inl \<lparr>fpe_input = s, fpe_errors = es\<rparr>)
         | Inr c \<Rightarrow> Ret (Inr \<lparr>fs_input = s, fs_parsed = e, fs_compiled = c\<rparr>)) = Ret (Inl errs)"
      using expr assms(1,3) by (auto simp: filterset_parse_def bind_outcome_eq_Ret)
    ultimately show ?thesis using assms(4) by (cases r') (auto dest: compile_errors_in_input)
  qed
qed

theorem filterset_errors_in_input_witness:
  "in_input 13 (BannedPredicate KDefaultFilter (4, 9) DefaultInfiniteRecursion)"
proof -
  have "filterset_parse parser_env ''not default()'' KDefaultFilter Unavailable =
      Ret (Inl \<lparr>fpe_input = ''not default()'', fpe_errors = [BannedPredicate KDefaultFilter (4, 9) DefaultInfiniteRecursion]\<rparr>)"
    by (simp add: filterset_parse_def parser_env_def filterset_syntax_of_def default_parsed default_banned)
  moreover have "length ''not default()'' = 13" by simp
  ultimately show ?thesis
    using filterset_errors_in_input [OF parser_env_syntax ascii_spans,
      of "''not default()''" KDefaultFilter Unavailable _ "BannedPredicate KDefaultFilter (4, 9) DefaultInfiniteRecursion"]
    by (simp del: list.size)
qed

text \<open>An error that is only reported: the expression parser alone ignores it.\<close>

lemma parsed_expr_parse_ignores_errors:
  "parsed_expr_parse ascii_libs ''all(aaa)'' = Ret (Inr (ESet PAll))"
  "filterset_syntax_of ascii_libs ''all(aaa)'' = Some (Some (ESet PAll), [UnexpectedArgument (4, 3)])"
  by (simp_all add: parsed_expr_parse_def filterset_syntax_of_def argument_parsed)

end
