(* ===== verification/Unit_Run.thy ===== *)
theory Unit_Run
  imports Dispatcher
begin

text \<open>
  A running unit, \<open>nextest-runner/src/runner/executor.rs\<close> and \<open>runner/unix.rs\<close>: the loop
  that waits for the child process of one attempt of a test, its slow timeout, the requests
  it receives from the dispatcher, and the loop that terminates it.

  The state of the loop is the record \<open>unit_state\<close>; one event of \<open>select!\<close> is one step. The
  awaited call of \<open>terminate_child\<close> is the phase \<open>Terminating\<close>, in which only its own loop
  takes events. \<open>un_signals\<close> records the signals sent to the child, oldest first, and
  \<open>un_slow_events\<close> the slow events sent to the dispatcher. \<open>un_reaped\<close> is \<open>child.id()\<close> being
  \<open>None\<close>: the child has been waited for. Reading the child's output and the answers to queries
  are left out.
\<close>

section \<open>Signals to the child\<close>

datatype unit_terminate_signal = TInterrupt | TTerm | THangup | TQuit | TKill

datatype child_signal = SendTerminate unit_terminate_signal | SendStop | SendContinue

datatype internal_terminate_reason = ReasonTimeout | ReasonSignal shutdown_request

definition timeout_terminate_method :: "duration \<Rightarrow> unit_terminate_signal" where
  "timeout_terminate_method grace_period = (if grace_period = 0 then TKill else TTerm)"

definition shutdown_terminate_method :: "shutdown_request \<Rightarrow> duration \<Rightarrow> unit_terminate_signal" where
  "shutdown_terminate_method req grace_period =
     (if grace_period = 0 then TKill
      else case req of
          Once (ShutdownSignal Hangup) \<Rightarrow> THangup
        | Once (ShutdownSignal Term) \<Rightarrow> TTerm
        | Once (ShutdownSignal Quit) \<Rightarrow> TQuit
        | Once (ShutdownSignal SigInterrupt) \<Rightarrow> TInterrupt
        | Once ShutdownTestFailureImmediate \<Rightarrow> TTerm
        | Twice \<Rightarrow> TKill)"

fun to_terminate_method :: "internal_terminate_reason \<Rightarrow> duration \<Rightarrow> unit_terminate_signal" where
  "to_terminate_method ReasonTimeout grace_period = timeout_terminate_method grace_period"
| "to_terminate_method (ReasonSignal req) grace_period = shutdown_terminate_method req grace_period"


section \<open>State\<close>

record slow_settings =
  slow_period :: duration
  terminate_after :: "nat option"
  grace_period :: duration
  on_timeout :: slow_timeout_result
  disable_timeouts :: bool
  send_sigtstp :: bool

datatype unit_phase =
    UnitRunning
  | Terminating internal_terminate_reason pausable_sleep stopwatch
  | AwaitExit
  | LoopDone

record unit_state =
  un_stopwatch :: stopwatch
  un_interval :: pausable_sleep
  un_timeout_hit :: nat
  un_slow_after :: "duration option"
  un_status :: "execution_result option"
  un_phase :: unit_phase
  un_reaped :: bool
  un_signals :: "child_signal list"
  un_slow_events :: "(duration \<times> duration option) list"

datatype unit_event =
    ChildExited
  | IntervalFired
  | GraceFired
  | Request run_unit_request

definition unit_new :: "instant \<Rightarrow> slow_settings \<Rightarrow> unit_state" where
  "unit_new now cfg =
     \<lparr>un_stopwatch = stopwatch_new now, un_interval = sleep_new now (slow_period cfg), un_timeout_hit = 0,
      un_slow_after = None, un_status = None, un_phase = UnitRunning, un_reaped = False,
      un_signals = [], un_slow_events = []\<rparr>"

definition send_signal :: "child_signal \<Rightarrow> unit_state \<Rightarrow> unit_state" where
  "send_signal s u = u\<lparr>un_signals := un_signals u @ [s]\<rparr>"

definition job_control_child :: "job_control_event \<Rightarrow> unit_state \<Rightarrow> unit_state" where
  "job_control_child event u =
     (if un_reaped u then u
      else send_signal (case event of JobStop \<Rightarrow> SendStop | JobContinue \<Rightarrow> SendContinue) u)"


section \<open>Terminating the child\<close>

text \<open>
  What the caller does with the result of \<open>terminate_child\<close>: after a timeout it sets the
  status, and with no grace period waits for the child and leaves the loop; after a shutdown
  request it goes on with the loop.
\<close>

definition after_terminate :: "slow_settings \<Rightarrow> internal_terminate_reason \<Rightarrow> unit_state \<Rightarrow> unit_state" where
  "after_terminate cfg reason u =
     (case reason of
        ReasonTimeout \<Rightarrow>
          (let u = u\<lparr>un_status := Some (Timeout (on_timeout cfg))\<rparr> in
           if grace_period cfg = 0 then u\<lparr>un_phase := AwaitExit\<rparr> else u\<lparr>un_phase := UnitRunning\<rparr>)
      | ReasonSignal _ \<Rightarrow> u\<lparr>un_phase := UnitRunning\<rparr>)"

definition terminate_child :: "instant \<Rightarrow> slow_settings \<Rightarrow> internal_terminate_reason \<Rightarrow> unit_state \<Rightarrow> unit_state" where
  "terminate_child now cfg reason u =
     (if un_reaped u then after_terminate cfg reason u
      else
        let term_signal = to_terminate_method reason (grace_period cfg);
            u = send_signal (SendTerminate term_signal) u
        in if term_signal = TKill then after_terminate cfg reason u
           else u\<lparr>un_phase := Terminating reason (sleep_new now (grace_period cfg)) (stopwatch_new now)\<rparr>)"

text \<open>One event of the loop in \<open>terminate_child\<close>.\<close>

definition terminate_step ::
  "instant \<Rightarrow> slow_settings \<Rightarrow> internal_terminate_reason \<Rightarrow> pausable_sleep \<Rightarrow> stopwatch \<Rightarrow> unit_event
     \<Rightarrow> unit_state \<Rightarrow> unit_state outcome" where
  "terminate_step now cfg reason sleep waiting event u =
     (case event of
        ChildExited \<Rightarrow> Ret (after_terminate cfg reason (u\<lparr>un_reaped := True\<rparr>))
      | Request (SignalReq ReqStop) \<Rightarrow>
          bind_outcome (sw_pause now (un_stopwatch u)) (\<lambda>sw.
          bind_outcome (sl_pause now sleep) (\<lambda>sl.
          bind_outcome (sw_pause now waiting) (\<lambda>w.
          Ret (job_control_child JobStop
                 (u\<lparr>un_stopwatch := sw, un_phase := Terminating reason sl w\<rparr>)))))
      | Request (SignalReq ReqContinue) \<Rightarrow>
          bind_outcome
            (if \<not> sl_is_paused sleep then
               bind_outcome (sw_resume now (un_stopwatch u)) (\<lambda>sw.
               bind_outcome (sl_resume now sleep) (\<lambda>sl.
               bind_outcome (sw_resume now waiting) (\<lambda>w.
               Ret (u\<lparr>un_stopwatch := sw, un_phase := Terminating reason sl w\<rparr>))))
             else Ret u)
            (\<lambda>u. Ret (job_control_child JobContinue u))
      | Request (SignalReq (ReqShutdown _)) \<Rightarrow>
          Ret (after_terminate cfg reason (send_signal (SendTerminate TKill) u))
      | Request OtherCancel \<Rightarrow> Ret u
      | Request QueryGetInfo \<Rightarrow> Ret u
      | GraceFired \<Rightarrow> Ret (after_terminate cfg reason (send_signal (SendTerminate TKill) u))
      | IntervalFired \<Rightarrow> Ret u)"


section \<open>The loop of an attempt\<close>

definition handle_signal_request ::
  "instant \<Rightarrow> slow_settings \<Rightarrow> signal_request \<Rightarrow> unit_state \<Rightarrow> unit_state outcome" where
  "handle_signal_request now cfg req u =
     (case req of
        ReqStop \<Rightarrow>
          bind_outcome (sw_pause now (un_stopwatch u)) (\<lambda>sw.
          bind_outcome (sl_pause now (un_interval u)) (\<lambda>sl.
          let u = u\<lparr>un_stopwatch := sw, un_interval := sl\<rparr> in
          Ret (if send_sigtstp cfg then job_control_child JobStop u else u)))
      | ReqContinue \<Rightarrow>
          (if sw_is_paused (un_stopwatch u) then
             bind_outcome (sw_resume now (un_stopwatch u)) (\<lambda>sw.
             bind_outcome (sl_resume now (un_interval u)) (\<lambda>sl.
             Ret (job_control_child JobContinue (u\<lparr>un_stopwatch := sw, un_interval := sl\<rparr>))))
           else Ret u)
      | ReqShutdown event \<Rightarrow> Ret (terminate_child now cfg (ReasonSignal event) u))"

definition interval_fired :: "instant \<Rightarrow> slow_settings \<Rightarrow> unit_state \<Rightarrow> unit_state" where
  "interval_fired now cfg u =
     (let u = u\<lparr>un_slow_after := Some (slow_period cfg), un_timeout_hit := un_timeout_hit u + 1\<rparr>;
          will_terminate = (case terminate_after cfg of
              Some n \<Rightarrow> un_timeout_hit u \<ge> n | None \<Rightarrow> False);
          u = (if grace_period cfg \<noteq> 0
               then u\<lparr>un_slow_events := un_slow_events u @
                        [(un_timeout_hit u * slow_period cfg,
                          if will_terminate then Some (grace_period cfg) else None)]\<rparr>
               else u)
      in if will_terminate then terminate_child now cfg ReasonTimeout u
         else u\<lparr>un_interval := sl_reset_last_duration now (un_interval u)\<rparr>)"

definition running_step :: "instant \<Rightarrow> slow_settings \<Rightarrow> unit_event \<Rightarrow> unit_state \<Rightarrow> unit_state outcome" where
  "running_step now cfg event u =
     (case event of
        ChildExited \<Rightarrow> Ret (u\<lparr>un_reaped := True, un_phase := LoopDone\<rparr>)
      | IntervalFired \<Rightarrow>
          Ret (if un_status u = None \<and> \<not> disable_timeouts cfg then interval_fired now cfg u else u)
      | Request (SignalReq req) \<Rightarrow> handle_signal_request now cfg req u
      | Request OtherCancel \<Rightarrow> Ret u
      | Request QueryGetInfo \<Rightarrow> Ret u
      | GraceFired \<Rightarrow> Ret u)"

definition unit_step :: "instant \<Rightarrow> slow_settings \<Rightarrow> unit_event \<Rightarrow> unit_state \<Rightarrow> unit_state outcome" where
  "unit_step now cfg event u =
     (case un_phase u of
        UnitRunning \<Rightarrow> running_step now cfg event u
      | Terminating reason sleep waiting \<Rightarrow> terminate_step now cfg reason sleep waiting event u
      | AwaitExit \<Rightarrow> Ret (if event = ChildExited then u\<lparr>un_reaped := True, un_phase := LoopDone\<rparr> else u)
      | LoopDone \<Rightarrow> Ret u)"

fun unit_run :: "slow_settings \<Rightarrow> (instant \<times> unit_event) list \<Rightarrow> unit_state \<Rightarrow> unit_state outcome" where
  "unit_run cfg [] u = Ret u"
| "unit_run cfg ((now, event) # xs) u = bind_outcome (unit_step now cfg event u) (unit_run cfg xs)"

text \<open>When \<open>select!\<close> can take a timer's event: the timer under it has fired.\<close>

fun unit_event_ready :: "instant \<Rightarrow> unit_event \<Rightarrow> unit_state \<Rightarrow> bool" where
  "unit_event_ready now IntervalFired u = (un_phase u = UnitRunning \<and> sl_fires now (un_interval u))"
| "unit_event_ready now GraceFired u =
     (case un_phase u of Terminating _ sleep _ \<Rightarrow> sl_fires now sleep | _ \<Rightarrow> False)"
| "unit_event_ready now _ u = True"


section \<open>The result of an attempt\<close>

datatype exit_status = ExitSuccess | ExitFailure failure_description

definition create_execution_result ::
  "exit_status option \<Rightarrow> bool \<Rightarrow> bool \<Rightarrow> leak_timeout_result \<Rightarrow> execution_result" where
  "create_execution_result status child_errors leaked leak_result =
     (case status of
        None \<Rightarrow> ExecFail
      | Some st \<Rightarrow>
          (if child_errors then ExecFail
           else case st of
               ExitSuccess \<Rightarrow> if leaked then Leak leak_result else Pass
             | ExitFailure failure \<Rightarrow> Fail failure leaked))"

definition attempt_result ::
  "unit_state \<Rightarrow> exit_status option \<Rightarrow> bool \<Rightarrow> bool \<Rightarrow> leak_timeout_result \<Rightarrow> execution_result" where
  "attempt_result u status child_errors leaked leak_result =
     (case un_status u of
        Some r \<Rightarrow> r
      | None \<Rightarrow> create_execution_result status child_errors leaked leak_result)"


section \<open>The delay between attempts\<close>

text \<open>\<open>None\<close> once the loop is left: the delay is over, or the run is being cancelled.\<close>

definition delay_step ::
  "instant \<Rightarrow> unit_event \<Rightarrow> pausable_sleep \<times> stopwatch \<Rightarrow> (pausable_sleep \<times> stopwatch) option outcome" where
  "delay_step now event s =
     (case s of (sleep, waiting) \<Rightarrow>
       (case event of
          GraceFired \<Rightarrow> Ret None
        | Request (SignalReq ReqStop) \<Rightarrow>
            bind_outcome (sl_pause now sleep) (\<lambda>sl. bind_outcome (sw_pause now waiting) (\<lambda>w. Ret (Some (sl, w))))
        | Request (SignalReq ReqContinue) \<Rightarrow>
            (if sl_is_paused sleep then
               bind_outcome (sl_resume now sleep) (\<lambda>sl. bind_outcome (sw_resume now waiting) (\<lambda>w. Ret (Some (sl, w))))
             else Ret (Some (sleep, waiting)))
        | Request (SignalReq (ReqShutdown _)) \<Rightarrow> Ret None
        | Request OtherCancel \<Rightarrow> Ret None
        | Request QueryGetInfo \<Rightarrow> Ret (Some (sleep, waiting))
        | _ \<Rightarrow> Ret (Some (sleep, waiting))))"

fun delay_run :: "(instant \<times> unit_event) list \<Rightarrow> pausable_sleep \<times> stopwatch \<Rightarrow> (pausable_sleep \<times> stopwatch) option outcome" where
  "delay_run [] s = Ret (Some s)"
| "delay_run ((now, event) # xs) s =
     bind_outcome (delay_step now event s) (\<lambda>r. case r of None \<Rightarrow> Ret None | Some s \<Rightarrow> delay_run xs s)"

end
