(* ===== verification/Output_Events.thy ===== *)
theory Output_Events
  imports Unit_Run Config_Elements Test_List
begin

text \<open>
  The events that the reporters get, with the output that tests and setup scripts wrote
  (\<open>nextest-runner/src/reporter/events.rs\<close>), and what is kept of them in a recording
  (\<open>record/summary.rs\<close>). The type parameter stands for the \<open>OutputSpec\<close>: how the output is
  held. Bytes are characters; timestamps are numbers; a run is named by its printed id.
\<close>

section \<open>Output of a process\<close>

datatype unit_kind = UnitTest | UnitScript

text \<open>\<open>ChildOutputDescription\<close> (live) and \<open>ZipStoreOutputDescription\<close> (recorded).\<close>

datatype child_output =
    SplitOutput "string option" "string option"
  | CombinedOutput string
  | NotLoaded

datatype zip_output = ZipEmpty | ZipFull string | ZipTruncated string nat

datatype zip_output_desc =
    ZipSplit "zip_output option" "zip_output option"
  | ZipCombined zip_output

text \<open>\<open>SerializableError\<close>: a message and the messages of its causes.\<close>

record serializable_error =
  se_message :: string
  se_causes :: "string list"

datatype child_start_error = StartTempPath serializable_error | StartSpawn serializable_error

datatype child_error =
    ReadStdout serializable_error
  | ReadStderr serializable_error
  | ReadCombined serializable_error
  | WaitError serializable_error
  | SetupScriptOutputError serializable_error

datatype 'o execution_output =
    ProcessOutput "execution_result option" 'o "child_error list option"
  | StartError child_start_error

fun has_errors :: "'o execution_output \<Rightarrow> bool" where
  "has_errors (ProcessOutput result _ errors) \<longleftrightarrow>
     errors \<noteq> None \<or> (case result of Some r \<Rightarrow> \<not> is_success r | None \<Rightarrow> False)"
| "has_errors (StartError _) \<longleftrightarrow> True"

text \<open>
  \<open>ExecuteStatus\<close>: the part that decides (\<open>execute_status\<close>) and the part that is shown and stored.
\<close>

record 'o unit_status =
  us_status :: execute_status
  us_output :: "'o execution_output"
  us_start_time :: nat
  us_error_summary :: "(string \<times> string) option"
  us_error_slice :: "(string \<times> nat) option"

record 'o unit_statuses =
  uss_statuses :: "'o unit_status list"
  uss_flaky_result :: flaky_result

definition plain_statuses :: "'o unit_statuses \<Rightarrow> execution_statuses" where
  "plain_statuses rs = \<lparr>statuses = map us_status (uss_statuses rs), flaky_result_of = uss_flaky_result rs\<rparr>"

text \<open>\<open>SetupScriptExecuteStatus\<close>.\<close>

record 'o script_status =
  sst_output :: "'o execution_output"
  sst_result :: execution_result
  sst_start_time :: nat
  sst_time_taken :: duration
  sst_is_slow :: bool
  sst_env_map :: "(string \<times> string) list option"
  sst_error_summary :: "(string \<times> string) option"

text \<open>Changing how the output is held.\<close>

fun map_execution_output :: "('a \<Rightarrow> 'b) \<Rightarrow> 'a execution_output \<Rightarrow> 'b execution_output" where
  "map_execution_output f (ProcessOutput r out errs) = ProcessOutput r (f out) errs"
| "map_execution_output f (StartError e) = StartError e"

definition with_output :: "'b execution_output \<Rightarrow> 'a unit_status \<Rightarrow> 'b unit_status" where
  "with_output out s = \<lparr>us_status = us_status s, us_output = out, us_start_time = us_start_time s,
     us_error_summary = us_error_summary s, us_error_slice = us_error_slice s\<rparr>"

definition script_with_output :: "'b execution_output \<Rightarrow> 'a script_status \<Rightarrow> 'b script_status" where
  "script_with_output out s = \<lparr>sst_output = out, sst_result = sst_result s, sst_start_time = sst_start_time s,
     sst_time_taken = sst_time_taken s, sst_is_slow = sst_is_slow s, sst_env_map = sst_env_map s,
     sst_error_summary = sst_error_summary s\<rparr>"

lemma with_output_simps [simp]:
  "us_status (with_output out s) = us_status s" "us_output (with_output out s) = out"
  "with_output (us_output s) s = s" "with_output out2 (with_output out s) = with_output out2 s"
  by (simp_all add: with_output_def)

lemma script_with_output_simps [simp]:
  "sst_output (script_with_output out s) = out" "sst_result (script_with_output out s) = sst_result s"
  "sst_time_taken (script_with_output out s) = sst_time_taken s"
  "sst_is_slow (script_with_output out s) = sst_is_slow s"
  "script_with_output (sst_output s) s = s"
  "script_with_output out2 (script_with_output out s) = script_with_output out2 s"
  by (simp_all add: script_with_output_def)


section \<open>States of running units\<close>

datatype unit_terminate_reason = TerminateTimeout | TerminateSignal | TerminateInterrupt

fun terminate_reason_str :: "unit_terminate_reason \<Rightarrow> string" where
  "terminate_reason_str TerminateTimeout = ''timeout''"
| "terminate_reason_str TerminateSignal = ''signal''"
| "terminate_reason_str TerminateInterrupt = ''interrupt''"

fun terminate_signal_str :: "unit_terminate_signal \<Rightarrow> string" where
  "terminate_signal_str TInterrupt = ''SIGINT''"
| "terminate_signal_str TTerm = ''SIGTERM''"
| "terminate_signal_str THangup = ''SIGHUP''"
| "terminate_signal_str TQuit = ''SIGQUIT''"
| "terminate_signal_str TKill = ''SIGKILL''"

record terminating_info =
  ti_pid :: nat
  ti_time_taken :: duration
  ti_reason :: unit_terminate_reason
  ti_method :: unit_terminate_signal
  ti_waiting_duration :: duration
  ti_remaining :: duration

text \<open>\<open>UnitState\<close>, with the fields in the order of their declaration.\<close>

datatype unit_info =
    InfoRunning nat duration "duration option"
  | InfoExiting nat duration "duration option" "execution_result option" duration duration
  | InfoTerminating terminating_info
  | InfoExited execution_result duration "duration option"
  | InfoDelay execution_result bool duration duration

fun has_valid_output :: "unit_info \<Rightarrow> bool" where
  "has_valid_output (InfoDelay _ _ _ _) = False"
| "has_valid_output _ = True"

datatype info_response =
    ScriptInfo "stress_index option" script_id string "string list" unit_info "child_output execution_output"
  | TestInfo "stress_index option" test_instance_id retry_data unit_info "child_output execution_output"


section \<open>Events\<close>

record slot_assignment =
  sa_global_slot :: nat
  sa_group_slot :: "nat option"
  sa_test_group :: test_group

text \<open>
  \<open>TestEventKind\<close>. The test list of \<open>RunStarted\<close> is the same for a whole run; it is an argument of
  the reporter instead.
\<close>

datatype test_event =
    TERunStarted string string "string list" "stress_condition option"
  | TEStressSubRunStarted stress_progress
  | TESetupScriptStarted "stress_index option" nat nat script_id string "string list" bool
  | TESetupScriptSlow "stress_index option" script_id string "string list" duration bool
  | TESetupScriptFinished "stress_index option" nat nat script_id string "string list" bool bool bool
      "child_output script_status"
  | TETestStarted "stress_index option" test_instance_id slot_assignment run_stats nat "string list"
  | TETestSlow "stress_index option" test_instance_id retry_data duration bool
  | TETestAttemptFailedWillRetry "stress_index option" test_instance_id "child_output unit_status" duration
      test_output_display nat
  | TETestRetryStarted "stress_index option" test_instance_id slot_assignment retry_data nat "string list"
  | TETestFinished "stress_index option" test_instance_id test_output_display test_output_display bool bool
      junit_flaky_fail_status "child_output unit_statuses" run_stats nat
  | TETestSkipped "stress_index option" test_instance_id mismatch_reason report_skip_policy
  | TEInfoStarted nat run_stats
  | TEInfoResponse nat nat info_response
  | TEInfoFinished nat
  | TEInputEnter run_stats nat
  | TERunBeginCancel nat run_stats nat
  | TERunBeginKill nat run_stats nat
  | TERunPaused nat nat
  | TERunContinued nat nat
  | TEStressSubRunFinished stress_progress duration run_stats
  | TERunFinished string nat duration run_finished_stats "tests_not_seen option"

text \<open>What is recorded: \<open>CoreEventKind\<close> and \<open>OutputEventKind\<close>. A recorded count of 0 is possible.\<close>

datatype stress_condition_summary = SummaryCount "nat option" | SummaryDuration duration

datatype core_event =
    CERunStarted string string "string list" "stress_condition_summary option"
  | CEStressSubRunStarted stress_progress
  | CESetupScriptStarted "stress_index option" nat nat script_id string "string list" bool
  | CESetupScriptSlow "stress_index option" script_id string "string list" duration bool
  | CETestStarted "stress_index option" test_instance_id slot_assignment run_stats nat "string list"
  | CETestSlow "stress_index option" test_instance_id retry_data duration bool
  | CETestRetryStarted "stress_index option" test_instance_id slot_assignment retry_data nat "string list"
  | CETestSkipped "stress_index option" test_instance_id mismatch_reason report_skip_policy
  | CERunBeginCancel nat nat cancel_reason
  | CERunPaused nat nat
  | CERunContinued nat nat
  | CEStressSubRunFinished stress_progress duration run_stats
  | CERunFinished string nat duration run_finished_stats "tests_not_seen option"

datatype 'o output_event =
    OESetupScriptFinished "stress_index option" nat nat script_id string "string list" bool "'o script_status"
  | OETestAttemptFailedWillRetry "stress_index option" test_instance_id "'o unit_status" duration
      test_output_display nat
  | OETestFinished "stress_index option" test_instance_id test_output_display test_output_display bool bool
      junit_flaky_fail_status "'o unit_statuses" run_stats nat

datatype 'o event_summary = CoreEvent core_event | OutputEvent "'o output_event"

fun summarize_stress_condition :: "stress_condition \<Rightarrow> stress_condition_summary" where
  "summarize_stress_condition (CondCount (StressCount n)) = SummaryCount (Some n)"
| "summarize_stress_condition (CondCount StressInfinite) = SummaryCount None"
| "summarize_stress_condition (CondDuration d) = SummaryDuration d"

text \<open>
  \<open>from_test_event_kind\<close>: \<open>Ret None\<close> for an event that is not recorded. A cancellation without a reason
  panics (\<open>expect\<close>).
\<close>

fun from_test_event_kind :: "test_event \<Rightarrow> child_output event_summary option outcome" where
  "from_test_event_kind (TERunStarted run_id profile cli cond) =
     Ret (Some (CoreEvent (CERunStarted run_id profile cli (map_option summarize_stress_condition cond))))"
| "from_test_event_kind (TEStressSubRunStarted progress) = Ret (Some (CoreEvent (CEStressSubRunStarted progress)))"
| "from_test_event_kind (TESetupScriptStarted si index tot script program args no_capture) =
     Ret (Some (CoreEvent (CESetupScriptStarted si index tot script program args no_capture)))"
| "from_test_event_kind (TESetupScriptSlow si script program args elapsed will_terminate) =
     Ret (Some (CoreEvent (CESetupScriptSlow si script program args elapsed will_terminate)))"
| "from_test_event_kind (TETestStarted si t slot stats nrun cmd) =
     Ret (Some (CoreEvent (CETestStarted si t slot stats nrun cmd)))"
| "from_test_event_kind (TETestSlow si t retry elapsed will_terminate) =
     Ret (Some (CoreEvent (CETestSlow si t retry elapsed will_terminate)))"
| "from_test_event_kind (TETestRetryStarted si t slot retry nrun cmd) =
     Ret (Some (CoreEvent (CETestRetryStarted si t slot retry nrun cmd)))"
| "from_test_event_kind (TETestSkipped si t reason policy) =
     Ret (Some (CoreEvent (CETestSkipped si t reason policy)))"
| "from_test_event_kind (TERunBeginCancel scripts stats nrun) = (case cancel_reason_of stats of
     Some reason \<Rightarrow> Ret (Some (CoreEvent (CERunBeginCancel scripts nrun reason)))
   | None \<Rightarrow> Panic)"
| "from_test_event_kind (TERunPaused scripts nrun) = Ret (Some (CoreEvent (CERunPaused scripts nrun)))"
| "from_test_event_kind (TERunContinued scripts nrun) = Ret (Some (CoreEvent (CERunContinued scripts nrun)))"
| "from_test_event_kind (TEStressSubRunFinished progress elapsed stats) =
     Ret (Some (CoreEvent (CEStressSubRunFinished progress elapsed stats)))"
| "from_test_event_kind (TERunFinished run_id start elapsed stats not_seen) =
     Ret (Some (CoreEvent (CERunFinished run_id start elapsed stats not_seen)))"
| "from_test_event_kind (TESetupScriptFinished si index tot script program args _ _ no_capture status) =
     Ret (Some (OutputEvent (OESetupScriptFinished si index tot script program args no_capture status)))"
| "from_test_event_kind (TETestAttemptFailedWillRetry si t status delay failure_output nrun) =
     Ret (Some (OutputEvent (OETestAttemptFailedWillRetry si t status delay failure_output nrun)))"
| "from_test_event_kind (TETestFinished si t success_output failure_output jss jsf jff rs stats nrun) =
     Ret (Some (OutputEvent (OETestFinished si t success_output failure_output jss jsf jff rs stats nrun)))"
| "from_test_event_kind (TEInfoStarted _ _) = Ret None"
| "from_test_event_kind (TEInfoResponse _ _ _) = Ret None"
| "from_test_event_kind (TEInfoFinished _) = Ret None"
| "from_test_event_kind (TEInputEnter _ _) = Ret None"
| "from_test_event_kind (TERunBeginKill _ _ _) = Ret None"

end
