(* ===== verification/Recorder.thy ===== *)
theory Recorder
  imports Output_Events Unicode_Text
begin

text \<open>
  Recording a run and reading it back: the archive of outputs and the event log
  (\<open>nextest-runner/src/record/recorder.rs\<close>, \<open>record/summary.rs\<close>, \<open>record/format.rs\<close>,
  \<open>reporter/structured/recorder.rs\<close>), reading outputs from the archive (\<open>record/reader.rs\<close>) and turning
  recorded events into events for the reporter (\<open>record/replay.rs\<close>).

  The hash and the compression come from other libraries and are parameters. JSON and the zip
  format are taken as lossless, and writing to the disk as successful.
\<close>

section \<open>Results\<close>

definition bind_result :: "'e + 'a \<Rightarrow> ('a \<Rightarrow> 'e + 'b) \<Rightarrow> 'e + 'b" where
  "bind_result r f = (case r of Inl e \<Rightarrow> Inl e | Inr x \<Rightarrow> f x)"

lemma bind_result_simps [simp]: "bind_result (Inl e) f = Inl e" "bind_result (Inr x) f = f x"
  by (simp_all add: bind_result_def)

text \<open>\<open>Option::transpose\<close> after \<open>map\<close>, and \<open>collect\<close> into a \<open>Result\<close>.\<close>

fun option_result :: "('a \<Rightarrow> 'e + 'b) \<Rightarrow> 'a option \<Rightarrow> 'e + 'b option" where
  "option_result f None = Inr None"
| "option_result f (Some x) = bind_result (f x) (\<lambda>y. Inr (Some y))"

fun collect_results :: "('a \<Rightarrow> 'e + 'b) \<Rightarrow> 'a list \<Rightarrow> 'e + 'b list" where
  "collect_results f [] = Inr []"
| "collect_results f (x # xs) = bind_result (f x) (\<lambda>y. bind_result (collect_results f xs) (\<lambda>ys. Inr (y # ys)))"


section \<open>Names of output files\<close>

datatype output_kind = KindStdout | KindStderr | KindCombined

fun output_kind_str :: "output_kind \<Rightarrow> string" where
  "output_kind_str KindStdout = ''stdout''"
| "output_kind_str KindStderr = ''stderr''"
| "output_kind_str KindCombined = ''combined''"

datatype output_dict = DictStdout | DictStderr | DictNone

record archive_libs =
  al_hash :: "string \<Rightarrow> nat"
  al_compress :: "output_dict \<Rightarrow> string \<Rightarrow> string"
  al_decompress :: "output_dict \<Rightarrow> string \<Rightarrow> nat \<Rightarrow> string option"

text \<open>\<open>{:016x}\<close>.\<close>

definition hex16 :: "nat \<Rightarrow> string" where
  "hex16 n = replicate (16 - length (show_hex n)) CHR ''0'' @ show_hex n"

definition from_content :: "archive_libs \<Rightarrow> string \<Rightarrow> output_kind \<Rightarrow> string" where
  "from_content al content kind = hex16 (al_hash al content) @ ''-'' @ output_kind_str kind"

definition is_lower_hex :: "char \<Rightarrow> bool" where
  "is_lower_hex c \<longleftrightarrow> (CHR ''0'' \<le> c \<and> c \<le> CHR ''9'') \<or> (CHR ''a'' \<le> c \<and> c \<le> CHR ''f'')"

definition validate_file_name :: "string \<Rightarrow> bool" where
  "validate_file_name s \<longleftrightarrow>
     \<not> str_contains s ''/'' \<and> \<not> str_contains s [backslash] \<and> \<not> str_contains s ''..'' \<and>
     list_ex (\<lambda>suf. suffix suf s \<and>
         (let hash_part = take (length s - length suf) s in length hash_part = 16 \<and> list_all is_lower_hex hash_part))
       [''-stdout'', ''-stderr'', ''-combined'']"

fun file_name :: "zip_output \<Rightarrow> string option" where
  "file_name ZipEmpty = None"
| "file_name (ZipFull name) = Some name"
| "file_name (ZipTruncated name _) = Some name"

definition for_output_file_name :: "string \<Rightarrow> output_dict" where
  "for_output_file_name name =
     (if suffix ''-stdout'' name \<or> suffix ''-combined'' name then DictStdout
      else if suffix ''-stderr'' name then DictStderr
      else DictNone)"

definition for_path :: "string \<Rightarrow> output_dict" where
  "for_path path = (case split_once ''/'' path of
     None \<Rightarrow> if path = ''out'' then for_output_file_name [] else DictNone
   | Some (first, rest) \<Rightarrow> if first = ''out'' then for_output_file_name rest else DictNone)"


section \<open>Writing\<close>

text \<open>\<open>StoreWriter\<close>: the files added so far, as they are stored.\<close>

record store_writer =
  sw_files :: "string \<rightharpoonup> string"
  sw_uncompressed_size :: nat

definition empty_writer :: store_writer where
  "empty_writer = \<lparr>sw_files = Map.empty, sw_uncompressed_size = 0\<rparr>"

definition add_file :: "archive_libs \<Rightarrow> string \<Rightarrow> string \<Rightarrow> store_writer \<Rightarrow> store_writer" where
  "add_file al path contents w =
     (if path \<in> dom (sw_files w) then w
      else \<lparr>sw_files = (sw_files w)(path \<mapsto>
              (case for_path path of DictNone \<Rightarrow> contents | dict \<Rightarrow> al_compress al dict contents)),
            sw_uncompressed_size = sw_uncompressed_size w + length contents\<rparr>)"

definition truncation_marker :: "nat \<Rightarrow> string" where
  "truncation_marker n =
     [CHR 0x0A, CHR 0x0A] @ ''... [truncated '' @ show_nat n @ '' bytes] ...'' @ [CHR 0x0A, CHR 0x0A]"

definition truncate_output :: "string \<Rightarrow> nat \<Rightarrow> string" where
  "truncate_output buf max_size =
     (if length buf \<le> max_size then buf
      else (let marker = truncation_marker (length buf - max_size);
                content_space = max_size - length marker;
                head_size = content_space div 2;
                tail_size = content_space - head_size
            in take head_size buf @ marker @ drop (length buf - tail_size) buf))"

definition write_single_output ::
  "archive_libs \<Rightarrow> nat \<Rightarrow> string option \<Rightarrow> output_kind \<Rightarrow> store_writer \<Rightarrow> zip_output \<times> store_writer" where
  "write_single_output al max_size output kind w = (case output of
     None \<Rightarrow> (ZipEmpty, w)
   | Some buf \<Rightarrow>
       if buf = [] then (ZipEmpty, w)
       else (let original_len = length buf;
                 (data, truncated) = (if original_len \<le> max_size then (buf, False) else (truncate_output buf max_size, True));
                 name = from_content al data kind;
                 w' = add_file al (''out/'' @ name) data w
             in (if truncated then ZipTruncated name original_len else ZipFull name, w')))"

fun convert_child_output ::
  "archive_libs \<Rightarrow> nat \<Rightarrow> child_output \<Rightarrow> store_writer \<Rightarrow> (zip_output_desc \<times> store_writer) outcome" where
  "convert_child_output al m (SplitOutput out err) w =
     (let (out', w1) = (case out of None \<Rightarrow> (None, w)
            | Some o1 \<Rightarrow> map_prod Some id (write_single_output al m (Some o1) KindStdout w));
          (err', w2) = (case err of None \<Rightarrow> (None, w1)
            | Some o2 \<Rightarrow> map_prod Some id (write_single_output al m (Some o2) KindStderr w1))
      in Ret (ZipSplit out' err', w2))"
| "convert_child_output al m (CombinedOutput out) w =
     Ret (map_prod ZipCombined id (write_single_output al m (Some out) KindCombined w))"
| "convert_child_output al m NotLoaded w = Panic"

fun convert_execution_output ::
  "archive_libs \<Rightarrow> nat \<Rightarrow> child_output execution_output \<Rightarrow> store_writer
     \<Rightarrow> (zip_output_desc execution_output \<times> store_writer) outcome" where
  "convert_execution_output al m (ProcessOutput result out errors) w =
     bind_outcome (convert_child_output al m out w) (\<lambda>(out', w'). Ret (ProcessOutput result out' errors, w'))"
| "convert_execution_output al m (StartError e) w = Ret (StartError e, w)"

definition convert_execute_status ::
  "archive_libs \<Rightarrow> nat \<Rightarrow> child_output unit_status \<Rightarrow> store_writer
     \<Rightarrow> (zip_output_desc unit_status \<times> store_writer) outcome" where
  "convert_execute_status al m s w =
     bind_outcome (convert_execution_output al m (us_output s) w) (\<lambda>(out, w'). Ret (with_output out s, w'))"

fun convert_statuses ::
  "archive_libs \<Rightarrow> nat \<Rightarrow> child_output unit_status list \<Rightarrow> store_writer
     \<Rightarrow> (zip_output_desc unit_status list \<times> store_writer) outcome" where
  "convert_statuses al m [] w = Ret ([], w)"
| "convert_statuses al m (s # ss) w =
     bind_outcome (convert_execute_status al m s w) (\<lambda>(s', w1).
     bind_outcome (convert_statuses al m ss w1) (\<lambda>(ss', w2). Ret (s' # ss', w2)))"

definition convert_execution_statuses ::
  "archive_libs \<Rightarrow> nat \<Rightarrow> child_output unit_statuses \<Rightarrow> store_writer
     \<Rightarrow> (zip_output_desc unit_statuses \<times> store_writer) outcome" where
  "convert_execution_statuses al m rs w =
     bind_outcome (convert_statuses al m (uss_statuses rs) w) (\<lambda>(ss, w').
       Ret (\<lparr>uss_statuses = ss, uss_flaky_result = uss_flaky_result rs\<rparr>, w'))"

definition convert_script_status ::
  "archive_libs \<Rightarrow> nat \<Rightarrow> child_output script_status \<Rightarrow> store_writer
     \<Rightarrow> (zip_output_desc script_status \<times> store_writer) outcome" where
  "convert_script_status al m s w =
     bind_outcome (convert_execution_output al m (sst_output s) w) (\<lambda>(out, w'). Ret (script_with_output out s, w'))"

fun convert_output_event ::
  "archive_libs \<Rightarrow> nat \<Rightarrow> child_output output_event \<Rightarrow> store_writer
     \<Rightarrow> (zip_output_desc output_event \<times> store_writer) outcome" where
  "convert_output_event al m (OESetupScriptFinished si index tot script program args no_capture status) w =
     bind_outcome (convert_script_status al m status w) (\<lambda>(status', w').
       Ret (OESetupScriptFinished si index tot script program args no_capture status', w'))"
| "convert_output_event al m (OETestAttemptFailedWillRetry si t status delay failure_output nrun) w =
     bind_outcome (convert_execute_status al m status w) (\<lambda>(status', w').
       Ret (OETestAttemptFailedWillRetry si t status' delay failure_output nrun, w'))"
| "convert_output_event al m (OETestFinished si t success_output failure_output jss jsf jff rs stats nrun) w =
     bind_outcome (convert_execution_statuses al m rs w) (\<lambda>(rs', w').
       Ret (OETestFinished si t success_output failure_output jss jsf jff rs' stats nrun, w'))"

fun convert_event_kind ::
  "archive_libs \<Rightarrow> nat \<Rightarrow> child_output event_summary \<Rightarrow> store_writer
     \<Rightarrow> (zip_output_desc event_summary \<times> store_writer) outcome" where
  "convert_event_kind al m (CoreEvent e) w = Ret (CoreEvent e, w)"
| "convert_event_kind al m (OutputEvent e) w =
     bind_outcome (convert_output_event al m e w) (\<lambda>(e', w'). Ret (OutputEvent e', w'))"

text \<open>\<open>RunRecorder\<close>: the archive and the log.\<close>

record run_recorder =
  rr_writer :: store_writer
  rr_log :: "zip_output_desc event_summary list"
  rr_log_entries :: nat
  rr_max_output_size :: nat

definition new_recorder :: "nat \<Rightarrow> run_recorder" where
  "new_recorder max_output_size =
     \<lparr>rr_writer = empty_writer, rr_log = [], rr_log_entries = 0, rr_max_output_size = max_output_size\<rparr>"

definition recorder_write_event ::
  "archive_libs \<Rightarrow> child_output event_summary \<Rightarrow> run_recorder \<Rightarrow> run_recorder outcome" where
  "recorder_write_event al e r =
     bind_outcome (convert_event_kind al (rr_max_output_size r) e (rr_writer r)) (\<lambda>(e', w').
       Ret (r\<lparr>rr_writer := w', rr_log := rr_log r @ [e'], rr_log_entries := rr_log_entries r + 1\<rparr>))"

text \<open>\<open>RecordReporter::write_event\<close>, with the thread behind its channel.\<close>

definition record_event :: "archive_libs \<Rightarrow> test_event \<Rightarrow> run_recorder \<Rightarrow> run_recorder outcome" where
  "record_event al ev r = bind_outcome (from_test_event_kind ev) (\<lambda>s. case s of
     None \<Rightarrow> Ret r
   | Some summary \<Rightarrow> recorder_write_event al summary r)"

fun record_events :: "archive_libs \<Rightarrow> test_event list \<Rightarrow> run_recorder \<Rightarrow> run_recorder outcome" where
  "record_events al [] r = Ret r"
| "record_events al (ev # evs) r = bind_outcome (record_event al ev r) (record_events al evs)"

end
