(* ===== verification/Replay.thy ===== *)
theory Replay
  imports Recorder
begin

text \<open>
  Reading a recording back: outputs from the archive (\<open>nextest-runner/src/record/reader.rs\<close>) and the
  conversion of recorded events into events for the reporter (\<open>record/replay.rs\<close>).
\<close>

section \<open>Reading the archive\<close>

definition MIN_MAX_OUTPUT_SIZE :: nat where "MIN_MAX_OUTPUT_SIZE = 1000"
definition MAX_MAX_OUTPUT_SIZE :: nat where "MAX_MAX_OUTPUT_SIZE = 256 * 1024 * 1024"

datatype record_read_error =
    FileNotFound string
  | FileTooLarge string nat nat
  | UnknownOutputType string
  | DecompressError string

text \<open>The archive is the files as they are stored; a mismatch of claimed and real sizes does not occur.\<close>

definition read_archive_file :: "(string \<rightharpoonup> string) \<Rightarrow> string \<Rightarrow> record_read_error + string" where
  "read_archive_file files name = (case files name of
     None \<Rightarrow> Inl (FileNotFound name)
   | Some contents \<Rightarrow>
       if length contents > MAX_MAX_OUTPUT_SIZE then Inl (FileTooLarge name (length contents) MAX_MAX_OUTPUT_SIZE)
       else Inr contents)"

definition get_dict_for_output :: "string \<Rightarrow> output_dict option" where
  "get_dict_for_output name = (case for_output_file_name name of
     DictStdout \<Rightarrow> Some DictStdout
   | DictStderr \<Rightarrow> Some DictStderr
   | DictNone \<Rightarrow> None)"

definition read_output :: "archive_libs \<Rightarrow> (string \<rightharpoonup> string) \<Rightarrow> string \<Rightarrow> record_read_error + string" where
  "read_output al files name =
     (let path = ''out/'' @ name
      in bind_result (read_archive_file files path) (\<lambda>compressed.
         case get_dict_for_output name of
           None \<Rightarrow> Inl (UnknownOutputType name)
         | Some dict \<Rightarrow> (case al_decompress al dict compressed MAX_MAX_OUTPUT_SIZE of
               None \<Rightarrow> Inl (DecompressError path)
             | Some contents \<Rightarrow> Inr contents)))"


section \<open>Converting events\<close>

datatype load_output = Load | Skip

datatype replay_error =
    TestNotFound test_instance_id
  | RecordRead record_read_error
  | InvalidStressCount

text \<open>\<open>ReplayContext\<close> knows the registered tests; the test list is an argument of the reporter.\<close>

record replay_context =
  rx_al :: archive_libs
  rx_files :: "string \<rightharpoonup> string"
  rx_test_data :: "test_instance_id set"

definition register_test :: "test_instance_id \<Rightarrow> replay_context \<Rightarrow> replay_context" where
  "register_test t rx = rx\<lparr>rx_test_data := insert t (rx_test_data rx)\<rparr>"

definition lookup_test_instance_id :: "replay_context \<Rightarrow> test_instance_id \<Rightarrow> test_instance_id option" where
  "lookup_test_instance_id rx t = (if t \<in> rx_test_data rx then Some t else None)"

definition find_test :: "replay_context \<Rightarrow> test_instance_id \<Rightarrow> replay_error + test_instance_id" where
  "find_test rx t = (case lookup_test_instance_id rx t of None \<Rightarrow> Inl (TestNotFound t) | Some t' \<Rightarrow> Inr t')"

definition read_output_file :: "replay_context \<Rightarrow> string option \<Rightarrow> replay_error + string option" where
  "read_output_file rx name = (case name of
     None \<Rightarrow> Inr None
   | Some n \<Rightarrow> (case read_output (rx_al rx) (rx_files rx) n of
         Inl e \<Rightarrow> Inl (RecordRead e)
       | Inr bytes \<Rightarrow> Inr (Some bytes)))"

definition read_output_as_child_single :: "replay_context \<Rightarrow> zip_output \<Rightarrow> replay_error + string" where
  "read_output_as_child_single rx out =
     bind_result (read_output_file rx (file_name out)) (\<lambda>bytes.
       Inr (case bytes of None \<Rightarrow> [] | Some b \<Rightarrow> b))"

fun replay_child_output :: "replay_context \<Rightarrow> load_output \<Rightarrow> zip_output_desc \<Rightarrow> replay_error + child_output" where
  "replay_child_output rx Skip _ = Inr NotLoaded"
| "replay_child_output rx Load (ZipSplit out err) =
     bind_result (option_result (read_output_as_child_single rx) out) (\<lambda>out'.
     bind_result (option_result (read_output_as_child_single rx) err) (\<lambda>err'.
       Inr (SplitOutput out' err')))"
| "replay_child_output rx Load (ZipCombined out) =
     bind_result (read_output_as_child_single rx out) (\<lambda>out'. Inr (CombinedOutput out'))"

fun replay_execution_output ::
  "replay_context \<Rightarrow> load_output \<Rightarrow> zip_output_desc execution_output
     \<Rightarrow> replay_error + child_output execution_output" where
  "replay_execution_output rx ld (ProcessOutput result out errors) =
     bind_result (replay_child_output rx ld out) (\<lambda>out'. Inr (ProcessOutput result out' errors))"
| "replay_execution_output rx ld (StartError e) = Inr (StartError e)"

definition replay_execute_status ::
  "replay_context \<Rightarrow> load_output \<Rightarrow> zip_output_desc unit_status \<Rightarrow> replay_error + child_output unit_status" where
  "replay_execute_status rx ld s =
     bind_result (replay_execution_output rx ld (us_output s)) (\<lambda>out. Inr (with_output out s))"

definition replay_execution_statuses ::
  "replay_context \<Rightarrow> load_output \<Rightarrow> zip_output_desc unit_statuses \<Rightarrow> replay_error + child_output unit_statuses" where
  "replay_execution_statuses rx ld rs =
     bind_result (collect_results (replay_execute_status rx ld) (uss_statuses rs)) (\<lambda>ss.
       Inr \<lparr>uss_statuses = ss, uss_flaky_result = uss_flaky_result rs\<rparr>)"

definition replay_script_status ::
  "replay_context \<Rightarrow> load_output \<Rightarrow> zip_output_desc script_status \<Rightarrow> replay_error + child_output script_status" where
  "replay_script_status rx ld s =
     bind_result (replay_execution_output rx ld (sst_output s)) (\<lambda>out. Inr (script_with_output out s))"

fun convert_stress_condition :: "stress_condition_summary \<Rightarrow> replay_error + stress_condition" where
  "convert_stress_condition (SummaryCount (Some n)) =
     (if n = 0 then Inl InvalidStressCount else Inr (CondCount (StressCount n)))"
| "convert_stress_condition (SummaryCount None) = Inr (CondCount StressInfinite)"
| "convert_stress_condition (SummaryDuration d) = Inr (CondDuration d)"

fun convert_core_event :: "replay_context \<Rightarrow> core_event \<Rightarrow> replay_error + test_event" where
  "convert_core_event rx (CERunStarted run_id profile cli cond) =
     bind_result (option_result convert_stress_condition cond) (\<lambda>cond'. Inr (TERunStarted run_id profile cli cond'))"
| "convert_core_event rx (CEStressSubRunStarted progress) = Inr (TEStressSubRunStarted progress)"
| "convert_core_event rx (CESetupScriptStarted si index tot script program args no_capture) =
     Inr (TESetupScriptStarted si index tot script program args no_capture)"
| "convert_core_event rx (CESetupScriptSlow si script program args elapsed will_terminate) =
     Inr (TESetupScriptSlow si script program args elapsed will_terminate)"
| "convert_core_event rx (CETestStarted si t slot stats nrun cmd) =
     bind_result (find_test rx t) (\<lambda>t'. Inr (TETestStarted si t' slot stats nrun cmd))"
| "convert_core_event rx (CETestSlow si t retry elapsed will_terminate) =
     bind_result (find_test rx t) (\<lambda>t'. Inr (TETestSlow si t' retry elapsed will_terminate))"
| "convert_core_event rx (CETestRetryStarted si t slot retry nrun cmd) =
     bind_result (find_test rx t) (\<lambda>t'. Inr (TETestRetryStarted si t' slot retry nrun cmd))"
| "convert_core_event rx (CETestSkipped si t reason policy) =
     bind_result (find_test rx t) (\<lambda>t'. Inr (TETestSkipped si t' reason policy))"
| "convert_core_event rx (CERunBeginCancel scripts nrun reason) =
     Inr (TERunBeginCancel scripts (default_run_stats\<lparr>cancel_reason_of := Some reason\<rparr>) nrun)"
| "convert_core_event rx (CERunPaused scripts nrun) = Inr (TERunPaused scripts nrun)"
| "convert_core_event rx (CERunContinued scripts nrun) = Inr (TERunContinued scripts nrun)"
| "convert_core_event rx (CEStressSubRunFinished progress elapsed stats) =
     Inr (TEStressSubRunFinished progress elapsed stats)"
| "convert_core_event rx (CERunFinished run_id start elapsed stats not_seen) =
     Inr (TERunFinished run_id start elapsed stats not_seen)"

fun replay_output_event ::
  "replay_context \<Rightarrow> load_output \<Rightarrow> zip_output_desc output_event \<Rightarrow> replay_error + test_event" where
  "replay_output_event rx ld (OESetupScriptFinished si index tot script program args no_capture status) =
     bind_result (replay_script_status rx ld status) (\<lambda>status'.
       Inr (TESetupScriptFinished si index tot script program args False False no_capture status'))"
| "replay_output_event rx ld (OETestAttemptFailedWillRetry si t status delay failure_output nrun) =
     bind_result (find_test rx t) (\<lambda>t'.
     bind_result (replay_execute_status rx ld status) (\<lambda>status'.
       Inr (TETestAttemptFailedWillRetry si t' status' delay failure_output nrun)))"
| "replay_output_event rx ld (OETestFinished si t success_output failure_output jss jsf jff rs stats nrun) =
     bind_result (find_test rx t) (\<lambda>t'.
     bind_result (replay_execution_statuses rx ld rs) (\<lambda>rs'.
       Inr (TETestFinished si t' success_output failure_output jss jsf jff rs' stats nrun)))"

fun replay_event ::
  "replay_context \<Rightarrow> load_output \<Rightarrow> zip_output_desc event_summary \<Rightarrow> replay_error + test_event" where
  "replay_event rx ld (CoreEvent e) = convert_core_event rx e"
| "replay_event rx ld (OutputEvent e) = replay_output_event rx ld e"

end
