(* ===== verification/Replay_Props.thy ===== *)
theory Replay_Props
  imports Replay
begin

text \<open>
  What is recorded is read back: the archive holds every output under a name of its own, and
  each recorded event is converted into the event it was recorded from, with outputs cut to the
  size limit.
\<close>

section \<open>Names\<close>

lemma from_hex_zeros: "from_hex (replicate k CHR ''0'' @ s) = from_hex s"
proof -
  have "foldl (\<lambda>acc c. acc * 16 + hex_value c) 0 (replicate k CHR ''0'') = 0"
    by (induction k) (simp_all add: hex_value_def)
  then show ?thesis by (simp add: from_hex_def)
qed

lemma from_hex_hex16: "from_hex (hex16 n) = n"
  by (simp add: hex16_def from_hex_zeros from_hex_show_hex)

lemma hex16_length: "n < 2 ^ 64 \<Longrightarrow> length (hex16 n) = 16"
  using show_hex_length [of n 15] by (simp add: hex16_def)

lemma hex16_inject: "hex16 a = hex16 b \<longleftrightarrow> a = b"
  by (metis from_hex_hex16)

lemma output_kind_str_inject: "output_kind_str k = output_kind_str k' \<longleftrightarrow> k = k'"
  by (cases k; cases k') simp_all

lemma from_content_inject:
  assumes "al_hash al x < 2 ^ 64" "al_hash al y < 2 ^ 64" "from_content al x k = from_content al y k'"
  shows "al_hash al x = al_hash al y \<and> k = k'"
  using assms by (auto simp: from_content_def hex16_length hex16_inject output_kind_str_inject)

fun kind_dict :: "output_kind \<Rightarrow> output_dict" where
  "kind_dict KindStdout = DictStdout"
| "kind_dict KindStderr = DictStderr"
| "kind_dict KindCombined = DictStdout"

lemma kind_dict_some: "kind_dict k \<noteq> DictNone"
  by (cases k) simp_all

lemma for_output_file_name_content: "for_output_file_name (from_content al x k) = kind_dict k"
  by (cases k) (simp_all add: for_output_file_name_def from_content_def suffix_to_prefix)

definition out_path :: "archive_libs \<Rightarrow> string \<Rightarrow> output_kind \<Rightarrow> string" where
  "out_path al x k = ''out/'' @ from_content al x k"

lemma for_path_content: "for_path (out_path al x k) = kind_dict k"
  by (simp add: for_path_def out_path_def for_output_file_name_content)


section \<open>The archive\<close>

text \<open>
  What is relied on for the outputs \<open>S\<close> of a run: they have hashes of 64 bits without collisions, and
  compression is undone within the size limit of the reader.
\<close>

definition archive_ok :: "archive_libs \<Rightarrow> string set \<Rightarrow> bool" where
  "archive_ok al S \<longleftrightarrow> inj_on (al_hash al) S \<and>
     (\<forall>x \<in> S. al_hash al x < 2 ^ 64 \<and> (\<forall>d. d \<noteq> DictNone \<longrightarrow>
        length (al_compress al d x) \<le> MAX_MAX_OUTPUT_SIZE \<and>
        al_decompress al d (al_compress al d x) MAX_MAX_OUTPUT_SIZE = Some x))"

definition files_ok :: "archive_libs \<Rightarrow> string set \<Rightarrow> store_writer \<Rightarrow> bool" where
  "files_ok al S w \<longleftrightarrow> (\<forall>x \<in> S. \<forall>k c. sw_files w (out_path al x k) = Some c \<longrightarrow> c = al_compress al (kind_dict k) x)"

lemma files_ok_empty: "files_ok al S empty_writer"
  by (simp add: files_ok_def empty_writer_def)

lemma add_file_ok:
  fixes k :: output_kind
  assumes "archive_ok al S" "files_ok al S w" "x \<in> S"
  defines "w' \<equiv> add_file al (out_path al x k) x w"
  shows "files_ok al S w'" "sw_files w \<subseteq>\<^sub>m sw_files w'"
    "sw_files w' (out_path al x k) = Some (al_compress al (kind_dict k) x)"
proof -
  have same: "x = y \<and> k = k'" if "y \<in> S" "out_path al y k' = out_path al x k" for y k'
    using that assms(1,3) from_content_inject [of al y x k' k]
    by (auto simp: archive_ok_def inj_on_def out_path_def)
  have new: "sw_files w' = (if out_path al x k \<in> dom (sw_files w) then sw_files w
      else (sw_files w)(out_path al x k \<mapsto> al_compress al (kind_dict k) x))"
    using kind_dict_some [of k]
    unfolding w'_def add_file_def for_path_content by (simp split: output_dict.split)
  show "files_ok al S w'"
    using assms(2) unfolding files_ok_def new by (auto split: if_splits dest: same)
  show "sw_files w \<subseteq>\<^sub>m sw_files w'" unfolding new by (auto simp: map_le_def)
  show "sw_files w' (out_path al x k) = Some (al_compress al (kind_dict k) x)"
    using assms(2,3) unfolding files_ok_def new by auto
qed

lemma read_output_stored:
  assumes "archive_ok al S" "x \<in> S" "files (out_path al x k) = Some (al_compress al (kind_dict k) x)"
  shows "read_output al files (from_content al x k) = Inr x"
  using assms kind_dict_some [of k]
  by (cases "kind_dict k")
    (auto simp: archive_ok_def read_output_def read_archive_file_def get_dict_for_output_def
      for_output_file_name_content out_path_def Let_def not_less)


section \<open>Truncation\<close>

lemma truncate_length:
  assumes "length (truncation_marker (length buf - m)) \<le> m"
  shows "length (truncate_output buf m) = min (length buf) m"
  using assms by (auto simp: truncate_output_def Let_def min_def)

lemma truncate_Nil [simp]: "truncate_output [] m = []"
  by (simp add: truncate_output_def)

lemma truncate_short: "length buf \<le> m \<Longrightarrow> truncate_output buf m = buf"
  by (simp add: truncate_output_def)

lemma truncate_not_Nil: "buf \<noteq> [] \<Longrightarrow> truncate_output buf m \<noteq> []"
  by (auto simp: truncate_output_def truncation_marker_def Let_def)


section \<open>What a replay yields\<close>

fun kept_output :: "nat \<Rightarrow> load_output \<Rightarrow> child_output \<Rightarrow> child_output" where
  "kept_output m Skip _ = NotLoaded"
| "kept_output m Load (SplitOutput out err) =
     SplitOutput (map_option (\<lambda>s. truncate_output s m) out) (map_option (\<lambda>s. truncate_output s m) err)"
| "kept_output m Load (CombinedOutput out) = CombinedOutput (truncate_output out m)"
| "kept_output m Load NotLoaded = NotLoaded"

definition kept_status :: "nat \<Rightarrow> load_output \<Rightarrow> child_output unit_status \<Rightarrow> child_output unit_status" where
  "kept_status m ld s = with_output (map_execution_output (kept_output m ld) (us_output s)) s"

definition kept_statuses :: "nat \<Rightarrow> load_output \<Rightarrow> child_output unit_statuses \<Rightarrow> child_output unit_statuses" where
  "kept_statuses m ld rs = rs\<lparr>uss_statuses := map (kept_status m ld) (uss_statuses rs)\<rparr>"

definition kept_script :: "nat \<Rightarrow> load_output \<Rightarrow> child_output script_status \<Rightarrow> child_output script_status" where
  "kept_script m ld s = script_with_output (map_execution_output (kept_output m ld) (sst_output s)) s"

text \<open>\<open>None\<close>: the event is not recorded.\<close>

fun as_replayed :: "nat \<Rightarrow> load_output \<Rightarrow> test_event \<Rightarrow> test_event option" where
  "as_replayed m ld (TEInfoStarted _ _) = None"
| "as_replayed m ld (TEInfoResponse _ _ _) = None"
| "as_replayed m ld (TEInfoFinished _) = None"
| "as_replayed m ld (TEInputEnter _ _) = None"
| "as_replayed m ld (TERunBeginKill _ _ _) = None"
| "as_replayed m ld (TERunBeginCancel scripts stats nrun) =
     Some (TERunBeginCancel scripts (default_run_stats\<lparr>cancel_reason_of := cancel_reason_of stats\<rparr>) nrun)"
| "as_replayed m ld (TESetupScriptFinished si index tot script program args jss jsf no_capture status) =
     Some (TESetupScriptFinished si index tot script program args False False no_capture (kept_script m ld status))"
| "as_replayed m ld (TETestAttemptFailedWillRetry si t status delay failure_output nrun) =
     Some (TETestAttemptFailedWillRetry si t (kept_status m ld status) delay failure_output nrun)"
| "as_replayed m ld (TETestFinished si t success_output failure_output jss jsf jff rs stats nrun) =
     Some (TETestFinished si t success_output failure_output jss jsf jff (kept_statuses m ld rs) stats nrun)"
| "as_replayed m ld ev = Some ev"

definition is_recorded :: "test_event \<Rightarrow> bool" where
  "is_recorded ev \<longleftrightarrow> as_replayed 0 Skip ev \<noteq> None"

text \<open>
  Events as a live run produces them: outputs are present, a cancellation has its reason, and a
  stress count, which is not zero, says so.
\<close>

fun output_present :: "child_output execution_output \<Rightarrow> bool" where
  "output_present (ProcessOutput _ out _) \<longleftrightarrow> out \<noteq> NotLoaded"
| "output_present (StartError _) \<longleftrightarrow> True"

fun live_event :: "test_event \<Rightarrow> bool" where
  "live_event (TERunStarted _ _ _ cond) \<longleftrightarrow> cond \<noteq> Some (CondCount (StressCount 0))"
| "live_event (TERunBeginCancel _ stats _) \<longleftrightarrow> cancel_reason_of stats \<noteq> None"
| "live_event (TESetupScriptFinished _ _ _ _ _ _ _ _ _ status) \<longleftrightarrow> output_present (sst_output status)"
| "live_event (TETestAttemptFailedWillRetry _ _ status _ _ _) \<longleftrightarrow> output_present (us_output status)"
| "live_event (TETestFinished _ _ _ _ _ _ _ rs _ _) \<longleftrightarrow> list_all (output_present \<circ> us_output) (uss_statuses rs)"
| "live_event _ \<longleftrightarrow> True"

text \<open>The texts an event stores, and the test it names.\<close>

fun child_texts :: "nat \<Rightarrow> child_output execution_output \<Rightarrow> string set" where
  "child_texts m (ProcessOutput _ (SplitOutput out err) _) = (\<lambda>s. truncate_output s m) ` (set_option out \<union> set_option err)"
| "child_texts m (ProcessOutput _ (CombinedOutput out) _) = {truncate_output out m}"
| "child_texts m (ProcessOutput _ NotLoaded _) = {}"
| "child_texts m (StartError _) = {}"

fun event_texts :: "nat \<Rightarrow> test_event \<Rightarrow> string set" where
  "event_texts m (TESetupScriptFinished _ _ _ _ _ _ _ _ _ status) = child_texts m (sst_output status)"
| "event_texts m (TETestAttemptFailedWillRetry _ _ status _ _ _) = child_texts m (us_output status)"
| "event_texts m (TETestFinished _ _ _ _ _ _ _ rs _ _) = (\<Union>s \<in> set (uss_statuses rs). child_texts m (us_output s))"
| "event_texts m _ = {}"

fun event_test :: "test_event \<Rightarrow> test_instance_id option" where
  "event_test (TETestStarted _ t _ _ _ _) = Some t"
| "event_test (TETestSlow _ t _ _ _) = Some t"
| "event_test (TETestRetryStarted _ t _ _ _ _) = Some t"
| "event_test (TETestSkipped _ t _ _) = Some t"
| "event_test (TETestAttemptFailedWillRetry _ t _ _ _ _) = Some t"
| "event_test (TETestFinished _ t _ _ _ _ _ _ _ _) = Some t"
| "event_test _ = None"



section \<open>Round trip\<close>

text \<open>
  One conversion into the archive: the archive grows, stays in order, and whoever reads from it or
  from what it becomes gets the value.
\<close>

definition written ::
  "archive_libs \<Rightarrow> string set \<Rightarrow> store_writer \<Rightarrow> store_writer \<Rightarrow> (replay_context \<Rightarrow> bool) \<Rightarrow> bool" where
  "written al S w w' P \<longleftrightarrow> files_ok al S w' \<and> sw_files w \<subseteq>\<^sub>m sw_files w' \<and>
     (\<forall>rx. rx_al rx = al \<longrightarrow> sw_files w' \<subseteq>\<^sub>m rx_files rx \<longrightarrow> P rx)"

lemma written_refl: "files_ok al S w \<Longrightarrow> (\<And>rx. rx_al rx = al \<Longrightarrow> P rx) \<Longrightarrow> written al S w w P"
  by (simp add: written_def)

lemma written_trans:
  assumes "written al S w w1 P" "written al S w1 w2 Q"
  shows "written al S w w2 (\<lambda>rx. P rx \<and> Q rx)"
  using assms by (auto simp: written_def intro: map_le_trans)

lemma written_mono: "written al S w w' P \<Longrightarrow> (\<And>rx. P rx \<Longrightarrow> Q rx) \<Longrightarrow> written al S w w' Q"
  by (simp add: written_def)

lemma written_ok: "written al S w w' P \<Longrightarrow> files_ok al S w'"
  by (simp add: written_def)

lemma write_single_written:
  assumes al: "archive_ok al S"
    and "files_ok al S w" "truncate_output buf m \<in> S" "write_single_output al m (Some buf) k w = (z, w')"
  shows "written al S w w' (\<lambda>rx. read_output_as_child_single rx z = Inr (truncate_output buf m))"
proof (cases "buf = []")
  case True
  with assms show ?thesis
    by (auto simp: write_single_output_def read_output_as_child_single_def read_output_file_def intro: written_refl)
next
  case False
  let ?x = "truncate_output buf m"
  have w': "w' = add_file al (out_path al ?x k) ?x w" and z: "file_name z = Some (from_content al ?x k)"
    using assms(4) False
    by (auto simp: write_single_output_def Let_def truncate_short out_path_def split: if_splits)
  note ok = add_file_ok [OF al assms(2,3), of k, folded w']
  have "read_output_as_child_single rx z = Inr ?x" if rx: "rx_al rx = al" "sw_files w' \<subseteq>\<^sub>m rx_files rx" for rx
  proof -
    have "rx_files rx (out_path al ?x k) = Some (al_compress al (kind_dict k) ?x)"
      using ok(3) rx(2) by (metis domI map_le_def)
    from read_output_stored [where k = k and files = "rx_files rx", OF al assms(3) this] z rx(1) show ?thesis
      by (simp add: read_output_as_child_single_def read_output_file_def)
  qed
  with ok show ?thesis by (simp add: written_def)
qed

lemma write_option_written:
  assumes al: "archive_ok al S"
    and "files_ok al S w" "\<And>buf. o1 = Some buf \<Longrightarrow> truncate_output buf m \<in> S"
    "(case o1 of None \<Rightarrow> (None, w) | Some o2 \<Rightarrow> map_prod Some id (write_single_output al m (Some o2) k w)) = (z, w')"
  shows "written al S w w' (\<lambda>rx. option_result (read_output_as_child_single rx) z =
    Inr (map_option (\<lambda>s. truncate_output s m) o1))"
proof (cases o1)
  case None
  with assms show ?thesis by (auto intro: written_refl)
next
  case (Some buf)
  obtain y w1 where y: "write_single_output al m (Some buf) k w = (y, w1)" by fastforce
  with Some assms(4) have "z = Some y" "w' = w1" by auto
  with write_single_written [OF al assms(2) assms(3) [OF Some] y] Some show ?thesis
    by (auto elim: written_mono)
qed

lemma convert_execution_written:
  assumes al: "archive_ok al S"
    and "files_ok al S w" "child_texts m out \<subseteq> S" "output_present out"
  shows "\<exists>out' w'. convert_execution_output al m out w = Ret (out', w') \<and>
    written al S w w' (\<lambda>rx. \<forall>ld. replay_execution_output rx ld out' = Inr (map_execution_output (kept_output m ld) out))"
proof -
  have skip: "replay_child_output rx ld c = Inr (kept_output m ld o1)"
    if "replay_child_output rx Load c = Inr (kept_output m Load o1)" for rx ld c o1
    using that by (cases ld) simp_all
  show ?thesis
  proof (cases out)
    case (StartError e)
    with assms(2) show ?thesis by (auto intro: written_refl)
  next
    case (ProcessOutput result o1 errors)
    show ?thesis
    proof (cases o1)
      case NotLoaded
      with assms(4) ProcessOutput show ?thesis by simp
    next
      case (CombinedOutput buf)
      obtain z w' where z: "write_single_output al m (Some buf) KindCombined w = (z, w')" by fastforce
      from write_single_written [OF al assms(2) _ z] assms(3)
      have "written al S w w' (\<lambda>rx. read_output_as_child_single rx z = Inr (truncate_output buf m))"
        by (simp add: ProcessOutput CombinedOutput)
      then have "written al S w w' (\<lambda>rx. \<forall>ld. replay_execution_output rx ld (ProcessOutput result (ZipCombined z) errors) =
          Inr (map_execution_output (kept_output m ld) out))"
        by (rule written_mono) (simp add: ProcessOutput CombinedOutput skip [of _ "ZipCombined z" "CombinedOutput buf"])
      with z show ?thesis by (simp add: ProcessOutput CombinedOutput)
    next
      case (SplitOutput a b)
      let ?put = "\<lambda>o1 k w. case o1 of None \<Rightarrow> (None, w)
        | Some o2 \<Rightarrow> map_prod Some id (write_single_output al m (Some o2) k w)"
      obtain za w1 where za: "?put a KindStdout w = (za, w1)" by fastforce
      obtain zb w2 where zb: "?put b KindStderr w1 = (zb, w2)" by fastforce
      have texts: "truncate_output buf m \<in> S" if "a = Some buf \<or> b = Some buf" for buf
        using assms(3) that by (auto simp: ProcessOutput SplitOutput)
      have 1: "written al S w w1 (\<lambda>rx. option_result (read_output_as_child_single rx) za =
          Inr (map_option (\<lambda>s. truncate_output s m) a))"
        using assms(2) texts za by (intro write_option_written [OF al]) auto
      have 2: "written al S w1 w2 (\<lambda>rx. option_result (read_output_as_child_single rx) zb =
          Inr (map_option (\<lambda>s. truncate_output s m) b))"
        using written_ok [OF 1] texts zb by (intro write_option_written [OF al]) auto
      have "written al S w w2 (\<lambda>rx. \<forall>ld. replay_execution_output rx ld (ProcessOutput result (ZipSplit za zb) errors) =
          Inr (map_execution_output (kept_output m ld) out))"
        by (rule written_mono [OF written_trans [OF 1 2]])
          (simp add: ProcessOutput SplitOutput skip [of _ "ZipSplit za zb" "SplitOutput a b"])
      with za zb show ?thesis by (simp add: ProcessOutput SplitOutput)
    qed
  qed
qed

lemma convert_status_written:
  assumes al: "archive_ok al S"
    and "files_ok al S w" "child_texts m (us_output s) \<subseteq> S" "output_present (us_output s)"
  shows "\<exists>s' w'. convert_execute_status al m s w = Ret (s', w') \<and>
    written al S w w' (\<lambda>rx. \<forall>ld. replay_execute_status rx ld s' = Inr (kept_status m ld s))"
proof -
  from convert_execution_written [OF assms] obtain out' w' where
    c: "convert_execution_output al m (us_output s) w = Ret (out', w')" and
    p: "written al S w w' (\<lambda>rx. \<forall>ld. replay_execution_output rx ld out' =
      Inr (map_execution_output (kept_output m ld) (us_output s)))" by blast
  have "written al S w w' (\<lambda>rx. \<forall>ld. replay_execute_status rx ld (with_output out' s) = Inr (kept_status m ld s))"
    by (rule written_mono [OF p]) (simp add: replay_execute_status_def kept_status_def)
  with c show ?thesis by (simp add: convert_execute_status_def)
qed

lemma convert_script_written:
  assumes al: "archive_ok al S"
    and "files_ok al S w" "child_texts m (sst_output s) \<subseteq> S" "output_present (sst_output s)"
  shows "\<exists>s' w'. convert_script_status al m s w = Ret (s', w') \<and>
    written al S w w' (\<lambda>rx. \<forall>ld. replay_script_status rx ld s' = Inr (kept_script m ld s))"
proof -
  from convert_execution_written [OF assms] obtain out' w' where
    c: "convert_execution_output al m (sst_output s) w = Ret (out', w')" and
    p: "written al S w w' (\<lambda>rx. \<forall>ld. replay_execution_output rx ld out' =
      Inr (map_execution_output (kept_output m ld) (sst_output s)))" by blast
  have "written al S w w' (\<lambda>rx. \<forall>ld. replay_script_status rx ld (script_with_output out' s) = Inr (kept_script m ld s))"
    by (rule written_mono [OF p]) (simp add: replay_script_status_def kept_script_def)
  with c show ?thesis by (simp add: convert_script_status_def)
qed

lemma convert_statuses_written:
  assumes al: "archive_ok al S"
    and "files_ok al S w" "(\<Union>s \<in> set ss. child_texts m (us_output s)) \<subseteq> S" "list_all (output_present \<circ> us_output) ss"
  shows "\<exists>ss' w'. convert_statuses al m ss w = Ret (ss', w') \<and>
    written al S w w' (\<lambda>rx. \<forall>ld. collect_results (replay_execute_status rx ld) ss' = Inr (map (kept_status m ld) ss))"
  using assms
proof (induction ss arbitrary: w)
  case Nil
  then show ?case by (auto intro: written_refl)
next
  case (Cons s ss)
  from Cons.prems have "child_texts m (us_output s) \<subseteq> S" "output_present (us_output s)" by auto
  from convert_status_written [OF al Cons.prems(2) this] obtain s' w1 where
    c1: "convert_execute_status al m s w = Ret (s', w1)" and
    p1: "written al S w w1 (\<lambda>rx. \<forall>ld. replay_execute_status rx ld s' = Inr (kept_status m ld s))" by blast
  from Cons.IH [OF al written_ok [OF p1]] Cons.prems obtain ss' w2 where
    c2: "convert_statuses al m ss w1 = Ret (ss', w2)" and
    p2: "written al S w1 w2 (\<lambda>rx. \<forall>ld. collect_results (replay_execute_status rx ld) ss' =
      Inr (map (kept_status m ld) ss))" by auto
  have "written al S w w2 (\<lambda>rx. \<forall>ld. collect_results (replay_execute_status rx ld) (s' # ss') =
      Inr (map (kept_status m ld) (s # ss)))"
    by (rule written_mono [OF written_trans [OF p1 p2]]) simp
  with c1 c2 show ?case by simp
qed

text \<open>A recorded event, for a reader that knows its test.\<close>

lemma summarized_condition:
  "c \<noteq> CondCount (StressCount 0) \<Longrightarrow> convert_stress_condition (summarize_stress_condition c) = Inr c"
  by (cases c rule: summarize_stress_condition.cases) auto

lemma stress_condition_round_trip:
  "cond \<noteq> Some (CondCount (StressCount 0)) \<Longrightarrow>
     option_result convert_stress_condition (map_option summarize_stress_condition cond) = Inr cond"
  by (cases cond) (auto simp: summarized_condition)

definition replays :: "replay_context \<Rightarrow> nat \<Rightarrow> zip_output_desc event_summary \<Rightarrow> test_event \<Rightarrow> bool" where
  "replays rx m e ev \<longleftrightarrow> (\<forall>ld. \<exists>ev'. as_replayed m ld ev = Some ev' \<and> replay_event rx ld e = Inr ev')"

lemma replays_is_recorded: "replays rx m e ev \<Longrightarrow> is_recorded ev"
  by (cases ev) (auto simp: replays_def is_recorded_def)

lemma as_replayed_None: "as_replayed m ld ev = None \<longleftrightarrow> \<not> is_recorded ev"
  by (cases ev) (simp_all add: is_recorded_def)

lemma replays_map:
  assumes "list_all2 (replays rx m) es (filter is_recorded evs)"
  shows "map (replay_event rx ld) es = map Inr (List.map_filter (as_replayed m ld) evs)"
  using assms
proof (induction evs arbitrary: es)
  case Nil
  then show ?case by (simp add: List.map_filter_def)
next
  case (Cons ev evs)
  show ?case
  proof (cases "is_recorded ev")
    case True
    with Cons.prems obtain e es' where "es = e # es'" "replays rx m e ev"
      "list_all2 (replays rx m) es' (filter is_recorded evs)" by (auto simp: list_all2_Cons2)
    with Cons.IH [of es'] show ?thesis
      unfolding replays_def by (auto simp: List.map_filter_def dest!: spec [of _ ld])
  next
    case False
    then have "as_replayed m ld ev = None" by (simp add: as_replayed_None)
    with Cons False show ?thesis by (simp add: List.map_filter_def)
  qed
qed

definition recorded_as ::
  "archive_libs \<Rightarrow> string set \<Rightarrow> nat \<Rightarrow> run_recorder \<Rightarrow> test_event \<Rightarrow> run_recorder \<Rightarrow> bool" where
  "recorded_as al S m r ev r' \<longleftrightarrow> rr_max_output_size r' = m \<and> (\<exists>es. rr_log r' = rr_log r @ es \<and>
     rr_log_entries r' = rr_log_entries r + length es \<and>
     written al S (rr_writer r) (rr_writer r') (\<lambda>rx. set_option (event_test ev) \<subseteq> rx_test_data rx \<longrightarrow>
       list_all2 (replays rx m) es (filter is_recorded [ev])))"

lemma record_event_as:
  assumes "from_test_event_kind ev = Ret (Some e)" "rr_max_output_size r = m"
    "convert_event_kind al m e (rr_writer r) = Ret (e', w')" "is_recorded ev"
    "written al S (rr_writer r) w' (\<lambda>rx. set_option (event_test ev) \<subseteq> rx_test_data rx \<longrightarrow>
       (\<forall>ld. \<exists>ev'. as_replayed m ld ev = Some ev' \<and> replay_event rx ld e' = Inr ev'))"
  shows "\<exists>r'. record_event al ev r = Ret r' \<and> recorded_as al S m r ev r'"
proof -
  have "written al S (rr_writer r) w' (\<lambda>rx. set_option (event_test ev) \<subseteq> rx_test_data rx \<longrightarrow>
       list_all2 (replays rx m) [e'] (filter is_recorded [ev]))"
    by (rule written_mono [OF assms(5)]) (simp add: assms(4) replays_def)
  with assms(1-3) show ?thesis
    by (auto simp: record_event_def recorder_write_event_def recorded_as_def)
qed

lemma find_test_registered: "{t} \<subseteq> rx_test_data rx \<Longrightarrow> find_test rx t = Inr t"
  by (simp add: find_test_def lookup_test_instance_id_def)

lemma record_event_written:
  assumes al: "archive_ok al S"
    and w: "files_ok al S (rr_writer r)" and m: "rr_max_output_size r = m"
    and texts: "event_texts m ev \<subseteq> S" and live: "live_event ev"
  shows "\<exists>r'. record_event al ev r = Ret r' \<and> recorded_as al S m r ev r'"
proof -
  have skipped: ?thesis if "from_test_event_kind ev = Ret None" "\<not> is_recorded ev"
    using that w m by (auto simp: record_event_def recorded_as_def intro: written_refl)
  have core: ?thesis if "from_test_event_kind ev = Ret (Some (CoreEvent e))"
    "is_recorded ev"
    "\<And>rx ld. set_option (event_test ev) \<subseteq> rx_test_data rx \<Longrightarrow>
       \<exists>ev'. as_replayed m ld ev = Some ev' \<and> convert_core_event rx e = Inr ev'" for e
    by (rule record_event_as [OF that(1) m]) (use that(2-3) w in \<open>auto intro!: written_refl\<close>)
  show ?thesis
  proof (cases ev)
    case (TESetupScriptFinished si index tot script program args jss jsf no_capture status)
    with texts live convert_script_written [OF al w, where s = status and m = m] obtain status' w' where
      c: "convert_script_status al m status (rr_writer r) = Ret (status', w')" and
      p: "written al S (rr_writer r) w' (\<lambda>rx. \<forall>ld. replay_script_status rx ld status' = Inr (kept_script m ld status))"
      by auto
    show ?thesis unfolding TESetupScriptFinished
      by (rule record_event_as [OF _ m])
        (use c in simp, use c in simp, simp add: is_recorded_def, rule written_mono [OF p], simp)
  next
    case (TETestAttemptFailedWillRetry si t status delay failure_output nrun)
    with texts live convert_status_written [OF al w, where s = status and m = m] obtain status' w' where
      c: "convert_execute_status al m status (rr_writer r) = Ret (status', w')" and
      p: "written al S (rr_writer r) w' (\<lambda>rx. \<forall>ld. replay_execute_status rx ld status' = Inr (kept_status m ld status))"
      by auto
    show ?thesis unfolding TETestAttemptFailedWillRetry
      by (rule record_event_as [OF _ m])
        (simp, use c in simp, simp add: is_recorded_def, rule written_mono [OF p], simp add: find_test_registered)
  next
    case (TETestFinished si t success_output failure_output jss jsf jff rs stats nrun)
    with texts live convert_statuses_written [OF al w, where ss = "uss_statuses rs" and m = m] obtain ss' w' where
      c: "convert_statuses al m (uss_statuses rs) (rr_writer r) = Ret (ss', w')" and
      p: "written al S (rr_writer r) w' (\<lambda>rx. \<forall>ld. collect_results (replay_execute_status rx ld) ss' =
        Inr (map (kept_status m ld) (uss_statuses rs)))"
      by auto
    show ?thesis unfolding TETestFinished
      by (rule record_event_as [OF _ m])
        (simp, use c in \<open>simp add: convert_execution_statuses_def\<close>, simp add: is_recorded_def,
         rule written_mono [OF p],
         simp add: find_test_registered replay_execution_statuses_def kept_statuses_def)
  next
    case (TERunStarted run_id profile cli cond)
    with live show ?thesis by (intro core) (auto simp: stress_condition_round_trip is_recorded_def)
  next
    case (TERunBeginCancel scripts stats nrun)
    with live obtain reason where "cancel_reason_of stats = Some reason" by auto
    with TERunBeginCancel show ?thesis by (intro core [of "CERunBeginCancel scripts nrun reason"]) (simp_all add: is_recorded_def)
  next
    case (TEStressSubRunStarted p)
    then show ?thesis by (intro core [of "CEStressSubRunStarted p"]) (simp_all add: find_test_registered is_recorded_def)
  next
    case (TESetupScriptStarted si i n s p ar nc)
    then show ?thesis by (intro core [of "CESetupScriptStarted si i n s p ar nc"]) (simp_all add: find_test_registered is_recorded_def)
  next
    case (TESetupScriptSlow si s p ar d b)
    then show ?thesis by (intro core [of "CESetupScriptSlow si s p ar d b"]) (simp_all add: find_test_registered is_recorded_def)
  next
    case (TETestStarted si t sl st n c)
    then show ?thesis by (intro core [of "CETestStarted si t sl st n c"]) (simp_all add: find_test_registered is_recorded_def)
  next
    case (TETestSlow si t rd d b)
    then show ?thesis by (intro core [of "CETestSlow si t rd d b"]) (simp_all add: find_test_registered is_recorded_def)
  next
    case (TETestRetryStarted si t sl rd n c)
    then show ?thesis by (intro core [of "CETestRetryStarted si t sl rd n c"]) (simp_all add: find_test_registered is_recorded_def)
  next
    case (TETestSkipped si t r p)
    then show ?thesis by (intro core [of "CETestSkipped si t r p"]) (simp_all add: find_test_registered is_recorded_def)
  next
    case (TERunPaused a b)
    then show ?thesis by (intro core [of "CERunPaused a b"]) (simp_all add: find_test_registered is_recorded_def)
  next
    case (TERunContinued a b)
    then show ?thesis by (intro core [of "CERunContinued a b"]) (simp_all add: find_test_registered is_recorded_def)
  next
    case (TEStressSubRunFinished p d s)
    then show ?thesis by (intro core [of "CEStressSubRunFinished p d s"]) (simp_all add: find_test_registered is_recorded_def)
  next
    case (TERunFinished i st d s ns)
    then show ?thesis by (intro core [of "CERunFinished i st d s ns"]) (simp_all add: find_test_registered is_recorded_def)
  next
    case TEInfoStarted
    then show ?thesis by (intro skipped) (simp_all add: is_recorded_def)
  next
    case TEInfoResponse
    then show ?thesis by (intro skipped) (simp_all add: is_recorded_def)
  next
    case TEInfoFinished
    then show ?thesis by (intro skipped) (simp_all add: is_recorded_def)
  next
    case TEInputEnter
    then show ?thesis by (intro skipped) (simp_all add: is_recorded_def)
  next
    case TERunBeginKill
    then show ?thesis by (intro skipped) (simp_all add: is_recorded_def)
  qed
qed

text \<open>
  A whole run: the log, read from the final archive, gives the recorded events in order.
\<close>

lemma record_events_written:
  assumes al: "archive_ok al S"
    and "files_ok al S (rr_writer r)" "rr_max_output_size r = m"
    "\<forall>ev \<in> set evs. event_texts m ev \<subseteq> S \<and> live_event ev"
  shows "\<exists>r' es. record_events al evs r = Ret r' \<and> rr_log r' = rr_log r @ es \<and>
    rr_log_entries r' = rr_log_entries r + length es \<and>
    written al S (rr_writer r) (rr_writer r') (\<lambda>rx. (\<forall>ev \<in> set evs. set_option (event_test ev) \<subseteq> rx_test_data rx) \<longrightarrow>
      list_all2 (replays rx m) es (filter is_recorded evs))"
  using assms
proof (induction evs arbitrary: r)
  case Nil
  then show ?case by (auto intro: written_refl)
next
  case (Cons ev evs)
  from Cons.prems record_event_written [OF al, of r m ev] obtain r1 where
    r1: "record_event al ev r = Ret r1" "recorded_as al S m r ev r1" by auto
  then obtain es1 where l1: "rr_log r1 = rr_log r @ es1" "rr_max_output_size r1 = m"
    "rr_log_entries r1 = rr_log_entries r + length es1" and
    w1: "written al S (rr_writer r) (rr_writer r1) (\<lambda>rx. set_option (event_test ev) \<subseteq> rx_test_data rx \<longrightarrow>
      list_all2 (replays rx m) es1 (filter is_recorded [ev]))"
    by (auto simp: recorded_as_def)
  from Cons.IH [OF al written_ok [OF w1] l1(2)] Cons.prems obtain r' es where
    r': "record_events al evs r1 = Ret r'" "rr_log r' = rr_log r1 @ es"
      "rr_log_entries r' = rr_log_entries r1 + length es" and
    w2: "written al S (rr_writer r1) (rr_writer r') (\<lambda>rx. (\<forall>ev \<in> set evs. set_option (event_test ev) \<subseteq> rx_test_data rx) \<longrightarrow>
      list_all2 (replays rx m) es (filter is_recorded evs))" by auto
  have "written al S (rr_writer r) (rr_writer r') (\<lambda>rx. (\<forall>e \<in> set (ev # evs). set_option (event_test e) \<subseteq> rx_test_data rx) \<longrightarrow>
      list_all2 (replays rx m) (es1 @ es) (filter is_recorded ([ev] @ evs)))"
    by (rule written_mono [OF written_trans [OF w1 w2]]) (intro impI, unfold filter_append, rule list_all2_appendI, simp_all)
  with r1(1) r' l1 show ?case by (intro exI [of _ r'] exI [of _ "es1 @ es"]) simp
qed

text \<open>From an empty archive.\<close>

lemma recorded_run:
  assumes "archive_ok al (\<Union>ev \<in> set evs. event_texts m ev)" "\<forall>ev \<in> set evs. live_event ev"
  shows "\<exists>r. record_events al evs (new_recorder m) = Ret r \<and> rr_log_entries r = length (rr_log r) \<and>
    (\<forall>rx. rx_al rx = al \<longrightarrow> sw_files (rr_writer r) \<subseteq>\<^sub>m rx_files rx \<longrightarrow>
      (\<forall>ev \<in> set evs. set_option (event_test ev) \<subseteq> rx_test_data rx) \<longrightarrow>
      list_all2 (replays rx m) (rr_log r) (filter is_recorded evs))"
proof -
  have "files_ok al (\<Union>ev \<in> set evs. event_texts m ev) (rr_writer (new_recorder m))"
    by (simp add: new_recorder_def files_ok_empty)
  moreover have "rr_max_output_size (new_recorder m) = m" by (simp add: new_recorder_def)
  moreover have "\<forall>ev \<in> set evs. event_texts m ev \<subseteq> (\<Union>ev \<in> set evs. event_texts m ev) \<and> live_event ev"
    using assms(2) by auto
  ultimately obtain r es where r: "record_events al evs (new_recorder m) = Ret r"
    "rr_log r = rr_log (new_recorder m) @ es" "rr_log_entries r = rr_log_entries (new_recorder m) + length es" and
    w: "written al (\<Union>ev \<in> set evs. event_texts m ev) (rr_writer (new_recorder m)) (rr_writer r)
      (\<lambda>rx. (\<forall>ev \<in> set evs. set_option (event_test ev) \<subseteq> rx_test_data rx) \<longrightarrow>
        list_all2 (replays rx m) es (filter is_recorded evs))"
    using record_events_written [OF assms(1)] by blast
  from r(2,3) have "rr_log r = es" "rr_log_entries r = length (rr_log r)" by (simp_all add: new_recorder_def)
  with r(1) w show ?thesis by (auto simp: written_def)
qed

end
