(* ===== verification/Replay_Claims.thy ===== *)
theory Replay_Claims
  imports Replay_Props
begin

text \<open>
  Recording and replay: what a recorded run is read back as, how much of an output is kept, and
  the names under which outputs are stored.
\<close>

section \<open>Recording and reading back\<close>

text \<open>
  C8. Recording round trip. Take the events of a live run, recorded into an empty archive: recording does
  not panic, and the log has one entry for each recorded event. Whoever reads the log with the final
  archive, to which other files may have been added, and knows the tests of the run, gets the recorded
  events in their order: without an error, the same in every part that is recorded, each output cut to
  the size limit, or left out if the caller asks to skip outputs. Of the hash this needs that the
  outputs of the run do not collide, and of the compression that it is undone within the limit for
  reading.
\<close>

theorem recording_round_trip:
  assumes "archive_ok al (\<Union>ev \<in> set evs. event_texts m ev)" "\<forall>ev \<in> set evs. live_event ev"
  shows "\<exists>r. record_events al evs (new_recorder m) = Ret r \<and>
    rr_log_entries r = length (rr_log r) \<and> length (rr_log r) = length (filter is_recorded evs) \<and>
    (\<forall>rx ld. rx_al rx = al \<longrightarrow> sw_files (rr_writer r) \<subseteq>\<^sub>m rx_files rx \<longrightarrow>
      (\<forall>ev \<in> set evs. set_option (event_test ev) \<subseteq> rx_test_data rx) \<longrightarrow>
      map (replay_event rx ld) (rr_log r) = map Inr (List.map_filter (as_replayed m ld) evs))"
proof -
  from recorded_run [OF assms] obtain r where r: "record_events al evs (new_recorder m) = Ret r"
    "rr_log_entries r = length (rr_log r)" and
    all: "\<And>rx. rx_al rx = al \<Longrightarrow> sw_files (rr_writer r) \<subseteq>\<^sub>m rx_files rx \<Longrightarrow>
      (\<forall>ev \<in> set evs. set_option (event_test ev) \<subseteq> rx_test_data rx) \<Longrightarrow>
      list_all2 (replays rx m) (rr_log r) (filter is_recorded evs)" by blast
  from all [of "\<lparr>rx_al = al, rx_files = sw_files (rr_writer r), rx_test_data = UNIV\<rparr>"]
  have "length (rr_log r) = length (filter is_recorded evs)" by (auto dest: list_all2_lengthD)
  moreover have "map (replay_event rx ld) (rr_log r) = map Inr (List.map_filter (as_replayed m ld) evs)"
    if "rx_al rx = al" "sw_files (rr_writer r) \<subseteq>\<^sub>m rx_files rx"
      "\<forall>ev \<in> set evs. set_option (event_test ev) \<subseteq> rx_test_data rx" for rx ld
    by (rule replays_map [OF all [OF that]])
  ultimately show ?thesis using r by blast
qed

definition ex_script_status :: "child_output script_status" where
  "ex_script_status = \<lparr>sst_output = ProcessOutput (Some (Fail (ExitCode 1) False)) (SplitOutput (Some ''ab'') (Some [])) None,
     sst_result = Fail (ExitCode 1) False, sst_start_time = 0, sst_time_taken = 5, sst_is_slow = False,
     sst_env_map = None, sst_error_summary = None\<rparr>"

definition ex_recorded_events :: "test_event list" where
  "ex_recorded_events =
    [TERunStarted ''id'' ''default'' [] None,
     TESetupScriptFinished None 0 1 ''db'' ''sh'' [] False False False ex_script_status,
     TERunPaused 0 0,
     TERunBeginCancel 0 (default_run_stats\<lparr>cancel_reason_of := Some SetupScriptFailure\<rparr>) 0,
     TERunBeginKill 0 (default_run_stats\<lparr>cancel_reason_of := Some SecondSignal\<rparr>) 0]"

definition ex_libs :: archive_libs where
  "ex_libs = \<lparr>al_hash = length, al_compress = (\<lambda>_ x. x), al_decompress = (\<lambda>_ x _. Some x)\<rparr>"

lemma ex_archive_ok: "archive_ok ex_libs {''ab'', []}"
  by (simp add: archive_ok_def ex_libs_def MAX_MAX_OUTPUT_SIZE_def)

lemma ex_recorded_texts: "(\<Union>ev \<in> set ex_recorded_events. event_texts 1000 ev) = {''ab'', []}"
  by (auto simp: ex_recorded_events_def ex_script_status_def truncate_short)

lemma ex_recorded_live: "\<forall>ev \<in> set ex_recorded_events. live_event ev"
  by (simp add: ex_recorded_events_def ex_script_status_def)

theorem recording_round_trip_witness:
  "\<exists>r. record_events ex_libs ex_recorded_events (new_recorder 1000) = Ret r \<and> length (rr_log r) = 4"
proof -
  have "archive_ok ex_libs (\<Union>ev \<in> set ex_recorded_events. event_texts 1000 ev)"
    by (simp add: ex_recorded_texts ex_archive_ok)
  from recording_round_trip [OF this ex_recorded_live] obtain r where
    "record_events ex_libs ex_recorded_events (new_recorder 1000) = Ret r"
    "length (rr_log r) = length (filter is_recorded ex_recorded_events)" by blast
  moreover have "length (filter is_recorded ex_recorded_events) = 4"
    by (simp add: ex_recorded_events_def is_recorded_def)
  ultimately show ?thesis by auto
qed


section \<open>Truncation\<close>

lemma show_nat_length: "n < 10 ^ Suc k \<Longrightarrow> length (show_nat n) \<le> Suc k"
proof (induction k arbitrary: n)
  case 0
  then show ?case by (simp add: show_nat.simps [of n])
next
  case (Suc k)
  then have "n div 10 < 10 ^ Suc k" by (simp add: div_less_iff_less_mult)
  from Suc.IH [OF this] show ?case by (simp add: show_nat.simps [of n])
qed

lemma truncation_marker_length:
  assumes "n < 2 ^ 64"
  shows "length (truncation_marker n) \<le> 50"
proof -
  have "n < 10 ^ Suc 19" using assms by simp
  from show_nat_length [OF this] show ?thesis by (simp add: truncation_marker_def)
qed

text \<open>
  C39. Truncation of an output. For a limit that the configuration allows, an output within the limit is
  stored as it is. A longer one is stored with exactly as many bytes as the limit: a first part of
  the output, the marker with the number of bytes above the limit, and a last part, of lengths that
  differ by at most one. The bytes left out are more than the marker says, by its own length.
\<close>

theorem truncated_output_fits:
  assumes "MIN_MAX_OUTPUT_SIZE \<le> m" "length buf < 2 ^ 64"
  shows "(length buf \<le> m \<longrightarrow> truncate_output buf m = buf) \<and>
    (m < length buf \<longrightarrow> (\<exists>h t mid. buf = h @ mid @ t \<and>
      truncate_output buf m = h @ truncation_marker (length buf - m) @ t \<and>
      length (truncate_output buf m) = m \<and> length h \<le> length t \<and> length t \<le> Suc (length h) \<and>
      length mid = (length buf - m) + length (truncation_marker (length buf - m))))"
proof (intro conjI impI)
  show "truncate_output buf m = buf" if "length buf \<le> m" using that by (simp add: truncate_output_def)
next
  assume long: "m < length buf"
  define marker where "marker = truncation_marker (length buf - m)"
  define space where "space = m - length marker"
  define head where "head = space div 2"
  define tail where "tail = space - head"
  have marker: "length marker \<le> m"
    using truncation_marker_length [OF le_less_trans [OF diff_le_self assms(2)], of m] assms(1)
    by (simp add: marker_def MIN_MAX_OUTPUT_SIZE_def)
  have parts: "head \<le> tail" "tail \<le> Suc head" "head + tail = space" by (auto simp: head_def tail_def)
  have fits: "head + tail \<le> length buf" using long parts(3) by (simp add: space_def)
  have eq: "truncate_output buf m = take head buf @ marker @ drop (length buf - tail) buf"
    using long by (simp add: truncate_output_def Let_def marker_def space_def head_def tail_def del: diff_diff_left)
  have "buf = take head buf @ take (length buf - tail - head) (drop head buf) @ drop (length buf - tail) buf"
    using fits by (metis add.commute append_take_drop_id drop_drop le_add_diff_inverse le_diff_conv2 le_add2 le_trans)
  moreover have "length (truncate_output buf m) = m"
    using fits parts(3) marker by (simp add: eq space_def)
  ultimately show "\<exists>h t mid. buf = h @ mid @ t \<and> truncate_output buf m = h @ truncation_marker (length buf - m) @ t \<and>
      length (truncate_output buf m) = m \<and> length h \<le> length t \<and> length t \<le> Suc (length h) \<and>
      length mid = (length buf - m) + length (truncation_marker (length buf - m))"
    using eq parts fits long marker unfolding marker_def [symmetric]
    by (intro exI [of _ "take head buf"] exI [of _ "drop (length buf - tail) buf"]
        exI [of _ "take (length buf - tail - head) (drop head buf)"]) (auto simp: space_def)
qed

theorem truncated_output_fits_witness:
  "length (truncate_output (replicate 1200 CHR ''x'') 1000) = 1000 \<and> truncate_output ''short'' 1000 = ''short''"
  using truncated_output_fits [of 1000 "replicate 1200 CHR ''x''"] truncated_output_fits [of 1000 "''short''"]
  by (auto simp: MIN_MAX_OUTPUT_SIZE_def)


section \<open>Names of stored outputs\<close>

lemma hex_digit_lower: "d < 16 \<Longrightarrow> is_lower_hex (hex_digit d)"
  by (auto simp: is_lower_hex_def hex_digit_def less_eq_char_def)

lemma show_hex_lower: "c \<in> set (show_hex n) \<Longrightarrow> is_lower_hex c"
proof (induction n rule: show_hex.induct)
  case (1 n)
  then show ?case by (cases "n < 16") (auto simp: show_hex.simps [of n] hex_digit_lower)
qed

lemma hex16_lower: "c \<in> set (hex16 n) \<Longrightarrow> is_lower_hex c"
  by (auto simp: hex16_def is_lower_hex_def dest: show_hex_lower [unfolded is_lower_hex_def])

lemma name_char:
  assumes "c \<in> set (from_content al x k)"
  shows "c \<noteq> CHR ''/'' \<and> c \<noteq> backslash \<and> c \<noteq> CHR ''.''"
proof (cases "c \<in> set (hex16 (al_hash al x))")
  case True
  from hex16_lower [OF this] show ?thesis by (auto simp: is_lower_hex_def less_eq_char_def)
next
  case False
  with assms have "c \<in> set (''-'' @ output_kind_str k)" by (auto simp: from_content_def)
  then show ?thesis by (cases k) auto
qed

lemma not_contained: "c \<in> set needle \<Longrightarrow> c \<notin> set s \<Longrightarrow> \<not> str_contains s needle"
  using set_mono_sublist [of needle s] by (auto simp: str_contains_sublist)

text \<open>
  C40. Names of stored outputs. The name that an output gets from its hash and its kind passes the check
  that protects a reader of the archive, so it has no slash and no double dot. The dictionary for
  compression depends on the kind only, and is the same for reading as for writing. Two outputs have the
  same name exactly if they have the same hash and the same kind.
\<close>

theorem stored_output_names:
  assumes "al_hash al x < 2 ^ 64" "al_hash al y < 2 ^ 64"
  shows "validate_file_name (from_content al x k) \<and>
    for_path (''out/'' @ from_content al x k) = for_output_file_name (from_content al x k) \<and>
    for_output_file_name (from_content al x k) = (if k = KindStderr then DictStderr else DictStdout) \<and>
    (from_content al x k = from_content al y k' \<longleftrightarrow> al_hash al x = al_hash al y \<and> k = k')"
proof (intro conjI)
  define h where "h = hex16 (al_hash al x)"
  have name: "from_content al x k = h @ ''-'' @ output_kind_str k" by (simp add: from_content_def h_def)
  have h: "length h = 16" "list_all is_lower_hex h"
    using assms(1) by (auto simp: h_def hex16_length list_all_iff hex16_lower)
  have suf: "''-'' @ output_kind_str k \<in> set [''-stdout'', ''-stderr'', ''-combined'']" by (cases k) simp_all
  have "list_ex (\<lambda>suf. suffix suf (from_content al x k) \<and>
      (let hash_part = take (length (from_content al x k) - length suf) (from_content al x k)
       in length hash_part = 16 \<and> list_all is_lower_hex hash_part)) [''-stdout'', ''-stderr'', ''-combined'']"
    unfolding list_ex_iff by (rule bexI [OF _ suf]) (simp add: name h suffix_def)
  moreover have "\<not> str_contains (from_content al x k) s" if "c \<in> set s" "c \<in> {CHR ''/'', backslash, CHR ''.''}" for c s
    using not_contained [OF that(1)] name_char [of c al x k] that(2) by blast
  ultimately show "validate_file_name (from_content al x k)"
    unfolding validate_file_name_def by simp
  show "for_path (''out/'' @ from_content al x k) = for_output_file_name (from_content al x k)"
    using for_path_content [of al x k] by (simp add: out_path_def for_output_file_name_content)
  show "for_output_file_name (from_content al x k) = (if k = KindStderr then DictStderr else DictStdout)"
    by (cases k) (simp_all add: for_output_file_name_content)
  show "from_content al x k = from_content al y k' \<longleftrightarrow> al_hash al x = al_hash al y \<and> k = k'"
    using from_content_inject [OF assms] by (auto simp: from_content_def)
qed

theorem stored_output_names_witness:
  "validate_file_name (from_content ex_libs ''ab'' KindStderr) \<and>
   from_content ex_libs ''ab'' KindStdout \<noteq> from_content ex_libs ''abc'' KindStdout"
  using stored_output_names [of ex_libs "''ab''" "''abc''" KindStderr KindStderr]
    stored_output_names [of ex_libs "''ab''" "''abc''" KindStdout KindStdout]
  by (simp add: ex_libs_def)

end
