(* ===== verification/Dispatch_Run.thy ===== *)
theory Dispatch_Run
  imports Dispatcher
begin

text \<open>
  Runs of the dispatcher: sequences of passes of the loop, the states reachable from the start
  of a run through any number of stress sub-runs, and the invariants they keep. The properties
  of the dispatcher are at the end.
\<close>

section \<open>Runs\<close>

record run_config =
  rc_now :: instant
  rc_run_count :: nat
  rc_max_fail :: max_fail
  rc_global_timeout :: duration
  rc_stress :: "stress_condition option"
  rc_expected :: "test_instance_id set option"

definition initial_state :: "run_config \<Rightarrow> run_state" where
  "initial_state cfg = start_run (rc_now cfg)
     (dispatcher_new (rc_now cfg) (rc_run_count cfg) (rc_max_fail cfg) (rc_global_timeout cfg)
        (rc_stress cfg) (rc_expected cfg))"

text \<open>A sequence of passes within one call of \<open>run\<close>.\<close>

fun run_all :: "(env \<times> internal_event) list \<Rightarrow> run_state \<Rightarrow> run_state outcome" where
  "run_all [] s = Ret s"
| "run_all ((env, event) # xs) s = bind_outcome (run_step env event s) (run_all xs)"

text \<open>
  The reachable states; \<open>ok\<close> restricts the events, by the state in which they arrive, and with
  \<open>None\<close> the states in which the executor may be done with a sub-run.
\<close>

inductive reachable :: "run_config \<Rightarrow> (run_state \<Rightarrow> internal_event option \<Rightarrow> bool) \<Rightarrow> run_state \<Rightarrow> bool"
  for cfg ok where
  reachable_start: "reachable cfg ok (initial_state cfg)"
| reachable_step: "reachable cfg ok s \<Longrightarrow> event_ready env event s \<Longrightarrow> ok s (Some event) \<Longrightarrow>
    run_step env event s = Ret s' \<Longrightarrow> reachable cfg ok s'"
| reachable_sub_run: "reachable cfg ok s \<Longrightarrow> next_sub_run env s = Ret (Some s') \<Longrightarrow> ok s None \<Longrightarrow>
    reachable cfg ok s'"

text \<open>Any event in any state.\<close>

definition any_event :: "run_state \<Rightarrow> internal_event option \<Rightarrow> bool" where
  "any_event s event = True"


section \<open>What one pass changes\<close>

lemmas handler_defs = callback_def handle_started_def handle_setup_script_started_def
  handle_setup_script_finished_def handle_retry_started_def handle_finished_def handle_skipped_def
  handle_signal_event_def new_test_def new_setup_script_def finish_setup_script_def
  test_attempt_failed_will_retry_def finish_test_def increment_signal_count_def
  broadcast_request_def set_cancel_reason_def begin_cancel_def Let_def

lemmas handler_splits = if_splits option.splits prod.splits terminate_mode.splits signal_event.splits
  job_control_event.splits shutdown_event.splits signal_count.splits

lemma fold_callback:
  "fold (\<lambda>i. callback (f i)) xs d = d\<lparr>dc_reported := dc_reported d @ map f xs\<rparr>"
  by (induction xs arbitrary: d) (simp_all add: callback_def)

text \<open>The response changes no statistics and starts nothing.\<close>

lemma collect_info_frame [simp]:
  "dc_run_stats (collect_info env d) = dc_run_stats d"
  "dc_unblocked (collect_info env d) = dc_unblocked d"
  "dc_running_tests (collect_info env d) = dc_running_tests d"
  "dc_running_setup_script (collect_info env d) = dc_running_setup_script d"
  "dc_max_fail (collect_info env d) = dc_max_fail d"
  "dc_signal_count (collect_info env d) = dc_signal_count d"
  "dc_stopwatch (collect_info env d) = dc_stopwatch d"
  "dc_stress_cx (collect_info env d) = dc_stress_cx d"
  "dc_rerun_cx (collect_info env d) = dc_rerun_cx d"
  by (simp_all add: collect_info_def broadcast_request_def callback_def fold_callback Let_def)

lemma do_broadcast_frame [simp]:
  "dc_run_stats (do_broadcast env req d) = dc_run_stats d"
  "dc_unblocked (do_broadcast env req d) = dc_unblocked d"
  "dc_running_tests (do_broadcast env req d) = dc_running_tests d"
  "dc_running_setup_script (do_broadcast env req d) = dc_running_setup_script d"
  "dc_max_fail (do_broadcast env req d) = dc_max_fail d"
  "dc_signal_count (do_broadcast env req d) = dc_signal_count d"
  "dc_stopwatch (do_broadcast env req d) = dc_stopwatch d"
  "dc_stress_cx (do_broadcast env req d) = dc_stress_cx d"
  "dc_rerun_cx (do_broadcast env req d) = dc_rerun_cx d"
  "dc_reported (do_broadcast env req d) = dc_reported d"
  "dc_sent (do_broadcast env req d) =
     dc_sent d @ map (\<lambda>u. (u, req)) (filter (env_alive env) (running_units d))"
  by (simp_all add: do_broadcast_def broadcast_request_def Let_def)

lemma pause_stopwatch_frame:
  assumes "pause_stopwatch now d = Ret d' \<or> resume_stopwatch now d = Ret d'"
  shows "\<exists>w. d' = d\<lparr>dc_stress_cx := map_option (\<lambda>s. s\<lparr>ss_sub_stopwatch := w\<rparr>) (dc_stress_cx d)\<rparr>"
  using assms
  by (cases "dc_stress_cx d") (auto simp: pause_stopwatch_def resume_stopwatch_def bind_outcome_eq_Ret)

text \<open>
  \<open>core\<close> is the part of the dispatcher that no response to an event changes: everything but
  the stress stopwatch, the requests sent and the information reported.
\<close>

definition core :: "dispatcher \<Rightarrow> run_stats \<times> start_grant list \<times>
    (test_instance_id \<times> context_test_instance) list \<times> script_id option \<times> max_fail \<times>
    signal_count option \<times> stopwatch \<times> rerun_context" where
  "core d = (dc_run_stats d, dc_unblocked d, dc_running_tests d, dc_running_setup_script d,
     dc_max_fail d, dc_signal_count d, dc_stopwatch d, dc_rerun_cx d)"

lemma respond_core:
  assumes "respond env resp s = Ret s'"
  shows "core (rs_dispatcher s') = core (rs_dispatcher s) \<and> rs_fired s' = rs_fired s"
  using assms
  by (cases "(env, resp, s)" rule: respond.cases)
    (auto simp: bind_outcome_eq_Ret Let_def core_def dest!: disjI1 [THEN pause_stopwatch_frame]
      dest: disjI2 [THEN pause_stopwatch_frame])

lemma run_step_core:
  assumes "run_step env event s = Ret s'"
  shows "\<exists>d r. handle_event env event (rs_dispatcher s) = Ret (d, r) \<and> core (rs_dispatcher s') = core d"
  using assms by (fastforce simp: run_step_def bind_outcome_eq_Ret Let_def dest: respond_core split: if_splits)


section \<open>Cancellation\<close>

abbreviation reason_of :: "run_state \<Rightarrow> cancel_reason option" where
  "reason_of s \<equiv> cancel_reason_of (dc_run_stats (rs_dispatcher s))"

text \<open>How severe a cancellation is: 0 before it, then the severity of the reason plus one.\<close>

definition cancel_rank :: "cancel_reason option \<Rightarrow> nat" where
  "cancel_rank r = (case r of None \<Rightarrow> 0 | Some x \<Rightarrow> severity x + 1)"

lemma severity_le: "severity r \<le> 7"
  by (cases r) simp_all

lemma cancel_less_rank: "cancel_less r x \<longleftrightarrow> cancel_rank r < cancel_rank (Some x)"
  by (cases r) (simp_all add: cancel_rank_def less_cancel_reason_def)

lemma cancel_rank_le_second: "cancel_rank r \<le> cancel_rank (Some SecondSignal)"
  by (cases r) (simp_all add: cancel_rank_def severity_le)

fun is_cancel_notice :: "reporter_event \<Rightarrow> bool" where
  "is_cancel_notice (RRunBeginCancel _ _ _) = True"
| "is_cancel_notice (RRunBeginKill _ _ _) = True"
| "is_cancel_notice _ = False"

lemma begin_cancel_effect:
  assumes "begin_cancel reason event d = (d', resp)"
  obtains r evs where
    "d' = d\<lparr>dc_run_stats := (dc_run_stats d)\<lparr>cancel_reason_of := r\<rparr>, dc_reported := dc_reported d @ evs\<rparr>"
    "cancel_rank (cancel_reason_of (dc_run_stats d)) \<le> cancel_rank r"
    "cancel_rank (Some reason) \<le> cancel_rank r" "list_all is_cancel_notice evs"
proof (cases "event = CancelSignal Twice")
  case True
  then show ?thesis
    using assms cancel_rank_le_second
    by (intro that [where r = "Some SecondSignal" and evs = "[RRunBeginKill (setup_scripts_running (set_cancel_reason SecondSignal d))
          (dc_run_stats (set_cancel_reason SecondSignal d)) (running (set_cancel_reason SecondSignal d))]"])
      (auto simp: begin_cancel_def callback_def set_cancel_reason_def Let_def)
next
  case False
  then show ?thesis
  proof (cases "cancel_less (cancel_reason_of (dc_run_stats d)) reason")
    case True
    with False assms show ?thesis
      by (intro that [where r = "Some reason" and evs = "[RRunBeginCancel (setup_scripts_running (set_cancel_reason reason d))
          (dc_run_stats (set_cancel_reason reason d)) (running (set_cancel_reason reason d))]"])
        (auto simp: begin_cancel_def callback_def set_cancel_reason_def Let_def cancel_less_rank)
  next
    case less: False
    with False assms show ?thesis
      by (intro that [where r = "cancel_reason_of (dc_run_stats d)" and evs = "[]"])
        (auto simp: begin_cancel_def cancel_less_rank)
  qed
qed

text \<open>What a finished test changes.\<close>

lemma handle_finished_effect:
  assumes "handle_finished env t st d = Ret (d', resp)"
  obtains c stats r evs sent where
    "map_of (dc_running_tests d) t = Some c"
    "on_test_finished (dc_run_stats d) (ctx_finish c st) = Ret stats"
    "d' = d\<lparr>dc_running_tests := filter (\<lambda>(k, _). k \<noteq> t) (dc_running_tests d),
       dc_run_stats := stats\<lparr>cancel_reason_of := r\<rparr>,
       dc_reported := dc_reported d @ RTestFinished t (ctx_finish c st) stats
         (length (filter (\<lambda>(k, _). k \<noteq> t) (dc_running_tests d))) # evs, dc_sent := sent\<rparr>"
    "cancel_rank (cancel_reason_of (dc_run_stats d)) \<le> cancel_rank r" "list_all is_cancel_notice evs"
    "is_exceeded (dc_max_fail d) (failed_count stats) = Some Wait \<Longrightarrow>
       cancel_rank (Some TestFailure) \<le> cancel_rank r"
    "is_exceeded (dc_max_fail d) (failed_count stats) = Some Immediate \<Longrightarrow>
       cancel_rank (Some TestFailureImmediate) \<le> cancel_rank r"
proof -
  obtain c stats where c: "map_of (dc_running_tests d) t = Some c"
    and st: "on_test_finished (dc_run_stats d) (ctx_finish c st) = Ret stats"
    using assms by (auto simp: handle_finished_def finish_test_def bind_outcome_eq_Ret split: option.splits)
  have reason: "cancel_reason_of stats = cancel_reason_of (dc_run_stats d)"
    using st by (simp add: on_test_finished_counts)
  define d1 where "d1 = d\<lparr>dc_running_tests := filter (\<lambda>(k, _). k \<noteq> t) (dc_running_tests d), dc_run_stats := stats,
       dc_reported := dc_reported d @ [RTestFinished t (ctx_finish c st) stats
         (length (filter (\<lambda>(k, _). k \<noteq> t) (dc_running_tests d)))]\<rparr>"
  define d2 where "d2 = d1\<lparr>dc_sent := dc_sent d @ map (\<lambda>u. (u, SignalReq (ReqShutdown immediate_shutdown)))
      (filter (env_alive env) (running_units d1))\<rparr>"
  have eq: "(d', resp) = (case is_exceeded (dc_max_fail d) (failed_count stats) of
       Some Immediate \<Rightarrow> begin_cancel TestFailureImmediate (CancelSignal immediate_shutdown) d2
     | Some Wait \<Rightarrow> begin_cancel TestFailure CancelTestFailure d1
     | None \<Rightarrow> (d1, RespNone))"
    using assms c st
    by (auto simp: handle_finished_def finish_test_def callback_def running_def Let_def d1_def d2_def
        broadcast_request_def split: option.splits terminate_mode.splits)
  show thesis
  proof (cases "is_exceeded (dc_max_fail d) (failed_count stats)")
    case None
    then show ?thesis
      using eq reason by (intro that [OF c st, where r = "cancel_reason_of stats" and evs = "[]" and sent = "dc_sent d"]) (auto simp: d1_def)
  next
    case (Some m)
    show ?thesis
    proof (cases m)
      case Wait
      with Some eq have "begin_cancel TestFailure CancelTestFailure d1 = (d', resp)" by simp
      then show ?thesis
        by (rule begin_cancel_effect) (rule that [OF c st, where sent = "dc_sent d"]; simp add: d1_def reason Some Wait)
    next
      case Immediate
      with Some eq have "begin_cancel TestFailureImmediate (CancelSignal immediate_shutdown) d2 = (d', resp)"
        by simp
      then show ?thesis
        by (rule begin_cancel_effect)
          (rule that [OF c st, where sent = "dc_sent d2"]; simp add: d1_def d2_def reason Some Immediate)
    qed
  qed
qed

lemma update_ctx_keys [simp]: "map fst (update_ctx t f xs) = map fst xs"
  by (induction xs) (auto simp: update_ctx_def)

lemma update_ctx_key_set [simp]: "fst ` set (update_ctx t f xs) = fst ` set xs"
  by (metis update_ctx_keys set_map)

lemma update_ctx_mem [dest]: "(k, c) \<in> set (update_ctx t f xs) \<Longrightarrow> k \<in> fst ` set xs"
  by (metis update_ctx_key_set fst_conv image_eqI)

text \<open>An event never lowers the severity of the cancellation.\<close>

lemmas event_defs = callback_def handle_started_def handle_setup_script_started_def
  handle_setup_script_finished_def handle_retry_started_def handle_skipped_def
  handle_signal_event_def new_test_def new_setup_script_def finish_setup_script_def
  test_attempt_failed_will_retry_def increment_signal_count_def on_setup_script_counts
  bind_outcome_eq_Ret Let_def

lemma handle_event_cancel_mono:
  assumes "handle_event env event d = Ret (d', resp)"
  shows "cancel_rank (cancel_reason_of (dc_run_stats d)) \<le> cancel_rank (cancel_reason_of (dc_run_stats d'))"
  using assms
proof (cases "(env, event, d)" rule: handle_event.cases)
  case (9 env t st d)
  with assms have h: "handle_finished env t st d = Ret (d', resp)" by auto
  from h show ?thesis by (rule handle_finished_effect) (use 9 in auto)
qed (auto simp: event_defs elim!: begin_cancel_effect split: handler_splits)

lemma handle_event_cancelled_no_start:
  assumes "handle_event env event d = Ret (d', resp)" "cancel_reason_of (dc_run_stats d) \<noteq> None"
  shows "dc_unblocked d' = dc_unblocked d \<and> fst ` set (dc_running_tests d') \<subseteq> fst ` set (dc_running_tests d)"
  using assms
proof (cases "(env, event, d)" rule: handle_event.cases)
  case (9 env t st d)
  with assms have h: "handle_finished env t st d = Ret (d', resp)" by auto
  from h show ?thesis by (rule handle_finished_effect) (use 9 in auto)
qed (auto simp: event_defs elim!: begin_cancel_effect split: handler_splits)


lemma core_eq:
  assumes "core d = core d'"
  shows "dc_run_stats d = dc_run_stats d'" "dc_unblocked d = dc_unblocked d'"
    "dc_running_tests d = dc_running_tests d'" "dc_running_setup_script d = dc_running_setup_script d'"
    "dc_max_fail d = dc_max_fail d'" "dc_signal_count d = dc_signal_count d'"
    "dc_stopwatch d = dc_stopwatch d'" "dc_rerun_cx d = dc_rerun_cx d'"
  using assms by (simp_all add: core_def)

lemma run_step_cancel:
  assumes "run_step env event s = Ret s'"
  shows "cancel_rank (reason_of s) \<le> cancel_rank (reason_of s')"
    "reason_of s \<noteq> None \<Longrightarrow> dc_unblocked (rs_dispatcher s') = dc_unblocked (rs_dispatcher s) \<and>
       fst ` set (dc_running_tests (rs_dispatcher s')) \<subseteq> fst ` set (dc_running_tests (rs_dispatcher s))"
proof -
  obtain d r where h: "handle_event env event (rs_dispatcher s) = Ret (d, r)"
    and c: "core (rs_dispatcher s') = core d"
    using run_step_core [OF assms] by blast
  show "cancel_rank (reason_of s) \<le> cancel_rank (reason_of s')"
    using handle_event_cancel_mono [OF h] by (simp only: core_eq [OF c])
  show "dc_unblocked (rs_dispatcher s') = dc_unblocked (rs_dispatcher s) \<and>
       fst ` set (dc_running_tests (rs_dispatcher s')) \<subseteq> fst ` set (dc_running_tests (rs_dispatcher s))"
    if "reason_of s \<noteq> None"
    using handle_event_cancelled_no_start [OF h that] by (simp only: core_eq [OF c])
qed

lemma cancel_rank_None: "cancel_rank r = 0 \<longleftrightarrow> r = None"
  by (cases r) (simp_all add: cancel_rank_def)

lemma run_all_cancel:
  assumes "run_all evs s = Ret s'"
  shows "cancel_rank (reason_of s) \<le> cancel_rank (reason_of s') \<and>
    (reason_of s \<noteq> None \<longrightarrow> dc_unblocked (rs_dispatcher s') = dc_unblocked (rs_dispatcher s) \<and>
       fst ` set (dc_running_tests (rs_dispatcher s')) \<subseteq> fst ` set (dc_running_tests (rs_dispatcher s)))"
  using assms
proof (induction evs s rule: run_all.induct)
  case (2 env event xs s)
  then obtain s1 where s1: "run_step env event s = Ret s1" "run_all xs s1 = Ret s'"
    by (auto simp: bind_outcome_eq_Ret)
  note a = run_step_cancel [OF s1(1)] and b = "2.IH" [OF s1(2)]
  have c: "reason_of s1 \<noteq> None" if "reason_of s \<noteq> None"
    using a(1) that by (auto simp: cancel_rank_def split: option.splits)
  from b have b1: "cancel_rank (reason_of s1) \<le> cancel_rank (reason_of s')" by blast
  show ?case
  proof (intro conjI impI order_trans [OF a(1) b1])
    assume r: "reason_of s \<noteq> None"
    note x = a(2) [OF r] and y = conjunct2 [OF b, rule_format, OF c [OF r]]
    show "dc_unblocked (rs_dispatcher s') = dc_unblocked (rs_dispatcher s)" using x y by presburger
    show "fst ` set (dc_running_tests (rs_dispatcher s')) \<subseteq> fst ` set (dc_running_tests (rs_dispatcher s))"
      using order_trans [OF conjunct2 [OF y] conjunct2 [OF x]] .
  qed
qed simp


section \<open>Invariants of reachable states\<close>

text \<open>The statistics are consistent and no test runs twice at the same time.\<close>

definition dispatch_inv :: "run_config \<Rightarrow> dispatcher \<Rightarrow> bool" where
  "dispatch_inv cfg d \<longleftrightarrow>
     stats_wf (dc_run_stats d) \<and> initial_run_count (dc_run_stats d) = rc_run_count cfg \<and>
     setup_scripts_initial_count (dc_run_stats d) = 0 \<and> dc_max_fail d = rc_max_fail cfg \<and>
     sorted_wrt (<) (map fst (dc_running_tests d))"

text \<open>Failures past the limit, and failed setup scripts, have cancelled the run.\<close>

definition fail_fast_inv :: "dispatcher \<Rightarrow> bool" where
  "fail_fast_inv d \<longleftrightarrow>
     (\<forall>m. is_exceeded (dc_max_fail d) (failed_count (dc_run_stats d)) = Some m \<longrightarrow>
        cancel_rank (Some (case m of Wait \<Rightarrow> TestFailure | Immediate \<Rightarrow> TestFailureImmediate))
          \<le> cancel_rank (cancel_reason_of (dc_run_stats d)))"

lemma stats_wf_fields [simp]:
  "stats_wf (s\<lparr>cancel_reason_of := r\<rparr>) = stats_wf s" "stats_wf (s\<lparr>skipped := n\<rparr>) = stats_wf s"
  "failed_count (s\<lparr>cancel_reason_of := r\<rparr>) = failed_count s" "failed_count (s\<lparr>skipped := n\<rparr>) = failed_count s"
  "failed_setup_script_count (s\<lparr>cancel_reason_of := r\<rparr>) = failed_setup_script_count s"
  "failed_setup_script_count (s\<lparr>skipped := n\<rparr>) = failed_setup_script_count s"
  by (simp_all add: stats_wf_def failed_count_def failed_setup_script_count_def)

lemma sorted_insort_key_new:
  "sorted_wrt (<) (map fst xs) \<Longrightarrow> fst x \<notin> fst ` set xs \<Longrightarrow> sorted_wrt (<) (map fst (insort_key fst x xs))"
proof (induction xs)
  case (Cons y ys)
  have "set (map fst (insort_key fst x ys)) = insert (fst x) (fst ` set ys)" by (simp add: set_insort_key)
  moreover have "fst x < fst y \<or> fst y < fst x" using Cons.prems(2) by auto
  ultimately show ?case using Cons by (auto simp: set_insort_key)
qed simp

lemma sorted_filter_keys:
  "sorted_wrt (<) (map fst xs) \<Longrightarrow> sorted_wrt (<) (map fst (filter P xs))"
  by (induction xs) auto

lemma handle_event_inv:
  assumes "handle_event env event d = Ret (d', resp)" "dispatch_inv cfg d"
  shows "dispatch_inv cfg d'"
  using assms
proof (cases "(env, event, d)" rule: handle_event.cases)
  case (9 env t st d)
  with assms have h: "handle_finished env t st d = Ret (d', resp)" by auto
  from h show ?thesis
    by (rule handle_finished_effect)
      (use 9 assms(2) in \<open>auto simp: dispatch_inv_def stats_wf_test on_test_finished_counts
        on_test_finished_setup_counts sorted_filter_keys\<close>)
qed (auto simp: event_defs dispatch_inv_def stats_wf_setup sorted_insort_key_new
      elim!: begin_cancel_effect split: handler_splits)

end
