(* ===== verification/Dispatch_Props.thy ===== *)
theory Dispatch_Props
  imports Dispatch_Run
begin

text \<open>
  The properties of the dispatcher: cancellation and fail-fast, signals, the statistics, the
  timers, stress runs and reruns.
\<close>

section \<open>Reachable states\<close>

lemma initial_state_fields:
  "dc_run_stats (rs_dispatcher (initial_state cfg)) = default_run_stats\<lparr>initial_run_count := rc_run_count cfg\<rparr>"
  "dc_max_fail (rs_dispatcher (initial_state cfg)) = rc_max_fail cfg"
  "dc_running_tests (rs_dispatcher (initial_state cfg)) = []"
  "dc_unblocked (rs_dispatcher (initial_state cfg)) = []"
  "dc_signal_count (rs_dispatcher (initial_state cfg)) = None"
  "dc_rerun_cx (rs_dispatcher (initial_state cfg)) = rerun_new (rc_expected cfg)"
  "dc_stopwatch (rs_dispatcher (initial_state cfg)) = stopwatch_new (rc_now cfg)"
  "dc_stress_cx (rs_dispatcher (initial_state cfg)) = stress_new (rc_now cfg) (rc_stress cfg)"
  "\<not> sl_is_paused (rs_sleep (initial_state cfg))"
  by (auto simp: initial_state_def start_run_def dispatcher_new_def enter_run_def
      stress_sub_run_started_def callback_def Let_def default_run_stats_def split: option.splits)

text \<open>What carries over from one sub-run of a stress run to the next.\<close>

lemma next_sub_run_effect:
  assumes "next_sub_run env s = Ret (Some s')"
  obtains cx progress0 elapsed progress where
    "dc_stress_cx (rs_dispatcher s) = Some cx"
    "reason_of s = None" "\<not> is_cancelled_stats (summarize_final (dc_run_stats (rs_dispatcher s)))"
    "rs_dispatcher s' = (rs_dispatcher s)\<lparr>
       dc_stress_cx := Some (fst (mark_completed (env_now env) (summarize_final (dc_run_stats (rs_dispatcher s))) cx)),
       dc_run_stats := default_run_stats\<lparr>initial_run_count := initial_run_count (dc_run_stats (rs_dispatcher s))\<rparr>,
       dc_reported := dc_reported (rs_dispatcher s) @
         [RStressSubRunFinished progress0 elapsed (dc_run_stats (rs_dispatcher s)), RStressSubRunStarted progress]\<rparr>"
    "rs_sleep s' = sleep_new (env_after env) (dc_global_timeout (rs_dispatcher s))" "\<not> rs_fired s'"
proof -
  obtain cx where cx: "dc_stress_cx (rs_dispatcher s) = Some cx"
    using assms by (auto simp: next_sub_run_def stress_sub_run_finished_def split: option.splits)
  obtain cx' el where m:
    "mark_completed (env_now env) (summarize_final (dc_run_stats (rs_dispatcher s))) cx = (cx', el)"
    by fastforce
  define p where "p = (\<lambda>now. stress_progress_at (snap_active (sw_snapshot now (dc_stopwatch (rs_dispatcher s)))) cx')"
  have act: "after_sub_run (summarize_final (dc_run_stats (rs_dispatcher s))) (reason_of s) (p (env_after env))
      = StressContinue (p (env_after env))"
    using assms cx m
    by (auto simp: next_sub_run_def stress_sub_run_finished_def Let_def callback_def p_def after_sub_run_def
        split: option.splits final_run_stats.splits)
  then have none: "reason_of s = None" "\<not> is_cancelled_stats (summarize_final (dc_run_stats (rs_dispatcher s)))"
    by (auto simp: after_sub_run_def split: option.splits final_run_stats.splits)
  have "s' = enter_run (env_after env) (stress_sub_run_started (p (env_after env))
      (callback (RStressSubRunFinished (p (env_now env)) el (dc_run_stats (rs_dispatcher s)))
        ((rs_dispatcher s)\<lparr>dc_stress_cx := Some cx'\<rparr>)))"
    using assms cx m act by (simp add: next_sub_run_def stress_sub_run_finished_def Let_def p_def callback_def)
  then show ?thesis
    using that [OF cx none, of "p (env_now env)" el "p (env_after env)"] m
    by (simp add: enter_run_def stress_sub_run_started_def callback_def Let_def)
qed

lemma dispatch_inv_core: "core d = core d' \<Longrightarrow> dispatch_inv cfg d = dispatch_inv cfg d'"
  using core_eq [of d d'] by (simp add: dispatch_inv_def)

lemma reachable_dispatch_inv:
  assumes "reachable cfg ok s"
  shows "dispatch_inv cfg (rs_dispatcher s)"
  using assms
proof induction
  case reachable_start
  then show ?case
    by (simp add: dispatch_inv_def initial_state_fields stats_wf_default) (simp add: default_run_stats_def)
next
  case (reachable_step s env event s')
  then obtain d r where "handle_event env event (rs_dispatcher s) = Ret (d, r)"
    "core (rs_dispatcher s') = core d"
    using run_step_core by blast
  then show ?case using handle_event_inv reachable_step.IH dispatch_inv_core by blast
next
  case (reachable_sub_run s env s')
  from reachable_sub_run.hyps(2) show ?case
    by (rule next_sub_run_effect)
      (use reachable_sub_run.IH in \<open>simp add: dispatch_inv_def stats_wf_default, simp add: default_run_stats_def\<close>)
qed


section \<open>Fail-fast\<close>

lemma handle_event_failed_count:
  assumes "handle_event env event d = Ret (d', resp)" "\<forall>t st. event \<noteq> Executor (Finished t st)"
  shows "failed_count (dc_run_stats d') = failed_count (dc_run_stats d) \<and> dc_max_fail d' = dc_max_fail d"
  using assms
  by (cases "(env, event, d)" rule: handle_event.cases)
    (auto simp: event_defs elim!: begin_cancel_effect split: handler_splits)

lemma handle_event_fail_fast:
  assumes "handle_event env event d = Ret (d', resp)" "fail_fast_inv d"
  shows "fail_fast_inv d'"
proof (cases "\<exists>t st. event = Executor (Finished t st)")
  case True
  with assms obtain t st where "handle_finished env t st d = Ret (d', resp)" by auto
  then show ?thesis
    by (rule handle_finished_effect) (auto simp: fail_fast_inv_def split: terminate_mode.splits)
next
  case False
  with handle_event_failed_count [OF assms(1)] handle_event_cancel_mono [OF assms(1)] assms(2)
  show ?thesis by (auto simp: fail_fast_inv_def)
qed

lemma fail_fast_inv_default: "max_fail_wf (dc_max_fail d) \<Longrightarrow>
    dc_run_stats d = default_run_stats\<lparr>initial_run_count := n\<rparr> \<Longrightarrow> fail_fast_inv d"
  by (cases "dc_max_fail d") (auto simp: fail_fast_inv_def default_run_stats_def failed_count_def)

lemma fail_fast_inv_core: "core d = core d' \<Longrightarrow> fail_fast_inv d = fail_fast_inv d'"
  using core_eq [of d d'] by (simp add: fail_fast_inv_def)

lemma reachable_fail_fast:
  assumes "reachable cfg ok s" "max_fail_wf (rc_max_fail cfg)"
  shows "fail_fast_inv (rs_dispatcher s)"
  using assms
proof induction
  case reachable_start
  then show ?case by (intro fail_fast_inv_default) (simp_all add: initial_state_fields)
next
  case (reachable_step s env event s')
  then obtain d r where "handle_event env event (rs_dispatcher s) = Ret (d, r)"
    "core (rs_dispatcher s') = core d"
    using run_step_core by blast
  then show ?case using handle_event_fail_fast reachable_step.IH reachable_step.prems fail_fast_inv_core by blast
next
  case (reachable_sub_run s env s')
  have "dc_max_fail (rs_dispatcher s) = rc_max_fail cfg"
    using reachable_dispatch_inv [OF reachable_sub_run.hyps(1)] by (simp add: dispatch_inv_def)
  then show ?case
    using reachable_sub_run.hyps(2) reachable_sub_run.prems
    by (elim next_sub_run_effect) (intro fail_fast_inv_default, auto)
qed



section \<open>Statistics and what the reporter has been told\<close>

text \<open>The events that carry results, and those reported since the last sub-run started, newest first.\<close>

fun tallied :: "reporter_event \<Rightarrow> bool" where
  "tallied (RTestStarted _ _ _) = True"
| "tallied (RTestFinished _ _ _ _) = True"
| "tallied (RTestSkipped _ _) = True"
| "tallied (RSetupScriptFinished _ _ _ _) = True"
| "tallied (RStressSubRunStarted _) = True"
| "tallied _ = False"

fun starts_sub_run :: "reporter_event \<Rightarrow> bool" where
  "starts_sub_run (RStressSubRunStarted _) = True"
| "starts_sub_run _ = False"

definition since_sub_run :: "dispatcher \<Rightarrow> reporter_event list" where
  "since_sub_run d = filter tallied (takeWhile (\<lambda>e. \<not> starts_sub_run e) (rev (dc_reported d)))"

fun is_finished_test :: "(execution_statuses \<Rightarrow> bool) \<Rightarrow> reporter_event \<Rightarrow> bool" where
  "is_finished_test P (RTestFinished _ es _ _) = P es"
| "is_finished_test P _ = False"

fun is_skipped_test :: "reporter_event \<Rightarrow> bool" where
  "is_skipped_test (RTestSkipped _ reason) = is_substantive_skip reason"
| "is_skipped_test _ = False"

fun is_finished_script :: "(execution_result \<Rightarrow> bool) \<Rightarrow> reporter_event \<Rightarrow> bool" where
  "is_finished_script P (RSetupScriptFinished _ _ _ r) = P r"
| "is_finished_script P _ = False"

definition tally :: "(reporter_event \<Rightarrow> bool) \<Rightarrow> dispatcher \<Rightarrow> nat" where
  "tally P d = length (filter P (since_sub_run d))"

text \<open>
  What each counter counts, by the last attempt of a test (a slow test that passes by its timeout counts as
  timed out, not as slow) and by the result of a setup script.
\<close>

definition last_result :: "execution_statuses \<Rightarrow> execution_result" where
  "last_result es = es_result (last (statuses es))"

definition last_is_slow :: "execution_statuses \<Rightarrow> bool" where
  "last_is_slow es = es_is_slow (last (statuses es))"

definition test_fails :: "execution_statuses \<Rightarrow> bool" where
  "test_fails es \<longleftrightarrow> \<not> test_passes es \<and> last_result es \<noteq> ExecFail \<and> last_result es \<noteq> Timeout SlowFail"

definition test_counters :: "((run_stats \<Rightarrow> nat) \<times> (execution_statuses \<Rightarrow> bool)) list" where
  "test_counters =
    [(finished_count, \<lambda>_. True),
     (passed, test_passes),
     (passed_slow, \<lambda>es. test_passes es \<and> last_is_slow es \<and> last_result es \<noteq> Timeout SlowPass),
     (passed_timed_out, \<lambda>es. test_passes es \<and> last_result es = Timeout SlowPass),
     (flaky, \<lambda>es. test_passes es \<and> length (statuses es) > 1),
     (failed, test_fails),
     (failed_slow, \<lambda>es. test_fails es \<and> last_is_slow es),
     (failed_timed_out, \<lambda>es. last_result es = Timeout SlowFail),
     (leaky, \<lambda>es. last_result es = Leak LeakPass),
     (leaky_failed, \<lambda>es. last_result es = Leak LeakFail),
     (exec_failed, \<lambda>es. last_result es = ExecFail)]"

fun script_fails :: "execution_result \<Rightarrow> bool" where
  "script_fails (Fail _ _) = True"
| "script_fails (Leak LeakFail) = True"
| "script_fails _ = False"

fun is_timeout :: "execution_result \<Rightarrow> bool" where
  "is_timeout (Timeout _) = True"
| "is_timeout _ = False"

definition script_counters :: "((run_stats \<Rightarrow> nat) \<times> (execution_result \<Rightarrow> bool)) list" where
  "script_counters =
    [(setup_scripts_finished_count, \<lambda>_. True),
     (setup_scripts_passed, script_passes),
     (setup_scripts_failed, script_fails),
     (setup_scripts_exec_failed, \<lambda>r. r = ExecFail),
     (setup_scripts_timed_out, is_timeout)]"

lemmas counter_defs = test_counters_def script_counters_def

lemma test_finished_counters:
  "on_test_finished s es = Ret s' \<Longrightarrow>
     \<forall>(f, P) \<in> set test_counters. f s' = f s + (if P es then 1 else 0)"
  by (cases "es_result (last (statuses es))")
    (auto simp: test_counters_def last_result_def last_is_slow_def test_fails_def test_passes_def stats_simps
      split: if_splits leak_timeout_result.splits slow_timeout_result.splits flaky_result.splits)

lemma test_finished_script_counters:
  "on_test_finished s es = Ret s' \<Longrightarrow> \<forall>(f, P) \<in> set script_counters. f s' = f s"
  by (cases "es_result (last (statuses es))")
    (auto simp: script_counters_def stats_simps
      split: if_splits leak_timeout_result.splits slow_timeout_result.splits flaky_result.splits)

lemma script_finished_counters:
  "\<forall>(f, P) \<in> set script_counters. f (on_setup_script_finished s r) = f s + (if P r then 1 else 0)"
  "\<forall>(f, P) \<in> set test_counters. f (on_setup_script_finished s r) = f s"
  by (cases r; auto simp: counter_defs script_passes_def stats_simps split: leak_timeout_result.splits)+

definition stats_reported :: "dispatcher \<Rightarrow> bool" where
  "stats_reported d \<longleftrightarrow>
     (\<forall>(f, P) \<in> set test_counters. f (dc_run_stats d) = tally (is_finished_test P) d) \<and>
     (\<forall>(f, P) \<in> set script_counters. f (dc_run_stats d) = tally (is_finished_script P) d) \<and>
     skipped (dc_run_stats d) = tally is_skipped_test d"

lemma not_tallied: "\<not> tallied e \<Longrightarrow> \<not> starts_sub_run e"
  by (cases e) simp_all

lemma since_sub_run_append:
  assumes "dc_reported d' = dc_reported d @ evs" "list_all (\<lambda>e. \<not> starts_sub_run e) evs"
  shows "since_sub_run d' = filter tallied (rev evs) @ since_sub_run d"
  using assms by (simp add: since_sub_run_def list_all_iff takeWhile_append)

lemma since_sub_run_silent:
  assumes "dc_reported d' = dc_reported d @ evs" "list_all (\<lambda>e. \<not> tallied e) evs"
  shows "since_sub_run d' = since_sub_run d"
proof -
  have "list_all (\<lambda>e. \<not> starts_sub_run e) evs" using assms(2) not_tallied by (auto simp: list_all_iff)
  from since_sub_run_append [OF assms(1) this] show ?thesis
    using assms(2) by (simp add: list_all_iff filter_empty_conv)
qed

lemma cancel_notice_not_tallied: "is_cancel_notice e \<Longrightarrow> \<not> tallied e"
  by (cases e) simp_all

lemma cancel_notices_not_tallied [intro]: "list_all is_cancel_notice evs \<Longrightarrow> list_all (\<lambda>e. \<not> tallied e) evs"
  using cancel_notice_not_tallied by (auto simp: list_all_iff)

lemma since_sub_run_one:
  assumes "dc_reported d' = dc_reported d @ e # evs" "\<not> starts_sub_run e" "list_all is_cancel_notice evs"
  shows "since_sub_run d' = (if tallied e then [e] else []) @ since_sub_run d"
proof -
  have "list_all (\<lambda>e. \<not> tallied e) evs" using assms(3) cancel_notice_not_tallied by (auto simp: list_all_iff)
  then have "filter tallied (rev evs) = []" "list_all (\<lambda>e. \<not> starts_sub_run e) (e # evs)"
    using assms(2) not_tallied by (auto simp: list_all_iff filter_empty_conv)
  then show ?thesis using since_sub_run_append [of d' d "e # evs"] assms by simp
qed

text \<open>What an event adds to the tallied reports.\<close>

fun reports :: "env \<Rightarrow> internal_event \<Rightarrow> dispatcher \<Rightarrow> reporter_event list" where
  "reports env (Executor (Started t fr)) d =
     (if cancel_reason_of (dc_run_stats d) = None then [RTestStarted t (dc_run_stats d) (running d + 1)] else [])"
| "reports env (Executor (Skipped t reason)) d = [RTestSkipped t reason]"
| "reports env (Executor (SetupScriptFinished s i n r)) d = [RSetupScriptFinished s i n r]"
| "reports env (Executor (Finished t st)) d =
     (case finish_test t st d of Panic \<Rightarrow> [] | Ret (d1, es) \<Rightarrow>
       (case on_test_finished (dc_run_stats d) es of Panic \<Rightarrow> []
        | Ret stats \<Rightarrow> [RTestFinished t es stats (running d1)]))"
| "reports env _ d = []"

lemma handle_event_reports:
  assumes "handle_event env event d = Ret (d', resp)"
  shows "since_sub_run d' = reports env event d @ since_sub_run d"
  using assms
proof (cases "(env, event, d)" rule: handle_event.cases)
  case (9 env t st d)
  with assms have "handle_finished env t st d = Ret (d', resp)" by auto
  then show ?thesis
    by (rule handle_finished_effect)
      (use 9 in \<open>auto simp: finish_test_def running_def intro: since_sub_run_one [THEN trans]\<close>)
qed (auto simp: event_defs elim!: begin_cancel_effect
      intro!: since_sub_run_silent since_sub_run_one [THEN trans] split: handler_splits)


text \<open>The statistics change by what is reported.\<close>

definition stats_change :: "run_stats \<Rightarrow> run_stats \<Rightarrow> reporter_event list \<Rightarrow> bool" where
  "stats_change s s' evs \<longleftrightarrow>
     (\<forall>(f, P) \<in> set test_counters. f s' = f s + length (filter (is_finished_test P) evs)) \<and>
     (\<forall>(f, P) \<in> set script_counters. f s' = f s + length (filter (is_finished_script P) evs)) \<and>
     skipped s' = skipped s + length (filter is_skipped_test evs)"

lemma stats_change_same: "stats_change s (s\<lparr>cancel_reason_of := r\<rparr>) []"
  "stats_change s s []"
  by (simp_all add: stats_change_def counter_defs)

lemma stats_change_cancel [simp]: "stats_change s (s'\<lparr>cancel_reason_of := x\<rparr>) evs = stats_change s s' evs"
  by (simp add: stats_change_def counter_defs)

lemma stats_change_setup:
  "stats_change s (on_setup_script_finished s r) [RSetupScriptFinished i m n r]"
  using script_finished_counters [where s = s and r = r]
  by (auto simp: stats_change_def on_setup_script_finished_def Let_def
      split: execution_result.splits leak_timeout_result.splits)

lemma stats_change_finished:
  "on_test_finished s es = Ret s' \<Longrightarrow> stats_change s s' [RTestFinished t es st n]"
  using test_finished_counters [of s es s'] test_finished_script_counters [of s es s'] on_test_finished_counts [of s es s']
  by (auto simp: stats_change_def)

lemma stats_change_skipped:
  "stats_change s (if is_substantive_skip r then s\<lparr>skipped := skipped s + 1\<rparr> else s) [RTestSkipped t r]"
  by (simp add: stats_change_def counter_defs)

lemma handle_event_stats_change:
  assumes "handle_event env event d = Ret (d', resp)"
  shows "stats_change (dc_run_stats d) (dc_run_stats d') (reports env event d)"
  using assms
proof (cases "(env, event, d)" rule: handle_event.cases)
  case (9 env t st d)
  with assms have "handle_finished env t st d = Ret (d', resp)" by auto
  then show ?thesis
    by (rule handle_finished_effect) (use 9 in \<open>auto simp: finish_test_def stats_change_finished\<close>)
next
  case (10 env t r d)
  then show ?thesis
    using assms stats_change_skipped [of "dc_run_stats d" r t] by (auto simp: handle_skipped_def callback_def)
next
  case (5 env t fr d)
  then show ?thesis
    using assms by (auto simp: event_defs split: if_splits) (simp_all add: stats_change_def counter_defs)
qed (auto simp: event_defs stats_change_same stats_change_setup elim!: begin_cancel_effect split: handler_splits)

lemma handle_event_stats_reported:
  assumes "handle_event env event d = Ret (d', resp)" "stats_reported d"
  shows "stats_reported d'"
  using handle_event_reports [OF assms(1)] handle_event_stats_change [OF assms(1)] assms(2)
  by (fastforce simp: stats_reported_def stats_change_def tally_def)

lemma respond_reported:
  assumes "respond env resp s = Ret s'"
  shows "since_sub_run (rs_dispatcher s') = since_sub_run (rs_dispatcher s)"
proof -
  have "\<exists>evs. dc_reported (rs_dispatcher s') = dc_reported (rs_dispatcher s) @ evs \<and>
      list_all (\<lambda>e. \<not> tallied e) evs"
    using assms
    by (cases "(env, resp, s)" rule: respond.cases)
      (auto simp: bind_outcome_eq_Ret Let_def collect_info_def broadcast_request_def callback_def
        fold_callback list_all_iff dest!: disjI1 [THEN pause_stopwatch_frame]
        dest: disjI2 [THEN pause_stopwatch_frame])
  then show ?thesis using since_sub_run_silent by blast
qed

lemma run_step_reported:
  assumes "run_step env event s = Ret s'"
  obtains d r where "handle_event env event (rs_dispatcher s) = Ret (d, r)"
    "core (rs_dispatcher s') = core d" "since_sub_run (rs_dispatcher s') = since_sub_run d"
  using assms
  by (fastforce simp: run_step_def bind_outcome_eq_Ret Let_def dest: respond_core respond_reported split: if_splits)

lemma stats_reported_core:
  "core d = core d' \<Longrightarrow> since_sub_run d = since_sub_run d' \<Longrightarrow> stats_reported d = stats_reported d'"
  using core_eq [of d d'] by (simp add: stats_reported_def tally_def)

lemma stats_reported_default:
  "dc_run_stats d = default_run_stats\<lparr>initial_run_count := n\<rparr> \<Longrightarrow> since_sub_run d = [] \<Longrightarrow> stats_reported d"
  by (simp add: stats_reported_def tally_def default_run_stats_def counter_defs)

lemma initial_since: "since_sub_run (rs_dispatcher (initial_state cfg)) = []"
  by (auto simp: initial_state_def start_run_def dispatcher_new_def enter_run_def since_sub_run_def
      stress_sub_run_started_def callback_def Let_def split: option.splits)

lemma next_sub_run_since: "next_sub_run env s = Ret (Some s') \<Longrightarrow> since_sub_run (rs_dispatcher s') = []"
  by (elim next_sub_run_effect) (simp add: since_sub_run_def)

lemma reachable_stats_reported:
  assumes "reachable cfg ok s"
  shows "stats_reported (rs_dispatcher s)"
  using assms
proof induction
  case reachable_start
  then show ?case using stats_reported_default initial_since initial_state_fields(1) by blast
next
  case (reachable_step s env event s')
  from reachable_step.hyps(4) show ?case
    by (rule run_step_reported) (use handle_event_stats_reported reachable_step.IH stats_reported_core in blast)
next
  case (reachable_sub_run s env s')
  note since = next_sub_run_since [OF reachable_sub_run.hyps(2)]
  from reachable_sub_run.hyps(2) show ?case
    by (rule next_sub_run_effect) (rule stats_reported_default [OF _ since], simp)
qed



section \<open>Timers and panics\<close>

definition timers_in_sync :: "run_state \<Rightarrow> bool" where
  "timers_in_sync s \<longleftrightarrow>
     (sl_is_paused (rs_sleep s) \<longleftrightarrow> sw_is_paused (dc_stopwatch (rs_dispatcher s))) \<and>
     (\<forall>cx. dc_stress_cx (rs_dispatcher s) = Some cx \<longrightarrow>
        (sw_is_paused (ss_sub_stopwatch cx) \<longleftrightarrow> sw_is_paused (dc_stopwatch (rs_dispatcher s))))"

lemma begin_cancel_resp:
  "begin_cancel reason event d = (d', resp) \<Longrightarrow> resp = RespNone \<or> resp = RespCancel event"
  by (auto simp: begin_cancel_def Let_def split: if_splits)

lemma handle_finished_resp:
  "handle_finished env t st d = Ret (d', resp) \<Longrightarrow> resp = RespNone \<or> (\<exists>c. resp = RespCancel c)"
  by (auto simp: handle_finished_def bind_outcome_eq_Ret Let_def
      split: option.split_asm terminate_mode.split_asm) (metis begin_cancel_resp terminate_mode.exhaust)

lemma handle_event_timers:
  assumes "handle_event env event d = Ret (d', resp)"
  shows "dc_stress_cx d' = dc_stress_cx d \<and>
    (case resp of
       RespJobControl JobStop \<Rightarrow> \<not> sw_is_paused (dc_stopwatch d) \<and> sw_is_paused (dc_stopwatch d')
     | RespJobControl JobContinue \<Rightarrow> sw_is_paused (dc_stopwatch d) \<and> \<not> sw_is_paused (dc_stopwatch d')
     | _ \<Rightarrow> dc_stopwatch d' = dc_stopwatch d)"
  using assms
proof (cases "(env, event, d)" rule: handle_event.cases)
  case (9 env t st d)
  with assms have h: "handle_finished env t st d = Ret (d', resp)" by auto
  note r = handle_finished_resp [OF h]
  from h show ?thesis by (rule handle_finished_effect) (use 9 r in auto)
qed (auto simp: event_defs begin_cancel_def set_cancel_reason_def dest!: sw.pause_RetD sw.resume_RetD
      split: handler_splits)

lemma respond_timers:
  assumes "respond env resp s = Ret s'"
    "case resp of
       RespJobControl JobStop \<Rightarrow> sw_is_paused (dc_stopwatch (rs_dispatcher s))
     | RespJobControl JobContinue \<Rightarrow> \<not> sw_is_paused (dc_stopwatch (rs_dispatcher s))
     | _ \<Rightarrow> timers_in_sync s"
  shows "timers_in_sync s'"
  using assms
  by (cases "(env, resp, s)" rule: respond.cases)
    (auto simp: bind_outcome_eq_Ret Let_def timers_in_sync_def pause_stopwatch_def resume_stopwatch_def
      dest!: sw.pause_RetD sw.resume_RetD sl.pause_RetD sl.resume_RetD split: option.splits)

lemma run_step_timers:
  assumes "run_step env event s = Ret s'" "timers_in_sync s"
  shows "timers_in_sync s'"
proof -
  define s0 where "s0 = (if event = GlobalTimeoutEv then s\<lparr>rs_fired := True\<rparr> else s)"
  have s0: "timers_in_sync s0" "rs_dispatcher s0 = rs_dispatcher s"
    using assms(2) by (simp_all add: s0_def timers_in_sync_def)
  obtain d r where h: "handle_event env event (rs_dispatcher s) = Ret (d, r)"
    and resp: "respond env r (s0\<lparr>rs_dispatcher := d\<rparr>) = Ret s'"
    using assms(1) s0(2) by (auto simp: run_step_def bind_outcome_eq_Ret Let_def simp flip: s0_def)
  show ?thesis
    by (rule respond_timers [OF resp])
      (use handle_event_timers [OF h] s0 in \<open>auto simp: timers_in_sync_def
          split: handle_event_response.splits job_control_event.splits\<close>)
qed

text \<open>The events that break the protocol between the executor and the dispatcher, and a third signal.\<close>

fun event_panics :: "env \<Rightarrow> internal_event \<Rightarrow> dispatcher \<Rightarrow> bool" where
  "event_panics env (Executor (Started t fr)) d =
     (cancel_reason_of (dc_run_stats d) = None \<and> env_ack env \<and> t \<in> fst ` set (dc_running_tests d))"
| "event_panics env (Executor (AttemptFailedWillRetry t st delay)) d = (t \<notin> fst ` set (dc_running_tests d))"
| "event_panics env (Executor (Finished t st)) d = (t \<notin> fst ` set (dc_running_tests d))"
| "event_panics env (SignalEv (SigShutdown (ShutdownSignal sig))) d = (dc_signal_count d = Some CountTwice)"
| "event_panics env event d = False"

lemma map_of_None_keys: "map_of xs t = None \<longleftrightarrow> t \<notin> fst ` set xs"
  by (simp add: map_of_eq_None_iff)

lemma ctx_finish_ne: "statuses (ctx_finish c st) \<noteq> []"
  by (simp add: ctx_finish_def)

lemma handle_finished_Panic:
  "handle_finished env t st d = Panic \<longleftrightarrow> t \<notin> fst ` set (dc_running_tests d)"
proof (cases "map_of (dc_running_tests d) t")
  case None
  then show ?thesis using map_of_None_keys [of "dc_running_tests d" t] by (simp add: handle_finished_def finish_test_def)
next
  case (Some c)
  then obtain stats where "on_test_finished (dc_run_stats d) (ctx_finish c st) = Ret stats"
    using on_test_finished_Ret [OF ctx_finish_ne] by blast
  with Some map_of_None_keys [of "dc_running_tests d" t] show ?thesis
    by (simp add: handle_finished_def finish_test_def Let_def)
qed

lemma handle_event_Panic: "handle_event env event d = Panic \<longleftrightarrow> event_panics env event d"
  by (cases "(env, event, d)" rule: handle_event.cases; cases event rule: internal_event.exhaust)
    (auto simp: handle_finished_Panic handle_started_def new_test_def callback_def
      test_attempt_failed_will_retry_def handle_signal_event_def increment_signal_count_def
      bind_outcome_eq_Panic Let_def sw.pause_Panic_iff sw.resume_Panic_iff split: handler_splits)


lemma respond_Ret:
  assumes "case resp of
       RespJobControl JobStop \<Rightarrow> \<not> sl_is_paused (rs_sleep s) \<and>
         (\<forall>cx. dc_stress_cx (rs_dispatcher s) = Some cx \<longrightarrow> \<not> sw_is_paused (ss_sub_stopwatch cx))
     | RespJobControl JobContinue \<Rightarrow> sl_is_paused (rs_sleep s) \<and>
         (\<forall>cx. dc_stress_cx (rs_dispatcher s) = Some cx \<longrightarrow> sw_is_paused (ss_sub_stopwatch cx))
     | _ \<Rightarrow> True"
  shows "respond env resp s \<noteq> Panic"
  using assms
  by (cases "(env, resp, s)" rule: respond.cases)
    (auto simp: bind_outcome_eq_Panic Let_def pause_stopwatch_def resume_stopwatch_def sw.pause_Panic_iff
      sw.resume_Panic_iff sl.pause_Panic_iff sl.resume_Panic_iff split: option.splits)

lemma run_step_Panic:
  assumes "timers_in_sync s"
  shows "run_step env event s = Panic \<longleftrightarrow> event_panics env event (rs_dispatcher s)"
proof -
  define s0 where "s0 = (if event = GlobalTimeoutEv then s\<lparr>rs_fired := True\<rparr> else s)"
  have s0: "rs_sleep s0 = rs_sleep s" "rs_dispatcher s0 = rs_dispatcher s" by (simp_all add: s0_def)
  have "respond env r (s0\<lparr>rs_dispatcher := d\<rparr>) \<noteq> Panic"
    if h: "handle_event env event (rs_dispatcher s) = Ret (d, r)" for d r
    using handle_event_timers [OF h] assms
    by (intro respond_Ret) (auto simp: timers_in_sync_def s0 split: handle_event_response.splits job_control_event.splits)
  then show ?thesis
    by (auto simp: run_step_def bind_outcome_eq_Panic handle_event_Panic s0(2) Let_def simp flip: s0_def)
qed

lemma run_step_stress_None:
  assumes "run_step env event s = Ret s'"
  shows "dc_stress_cx (rs_dispatcher s') = None \<longleftrightarrow> dc_stress_cx (rs_dispatcher s) = None"
proof -
  obtain s0 d r where h: "handle_event env event (rs_dispatcher s) = Ret (d, r)"
    and resp: "respond env r (s0\<lparr>rs_dispatcher := d\<rparr>) = Ret s'"
    using assms by (auto simp: run_step_def bind_outcome_eq_Ret Let_def split: if_splits)
  have "dc_stress_cx (rs_dispatcher s') = None \<longleftrightarrow> dc_stress_cx d = None"
    using resp
    by (cases "(env, r, s0\<lparr>rs_dispatcher := d\<rparr>)" rule: respond.cases)
      (auto simp: bind_outcome_eq_Ret Let_def dest!: disjI1 [THEN pause_stopwatch_frame]
        dest: disjI2 [THEN pause_stopwatch_frame])
  then show ?thesis using handle_event_timers [OF h] by simp
qed

text \<open>
  In a stress run the timers of a sub-run, the global timeout and the stopwatch of the sub-run,
  start running while the stopwatch of the whole run may be paused. They are paused together,
  and only while the whole run is.
\<close>

definition timers_follow :: "run_state \<Rightarrow> bool" where
  "timers_follow s \<longleftrightarrow>
     (sl_is_paused (rs_sleep s) \<longrightarrow> sw_is_paused (dc_stopwatch (rs_dispatcher s))) \<and>
     (\<forall>cx. dc_stress_cx (rs_dispatcher s) = Some cx \<longrightarrow>
        (sw_is_paused (ss_sub_stopwatch cx) \<longleftrightarrow> sl_is_paused (rs_sleep s)))"

lemma sync_follow: "timers_in_sync s \<Longrightarrow> timers_follow s"
  by (auto simp: timers_in_sync_def timers_follow_def)

definition timers_lag :: "run_state \<Rightarrow> bool" where
  "timers_lag s \<longleftrightarrow> sw_is_paused (dc_stopwatch (rs_dispatcher s)) \<and> \<not> sl_is_paused (rs_sleep s)"

lemma follow_sync: "timers_follow s \<Longrightarrow> timers_in_sync s \<or> timers_lag s"
  by (auto simp: timers_in_sync_def timers_follow_def timers_lag_def)

lemma respond_follow:
  assumes "respond env resp s = Ret s'"
    "case resp of
       RespJobControl JobStop \<Rightarrow> sw_is_paused (dc_stopwatch (rs_dispatcher s))
     | RespJobControl JobContinue \<Rightarrow> \<not> sw_is_paused (dc_stopwatch (rs_dispatcher s))
     | _ \<Rightarrow> timers_follow s"
  shows "timers_follow s'"
  using assms
  by (cases "(env, resp, s)" rule: respond.cases)
    (auto simp: bind_outcome_eq_Ret Let_def timers_follow_def pause_stopwatch_def resume_stopwatch_def
      dest!: sw.pause_RetD sw.resume_RetD sl.pause_RetD sl.resume_RetD split: option.splits)

lemma run_step_follow:
  assumes "run_step env event s = Ret s'" "timers_follow s"
  shows "timers_follow s'"
proof -
  define s0 where "s0 = (if event = GlobalTimeoutEv then s\<lparr>rs_fired := True\<rparr> else s)"
  have s0: "timers_follow s0" "rs_dispatcher s0 = rs_dispatcher s"
    using assms(2) by (simp_all add: s0_def timers_follow_def)
  obtain d r where h: "handle_event env event (rs_dispatcher s) = Ret (d, r)"
    and resp: "respond env r (s0\<lparr>rs_dispatcher := d\<rparr>) = Ret s'"
    using assms(1) s0(2) by (auto simp: run_step_def bind_outcome_eq_Ret Let_def simp flip: s0_def)
  show ?thesis
    by (rule respond_follow [OF resp])
      (use handle_event_timers [OF h] s0 in \<open>auto simp: timers_follow_def
          split: handle_event_response.splits job_control_event.splits\<close>)
qed

lemma reachable_timers_follow: "reachable cfg ok s \<Longrightarrow> timers_follow s"
proof (induction rule: reachable.induct)
  case reachable_start
  then show ?case
    by (auto simp: timers_follow_def initial_state_fields stress_new_def split: option.splits)
next
  case (reachable_step s env event s')
  then show ?case using run_step_follow by blast
next
  case (reachable_sub_run s env s')
  from reachable_sub_run.hyps(2) show ?case
    by (elim next_sub_run_effect) (simp add: timers_follow_def mark_completed_def Let_def)
qed

lemma continue_response:
  "handle_event env event d = Ret (d', RespJobControl JobContinue) \<Longrightarrow> event = SignalEv (SigJobControl JobContinue)"
  by (cases "(env, event, d)" rule: handle_event.cases)
    (auto simp: event_defs begin_cancel_def set_cancel_reason_def dest!: handle_finished_resp split: handler_splits)

lemma run_step_Panic_follow:
  assumes "timers_follow s"
  shows "run_step env event s = Panic \<longleftrightarrow>
    event_panics env event (rs_dispatcher s) \<or> event = SignalEv (SigJobControl JobContinue) \<and> timers_lag s"
proof (cases "timers_lag s")
  case False
  then show ?thesis using follow_sync [OF assms] run_step_Panic by blast
next
  case True
  then have lag: "sw_is_paused (dc_stopwatch (rs_dispatcher s))" "\<not> sl_is_paused (rs_sleep s)"
    by (simp_all add: timers_lag_def)
  show ?thesis
  proof (cases "event = SignalEv (SigJobControl JobContinue)")
    case True
    obtain w where "sw_resume (env_now env) (dc_stopwatch (rs_dispatcher s)) = Ret w"
      using lag(1) sw.resume_paused by metis
    moreover have "sl_resume n (rs_sleep s) = Panic" for n using lag(2) by (simp add: sl.resume_Panic_iff)
    ultimately show ?thesis
      using True lag(1) \<open>timers_lag s\<close> by (simp add: run_step_def handle_signal_event_def)
  next
    case False
    define s0 where "s0 = (if event = GlobalTimeoutEv then s\<lparr>rs_fired := True\<rparr> else s)"
    have s0: "rs_sleep s0 = rs_sleep s" "rs_dispatcher s0 = rs_dispatcher s" by (simp_all add: s0_def)
    have "respond env r (s0\<lparr>rs_dispatcher := d\<rparr>) \<noteq> Panic"
      if h: "handle_event env event (rs_dispatcher s) = Ret (d, r)" for d r
      using handle_event_timers [OF h] lag continue_response [of env event "rs_dispatcher s" d] h False
      by (intro respond_Ret) (auto split: handle_event_response.splits job_control_event.splits)
    then show ?thesis using False
      by (auto simp: run_step_def bind_outcome_eq_Panic handle_event_Panic s0(2) Let_def simp flip: s0_def)
  qed
qed

lemma reachable_single_timers:
  assumes "reachable cfg ok s" "rc_stress cfg = None"
  shows "dc_stress_cx (rs_dispatcher s) = None \<and> timers_in_sync s"
  using assms
proof induction
  case reachable_start
  then show ?case by (simp add: timers_in_sync_def initial_state_fields stress_new_def)
next
  case (reachable_step s env event s')
  then show ?case using run_step_timers run_step_stress_None by blast
next
  case (reachable_sub_run s env s')
  then show ?case by (auto elim: next_sub_run_effect)
qed


section \<open>Signals\<close>

fun is_shutdown_signal :: "internal_event \<Rightarrow> bool" where
  "is_shutdown_signal (SignalEv (SigShutdown (ShutdownSignal _))) = True"
| "is_shutdown_signal _ = False"

fun count_value :: "signal_count option \<Rightarrow> nat" where
  "count_value None = 0"
| "count_value (Some CountOnce) = 1"
| "count_value (Some CountTwice) = 2"

lemma count_value_le: "count_value c \<le> 2"
  by (cases c rule: count_value.cases) simp_all

lemma handle_event_signal_count:
  assumes "handle_event env event d = Ret (d', resp)"
  shows "count_value (dc_signal_count d') =
     count_value (dc_signal_count d) + (if is_shutdown_signal event then 1 else 0)"
  using assms
proof (cases "(env, event, d)" rule: handle_event.cases)
  case (9 env t st d)
  with assms have h: "handle_finished env t st d = Ret (d', resp)" by auto
  from h show ?thesis by (rule handle_finished_effect) (use 9 in auto)
qed (auto simp: event_defs elim!: begin_cancel_effect split: handler_splits)

lemma cancel_rank_top: "cancel_rank (Some SecondSignal) \<le> cancel_rank r \<Longrightarrow> r = Some SecondSignal"
proof (cases r)
  case (Some x)
  then show "cancel_rank (Some SecondSignal) \<le> cancel_rank r \<Longrightarrow> r = Some SecondSignal"
    by (cases x) (simp_all add: cancel_rank_def)
qed (simp add: cancel_rank_def)

lemma handle_event_second_signal:
  assumes "handle_event env event d = Ret (d', resp)"
    "count_value (dc_signal_count d) = 2 \<Longrightarrow> cancel_reason_of (dc_run_stats d) = Some SecondSignal"
    "count_value (dc_signal_count d') = 2"
  shows "cancel_reason_of (dc_run_stats d') = Some SecondSignal"
proof (cases "is_shutdown_signal event")
  case True
  then obtain sig where ev: "event = SignalEv (SigShutdown (ShutdownSignal sig))"
    by (cases event rule: is_shutdown_signal.cases) auto
  have "dc_signal_count d = Some CountOnce"
    using handle_event_signal_count [OF assms(1)] assms(3) True
    by (cases "dc_signal_count d" rule: count_value.cases) simp_all
  then have "(d', resp) = begin_cancel (event_to_cancel_reason (ShutdownSignal sig)) (CancelSignal Twice)
      (d\<lparr>dc_signal_count := Some CountTwice\<rparr>)"
    using assms(1) by (simp add: ev handle_signal_event_def increment_signal_count_def)
  then show ?thesis by (simp add: begin_cancel_def callback_def set_cancel_reason_def Let_def)
next
  case False
  then have "cancel_reason_of (dc_run_stats d) = Some SecondSignal"
    using assms(2,3) handle_event_signal_count [OF assms(1)] by simp
  then have "cancel_rank (Some SecondSignal) \<le> cancel_rank (cancel_reason_of (dc_run_stats d'))"
    using handle_event_cancel_mono [OF assms(1)] by simp
  then show ?thesis by (rule cancel_rank_top)
qed

lemma run_all_signals:
  assumes "run_all evs s = Ret s'"
    "count_value (dc_signal_count (rs_dispatcher s)) = 2 \<Longrightarrow> reason_of s = Some SecondSignal"
  shows "count_value (dc_signal_count (rs_dispatcher s')) =
       count_value (dc_signal_count (rs_dispatcher s)) + length (filter (is_shutdown_signal \<circ> snd) evs)"
    "count_value (dc_signal_count (rs_dispatcher s')) = 2 \<Longrightarrow> reason_of s' = Some SecondSignal"
proof -
  have "count_value (dc_signal_count (rs_dispatcher s')) =
       count_value (dc_signal_count (rs_dispatcher s)) + length (filter (is_shutdown_signal \<circ> snd) evs) \<and>
     (count_value (dc_signal_count (rs_dispatcher s')) = 2 \<longrightarrow> reason_of s' = Some SecondSignal)"
    using assms
  proof (induction evs s rule: run_all.induct)
    case (2 env event xs s)
    then obtain s1 where s1: "run_step env event s = Ret s1" "run_all xs s1 = Ret s'"
      by (auto simp: bind_outcome_eq_Ret)
    obtain d r where h: "handle_event env event (rs_dispatcher s) = Ret (d, r)"
      and c: "core (rs_dispatcher s1) = core d"
      using run_step_core [OF s1(1)] by blast
    have "count_value (dc_signal_count (rs_dispatcher s1)) = 2 \<Longrightarrow> reason_of s1 = Some SecondSignal"
      using handle_event_second_signal [OF h] "2.prems"(2) core_eq [OF c] by simp
    from "2.IH" [OF s1(2) this] handle_event_signal_count [OF h] core_eq [OF c]
    show ?case by simp
  qed simp
  then show "count_value (dc_signal_count (rs_dispatcher s')) =
       count_value (dc_signal_count (rs_dispatcher s)) + length (filter (is_shutdown_signal \<circ> snd) evs)"
    "count_value (dc_signal_count (rs_dispatcher s')) = 2 \<Longrightarrow> reason_of s' = Some SecondSignal"
    by blast+
qed


section \<open>Reruns\<close>

definition expected_left :: "run_config \<Rightarrow> dispatcher \<Rightarrow> rerun_context" where
  "expected_left cfg d = (case rc_expected cfg of
     None \<Rightarrow> InitialRun | Some e \<Rightarrow> Rerun (e - {t. GrantTest t \<in> set (dc_unblocked d)}))"

lemma expected_left_cong: "dc_unblocked d = dc_unblocked d' \<Longrightarrow> expected_left cfg d = expected_left cfg d'"
  by (simp add: expected_left_def split: option.split)

lemma handle_event_rerun:
  assumes "handle_event env event d = Ret (d', resp)" "dc_rerun_cx d = expected_left cfg d"
  shows "dc_rerun_cx d' = expected_left cfg d'"
  using assms
proof (cases "(env, event, d)" rule: handle_event.cases)
  case (9 env t st d)
  with assms have h: "handle_finished env t st d = Ret (d', resp)" by auto
  from h show ?thesis by (rule handle_finished_effect) (use 9 assms(2) expected_left_cong [of d' d cfg] in simp)
qed (auto simp: event_defs expected_left_def mark_seen_def elim!: begin_cancel_effect split: handler_splits)

lemma reachable_rerun:
  assumes "reachable cfg ok s"
  shows "dc_rerun_cx (rs_dispatcher s) = expected_left cfg (rs_dispatcher s)"
  using assms
proof induction
  case reachable_start
  then show ?case by (simp add: initial_state_fields expected_left_def rerun_new_def split: option.splits)
next
  case (reachable_step s env event s')
  from run_step_core [OF reachable_step.hyps(4)] obtain d r
    where h: "handle_event env event (rs_dispatcher s) = Ret (d, r)" and c: "core (rs_dispatcher s') = core d"
    by blast
  from handle_event_rerun [OF h reachable_step.IH] show ?case
    using core_eq(8) [OF c] expected_left_cong [OF core_eq(2) [OF c]] by metis
next
  case (reachable_sub_run s env s')
  from reachable_sub_run.hyps(2) show ?case
    by (rule next_sub_run_effect) (use reachable_sub_run.IH expected_left_cong [of "rs_dispatcher s'" "rs_dispatcher s" cfg] in simp)
qed



section \<open>Stress runs\<close>

text \<open>
  The protocol of the executor with the dispatcher: it starts each test of the list at most
  once in a sub-run, reports on running tests only, and is done with a sub-run once no test
  runs.
\<close>

definition started_tests :: "dispatcher \<Rightarrow> test_instance_id set" where
  "started_tests d = {t. \<exists>st n. RTestStarted t st n \<in> set (since_sub_run d)}"

fun executor_protocol :: "test_instance_id set \<Rightarrow> run_state \<Rightarrow> internal_event option \<Rightarrow> bool" where
  "executor_protocol tests s (Some (Executor (Started t fr))) =
     (t \<in> tests \<and> t \<notin> started_tests (rs_dispatcher s))"
| "executor_protocol tests s (Some (Executor (AttemptFailedWillRetry t st delay))) =
     (t \<in> fst ` set (dc_running_tests (rs_dispatcher s)))"
| "executor_protocol tests s (Some (Executor (Finished t st))) =
     (t \<in> fst ` set (dc_running_tests (rs_dispatcher s)))"
| "executor_protocol tests s None = (dc_running_tests (rs_dispatcher s) = [])"
| "executor_protocol tests s _ = True"

definition started_inv :: "test_instance_id set \<Rightarrow> dispatcher \<Rightarrow> bool" where
  "started_inv tests d \<longleftrightarrow>
     fst ` set (dc_running_tests d) \<subseteq> started_tests d \<and> started_tests d \<subseteq> tests \<and>
     finished_count (dc_run_stats d) + length (dc_running_tests d) \<le> card (started_tests d)"

lemma started_tests_silent:
  "since_sub_run d' = evs @ since_sub_run d \<Longrightarrow> \<forall>t st n. RTestStarted t st n \<notin> set evs \<Longrightarrow>
     started_tests d' = started_tests d"
  by (auto simp: started_tests_def)

lemma started_tests_one:
  "since_sub_run d' = RTestStarted t st n # since_sub_run d \<Longrightarrow> started_tests d' = insert t (started_tests d)"
  by (auto simp: started_tests_def)

lemma handle_event_running:
  assumes "handle_event env event d = Ret (d', resp)"
    "\<forall>t fr. event \<noteq> Executor (Started t fr)" "\<forall>t st. event \<noteq> Executor (Finished t st)"
  shows "map fst (dc_running_tests d') = map fst (dc_running_tests d)"
  using assms(1)
proof (cases "(env, event, d)" rule: handle_event.cases)
  case (5 env t fr d)
  with assms(2) show ?thesis by blast
next
  case (9 env t st d)
  with assms(3) show ?thesis by blast
qed (auto simp: event_defs elim!: begin_cancel_effect split: handler_splits)

lemma filter_key_length:
  fixes xs :: "('k::linorder \<times> 'c) list"
  assumes "sorted_wrt (<) (map fst xs)" "map_of xs t = Some c"
  shows "length (filter (\<lambda>(k, _). k \<noteq> t) xs) + 1 = length xs"
  using assms
proof (induction xs)
  case (Cons x xs)
  obtain k c' where x: "x = (k, c')" by fastforce
  show ?case
  proof (cases "k = t")
    case True
    from Cons.prems(1) x have less: "\<forall>y\<in>fst ` set xs. k < y" by simp
    have "t \<notin> fst ` set xs" using bspec [OF less, of t] True by auto
    then have "filter (\<lambda>(k, _). k \<noteq> t) xs = xs" by (induction xs) auto
    with True x show ?thesis by simp
  next
    case False
    with Cons x show ?thesis by simp
  qed
qed simp

lemma handle_started_inv:
  assumes "handle_event env (Executor (Started t fr)) d = Ret (d', resp)" "started_inv tests d"
    "t \<in> tests" "t \<notin> started_tests d" "finite tests"
  shows "started_inv tests d'"
proof (cases "cancel_reason_of (dc_run_stats d) = None")
  case True
  have st: "started_tests d' = insert t (started_tests d)"
    using handle_event_reports [OF assms(1)] True by (simp add: started_tests_one)
  have fin: "finite (started_tests d)" using assms(2,5) finite_subset by (auto simp: started_inv_def)
  have run: "dc_run_stats d' = dc_run_stats d" "dc_running_tests d' = dc_running_tests d \<or>
      (\<exists>c. dc_running_tests d' = insort_key fst (t, c) (dc_running_tests d))"
    using assms(1) True by (auto simp: event_defs split: if_splits)
  then have "fst ` set (dc_running_tests d') \<subseteq> insert t (fst ` set (dc_running_tests d))"
    "length (dc_running_tests d') \<le> length (dc_running_tests d) + 1"
    by (auto simp: set_insort_key)
  moreover have "insert t (fst ` set (dc_running_tests d)) \<subseteq> insert t (started_tests d)"
    using assms(2) by (auto simp: started_inv_def)
  ultimately show ?thesis
    using assms(2-4) fin run(1) by (simp add: started_inv_def st) blast
next
  case False
  then have "d' = d" using assms(1) by (auto simp: event_defs)
  with assms(2) show ?thesis by simp
qed

lemma handle_finished_inv:
  assumes "handle_event env (Executor (Finished t st)) d = Ret (d', resp)" "started_inv tests d"
    "sorted_wrt (<) (map fst (dc_running_tests d))"
  shows "started_inv tests d'"
proof -
  have h: "handle_finished env t st d = Ret (d', resp)" using assms(1) by simp
  have started: "started_tests d' = started_tests d"
    by (rule started_tests_silent [OF handle_event_reports [OF assms(1)]])
      (auto split: Prelude.outcome.splits prod.splits)
  from h show ?thesis
  proof (rule handle_finished_effect)
    fix c stats r evs sent
    assume c: "map_of (dc_running_tests d) t = Some c"
      and st: "on_test_finished (dc_run_stats d) (ctx_finish c st) = Ret stats"
      and d': "d' = d\<lparr>dc_running_tests := filter (\<lambda>(k, _). k \<noteq> t) (dc_running_tests d),
       dc_run_stats := stats\<lparr>cancel_reason_of := r\<rparr>,
       dc_reported := dc_reported d @ RTestFinished t (ctx_finish c st) stats
         (length (filter (\<lambda>(k, _). k \<noteq> t) (dc_running_tests d))) # evs, dc_sent := sent\<rparr>"
    have "dc_running_tests d' = filter (\<lambda>(k, _). k \<noteq> t) (dc_running_tests d)"
      "finished_count (dc_run_stats d') = finished_count (dc_run_stats d) + 1"
      using d' on_test_finished_counts [OF st] by simp_all
    then show ?thesis
      using assms(2) filter_key_length [OF assms(3) c] by (auto simp: started_inv_def started)
  qed
qed

lemma handle_event_started_inv:
  assumes "handle_event env event (rs_dispatcher s) = Ret (d', resp)" "started_inv tests (rs_dispatcher s)"
    "executor_protocol tests s (Some event)" "finite tests"
    "sorted_wrt (<) (map fst (dc_running_tests (rs_dispatcher s)))"
  shows "started_inv tests d'"
proof (cases "(\<exists>t fr. event = Executor (Started t fr)) \<or> (\<exists>t st. event = Executor (Finished t st))")
  case True
  then show ?thesis
    using assms handle_started_inv [of env _ _ "rs_dispatcher s" d' resp tests]
      handle_finished_inv [of env _ _ "rs_dispatcher s" d' resp tests] by auto
next
  case False
  then have no: "\<forall>t fr. event \<noteq> Executor (Started t fr)" "\<forall>t st. event \<noteq> Executor (Finished t st)" by blast+
  have r: "\<forall>t st n. RTestStarted t st n \<notin> set (reports env event (rs_dispatcher s))"
    "filter (is_finished_test (\<lambda>_. True)) (reports env event (rs_dispatcher s)) = []"
    using no by (cases "(env, event, rs_dispatcher s)" rule: reports.cases; simp)+
  have "started_tests d' = started_tests (rs_dispatcher s)"
    by (rule started_tests_silent [OF handle_event_reports [OF assms(1)] r(1)])
  moreover have "finished_count (dc_run_stats d') = finished_count (dc_run_stats (rs_dispatcher s))"
    using handle_event_stats_change [OF assms(1)] r(2) by (simp add: stats_change_def counter_defs)
  moreover note handle_event_running [OF assms(1) no]
  ultimately show ?thesis using assms(2) by (simp add: started_inv_def flip: set_map) (metis length_map)
qed

lemma started_inv_core: "core d = core d' \<Longrightarrow> since_sub_run d = since_sub_run d' \<Longrightarrow>
    started_inv tests d = started_inv tests d'"
  using core_eq [of d d'] by (simp add: started_inv_def started_tests_def)

lemma started_inv_default:
  "since_sub_run d = [] \<Longrightarrow> dc_running_tests d = [] \<Longrightarrow> finished_count (dc_run_stats d) = 0 \<Longrightarrow> started_inv tests d"
  by (simp add: started_inv_def started_tests_def)

lemma reachable_started_inv:
  assumes "reachable cfg (executor_protocol tests) s" "finite tests"
  shows "started_inv tests (rs_dispatcher s)"
  using assms
proof induction
  case reachable_start
  then show ?case
    by (intro started_inv_default) (simp_all add: initial_since initial_state_fields default_run_stats_def)
next
  case (reachable_step s env event s')
  have "sorted_wrt (<) (map fst (dc_running_tests (rs_dispatcher s)))"
    using reachable_dispatch_inv [OF reachable_step.hyps(1)] by (simp add: dispatch_inv_def)
  with reachable_step.hyps(4) show ?case
    by (elim run_step_reported)
      (use handle_event_started_inv reachable_step started_inv_core in blast)
next
  case (reachable_sub_run s env s')
  note since = next_sub_run_since [OF reachable_sub_run.hyps(2)]
  from reachable_sub_run.hyps(2) show ?case
    by (rule next_sub_run_effect)
      (rule started_inv_default [OF since], use reachable_sub_run.hyps(3) in \<open>simp_all add: default_run_stats_def\<close>)
qed


text \<open>The outcome so far and the counters of a stress run, before each sub-run.\<close>

definition stress_inv :: "nat \<Rightarrow> stress_state \<Rightarrow> bool" where
  "stress_inv run_count cx \<longleftrightarrow>
     \<not> ss_cancelled cx \<and> ss_failed cx \<le> ss_completed cx \<and> (ss_outcome cx = None \<longleftrightarrow> ss_completed cx = 0) \<and>
     (\<forall>r. ss_outcome cx = Some r \<longrightarrow>
        (if ss_failed cx > 0 then \<exists>step. r = OFailed step
         else r = (if run_count = 0 then ONoTestsRun else OSuccess)))"

lemma summarize_complete:
  assumes "stats_wf st" "setup_scripts_initial_count st = 0" "finished_count st \<le> initial_run_count st"
  shows "summarize_final st = FSuccess \<Longrightarrow> initial_run_count st > 0"
    "summarize_final st = FNoTestsRun \<Longrightarrow> initial_run_count st = 0"
  using assms by (auto simp: summarize_final_def summarize_failure_def split: if_splits option.splits cancel_reason.splits)

lemma mark_completed_fields:
  "ss_completed (fst (mark_completed now summary cx)) = ss_completed cx + 1"
  "ss_outcome (fst (mark_completed now summary cx)) = Some (case ss_outcome cx of
      Some so_far \<Rightarrow> combine so_far (from_final_stats summary) | None \<Rightarrow> from_final_stats summary)"
  "ss_failed (fst (mark_completed now summary cx)) = ss_failed cx + (if is_failed_stats summary then 1 else 0)"
  "ss_cancelled (fst (mark_completed now summary cx)) = (ss_cancelled cx \<or> is_cancelled_stats summary)"
  "ss_condition (fst (mark_completed now summary cx)) = ss_condition cx"
  by (auto simp: mark_completed_def Let_def split: final_run_stats.splits)

lemma combine_failed: "\<exists>step. combine (OFailed a) r = OFailed step" "\<exists>step. combine r (OFailed a) = OFailed step"
  by (cases r; simp)+

lemma mark_completed_inv:
  assumes "stress_inv (initial_run_count st) cx" "\<not> is_cancelled_stats (summarize_final st)"
    "stats_wf st" "setup_scripts_initial_count st = 0" "finished_count st \<le> initial_run_count st"
  shows "stress_inv (initial_run_count st) (fst (mark_completed now (summarize_final st) cx))"
proof (cases "summarize_final st")
  case FSuccess
  with summarize_complete(1) [OF assms(3-5)] assms(1) show ?thesis
    by (auto simp: stress_inv_def mark_completed_fields split: option.splits)
next
  case FNoTestsRun
  with summarize_complete(2) [OF assms(3-5)] assms(1) show ?thesis
    by (auto simp: stress_inv_def mark_completed_fields split: option.splits)
next
  case (FFailed kind)
  with assms(1) show ?thesis
    by (auto simp: stress_inv_def mark_completed_fields combine_failed split: option.splits)
next
  case (FCancelled r k)
  with assms(2) show ?thesis by simp
qed

text \<open>Responses to events leave the counters of the stress run alone.\<close>

lemma run_step_stress:
  assumes "run_step env event s = Ret s'" "dc_stress_cx (rs_dispatcher s') = Some cx'"
  shows "\<exists>cx w. dc_stress_cx (rs_dispatcher s) = Some cx \<and> cx' = cx\<lparr>ss_sub_stopwatch := w\<rparr>"
proof -
  obtain s0 d r where h: "handle_event env event (rs_dispatcher s) = Ret (d, r)"
    and resp: "respond env r (s0\<lparr>rs_dispatcher := d\<rparr>) = Ret s'"
    using assms by (auto simp: run_step_def bind_outcome_eq_Ret Let_def split: if_splits)
  have self: "\<exists>w. cx = cx\<lparr>ss_sub_stopwatch := w\<rparr>" for cx :: stress_state
    by (rule exI [of _ "ss_sub_stopwatch cx"]) simp
  have "\<exists>cx w. dc_stress_cx d = Some cx \<and> cx' = cx\<lparr>ss_sub_stopwatch := w\<rparr>"
    using resp assms(2)
    by (cases "(env, r, s0\<lparr>rs_dispatcher := d\<rparr>)" rule: respond.cases,
        auto simp: bind_outcome_eq_Ret Let_def intro: self
          dest!: disjI1 [THEN pause_stopwatch_frame] disjI2 [THEN pause_stopwatch_frame], blast+)
  then show ?thesis using handle_event_timers [OF h] by simp
qed

lemma stress_inv_stopwatch [simp]: "stress_inv n (cx\<lparr>ss_sub_stopwatch := w\<rparr>) = stress_inv n cx"
  by (simp add: stress_inv_def)


lemma reachable_finished_le:
  assumes "reachable cfg (executor_protocol tests) s" "finite tests" "card tests = rc_run_count cfg"
  shows "finished_count (dc_run_stats (rs_dispatcher s)) \<le> initial_run_count (dc_run_stats (rs_dispatcher s))"
proof -
  have "started_inv tests (rs_dispatcher s)" using reachable_started_inv [OF assms(1,2)] .
  then have "finished_count (dc_run_stats (rs_dispatcher s)) \<le> card (started_tests (rs_dispatcher s))"
    "card (started_tests (rs_dispatcher s)) \<le> card tests"
    using assms(2) by (auto simp: started_inv_def intro: card_mono)
  then show ?thesis
    using assms(3) reachable_dispatch_inv [OF assms(1)] by (simp add: dispatch_inv_def)
qed

lemma reachable_stress_inv:
  assumes "reachable cfg (executor_protocol tests) s" "finite tests" "card tests = rc_run_count cfg"
    "dc_stress_cx (rs_dispatcher s) = Some cx"
  shows "stress_inv (rc_run_count cfg) cx"
  using assms
proof (induction arbitrary: cx)
  case reachable_start
  then show ?case by (auto simp: initial_state_fields stress_new_def stress_inv_def)
next
  case (reachable_step s env event s')
  from run_step_stress [OF reachable_step.hyps(4) reachable_step.prems(3)] reachable_step show ?case by auto
next
  case (reachable_sub_run s env s')
  have inv: "dispatch_inv cfg (rs_dispatcher s)" using reachable_dispatch_inv [OF reachable_sub_run.hyps(1)] .
  have le: "finished_count (dc_run_stats (rs_dispatcher s)) \<le> initial_run_count (dc_run_stats (rs_dispatcher s))"
    using reachable_finished_le reachable_sub_run by blast
  from reachable_sub_run.hyps(2) show ?case
  proof (rule next_sub_run_effect)
    fix cx0 p0 el p
    assume cx0: "dc_stress_cx (rs_dispatcher s) = Some cx0"
      and nc: "\<not> is_cancelled_stats (summarize_final (dc_run_stats (rs_dispatcher s)))"
      and s': "rs_dispatcher s' = (rs_dispatcher s)\<lparr>
       dc_stress_cx := Some (fst (mark_completed (env_now env) (summarize_final (dc_run_stats (rs_dispatcher s))) cx0)),
       dc_run_stats := default_run_stats\<lparr>initial_run_count := initial_run_count (dc_run_stats (rs_dispatcher s))\<rparr>,
       dc_reported := dc_reported (rs_dispatcher s) @
         [RStressSubRunFinished p0 el (dc_run_stats (rs_dispatcher s)), RStressSubRunStarted p]\<rparr>"
    have "stress_inv (rc_run_count cfg) cx0" using reachable_sub_run.IH reachable_sub_run.prems(1,2) cx0 by blast
    then show ?case
      using mark_completed_inv [OF _ nc _ _ le, of cx0 "env_now env"] inv s' reachable_sub_run.prems(3)
      by (simp add: dispatch_inv_def)
  qed
qed

text \<open>After the last sub-run, the counters summarise to the accumulated outcome.\<close>

lemma stress_summary_step:
  assumes "stress_inv (initial_run_count st) cx" "stats_wf st" "setup_scripts_initial_count st = 0"
    "finished_count st \<le> initial_run_count st"
    "cx' = fst (mark_completed now (summarize_final st) cx)"
  shows "\<exists>r. ss_outcome cx' = Some r \<and>
     stress_summarize_final (stress_run_stats_of (summarize_final st) cx') = stress_summary_for_outcome r"
proof (cases "is_cancelled_stats (summarize_final st)")
  case True
  then obtain reason kind where "summarize_final st = FCancelled reason kind"
    by (cases "summarize_final st") auto
  then show ?thesis
    using assms(1,5)
    by (auto simp: stress_inv_def mark_completed_fields stress_summarize_final_def stress_run_stats_of_def Let_def
        split: option.splits if_splits)
next
  case False
  have "stress_inv (initial_run_count st) cx'" using mark_completed_inv [OF assms(1) False assms(2-4)] assms(5) by simp
  moreover have "ss_outcome cx' \<noteq> None" "ss_failed cx' = 0 \<Longrightarrow> \<not> is_failed_stats (summarize_final st)"
    using assms(5) by (auto simp: mark_completed_fields split: if_splits)
  ultimately show ?thesis
    using False summarize_complete [OF assms(2-4)]
    by (cases "summarize_final st")
      (auto simp: stress_inv_def stress_summarize_final_def stress_run_stats_of_def Let_def split: if_splits)
qed

end
