(* ===== verification/Unit_Props.thy ===== *)
theory Unit_Props
  imports Unit_Run
begin

text \<open>
  The properties of a running unit: its slow timeout, its termination, and job control.
\<close>

section \<open>Job control in the loop of an attempt\<close>

text \<open>While the loop itself takes the events, the stopwatch and the slow timer pause together.\<close>

definition unit_in_sync :: "unit_state \<Rightarrow> bool" where
  "unit_in_sync u \<longleftrightarrow> (sl_is_paused (un_interval u) \<longleftrightarrow> sw_is_paused (un_stopwatch u))"

lemma send_signal_fields [simp]:
  "un_phase (send_signal s u) = un_phase u" "un_stopwatch (send_signal s u) = un_stopwatch u"
  "un_interval (send_signal s u) = un_interval u" "un_reaped (send_signal s u) = un_reaped u"
  "un_status (send_signal s u) = un_status u" "un_timeout_hit (send_signal s u) = un_timeout_hit u"
  "un_slow_events (send_signal s u) = un_slow_events u" "un_signals (send_signal s u) = un_signals u @ [s]"
  by (simp_all add: send_signal_def)

lemma job_control_fields [simp]:
  "un_phase (job_control_child e u) = un_phase u" "un_stopwatch (job_control_child e u) = un_stopwatch u"
  "un_interval (job_control_child e u) = un_interval u" "un_reaped (job_control_child e u) = un_reaped u"
  "un_status (job_control_child e u) = un_status u" "un_timeout_hit (job_control_child e u) = un_timeout_hit u"
  by (simp_all add: job_control_child_def)

lemma after_terminate_fields [simp]:
  "un_stopwatch (after_terminate cfg r u) = un_stopwatch u"
  "un_interval (after_terminate cfg r u) = un_interval u"
  "un_signals (after_terminate cfg r u) = un_signals u"
  "un_timeout_hit (after_terminate cfg r u) = un_timeout_hit u"
  "un_slow_events (after_terminate cfg r u) = un_slow_events u"
  by (auto simp: after_terminate_def Let_def split: internal_terminate_reason.splits)

lemma terminate_child_fields [simp]:
  "un_stopwatch (terminate_child now cfg r u) = un_stopwatch u"
  "un_interval (terminate_child now cfg r u) = un_interval u"
  "un_timeout_hit (terminate_child now cfg r u) = un_timeout_hit u"
  "un_slow_events (terminate_child now cfg r u) = un_slow_events u"
  by (simp_all add: terminate_child_def Let_def)

lemma sl_reset_paused [simp]: "sl_is_paused (sl_reset_last_duration now s) = sl_is_paused s"
  by (simp add: sl_reset_last_duration_def sl_reset_def sl_is_paused_def Let_def split: sleep_pause_state.splits)

lemma running_step_sync:
  assumes "running_step now cfg event u = Ret u'" "unit_in_sync u"
  shows "unit_in_sync u'"
  using assms
  by (auto simp: running_step_def handle_signal_request_def interval_fired_def unit_in_sync_def
      bind_outcome_eq_Ret Let_def dest!: sw.pause_RetD sw.resume_RetD sl.pause_RetD sl.resume_RetD
      split: unit_event.splits run_unit_request.splits signal_request.splits if_splits)

lemma running_step_Panic:
  assumes "unit_in_sync u"
  shows "running_step now cfg event u = Panic \<longleftrightarrow>
    event = Request (SignalReq ReqStop) \<and> sw_is_paused (un_stopwatch u)"
  using assms
  by (auto simp: running_step_def handle_signal_request_def unit_in_sync_def
      bind_outcome_eq_Panic Let_def sw.pause_Panic_iff sw.resume_Panic_iff sl.pause_Panic_iff sl.resume_Panic_iff
      split: unit_event.splits run_unit_request.splits signal_request.splits)


section \<open>The status of an attempt\<close>

text \<open>Only a timeout sets the status of an attempt, and nothing changes it again.\<close>

lemma after_terminate_status:
  "un_status (after_terminate cfg r u) = (if r = ReasonTimeout then Some (Timeout (on_timeout cfg)) else un_status u)"
  by (auto simp: after_terminate_def Let_def split: internal_terminate_reason.splits)

text \<open>While the child is terminated for a timeout, no status has been set yet.\<close>

definition status_inv :: "slow_settings \<Rightarrow> unit_state \<Rightarrow> bool" where
  "status_inv cfg u \<longleftrightarrow>
     (un_status u = None \<or> un_status u = Some (Timeout (on_timeout cfg)))"

lemma terminate_child_signal_status [simp]:
  "un_status (terminate_child now cfg (ReasonSignal req) u) = un_status u"
  by (simp add: terminate_child_def after_terminate_status Let_def)

lemma terminate_child_status:
  assumes "un_status (terminate_child now cfg r u) \<noteq> Some (Timeout (on_timeout cfg))"
  shows "un_status (terminate_child now cfg r u) = un_status u"
proof (cases r)
  case ReasonTimeout
  with assms show ?thesis
    by (cases "un_reaped u"; cases "grace_period cfg = 0")
      (simp_all add: terminate_child_def after_terminate_status timeout_terminate_method_def Let_def)
qed simp

lemma unit_step_status:
  assumes "unit_step now cfg event u = Ret u'"
  shows "un_status u' = un_status u \<or> un_status u' = Some (Timeout (on_timeout cfg))"
  using assms
  by (auto simp: unit_step_def running_step_def terminate_step_def handle_signal_request_def interval_fired_def
      bind_outcome_eq_Ret after_terminate_status terminate_child_status Let_def
      split: unit_phase.splits unit_event.splits run_unit_request.splits signal_request.splits if_splits)

lemma unit_run_status:
  assumes "unit_run cfg evs u = Ret u'" "status_inv cfg u"
  shows "status_inv cfg u' \<and> (un_status u \<noteq> None \<longrightarrow> un_status u' = un_status u)"
  using assms
proof (induction cfg evs u rule: unit_run.induct)
  case (2 cfg now event xs u)
  then obtain u1 where u1: "unit_step now cfg event u = Ret u1" "unit_run cfg xs u1 = Ret u'"
    by (auto simp: bind_outcome_eq_Ret)
  have "status_inv cfg u1 \<and> (un_status u \<noteq> None \<longrightarrow> un_status u1 = un_status u)"
    using unit_step_status [OF u1(1)] "2.prems"(2) by (auto simp: status_inv_def)
  with "2.IH" [OF u1(2)] show ?case by simp
qed simp


section \<open>The slow timeout\<close>

lemma slow_schedule:
  assumes "un_phase u = UnitRunning" "un_status u = None" "\<not> disable_timeouts cfg" "grace_period cfg \<noteq> 0"
    "\<not> un_reaped u" "terminate_after cfg = Some n" "un_timeout_hit u + length ts < n"
  shows "\<exists>u'. unit_run cfg (map (\<lambda>t. (t, IntervalFired)) ts) u = Ret u' \<and> un_phase u' = UnitRunning \<and>
     un_status u' = None \<and> \<not> un_reaped u' \<and> un_signals u' = un_signals u \<and>
     un_timeout_hit u' = un_timeout_hit u + length ts \<and>
     un_slow_events u' = un_slow_events u @
       map (\<lambda>i. (i * slow_period cfg, None)) [un_timeout_hit u + 1..<un_timeout_hit u + length ts + 1]"
  using assms
proof (induction ts arbitrary: u)
  case (Cons t ts)
  define u1 where "u1 = u\<lparr>un_slow_after := Some (slow_period cfg), un_timeout_hit := un_timeout_hit u + 1,
     un_slow_events := un_slow_events u @ [((un_timeout_hit u + 1) * slow_period cfg, None)],
     un_interval := sl_reset_last_duration t (un_interval u)\<rparr>"
  have step: "unit_step t cfg IntervalFired u = Ret u1"
    using Cons.prems by (simp add: unit_step_def running_step_def interval_fired_def u1_def Let_def)
  have "\<exists>u'. unit_run cfg (map (\<lambda>t. (t, IntervalFired)) ts) u1 = Ret u' \<and> un_phase u' = UnitRunning \<and>
     un_status u' = None \<and> \<not> un_reaped u' \<and> un_signals u' = un_signals u1 \<and>
     un_timeout_hit u' = un_timeout_hit u1 + length ts \<and>
     un_slow_events u' = un_slow_events u1 @
       map (\<lambda>i. (i * slow_period cfg, None)) [un_timeout_hit u1 + 1..<un_timeout_hit u1 + length ts + 1]"
    using Cons.prems by (intro Cons.IH) (simp_all add: u1_def)
  moreover have "[un_timeout_hit u + 1..<un_timeout_hit u + length (t # ts) + 1] =
     (un_timeout_hit u + 1) # [un_timeout_hit u + 2..<un_timeout_hit u + length (t # ts) + 1]"
    by (simp add: upt_rec)
  ultimately show ?case using step by (auto simp: u1_def)
qed simp



section \<open>Properties\<close>

text \<open>
  C20. The slow timeout of an attempt: with \<open>terminate-after\<close> \<open>n\<close> and a grace period, the
  first \<open>n - 1\<close> expirations of the slow timer only report the test as slow, at the multiples
  of the period; the \<open>n\<close>-th sends SIGTERM and starts the grace period; if the child is still
  there when the grace period ends it is killed, and the result of the attempt is a timeout
  however the child exits.
\<close>

theorem slow_timeout_terminates:
  assumes "\<not> disable_timeouts cfg" "grace_period cfg \<noteq> 0" "terminate_after cfg = Some n"
    "length ts + 1 = n"
  shows "\<exists>u u1. unit_run cfg (map (\<lambda>t. (t, IntervalFired)) ts) (unit_new t0 cfg) = Ret u \<and>
     un_signals u = [] \<and> un_slow_events u = map (\<lambda>i. (i * slow_period cfg, None)) [1..<n] \<and>
     unit_step t cfg IntervalFired u = Ret u1 \<and> un_signals u1 = [SendTerminate TTerm] \<and>
     last (un_slow_events u1) = (n * slow_period cfg, Some (grace_period cfg)) \<and>
     un_phase u1 = Terminating ReasonTimeout (sleep_new t (grace_period cfg)) (stopwatch_new t) \<and>
     (\<forall>t' st errs leaked lr. \<exists>u2. unit_step t' cfg GraceFired u1 = Ret u2 \<and>
        un_signals u2 = [SendTerminate TTerm, SendTerminate TKill] \<and>
        attempt_result u2 st errs leaked lr = Timeout (on_timeout cfg))"
proof -
  obtain u where u: "unit_run cfg (map (\<lambda>t. (t, IntervalFired)) ts) (unit_new t0 cfg) = Ret u"
    "un_phase u = UnitRunning" "un_status u = None" "\<not> un_reaped u" "un_signals u = []"
    "un_timeout_hit u = length ts"
    "un_slow_events u = map (\<lambda>i. (i * slow_period cfg, None)) [1..<length ts + 1]"
    using slow_schedule [of "unit_new t0 cfg" cfg n ts] assms by (auto simp: unit_new_def)
  define u1 where "u1 = terminate_child t cfg ReasonTimeout (u\<lparr>un_slow_after := Some (slow_period cfg),
     un_timeout_hit := n, un_slow_events := un_slow_events u @ [(n * slow_period cfg, Some (grace_period cfg))]\<rparr>)"
  have step: "unit_step t cfg IntervalFired u = Ret u1"
    using u assms by (auto simp: unit_step_def running_step_def interval_fired_def Let_def u1_def)
  have u1: "un_signals u1 = [SendTerminate TTerm]"
    "last (un_slow_events u1) = (n * slow_period cfg, Some (grace_period cfg))"
    "un_phase u1 = Terminating ReasonTimeout (sleep_new t (grace_period cfg)) (stopwatch_new t)"
    using u assms by (simp_all add: u1_def terminate_child_def timeout_terminate_method_def send_signal_def Let_def)
  have "\<exists>u2. unit_step t' cfg GraceFired u1 = Ret u2 \<and> un_signals u2 = [SendTerminate TTerm, SendTerminate TKill] \<and>
     attempt_result u2 st errs leaked lr = Timeout (on_timeout cfg)" for t' st errs leaked lr
    using u1 by (simp add: unit_step_def terminate_step_def attempt_result_def after_terminate_status)
  with u step u1 assms(4) show ?thesis by auto
qed

text \<open>Settings for the examples: three periods of 60 seconds, then 10 seconds of grace.\<close>

definition example_slow :: slow_settings where
  "example_slow = \<lparr>slow_period = 60000000000, terminate_after = Some 3, grace_period = 10000000000,
     on_timeout = SlowFail, disable_timeouts = False, send_sigtstp = True\<rparr>"

lemmas unit_eval = unit_step_def running_step_def terminate_step_def handle_signal_request_def
  interval_fired_def terminate_child_def after_terminate_def timeout_terminate_method_def
  shutdown_terminate_method_def send_signal_def job_control_child_def Let_def

theorem slow_timeout_terminates_witness:
  "\<exists>u u1. unit_run example_slow [(60000000000, IntervalFired), (120000000000, IntervalFired)]
       (unit_new 0 example_slow) = Ret u \<and>
     un_slow_events u = [(60000000000, None), (120000000000, None)] \<and>
     unit_step 180000000000 example_slow IntervalFired u = Ret u1 \<and> un_signals u1 = [SendTerminate TTerm]"
  using slow_timeout_terminates [of example_slow 3 "[60000000000, 120000000000]" 0 180000000000]
  by (auto simp: example_slow_def upt_rec)

text \<open>
  The status of an attempt is set only by its timeout and is final: over any sequence of
  events that a new unit survives, a status is \<open>Timeout\<close> with the configured result, and
  otherwise the result follows the exit status, the errors and the leak detection.
\<close>

theorem attempt_status_final:
  assumes "unit_run cfg evs (unit_new t0 cfg) = Ret u" "unit_run cfg evs' u = Ret u'"
  shows "(un_status u = None \<or> un_status u = Some (Timeout (on_timeout cfg))) \<and>
     (un_status u \<noteq> None \<longrightarrow> attempt_result u' st errs leaked lr = Timeout (on_timeout cfg)) \<and>
     (un_status u' = None \<longrightarrow> attempt_result u' st errs leaked lr = create_execution_result st errs leaked lr)"
proof -
  have "status_inv cfg u" using unit_run_status [OF assms(1)] by (simp add: status_inv_def unit_new_def)
  moreover from this have "un_status u \<noteq> None \<longrightarrow> un_status u' = un_status u"
    using unit_run_status [OF assms(2)] by blast
  ultimately show ?thesis by (auto simp: attempt_result_def status_inv_def)
qed

theorem attempt_status_final_witness:
  "\<exists>u. unit_run example_slow [(1, IntervalFired), (2, IntervalFired), (3, IntervalFired), (4, ChildExited)]
        (unit_new 0 example_slow) = Ret u \<and>
     attempt_result u (Some ExitSuccess) False False LeakPass = Timeout SlowFail"
proof -
  let ?evs = "[(1, IntervalFired), (2, IntervalFired), (3, IntervalFired), (4, ChildExited)]"
  obtain u where u: "unit_run example_slow ?evs (unit_new 0 example_slow) = Ret u" "un_status u \<noteq> None"
    by (simp add: unit_eval unit_new_def example_slow_def)
  then show ?thesis
    using attempt_status_final [OF u(1), of "[]" u "Some ExitSuccess" False False LeakPass]
    by (simp add: example_slow_def)
qed

text \<open>
  In the loop of an attempt, as long as the child is not being terminated, stop and
  continue requests keep the stopwatch and the slow timer paused together, so the only event
  that panics is a stop request to a unit that is already stopped, which the dispatcher's
  debouncing excludes.
\<close>

theorem job_control_in_sync:
  assumes "unit_in_sync u" "un_phase u = UnitRunning"
  shows "(unit_step now cfg event u = Panic \<longleftrightarrow>
       event = Request (SignalReq ReqStop) \<and> sw_is_paused (un_stopwatch u)) \<and>
     (\<forall>u'. unit_step now cfg event u = Ret u' \<longrightarrow> unit_in_sync u')"
  using assms running_step_sync running_step_Panic by (auto simp: unit_step_def)

theorem job_control_in_sync_witness:
  "unit_step 5 example_slow (Request (SignalReq ReqStop)) (unit_new 0 example_slow) \<noteq> Panic"
  using job_control_in_sync [of "unit_new 0 example_slow" 5 example_slow "Request (SignalReq ReqStop)"]
  by (simp add: unit_in_sync_def unit_new_def)

text \<open>
  A stop and a continue request while a unit is being terminated: the child is stopped and
  continued, but the condition on the continue request is inverted, so that the grace timer
  and the stopwatch stay paused. The grace period then ends some thirty years later, and a
  second stop request panics.
\<close>

theorem grace_period_lost_after_continue:
  assumes "un_phase u = Terminating reason sleep waiting" "\<not> un_reaped u"
    "\<not> sl_is_paused sleep" "\<not> sw_is_paused waiting" "\<not> sw_is_paused (un_stopwatch u)"
  shows "\<exists>u' sleep' waiting'.
     unit_run cfg [(t1, Request (SignalReq ReqStop)), (t2, Request (SignalReq ReqContinue))] u = Ret u' \<and>
     un_signals u' = un_signals u @ [SendStop, SendContinue] \<and>
     un_phase u' = Terminating reason sleep' waiting' \<and>
     sl_is_paused sleep' \<and> sl_deadline sleep' = t1 + far_future_duration \<and>
     sw_is_paused (un_stopwatch u') \<and>
     unit_step t3 cfg (Request (SignalReq ReqStop)) u' = Panic"
proof -
  obtain sw where sw: "sw_pause t1 (un_stopwatch u) = Ret sw" "sw_is_paused sw"
    using assms(5) sw.pause_running by blast
  obtain w where w: "sw_pause t1 waiting = Ret w" "sw_is_paused w"
    using assms(4) sw.pause_running by blast
  obtain sl where sl: "sl_pause t1 sleep = Ret sl" "sl_is_paused sl" "sl_deadline sl = t1 + far_future_duration"
    using assms(3) sl.pause_running [of sleep t1] by (auto simp: sl_pause_def split: sleep_pause_state.splits)
  show ?thesis
    using assms sw w sl by (simp add: unit_step_def terminate_step_def job_control_child_def send_signal_def
        sw.pause_Panic_iff [THEN iffD2])
qed

theorem grace_period_lost_after_continue_witness:
  "\<exists>u u'. unit_run example_slow [(1, Request (SignalReq (ReqShutdown (Once TERMINATE))))] (unit_new 0 example_slow)
       = Ret u \<and>
     unit_run example_slow [(2, Request (SignalReq ReqStop)), (3, Request (SignalReq ReqContinue))] u = Ret u' \<and>
     un_signals u' = [SendTerminate TTerm, SendStop, SendContinue] \<and>
     \<not> unit_event_ready (4 + 10 * grace_period example_slow) GraceFired u'"
proof -
  obtain u where u: "unit_run example_slow [(1, Request (SignalReq (ReqShutdown (Once TERMINATE))))]
       (unit_new 0 example_slow) = Ret u" "un_signals u = [SendTerminate TTerm]" "\<not> un_reaped u"
    "\<not> sw_is_paused (un_stopwatch u)"
    "un_phase u = Terminating (ReasonSignal (Once TERMINATE)) (sleep_new 1 10000000000) (stopwatch_new 1)"
    by (simp add: unit_eval unit_new_def example_slow_def TERMINATE_def)
  obtain u' sleep' waiting' where u':
    "unit_run example_slow [(2, Request (SignalReq ReqStop)), (3, Request (SignalReq ReqContinue))] u = Ret u'"
    "un_signals u' = un_signals u @ [SendStop, SendContinue]"
    "un_phase u' = Terminating (ReasonSignal (Once TERMINATE)) sleep' waiting'"
    "sl_deadline sleep' = 2 + far_future_duration"
    using grace_period_lost_after_continue [OF u(5,3) _ _ u(4), of example_slow 2 3 5] new_running(2) new_running(1) by blast
  have "\<not> unit_event_ready (4 + 10 * grace_period example_slow) GraceFired u'"
    using u'(3,4) by (simp add: sl_fires_def far_future_duration_def example_slow_def)
  with u(1,2) u'(1,2) show ?thesis by auto
qed

text \<open>
  A continue request that reaches a unit that is being terminated and was not stopped
  before, which the comment at this place expects, panics.
\<close>

theorem continue_while_terminating_panics:
  assumes "un_phase u = Terminating reason sleep waiting" "\<not> sl_is_paused sleep"
    "\<not> sw_is_paused (un_stopwatch u)"
  shows "unit_step now cfg (Request (SignalReq ReqContinue)) u = Panic"
  using assms by (simp add: unit_step_def terminate_step_def sw.resume_Panic_iff [THEN iffD2])

theorem continue_while_terminating_panics_witness:
  "unit_run example_slow [(1, Request (SignalReq (ReqShutdown (Once TERMINATE)))),
     (2, Request (SignalReq ReqContinue))] (unit_new 0 example_slow) = Panic"
proof -
  obtain u where u: "unit_run example_slow [(1, Request (SignalReq (ReqShutdown (Once TERMINATE))))]
       (unit_new 0 example_slow) = Ret u" "\<not> sw_is_paused (un_stopwatch u)"
    "un_phase u = Terminating (ReasonSignal (Once TERMINATE)) (sleep_new 1 10000000000) (stopwatch_new 1)"
    by (simp add: unit_eval unit_new_def example_slow_def TERMINATE_def)
  then show ?thesis
    using continue_while_terminating_panics [OF u(3) _ u(2), of 2 example_slow] by (simp add: bind_outcome_eq_Ret)
qed

text \<open>
  Two shutdown requests in a row: the first sends the signal of the request and waits for
  the grace period, the second kills the child at once.
\<close>

theorem second_shutdown_kills:
  assumes "un_phase u = UnitRunning" "\<not> un_reaped u" "grace_period cfg \<noteq> 0" "req \<noteq> Twice"
  shows "\<exists>u1 u2. unit_step t1 cfg (Request (SignalReq (ReqShutdown req))) u = Ret u1 \<and>
     un_signals u1 = un_signals u @ [SendTerminate (shutdown_terminate_method req (grace_period cfg))] \<and>
     un_phase u1 = Terminating (ReasonSignal req) (sleep_new t1 (grace_period cfg)) (stopwatch_new t1) \<and>
     unit_step t2 cfg (Request (SignalReq (ReqShutdown req'))) u1 = Ret u2 \<and>
     un_signals u2 = un_signals u1 @ [SendTerminate TKill]"
proof -
  obtain e where e: "req = Once e" using assms(4) by (cases req) auto
  have "shutdown_terminate_method req (grace_period cfg) \<noteq> TKill"
    using assms(3) by (auto simp: e shutdown_terminate_method_def split: shutdown_event.splits shutdown_signal_event.splits)
  then show ?thesis
    using assms by (simp add: unit_step_def running_step_def handle_signal_request_def terminate_child_def
        terminate_step_def send_signal_def Let_def)
qed

theorem second_shutdown_kills_witness:
  "\<exists>u1 u2. unit_step 1 example_slow (Request (SignalReq (ReqShutdown (Once TERMINATE)))) (unit_new 0 example_slow)
       = Ret u1 \<and>
     unit_step 2 example_slow (Request (SignalReq (ReqShutdown Twice))) u1 = Ret u2 \<and>
     un_signals u2 = [SendTerminate TTerm, SendTerminate TKill]"
  using second_shutdown_kills [of "unit_new 0 example_slow" example_slow "Once TERMINATE" 1 2 Twice]
  by (auto simp: unit_new_def example_slow_def TERMINATE_def shutdown_terminate_method_def)

end
