(* ===== verification/Dispatch_Claims.thy ===== *)
theory Dispatch_Claims
  imports Dispatch_Props Unit_Props
begin

text \<open>
  What the dispatcher guarantees over a whole run, with examples, and how its requests act on
  the units.
\<close>

section \<open>Example values\<close>

definition ex_env :: "nat \<Rightarrow> env" where
  "ex_env t = \<lparr>env_now = t, env_after = t, env_ack = True, env_alive = (\<lambda>_. True), env_responses = 1\<rparr>"

definition ex_cfg :: "max_fail \<Rightarrow> stress_condition option \<Rightarrow> test_instance_id set option \<Rightarrow> run_config" where
  "ex_cfg mf stress expected =
     \<lparr>rc_now = 0, rc_run_count = 0, rc_max_fail = mf, rc_global_timeout = 1000, rc_stress = stress,
      rc_expected = expected\<rparr>"

definition ex_test :: "string \<Rightarrow> test_instance_id" where
  "ex_test name = (RustBinaryId ''crate'', TestCaseName name)"

definition ex_failure :: execute_status where
  "ex_failure = \<lparr>es_retry_data = \<lparr>attempt = 1, total_attempts = 1\<rparr>, es_result = Fail (ExitCode 101) False,
     es_time_taken = 1, es_is_slow = False, es_delay_before_start = 0\<rparr>"

lemmas run_eval = run_step_def initial_state_def start_run_def stress_progress_of_def dispatcher_new_def
  enter_run_def stress_new_def rerun_new_def default_run_stats_def ex_cfg_def ex_env_def event_ready_def
  event_defs handle_finished_def finish_test_def ctx_finish_def begin_cancel_def set_cancel_reason_def
  broadcast_request_def do_broadcast_def running_units_def immediate_shutdown_def mark_seen_def
  on_test_finished_def last_status_def count_failed_def failed_count_def stopwatch_new_def sw_is_paused_def
  sleep_new_def setup_scripts_running_def running_def ex_failure_def


section \<open>Cancellation\<close>

text \<open>
  C1. Once a run is cancelled, whatever events follow in the sub-run, in whatever order,
  no setup script, test or retry is let start again, no test is added to the running ones, and
  the severity of the cancellation never decreases.
\<close>

theorem cancelled_run_starts_nothing:
  assumes "run_all evs s = Ret s'" "cancel_reason_of (dc_run_stats (rs_dispatcher s)) = Some r"
  shows "dc_unblocked (rs_dispatcher s') = dc_unblocked (rs_dispatcher s) \<and>
    fst ` set (dc_running_tests (rs_dispatcher s')) \<subseteq> fst ` set (dc_running_tests (rs_dispatcher s)) \<and>
    (\<exists>r'. cancel_reason_of (dc_run_stats (rs_dispatcher s')) = Some r' \<and> r \<le> r')"
proof -
  have mono: "cancel_rank (Some r) \<le> cancel_rank (reason_of s')" using run_all_cancel [OF assms(1)] assms(2) by simp
  then obtain r' where "reason_of s' = Some r'" by (auto simp: cancel_rank_def split: option.splits)
  with mono run_all_cancel [OF assms(1)] assms(2) show ?thesis
    by (auto simp: cancel_rank_def less_eq_cancel_reason_def)
qed

theorem cancelled_run_starts_nothing_witness:
  "\<exists>s s'. run_all [(ex_env 1, ReportCancel)] (initial_state (ex_cfg All None None)) = Ret s \<and>
     run_all [(ex_env 2, Executor (Started (ex_test ''a'') FlakyPass)), (ex_env 3, GlobalTimeoutEv)] s = Ret s' \<and>
     dc_unblocked (rs_dispatcher s') = []"
proof -
  obtain s where s: "run_all [(ex_env 1, ReportCancel)] (initial_state (ex_cfg All None None)) = Ret s"
    "cancel_reason_of (dc_run_stats (rs_dispatcher s)) = Some ReportError" "dc_unblocked (rs_dispatcher s) = []"
    by (simp add: run_eval)
  obtain s' where s': "run_all [(ex_env 2, Executor (Started (ex_test ''a'') FlakyPass)), (ex_env 3, GlobalTimeoutEv)] s
      = Ret s'"
    using s(2) by (simp add: run_step_def handle_started_def begin_cancel_def less_cancel_reason_def
        set_cancel_reason_def callback_def Let_def)
  show ?thesis using s s' cancelled_run_starts_nothing [OF s' s(2)] by auto
qed

text \<open>
  C2. Fail-fast: in every reachable state in which the number of failed tests has reached the
  \<open>max-fail\<close> limit, the run is cancelled, at least as severely as the terminate mode asks, and
  nothing is let start in whatever follows in the sub-run.
\<close>

theorem fail_fast_stops_run:
  assumes "reachable cfg ok s" "max_fail_wf (rc_max_fail cfg)"
    "is_exceeded (rc_max_fail cfg) (failed_count (dc_run_stats (rs_dispatcher s))) = Some m"
  shows "(\<exists>r. cancel_reason_of (dc_run_stats (rs_dispatcher s)) = Some r \<and>
      (case m of Wait \<Rightarrow> TestFailure | Immediate \<Rightarrow> TestFailureImmediate) \<le> r) \<and>
    (\<forall>evs s'. run_all evs s = Ret s' \<longrightarrow> dc_unblocked (rs_dispatcher s') = dc_unblocked (rs_dispatcher s))"
proof -
  have "dc_max_fail (rs_dispatcher s) = rc_max_fail cfg"
    using reachable_dispatch_inv [OF assms(1)] by (simp add: dispatch_inv_def)
  then have le: "cancel_rank (Some (case m of Wait \<Rightarrow> TestFailure | Immediate \<Rightarrow> TestFailureImmediate))
      \<le> cancel_rank (reason_of s)"
    using reachable_fail_fast [OF assms(1,2)] assms(3) by (simp add: fail_fast_inv_def)
  then obtain r where r: "reason_of s = Some r" by (auto simp: cancel_rank_def split: option.splits)
  with le have "(case m of Wait \<Rightarrow> TestFailure | Immediate \<Rightarrow> TestFailureImmediate) \<le> r"
    by (simp add: cancel_rank_def less_eq_cancel_reason_def)
  then show ?thesis using r run_all_cancel [of _ s] by auto
qed

lemma ex_started_and_failed:
  "\<exists>s1 s2. run_step (ex_env 1) (Executor (Started (ex_test ''a'') FlakyPass))
       (initial_state (ex_cfg (Count 1 m) None None)) = Ret s1 \<and>
     run_step (ex_env 2) (Executor (Finished (ex_test ''a'') ex_failure)) s1 = Ret s2 \<and>
     failed_count (dc_run_stats (rs_dispatcher s2)) = 1"
  by (cases m) (simp_all add: run_eval ex_test_def)

theorem fail_fast_stops_run_witness:
  "\<exists>s. reachable (ex_cfg (Count 1 Immediate) None None) any_event s \<and>
     cancel_reason_of (dc_run_stats (rs_dispatcher s)) \<noteq> None"
proof -
  obtain s1 s2 where s: "run_step (ex_env 1) (Executor (Started (ex_test ''a'') FlakyPass))
       (initial_state (ex_cfg (Count 1 Immediate) None None)) = Ret s1"
    "run_step (ex_env 2) (Executor (Finished (ex_test ''a'') ex_failure)) s1 = Ret s2"
    "failed_count (dc_run_stats (rs_dispatcher s2)) = 1"
    using ex_started_and_failed by blast
  have "reachable (ex_cfg (Count 1 Immediate) None None) any_event s1"
    by (rule reachable_step [OF reachable_start _ _ s(1)]) (simp_all add: event_ready_def any_event_def ex_env_def)
  then have r: "reachable (ex_cfg (Count 1 Immediate) None None) any_event s2"
    by (rule reachable_step [OF _ _ _ s(2)]) (simp_all add: event_ready_def any_event_def ex_env_def)
  with fail_fast_stops_run [OF r, of Immediate] s(3) show ?thesis by (auto simp: ex_cfg_def I64_MAX_def)
qed

text \<open>
  A setup script that does not succeed cancels the run, whatever the fail-fast setting:
  nothing is let start afterwards in the sub-run.
\<close>

theorem failed_setup_script_stops_run:
  assumes "run_step env (Executor (SetupScriptFinished script index n result)) s = Ret s1"
    "\<not> is_success result" "run_all evs s1 = Ret s'"
  shows "cancel_reason_of (dc_run_stats (rs_dispatcher s1)) \<noteq> None \<and>
    dc_unblocked (rs_dispatcher s') = dc_unblocked (rs_dispatcher s)"
proof -
  obtain d r where h: "handle_event env (Executor (SetupScriptFinished script index n result)) (rs_dispatcher s) = Ret (d, r)"
    and c: "core (rs_dispatcher s1) = core d"
    using run_step_core [OF assms(1)] by blast
  have d: "cancel_reason_of (dc_run_stats d) \<noteq> None \<and> dc_unblocked d = dc_unblocked (rs_dispatcher s)"
    using h assms(2)
    by (auto simp: event_defs cancel_rank_def elim!: begin_cancel_effect split: if_splits option.splits)
  then have "reason_of s1 \<noteq> None" "dc_unblocked (rs_dispatcher s1) = dc_unblocked (rs_dispatcher s)"
    using core_eq [OF c] by simp_all
  then show ?thesis using run_all_cancel [OF assms(3)] by simp
qed

theorem failed_setup_script_stops_run_witness:
  "\<exists>s1 s'. run_step (ex_env 1) (Executor (SetupScriptFinished ''db'' 0 1 ExecFail))
       (initial_state (ex_cfg All None None)) = Ret s1 \<and>
     run_all [(ex_env 2, Executor (Started (ex_test ''a'') FlakyPass))] s1 = Ret s' \<and>
     dc_unblocked (rs_dispatcher s') = []"
proof -
  obtain s1 where s1: "run_step (ex_env 1) (Executor (SetupScriptFinished ''db'' 0 1 ExecFail))
       (initial_state (ex_cfg All None None)) = Ret s1" "reason_of s1 = Some SetupScriptFailure"
    by (simp add: run_eval on_setup_script_finished_def)
  obtain s' where s': "run_all [(ex_env 2, Executor (Started (ex_test ''a'') FlakyPass))] s1 = Ret s'"
    using s1(2) by (simp add: run_step_def handle_started_def Let_def)
  show ?thesis
    using s1 s' failed_setup_script_stops_run [OF s1(1) _ s'] initial_state_fields(4) by auto
qed



section \<open>Signals\<close>

text \<open>
  C32. Shutdown signals escalate: a run from a state without signals survives at most two of
  them among its events; after two, the run is cancelled with the highest severity and a third
  one ends the process.
\<close>

theorem shutdown_signals_escalate:
  assumes "run_all evs s = Ret s'" "dc_signal_count (rs_dispatcher s) = None"
  shows "length (filter (is_shutdown_signal \<circ> snd) evs) \<le> 2 \<and>
    (length (filter (is_shutdown_signal \<circ> snd) evs) = 2 \<longrightarrow>
       cancel_reason_of (dc_run_stats (rs_dispatcher s')) = Some SecondSignal \<and>
       (\<forall>env sig. run_step env (SignalEv (SigShutdown (ShutdownSignal sig))) s' = Panic))"
proof -
  note sig = run_all_signals [OF assms(1)]
  have n: "count_value (dc_signal_count (rs_dispatcher s')) = length (filter (is_shutdown_signal \<circ> snd) evs)"
    using sig(1) assms(2) by simp
  have two: "dc_signal_count (rs_dispatcher s') = Some CountTwice"
    if "count_value (dc_signal_count (rs_dispatcher s')) = 2"
    using that by (cases "dc_signal_count (rs_dispatcher s')" rule: count_value.cases) simp_all
  have "run_step env (SignalEv (SigShutdown (ShutdownSignal sig))) s' = Panic"
    if "count_value (dc_signal_count (rs_dispatcher s')) = 2" for env sig
    using two [OF that] by (simp add: run_step_def handle_signal_event_def increment_signal_count_def)
  with sig(2) n assms(2) count_value_le [of "dc_signal_count (rs_dispatcher s')"] show ?thesis by simp
qed

theorem shutdown_signals_escalate_witness:
  "\<exists>s'. run_all [(ex_env 1, SignalEv (SigShutdown TERMINATE)), (ex_env 2, SignalEv (SigShutdown (ShutdownSignal Quit)))]
      (initial_state (ex_cfg All None None)) = Ret s' \<and>
    run_step (ex_env 3) (SignalEv (SigShutdown TERMINATE)) s' = Panic"
proof -
  obtain s' where s': "run_all [(ex_env 1, SignalEv (SigShutdown TERMINATE)),
      (ex_env 2, SignalEv (SigShutdown (ShutdownSignal Quit)))] (initial_state (ex_cfg All None None)) = Ret s'"
    by (simp add: run_eval TERMINATE_def)
  then show ?thesis
    using shutdown_signals_escalate [OF s'] initial_state_fields(5) by (auto simp: TERMINATE_def)
qed

text \<open>
  The second shutdown signal always reaches the units, however the run was cancelled
  before: every running unit that still takes requests is sent the kill request.
\<close>

theorem second_signal_kills_all_units:
  assumes "dc_signal_count (rs_dispatcher s) = Some CountOnce"
  shows "\<exists>s'. run_step env (SignalEv (SigShutdown (ShutdownSignal sig))) s = Ret s' \<and>
    dc_sent (rs_dispatcher s') = dc_sent (rs_dispatcher s) @
      map (\<lambda>u. (u, SignalReq (ReqShutdown Twice))) (filter (env_alive env) (running_units (rs_dispatcher s))) \<and>
    cancel_reason_of (dc_run_stats (rs_dispatcher s')) = Some SecondSignal"
  using assms
  by (simp add: run_step_def handle_signal_event_def increment_signal_count_def begin_cancel_def
      set_cancel_reason_def callback_def running_units_def Let_def)

theorem second_signal_kills_all_units_witness:
  "\<exists>s1 s2 s3. run_step (ex_env 1) (Executor (Started (ex_test ''a'') FlakyPass)) (initial_state (ex_cfg All None None)) = Ret s1 \<and>
     run_step (ex_env 2) (SignalEv (SigShutdown TERMINATE)) s1 = Ret s2 \<and>
     run_step (ex_env 3) (SignalEv (SigShutdown TERMINATE)) s2 = Ret s3 \<and>
     dc_sent (rs_dispatcher s3) = dc_sent (rs_dispatcher s2) @ [(UTest (ex_test ''a''), SignalReq (ReqShutdown Twice))]"
proof -
  obtain s1 s2 where s: "run_step (ex_env 1) (Executor (Started (ex_test ''a'') FlakyPass)) (initial_state (ex_cfg All None None)) = Ret s1"
     "run_step (ex_env 2) (SignalEv (SigShutdown TERMINATE)) s1 = Ret s2"
     "dc_signal_count (rs_dispatcher s2) = Some CountOnce" "running_units (rs_dispatcher s2) = [UTest (ex_test ''a'')]"
    by (simp add: run_eval TERMINATE_def)
  show ?thesis
    using s second_signal_kills_all_units [OF s(3), of "ex_env 3" Term]
    by (auto simp: TERMINATE_def ex_env_def)
qed

text \<open>
  A fail-fast limit with immediate termination sends every running unit two shutdown
  requests: the handler of the finished test broadcasts one, and the run loop another one for
  the cancellation. A unit takes the second one as the order to kill: with any grace period it
  is sent SIGTERM and SIGKILL at once, so the grace period is not granted.
\<close>

theorem immediate_fail_fast_skips_grace:
  assumes "run_step env (Executor (Finished t st)) s = Ret s'"
    "is_exceeded (dc_max_fail (rs_dispatcher s)) (failed_count (dc_run_stats (rs_dispatcher s'))) = Some Immediate"
    "cancel_reason_of (dc_run_stats (rs_dispatcher s)) = None"
    "un_phase u = UnitRunning" "\<not> un_reaped u" "grace_period cfg \<noteq> 0"
  shows "let units = filter (env_alive env) (running_units (rs_dispatcher s'));
             request = SignalReq (ReqShutdown (Once ShutdownTestFailureImmediate))
         in dc_sent (rs_dispatcher s') =
              dc_sent (rs_dispatcher s) @ map (\<lambda>k. (k, request)) units @ map (\<lambda>k. (k, request)) units \<and>
            (\<exists>u'. unit_run cfg [(t1, Request request), (t2, Request request)] u = Ret u' \<and>
               un_signals u' = un_signals u @ [SendTerminate TTerm, SendTerminate TKill])"
proof -
  obtain d r where h: "handle_finished env t st (rs_dispatcher s) = Ret (d, r)"
    and resp: "respond env r (s\<lparr>rs_dispatcher := d\<rparr>) = Ret s'"
    using assms(1) by (auto simp: run_step_def bind_outcome_eq_Ret)
  obtain d1 es where f: "finish_test t st (rs_dispatcher s) = Ret (d1, es)"
    using h by (auto simp: handle_finished_def bind_outcome_eq_Ret)
  then have d1: "dc_run_stats d1 = dc_run_stats (rs_dispatcher s)" "dc_sent d1 = dc_sent (rs_dispatcher s)"
      "dc_max_fail d1 = dc_max_fail (rs_dispatcher s)"
    by (auto simp: finish_test_def split: option.splits)
  obtain stats where st: "on_test_finished (dc_run_stats d1) es = Ret stats"
    using h f by (auto simp: handle_finished_def bind_outcome_eq_Ret)
  have same: "failed_count (dc_run_stats d) = failed_count stats"
    using h f st d1 by (elim handle_finished_effect) (auto simp: finish_test_def)
  have "failed_count (dc_run_stats (rs_dispatcher s')) = failed_count stats"
    using core_eq(1) [OF conjunct1 [OF respond_core [OF resp]]] same by simp
  then have ex: "is_exceeded (dc_max_fail d1) (failed_count stats) = Some Immediate"
    using assms(2) d1 by simp
  define dd where "dd = callback (RTestFinished t es stats (running (d1\<lparr>dc_run_stats := stats\<rparr>))) (d1\<lparr>dc_run_stats := stats\<rparr>)"
  have none: "cancel_reason_of stats = None" using on_test_finished_counts [OF st] d1 assms(3) by simp
  have d: "(d, r) = begin_cancel TestFailureImmediate (CancelSignal immediate_shutdown)
      (do_broadcast env (SignalReq (ReqShutdown immediate_shutdown)) dd)"
    using h f st ex by (simp add: handle_finished_def do_broadcast_def dd_def Let_def)
  have s': "rs_dispatcher s' = do_broadcast env (SignalReq (ReqShutdown immediate_shutdown)) d"
    "dc_sent d = dc_sent (rs_dispatcher s) @ map (\<lambda>k. (k, SignalReq (ReqShutdown immediate_shutdown)))
       (filter (env_alive env) (running_units dd))"
    "running_units d = running_units dd"
    using resp d none d1
    by (auto simp: begin_cancel_def dd_def immediate_shutdown_def callback_def set_cancel_reason_def running_units_def Let_def)
  have units: "running_units (rs_dispatcher s') = running_units dd"
    using s' by (simp add: running_units_def)
  have "\<exists>u'. unit_run cfg [(t1, Request (SignalReq (ReqShutdown immediate_shutdown))),
      (t2, Request (SignalReq (ReqShutdown immediate_shutdown)))] u = Ret u' \<and>
      un_signals u' = un_signals u @ [SendTerminate TTerm, SendTerminate TKill]"
    using assms(4-6) by (simp add: unit_eval immediate_shutdown_def)
  with s' units show ?thesis by (simp add: immediate_shutdown_def Let_def)
qed


theorem immediate_fail_fast_skips_grace_witness:
  "\<exists>s1 s2 s3. run_step (ex_env 1) (Executor (Started (ex_test ''a'') FlakyPass))
       (initial_state (ex_cfg (Count 1 Immediate) None None)) = Ret s1 \<and>
     run_step (ex_env 2) (Executor (Started (ex_test ''b'') FlakyPass)) s1 = Ret s2 \<and>
     run_step (ex_env 3) (Executor (Finished (ex_test ''a'') ex_failure)) s2 = Ret s3 \<and>
     dc_sent (rs_dispatcher s3) =
       [(UTest (ex_test ''b''), SignalReq (ReqShutdown (Once ShutdownTestFailureImmediate))),
        (UTest (ex_test ''b''), SignalReq (ReqShutdown (Once ShutdownTestFailureImmediate)))]"
proof -
  obtain s1 s2 s3 where s: "run_step (ex_env 1) (Executor (Started (ex_test ''a'') FlakyPass))
       (initial_state (ex_cfg (Count 1 Immediate) None None)) = Ret s1"
     "run_step (ex_env 2) (Executor (Started (ex_test ''b'') FlakyPass)) s1 = Ret s2"
     "run_step (ex_env 3) (Executor (Finished (ex_test ''a'') ex_failure)) s2 = Ret s3"
     "dc_sent (rs_dispatcher s2) = []" "reason_of s2 = None" "dc_max_fail (rs_dispatcher s2) = Count 1 Immediate"
     "failed_count (dc_run_stats (rs_dispatcher s3)) = 1" "running_units (rs_dispatcher s3) = [UTest (ex_test ''b'')]"
    by (simp add: run_eval ex_test_def less_prod_def less_rust_binary_id_def less_test_case_name_def)
  show ?thesis
    using s immediate_fail_fast_skips_grace [OF s(3) _ s(5), of "unit_new 0 example_slow" example_slow 1 2]
    by (auto simp: unit_new_def example_slow_def ex_env_def Let_def)
qed


section \<open>Statistics\<close>

text \<open>
  C6. In every reachable state every counter of the statistics is the number of those results, reported
  since the sub-run started, that it is meant to count. For tests: finished; passed, among them slow,
  timed out and flaky ones; failed, among them slow ones; timed out; leaky; failed for a leak; not
  executed. A test is judged by its last attempt, and a flaky one by what its configuration says; one
  that passes by its timeout is not counted as slow. For setup scripts: finished, passed, failed, not
  executed, timed out. A finished test is passed or failed and not both, and the number of tests to run
  never changes.
\<close>

theorem statistics_match_reports:
  assumes "reachable cfg ok s"
  shows "let st = dc_run_stats (rs_dispatcher s); d = rs_dispatcher s in
    finished_count st = tally (is_finished_test (\<lambda>_. True)) d \<and>
    passed st = tally (is_finished_test test_passes) d \<and>
    passed_slow st = tally (is_finished_test (\<lambda>es. test_passes es \<and> last_is_slow es \<and> last_result es \<noteq> Timeout SlowPass)) d \<and>
    passed_timed_out st = tally (is_finished_test (\<lambda>es. test_passes es \<and> last_result es = Timeout SlowPass)) d \<and>
    flaky st = tally (is_finished_test (\<lambda>es. test_passes es \<and> length (statuses es) > 1)) d \<and>
    failed st = tally (is_finished_test test_fails) d \<and>
    failed_slow st = tally (is_finished_test (\<lambda>es. test_fails es \<and> last_is_slow es)) d \<and>
    failed_timed_out st = tally (is_finished_test (\<lambda>es. last_result es = Timeout SlowFail)) d \<and>
    leaky st = tally (is_finished_test (\<lambda>es. last_result es = Leak LeakPass)) d \<and>
    leaky_failed st = tally (is_finished_test (\<lambda>es. last_result es = Leak LeakFail)) d \<and>
    exec_failed st = tally (is_finished_test (\<lambda>es. last_result es = ExecFail)) d \<and>
    skipped st = tally is_skipped_test d \<and>
    setup_scripts_finished_count st = tally (is_finished_script (\<lambda>_. True)) d \<and>
    setup_scripts_passed st = tally (is_finished_script script_passes) d \<and>
    setup_scripts_failed st = tally (is_finished_script script_fails) d \<and>
    setup_scripts_exec_failed st = tally (is_finished_script (\<lambda>r. r = ExecFail)) d \<and>
    setup_scripts_timed_out st = tally (is_finished_script is_timeout) d \<and>
    finished_count st = passed st + failed_count st \<and>
    initial_run_count st = rc_run_count cfg"
  using reachable_stats_reported [OF assms] reachable_dispatch_inv [OF assms]
  by (simp add: stats_reported_def counter_defs dispatch_inv_def stats_wf_def)

definition ex_attempt :: "nat \<Rightarrow> execution_result \<Rightarrow> execute_status" where
  "ex_attempt n result = \<lparr>es_retry_data = \<lparr>attempt = n, total_attempts = 2\<rparr>, es_result = result,
     es_time_taken = 1, es_is_slow = False, es_delay_before_start = 0\<rparr>"

definition ex_flaky_events :: "(env \<times> internal_event) list" where
  "ex_flaky_events =
    [(ex_env 1, Executor (Started (ex_test ''a'') FlakyPass)),
     (ex_env 2, Executor (AttemptFailedWillRetry (ex_test ''a'') (ex_attempt 1 (Fail (ExitCode 101) False)) 0)),
     (ex_env 3, Executor (RetryStarted (ex_test ''a'') \<lparr>attempt = 2, total_attempts = 2\<rparr>)),
     (ex_env 4, Executor (Finished (ex_test ''a'') (ex_attempt 2 (Leak LeakPass))))]"

lemma ex_flaky_run:
  "\<exists>s. run_all ex_flaky_events (initial_state (ex_cfg All None None)) = Ret s \<and>
     flaky (dc_run_stats (rs_dispatcher s)) = 1 \<and> leaky (dc_run_stats (rs_dispatcher s)) = 1"
  by (simp add: run_eval ex_flaky_events_def ex_attempt_def ex_test_def test_attempt_failed_will_retry_def count_passed_def update_ctx_def)

lemma run_all_reachable:
  "run_all evs s = Ret s' \<Longrightarrow> reachable cfg any_event s \<Longrightarrow>
   list_all (\<lambda>(env, event). env_now env \<le> env_after env \<and> event \<noteq> GlobalTimeoutEv) evs \<Longrightarrow>
   reachable cfg any_event s'"
proof (induction evs arbitrary: s)
  case (Cons x evs)
  obtain env event where x: "x = (env, event)" by (cases x)
  with Cons.prems obtain s1 where s1: "run_step env event s = Ret s1" "run_all evs s1 = Ret s'"
    by (auto simp: bind_outcome_eq_Ret)
  have "reachable cfg any_event s1"
    by (rule reachable_step [OF Cons.prems(2) _ _ s1(1)]) (use Cons.prems(3) x in \<open>auto simp: event_ready_def any_event_def\<close>)
  then show ?case using Cons.IH [OF s1(2)] Cons.prems(3) by simp
qed simp

lemma ex_flaky_reachable:
  "run_all ex_flaky_events (initial_state (ex_cfg All None None)) = Ret s \<Longrightarrow> reachable (ex_cfg All None None) any_event s"
  by (erule run_all_reachable [OF _ reachable_start]) (simp add: ex_flaky_events_def ex_env_def)

theorem statistics_match_reports_witness:
  "\<exists>s. reachable (ex_cfg All None None) any_event s \<and>
     tally (is_finished_test (\<lambda>es. test_passes es \<and> length (statuses es) > 1)) (rs_dispatcher s) = 1 \<and>
     tally (is_finished_test (\<lambda>es. last_result es = Leak LeakPass)) (rs_dispatcher s) = 1"
proof -
  obtain s where s: "run_all ex_flaky_events (initial_state (ex_cfg All None None)) = Ret s"
    "flaky (dc_run_stats (rs_dispatcher s)) = 1" "leaky (dc_run_stats (rs_dispatcher s)) = 1"
    using ex_flaky_run by blast
  note reached = ex_flaky_reachable [OF s(1)]
  note stats = statistics_match_reports [OF reached, unfolded Let_def]
  from stats have "flaky (dc_run_stats (rs_dispatcher s)) =
      tally (is_finished_test (\<lambda>es. test_passes es \<and> length (statuses es) > 1)) (rs_dispatcher s)"
    by (elim conjE)
  moreover from stats have "leaky (dc_run_stats (rs_dispatcher s)) =
      tally (is_finished_test (\<lambda>es. last_result es = Leak LeakPass)) (rs_dispatcher s)"
    by (elim conjE)
  ultimately show ?thesis using s(2,3) reached by (intro exI [of _ s]) simp
qed


section \<open>Panics and timers\<close>

text \<open>
  C24. An event panics the dispatcher exactly if it breaks the protocol of the executor, a test that
  is already running or one that is not; if it is the third shutdown signal; or if it is a continue
  signal that arrives while the run is paused but the global timeout is not. The last cannot
  happen in a run that is not a stress run, where the two are always paused together.
\<close>

theorem dispatcher_panics_iff:
  assumes "reachable cfg ok s"
  shows "(run_step env event s = Panic \<longleftrightarrow> event_panics env event (rs_dispatcher s) \<or>
      event = SignalEv (SigJobControl JobContinue) \<and>
        sw_is_paused (dc_stopwatch (rs_dispatcher s)) \<and> \<not> sl_is_paused (rs_sleep s)) \<and>
    (rc_stress cfg = None \<longrightarrow> (sw_is_paused (dc_stopwatch (rs_dispatcher s)) \<longleftrightarrow> sl_is_paused (rs_sleep s)))"
proof -
  have "sw_is_paused (dc_stopwatch (rs_dispatcher s)) \<longleftrightarrow> sl_is_paused (rs_sleep s)" if "rc_stress cfg = None"
    using reachable_single_timers [OF assms that] by (simp add: timers_in_sync_def)
  then show ?thesis
    using run_step_Panic_follow [OF reachable_timers_follow [OF assms]] by (simp add: timers_lag_def)
qed

theorem dispatcher_panics_iff_witness:
  "\<exists>s. run_all [(ex_env 1, SignalEv (SigJobControl JobStop))] (initial_state (ex_cfg All None None)) = Ret s \<and>
     sw_is_paused (dc_stopwatch (rs_dispatcher s)) \<and>
     run_step (ex_env 2) (SignalEv (SigJobControl JobContinue)) s \<noteq> Panic \<and>
     run_step (ex_env 2) (Executor (Finished (ex_test ''a'') ex_failure)) s = Panic"
proof -
  let ?init = "initial_state (ex_cfg All None None)"
  obtain s where s: "run_all [(ex_env 1, SignalEv (SigJobControl JobStop))] ?init = Ret s"
    "sw_is_paused (dc_stopwatch (rs_dispatcher s))" "dc_running_tests (rs_dispatcher s) = []"
    by (simp add: run_eval sw_pause_def sl_pause_def pause_stopwatch_def)
  have r: "reachable (ex_cfg All None None) any_event s"
    by (rule run_all_reachable [OF s(1) reachable_start]) (simp add: ex_env_def)
  have "rc_stress (ex_cfg All None None) = None" by (simp add: ex_cfg_def)
  then show ?thesis
    using dispatcher_panics_iff [OF r, of "ex_env 2" "SignalEv (SigJobControl JobContinue)"]
      dispatcher_panics_iff [OF r, of "ex_env 2" "Executor (Finished (ex_test ''a'') ex_failure)"] s
    by (intro exI [of _ s]) simp
qed

text \<open>
  In a stress run the timers of a sub-run start running even if the run is paused: if a
  sub-run ends between a stop and the continue signal that follows it, the continue signal
  arrives in the next sub-run and panics the dispatcher.
\<close>

theorem continue_in_next_sub_run_panics:
  assumes "next_sub_run env s = Ret (Some s')" "sw_is_paused (dc_stopwatch (rs_dispatcher s))"
  shows "run_step env' (SignalEv (SigJobControl JobContinue)) s' = Panic"
proof -
  from assms(1) have w: "dc_stopwatch (rs_dispatcher s') = dc_stopwatch (rs_dispatcher s)"
    and sl: "\<not> sl_is_paused (rs_sleep s')"
    by (elim next_sub_run_effect; simp)+
  have p: "sl_resume n (rs_sleep s') = Panic" for n using sl by (simp add: sl.resume_Panic_iff)
  obtain sw where sw: "sw_resume (env_now env') (dc_stopwatch (rs_dispatcher s')) = Ret sw"
    using assms(2) w sw.resume_paused by metis
  show ?thesis
    using sw p assms(2) w by (simp add: run_step_def handle_signal_event_def callback_def)
qed

theorem continue_in_next_sub_run_panics_witness:
  "\<exists>s s'. reachable (ex_cfg All (Some (CondCount StressInfinite)) None) any_event s \<and>
     next_sub_run (ex_env 2) s = Ret (Some s') \<and>
     reachable (ex_cfg All (Some (CondCount StressInfinite)) None) any_event s' \<and>
     run_step (ex_env 3) (SignalEv (SigJobControl JobContinue)) s' = Panic"
proof -
  let ?cfg = "ex_cfg All (Some (CondCount StressInfinite)) None"
  obtain s s' where s: "run_step (ex_env 1) (SignalEv (SigJobControl JobStop)) (initial_state ?cfg) = Ret s"
    "next_sub_run (ex_env 2) s = Ret (Some s')" "sw_is_paused (dc_stopwatch (rs_dispatcher s))"
    by (simp add: run_eval stress_sub_run_started_def sw_pause_def sl_pause_def pause_stopwatch_def
        next_sub_run_def stress_sub_run_finished_def mark_completed_def summarize_final_def
        failed_setup_script_count_def stress_progress_at_def after_sub_run_def)
  have r: "reachable ?cfg any_event s"
    by (rule reachable_step [OF reachable_start _ _ s(1)]) (simp_all add: event_ready_def any_event_def ex_env_def)
  have r': "reachable ?cfg any_event s'"
    by (rule reachable_sub_run [OF r s(2)]) (simp add: any_event_def)
  show ?thesis using r r' s continue_in_next_sub_run_panics [OF s(2,3)] by blast
qed



section \<open>Stress runs\<close>

text \<open>
  C19. At the end of a stress run whose executor keeps to its protocol, the run finishes with a
  result, and the summary that is reported agrees with it: this is the debug assertion of
  \<open>run_finished\<close>, which the release build does not check. It rests on a cancelled sub-run
  being the last one and on the number of tests being the same in every sub-run.
\<close>

theorem stress_summary_matches_outcome:
  assumes "reachable cfg (executor_protocol tests) s" "finite tests" "card tests = rc_run_count cfg"
    "stress_sub_run_finished env (rs_dispatcher s) = Ret (d, action)"
  shows "\<exists>d' result elapsed stats not_seen. run_finished now d = Ret (d', result) \<and>
     last (dc_reported d') = RRunFinished elapsed (Stress stats) not_seen \<and>
     stress_summarize_final stats = stress_summary_for_outcome result"
proof -
  let ?st = "dc_run_stats (rs_dispatcher s)"
  obtain cx where cx: "dc_stress_cx (rs_dispatcher s) = Some cx"
    using assms(4) by (auto simp: stress_sub_run_finished_def split: option.splits)
  have inv: "dispatch_inv cfg (rs_dispatcher s)" using reachable_dispatch_inv [OF assms(1)] .
  have d: "dc_run_stats d = ?st" "dc_stress_cx d = Some (fst (mark_completed (env_now env) (summarize_final ?st) cx))"
    using assms(4) cx by (auto simp: stress_sub_run_finished_def callback_def Let_def split: prod.splits)
  have "stress_inv (initial_run_count ?st) cx"
    using reachable_stress_inv [OF assms(1-3) cx] inv by (simp add: dispatch_inv_def)
  then obtain r where "ss_outcome (fst (mark_completed (env_now env) (summarize_final ?st) cx)) = Some r"
    "stress_summarize_final (stress_run_stats_of (summarize_final ?st)
       (fst (mark_completed (env_now env) (summarize_final ?st) cx))) = stress_summary_for_outcome r"
    using stress_summary_step [OF _ _ _ reachable_finished_le [OF assms(1-3)] refl] inv
    by (auto simp: dispatch_inv_def)
  then show ?thesis
    by (simp add: run_finished_def final_outcome_def d callback_def Let_def)
qed

theorem stress_summary_matches_outcome_witness:
  "\<exists>d d' result. stress_sub_run_finished (ex_env 2)
       (rs_dispatcher (initial_state (ex_cfg All (Some (CondCount (StressCount 1))) None))) = Ret (d, StressStop) \<and>
     run_finished 3 d = Ret (d', result)"
proof -
  let ?cfg = "ex_cfg All (Some (CondCount (StressCount 1))) None"
  obtain d where d: "stress_sub_run_finished (ex_env 2) (rs_dispatcher (initial_state ?cfg)) = Ret (d, StressStop)"
    by (simp add: run_eval stress_sub_run_started_def stress_sub_run_finished_def mark_completed_def
        summarize_final_def failed_setup_script_count_def stress_progress_at_def after_sub_run_def)
  have "\<exists>d' result elapsed stats not_seen. run_finished 3 d = Ret (d', result) \<and>
     last (dc_reported d') = RRunFinished elapsed (Stress stats) not_seen \<and>
     stress_summarize_final stats = stress_summary_for_outcome result"
    by (rule stress_summary_matches_outcome [OF reachable_start, of "{}", OF _ _ d]) (simp_all add: ex_cfg_def)
  with d show ?thesis by blast
qed

text \<open>
  C36. A stress run goes on after a sub-run exactly if nothing cancelled it, all its tests and
  setup scripts were finished, and the count or the time limit leaves something to do.
\<close>

theorem stress_run_continues_iff:
  assumes "dc_stress_cx (rs_dispatcher s) = Some cx"
  shows "(\<exists>s'. next_sub_run env s = Ret (Some s')) \<longleftrightarrow>
    cancel_reason_of (dc_run_stats (rs_dispatcher s)) = None \<and>
    \<not> is_cancelled_stats (summarize_final (dc_run_stats (rs_dispatcher s))) \<and>
    (case ss_condition cx of
       CondCount (StressCount count) \<Rightarrow> ss_completed cx + 1 < count
     | CondCount StressInfinite \<Rightarrow> True
     | CondDuration limit \<Rightarrow> snap_active (sw_snapshot (env_after env) (dc_stopwatch (rs_dispatcher s))) < limit)"
proof -
  obtain cx' el where m: "mark_completed (env_now env) (summarize_final (dc_run_stats (rs_dispatcher s))) cx = (cx', el)"
    by fastforce
  have c: "ss_completed cx' = ss_completed cx + 1" "ss_condition cx' = ss_condition cx"
    using mark_completed_fields(1,5) [of "env_now env" "summarize_final (dc_run_stats (rs_dispatcher s))" cx] m by simp_all
  define el2 where "el2 = snap_active (sw_snapshot (env_after env) (dc_stopwatch (rs_dispatcher s)))"
  have rem: "remaining (stress_progress_at el2 cx') \<noteq> None \<longleftrightarrow>
    (case ss_condition cx of
       CondCount (StressCount count) \<Rightarrow> ss_completed cx + 1 < count
     | CondCount StressInfinite \<Rightarrow> True
     | CondDuration limit \<Rightarrow> el2 < limit)"
    by (auto simp: stress_progress_at_def c split: stress_condition.splits stress_count.splits)
  have "(\<exists>s'. next_sub_run env s = Ret (Some s')) \<longleftrightarrow>
      (\<exists>p. after_sub_run (summarize_final (dc_run_stats (rs_dispatcher s))) (reason_of s)
             (stress_progress_at el2 cx') = StressContinue p)"
    using assms m by (auto simp: next_sub_run_def stress_sub_run_finished_def Let_def callback_def el2_def
        split: stress_loop_action.splits)
  also have "\<dots> \<longleftrightarrow> reason_of s = None \<and> \<not> is_cancelled_stats (summarize_final (dc_run_stats (rs_dispatcher s))) \<and>
      remaining (stress_progress_at el2 cx') \<noteq> None"
    by (auto simp: after_sub_run_def split: option.splits final_run_stats.splits)
  finally show ?thesis unfolding rem unfolding el2_def .
qed

theorem stress_run_continues_iff_witness:
  "\<exists>s'. next_sub_run (ex_env 2) (initial_state (ex_cfg All (Some (CondCount (StressCount 2))) None)) = Ret (Some s')"
  using stress_run_continues_iff [of "initial_state (ex_cfg All (Some (CondCount (StressCount 2))) None)"
      "the (stress_new 0 (Some (CondCount (StressCount 2))))" "ex_env 2"]
  by (simp add: initial_state_fields ex_cfg_def stress_new_def summarize_final_def default_run_stats_def
      failed_setup_script_count_def failed_count_def)


section \<open>Reruns\<close>

lemma smallest_sample:
  fixes A :: "'a::linorder set" and n :: nat
  assumes "finite A"
  defines "sample \<equiv> take n (sorted_list_of_set A)"
  shows "set sample \<subseteq> A \<and> length sample = min n (card A) \<and> sorted sample \<and> distinct sample \<and>
    (\<forall>t \<in> set sample. \<forall>u \<in> A - set sample. t < u)"
proof -
  have "t < u" if "t \<in> set sample" "u \<in> A - set sample" for t u
  proof -
    have "set (sorted_list_of_set A) = set sample \<union> set (drop n (sorted_list_of_set A))"
      unfolding sample_def by (metis append_take_drop_id set_append)
    then have "u \<in> set (drop n (sorted_list_of_set A))" using that(2) assms(1) by auto
    moreover have "sorted (sample @ drop n (sorted_list_of_set A))" by (simp add: sample_def)
    ultimately have "t \<le> u" using that(1) unfolding sorted_append by blast
    then show ?thesis using that by (metis DiffD2 order_le_less)
  qed
  moreover have "set sample \<subseteq> A"
    using assms(1) set_take_subset [of n "sorted_list_of_set A"] by (simp add: sample_def)
  ultimately show ?thesis using assms(1) by (simp add: sample_def sorted_wrt_take min.commute)
qed

text \<open>
  C34. When a rerun finishes, the expected tests that the dispatcher never let start are reported as
  not seen: their number, and as a sample the first eight in order. An initial run reports nothing. A
  rerun always makes the report, with the number 0 and no sample if no test is missing; and an
  expected test that was skipped counts as not seen, although an event was reported for it.
\<close>

theorem rerun_reports_not_seen:
  assumes "reachable cfg ok s" "\<And>expected. rc_expected cfg = Some expected \<Longrightarrow> finite expected"
    "run_finished now (rs_dispatcher s) = Ret (d', result)"
  shows "\<exists>elapsed stats report. last (dc_reported d') = RRunFinished elapsed stats report \<and>
    (case rc_expected cfg of
       None \<Rightarrow> report = None
     | Some expected \<Rightarrow>
         (let missing = expected - {t. GrantTest t \<in> set (dc_unblocked (rs_dispatcher s))} in
          \<exists>sample. report = Some \<lparr>tns_not_seen = sample, tns_total_not_seen = card missing\<rparr> \<and>
            set sample \<subseteq> missing \<and> length sample = min 8 (card missing) \<and> sorted sample \<and> distinct sample \<and>
            (\<forall>t \<in> set sample. \<forall>u \<in> missing - set sample. t < u)))"
proof (cases "rc_expected cfg")
  case None
  then have "dc_rerun_cx (rs_dispatcher s) = InitialRun"
    using reachable_rerun [OF assms(1)] by (simp add: expected_left_def)
  then show ?thesis using assms(3) None
    by (auto simp: run_finished_def bind_outcome_eq_Ret callback_def into_tests_not_seen_def Let_def)
next
  case (Some expected)
  define missing where "missing = expected - {t. GrantTest t \<in> set (dc_unblocked (rs_dispatcher s))}"
  have fin: "finite missing" using assms(2) [OF Some] by (simp add: missing_def)
  have "dc_rerun_cx (rs_dispatcher s) = Rerun missing"
    using reachable_rerun [OF assms(1)] Some by (simp add: expected_left_def missing_def)
  then have "\<exists>elapsed stats. last (dc_reported d') = RRunFinished elapsed stats
      (Some \<lparr>tns_not_seen = take 8 (sorted_list_of_set missing), tns_total_not_seen = card missing\<rparr>)"
    using assms(3)
    by (auto simp: run_finished_def bind_outcome_eq_Ret callback_def into_tests_not_seen_def Let_def)
  with smallest_sample [OF fin, of 8] show ?thesis
    unfolding Some option.case missing_def [symmetric] Let_def by blast
qed

theorem rerun_reports_not_seen_witness:
  "\<exists>d' result elapsed stats. run_finished 1 (rs_dispatcher (initial_state (ex_cfg All None (Some {ex_test ''a''}))))
       = Ret (d', result) \<and>
     last (dc_reported d') =
       RRunFinished elapsed stats (Some \<lparr>tns_not_seen = [ex_test ''a''], tns_total_not_seen = 1\<rparr>)"
proof -
  let ?cfg = "ex_cfg All None (Some {ex_test ''a''})"
  obtain d' r where r: "run_finished 1 (rs_dispatcher (initial_state ?cfg)) = Ret (d', r)"
    by (simp add: run_finished_def final_outcome_def initial_state_fields stress_new_def ex_cfg_def Let_def)
  have "finite expected" if "rc_expected ?cfg = Some expected" for expected using that by (auto simp: ex_cfg_def)
  note report = rerun_reports_not_seen [OF reachable_start this r]
  have single: "sample = [ex_test ''a'']" if "set sample \<subseteq> {ex_test ''a''}" "length sample = 1" for sample
    using that by (cases sample) auto
  show ?thesis
    using report r single by (auto simp: ex_cfg_def initial_state_fields Let_def)
qed


section \<open>Information requests\<close>

text \<open>
  An information request reaches the running units that still take requests and reports
  each answer with its index, but counts one missing answer too few: the event is documented
  to carry the number of responses that were not received.
\<close>

theorem info_missing_undercounted:
  assumes "asked = length (filter (env_alive env) (running_units d))" "env_responses env < asked"
  shows "\<exists>missing. dc_reported (collect_info env d) = dc_reported d @
       RInfoStarted asked (dc_run_stats d) # map (\<lambda>i. RInfoResponse i asked) [0..<env_responses env] @
       [RInfoFinished missing] \<and>
     missing = (asked - env_responses env) - 1 \<and>
     dc_sent (collect_info env d) =
       dc_sent d @ map (\<lambda>u. (u, QueryGetInfo)) (filter (env_alive env) (running_units d))"
  using assms by (simp add: collect_info_def broadcast_request_def callback_def fold_callback Let_def)

theorem info_missing_undercounted_witness:
  "\<exists>s1 s2. run_step (ex_env 1) (Executor (Started (ex_test ''a'') FlakyPass)) (initial_state (ex_cfg All None None)) = Ret s1 \<and>
     run_step (ex_env 2) (Executor (Started (ex_test ''b'') FlakyPass)) s1 = Ret s2 \<and>
     last (dc_reported (collect_info (ex_env 3) (rs_dispatcher s2))) = RInfoFinished 0"
proof -
  obtain s1 s2 where s: "run_step (ex_env 1) (Executor (Started (ex_test ''a'') FlakyPass)) (initial_state (ex_cfg All None None)) = Ret s1"
     "run_step (ex_env 2) (Executor (Started (ex_test ''b'') FlakyPass)) s1 = Ret s2"
     "length (running_units (rs_dispatcher s2)) = 2"
    by (simp add: run_eval ex_test_def less_prod_def less_rust_binary_id_def less_test_case_name_def)
  show ?thesis
    using s info_missing_undercounted [of 2 "ex_env 3" "rs_dispatcher s2"] by (auto simp: ex_env_def)
qed

end
