(* ===== verification/Component_Claims.thy ===== *)
theory Component_Claims
  imports Binary_Id Max_Fail Timers Run_Events
begin

text \<open>
  Properties of the components below the dispatcher: binary identifiers, the fail-fast
  setting, the timers, and the outcomes of runs.
\<close>

text \<open>
  Binary identifiers round trip: the components of an identifier built from the parts of a
  Cargo target are those parts, so that two targets get the same identifier only if they are in
  the same package and of the same kind and name, where the library, or the procedural macro,
  counts as the one unnamed target of its package. Every identifier is recovered from its
  components.
\<close>

theorem binary_id_round_trip:
  assumes "plain_name p1" "plain_name (kind_str k1)" "plain_name n1"
    "plain_name p2" "plain_name (kind_str k2)" "plain_name n2"
  shows "components (from_parts p1 k1 n1) =
      \<lparr>comp_package_name = p1, comp_binary_name_and_kind = kind_and_name k1 n1\<rparr> \<and>
    (from_parts p1 k1 n1 = from_parts p2 k2 n2 \<longleftrightarrow> p1 = p2 \<and> kind_and_name k1 n1 = kind_and_name k2 n2) \<and>
    RustBinaryId (from_components (components bid)) = bid"
  using components_from_parts [OF assms(1-3)] from_parts_inject [OF assms] from_components_components [of bid]
  by simp

theorem binary_id_round_trip_witness:
  "from_parts ''my-crate'' kind_BIN ''tool'' \<noteq> from_parts ''my-crate'' kind_TEST ''tool''"
  using binary_id_round_trip [of "''my-crate''" kind_BIN "''tool''" "''my-crate''" kind_TEST "''tool''"]
  by (simp add: plain_name_def kind_and_name_def kind_defs)

text \<open>
  The fail-fast setting round trips through its command-line syntax, and whatever is
  parsed has a positive limit; a limit that is exceeded stays so as failures are added.
\<close>

theorem max_fail_round_trip:
  assumes "max_fail_wf m"
  shows "parse_max_fail (show_max_fail m) = Inr m \<and>
    (\<forall>s m'. parse_max_fail s = Inr m' \<longrightarrow> max_fail_wf m') \<and>
    (\<forall>n n'. is_exceeded m n \<noteq> None \<and> n \<le> n' \<longrightarrow> is_exceeded m n' = is_exceeded m n)"
proof (intro conjI allI impI)
  show "is_exceeded m n' = is_exceeded m n" if "is_exceeded m n \<noteq> None \<and> n \<le> n'" for n n'
    using that is_exceeded_mono [of m n _ n'] by auto
qed (use parse_show_max_fail [OF assms] parse_max_fail_wf in blast)+

theorem max_fail_round_trip_witness:
  "parse_max_fail (show_max_fail (Count 3 Immediate)) = Inr (Count 3 Immediate)"
  using max_fail_round_trip [of "Count 3 Immediate"] by (simp add: I64_MAX_def)

text \<open>
  A stopwatch driven through any number of pauses that follow each other in time never
  panics, and measures the time since its start less the time spent paused.
\<close>

theorem stopwatch_measures_active_time:
  assumes "pauses_ordered t xs now"
  shows "\<exists>s. sw_run xs (stopwatch_new t) = Ret s \<and>
    sw_snapshot now s = \<lparr>snap_active = now - t - total_paused xs, snap_paused = total_paused xs\<rparr> \<and>
    t + total_paused xs \<le> now"
proof -
  obtain s where "sw_run xs (stopwatch_new t) = Ret s" "sw_instant s = t" "sw_paused_time s = total_paused xs"
    using sw_run_Ret [OF new_running(1), of xs t] by (auto simp: stopwatch_new_def)
  then show ?thesis using pauses_ordered_le [OF assms] by (simp add: sw_snapshot_def)
qed

theorem stopwatch_measures_active_time_witness:
  "\<exists>s. sw_run [(3, 5), (8, 12)] (stopwatch_new 1) = Ret s \<and> snap_active (sw_snapshot 20 s) = 13"
  using stopwatch_measures_active_time [of 1 "[(3, 5), (8, 12)]" 20] by (auto simp: total_paused_def)

text \<open>
  Pausing a sleep that has not fired and resuming it later, within the thirty years that a
  paused sleep takes, keeps the time that remained: paused it does not fire, and after the
  resumption it fires exactly the remaining time later.
\<close>

theorem sleep_keeps_remaining_time:
  assumes "\<not> sl_is_paused s" "p \<le> sl_deadline s" "p \<le> r" "r < p + far_future_duration"
  shows "\<exists>s1 s2. sl_pause p s = Ret s1 \<and> \<not> sl_fires r s1 \<and> sl_resume r s1 = Ret s2 \<and>
    (\<forall>t. sl_fires t s2 \<longleftrightarrow> r + (sl_deadline s - p) \<le> t)"
  using assms
  by (cases "sl_pause_state s")
    (simp_all add: sl_is_paused_def sl_pause_def sl_resume_def sl_fires_def)

theorem sleep_keeps_remaining_time_witness:
  "\<exists>s1 s2. sl_pause 40 (sleep_new 0 100) = Ret s1 \<and> sl_resume 1000 s1 = Ret s2 \<and>
    sl_fires 1060 s2 \<and> \<not> sl_fires 1059 s2"
proof -
  obtain s1 s2 where s: "sl_pause 40 (sleep_new 0 100) = Ret s1" "sl_resume 1000 s1 = Ret s2"
    "\<forall>t. sl_fires t s2 \<longleftrightarrow> 1000 + (sl_deadline (sleep_new 0 100) - 40) \<le> t"
    using sleep_keeps_remaining_time [of "sleep_new 0 100" 40 1000] new_running(2) [of 0 100]
    by (auto simp: sleep_new_def far_future_duration_def)
  then show ?thesis by (auto simp: sleep_new_def)
qed

text \<open>
  The outcome of a stress run is the most severe of the outcomes of its sub-runs, whatever
  their order: a failure outweighs a cancellation, which outweighs success, which outweighs a
  sub-run without tests, and a setup script outweighs a test.
\<close>

theorem combine_most_severe:
  "outcome_rank (combine a b) = max (outcome_rank a) (outcome_rank b) \<and> combine a b \<in> {a, b} \<and>
   combine a b = combine b a \<and> combine (combine a b) c = combine a (combine b c)"
proof -
  have "combine a b \<in> {a, b}"
    using combine_rank [of a b] outcome_rank_inject by (auto simp: max_def split: if_splits)
  then show ?thesis using combine_rank outcome.commute outcome.assoc by simp
qed

end
