(* ===== verification/Filter_Props.thy ===== *)
theory Filter_Props
  imports Test_Filter Filterset_Props
begin

text \<open>
  What the test filter selects: an independent description of string patterns and of the
  selected tests, and the soundness of skipping a binary.
\<close>

section \<open>String patterns\<close>

text \<open>
  The documented behaviour of \<open>aho-corasick\<close>: a matcher built from patterns accepts a text if
  one of the patterns occurs in it.
\<close>

definition aho_ok :: "'e aho_corasick \<Rightarrow> bool" where
  "aho_ok aho \<longleftrightarrow> (\<forall>ps m s. aho ps = Inr m \<longrightarrow> m s = (\<exists>p \<in> set ps. str_contains s p))"

text \<open>
  What the patterns mean: no skip pattern applies and, if there are other patterns, one of them
  does.
\<close>

definition occurs_any :: "string list \<Rightarrow> string set \<Rightarrow> string \<Rightarrow> bool" where
  "occurs_any ps exact s \<longleftrightarrow> s \<in> exact \<or> (\<exists>p \<in> set ps. str_contains s p)"

fun patterns_sem :: "test_filter_patterns \<Rightarrow> string \<Rightarrow> bool" where
  "patterns_sem (SkipOnly skip skip_exact) s = (\<not> occurs_any skip skip_exact s)"
| "patterns_sem (Patterns ps exact skip skip_exact) s =
     (\<not> occurs_any skip skip_exact s \<and> occurs_any ps exact s)"

text \<open>The patterns for which the code forgets the exact skip patterns.\<close>

fun only_skip_exact :: "test_filter_patterns \<Rightarrow> bool" where
  "only_skip_exact (SkipOnly skip skip_exact) = (skip = [] \<and> skip_exact \<noteq> {})"
| "only_skip_exact (Patterns _ _ _ _) = False"

lemma aho_sorted:
  "aho_ok aho \<Longrightarrow> aho (sort ps) = Inr m \<Longrightarrow> m s \<longleftrightarrow> (\<exists>p \<in> set ps. str_contains s p)"
  unfolding aho_ok_def by (metis set_sort)

lemma name_match_resolved:
  assumes aho: "aho_ok aho" and r: "patterns_resolve aho ps = Inr r" and ok: "\<not> only_skip_exact ps"
  shows "name_match r t = NameMismatch MString \<longleftrightarrow> \<not> patterns_sem ps (case_str t)"
proof (cases ps)
  case (SkipOnly skip skip_exact)
  show ?thesis
  proof (cases "skip = []")
    case True
    then show ?thesis using r ok SkipOnly by (auto simp: occurs_any_def)
  next
    case False
    then obtain m where m: "aho (sort skip) = Inr m" "r = ResolvedSkipOnly (sort skip) m skip_exact"
      using r SkipOnly by (auto simp: Let_def split: sum.splits)
    then show ?thesis using aho_sorted [OF aho m(1)] SkipOnly by (simp add: occurs_any_def)
  qed
next
  case (Patterns pats exact skip skip_exact)
  then obtain m m' where m: "aho (sort pats) = Inr m" "aho (sort skip) = Inr m'"
    "r = ResolvedPatterns (sort pats) exact (sort skip) skip_exact m m'"
    using r by (auto simp: Let_def split: sum.splits)
  then show ?thesis using aho_sorted [OF aho m(1)] aho_sorted [OF aho m(2)] Patterns by (simp add: occurs_any_def)
qed

lemma name_match_cases:
  "name_match r t = MatchEmptyPatterns \<or> name_match r t = MatchWithPatterns \<or> name_match r t = NameMismatch MString"
  by (cases r) auto


section \<open>Filtersets\<close>

text \<open>The filtersets can be evaluated: \<open>group()\<close> occurs only where a lookup is given.\<close>

definition exprs_ok :: "group_lookup option \<Rightarrow> test_filter_exprs \<Rightarrow> bool" where
  "exprs_ok groups es \<longleftrightarrow>
     (case es of ExprsAll \<Rightarrow> True | ExprsSets es \<Rightarrow> groups \<noteq> None \<or> (\<forall>e \<in> set es. group_free e))"

definition lookup_of :: "group_lookup option \<Rightarrow> group_lookup" where
  "lookup_of groups = (case groups of Some l \<Rightarrow> l | None \<Rightarrow> (\<lambda>_ _. False))"

text \<open>A test is selected by the filtersets if there are none or one of them accepts it.\<close>

definition exprs_sem :: "eval_context \<Rightarrow> test_query \<Rightarrow> group_lookup option \<Rightarrow> test_filter_exprs \<Rightarrow> bool" where
  "exprs_sem ecx q groups es \<longleftrightarrow>
     (case es of
        ExprsAll \<Rightarrow> True
      | ExprsSets es \<Rightarrow> (\<exists>e \<in> set es. test_sem (ec_regex ecx) (ec_default_filter ecx) q (lookup_of groups) e))"

definition default_sem :: "eval_context \<Rightarrow> test_query \<Rightarrow> bool" where
  "default_sem ecx q = test_sem (ec_regex ecx) (ec_default_filter ecx) q (\<lambda>_ _. False) (ec_default_filter ecx)"

definition bound_sem :: "eval_context \<Rightarrow> test_query \<Rightarrow> filter_bound \<Rightarrow> bool" where
  "bound_sem ecx q bound \<longleftrightarrow> bound = BoundAll \<or> default_sem ecx q"

lemma eval_one:
  assumes "default_ok (ec_default_filter ecx)" "groups \<noteq> None \<or> group_free e"
  shows "(case groups of
          Some lookup \<Rightarrow> matches_test_with_groups (Suc (Suc fuel)) (ec_regex ecx) (ec_default_filter ecx) q lookup e
        | None \<Rightarrow> matches_test (Suc (Suc fuel)) (ec_regex ecx) (ec_default_filter ecx) q e) =
     Some (Ret (test_sem (ec_regex ecx) (ec_default_filter ecx) q (lookup_of groups) e))"
  using assms
  by (cases groups) (simp_all add: matches_test_with_groups_def matches_test_def matches_test_impl_denotes
      resolver_ok_def lookup_of_def del: matches_test_impl.simps)

lemma any_matches_sem:
  assumes "default_ok (ec_default_filter ecx)" "groups \<noteq> None \<or> (\<forall>e \<in> set es. group_free e)"
  shows "any_matches (Suc (Suc fuel)) ecx q groups es =
     Some (Ret (\<exists>e \<in> set es. test_sem (ec_regex ecx) (ec_default_filter ecx) q (lookup_of groups) e))"
  using assms(2)
proof (induction es)
  case (Cons e es)
  then show ?case using eval_one [OF assms(1), of groups e] by auto
qed simp

lemma matches_expression_sem:
  assumes "default_ok (ec_default_filter ecx)" "exprs_ok groups (tf_exprs f)"
  shows "matches_expression (Suc (Suc fuel)) f q ecx groups = Some (Ret (exprs_sem ecx q groups (tf_exprs f)))"
  using assms any_matches_sem [OF assms(1)]
  by (cases "tf_exprs f") (simp_all add: matches_expression_def exprs_ok_def exprs_sem_def)

lemma default_matches_sem:
  assumes "default_ok (ec_default_filter ecx)"
  shows "matches_test (Suc (Suc fuel)) (ec_regex ecx) (ec_default_filter ecx) q (ec_default_filter ecx) =
     Some (Ret (default_sem ecx q))"
  using assms by (simp add: matches_test_def matches_test_impl_denotes resolver_ok_def default_sem_def default_ok_def
      del: matches_test_impl.simps)

lemma filter_expression_match_sem:
  fixes bq t
  defines "q \<equiv> \<lparr>binary_query_of = bq, tq_test_name = t\<rparr>"
  assumes "default_ok (ec_default_filter ecx)" "exprs_ok groups (tf_exprs f)"
  shows "\<exists>m. filter_expression_match (Suc (Suc fuel)) f bq t ecx bound groups = Some (Ret m) \<and>
     (if \<not> exprs_sem ecx q groups (tf_exprs f) then m = NameMismatch MExpression
      else if \<not> bound_sem ecx q bound then m = NameMismatch MDefaultFilter
      else m = MatchEmptyPatterns \<or> m = MatchWithPatterns)"
  using matches_expression_sem [OF assms(2,3), of fuel q] default_matches_sem [OF assms(2), of fuel q]
  by (cases bound)
    (auto simp: filter_expression_match_def Let_def q_def [symmetric] bound_sem_def split: test_filter_exprs.splits)


section \<open>The decision on a test\<close>

text \<open>The conditions in the order in which the code reports them.\<close>

definition filter_decision ::
  "test_filter \<Rightarrow> eval_context \<Rightarrow> binary_query \<Rightarrow> test_case_name \<Rightarrow> rust_test_kind \<Rightarrow> filter_bound \<Rightarrow> bool
     \<Rightarrow> group_lookup option \<Rightarrow> filter_match" where
  "filter_decision f ecx bq t kind bound ignored groups =
     (let q = \<lparr>binary_query_of = bq, tq_test_name = t\<rparr>
      in if tf_mode f = ModeBenchmark \<and> kind \<noteq> kind_bench then Mismatch MNotBenchmark
         else if is_rerun_already_passed f (bq_binary_id bq) t then Mismatch MRerunAlreadyPassed
         else if tf_run_ignored f = IgnoredDefault \<and> ignored \<or> tf_run_ignored f = IgnoredOnly \<and> \<not> ignored
           then Mismatch MIgnored
         else if name_match (tf_patterns f) t = NameMismatch MString then Mismatch MString
         else if \<not> exprs_sem ecx q groups (tf_exprs f) then Mismatch MExpression
         else if \<not> bound_sem ecx q bound then Mismatch MDefaultFilter
         else Matches)"

lemma test_filter_match_decides:
  assumes "default_ok (ec_default_filter ecx)" "exprs_ok groups (tf_exprs f)"
  shows "test_filter_match (Suc (Suc fuel)) f bq t kind ecx bound ignored groups =
     Some (Ret (filter_decision f ecx bq t kind bound ignored groups))"
proof -
  obtain m where m: "filter_expression_match (Suc (Suc fuel)) f bq t ecx bound groups = Some (Ret m)"
    "if \<not> exprs_sem ecx \<lparr>binary_query_of = bq, tq_test_name = t\<rparr> groups (tf_exprs f) then m = NameMismatch MExpression
      else if \<not> bound_sem ecx \<lparr>binary_query_of = bq, tq_test_name = t\<rparr> bound then m = NameMismatch MDefaultFilter
      else m = MatchEmptyPatterns \<or> m = MatchWithPatterns"
    using filter_expression_match_sem [OF assms] by blast
  have base: "filter_match_base (Suc (Suc fuel)) f bq t ecx bound ignored groups = Some (Ret
      (if tf_run_ignored f = IgnoredDefault \<and> ignored \<or> tf_run_ignored f = IgnoredOnly \<and> \<not> ignored
           then Mismatch MIgnored
         else case (name_match (tf_patterns f) t, m) of
               (NameMismatch reason, _) \<Rightarrow> Mismatch reason
             | (_, NameMismatch reason) \<Rightarrow> Mismatch reason
             | _ \<Rightarrow> Matches))"
    by (cases "tf_run_ignored f")
      (simp_all add: filter_match_base_def filter_ignored_mismatch_def m(1) filter_name_match_of_def)
  show ?thesis
    using m(2) name_match_cases [of "tf_patterns f" t]
    by (auto simp: test_filter_match_def filter_benchmark_mismatch_def base filter_decision_def Let_def
        split: if_splits)
qed


section \<open>The decision on a binary\<close>

text \<open>
  Definite answers agree with the tests of the binary: a definite match means that the
  filtersets accept every test, a mismatch that they accept none. \<open>u\<close> is the acceptance of one
  test.
\<close>

definition binary_approx :: "filter_binary_match \<Rightarrow> bool \<Rightarrow> bool" where
  "binary_approx m u \<longleftrightarrow> (case m of Definite \<Rightarrow> u | Possible \<Rightarrow> True | BinaryMismatch _ \<Rightarrow> \<not> u)"

lemma binary_approx_from: "approx r u \<Longrightarrow> binary_approx (binary_match_from r reason) u"
  by (auto simp: approx_def binary_approx_def binary_match_from_def split: option.splits bool.splits)

lemma binary_approx_or: "binary_approx a u \<Longrightarrow> binary_approx b v \<Longrightarrow> binary_approx (binary_logic_or a b) (u \<or> v)"
  by (cases a; cases b) (auto simp: binary_approx_def)

lemma exprs_match_binary_sound:
  assumes "default_ok (ec_default_filter ecx)" "binary_approx acc u"
  shows "\<exists>m. exprs_match_binary (Suc (Suc fuel)) ecx (binary_query_of q) acc es = Some m \<and>
     binary_approx m (u \<or> (\<exists>e \<in> set es. test_sem (ec_regex ecx) (ec_default_filter ecx) q lookup e))"
  using assms(2)
proof (induction es arbitrary: acc u)
  case (Cons e es)
  obtain r where r: "matches_binary (Suc (Suc fuel)) (ec_regex ecx) (ec_default_filter ecx) (binary_query_of q) e = Some r"
    "approx r (test_sem (ec_regex ecx) (ec_default_filter ecx) q lookup e)"
    using matches_binary_known [OF assms(1), of fuel "ec_regex ecx" q e lookup]
    by (auto simp: known_as_def simp del: matches_binary.simps)
  show ?case
    using Cons.IH [OF binary_approx_or [OF Cons.prems binary_approx_from [OF r(2)]]] r(1)
    by (auto simp: disj_assoc simp del: matches_binary.simps)
qed (simp add: assms)

fun mismatch_of :: "binary_mismatch_reason \<Rightarrow> mismatch_reason" where
  "mismatch_of BExpression = MExpression"
| "mismatch_of BDefaultSet = MDefaultFilter"

lemma exprs_mismatch_reason:
  "exprs_match_binary fuel ecx bq acc es = Some (BinaryMismatch r) \<Longrightarrow> (\<forall>r'. acc = BinaryMismatch r' \<longrightarrow> r' = BExpression) \<Longrightarrow>
     r = BExpression"
proof (induction es arbitrary: acc)
  case (Cons e es)
  obtain v where v: "matches_binary fuel (ec_regex ecx) (ec_default_filter ecx) bq e = Some v"
    using Cons.prems(1) by (auto split: Option.bind_splits)
  have "\<forall>r'. binary_logic_or acc (binary_match_from v BExpression) = BinaryMismatch r' \<longrightarrow> r' = BExpression"
    using Cons.prems(2) by (cases acc) (auto simp: binary_match_from_def split: option.splits bool.splits)
  with Cons v show ?case by auto
qed simp

lemma binary_and_mismatch:
  "binary_is_match m \<Longrightarrow> binary_logic_and m (binary_match_from v BDefaultSet) = BinaryMismatch r \<Longrightarrow>
     v = Some False \<and> r = BDefaultSet"
  by (cases m) (auto simp: binary_match_from_def split: option.splits bool.splits)

lemma check_match_sound:
  assumes "default_ok (ec_default_filter ecx)"
    "check_match (Suc (Suc fuel)) exprs (binary_query_of q) ecx bound = Some (BinaryMismatch r)"
  shows "if r = BExpression then \<not> exprs_sem ecx q groups exprs
         else bound = BoundDefaultSet \<and> \<not> default_sem ecx q"
proof -
  define er where "er = (case exprs of ExprsAll \<Rightarrow> Some Definite
        | ExprsSets es \<Rightarrow> exprs_match_binary (Suc (Suc fuel)) ecx (binary_query_of q) (BinaryMismatch BExpression) es)"
  obtain m where m: "er = Some m" "binary_approx m (exprs_sem ecx q groups exprs)"
  proof (cases exprs)
    case ExprsAll
    then show ?thesis using that by (simp add: er_def binary_approx_def exprs_sem_def)
  next
    case (ExprsSets es)
    then show ?thesis
      using that exprs_match_binary_sound [OF assms(1), of "BinaryMismatch BExpression" False fuel q es "lookup_of groups"]
      by (auto simp: er_def exprs_sem_def binary_approx_def)
  qed
  have reason: "m = BinaryMismatch r' \<Longrightarrow> r' = BExpression" for r'
    using m(1) exprs_mismatch_reason [of "Suc (Suc fuel)" ecx "binary_query_of q" "BinaryMismatch BExpression" _ r']
    by (cases exprs) (auto simp: er_def)
  obtain v where v: "matches_binary (Suc (Suc fuel)) (ec_regex ecx) (ec_default_filter ecx) (binary_query_of q)
      (ec_default_filter ecx) = Some v" "approx v (default_sem ecx q)"
    using matches_binary_known [OF assms(1), of fuel "ec_regex ecx" q "ec_default_filter ecx" "\<lambda>_ _. False"]
    by (auto simp: known_as_def default_sem_def simp del: matches_binary.simps)
  have check: "(if \<not> binary_is_match m then m else case bound of BoundAll \<Rightarrow> m
      | BoundDefaultSet \<Rightarrow> binary_logic_and m (binary_match_from v BDefaultSet)) = BinaryMismatch r"
    using assms(2) m(1) v(1)
    by (auto simp: check_match_def er_def [symmetric] simp del: matches_binary.simps split: filter_bound.splits if_splits)
  show ?thesis
  proof (cases "binary_is_match m")
    case True
    with check have "bound = BoundDefaultSet" "v = Some False \<and> r = BDefaultSet"
      using binary_and_mismatch [OF True, of v r] by (auto split: filter_bound.splits)
    then show ?thesis using v(2) by (simp add: approx_def)
  next
    case False
    then have "m = BinaryMismatch r" using check by simp
    then show ?thesis using reason m(2) by (simp add: binary_approx_def)
  qed
qed


section \<open>Claims\<close>

text \<open>
  The groups are looked up exactly if the filter has \<open>group()\<close> predicates, as the test list does.
\<close>

definition groups_for :: "test_filter \<Rightarrow> group_lookup \<Rightarrow> group_lookup option" where
  "groups_for f lookup = (if has_group_predicates f then Some lookup else None)"

lemma groups_for_ok: "exprs_ok (groups_for f lookup) (tf_exprs f)"
  by (auto simp: exprs_ok_def groups_for_def has_group_predicates_def list_ex_iff group_free_def
      has_group_matchers_leaves split: test_filter_exprs.splits)

lemma leaf_sem_lookup: "\<not> is_group_leaf l \<Longrightarrow> leaf_sem re d q l1 l = leaf_sem re d q l2 l"
  by (cases l) simp_all

lemma group_free_lookup: "group_free e \<Longrightarrow> test_sem re df q l1 e = test_sem re df q l2 e"
  unfolding test_sem_def by (intro denote_cong leaf_sem_lookup) (simp add: group_free_def)

lemma groups_for_sem: "exprs_sem ecx q (groups_for f lookup) (tf_exprs f) = exprs_sem ecx q (Some lookup) (tf_exprs f)"
proof (cases "groups_for f lookup = None \<and> tf_exprs f \<noteq> ExprsAll")
  case True
  then obtain es where es: "tf_exprs f = ExprsSets es" by (cases "tf_exprs f") auto
  then have "\<forall>e \<in> set es. group_free e"
    using groups_for_ok [of f lookup] True by (simp add: exprs_ok_def)
  then have "(\<exists>e \<in> set es. test_sem re df q l1 e) = (\<exists>e \<in> set es. test_sem re df q l2 e)" for re df q l1 l2
    using group_free_lookup by (intro bex_cong) auto
  then show ?thesis by (simp add: exprs_sem_def es)
next
  case False
  then show ?thesis by (auto simp: groups_for_def exprs_sem_def split: if_splits)
qed

text \<open>
  C17. The test filter built from patterns, filtersets and options decides every test without
  panic. Whatever the order of the checks, it selects a test exactly if the test fits the run
  mode and the \<open>--run-ignored\<close> option, did not pass in the run being rerun, is selected by the
  string patterns, by one of the filtersets and, unless it is overridden, by the default
  filter; otherwise it reports the first of these conditions that fails. Assumed are the
  documented behaviour of the string matcher, that the default filter was compiled as such, and
  that the patterns are not just exact skip patterns.
\<close>

theorem filter_selects_exactly:
  assumes "aho_ok aho" "\<not> only_skip_exact patterns"
    and "compile re graph ed KDefaultFilter kg = Ret (Inr (ec_default_filter ecx))"
    and "test_filter_new aho mode ri patterns exprs = Inr f"
  shows "test_filter_match (Suc (Suc fuel)) (set_outstanding_tests passing f) bq t kind ecx bound ignored
       (groups_for f lookup) = Some (Ret
     (let q = \<lparr>binary_query_of = bq, tq_test_name = t\<rparr>
      in if mode = ModeBenchmark \<and> kind \<noteq> kind_bench then Mismatch MNotBenchmark
         else if \<exists>names. passing (bq_binary_id bq) = Some names \<and> t \<in> names then Mismatch MRerunAlreadyPassed
         else if ri = IgnoredDefault \<and> ignored \<or> ri = IgnoredOnly \<and> \<not> ignored then Mismatch MIgnored
         else if \<not> patterns_sem patterns (case_str t) then Mismatch MString
         else if exprs \<noteq> [] \<and> (\<forall>e \<in> set exprs. \<not> test_sem (ec_regex ecx) (ec_default_filter ecx) q lookup e)
           then Mismatch MExpression
         else if bound = BoundDefaultSet \<and> \<not> default_sem ecx q then Mismatch MDefaultFilter
         else Matches))"
proof -
  let ?f = "set_outstanding_tests passing f"
  obtain r where r: "patterns_resolve aho patterns = Inr r"
    "f = \<lparr>tf_mode = mode, tf_rerun_info = None, tf_run_ignored = ri, tf_patterns = r,
          tf_exprs = binary_filter_new exprs\<rparr>"
    using assms(4) by (auto simp: test_filter_new_def split: sum.splits)
  have fs: "tf_mode ?f = mode" "tf_run_ignored ?f = ri" "tf_patterns ?f = r" "tf_exprs ?f = tf_exprs f"
    "tf_exprs f = binary_filter_new exprs" "tf_rerun_info ?f = Some passing"
    by (simp_all add: r(2) set_outstanding_tests_def)
  have e: "exprs_sem ecx q (groups_for f lookup) (binary_filter_new exprs) \<longleftrightarrow> exprs = [] \<or>
      (\<exists>e \<in> set exprs. test_sem (ec_regex ecx) (ec_default_filter ecx) q lookup e)" for q
    using groups_for_sem [of ecx q f lookup]
    by (simp add: fs(5) exprs_sem_def binary_filter_new_def lookup_of_def)
  have "test_filter_match (Suc (Suc fuel)) ?f bq t kind ecx bound ignored (groups_for f lookup) =
      Some (Ret (filter_decision ?f ecx bq t kind bound ignored (groups_for f lookup)))"
    using groups_for_ok [of f lookup] compile_default_ok [OF assms(3)]
    by (intro test_filter_match_decides) (simp_all add: fs)
  moreover have "is_rerun_already_passed ?f b t \<longleftrightarrow> (\<exists>names. passing b = Some names \<and> t \<in> names)" for b
    by (auto simp: is_rerun_already_passed_def fs(6) split: option.splits)
  moreover have "\<not> bound_sem ecx q bound \<longleftrightarrow> bound = BoundDefaultSet \<and> \<not> default_sem ecx q" for q
    by (cases bound) (simp_all add: bound_sem_def)
  moreover have "name_match r t = NameMismatch MString \<longleftrightarrow> \<not> patterns_sem patterns (case_str t)"
    by (rule name_match_resolved [OF assms(1) r(1) assms(2)])
  ultimately show ?thesis by (simp add: filter_decision_def fs e cong: if_cong)
qed

text \<open>A string matcher that satisfies the assumption, and a filter for tests with \<open>slow\<close> in their name.\<close>

definition ex_aho :: "string aho_corasick" where
  "ex_aho ps = Inr (\<lambda>s. \<exists>p \<in> set ps. str_contains s p)"

definition ex_ecx :: eval_context where
  "ex_ecx = \<lparr>ec_regex = ex_engine, ec_default_filter = CSet LAll\<rparr>"

definition ex_filter :: test_filter where
  "ex_filter = \<lparr>tf_mode = ModeTest, tf_rerun_info = None, tf_run_ignored = IgnoredDefault,
     tf_patterns = ResolvedPatterns [''slow''] {} [] {} (\<lambda>s. \<exists>p \<in> set [''slow'']. str_contains s p) (\<lambda>s. \<exists>p \<in> set []. str_contains s p),
     tf_exprs = ExprsSets [ex_compiled]\<rparr>"

lemma ex_aho_ok: "aho_ok ex_aho"
  by (simp add: aho_ok_def ex_aho_def)

lemma ex_filter_new:
  "test_filter_new ex_aho ModeTest IgnoredDefault (Patterns [''slow''] {} [] {}) [ex_compiled] = Inr ex_filter"
  by (simp add: test_filter_new_def ex_aho_def ex_filter_def binary_filter_new_def)

theorem filter_selects_exactly_witness:
  "test_filter_match 2 (set_outstanding_tests (\<lambda>_. None) ex_filter) (binary_query_of (ex_query ''slow_one''))
     (TestCaseName ''slow_one'') kind_test ex_ecx BoundAll False (groups_for ex_filter (\<lambda>_ _. False)) =
     Some (Ret (Mismatch MExpression))"
proof -
  have "compile ex_engine ex_graph (ESet PAll) KDefaultFilter Unavailable = Ret (Inr (ec_default_filter ex_ecx))"
    using ex_compile_default by (simp add: ex_ecx_def)
  moreover have "str_contains ''slow_one'' ''slow''" by code_simp
  moreover have "\<not> test_sem ex_engine (CSet LAll) (ex_query ''slow_one'') (\<lambda>_ _. False) ex_compiled" by code_simp
  ultimately show ?thesis
    using filter_selects_exactly [OF ex_aho_ok _ _ ex_filter_new, of ex_engine ex_graph "ESet PAll" Unavailable ex_ecx 0
        "\<lambda>_. None" "binary_query_of (ex_query ''slow_one'')" "TestCaseName ''slow_one''" kind_test BoundAll False "\<lambda>_ _. False"]
    by (simp add: occurs_any_def numeral_2_eq_2 ex_ecx_def ex_query_def)
qed

text \<open>
  C25. Skipping a binary is sound: when its filtersets and the default filter say that the
  binary need not be listed, no test it could have would be selected, and tests that are not
  ruled out otherwise would be reported with the same reason.
\<close>

theorem skipped_binary_selects_nothing:
  assumes "compile re graph ed KDefaultFilter kg = Ret (Inr (ec_default_filter ecx))"
    and "filter_binary_match_of (Suc (Suc fuel)) f bq ecx bound = Some (BinaryMismatch r)"
  shows "\<exists>reason. test_filter_match (Suc (Suc fuel)) f bq t kind ecx bound ignored (groups_for f lookup) =
       Some (Ret (Mismatch reason)) \<and>
     (reason \<in> {MNotBenchmark, MRerunAlreadyPassed, MIgnored, MString, MExpression} \<or> reason = mismatch_of r)"
proof -
  let ?q = "\<lparr>binary_query_of = bq, tq_test_name = t\<rparr>"
  have ok: "default_ok (ec_default_filter ecx)" by (rule compile_default_ok [OF assms(1)])
  have "if r = BExpression then \<not> exprs_sem ecx ?q (groups_for f lookup) (tf_exprs f)
      else bound = BoundDefaultSet \<and> \<not> default_sem ecx ?q"
    using check_match_sound [OF ok, of fuel "tf_exprs f" ?q bound r "groups_for f lookup"] assms(2)
    by (simp add: filter_binary_match_of_def)
  then show ?thesis
    using test_filter_match_decides [OF ok groups_for_ok [of f lookup], of fuel bq t kind bound ignored]
    by (cases r) (auto simp: filter_decision_def Let_def bound_sem_def split: if_splits)
qed

theorem skipped_binary_selects_nothing_witness:
  "\<exists>reason. test_filter_match 2 (test_filter_default_set ModeTest IgnoredAll) (binary_query_of (ex_query ''a''))
     (TestCaseName ''a'') kind_test \<lparr>ec_regex = ex_engine, ec_default_filter = CSet LNone\<rparr> BoundDefaultSet False
     (groups_for (test_filter_default_set ModeTest IgnoredAll) (\<lambda>_ _. False)) = Some (Ret (Mismatch reason))"
proof -
  have c: "compile ex_engine ex_graph (ESet PNone) KDefaultFilter Unavailable =
      Ret (Inr (ec_default_filter \<lparr>ec_regex = ex_engine, ec_default_filter = CSet LNone\<rparr>))" by code_simp
  have b: "filter_binary_match_of (Suc (Suc 0)) (test_filter_default_set ModeTest IgnoredAll)
      (binary_query_of (ex_query ''a'')) \<lparr>ec_regex = ex_engine, ec_default_filter = CSet LNone\<rparr> BoundDefaultSet =
      Some (BinaryMismatch BDefaultSet)" by code_simp
  show ?thesis
    using skipped_binary_selects_nothing [OF c b, of "TestCaseName ''a''" kind_test False "\<lambda>_ _. False"]
    by (auto simp: numeral_2_eq_2)
qed

text \<open>
  An exact skip pattern given alone is forgotten: a filter built from \<open>--skip x --exact\<close>,
  without other patterns, selects the test \<open>x\<close>.
\<close>

theorem lone_exact_skip_ignored:
  assumes "test_filter_new aho mode IgnoredAll (add_skip_exact_pattern x (patterns_new [])) [] = Inr f"
    and "mode = ModeBenchmark \<longrightarrow> kind = kind_bench"
  shows "test_filter_match fuel f bq (TestCaseName x) kind ecx BoundAll ignored None = Some (Ret Matches)"
  using assms
  by (auto simp: test_filter_new_def patterns_new_def patterns_default_def test_filter_match_def Let_def
      filter_benchmark_mismatch_def is_rerun_already_passed_def filter_match_base_def filter_ignored_mismatch_def
      filter_expression_match_def matches_expression_def binary_filter_new_def filter_name_match_of_def)

theorem lone_exact_skip_ignored_witness:
  "test_filter_match 1 (test_filter_default_set ModeTest IgnoredAll) (binary_query_of (ex_query ''a''))
     (TestCaseName ''slow_module::my_test'') kind_test ex_ecx BoundAll False None = Some (Ret Matches)"
proof -
  have "test_filter_new ex_aho ModeTest IgnoredAll (add_skip_exact_pattern ''slow_module::my_test'' (patterns_new [])) [] =
      Inr (test_filter_default_set ModeTest IgnoredAll)"
    by (simp add: test_filter_new_def patterns_new_def patterns_default_def test_filter_default_set_def)
  then show ?thesis by (rule lone_exact_skip_ignored) simp
qed

end
