(* ===== verification/Test_List_Props.thy ===== *)
theory Test_List_Props
  imports Test_List Filter_Props
begin

text \<open>
  Properties of the test list: what partitioning does to every test of every suite, that the
  shards of a run divide the selected tests among them, evenly for slices, also in a rerun;
  what the list contains, in which order, and how it is counted and queued.
\<close>

section \<open>Partitioning one sequence of tests\<close>

text \<open>
  The partitioner counts a test if it was selected or already passed in the run being rerun;
  of those it counts, it excludes the selected ones of other shards. \<open>hit\<close> says which of the
  counted tests, by position and name, are in the shard.
\<close>

definition counts :: "bool \<Rightarrow> rust_test_case \<Rightarrow> bool" where
  "counts ign tc \<longleftrightarrow> tc_ignored tc = ign \<and> tc_filter_match tc \<in> {Matches, Mismatch MRerunAlreadyPassed}"

definition decide :: "(nat \<Rightarrow> string \<Rightarrow> bool) \<Rightarrow> nat \<Rightarrow> rust_test_case \<Rightarrow> rust_test_case" where
  "decide hit j tc = (if tc_filter_match tc = Matches \<and> \<not> hit j (case_str (tc_name tc))
     then tc\<lparr>tc_filter_match := Mismatch MPartition\<rparr> else tc)"

fun mark :: "bool \<Rightarrow> (nat \<Rightarrow> string \<Rightarrow> bool) \<Rightarrow> nat \<Rightarrow> rust_test_case list \<Rightarrow> rust_test_case list" where
  "mark ign hit j [] = []"
| "mark ign hit j (tc # tcs) =
     (if counts ign tc then decide hit j tc # mark ign hit (Suc j) tcs else tc # mark ign hit j tcs)"

definition counted :: "bool \<Rightarrow> rust_test_case list \<Rightarrow> nat" where
  "counted ign tcs = length (filter (counts ign) tcs)"

lemma counted_simps [simp]:
  "counted ign [] = 0" "counted ign (tc # tcs) = (if counts ign tc then Suc (counted ign tcs) else counted ign tcs)"
  "counted ign (xs @ ys) = counted ign xs + counted ign ys"
  by (simp_all add: counted_def)

lemma length_mark [simp]: "length (mark ign hit j tcs) = length tcs"
  by (induction tcs arbitrary: j) auto

lemma decide_fields [simp]:
  "tc_ignored (decide hit j tc) = tc_ignored tc" "tc_name (decide hit j tc) = tc_name tc"
  by (simp_all add: decide_def)

lemma nth_mark:
  "i < length tcs \<Longrightarrow> mark ign hit j tcs ! i =
     (if counts ign (tcs ! i) then decide hit (j + counted ign (take i tcs)) (tcs ! i) else tcs ! i)"
proof (induction tcs arbitrary: i j)
  case (Cons tc tcs)
  then show ?case by (cases i) auto
qed simp

lemma counts_ignored: "counts ign tc \<Longrightarrow> tc_ignored tc = ign"
  by (simp add: counts_def)

lemma counted_mark_other: "ign \<noteq> ign' \<Longrightarrow> counted ign (mark ign' hit j tcs) = counted ign tcs"
proof (induction tcs arbitrary: j)
  case (Cons tc tcs)
  have "counts ign' tc \<Longrightarrow> \<not> counts ign tc \<and> \<not> counts ign (decide hit j tc)"
    using Cons.prems by (auto simp: counts_def)
  then show ?case using Cons by auto
qed simp

lemma take_mark: "take i (mark ign hit j tcs) = mark ign hit j (take i tcs)"
proof (induction tcs arbitrary: i j)
  case (Cons tc tcs)
  then show ?case by (cases i) auto
qed simp

lemma apply_marks:
  assumes "valid_builder b"
  shows "apply_partitioner_to_tests xxh ign (state_after b j) tcs =
     Ret (state_after b (j + counted ign tcs), mark ign (in_shard xxh b) j tcs)"
proof (induction tcs arbitrary: j)
  case (Cons tc tcs)
  show ?case
  proof (cases "counts ign tc")
    case True
    then have "apply_partition_to_test xxh (state_after b j) tc = Ret (state_after b (Suc j), decide (in_shard xxh b) j tc)"
      by (auto simp: apply_partition_to_test_def partitioner_step [OF assms] decide_def counts_def)
    then show ?thesis using Cons True by (simp add: counts_ignored)
  next
    case False
    then have "tc_ignored tc = ign \<Longrightarrow> apply_partition_to_test xxh (state_after b j) tc = Ret (state_after b j, tc)"
      by (auto simp: apply_partition_to_test_def counts_def split: filter_match.splits mismatch_reason.splits)
    then show ?thesis using Cons False by simp
  qed
qed simp

text \<open>Both passes over one sequence: every test is decided at its place among those of its kind.\<close>

definition mark_both :: "(nat \<Rightarrow> string \<Rightarrow> bool) \<Rightarrow> nat \<Rightarrow> nat \<Rightarrow> rust_test_case list \<Rightarrow> rust_test_case list" where
  "mark_both hit j k tcs = mark True hit k (mark False hit j tcs)"

lemma length_mark_both [simp]: "length (mark_both hit j k tcs) = length tcs"
  by (simp add: mark_both_def)

lemma nth_mark_both:
  assumes "i < length tcs"
  shows "mark_both hit j k tcs ! i =
     (let tc = tcs ! i; c = (if tc_ignored tc then k else j) + counted (tc_ignored tc) (take i tcs)
      in if counts (tc_ignored tc) tc then decide hit c tc else tc)"
proof (cases "tc_ignored (tcs ! i)")
  case True
  then have "\<not> counts False (tcs ! i)" by (simp add: counts_def)
  then show ?thesis using assms True
    by (simp add: mark_both_def nth_mark take_mark counted_mark_other)
next
  case False
  then have "\<not> counts True (tcs ! i)" "\<not> counts True (decide hit c (tcs ! i))" for c by (auto simp: counts_def)
  then show ?thesis using assms False by (simp add: mark_both_def nth_mark)
qed


section \<open>Partitioning all suites\<close>

abbreviation cases_of :: "rust_test_suite \<Rightarrow> rust_test_case list" where
  "cases_of s \<equiv> suite_test_cases (ts_status s)"

definition with_cases :: "rust_test_case list \<Rightarrow> rust_test_suite \<Rightarrow> rust_test_suite" where
  "with_cases tcs s = (case ts_status s of
     SuiteSkipped _ \<Rightarrow> s | SuiteListed _ \<Rightarrow> s\<lparr>ts_status := SuiteListed tcs\<rparr>)"

lemma with_cases_simps [simp]:
  "ts_query (with_cases tcs s) = ts_query s"
  "cases_of (with_cases tcs s) = (case ts_status s of SuiteSkipped _ \<Rightarrow> [] | SuiteListed _ \<Rightarrow> tcs)"
  by (simp_all add: with_cases_def split: rust_test_suite_status.splits)

definition all_cases :: "rust_test_suite list \<Rightarrow> rust_test_case list" where
  "all_cases suites = concat (map cases_of suites)"

text \<open>
  The number of tests of a kind that the partitioner has counted when it comes to the suite at
  position \<open>s\<close>: those of the suites before it, or none if every suite has its own partitioner.
\<close>

definition offset :: "partitioner_builder \<Rightarrow> bool \<Rightarrow> rust_test_suite list \<Rightarrow> nat \<Rightarrow> nat" where
  "offset b ign suites s = (case partitioner_scope_of b of
     PerBinary \<Rightarrow> 0 | CrossBinary \<Rightarrow> counted ign (all_cases (take s suites)))"

definition shard_suite :: "xxh64 \<Rightarrow> partitioner_builder \<Rightarrow> rust_test_suite list \<Rightarrow> nat \<Rightarrow> rust_test_suite" where
  "shard_suite xxh b suites s = with_cases
     (mark_both (in_shard xxh b) (offset b False suites s) (offset b True suites s) (cases_of (suites ! s)))
     (suites ! s)"

lemma with_cases_id: "ts_status s = SuiteSkipped r \<Longrightarrow> with_cases tcs s = s"
  by (simp add: with_cases_def)

lemma per_binary:
  assumes "valid_builder b"
  shows "apply_per_binary_partitioning xxh b suites =
     Ret (map (\<lambda>s. with_cases (mark_both (in_shard xxh b) 0 0 (cases_of s)) s) suites)"
proof (induction suites)
  case (Cons s suites)
  show ?case
  proof (cases "ts_status s")
    case (SuiteListed tcs)
    then show ?thesis
      using Cons apply_marks [OF assms, of xxh _ 0]
      by (simp add: state_after_0 with_cases_def mark_both_def)
  next
    case (SuiteSkipped r)
    then show ?thesis using Cons by (simp add: with_cases_id)
  qed
qed simp

fun cross_marks :: "bool \<Rightarrow> (nat \<Rightarrow> string \<Rightarrow> bool) \<Rightarrow> nat \<Rightarrow> rust_test_suite list \<Rightarrow> rust_test_suite list" where
  "cross_marks ign hit j [] = []"
| "cross_marks ign hit j (s # ss) =
     with_cases (mark ign hit j (cases_of s)) s # cross_marks ign hit (j + counted ign (cases_of s)) ss"

lemma cross_pass:
  assumes "valid_builder b"
  shows "cross_binary_pass xxh ign (state_after b j) suites = Ret (cross_marks ign (in_shard xxh b) j suites)"
proof (induction suites arbitrary: j)
  case (Cons s suites)
  then show ?case
    by (cases "ts_status s") (simp_all add: apply_marks [OF assms] with_cases_def)
qed simp

lemma length_cross_marks [simp]: "length (cross_marks ign hit j suites) = length suites"
  by (induction suites arbitrary: j) auto

lemma all_cases_simps [simp]:
  "all_cases [] = []" "all_cases (s # ss) = cases_of s @ all_cases ss"
  by (simp_all add: all_cases_def)

lemma nth_cross_marks:
  "s < length suites \<Longrightarrow> cross_marks ign hit j suites ! s =
     with_cases (mark ign hit (j + counted ign (all_cases (take s suites))) (cases_of (suites ! s))) (suites ! s)"
proof (induction suites arbitrary: s j)
  case (Cons x suites)
  then show ?case by (cases s) (auto simp: add.assoc)
qed simp

lemma take_cross_marks: "take s (cross_marks ign hit j suites) = cross_marks ign hit j (take s suites)"
proof (induction suites arbitrary: s j)
  case (Cons x suites)
  then show ?case by (cases s) auto
qed simp

lemma cases_of_skipped: "cases_of (with_cases (mark ign hit j (cases_of s)) s) = mark ign hit j (cases_of s)"
  by (cases "ts_status s") simp_all

lemma counted_cross_other:
  "ign \<noteq> ign' \<Longrightarrow> counted ign (all_cases (cross_marks ign' hit j suites)) = counted ign (all_cases suites)"
proof (induction suites arbitrary: j)
  case (Cons s suites)
  then show ?case by (simp add: cases_of_skipped counted_mark_other del: with_cases_simps(2))
qed simp

lemma with_cases_twice: "with_cases xs (with_cases ys s) = with_cases xs s"
  by (simp add: with_cases_def split: rust_test_suite_status.splits)

theorem partitioned:
  assumes "valid_builder b"
  shows "apply_partitioning xxh (Some b) suites = Ret (map (shard_suite xxh b suites) [0..<length suites])"
proof (cases "partitioner_scope_of b")
  case PerBinary
  then have "apply_partitioning xxh (Some b) suites =
      Ret (map (\<lambda>s. with_cases (mark_both (in_shard xxh b) 0 0 (cases_of s)) s) suites)"
    by (simp add: apply_partitioning_def per_binary [OF assms])
  also have "map (\<lambda>s. with_cases (mark_both (in_shard xxh b) 0 0 (cases_of s)) s) suites =
      map (shard_suite xxh b suites) [0..<length suites]"
    by (rule nth_equalityI) (simp_all add: shard_suite_def offset_def PerBinary)
  finally show ?thesis .
next
  case CrossBinary
  let ?h = "in_shard xxh b"
  have "apply_partitioning xxh (Some b) suites = Ret (cross_marks True ?h 0 (cross_marks False ?h 0 suites))"
    using cross_pass [OF assms, of xxh _ 0]
    by (simp add: apply_partitioning_def CrossBinary apply_cross_binary_partitioning_def state_after_0)
  also have "cross_marks True ?h 0 (cross_marks False ?h 0 suites) = map (shard_suite xxh b suites) [0..<length suites]"
    by (rule nth_equalityI)
      (simp_all add: shard_suite_def offset_def CrossBinary nth_cross_marks take_cross_marks counted_cross_other
        cases_of_skipped with_cases_twice mark_both_def del: with_cases_simps(2))
  finally show ?thesis .
qed

text \<open>The case at position \<open>i\<close> of the suite at position \<open>s\<close>, before and after.\<close>

definition place :: "partitioner_builder \<Rightarrow> rust_test_suite list \<Rightarrow> nat \<Rightarrow> nat \<Rightarrow> nat" where
  "place b suites s i =
     (let ign = tc_ignored (cases_of (suites ! s) ! i)
      in offset b ign suites s + counted ign (take i (cases_of (suites ! s))))"

lemma shard_case:
  assumes "s < length suites" "i < length (cases_of (suites ! s))"
  shows "cases_of (shard_suite xxh b suites s) ! i =
     (let tc = cases_of (suites ! s) ! i
      in if counts (tc_ignored tc) tc then decide (in_shard xxh b) (place b suites s i) tc else tc)"
proof -
  obtain tcs where "ts_status (suites ! s) = SuiteListed tcs"
    using assms(2) by (cases "ts_status (suites ! s)") auto
  then show ?thesis
    using assms by (simp add: shard_suite_def nth_mark_both Let_def place_def)
qed

lemma length_shard_suite [simp]: "length (cases_of (shard_suite xxh b suites s)) = length (cases_of (suites ! s))"
  by (cases "ts_status (suites ! s)") (simp_all add: shard_suite_def)

end
