(* ===== verification/Test_List_Claims.thy ===== *)
theory Test_List_Claims
  imports Test_List_Props
begin

text \<open>The properties of partitioning and of the test list, each applied to a small list.\<close>

section \<open>A concrete list\<close>

definition ex_xxh :: xxh64 where "ex_xxh s = of_nat (length s)"

definition ex_case :: "string \<Rightarrow> bool \<Rightarrow> filter_match \<Rightarrow> rust_test_case" where
  "ex_case name ignored m = \<lparr>tc_name = TestCaseName name, tc_kind = Some kind_test, tc_ignored = ignored,
     tc_filter_match = m\<rparr>"

definition ex_suites :: "rust_test_suite list" where
  "ex_suites =
     [\<lparr>ts_query = binary_query_of (ex_query ''''), ts_status = SuiteListed
        [ex_case ''a'' False Matches, ex_case ''bb'' False (Mismatch MString), ex_case ''c'' True Matches,
         ex_case ''ddd'' False Matches, ex_case ''e'' False Matches]\<rparr>]"

lemmas ex_list_defs = ex_xxh_def ex_case_def ex_suites_def ex_query_def


section \<open>Shards\<close>

text \<open>
  The syntax of partitions accepts exactly the shards between 1 and the number of shards:
  whatever it accepts is such a shard, and every such shard is accepted in its decimal form.
  For these, building and stepping the partitioner stays within 64 bits: the next position is
  below the number of shards and no step divides by zero.
\<close>

theorem accepted_shards_in_bounds:
  assumes "parse_partitioner s = Inr b"
  shows "1 \<le> pb_shard b \<and> pb_shard b \<le> pb_total_shards b \<and>
     parse_partitioner (show_partitioner b) = Inr b \<and>
     (\<forall>j. \<exists>m. partitioner_test_matches xxh (state_after b j) name = Ret (state_after b (Suc j), m)) \<and>
     (\<forall>j p. state_after b j = CountPart p \<longrightarrow> cp_curr p < cp_total_shards p)"
proof -
  have v: "valid_builder b" using assms by (rule parse_partitioner_valid)
  then have n: "pb_total_shards b \<noteq> 0" by (rule valid_builder_pos)
  have "cp_curr p < cp_total_shards p" if "state_after b j = CountPart p" for j p
    using that n by (cases b) (auto simp: state_after_def count_partitioner_new_def word_less_nat_alt unat_of_nat_mod unat_gt_0)
  then show ?thesis
    using v partitioner_step [OF v] parse_partitioner_show [OF v] by (auto simp: valid_builder_def)
qed

theorem accepted_shards_in_bounds_witness:
  "parse_partitioner (show_partitioner (SliceBuilder 2 3)) = Inr (SliceBuilder 2 3)"
proof -
  have "parse_partitioner ''slice:2/3'' = Inr (SliceBuilder 2 3)" by code_simp
  from accepted_shards_in_bounds [OF this] show ?thesis by blast
qed

lemma suc_bucket:
  assumes "1 \<le> (n :: u64)" "mk \<in> {CountBuilder, HashBuilder, SliceBuilder}" "1 \<le> m" "m \<le> n"
  shows "in_shard xxh (mk m n) j name \<longleftrightarrow> m = of_nat (Suc (bucket xxh (mk n n) j name))"
proof -
  have b: "bucket xxh (mk m n) j name = bucket xxh (mk n n) j name" "pb_shard (mk m n) = m"
    using assms(2) by (auto simp: bucket_def)
  have "valid_builder (mk n n)" "pb_total_shards (mk n n) = n" using assms(1,2) by (auto simp: valid_builder_def)
  then have "bucket xxh (mk n n) j name < unat n" using bucket_lt by metis
  moreover have "unat n < 2 ^ LENGTH(64)" by (rule unsigned_less)
  ultimately have "unat (of_nat (Suc (bucket xxh (mk n n) j name)) :: u64) = Suc (bucket xxh (mk n n) j name)"
    by (simp add: unsigned_of_nat take_bit_nat_eq_self del: of_nat_Suc)
  then show ?thesis unfolding in_shard_def b by (metis word_unat_eq_iff)
qed

lemma bucket_shard:
  assumes "1 \<le> (n :: u64)" "mk \<in> {CountBuilder, HashBuilder, SliceBuilder}"
  shows "1 \<le> (of_nat (Suc (bucket xxh (mk n n) j name)) :: u64)" "of_nat (Suc (bucket xxh (mk n n) j name)) \<le> n"
proof -
  have "valid_builder (mk n n)" "pb_total_shards (mk n n) = n" using assms by (auto simp: valid_builder_def)
  then have lt: "bucket xxh (mk n n) j name < unat n" using bucket_lt by metis
  moreover have "unat n < 2 ^ LENGTH(64)" by (rule unsigned_less)
  ultimately have "unat (of_nat (Suc (bucket xxh (mk n n) j name)) :: u64) = Suc (bucket xxh (mk n n) j name)"
    by (simp add: unsigned_of_nat take_bit_nat_eq_self del: of_nat_Suc)
  then show "1 \<le> (of_nat (Suc (bucket xxh (mk n n) j name)) :: u64)" "of_nat (Suc (bucket xxh (mk n n) j name)) \<le> n"
    using lt by (simp_all add: word_le_nat_alt del: of_nat_Suc)
qed

lemma place_builder:
  "mk \<in> {CountBuilder, HashBuilder, SliceBuilder} \<Longrightarrow> place (mk m n) suites s i = place (mk n n) suites s i"
  by (auto simp: place_def offset_def Let_def)

text \<open>
  C4. The shards of a run divide the tests: for every way of partitioning and every number of
  shards, partitioning into any shard succeeds and every selected test stays selected in
  exactly one shard and is excluded from all others because of the partition. Tests that were
  not selected keep their reasons, and nothing else about any test changes.
\<close>

theorem shards_divide_tests:
  assumes "1 \<le> n" "mk \<in> {CountBuilder, HashBuilder, SliceBuilder}"
  shows "\<exists>out. (\<forall>m. 1 \<le> m \<and> m \<le> n \<longrightarrow> apply_partitioning xxh (Some (mk m n)) suites = Ret (out m) \<and>
        length (out m) = length suites) \<and>
     (\<forall>s < length suites. \<forall>i < length (cases_of (suites ! s)).
        let tc = cases_of (suites ! s) ! i in
        \<exists>m. 1 \<le> m \<and> m \<le> n \<and> (\<forall>m'. 1 \<le> m' \<and> m' \<le> n \<longrightarrow> cases_of (out m' ! s) ! i =
          (if tc_filter_match tc = Matches \<and> m' \<noteq> m then tc\<lparr>tc_filter_match := Mismatch MPartition\<rparr> else tc)))"
proof -
  define out where "out m = map (shard_suite xxh (mk m n) suites) [0..<length suites]" for m
  have valid: "1 \<le> m \<Longrightarrow> m \<le> n \<Longrightarrow> valid_builder (mk m n)" for m
    using assms(2) by (auto simp: valid_builder_def)
  have "\<exists>m. 1 \<le> m \<and> m \<le> n \<and> (\<forall>m'. 1 \<le> m' \<and> m' \<le> n \<longrightarrow> cases_of (out m' ! s) ! i =
      (if tc_filter_match tc = Matches \<and> m' \<noteq> m then tc\<lparr>tc_filter_match := Mismatch MPartition\<rparr> else tc))"
    if si: "s < length suites" "i < length (cases_of (suites ! s))" and tc: "tc = cases_of (suites ! s) ! i" for s i tc
  proof -
    define m where "m = (of_nat (Suc (bucket xxh (mk n n) (place (mk n n) suites s i) (case_str (tc_name tc)))) :: u64)"
    have "1 \<le> m" "m \<le> n" unfolding m_def by (rule bucket_shard [OF assms])+
    moreover have "cases_of (out m' ! s) ! i =
        (if tc_filter_match tc = Matches \<and> m' \<noteq> m then tc\<lparr>tc_filter_match := Mismatch MPartition\<rparr> else tc)"
      if m': "1 \<le> m'" "m' \<le> n" for m'
    proof -
      have "in_shard xxh (mk m' n) (place (mk m' n) suites s i) (case_str (tc_name tc)) \<longleftrightarrow> m' = m"
        using suc_bucket [OF assms m'] place_builder [OF assms(2), of m' n suites s i] by (simp add: m_def del: of_nat_Suc)
      then show ?thesis
        using shard_case [OF si, of xxh "mk m' n"] si tc by (auto simp: out_def Let_def decide_def counts_def)
    qed
    ultimately show ?thesis by blast
  qed
  moreover have "\<forall>m. 1 \<le> m \<and> m \<le> n \<longrightarrow> apply_partitioning xxh (Some (mk m n)) suites = Ret (out m) \<and>
      length (out m) = length suites"
    using partitioned [OF valid] by (simp add: out_def)
  ultimately show ?thesis by (intro exI [of _ out]) (simp add: Let_def)
qed

theorem shards_divide_tests_witness:
  "\<exists>out. apply_partitioning ex_xxh (Some (HashBuilder 2 3)) ex_suites = Ret out \<and> length out = 1"
  using shards_divide_tests [of 3 HashBuilder ex_xxh ex_suites] by (auto simp: ex_suites_def)


section \<open>Evenness\<close>

lemma all_cases_cross: "all_cases (cross_marks ign hit j suites) = mark ign hit j (all_cases suites)"
proof (induction suites arbitrary: j)
  case (Cons s suites)
  have "mark ign hit j (xs @ ys) = mark ign hit j xs @ mark ign hit (j + counted ign xs) ys" for xs ys
    by (induction xs arbitrary: j) auto
  then show ?case using Cons by (simp add: cases_of_skipped del: with_cases_simps(2))
qed simp

definition selected :: "bool \<Rightarrow> rust_test_case list \<Rightarrow> nat" where
  "selected ign tcs = length (filter (\<lambda>tc. tc_ignored tc = ign \<and> tc_filter_match tc = Matches) tcs)"

lemma selected_mark_other: "ign \<noteq> ign' \<Longrightarrow> selected ign (mark ign' hit j tcs) = selected ign tcs"
proof (induction tcs arbitrary: j)
  case (Cons tc tcs)
  then show ?case by (auto simp: selected_def counts_def)
qed simp

lemma selected_mark:
  assumes "\<forall>tc \<in> set tcs. tc_filter_match tc \<noteq> Mismatch MRerunAlreadyPassed"
    and "\<And>i name. hit i name = (i mod n = r)"
  shows "selected ign (mark ign hit j tcs) = length (filter (\<lambda>c. c mod n = r) [j..<j + selected ign tcs])"
  using assms(1)
proof (induction tcs arbitrary: j)
  case (Cons tc tcs)
  show ?case
  proof (cases "tc_ignored tc = ign \<and> tc_filter_match tc = Matches")
    case True
    then have "selected ign (tc # tcs) = Suc (selected ign tcs)" by (simp add: selected_def)
    moreover have "selected ign (mark ign hit j (tc # tcs)) =
        (if hit j (case_str (tc_name tc)) then 1 else 0) + selected ign (mark ign hit (Suc j) tcs)"
      using True by (simp add: selected_def counts_def decide_def)
    moreover have "[j..<j + Suc (selected ign tcs)] = j # [Suc j..<Suc j + selected ign tcs]"
      by (simp add: upt_conv_Cons)
    ultimately show ?thesis using Cons.IH [of "Suc j"] Cons.prems by (simp add: assms(2) [of j "case_str (tc_name tc)"] del: upt_Suc mark.simps)
  next
    case False
    then have "\<not> counts ign tc" using Cons.prems by (auto simp: counts_def)
    then show ?thesis using Cons False by (simp add: selected_def)
  qed
qed (simp add: selected_def)

lemma mark_no_rerun:
  "\<forall>tc \<in> set tcs. tc_filter_match tc \<noteq> Mismatch MRerunAlreadyPassed \<Longrightarrow>
     \<forall>tc \<in> set (mark ign hit j tcs). tc_filter_match tc \<noteq> Mismatch MRerunAlreadyPassed"
  by (induction tcs arbitrary: j) (auto simp: decide_def)

lemma residues_count:
  "0 < n \<Longrightarrow> r < n \<Longrightarrow> length (filter (\<lambda>c. c mod n = r) [0..<k]) = k div n + (if r < k mod n then 1 else 0)"
proof (induction k)
  case (Suc k)
  then show ?case by (auto simp: div_Suc mod_Suc)
qed simp

text \<open>
  Slices are even: in a run that is not a rerun, shard \<open>m\<close> of \<open>n\<close> of the tests of all
  binaries together gets the \<open>n\<close>-th part of the selected tests, rounded up for the first shards
  and down for the others, separately for ignored and for other tests.
\<close>

theorem slice_shards_even:
  assumes "1 \<le> m" "m \<le> n"
    and "\<forall>tc \<in> set (all_cases suites). tc_filter_match tc \<noteq> Mismatch MRerunAlreadyPassed"
  shows "\<exists>out. apply_partitioning xxh (Some (SliceBuilder m n)) suites = Ret out \<and>
     (let k = selected ign (all_cases suites)
      in selected ign (all_cases out) = k div unat n + (if unat m \<le> k mod unat n then 1 else 0))"
proof -
  let ?b = "SliceBuilder m n" and ?r = "unat m - 1"
  have valid: "valid_builder ?b" using assms(1,2) by (simp add: valid_builder_def)
  then have r: "?r < unat n" "0 < unat n" "Suc ?r = unat m" by (auto simp: valid_builder_nat)
  let ?h = "in_shard xxh ?b"
  have h: "?h i name = (i mod unat n = ?r)" for i name using r by (auto simp: in_shard_def bucket_def)
  have run: "apply_partitioning xxh (Some ?b) suites = Ret (cross_marks True ?h 0 (cross_marks False ?h 0 suites))"
    using cross_pass [OF valid, of xxh _ 0]
    by (simp add: apply_partitioning_def apply_cross_binary_partitioning_def state_after_0)
  have even: "selected ign (mark ign ?h 0 tcs) =
      (let k = selected ign tcs in k div unat n + (if unat m \<le> k mod unat n then 1 else 0))"
    if "\<forall>tc \<in> set tcs. tc_filter_match tc \<noteq> Mismatch MRerunAlreadyPassed" for tcs
    using selected_mark [OF that, of ?h "unat n" ?r ign 0, OF h] residues_count [OF r(2,1)] r by (simp add: Let_def)
  have norerun: "\<forall>tc \<in> set (mark i ?h j (all_cases suites)). tc_filter_match tc \<noteq> Mismatch MRerunAlreadyPassed" for i j
    using assms(3) by (intro mark_no_rerun)
  show ?thesis
    using run even [OF assms(3)] even [OF norerun, of False 0]
    by (cases ign) (auto simp: all_cases_cross selected_mark_other)
qed

theorem slice_shards_even_witness:
  "\<exists>out. apply_partitioning ex_xxh (Some (SliceBuilder 1 2)) ex_suites = Ret out \<and> selected False (all_cases out) = 2"
proof -
  have "\<forall>tc \<in> set (all_cases ex_suites). tc_filter_match tc \<noteq> Mismatch MRerunAlreadyPassed"
    "selected False (all_cases ex_suites) = 3"
    by (simp_all add: ex_list_defs selected_def)
  then show ?thesis using slice_shards_even [of 1 2 ex_suites ex_xxh False]
    by (simp add: numeral_2_eq_2 [symmetric])
qed


section \<open>Reruns\<close>

text \<open>The suites of a rerun: the tests that passed are marked as such by the filter.\<close>

definition rerun_case :: "test_instance_id set \<Rightarrow> rust_binary_id \<Rightarrow> rust_test_case \<Rightarrow> rust_test_case" where
  "rerun_case P b tc = (if (b, tc_name tc) \<in> P then tc\<lparr>tc_filter_match := Mismatch MRerunAlreadyPassed\<rparr> else tc)"

definition rerun_suites :: "test_instance_id set \<Rightarrow> rust_test_suite list \<Rightarrow> rust_test_suite list" where
  "rerun_suites P = map (\<lambda>s. with_cases (map (rerun_case P (ts_binary_id s)) (cases_of s)) s)"

lemma rerun_case_counts:
  "((b, tc_name tc) \<in> P \<Longrightarrow> tc_filter_match tc = Matches) \<Longrightarrow> counts ign (rerun_case P b tc) = counts ign tc"
  by (auto simp: rerun_case_def counts_def)

lemma rerun_case_fields [simp]: "tc_ignored (rerun_case P b tc) = tc_ignored tc" "tc_name (rerun_case P b tc) = tc_name tc"
  by (simp_all add: rerun_case_def)

lemma cases_of_rerun:
  "s < length suites \<Longrightarrow> cases_of (rerun_suites P suites ! s) =
     map (rerun_case P (ts_binary_id (suites ! s))) (cases_of (suites ! s))"
  by (cases "ts_status (suites ! s)") (simp_all add: rerun_suites_def)

definition passed_were_selected :: "test_instance_id set \<Rightarrow> rust_test_suite list \<Rightarrow> bool" where
  "passed_were_selected P suites \<longleftrightarrow>
     (\<forall>s \<in> set suites. \<forall>tc \<in> set (cases_of s). (ts_binary_id s, tc_name tc) \<in> P \<longrightarrow> tc_filter_match tc = Matches)"

lemma counted_rerun:
  "\<forall>tc \<in> set tcs. (b, tc_name tc) \<in> P \<longrightarrow> tc_filter_match tc = Matches \<Longrightarrow>
     counted ign (map (rerun_case P b) tcs) = counted ign tcs"
  by (induction tcs) (simp_all add: rerun_case_counts)

lemma counted_rerun_suites:
  "passed_were_selected P suites \<Longrightarrow> counted ign (all_cases (rerun_suites P suites)) = counted ign (all_cases suites)"
proof (induction suites)
  case (Cons s suites)
  have "cases_of (with_cases (map (rerun_case P (ts_binary_id s)) (cases_of s)) s) =
      map (rerun_case P (ts_binary_id s)) (cases_of s)"
    by (cases "ts_status s") simp_all
  then show ?case
    using Cons by (simp add: rerun_suites_def passed_were_selected_def counted_rerun del: with_cases_simps(2))
qed (simp add: rerun_suites_def)

lemma place_rerun:
  assumes "passed_were_selected P suites" "s < length suites" "i < length (cases_of (suites ! s))"
  shows "place b (rerun_suites P suites) s i = place b suites s i"
proof -
  have "take s (rerun_suites P suites) = rerun_suites P (take s suites)"
    by (simp add: rerun_suites_def take_map)
  moreover have "passed_were_selected P (take s suites)"
    using assms(1) by (auto simp: passed_were_selected_def dest: in_set_takeD)
  ultimately have "offset b ign (rerun_suites P suites) s = offset b ign suites s" for ign
    by (simp add: offset_def counted_rerun_suites split: partitioner_scope.splits)
  moreover have "counted ign (take i (map (rerun_case P (ts_binary_id (suites ! s))) (cases_of (suites ! s)))) =
      counted ign (take i (cases_of (suites ! s)))" for ign
  proof -
    have "\<forall>tc \<in> set (take i (cases_of (suites ! s))). (ts_binary_id (suites ! s), tc_name tc) \<in> P \<longrightarrow>
        tc_filter_match tc = Matches"
      using assms(1) nth_mem [OF assms(2)] unfolding passed_were_selected_def by (blast dest: in_set_takeD)
    then show ?thesis by (simp add: take_map counted_rerun)
  qed
  ultimately show ?thesis using assms(2,3) by (simp add: place_def cases_of_rerun)
qed

text \<open>
  A rerun keeps the shards: if every test that passed was selected, then after partitioning
  the rerun into the same shard, the tests that passed are skipped as such, and every other
  test is selected or not just as in the shard of the original run.
\<close>

theorem rerun_keeps_shards:
  assumes "valid_builder b" "passed_were_selected P suites"
    and "apply_partitioning xxh (Some b) suites = Ret out"
  shows "\<exists>out'. apply_partitioning xxh (Some b) (rerun_suites P suites) = Ret out' \<and>
     (\<forall>s < length suites. \<forall>i < length (cases_of (suites ! s)).
        cases_of (out' ! s) ! i = rerun_case P (ts_binary_id (suites ! s)) (cases_of (out ! s) ! i))"
proof -
  let ?rs = "rerun_suites P suites"
  have len: "length ?rs = length suites" by (simp add: rerun_suites_def)
  have out: "out = map (shard_suite xxh b suites) [0..<length suites]"
    using assms(3) partitioned [OF assms(1)] by simp
  have "cases_of (shard_suite xxh b ?rs s) ! i =
      rerun_case P (ts_binary_id (suites ! s)) (cases_of (shard_suite xxh b suites s) ! i)"
    if s: "s < length suites" "i < length (cases_of (suites ! s))" for s i
  proof -
    let ?tc = "cases_of (suites ! s) ! i" and ?b = "ts_binary_id (suites ! s)"
    have sel: "(?b, tc_name ?tc) \<in> P \<Longrightarrow> tc_filter_match ?tc = Matches"
      using assms(2) s nth_mem by (fastforce simp: passed_were_selected_def)
    have "cases_of (?rs ! s) ! i = rerun_case P ?b ?tc" using s by (simp add: cases_of_rerun)
    then show ?thesis
      using shard_case [of s ?rs i xxh b] shard_case [OF s, of xxh b] s sel
      by (auto simp: len cases_of_rerun place_rerun [OF assms(2) s] rerun_case_counts Let_def)
        (auto simp: rerun_case_def decide_def)
  qed
  then show ?thesis
    using partitioned [OF assms(1), of xxh ?rs] by (simp add: len out)
qed

theorem rerun_keeps_shards_witness:
  "\<exists>out'. apply_partitioning ex_xxh (Some (CountBuilder 1 2))
     (rerun_suites {(RustBinaryId ''core'', TestCaseName ''a'')} ex_suites) = Ret out'"
proof -
  obtain out where out: "apply_partitioning ex_xxh (Some (CountBuilder 1 2)) ex_suites = Ret out"
    using partitioned [of "CountBuilder 1 2" ex_xxh ex_suites] by (simp add: valid_builder_def)
  show ?thesis
    using rerun_keeps_shards [OF _ _ out, of "{(RustBinaryId ''core'', TestCaseName ''a'')}"]
    by (auto simp: valid_builder_def passed_were_selected_def ex_list_defs)
qed

end
