(* ===== verification/List_Claims.thy ===== *)
theory List_Claims
  imports Test_List_Claims "HOL-Library.Multiset"
begin

text \<open>
  What the test list holds: the parsed names, each once and in order, with the test's final
  ignored flag and the filter's decision; that the list does not depend on which binary is
  listed first; and the order of the queue.
\<close>

section \<open>Ordered maps\<close>

definition strictly_by :: "('a \<Rightarrow> 'k :: linorder) \<Rightarrow> 'a list \<Rightarrow> bool" where
  "strictly_by key = sorted_wrt (\<lambda>a b. key a < key b)"

lemma strictly_by_unique:
  assumes "strictly_by key xs" "strictly_by key ys" "set xs = set ys"
  shows "xs = ys"
proof -
  have s: "sorted (map key zs)" "distinct (map key zs)" "inj_on key (set zs)" if "strictly_by key zs" for zs
  proof -
    have "sorted_wrt (<) (map key zs)" using that by (simp add: strictly_by_def sorted_wrt_map)
    then show "sorted (map key zs)" "distinct (map key zs)" by (auto simp: strict_sorted_iff)
    then show "inj_on key (set zs)" by (simp add: distinct_map)
  qed
  have "map key xs = map key ys"
    using s assms by (intro sorted_distinct_set_unique) auto
  moreover have "inj_on key (set xs \<union> set ys)" using s assms by simp
  ultimately show ?thesis by (rule map_inj_on)
qed

text \<open>
  The documented behaviour of the maps of \<open>iddqd\<close>: items are iterated in the order of their
  keys, inserting overwrites the item with the same key, and collecting items with distinct
  keys keeps them all.
\<close>

definition ord_maps_ok :: "ord_maps \<Rightarrow> bool" where
  "ord_maps_ok om \<longleftrightarrow>
     (\<forall>tc m. strictly_by tc_name m \<longrightarrow> strictly_by tc_name (om_insert_case om tc m) \<and>
        set (om_insert_case om tc m) = insert tc {x \<in> set m. tc_name x \<noteq> tc_name tc}) \<and>
     (\<forall>ss. distinct (map ts_binary_id ss) \<longrightarrow>
        strictly_by ts_binary_id (om_collect_suites om ss) \<and> set (om_collect_suites om ss) = set ss)"

text \<open>Maps kept as sorted lists behave like this.\<close>

definition sorted_maps :: ord_maps where
  "sorted_maps =
     \<lparr>om_insert_case = (\<lambda>tc m. insort_key tc_name tc (filter (\<lambda>x. tc_name x \<noteq> tc_name tc) m)),
      om_collect_suites = sort_key ts_binary_id\<rparr>"

lemma strictly_by_iff: "strictly_by key xs \<longleftrightarrow> sorted (map key xs) \<and> distinct (map key xs)"
  by (simp add: strictly_by_def sorted_wrt_map [symmetric] strict_sorted_iff)

lemma distinct_map_insort:
  "distinct (map key (insort_key key x xs)) \<longleftrightarrow> key x \<notin> set (map key xs) \<and> distinct (map key xs)"
proof -
  have "mset (map key (insort_key key x xs)) = mset (map key (x # xs))" by (simp add: mset_map)
  then show ?thesis by (metis mset_eq_imp_distinct_iff distinct.simps(2) list.simps(9))
qed

lemma sorted_maps_ok: "ord_maps_ok sorted_maps"
proof -
  have "strictly_by tc_name (om_insert_case sorted_maps tc m) \<and>
      set (om_insert_case sorted_maps tc m) = insert tc {x \<in> set m. tc_name x \<noteq> tc_name tc}"
    if "strictly_by tc_name m" for tc m
  proof -
    let ?xs = "filter (\<lambda>x. tc_name x \<noteq> tc_name tc) m"
    have "sorted (map tc_name ?xs)" "distinct (map tc_name ?xs)" "tc_name tc \<notin> set (map tc_name ?xs)"
      using that by (auto simp: strictly_by_iff sorted_filter distinct_map_filter)
    then have "sorted (map tc_name (insort_key tc_name tc ?xs))" "distinct (map tc_name (insort_key tc_name tc ?xs))"
      by (simp_all add: sorted_insort_key distinct_map_insort)
    then show ?thesis by (auto simp: sorted_maps_def strictly_by_iff set_insort_key)
  qed
  moreover have "strictly_by ts_binary_id (om_collect_suites sorted_maps ss) \<and>
      set (om_collect_suites sorted_maps ss) = set ss" if "distinct (map ts_binary_id ss)" for ss
  proof -
    have "mset (map ts_binary_id (sort_key ts_binary_id ss)) = mset (map ts_binary_id ss)" by (simp add: mset_map)
    then have "distinct (map ts_binary_id (sort_key ts_binary_id ss))" using that mset_eq_imp_distinct_iff by blast
    then show ?thesis by (simp add: sorted_maps_def strictly_by_iff)
  qed
  ultimately show ?thesis by (simp add: ord_maps_ok_def)
qed

lemma om_insert:
  assumes "ord_maps_ok om" "strictly_by tc_name m"
  shows "strictly_by tc_name (om_insert_case om tc m)"
    "set (om_insert_case om tc m) = insert tc {x \<in> set m. tc_name x \<noteq> tc_name tc}"
  using assms by (auto simp: ord_maps_ok_def)

lemma om_collect:
  assumes "ord_maps_ok om" "distinct (map ts_binary_id ss)"
  shows "strictly_by ts_binary_id (om_collect_suites om ss)" "set (om_collect_suites om ss) = set ss"
  using assms by (auto simp: ord_maps_ok_def)


section \<open>Parsing\<close>

definition render_line :: "string \<times> rust_test_kind \<Rightarrow> string" where
  "render_line t = fst t @ (if snd t = kind_test then '': test'' else '': benchmark'')"

lemma lines_from_line:
  "CHR 0x0A \<notin> set l \<Longrightarrow> lines_from acc (l @ CHR 0x0A # rest) = strip_cr (acc @ l) # lines_from [] rest"
  by (induction l arbitrary: acc) auto

lemma strip_cr_line: "strip_cr (render_line t) = render_line t"
  by (cases t) (simp add: strip_cr_def render_line_def)

lemma lines_render:
  "\<forall>t \<in> set ts. CHR 0x0A \<notin> set (fst t) \<Longrightarrow>
     lines_from [] (concat (map (\<lambda>t. render_line t @ [CHR 0x0A]) ts)) = map render_line ts"
proof (induction ts)
  case (Cons t ts)
  then have "CHR 0x0A \<notin> set (render_line t)" by (auto simp: render_line_def)
  then show ?case using Cons by (simp add: lines_from_line strip_cr_line)
qed simp

lemma suffix_append_take: "strip_suffix s (x @ s) = Some x"
  by (simp add: strip_suffix_def suffix_def)

lemma bench_not_test: "strip_suffix '': test'' (x @ '': benchmark'') = None"
proof -
  have "last (x @ '': benchmark'') = CHR ''k''" by simp
  then show ?thesis by (auto simp: strip_suffix_def suffix_def dest!: arg_cong [of _ _ last])
qed

lemma kinds_neq: "kind_bench \<noteq> kind_test"
  by (simp add: kind_test_def kind_bench_def)

lemma parse_rendered_lines:
  "\<forall>t \<in> set ts. snd t \<in> {kind_test, kind_bench} \<Longrightarrow> parse_list_lines b out (map render_line ts) = Inr ts"
proof (induction ts)
  case (Cons t ts)
  obtain n k where t: "t = (n, k)" by (cases t)
  then consider "k = kind_test" | "k = kind_bench" using Cons.prems by auto
  then show ?case
    using Cons t kinds_neq suffix_append_take [of "'': test''" n] suffix_append_take [of "'': benchmark''" n]
      bench_not_test [of n]
    by cases (simp_all add: render_line_def)
qed simp

text \<open>
  Listing parses what libtest prints: for any tests whose names have no line feed, printed
  one per line as tests or benchmarks, \<open>parse_list\<close> returns exactly these tests, sorted.
\<close>

theorem listing_round_trip:
  assumes "\<forall>t \<in> set ts. CHR 0x0A \<notin> set (fst t) \<and> snd t \<in> {kind_test, kind_bench}"
  shows "parse_list b (concat (map (\<lambda>t. render_line t @ [CHR 0x0A]) ts)) = Inr (sort ts)"
  using assms by (simp add: parse_list_def str_lines_def lines_render parse_rendered_lines)

theorem listing_round_trip_witness:
  "parse_list (RustBinaryId ''core'') (''b: test'' @ [CHR 0x0A] @ ''a: benchmark'' @ [CHR 0x0A]) =
     Inr [(''a'', kind_bench), (''b'', kind_test)]"
proof -
  have "sort [(''b'', kind_test), (''a'', kind_bench)] = [(''a'', kind_bench), (''b'', kind_test)]" by code_simp
  then show ?thesis
    using listing_round_trip [of "[(''b'', kind_test), (''a'', kind_bench)]" "RustBinaryId ''core''"]
    by (simp add: render_line_def kind_test_def kind_bench_def)
qed


section \<open>Content of a suite\<close>

definition case_from ::
  "nat \<Rightarrow> test_filter \<Rightarrow> binary_query \<Rightarrow> eval_context \<Rightarrow> filter_bound \<Rightarrow> group_lookup option
     \<Rightarrow> parsed_test_case \<Rightarrow> rust_test_case \<Rightarrow> bool" where
  "case_from fuel f q ecx bound groups pt tc \<longleftrightarrow>
     tc_name tc = pt_name pt \<and> tc_kind tc = Some (pt_kind pt) \<and> tc_ignored tc = pt_ignored pt \<and>
     test_filter_match fuel f q (pt_name pt) (pt_kind pt) ecx bound (pt_ignored pt) groups =
       Some (Ret (tc_filter_match tc))"

lemma bind_eval_Ret:
  "bind_eval m f = Some (Ret y) \<longleftrightarrow> (\<exists>x. m = Some (Ret x) \<and> f x = Some (Ret y))"
  by (auto simp: bind_eval_def split: Option.bind_splits outcome.splits)

lemma filter_cases_append:
  "filter_cases fuel om f q ecx bound groups m (xs @ ys) =
     bind_eval (filter_cases fuel om f q ecx bound groups m xs) (\<lambda>m'. filter_cases fuel om f q ecx bound groups m' ys)"
  by (induction xs arbitrary: m) (auto simp: bind_eval_def split: Option.bind_splits outcome.splits)

lemma filter_cases_content:
  assumes "ord_maps_ok om" "strictly_by tc_name m"
    "filter_cases fuel om f q ecx bound groups m pts = Some (Ret r)"
  shows "strictly_by tc_name r \<and> tc_name ` set r = tc_name ` set m \<union> pt_name ` set pts \<and>
     (\<forall>tc \<in> set r. tc \<in> set m \<and> tc_name tc \<notin> pt_name ` set pts \<or>
        (\<exists>pt \<in> set pts. case_from fuel f q ecx bound groups pt tc))"
  using assms(2,3)
proof (induction pts arbitrary: m)
  case (Cons pt pts)
  obtain fm where fm: "test_filter_match fuel f q (pt_name pt) (pt_kind pt) ecx bound (pt_ignored pt) groups = Some (Ret fm)"
    using Cons.prems(2) by (auto simp: bind_eval_Ret)
  define tc where "tc = \<lparr>tc_name = pt_name pt, tc_kind = Some (pt_kind pt), tc_ignored = pt_ignored pt, tc_filter_match = fm\<rparr>"
  let ?m = "om_insert_case om tc m"
  have step: "filter_cases fuel om f q ecx bound groups ?m pts = Some (Ret r)"
    using Cons.prems(2) fm by (simp add: tc_def)
  note m = om_insert [OF assms(1) Cons.prems(1), of tc]
  have tc: "tc_name tc = pt_name pt" "case_from fuel f q ecx bound groups pt tc"
    using fm by (simp_all add: tc_def case_from_def)
  have "tc_name ` set ?m = insert (pt_name pt) (tc_name ` set m)"
    unfolding m(2) tc(1) by (auto simp: tc(1))
  then show ?case using Cons.IH [OF m(1) step] m(2) tc by auto
qed auto

text \<open>
  A listed suite holds each test that the binary printed once, in the order of names. A
  test is ignored exactly if it is among the ignored tests that the binary printed, although
  libtest prints those among the other tests, too; its kind is one of the printed ones, and its
  status is the filter's decision for the test with this flag.
\<close>

theorem suite_content:
  assumes "ord_maps_ok om"
    and "parse_list (bq_binary_id q) out = (Inr ts :: 'e create_test_list_error + _)"
    and "parse_list (bq_binary_id q) out_ignored = (Inr its :: 'e create_test_list_error + _)"
    and "parse_output q out out_ignored = (Inr (ParsedListed q pts) :: 'e create_test_list_error + _)"
    and "filter_cases fuel om f q ecx bound groups [] pts = Some (Ret r)"
  shows "strictly_by tc_name r \<and> tc_name ` set r = TestCaseName ` fst ` (set ts \<union> set its) \<and>
     (\<forall>tc \<in> set r. (tc_ignored tc \<longleftrightarrow> tc_name tc \<in> TestCaseName ` fst ` set its) \<and>
        (\<exists>kind. tc_kind tc = Some kind \<and> (case_str (tc_name tc), kind) \<in> set ts \<union> set its \<and>
           test_filter_match fuel f q (tc_name tc) kind ecx bound (tc_ignored tc) groups =
             Some (Ret (tc_filter_match tc))))"
proof -
  have pts: "pts = parsed_cases False ts @ parsed_cases True its"
    using assms(2-4) by (simp add: parse_output_def)
  obtain m where m: "filter_cases fuel om f q ecx bound groups [] (parsed_cases False ts) = Some (Ret m)"
    "filter_cases fuel om f q ecx bound groups m (parsed_cases True its) = Some (Ret r)"
    using assms(5) by (auto simp: pts filter_cases_append bind_eval_Ret)
  have first: "strictly_by tc_name m" "tc_name ` set m = pt_name ` set (parsed_cases False ts)"
    "\<forall>tc \<in> set m. \<exists>pt \<in> set (parsed_cases False ts). case_from fuel f q ecx bound groups pt tc"
    using filter_cases_content [OF assms(1) _ m(1)] by (auto simp: strictly_by_def)
  note both = filter_cases_content [OF assms(1) first(1) m(2)]
  have names: "pt_name ` set (parsed_cases ign xs) = TestCaseName ` fst ` set xs" for ign xs
    by (force simp: parsed_cases_def)
  have from_list: "\<exists>kind. tc_kind tc = Some kind \<and> (case_str (tc_name tc), kind) \<in> set xs \<and> tc_ignored tc = ign \<and>
      test_filter_match fuel f q (tc_name tc) kind ecx bound (tc_ignored tc) groups = Some (Ret (tc_filter_match tc))"
    if "pt \<in> set (parsed_cases ign xs)" "case_from fuel f q ecx bound groups pt tc" for pt tc ign xs
    using that by (auto simp: parsed_cases_def case_from_def)
  have "(tc_ignored tc \<longleftrightarrow> tc_name tc \<in> TestCaseName ` fst ` set its) \<and>
      (\<exists>kind. tc_kind tc = Some kind \<and> (case_str (tc_name tc), kind) \<in> set ts \<union> set its \<and>
         test_filter_match fuel f q (tc_name tc) kind ecx bound (tc_ignored tc) groups = Some (Ret (tc_filter_match tc)))"
    if "tc \<in> set r" for tc
  proof -
    consider "tc \<in> set m" "tc_name tc \<notin> pt_name ` set (parsed_cases True its)"
      | pt where "pt \<in> set (parsed_cases True its)" "case_from fuel f q ecx bound groups pt tc"
      using both \<open>tc \<in> set r\<close> by blast
    then show ?thesis
    proof cases
      case 1
      then obtain pt where "pt \<in> set (parsed_cases False ts)" "case_from fuel f q ecx bound groups pt tc"
        using first(3) by blast
      from from_list [OF this] show ?thesis using 1 by (auto simp: names)
    next
      case 2
      then have "tc_name tc \<in> TestCaseName ` fst ` set its"
        by (metis case_from_def image_eqI names)
      then show ?thesis using from_list [OF 2] by blast
    qed
  qed
  moreover have "tc_name ` set r = TestCaseName ` fst ` (set ts \<union> set its)"
    using both first(2) by (simp add: names image_Un)
  ultimately show ?thesis using both by blast
qed

theorem suite_content_witness:
  "\<exists>r. filter_cases 2 sorted_maps (test_filter_default_set ModeTest IgnoredDefault) (binary_query_of (ex_query ''''))
      ex_ecx BoundAll None [] [\<lparr>pt_name = TestCaseName ''a'', pt_kind = kind_test, pt_ignored = False\<rparr>,
        \<lparr>pt_name = TestCaseName ''a'', pt_kind = kind_test, pt_ignored = True\<rparr>] = Some (Ret r) \<and>
     strictly_by tc_name r \<and> (\<forall>tc \<in> set r. tc_ignored tc)"
proof -
  let ?f = "test_filter_default_set ModeTest IgnoredDefault" and ?q = "binary_query_of (ex_query '''')"
  let ?out = "''a: test'' @ [CHR 0x0A]"
  let ?pts = "[\<lparr>pt_name = TestCaseName ''a'', pt_kind = kind_test, pt_ignored = False\<rparr>,
        \<lparr>pt_name = TestCaseName ''a'', pt_kind = kind_test, pt_ignored = True\<rparr>]"
  have l: "parse_list (bq_binary_id ?q) ?out = (Inr [(''a'', kind_test)] :: nat create_test_list_error + _)" by code_simp
  have p: "parse_output ?q ?out ?out = (Inr (ParsedListed ?q ?pts) :: nat create_test_list_error + _)"
    unfolding parse_output_def l by (simp add: parsed_cases_def)
  obtain r where r: "filter_cases 2 sorted_maps ?f ?q ex_ecx BoundAll None [] ?pts = Some (Ret r)"
    by (simp add: test_filter_match_def test_filter_default_set_def filter_benchmark_mismatch_def
        is_rerun_already_passed_def filter_match_base_def filter_ignored_mismatch_def filter_expression_match_def
        matches_expression_def binary_filter_new_def filter_name_match_of_def)
  show ?thesis using suite_content [OF sorted_maps_ok l l p r] r by fastforce
qed


section \<open>The order of completion\<close>

definition the_Inr :: "'e + 'a \<Rightarrow> 'a" where "the_Inr = case_sum (\<lambda>_. undefined) id"

lemma the_Inr_simp [simp]: "the_Inr (Inr x) = x"
  by (simp add: the_Inr_def)

lemma list_binaries_Inr:
  "list_binaries fuel f profile bound qs = Some (Inr bs) \<longleftrightarrow>
     (\<forall>q \<in> set qs. \<exists>b. list_binary fuel f profile bound q = Some (Inr b)) \<and>
     bs = map (\<lambda>q. the_Inr (the (list_binary fuel f profile bound q))) qs"
proof (induction qs arbitrary: bs)
  case (Cons q qs)
  show ?case
  proof (cases "list_binary fuel f profile bound q")
    case (Some r)
    show ?thesis
    proof (cases r)
      case (Inr b)
      have "list_binaries fuel f profile bound (q # qs) = Some (Inr bs) \<longleftrightarrow>
          (\<exists>bs'. list_binaries fuel f profile bound qs = Some (Inr bs') \<and> bs = b # bs')"
        using Some Inr by (auto simp: map_option_case map_sum_def split: option.splits sum.splits)
      then show ?thesis using Some Inr Cons.IH by auto
    qed (simp add: Some)
  qed simp
qed auto

definition suite_of ::
  "nat \<Rightarrow> ord_maps \<Rightarrow> test_filter \<Rightarrow> eval_context \<Rightarrow> filter_bound \<Rightarrow> group_lookup option
     \<Rightarrow> parsed_test_binary \<Rightarrow> rust_test_suite evaluation" where
  "suite_of fuel om f ecx bound groups b = (case b of
     ParsedListed query tcs \<Rightarrow> bind_eval (filter_cases fuel om f query ecx bound groups [] tcs)
       (\<lambda>r. Some (Ret \<lparr>ts_query = query, ts_status = SuiteListed r\<rparr>))
   | ParsedSkipped query reason \<Rightarrow> Some (Ret \<lparr>ts_query = query, ts_status = SuiteSkipped reason\<rparr>))"

definition the_Ret :: "'a outcome \<Rightarrow> 'a" where "the_Ret r = (case r of Ret x \<Rightarrow> x | Panic \<Rightarrow> undefined)"

lemma the_Ret_simp [simp]: "the_Ret (Ret x) = x"
  by (simp add: the_Ret_def)

lemma build_suite_list_Ret:
  "build_suite_list fuel om f ecx bound groups bs = Some (Ret ss) \<longleftrightarrow>
     (\<forall>b \<in> set bs. \<exists>s. suite_of fuel om f ecx bound groups b = Some (Ret s)) \<and>
     ss = map (\<lambda>b. the_Ret (the (suite_of fuel om f ecx bound groups b))) bs"
proof (induction bs arbitrary: ss)
  case (Cons b bs)
  have "build_suite_list fuel om f ecx bound groups (b # bs) = Some (Ret ss) \<longleftrightarrow>
      (\<exists>s ss'. suite_of fuel om f ecx bound groups b = Some (Ret s) \<and>
        build_suite_list fuel om f ecx bound groups bs = Some (Ret ss') \<and> ss = s # ss')"
    by (cases b) (auto simp: suite_of_def bind_eval_Ret)
  then show ?case using Cons.IH by auto
qed auto

fun parsed_query :: "parsed_test_binary \<Rightarrow> binary_query" where
  "parsed_query (ParsedListed q _) = q"
| "parsed_query (ParsedSkipped q _) = q"

lemma list_binary_query: "list_binary fuel f profile bound q = Some (Inr b) \<Longrightarrow> parsed_query b = q"
proof -
  assume l: "list_binary fuel f profile bound q = Some (Inr b)"
  then obtain m where "filter_binary_match_of fuel f q (lp_ecx profile) bound = Some m"
    by (auto simp: list_binary_def)
  with l show ?thesis
    by (cases m) (auto simp: list_binary_def parse_output_def split: sum.splits prod.splits)
qed

lemma suite_of_query: "suite_of fuel om f ecx bound groups b = Some (Ret s) \<Longrightarrow> ts_query s = parsed_query b"
  by (cases b) (auto simp: suite_of_def bind_eval_Ret)

text \<open>The suite of a binary that was listed, before partitioning.\<close>

definition suite_for ::
  "nat \<Rightarrow> ord_maps \<Rightarrow> test_filter \<Rightarrow> 'e list_profile \<Rightarrow> filter_bound \<Rightarrow> binary_query \<Rightarrow> rust_test_suite" where
  "suite_for fuel om f profile bound q = the_Ret (the (suite_of fuel om f (lp_ecx profile) bound None
     (the_Inr (the (list_binary fuel f profile bound q)))))"

definition listable ::
  "nat \<Rightarrow> ord_maps \<Rightarrow> test_filter \<Rightarrow> 'e list_profile \<Rightarrow> filter_bound \<Rightarrow> binary_query \<Rightarrow> bool" where
  "listable fuel om f profile bound q \<longleftrightarrow>
     (\<exists>b s. list_binary fuel f profile bound q = Some (Inr b) \<and>
        suite_of fuel om f (lp_ecx profile) bound None b = Some (Ret s))"

lemma suite_for_query: "listable fuel om f profile bound q \<Longrightarrow> ts_query (suite_for fuel om f profile bound q) = q"
  using list_binary_query suite_of_query by (fastforce simp: listable_def suite_for_def)

definition list_of_suites :: "test_filter \<Rightarrow> rust_test_suite list \<Rightarrow> test_list" where
  "list_of_suites f suites = \<lparr>tl_test_count = sum_list (map (\<lambda>s. suite_test_count (ts_status s)) suites),
     tl_mode = tf_mode f, tl_rust_suites = suites\<rparr>"

lemma test_list_new_Inr:
  assumes "\<not> has_group_predicates f"
  shows "test_list_new fuel om xxh f pb profile bound qs = Some (Ret (Inr l)) \<longleftrightarrow>
     (\<forall>q \<in> set qs. listable fuel om f profile bound q) \<and>
     (\<exists>suites. apply_partitioning xxh pb (om_collect_suites om (map (suite_for fuel om f profile bound) qs)) = Ret suites \<and>
        l = list_of_suites f suites)" (is "?l = ?r")
proof -
  have b: "build_suites fuel om f ecx bound None bs = Some (Ret ss) \<longleftrightarrow>
      (\<forall>b \<in> set bs. \<exists>s. suite_of fuel om f ecx bound None b = Some (Ret s)) \<and>
      ss = om_collect_suites om (map (\<lambda>b. the_Ret (the (suite_of fuel om f ecx bound None b))) bs)" for ecx bs ss
    by (auto simp: build_suites_def bind_eval_Ret build_suite_list_Ret)
  have "?l \<longleftrightarrow> (\<exists>bs ss suites. list_binaries fuel f profile bound qs = Some (Inr bs) \<and>
      build_suites fuel om f (lp_ecx profile) bound None bs = Some (Ret ss) \<and>
      apply_partitioning xxh pb ss = Ret suites \<and> l = list_of_suites f suites)"
    using assms by (auto simp: test_list_new_def Let_def bind_eval_Ret list_of_suites_def split: Option.bind_splits sum.splits)
  also have "\<dots> \<longleftrightarrow> ?r"
  proof -
    let ?lb = "list_binary fuel f profile bound" and ?so = "suite_of fuel om f (lp_ecx profile) bound None"
    have "(\<forall>q \<in> set qs. \<exists>b. ?lb q = Some (Inr b)) \<and> (\<forall>q \<in> set qs. \<exists>s. ?so (the_Inr (the (?lb q))) = Some (Ret s)) \<longleftrightarrow>
        (\<forall>q \<in> set qs. listable fuel om f profile bound q)"
      unfolding ball_conj_distrib [symmetric] by (rule ball_cong) (auto simp: listable_def)
    moreover have "(\<lambda>b. the_Ret (the (?so b))) \<circ> (\<lambda>q. the_Inr (the (?lb q))) = suite_for fuel om f profile bound"
      by (simp add: suite_for_def fun_eq_iff)
    ultimately show ?thesis unfolding list_binaries_Inr b by auto
  qed
  finally show ?thesis .
qed

lemma length_concat_cases: "length (concat (map g ss)) = sum_list (map (\<lambda>s. length (g s)) ss)"
  by (induction ss) auto

lemma suite_test_count_cases: "suite_test_count st = length (suite_test_cases st)"
  by (cases st) simp_all

lemma test_count_iter: "tl_test_count (list_of_suites f suites) = length (iter_tests (list_of_suites f suites))"
  by (simp add: list_of_suites_def iter_tests_def length_concat_cases suite_test_count_cases)

lemma run_count_list:
  "run_count (list_of_suites f suites) =
     Ret (length (filter (\<lambda>t. tc_filter_match (snd t) = Matches) (iter_tests (list_of_suites f suites))))"
proof -
  let ?ts = "iter_tests (list_of_suites f suites)"
  have "length (filter (\<lambda>t. tc_filter_match (snd t) = Matches) ?ts) +
      length (filter (\<lambda>t. tc_filter_match (snd t) \<noteq> Matches) ?ts) = length ?ts"
    by (rule sum_length_filter_compl)
  then show ?thesis
    by (simp add: run_count_def Let_def test_count_iter skip_counts_of_def filter_map comp_def)
qed

text \<open>
  The test list does not depend on the order in which the binaries happen to be listed:
  for binaries with distinct identifiers, every order of completion gives the same list, and
  the number of tests to run is the number of selected tests.
\<close>

theorem list_order_irrelevant:
  assumes "ord_maps_ok om" "\<not> has_group_predicates f" "distinct (map bq_binary_id qs)" "mset qs' = mset qs"
    and "test_list_new fuel om xxh f pb profile bound qs = Some (Ret (Inr l))"
  shows "test_list_new fuel om xxh f pb profile bound qs' = Some (Ret (Inr l)) \<and>
     run_count l = Ret (length (filter (\<lambda>t. tc_filter_match (snd t) = Matches) (iter_tests l)))"
proof -
  let ?s = "suite_for fuel om f profile bound"
  obtain suites where l: "\<forall>q \<in> set qs. listable fuel om f profile bound q"
    "apply_partitioning xxh pb (om_collect_suites om (map ?s qs)) = Ret suites" "l = list_of_suites f suites"
    using assms(5) unfolding test_list_new_Inr [OF assms(2)] by blast
  have set_eq: "set qs' = set qs" using assms(4) mset_eq_setD by blast
  have d: "distinct (map bq_binary_id qs')"
    using assms(3,4) mset_eq_imp_distinct_iff [of "map bq_binary_id qs'" "map bq_binary_id qs"] by (simp add: mset_map)
  have ids: "map ts_binary_id (map ?s xs) = map bq_binary_id xs" if "set xs = set qs" for xs
    using l(1) that by (simp add: suite_for_query)
  have "distinct (map ts_binary_id (map ?s qs'))" "distinct (map ts_binary_id (map ?s qs))"
    unfolding ids [OF set_eq] ids [OF refl] using d assms(3) by simp_all
  note c = this [THEN om_collect(1) [OF assms(1)]] this [THEN om_collect(2) [OF assms(1)]]
  have "om_collect_suites om (map ?s qs') = om_collect_suites om (map ?s qs)"
    by (rule strictly_by_unique [OF c(1,2)]) (simp add: c(3,4) set_eq)
  then show ?thesis
    using l set_eq unfolding test_list_new_Inr [OF assms(2)] by (auto simp: run_count_list)
qed

theorem list_order_irrelevant_witness:
  "\<exists>l. test_list_new 2 sorted_maps ex_xxh (test_filter_default_set ModeTest IgnoredAll) None
      \<lparr>lp_ecx = ex_ecx, lp_exec = (\<lambda>q. Inr (''a: test'', []) :: nat + _), lp_groups = (\<lambda>_ _ _. False)\<rparr> BoundAll
      [(binary_query_of (ex_query []))\<lparr>bq_binary_id := RustBinaryId ''z''\<rparr>, binary_query_of (ex_query [])] =
      Some (Ret (Inr l)) \<and> run_count l = Ret 2"
proof -
  let ?p = "\<lparr>lp_ecx = ex_ecx, lp_exec = (\<lambda>q. Inr (''a: test'', []) :: nat + _), lp_groups = (\<lambda>_ _ _. False)\<rparr>"
  let ?f = "test_filter_default_set ModeTest IgnoredAll" and ?q = "binary_query_of (ex_query [])"
  let ?z = "?q\<lparr>bq_binary_id := RustBinaryId ''z''\<rparr>"
  have "case test_list_new 2 sorted_maps ex_xxh ?f None ?p BoundAll [?q, ?z] of
      Some (Ret (Inr l)) \<Rightarrow> length (filter (\<lambda>t. tc_filter_match (snd t) = Matches) (iter_tests l)) = 2 | _ \<Rightarrow> False"
    by code_simp
  then obtain l where l: "test_list_new 2 sorted_maps ex_xxh ?f None ?p BoundAll [?q, ?z] = Some (Ret (Inr l))"
    "length (filter (\<lambda>t. tc_filter_match (snd t) = Matches) (iter_tests l)) = 2"
    by (auto split: option.splits outcome.splits sum.splits)
  have "\<not> has_group_predicates ?f" "distinct (map bq_binary_id [?q, ?z])" by code_simp+
  then show ?thesis using list_order_irrelevant [OF sorted_maps_ok _ _ _ l(1), of "[?z, ?q]"] l(2) by auto
qed


section \<open>The queue\<close>

text \<open>
  The queue holds exactly the tests of the list, those with higher priority first; tests
  with the same priority keep the order of the list.
\<close>

theorem priority_queue_order:
  fixes priority_of :: "test_query \<Rightarrow> test_priority"
  defines "prio \<equiv> \<lambda>(query, tc). priority_of \<lparr>binary_query_of = query, tq_test_name = tc_name tc\<rparr>"
  shows "mset (test_priority_queue priority_of l) = mset (iter_tests l) \<and>
   sorted_wrt (\<lambda>a b. to_i8 (prio b) \<le> to_i8 (prio a)) (test_priority_queue priority_of l) \<and>
   filter (\<lambda>t. prio t = p) (test_priority_queue priority_of l) = filter (\<lambda>t. prio t = p) (iter_tests l)"
proof -
  have q: "test_priority_queue priority_of l = sort_key prio (iter_tests l)"
    by (simp add: test_priority_queue_def prio_def)
  have "sorted (map prio (sort_key prio (iter_tests l)))" by simp
  then show ?thesis
    by (simp add: q sorted_wrt_map less_eq_test_priority_def priority_le_def sort_key_stable)
qed

theorem priority_queue_order_witness:
  "mset (test_priority_queue (\<lambda>q. TestPriority (if case_str (tq_test_name q) = ''e'' then 5 else 0))
      (list_of_suites (test_filter_default_set ModeTest IgnoredAll) ex_suites)) =
   mset (iter_tests (list_of_suites (test_filter_default_set ModeTest IgnoredAll) ex_suites))"
  using priority_queue_order by blast

end
