(* ===== verification/Rerun.thy ===== *)
theory Rerun
  imports Run_Events Test_List
begin

text \<open>
  Which tests a rerun has to run (\<open>nextest-runner/src/record/rerun.rs\<close>): from the recorded test
  list and event log of a run, and from the information its own parent left, the tests that
  pass and those that are outstanding.

  The map of suites from \<open>iddqd\<close> is a partial function here; only looking up, inserting under a
  new key and visiting every entry once are used of it. A recorded list of binaries is in the
  order of a \<open>BTreeMap\<close>, so without duplicates.
\<close>

section \<open>Data\<close>

record rerun_test_suite_info =
  ri_passing :: "test_case_name set"
  ri_outstanding :: "test_case_name set"

type_synonym rerun_suites_map = "rust_binary_id \<rightharpoonup> rerun_test_suite_info"

definition rerun_test_suite_info_new :: rerun_test_suite_info where
  "rerun_test_suite_info_new = \<lparr>ri_passing = {}, ri_outstanding = {}\<rparr>"

datatype test_outcome_skipped = SkippedExplicit | SkippedRerun
datatype test_outcome = OutcomePassed | OutcomeSkipped test_outcome_skipped | OutcomeFailed

datatype binary_info = BinaryListed "(test_case_name \<times> filter_match) list" | BinaryNotListed

fun from_mismatch_reason :: "mismatch_reason \<Rightarrow> test_outcome_skipped" where
  "from_mismatch_reason MRerunAlreadyPassed = SkippedRerun"
| "from_mismatch_reason _ = SkippedExplicit"

text \<open>The summary of a test list, as it is recorded, and its binaries.\<close>

definition list_binaries_info :: "test_list \<Rightarrow> (rust_binary_id \<times> binary_info) list" where
  "list_binaries_info l = map (\<lambda>s. (ts_binary_id s, case ts_status s of
       SuiteListed tcs \<Rightarrow> BinaryListed (map (\<lambda>tc. (tc_name tc, tc_filter_match tc)) tcs)
     | SuiteSkipped _ \<Rightarrow> BinaryNotListed)) (tl_rust_suites l)"


section \<open>Outcomes of a recorded run\<close>

datatype test_event_summary =
    EvTestFinished test_instance_id execution_statuses
  | EvTestSkipped test_instance_id mismatch_reason
  | EvOther

definition finished_outcome :: "execution_statuses \<Rightarrow> test_outcome outcome" where
  "finished_outcome es = bind_outcome (describe es) (\<lambda>d. Ret (case d of
     DSuccess _ \<Rightarrow> OutcomePassed
   | DFlaky _ _ FlakyPass \<Rightarrow> OutcomePassed
   | DFlaky _ _ FlakyFail \<Rightarrow> OutcomeFailed
   | DFailure _ _ _ \<Rightarrow> OutcomeFailed))"

type_synonym outcomes = "test_instance_id \<rightharpoonup> test_outcome"

definition collect_event :: "test_event_summary \<Rightarrow> outcomes \<Rightarrow> outcomes outcome" where
  "collect_event ev m = (case ev of
     EvTestFinished t es \<Rightarrow> bind_outcome (finished_outcome es) (\<lambda>r.
       Ret (case m t of
              Some existing \<Rightarrow> m(t \<mapsto> if r = OutcomeFailed then OutcomeFailed else existing)
            | None \<Rightarrow> m(t \<mapsto> r)))
   | EvTestSkipped t reason \<Rightarrow> Ret (m(t \<mapsto> OutcomeSkipped (from_mismatch_reason reason)))
   | EvOther \<Rightarrow> Ret m)"

text \<open>Reading an event may fail; the first error is returned.\<close>

fun collect_from_events :: "outcomes \<Rightarrow> ('e + test_event_summary) list \<Rightarrow> ('e + outcomes) outcome" where
  "collect_from_events m [] = Ret (Inr m)"
| "collect_from_events m (Inl e # evs) = Ret (Inl e)"
| "collect_from_events m (Inr ev # evs) = bind_outcome (collect_event ev m) (\<lambda>m'. collect_from_events m' evs)"


section \<open>Outstanding tests\<close>

definition add_passing :: "test_case_name \<Rightarrow> rerun_test_suite_info \<Rightarrow> rerun_test_suite_info" where
  "add_passing t i = i\<lparr>ri_passing := insert t (ri_passing i)\<rparr>"

definition add_outstanding :: "test_case_name \<Rightarrow> rerun_test_suite_info \<Rightarrow> rerun_test_suite_info" where
  "add_outstanding t i = i\<lparr>ri_outstanding := insert t (ri_outstanding i)\<rparr>"

definition rerun_handle_skipped ::
  "test_case_name \<Rightarrow> test_outcome_skipped \<Rightarrow> rerun_test_suite_info option \<Rightarrow> rerun_test_suite_info
     \<Rightarrow> rerun_test_suite_info" where
  "rerun_handle_skipped t sk prev cur = (case sk of
     SkippedRerun \<Rightarrow> add_passing t cur
   | SkippedExplicit \<Rightarrow> (case prev of
        Some p \<Rightarrow> if t \<in> ri_outstanding p then add_outstanding t cur
                  else if t \<in> ri_passing p then add_passing t cur
                  else cur
      | None \<Rightarrow> cur))"

definition track_test ::
  "rerun_test_suite_info option \<Rightarrow> outcomes \<Rightarrow> rust_binary_id \<Rightarrow> test_case_name \<times> filter_match
     \<Rightarrow> rerun_test_suite_info \<Rightarrow> rerun_test_suite_info" where
  "track_test prev outs b tc cur = (case tc of (t, fm) \<Rightarrow> (case fm of
     Matches \<Rightarrow> (case outs (b, t) of
         Some OutcomePassed \<Rightarrow> add_passing t cur
       | Some OutcomeFailed \<Rightarrow> add_outstanding t cur
       | Some (OutcomeSkipped sk) \<Rightarrow> rerun_handle_skipped t sk prev cur
       | None \<Rightarrow> add_outstanding t cur)
   | Mismatch reason \<Rightarrow> rerun_handle_skipped t (from_mismatch_reason reason) prev cur))"

definition track_suite ::
  "rerun_test_suite_info option \<Rightarrow> outcomes \<Rightarrow> rust_binary_id \<Rightarrow> (test_case_name \<times> filter_match) list
     \<Rightarrow> rerun_test_suite_info" where
  "track_suite prev outs b cases =
     (let cur = fold (track_test prev outs b) cases rerun_test_suite_info_new
      in case prev of
           None \<Rightarrow> cur
         | Some p \<Rightarrow> cur\<lparr>ri_outstanding := ri_outstanding cur \<union>
             {t \<in> ri_outstanding p. t \<notin> ri_passing cur \<and> t \<notin> ri_outstanding cur}\<rparr>)"

text \<open>Inserting under a key that is present is an error that the code does not expect.\<close>

definition insert_unique ::
  "rust_binary_id \<Rightarrow> rerun_test_suite_info \<Rightarrow> rerun_suites_map \<Rightarrow> rerun_suites_map outcome" where
  "insert_unique b i m = (if m b = None then Ret (m(b \<mapsto> i)) else Panic)"

definition track_binary ::
  "rerun_suites_map option \<Rightarrow> outcomes \<Rightarrow> rust_binary_id \<times> binary_info \<Rightarrow> rerun_suites_map
     \<Rightarrow> rerun_suites_map outcome" where
  "track_binary prev_info outs bin new = (case bin of (b, info) \<Rightarrow>
     (let prev = Option.bind prev_info (\<lambda>p. p b)
      in case info of
           BinaryListed cases \<Rightarrow>
             (let cur = track_suite prev outs b cases
              in if ri_passing cur \<noteq> {} \<or> ri_outstanding cur \<noteq> {} then insert_unique b cur new else Ret new)
         | BinaryNotListed \<Rightarrow> (case prev of Some p \<Rightarrow> insert_unique b p new | None \<Rightarrow> Ret new)))"

fun track_binaries ::
  "rerun_suites_map option \<Rightarrow> outcomes \<Rightarrow> (rust_binary_id \<times> binary_info) list \<Rightarrow> rerun_suites_map
     \<Rightarrow> rerun_suites_map outcome" where
  "track_binaries prev_info outs [] new = Ret new"
| "track_binaries prev_info outs (bin # bins) new =
     bind_outcome (track_binary prev_info outs bin new) (track_binaries prev_info outs bins)"

text \<open>
  The entries of the previous information for binaries that are not in the test list at all are
  carried over, each under a key that must be new.
\<close>

definition carry_forward ::
  "rerun_suites_map option \<Rightarrow> rust_binary_id set \<Rightarrow> rerun_suites_map \<Rightarrow> rerun_suites_map outcome" where
  "carry_forward prev_info in_test_list new = (case prev_info of
     None \<Rightarrow> Ret new
   | Some prev \<Rightarrow>
       (let carried = prev |` (- in_test_list)
        in if dom carried \<inter> dom new = {} then Ret (new ++ carried) else Panic))"

definition compute_outstanding_pure ::
  "rerun_suites_map option \<Rightarrow> (rust_binary_id \<times> binary_info) list \<Rightarrow> outcomes \<Rightarrow> rerun_suites_map outcome" where
  "compute_outstanding_pure prev_info bins outs =
     bind_outcome (track_binaries prev_info outs bins Map.empty)
       (carry_forward prev_info (fst ` set bins))"

definition expected_test_ids :: "rerun_suites_map \<Rightarrow> test_instance_id set" where
  "expected_test_ids m = {(b, t). \<exists>i. m b = Some i \<and> t \<in> ri_outstanding i}"

text \<open>The part of the information that the test filter looks at.\<close>

definition passing_of :: "rerun_suites_map \<Rightarrow> passing_tests" where
  "passing_of m = (\<lambda>b. map_option ri_passing (m b))"


section \<open>One suite\<close>

datatype tracking = Passing | Outstanding | Untracked

definition tracking_of :: "rerun_test_suite_info \<Rightarrow> test_case_name \<Rightarrow> tracking" where
  "tracking_of i t = (if t \<in> ri_passing i then Passing else if t \<in> ri_outstanding i then Outstanding else Untracked)"

definition tracking_in :: "rerun_suites_map option \<Rightarrow> rust_binary_id \<Rightarrow> test_case_name \<Rightarrow> tracking" where
  "tracking_in m b t = (case Option.bind m (\<lambda>m. m b) of None \<Rightarrow> Untracked | Some i \<Rightarrow> tracking_of i t)"

definition info_disjoint :: "rerun_test_suite_info \<Rightarrow> bool" where
  "info_disjoint i \<longleftrightarrow> ri_passing i \<inter> ri_outstanding i = {}"

definition prev_disjoint :: "rerun_test_suite_info option \<Rightarrow> bool" where
  "prev_disjoint prev \<longleftrightarrow> (case prev of None \<Rightarrow> True | Some i \<Rightarrow> info_disjoint i)"

definition all_disjoint :: "rerun_suites_map option \<Rightarrow> bool" where
  "all_disjoint m \<longleftrightarrow> (\<forall>m' b i. m = Some m' \<longrightarrow> m' b = Some i \<longrightarrow> info_disjoint i)"

text \<open>
  The reference: what becomes of a test with tracking \<open>prev\<close> that was listed with status \<open>fm\<close>
  and has the recorded outcome \<open>out\<close>.
\<close>

fun retrack :: "tracking \<Rightarrow> filter_match \<Rightarrow> test_outcome option \<Rightarrow> tracking" where
  "retrack prev (Mismatch MRerunAlreadyPassed) out = Passing"
| "retrack prev (Mismatch _) out = prev"
| "retrack prev Matches (Some OutcomePassed) = Passing"
| "retrack prev Matches (Some (OutcomeSkipped SkippedRerun)) = Passing"
| "retrack prev Matches (Some (OutcomeSkipped SkippedExplicit)) = prev"
| "retrack prev Matches (Some OutcomeFailed) = Outstanding"
| "retrack prev Matches None = Outstanding"

definition unlisted :: "tracking \<Rightarrow> tracking" where
  "unlisted prev = (if prev = Outstanding then Outstanding else Untracked)"

definition old_tracking :: "rerun_test_suite_info option \<Rightarrow> test_case_name \<Rightarrow> tracking" where
  "old_tracking prev t = (case prev of None \<Rightarrow> Untracked | Some i \<Rightarrow> tracking_of i t)"

definition put :: "tracking \<Rightarrow> test_case_name \<Rightarrow> rerun_test_suite_info \<Rightarrow> rerun_test_suite_info" where
  "put k t i = (case k of Passing \<Rightarrow> add_passing t i | Outstanding \<Rightarrow> add_outstanding t i | Untracked \<Rightarrow> i)"

lemma handle_skipped_put:
  assumes "prev_disjoint prev"
  shows "rerun_handle_skipped t SkippedExplicit prev cur = put (old_tracking prev t) t cur"
    "rerun_handle_skipped t SkippedRerun prev cur = put Passing t cur"
  using assms by (auto simp: prev_disjoint_def rerun_handle_skipped_def put_def old_tracking_def tracking_of_def info_disjoint_def
      split: option.splits)

lemma track_test_put:
  assumes "prev_disjoint prev"
  shows "track_test prev outs b (t, fm) cur = put (retrack (old_tracking prev t) fm (outs (b, t))) t cur"
proof (cases fm)
  case Matches
  then show ?thesis
    using handle_skipped_put [OF assms]
    by (auto simp: track_test_def put_def [of Passing] put_def [of Outstanding]
        split: option.splits test_outcome.splits) (case_tac x2; simp add: put_def [of Passing])
next
  case (Mismatch r)
  then show ?thesis
    using handle_skipped_put [OF assms] by (cases r) (auto simp: track_test_def)
qed

lemma put_fields:
  "ri_passing (put k t i) = (if k = Passing then insert t (ri_passing i) else ri_passing i)"
  "ri_outstanding (put k t i) = (if k = Outstanding then insert t (ri_outstanding i) else ri_outstanding i)"
  by (cases k; simp add: put_def add_passing_def add_outstanding_def)+

lemma fold_track:
  assumes "prev_disjoint prev" "distinct (map fst cases)"
  shows "ri_passing (fold (track_test prev outs b) cases cur) = ri_passing cur \<union>
       {t. \<exists>fm. (t, fm) \<in> set cases \<and> retrack (old_tracking prev t) fm (outs (b, t)) = Passing} \<and>
     ri_outstanding (fold (track_test prev outs b) cases cur) = ri_outstanding cur \<union>
       {t. \<exists>fm. (t, fm) \<in> set cases \<and> retrack (old_tracking prev t) fm (outs (b, t)) = Outstanding}"
proof (induction cases arbitrary: cur)
  case (Cons tc cases)
  then show ?case
    by (cases tc) (auto simp: track_test_put [OF assms(1)] put_fields)
qed simp

lemma track_suite_tracking:
  assumes "prev_disjoint prev" "distinct (map fst cases)"
  shows "info_disjoint (track_suite prev outs b cases)"
    and "tracking_of (track_suite prev outs b cases) t =
       (case map_of cases t of
          Some fm \<Rightarrow> retrack (old_tracking prev t) fm (outs (b, t))
        | None \<Rightarrow> unlisted (old_tracking prev t))"
proof -
  let ?c = "fold (track_test prev outs b) cases rerun_test_suite_info_new"
  have c: "t \<in> ri_passing ?c \<longleftrightarrow> (\<exists>fm. map_of cases t = Some fm \<and> retrack (old_tracking prev t) fm (outs (b, t)) = Passing)"
    "t \<in> ri_outstanding ?c \<longleftrightarrow> (\<exists>fm. map_of cases t = Some fm \<and> retrack (old_tracking prev t) fm (outs (b, t)) = Outstanding)" for t
    using fold_track [OF assms, of outs b rerun_test_suite_info_new] assms(2)
    by (simp_all add: rerun_test_suite_info_new_def)
  show "info_disjoint (track_suite prev outs b cases)"
    using c by (auto simp: info_disjoint_def track_suite_def Let_def split: option.splits)
  have keep: "retrack Outstanding fm out = Untracked \<Longrightarrow> False" for fm out
    by (induction Outstanding fm out rule: retrack.induct) auto
  show "tracking_of (track_suite prev outs b cases) t =
       (case map_of cases t of
          Some fm \<Rightarrow> retrack (old_tracking prev t) fm (outs (b, t))
        | None \<Rightarrow> unlisted (old_tracking prev t))"
    using c [of t] keep assms(1)
    by (cases "map_of cases t"; cases prev; cases "retrack (old_tracking prev t) (the (map_of cases t)) (outs (b, t))")
      (auto simp: tracking_of_def track_suite_def Let_def unlisted_def old_tracking_def
        prev_disjoint_def info_disjoint_def split: if_splits)
qed


section \<open>All binaries\<close>

definition bins_ok :: "(rust_binary_id \<times> binary_info) list \<Rightarrow> bool" where
  "bins_ok bins \<longleftrightarrow> distinct (map fst bins) \<and>
     (\<forall>b cases. (b, BinaryListed cases) \<in> set bins \<longrightarrow> distinct (map fst cases))"

text \<open>The entry of one binary, which is left out if there is nothing to track.\<close>

definition entry ::
  "rerun_suites_map option \<Rightarrow> outcomes \<Rightarrow> rust_binary_id \<Rightarrow> binary_info \<Rightarrow> rerun_test_suite_info option" where
  "entry prev_info outs b info = (let prev = Option.bind prev_info (\<lambda>p. p b) in case info of
     BinaryListed cases \<Rightarrow> (let i = track_suite prev outs b cases
       in if ri_passing i \<noteq> {} \<or> ri_outstanding i \<noteq> {} then Some i else None)
   | BinaryNotListed \<Rightarrow> prev)"

lemma track_binary_entry:
  "new b = None \<Longrightarrow> track_binary prev_info outs (b, info) new = Ret (new(b := entry prev_info outs b info))"
  by (cases info) (auto simp: track_binary_def entry_def Let_def insert_unique_def fun_upd_idem split: option.splits)

lemma track_binaries_entries:
  assumes "distinct (map fst bins)" "\<forall>b \<in> fst ` set bins. new b = None"
  shows "track_binaries prev_info outs bins new =
     Ret (\<lambda>b. case map_of bins b of Some info \<Rightarrow> entry prev_info outs b info | None \<Rightarrow> new b)"
  using assms
proof (induction bins arbitrary: new)
  case (Cons bin bins)
  obtain b info where bin: "bin = (b, info)" by (cases bin)
  have b: "b \<notin> fst ` set bins" "map_of bins b = None" using Cons.prems(1) bin by (auto simp: map_of_eq_None_iff)
  have ih: "track_binaries prev_info outs bins (new(b := entry prev_info outs b info)) =
      Ret (\<lambda>c. case map_of bins c of Some info \<Rightarrow> entry prev_info outs c info
        | None \<Rightarrow> (new(b := entry prev_info outs b info)) c)"
    using Cons.prems b bin by (intro Cons.IH) auto
  have eq: "(\<lambda>c. case map_of bins c of Some info \<Rightarrow> entry prev_info outs c info
        | None \<Rightarrow> (new(b := entry prev_info outs b info)) c) =
      (\<lambda>c. case map_of (bin # bins) c of Some info \<Rightarrow> entry prev_info outs c info | None \<Rightarrow> new c)"
    using b by (auto simp: fun_eq_iff bin split: option.splits)
  show ?case using Cons.prems(2) bin ih [unfolded eq] by (simp add: track_binary_entry del: fun_upd_apply)
qed simp

lemma computed:
  assumes "distinct (map fst bins)"
  shows "compute_outstanding_pure prev_info bins outs = Ret (\<lambda>b. case map_of bins b of
     Some info \<Rightarrow> entry prev_info outs b info | None \<Rightarrow> Option.bind prev_info (\<lambda>p. p b))"
proof -
  define new where "new b = (case map_of bins b of Some info \<Rightarrow> entry prev_info outs b info | None \<Rightarrow> None)" for b
  have dom: "b \<in> fst ` set bins \<longleftrightarrow> map_of bins b \<noteq> None" for b by (simp add: map_of_eq_None_iff)
  have "dom (p |` (- fst ` set bins)) \<inter> dom new = {}" for p
    by (auto simp: new_def restrict_map_def dom split: if_splits option.splits)
  moreover have "new ++ (p |` (- fst ` set bins)) = (\<lambda>b. case map_of bins b of Some info \<Rightarrow> entry (Some p) outs b info
      | None \<Rightarrow> p b)" if "prev_info = Some p" for p
    using that by (auto simp: fun_eq_iff new_def map_add_def restrict_map_def dom split: option.splits)
  moreover have "track_binaries prev_info outs bins Map.empty = Ret new"
    using track_binaries_entries [OF assms, of Map.empty prev_info outs] by (simp add: new_def [abs_def])
  ultimately show ?thesis
    by (cases prev_info)
      (simp_all add: compute_outstanding_pure_def carry_forward_def Let_def new_def [abs_def] del: dom_restrict cong: option.case_cong)
qed

definition all_old :: "rerun_suites_map option \<Rightarrow> rust_binary_id \<Rightarrow> test_case_name \<Rightarrow> tracking" where
  "all_old m b t = old_tracking (Option.bind m (\<lambda>m. m b)) t"

text \<open>What becomes of a test of any binary.\<close>

definition retrack_in ::
  "tracking \<Rightarrow> (rust_binary_id \<times> binary_info) list \<Rightarrow> outcomes \<Rightarrow> rust_binary_id \<Rightarrow> test_case_name \<Rightarrow> tracking" where
  "retrack_in prev bins outs b t = (case map_of bins b of
     Some (BinaryListed cases) \<Rightarrow>
       (case map_of cases t of Some fm \<Rightarrow> retrack prev fm (outs (b, t)) | None \<Rightarrow> unlisted prev)
   | _ \<Rightarrow> prev)"

lemma all_disjoint_prev: "all_disjoint m \<Longrightarrow> prev_disjoint (Option.bind m (\<lambda>m. m b))"
  by (cases m) (auto simp: all_disjoint_def prev_disjoint_def split: option.splits)

lemma old_tracking_Some: "old_tracking (Some i) t = tracking_of i t"
  by (simp add: old_tracking_def)

lemma entry_tracking:
  assumes "all_disjoint m" "\<And>cases. info = BinaryListed cases \<Longrightarrow> distinct (map fst cases)"
  shows "prev_disjoint (entry m outs b info) \<and> old_tracking (entry m outs b info) t =
     (case info of
        BinaryListed cases \<Rightarrow>
          (case map_of cases t of Some fm \<Rightarrow> retrack (all_old m b t) fm (outs (b, t)) | None \<Rightarrow> unlisted (all_old m b t))
      | BinaryNotListed \<Rightarrow> all_old m b t)"
proof (cases info)
  case (BinaryListed cases)
  note ts = track_suite_tracking [OF all_disjoint_prev [OF assms(1)] assms(2) [OF BinaryListed], where b = b]
  have "old_tracking (entry m outs b info) t = tracking_of (track_suite (Option.bind m (\<lambda>m. m b)) outs b cases) t"
    by (auto simp: entry_def BinaryListed Let_def old_tracking_def tracking_of_def)
  moreover have "prev_disjoint (entry m outs b info)"
    using ts(1) by (simp add: entry_def BinaryListed Let_def prev_disjoint_def)
  ultimately show ?thesis using ts(2) by (simp add: BinaryListed all_old_def cong: option.case_cong)
next
  case BinaryNotListed
  then show ?thesis using all_disjoint_prev [OF assms(1)] by (simp add: entry_def all_old_def)
qed

lemma recomputed:
  assumes "bins_ok bins" "all_disjoint m"
  shows "\<exists>new. compute_outstanding_pure m bins outs = Ret new \<and> all_disjoint (Some new) \<and>
     (\<forall>b t. all_old (Some new) b t = retrack_in (all_old m b t) bins outs b t)"
proof -
  define new where "new b = (case map_of bins b of
     Some info \<Rightarrow> entry m outs b info | None \<Rightarrow> Option.bind m (\<lambda>p. p b))" for b
  have "prev_disjoint (new b) \<and> old_tracking (new b) t = retrack_in (all_old m b t) bins outs b t" for b t
  proof (cases "map_of bins b")
    case None
    then show ?thesis using all_disjoint_prev [OF assms(2)] by (simp add: new_def retrack_in_def all_old_def)
  next
    case (Some info)
    have "distinct (map fst cases)" if "info = BinaryListed cases" for cases
      using assms(1) map_of_SomeD [OF Some] that by (auto simp: bins_ok_def)
    then show ?thesis
      using entry_tracking [OF assms(2), of info outs b t] by (cases info) (simp_all add: new_def Some retrack_in_def)
  qed
  then have "\<forall>b. prev_disjoint (new b)" "all_old (Some new) b t = retrack_in (all_old m b t) bins outs b t" for b t
    by (simp_all add: all_old_def)
  then have "all_disjoint (Some new)" "all_old (Some new) b t = retrack_in (all_old m b t) bins outs b t" for b t
    by (auto simp: all_disjoint_def prev_disjoint_def dest!: spec split: option.splits)
  then show ?thesis
    using computed [of bins m outs] assms(1) by (simp add: bins_ok_def new_def [abs_def])
qed

lemma tracking_all_old: "tracking_in m b t = all_old m b t"
  by (simp add: tracking_in_def all_old_def old_tracking_def)

end
