(* ===== verification/Rerun_Claims.thy ===== *)
theory Rerun_Claims
  imports Rerun Test_List_Claims
begin

text \<open>
  Properties of reruns: the bookkeeping along a chain of reruns, and the agreement of recorded
  outcomes with the statistics of a run.
\<close>

section \<open>A concrete run\<close>

definition ex_bins :: "(rust_binary_id \<times> binary_info) list" where
  "ex_bins = [(RustBinaryId ''core'', BinaryListed [(TestCaseName ''a'', Matches), (TestCaseName ''b'', Matches)])]"

definition ex_outs :: outcomes where
  "ex_outs = [(RustBinaryId ''core'', TestCaseName ''a'') \<mapsto> OutcomePassed]"

definition ex_statuses :: "execution_result \<Rightarrow> execution_statuses" where
  "ex_statuses r = \<lparr>statuses = [\<lparr>es_retry_data = \<lparr>attempt = 1, total_attempts = 1\<rparr>, es_result = r, es_time_taken = 1,
     es_is_slow = False, es_delay_before_start = 0\<rparr>], flaky_result_of = FlakyPass\<rparr>"

lemma ex_bins_ok: "bins_ok ex_bins"
  by (simp add: bins_ok_def ex_bins_def)

text \<open>
  C31. The computation of the outstanding tests never fails, keeps passing and outstanding tests
  apart, and agrees with a decision table on the previous tracking of a test, its listing and
  its recorded outcome: for every test, \<open>retrack_in\<close> says what it becomes.
\<close>

theorem outstanding_decision_table:
  assumes "bins_ok bins" "all_disjoint m"
  shows "\<exists>new. compute_outstanding_pure m bins outs = Ret new \<and>
     (\<forall>b t. tracking_in (Some new) b t = retrack_in (tracking_in m b t) bins outs b t) \<and>
     (\<forall>b i. new b = Some i \<longrightarrow> ri_passing i \<inter> ri_outstanding i = {})"
  using recomputed [OF assms, of outs] by (auto simp: all_disjoint_def info_disjoint_def tracking_all_old)

theorem outstanding_decision_table_witness:
  "\<exists>new. compute_outstanding_pure None ex_bins ex_outs = Ret new \<and>
     tracking_in (Some new) (RustBinaryId ''core'') (TestCaseName ''a'') = Passing \<and>
     tracking_in (Some new) (RustBinaryId ''core'') (TestCaseName ''b'') = Outstanding"
  using outstanding_decision_table [OF ex_bins_ok, of None ex_outs]
  by (auto simp: all_disjoint_def retrack_in_def ex_bins_def ex_outs_def)


section \<open>Chains of reruns\<close>

text \<open>
  A run of the chain marks as already passed only tests that pass in the information it got, as
  the test filter does, and reports no selected test as skipped for this reason.
\<close>

definition marks_ok :: "rerun_suites_map option \<Rightarrow> (rust_binary_id \<times> binary_info) list \<Rightarrow> outcomes \<Rightarrow> bool" where
  "marks_ok m bins outs \<longleftrightarrow>
     (\<forall>b cases t fm. map_of bins b = Some (BinaryListed cases) \<longrightarrow> map_of cases t = Some fm \<longrightarrow>
        (fm = Mismatch MRerunAlreadyPassed \<longrightarrow> tracking_in m b t = Passing) \<and>
        (fm = Matches \<longrightarrow> outs (b, t) \<noteq> Some (OutcomeSkipped SkippedRerun)))"

inductive rerun_chain ::
  "rerun_suites_map option \<Rightarrow> ((rust_binary_id \<times> binary_info) list \<times> outcomes) list
     \<Rightarrow> rerun_suites_map option \<Rightarrow> bool" where
  chain_nil: "rerun_chain m [] m"
| chain_run: "bins_ok bins \<Longrightarrow> marks_ok m bins outs \<Longrightarrow> compute_outstanding_pure m bins outs = Ret new \<Longrightarrow>
    rerun_chain (Some new) runs m' \<Longrightarrow> rerun_chain m ((bins, outs) # runs) m'"

inductive_cases rerun_chain_Cons: "rerun_chain m (r # runs) m'"

definition passed_in ::
  "(rust_binary_id \<times> binary_info) list \<times> outcomes \<Rightarrow> rust_binary_id \<Rightarrow> test_case_name \<Rightarrow> bool" where
  "passed_in r b t \<longleftrightarrow> (\<exists>cases. map_of (fst r) b = Some (BinaryListed cases) \<and>
     map_of cases t = Some Matches \<and> snd r (b, t) = Some OutcomePassed)"

lemma recomputed_Ret:
  assumes "bins_ok bins" "all_disjoint m" "compute_outstanding_pure m bins outs = Ret new"
  shows "all_disjoint (Some new)"
    "tracking_in (Some new) b t = retrack_in (tracking_in m b t) bins outs b t"
  using recomputed [OF assms(1,2), of outs] assms(3) by (auto simp: tracking_all_old)

lemma retrack_keeps_outstanding:
  "retrack Outstanding fm out \<noteq> Outstanding \<Longrightarrow> fm = Mismatch MRerunAlreadyPassed \<or>
     fm = Matches \<and> (out = Some OutcomePassed \<or> out = Some (OutcomeSkipped SkippedRerun))"
  by (induction Outstanding fm out rule: retrack.induct) auto

lemma retrack_passing:
  "retrack prev fm out = Passing \<Longrightarrow> prev = Passing \<or> fm = Mismatch MRerunAlreadyPassed \<or>
     fm = Matches \<and> (out = Some OutcomePassed \<or> out = Some (OutcomeSkipped SkippedRerun))"
  by (induction prev fm out rule: retrack.induct) auto

lemma retrack_in_outstanding:
  assumes "marks_ok m bins outs" "tracking_in m b t = Outstanding" "\<not> passed_in (bins, outs) b t"
  shows "retrack_in (tracking_in m b t) bins outs b t = Outstanding"
proof (rule ccontr)
  assume "\<not> ?thesis"
  then obtain cases fm where "map_of bins b = Some (BinaryListed cases)" "map_of cases t = Some fm"
    "retrack Outstanding fm (outs (b, t)) \<noteq> Outstanding"
    using assms(2) by (auto simp: retrack_in_def unlisted_def split: option.splits binary_info.splits)
  then show False
    using assms retrack_keeps_outstanding [of fm "outs (b, t)"] by (auto simp: marks_ok_def passed_in_def)
qed

lemma retrack_in_passing:
  assumes "marks_ok m bins outs" "retrack_in (tracking_in m b t) bins outs b t = Passing"
  shows "tracking_in m b t = Passing \<or> passed_in (bins, outs) b t"
proof (rule ccontr)
  assume no: "\<not> ?thesis"
  then obtain cases fm where "map_of bins b = Some (BinaryListed cases)" "map_of cases t = Some fm"
    "retrack (tracking_in m b t) fm (outs (b, t)) = Passing"
    using assms(2) by (auto simp: retrack_in_def unlisted_def split: option.splits binary_info.splits if_splits)
  then show False
    using assms(1) no retrack_passing [of "tracking_in m b t" fm "outs (b, t)"] by (auto simp: marks_ok_def passed_in_def)
qed

lemma chain_outstanding:
  assumes "rerun_chain m runs m'" "all_disjoint m" "tracking_in m b t = Outstanding" "\<forall>r \<in> set runs. \<not> passed_in r b t"
  shows "tracking_in m' b t = Outstanding"
  using assms
proof (induction rule: rerun_chain.induct)
  case (chain_run bins m outs new runs m')
  note new = recomputed_Ret [OF chain_run.hyps(1) chain_run.prems(1) chain_run.hyps(3)]
  have "tracking_in (Some new) b t = Outstanding"
    using retrack_in_outstanding [OF chain_run.hyps(2) chain_run.prems(2)] chain_run.prems(3) new(2) by simp
  then show ?case using chain_run.IH new(1) chain_run.prems(3) by simp
qed simp

lemma chain_passing:
  assumes "rerun_chain m runs m'" "all_disjoint m" "tracking_in m' b t = Passing"
  shows "tracking_in m b t = Passing \<or> (\<exists>r \<in> set runs. passed_in r b t)"
  using assms
proof (induction rule: rerun_chain.induct)
  case (chain_run bins m outs new runs m')
  note new = recomputed_Ret [OF chain_run.hyps(1) chain_run.prems(1) chain_run.hyps(3)]
  have "tracking_in (Some new) b t = Passing \<or> (\<exists>r \<in> set runs. passed_in r b t)"
    using chain_run.IH [OF new(1)] chain_run.prems(2) by simp
  then show ?case
    using retrack_in_passing [OF chain_run.hyps(2), of b t] new(2) by auto
qed simp

text \<open>
  C5. Along a chain of reruns an outstanding test is not lost: until a run selects it and it
  passes, it stays among the expected tests, and the test filter of the next run does not skip
  it as already passed, whatever is listed, skipped, filtered out or removed in between.
\<close>

theorem outstanding_until_passed:
  assumes "rerun_chain m runs (Some m')" "all_disjoint m" "tracking_in m b t = Outstanding"
    and "\<forall>r \<in> set runs. \<not> passed_in r b t"
  shows "(b, t) \<in> expected_test_ids m' \<and>
     \<not> is_rerun_already_passed (set_outstanding_tests (passing_of m') f) b t"
  using chain_outstanding [OF assms]
  by (auto simp: tracking_in_def tracking_of_def expected_test_ids_def is_rerun_already_passed_def
      set_outstanding_tests_def passing_of_def split: option.splits if_splits)

theorem outstanding_until_passed_witness:
  "\<exists>m'. compute_outstanding_pure (Some [RustBinaryId ''core'' \<mapsto> \<lparr>ri_passing = {}, ri_outstanding = {TestCaseName ''b''}\<rparr>])
       ex_bins ex_outs = Ret m' \<and> (RustBinaryId ''core'', TestCaseName ''b'') \<in> expected_test_ids m'"
proof -
  let ?m = "Some [RustBinaryId ''core'' \<mapsto> \<lparr>ri_passing = {}, ri_outstanding = {TestCaseName ''b''}\<rparr>]"
  have d: "all_disjoint ?m" by (auto simp: all_disjoint_def info_disjoint_def)
  obtain m' where m': "compute_outstanding_pure ?m ex_bins ex_outs = Ret m'"
    using recomputed [OF ex_bins_ok d] by blast
  have "marks_ok ?m ex_bins ex_outs" by (auto simp: marks_ok_def ex_bins_def ex_outs_def split: if_splits)
  then have c: "rerun_chain ?m [(ex_bins, ex_outs)] (Some m')"
    using ex_bins_ok m' by (auto intro: rerun_chain.intros)
  show ?thesis
    using outstanding_until_passed [OF c d, of "RustBinaryId ''core''" "TestCaseName ''b''"] m'
    by (simp add: tracking_in_def tracking_of_def passed_in_def ex_bins_def ex_outs_def)
qed

text \<open>
  C26. A test is skipped as already passed only if it did pass: what the test filter of a rerun
  skips for this reason passed in the information at the start of the chain or was selected and
  passed in one of its runs.
\<close>

theorem skipped_tests_had_passed:
  assumes "rerun_chain m runs (Some m')" "all_disjoint m"
    and "is_rerun_already_passed (set_outstanding_tests (passing_of m') f) b t"
  shows "tracking_in m b t = Passing \<or> (\<exists>r \<in> set runs. passed_in r b t)"
proof -
  have "tracking_in (Some m') b t = Passing"
    using assms(3) by (auto simp: tracking_in_def tracking_of_def is_rerun_already_passed_def
        set_outstanding_tests_def passing_of_def split: option.splits)
  then show ?thesis using chain_passing [OF assms(1,2)] by blast
qed

theorem skipped_tests_had_passed_witness:
  "\<exists>m'. compute_outstanding_pure None ex_bins ex_outs = Ret m' \<and>
     (is_rerun_already_passed (set_outstanding_tests (passing_of m') ex_filter) (RustBinaryId ''core'') (TestCaseName ''b'')
        \<longrightarrow> passed_in (ex_bins, ex_outs) (RustBinaryId ''core'') (TestCaseName ''b''))"
proof -
  have d: "all_disjoint None" by (simp add: all_disjoint_def)
  obtain m' where m': "compute_outstanding_pure None ex_bins ex_outs = Ret m'"
    using recomputed [OF ex_bins_ok d] by blast
  have "marks_ok None ex_bins ex_outs" by (auto simp: marks_ok_def ex_bins_def ex_outs_def split: if_splits)
  then have c: "rerun_chain None [(ex_bins, ex_outs)] (Some m')"
    using ex_bins_ok m' by (auto intro: rerun_chain.intros)
  show ?thesis
    using skipped_tests_had_passed [OF c d, of ex_filter "RustBinaryId ''core''" "TestCaseName ''b''"] m'
    by (auto simp: tracking_in_def)
qed


section \<open>Recorded outcomes\<close>

lemma finished_outcome_cases:
  assumes "statuses es \<noteq> []"
  shows "finished_outcome es = Ret (if is_success (es_result (last (statuses es))) \<and>
     (length (statuses es) > 1 \<longrightarrow> flaky_result_of es = FlakyPass) then OutcomePassed else OutcomeFailed)"
  using assms by (cases "flaky_result_of es")
    (auto simp: finished_outcome_def describe_def last_status_def)

text \<open>
  The outcome recorded for a rerun agrees with the statistics of the run: a finished test is
  recorded as passed exactly if the statistics count it as passed, and as failed exactly if
  they count it among the failures, for every result and every flaky setting.
\<close>

theorem recorded_outcome_matches_statistics:
  assumes "statuses es \<noteq> []"
  shows "\<exists>r st. finished_outcome es = Ret r \<and> on_test_finished s es = Ret st \<and>
     (r = OutcomePassed \<and> passed st = passed s + 1 \<and> failed_count st = failed_count s \<or>
      r = OutcomeFailed \<and> passed st = passed s \<and> failed_count st = failed_count s + 1)"
  using assms finished_outcome_cases [OF assms]
  by (cases "es_result (last (statuses es))"; cases "flaky_result_of es")
    (auto simp: on_test_finished_def last_status_def Let_def failed_count_def count_failed_def count_passed_def
      split: leak_timeout_result.splits slow_timeout_result.splits)

definition finishes :: "test_instance_id \<Rightarrow> ('e + test_event_summary) list \<Rightarrow> execution_statuses list" where
  "finishes t evs = concat (map (\<lambda>ev. case ev of
     Inr (EvTestFinished t' es) \<Rightarrow> if t' = t then [es] else [] | _ \<Rightarrow> []) evs)"

lemma outcome_cases:
  "r = None \<or> r = Some OutcomePassed \<or> r = Some OutcomeFailed \<or> r = Some (OutcomeSkipped SkippedRerun) \<or>
     r = Some (OutcomeSkipped SkippedExplicit)"
proof (cases r)
  case (Some x)
  then show ?thesis using test_outcome_skipped.nchotomy by (cases x) auto
qed simp

lemma collected_outcome:
  assumes "\<forall>ev \<in> set evs. \<exists>e. ev = Inr e \<and> (\<forall>t' es. e = EvTestFinished t' es \<longrightarrow> statuses es \<noteq> []) \<and>
      (\<forall>r. e \<noteq> EvTestSkipped t r)"
    and "m t \<noteq> Some (OutcomeSkipped SkippedRerun)" "m t \<noteq> Some (OutcomeSkipped SkippedExplicit)"
  shows "\<exists>m'. collect_from_events m evs = Ret (Inr m') \<and>
     m' t = (if m t = Some OutcomeFailed \<or> (\<exists>es \<in> set (finishes t evs). finished_outcome es = Ret OutcomeFailed)
             then Some OutcomeFailed
             else if finishes t evs = [] then m t else Some OutcomePassed)"
  using assms
proof (induction evs arbitrary: m)
  case (Cons ev evs)
  have evs: "\<forall>ev \<in> set evs. \<exists>e. ev = Inr e \<and> (\<forall>t' es. e = EvTestFinished t' es \<longrightarrow> statuses es \<noteq> []) \<and>
      (\<forall>r. e \<noteq> EvTestSkipped t r)" using Cons.prems(1) by simp
  obtain e where e: "ev = Inr e" "\<forall>t' es. e = EvTestFinished t' es \<longrightarrow> statuses es \<noteq> []" "\<forall>r. e \<noteq> EvTestSkipped t r"
    using Cons.prems(1) by auto
  show ?case
  proof (cases e)
    case (EvTestFinished t' es)
    then obtain r where r: "finished_outcome es = Ret r" "r = OutcomePassed \<or> r = OutcomeFailed"
      using e(2) finished_outcome_cases [of es] by auto
    define m1 where "m1 = (case m t' of
        Some existing \<Rightarrow> m(t' \<mapsto> if r = OutcomeFailed then OutcomeFailed else existing) | None \<Rightarrow> m(t' \<mapsto> r))"
    have step: "collect_from_events m (ev # evs) = collect_from_events m1 evs"
      by (simp add: e(1) EvTestFinished collect_event_def r(1) m1_def)
    have m1: "m1 t = (if t' = t then (if r = OutcomeFailed then Some OutcomeFailed
        else case m t of Some x \<Rightarrow> Some x | None \<Rightarrow> Some OutcomePassed) else m t)"
      using r(2) by (auto simp: m1_def split: option.splits)
    have old1: "m1 t \<noteq> Some (OutcomeSkipped SkippedRerun)" "m1 t \<noteq> Some (OutcomeSkipped SkippedExplicit)"
      using Cons.prems(2,3) by (auto simp: m1 split: option.splits)
    obtain m' where m': "collect_from_events m1 evs = Ret (Inr m')"
      "m' t = (if m1 t = Some OutcomeFailed \<or> (\<exists>es \<in> set (finishes t evs). finished_outcome es = Ret OutcomeFailed)
             then Some OutcomeFailed
             else if finishes t evs = [] then m1 t else Some OutcomePassed)"
      using Cons.IH [OF evs, of m1, OF old1] by (elim exE conjE) (rule that)
    have fin: "finishes t (ev # evs) = (if t' = t then es # finishes t evs else finishes t evs)"
      by (simp add: finishes_def e(1) EvTestFinished)
    have old: "m t = None \<or> m t = Some OutcomePassed \<or> m t = Some OutcomeFailed"
      using Cons.prems(2,3) outcome_cases [of "m t"] by blast
    show ?thesis
    proof (cases "t' = t")
      case True
      have "m' t = (if m t = Some OutcomeFailed \<or> (\<exists>es \<in> set (finishes t (ev # evs)). finished_outcome es = Ret OutcomeFailed)
          then Some OutcomeFailed
          else if finishes t (ev # evs) = [] then m t else Some OutcomePassed)"
        using old r(2) by (elim disjE) (simp_all add: fin m'(2) m1 True r(1))
      then show ?thesis unfolding step m'(1) by blast
    next
      case False
      then show ?thesis using m' by (simp add: step fin m1)
    qed
  next
    case (EvTestSkipped t' reason)
    then have t': "t' \<noteq> t" using e(3) by auto
    define m2 where "m2 = m(t' \<mapsto> OutcomeSkipped (from_mismatch_reason reason))"
    have m2: "m2 t = m t" using t' by (simp add: m2_def)
    have step: "collect_from_events m (ev # evs) = collect_from_events m2 evs"
      by (simp add: e(1) EvTestSkipped collect_event_def m2_def)
    have fin: "finishes t (ev # evs) = finishes t evs" by (simp add: finishes_def e(1) EvTestSkipped)
    show ?thesis unfolding step fin m2 [symmetric] using Cons.prems(2,3) by (intro Cons.IH [OF evs]) (simp_all add: m2)
  next
    case EvOther
    then have "collect_from_events m (ev # evs) = collect_from_events m evs" "finishes t (ev # evs) = finishes t evs"
      by (simp_all add: finishes_def e(1) collect_event_def)
    then show ?thesis using Cons.IH [OF evs, of m, OF Cons.prems(2,3)] by (simp only:)
  qed
qed (simp add: finishes_def)

theorem recorded_outcome_matches_statistics_witness:
  "finished_outcome (ex_statuses ExecFail) = Ret OutcomeFailed \<and>
   (\<exists>st. on_test_finished default_run_stats (ex_statuses ExecFail) = Ret st \<and> failed_count st = 1)"
  using recorded_outcome_matches_statistics [of "ex_statuses ExecFail" default_run_stats]
  by (auto simp: ex_statuses_def default_run_stats_def failed_count_def on_test_finished_def last_status_def
      finished_outcome_def describe_def)

text \<open>
  A test that fails in any iteration of a recorded stress run is recorded as failed: for a
  test that is not skipped, the outcome is \<open>Failed\<close> if one of its finish events failed,
  \<open>Passed\<close> if it finished and none failed, and there is none if it never finished.
\<close>

theorem any_failure_is_recorded:
  assumes "\<forall>ev \<in> set evs. \<exists>e. ev = Inr e \<and> (\<forall>t' es. e = EvTestFinished t' es \<longrightarrow> statuses es \<noteq> []) \<and>
      (\<forall>r. e \<noteq> EvTestSkipped t r)"
  shows "\<exists>m. collect_from_events Map.empty evs = Ret (Inr m) \<and>
     m t = (if \<exists>es \<in> set (finishes t evs). finished_outcome es = Ret OutcomeFailed then Some OutcomeFailed
            else if finishes t evs = [] then None else Some OutcomePassed)"
  using collected_outcome [OF assms, of Map.empty] by simp

theorem any_failure_is_recorded_witness:
  "\<exists>m. collect_from_events Map.empty
       [Inr (EvTestFinished (RustBinaryId ''core'', TestCaseName ''a'') (ex_statuses ExecFail)) :: nat + _,
        Inr (EvTestFinished (RustBinaryId ''core'', TestCaseName ''a'') (ex_statuses Pass))] = Ret (Inr m) \<and>
     m (RustBinaryId ''core'', TestCaseName ''a'') = Some OutcomeFailed"
proof -
  let ?t = "(RustBinaryId ''core'', TestCaseName ''a'')"
  have "finished_outcome (ex_statuses ExecFail) = Ret OutcomeFailed"
    by (simp add: finished_outcome_cases ex_statuses_def)
  then show ?thesis
    using any_failure_is_recorded [of "[Inr (EvTestFinished ?t (ex_statuses ExecFail)) :: nat + _,
        Inr (EvTestFinished ?t (ex_statuses Pass))]" ?t]
    by (simp add: finishes_def ex_statuses_def)
qed

end
