(* ===== verification/Attempt_Claims.thy ===== *)
theory Attempt_Claims
  imports Attempts
begin

text \<open>
  Properties of the retries: which attempts a test gets and with which delays.
\<close>

section \<open>The delays of a policy\<close>

lemma of_nat_less_u32: "n \<le> unat (c :: u32) \<Longrightarrow> unat (of_nat n :: u32) = n"
  by (metis le_unat_uoi)

lemma u32_of_nat_Suc_pos: "Suc n \<le> unat (c :: u32) \<Longrightarrow> (of_nat (Suc n) :: u32) > 0"
  by (metis of_nat_less_u32 unat_gt_0 word_neq_0_conv zero_less_Suc)

text \<open>
  What a policy promises for the retry with index \<open>i\<close>, where \<open>q i\<close> is the initial delay times
  \<open>2 ^ i\<close>.
\<close>

definition policy_delay :: "attempt_env \<Rightarrow> retry_policy \<Rightarrow> (nat \<Rightarrow> duration) \<Rightarrow> nat \<Rightarrow> duration" where
  "policy_delay env p q i =
     (let jit = ae_jitter env (of_nat (unat (retry_count p) - i)) in case p of
        Fixed _ delay jitter \<Rightarrow> if jitter then jit delay else delay
      | Exponential _ _ jitter max_delay \<Rightarrow>
          let d = (case max_delay of Some m \<Rightarrow> min (q i) m | None \<Rightarrow> q i)
          in if jitter then jit d else d)"

text \<open>The state of the backoff after \<open>i\<close> delays: the factor stops growing at the cap.\<close>

definition backoff_state :: "retry_policy \<Rightarrow> (nat \<Rightarrow> duration) \<Rightarrow> nat \<Rightarrow> backoff_iter \<Rightarrow> bool" where
  "backoff_state p q i b \<longleftrightarrow>
     bi_policy b = p \<and> i \<le> unat (retry_count p) \<and> bi_remaining b = of_nat (unat (retry_count p) - i) \<and>
     (case p of Fixed _ _ _ \<Rightarrow> True
      | Exponential _ _ _ m \<Rightarrow> \<exists>k \<le> i. bi_current_factor b = 2 ^ k \<and>
          (k < i \<longrightarrow> (\<exists>d. m = Some d \<and> q k > d)))"

definition multiplies :: "attempt_env \<Rightarrow> retry_policy \<Rightarrow> (nat \<Rightarrow> duration) \<Rightarrow> bool" where
  "multiplies env p q \<longleftrightarrow> (case p of Fixed _ _ _ \<Rightarrow> True
     | Exponential count delay _ _ \<Rightarrow>
         (\<forall>i < unat count. ae_mul env delay (2 ^ i) = Ret (q i)) \<and> (\<forall>i j. i \<le> j \<longrightarrow> q i \<le> q j))"

lemma backoff_step:
  assumes "backoff_state p q i b" "multiplies env p q" "i < unat (retry_count p)"
  shows "\<exists>b'. backoff_next env b = Ret (b', Some (policy_delay env p q i)) \<and> backoff_state p q (Suc i) b'"
proof -
  let ?r = "of_nat (unat (retry_count p) - i) :: u32"
  have r: "bi_remaining b = ?r" "?r > 0" "?r - 1 = of_nat (unat (retry_count p) - Suc i)"
  proof -
    obtain n where n: "unat (retry_count p) - i = Suc n" "n = unat (retry_count p) - Suc i"
      using assms(3) by (metis Suc_diff_Suc)
    then have "Suc n \<le> unat (retry_count p)" by simp
    from u32_of_nat_Suc_pos[OF this] show "?r > 0" using n by simp
    show "?r - 1 = of_nat (unat (retry_count p) - Suc i)" using n by simp
    show "bi_remaining b = ?r" using assms(1) by (simp add: backoff_state_def)
  qed
  show ?thesis
  proof (cases p)
    case (Fixed c d j)
    then show ?thesis using assms r
      by (simp add: backoff_state_def backoff_next_def next_delay_and_jitter_def policy_delay_def)
  next
    case (Exponential c d j m)
    obtain k where k: "k \<le> i" "bi_current_factor b = 2 ^ k" "k < i \<Longrightarrow> \<exists>d. m = Some d \<and> q k > d"
      using assms(1) Exponential by (auto simp: backoff_state_def)
    have mul: "ae_mul env d (2 ^ k) = Ret (q k)" and mono: "\<And>i j. i \<le> j \<Longrightarrow> q i \<le> q j"
      using assms(2,3) Exponential k(1) by (auto simp: multiplies_def)
    have b: "bi_policy b = Exponential c d j m" "Suc i \<le> unat c" "retry_count p = c"
      using assms(1,3) Exponential by (auto simp: backoff_state_def)
    show ?thesis
    proof (cases "\<exists>x. m = Some x \<and> q k > x")
      case True
      then obtain x where x: "m = Some x" "q k > x" by auto
      have "min (q i) x = x" using mono[OF k(1)] x(2) by simp
      then show ?thesis using x b r k mul Exponential
        by (auto simp: backoff_state_def backoff_next_def next_delay_and_jitter_def policy_delay_def)
    next
      case False
      then have "k = i" using k by fastforce
      then show ?thesis using False b r k mul Exponential
        by (auto simp: backoff_state_def backoff_next_def next_delay_and_jitter_def policy_delay_def
            not_less min_def intro: exI[of _ "Suc i"] split: option.splits)
    qed
  qed
qed

lemma backoff_delays_from:
  assumes "backoff_state p q i b" "multiplies env p q" "i + n = unat (retry_count p)"
  shows "backoff_delays env b n = Ret (map (policy_delay env p q) [i ..< i + n])"
  using assms
proof (induction n arbitrary: i b)
  case (Suc n)
  from backoff_step[OF Suc.prems(1,2)] Suc.prems(3) obtain b' where
    b': "backoff_next env b = Ret (b', Some (policy_delay env p q i))" "backoff_state p q (Suc i) b'" by auto
  have "backoff_delays env b' n = Ret (map (policy_delay env p q) [Suc i ..< Suc i + n])"
    using Suc.IH[OF b'(2) Suc.prems(2)] Suc.prems(3) by (simp del: upt_Suc)
  then show ?case using b'(1) by (simp add: upt_conv_Cons del: upt_Suc)
qed simp


section \<open>The attempts\<close>

declare attempt_events.simps [simp del]

lemma u32_Suc:
  assumes "(n :: u32) < m"
  shows "unat (n + 1) = Suc (unat n)"
proof -
  have "Suc (unat n) < 2 ^ 32"
    using assms unsigned_less[of m, where 'a=nat] by (simp add: word_less_nat_alt)
  then show ?thesis by (simp add: unat_word_ariths)
qed

lemma attempt_loop_events:
  assumes "unat tot = T" "prev < tot" "backoff_delays env b (T - unat prev - 1) = Ret ds"
  shows "attempt_loop env t tot prev delay b = Ret (attempt_events env t T (Suc (unat prev)) delay ds)"
  using assms
proof (induction env t tot prev delay b arbitrary: ds rule: attempt_loop.induct)
  case (1 env t tot prev delay b)
  let ?n = "prev + 1"
  have n: "unat ?n = Suc (unat prev)" using 1(3) by (rule u32_Suc)
  have T: "unat ?n \<le> T" using n 1(2,3) by (simp add: word_less_nat_alt)
  have w: "1 + prev = ?n" by simp
  have gt: "?n > 1 \<longleftrightarrow> Suc (unat prev) > 1" using n by (simp add: word_less_nat_alt)
  show ?case
  proof (cases "?n < tot \<and> (?n > 1 \<longrightarrow> ae_retry env ?n) \<and> \<not> is_success (es_result (ae_run env ?n delay))")
    case False
    have "\<not> ?n < tot \<Longrightarrow> ds = []" using 1(2,4) n T by (auto simp: word_less_nat_alt)
    moreover have "?n < tot \<Longrightarrow> \<not> (?n > 1 \<longrightarrow> ae_retry env ?n) \<or> is_success (es_result (ae_run env ?n delay))"
      using False by blast
    ultimately show ?thesis using 1(2) n gt
      by (subst attempt_loop.simps, subst attempt_events.simps) (auto simp: Let_def w unsigned_eq_0_iff)
  next
    case True
    then have lt: "?n < tot" by simp
    then have "T - unat prev - 1 = Suc (T - unat ?n - 1)" using n 1(2) by (simp add: word_less_nat_alt)
    with 1(4) obtain b' d ds' where b': "backoff_next env b = Ret (b', Some d)"
      "backoff_delays env b' (T - unat ?n - 1) = Ret ds'" "ds = d # ds'"
      by (auto simp: bind_outcome_eq_Ret split: option.splits)
    have "attempt_loop env t tot ?n d b' = Ret (attempt_events env t T (Suc (unat ?n)) d ds')"
      using True lt b' 1(2) by (intro 1(1)[OF refl refl refl _ refl]) auto
    then show ?thesis using True b' 1(2) n gt
      by (subst attempt_loop.simps, subst attempt_events.simps) (auto simp: Let_def w unsigned_eq_0_iff)
  qed
qed

text \<open>
  With the delays \<open>delays\<close>, the first of them 0, attempt \<open>k + 1\<close> ends with \<open>attempt_status\<close>, and
  \<open>failed_attempt\<close> is what is sent for it when it is retried.
\<close>

abbreviation attempt_status :: "attempt_env \<Rightarrow> duration list \<Rightarrow> nat \<Rightarrow> execute_status" where
  "attempt_status env delays k \<equiv> ae_run env (of_nat (Suc k)) (delays ! k)"

definition attempt_start :: "test_instance_id \<Rightarrow> nat \<Rightarrow> nat \<Rightarrow> executor_event list" where
  "attempt_start t tot k = (if k > 0 then [RetryStarted t \<lparr>attempt = Suc k, total_attempts = tot\<rparr>] else [])"

definition failed_attempt :: "attempt_env \<Rightarrow> test_instance_id \<Rightarrow> nat \<Rightarrow> duration list \<Rightarrow> nat \<Rightarrow> executor_event list" where
  "failed_attempt env t tot delays k =
     attempt_start t tot k @ [AttemptFailedWillRetry t (attempt_status env delays k) (delays ! Suc k)]"

text \<open>Attempt \<open>k + 1\<close> is the last one: it is not allowed to start, or it succeeds, or no retry is left.\<close>

definition last_attempt :: "attempt_env \<Rightarrow> test_instance_id \<Rightarrow> nat \<Rightarrow> duration list \<Rightarrow> nat \<Rightarrow> executor_event list \<Rightarrow> bool" where
  "last_attempt env t tot delays k evs \<longleftrightarrow>
     (if k > 0 \<and> \<not> ae_retry env (of_nat (Suc k)) then evs = attempt_start t tot k
      else evs = attempt_start t tot k @ [Finished t (attempt_status env delays k)] \<and>
        (is_success (es_result (attempt_status env delays k)) \<or> Suc k = length delays))"

definition retried :: "attempt_env \<Rightarrow> duration list \<Rightarrow> nat \<Rightarrow> bool" where
  "retried env delays k \<longleftrightarrow> (k > 0 \<longrightarrow> ae_retry env (of_nat (Suc k))) \<and>
     \<not> is_success (es_result (attempt_status env delays k))"

lemma attempt_events_last:
  assumes "j < length delays"
  shows "\<exists>k \<ge> j. k < length delays \<and> (\<forall>i \<in> {j ..< k}. retried env delays i) \<and>
    (\<exists>evs. last_attempt env t tot delays k evs \<and>
      attempt_events env t tot (Suc j) (delays ! j) (drop (Suc j) delays) =
        concat (map (failed_attempt env t tot delays) [j ..< k]) @ evs)"
  using assms
proof (induction "length delays - j" arbitrary: j)
  case (Suc n)
  show ?case
  proof (cases "retried env delays j \<and> Suc j < length delays")
    case True
    have "n = length delays - Suc j" "Suc j < length delays" using Suc(2) True by auto
    from Suc(1)[OF this] obtain k evs where k: "k \<ge> Suc j" "k < length delays"
      "\<forall>i \<in> {Suc j ..< k}. retried env delays i" "last_attempt env t tot delays k evs"
      "attempt_events env t tot (Suc (Suc j)) (delays ! Suc j) (drop (Suc (Suc j)) delays) =
        concat (map (failed_attempt env t tot delays) [Suc j ..< k]) @ evs" by (elim exE conjE)
    have d: "drop (Suc j) delays = delays ! Suc j # drop (Suc (Suc j)) delays"
      using True by (simp add: Cons_nth_drop_Suc)
    have r: "j = 0 \<or> ae_retry env (1 + word_of_nat j)" using True by (auto simp: retried_def)
    have "attempt_events env t tot (Suc j) (delays ! j) (drop (Suc j) delays) =
      failed_attempt env t tot delays j @ concat (map (failed_attempt env t tot delays) [Suc j ..< k]) @ evs"
      using True k(5) r unfolding d
      by (subst attempt_events.simps) (simp add: retried_def failed_attempt_def attempt_start_def Let_def)
    moreover have "\<forall>i \<in> {j ..< k}. retried env delays i"
      using k(3) True by (metis atLeastLessThan_iff le_antisym not_less_eq_eq)
    ultimately show ?thesis using k(1,2,4)
      by (intro exI[of _ k]) (auto simp: upt_conv_Cons)
  next
    case False
    have "length delays = Suc j \<and> drop (Suc j) delays = [] \<or> \<not> retried env delays j"
      using False Suc(3) by auto
    then have "last_attempt env t tot delays j (attempt_events env t tot (Suc j) (delays ! j) (drop (Suc j) delays))"
      using Suc(3) by (subst attempt_events.simps)
        (auto simp: retried_def last_attempt_def attempt_start_def Let_def)
    then show ?thesis using Suc(3) by (intro exI[of _ j]) auto
  qed
qed simp


section \<open>An example\<close>

text \<open>
  A test that fails twice and then passes, three retries with a delay that starts at 100
  nanoseconds and is capped at 250.
\<close>

definition ex_attempts :: attempt_env where
  "ex_attempts = \<lparr>ae_run = \<lambda>n d. \<lparr>es_retry_data = \<lparr>attempt = unat n, total_attempts = 4\<rparr>,
       es_result = (if n < 3 then ExecFail else Pass), es_time_taken = 10, es_is_slow = False,
       es_delay_before_start = d\<rparr>,
     ae_start = True, ae_retry = \<lambda>n. True, ae_mul = \<lambda>d f. Ret (d * f), ae_jitter = \<lambda>r d. d\<rparr>"

definition ex_t :: test_instance_id where
  "ex_t = (RustBinaryId ''crate'', TestCaseName ''t'')"

definition ex_policy :: retry_policy where
  "ex_policy = Exponential 3 100 False (Some 250)"

lemma ex_multiplies: "multiplies ex_attempts ex_policy (\<lambda>i. 100 * 2 ^ i)"
  by (simp add: multiplies_def ex_attempts_def ex_policy_def)

lemma ex_delays: "map (policy_delay ex_attempts ex_policy (\<lambda>i. 100 * 2 ^ i)) [0 ..< 3] = [100, 200, 250]"
  by (simp add: policy_delay_def ex_policy_def upt_rec)


section \<open>Claims\<close>

text \<open>
  C37. The delays are those of the policy: with a fixed policy the configured delay each time, with
  an exponential one the delay doubles with each retry up to \<open>max-delay\<close>, and stays there; jitter is
  applied last. The backoff yields one delay for each retry, and does not panic as long as the
  doubled delays are durations.
\<close>

theorem backoff_follows_policy:
  assumes "multiplies env p q"
  shows "backoff_delays env (backoff_new p) (unat (retry_count p)) =
    Ret (map (policy_delay env p q) [0 ..< unat (retry_count p)])"
proof -
  have "backoff_state p q 0 (backoff_new p)"
    by (simp add: backoff_state_def backoff_new_def split: retry_policy.split)
  from backoff_delays_from[OF this assms, of "unat (retry_count p)"] show ?thesis by simp
qed

theorem backoff_follows_policy_witness:
  "backoff_delays ex_attempts (backoff_new ex_policy) 3 = Ret [100, 200, 250]"
  using backoff_follows_policy[OF ex_multiplies] ex_delays by (simp add: ex_policy_def)

text \<open>
  C9. A test that starts is tried until an attempt succeeds, until the dispatcher does not let a
  retry start, or until its policy has no retries left: for some number \<open>k\<close> of retries, at most the
  configured one, each of the first \<open>k\<close> attempts fails and is reported with the delay of the policy,
  and then comes the last attempt, whose status is reported as the test's if it ran. The loop never
  panics, and it stops.
\<close>

theorem attempts_follow_policy:
  assumes "retry_count p < - 1" "multiplies env p q" "ae_start env"
  defines "delays \<equiv> 0 # map (policy_delay env p q) [0 ..< unat (retry_count p)]"
  shows "\<exists>k evs. k \<le> unat (retry_count p) \<and> (\<forall>i < k. retried env delays i) \<and>
    last_attempt env t (Suc (unat (retry_count p))) delays k evs \<and>
    run_test_instance env t Matches fr p =
      Ret (Started t fr # concat (map (failed_attempt env t (Suc (unat (retry_count p))) delays) [0 ..< k]) @ evs)"
proof -
  let ?c = "unat (retry_count p)" and ?ds = "map (policy_delay env p q) [0 ..< unat (retry_count p)]"
  have tot: "unat (retry_count p + 1) = Suc ?c" using assms(1) by (rule u32_Suc)
  have "0 < retry_count p + 1" using tot by (simp add: word_less_nat_alt)
  moreover have "backoff_delays env (backoff_new p) (Suc ?c - unat (0 :: u32) - 1) = Ret ?ds"
    using backoff_follows_policy[OF assms(2)] by simp
  ultimately have loop: "attempt_loop env t (retry_count p + 1) 0 0 (backoff_new p) =
      Ret (attempt_events env t (Suc ?c) 1 0 ?ds)"
    using attempt_loop_events[OF tot] by simp
  obtain k evs where k: "k < length delays" "\<forall>i \<in> {0 ..< k}. retried env delays i"
    "last_attempt env t (Suc ?c) delays k evs"
    "attempt_events env t (Suc ?c) (Suc 0) (delays ! 0) (drop (Suc 0) delays) =
      concat (map (failed_attempt env t (Suc ?c) delays) [0 ..< k]) @ evs"
    using attempt_events_last[of 0 delays env t "Suc ?c"] unfolding delays_def by auto
  show ?thesis using k loop assms(3)
    by (intro exI[of _ k] exI[of _ evs]) (auto simp: run_test_instance_def Let_def delays_def)
qed

theorem attempts_follow_policy_witness:
  "\<exists>k evs. k \<le> 3 \<and> (\<forall>i < k. retried ex_attempts [0, 100, 200, 250] i) \<and>
    last_attempt ex_attempts ex_t 4 [0, 100, 200, 250] k evs \<and>
    run_test_instance ex_attempts ex_t Matches FlakyPass ex_policy =
      Ret (Started ex_t FlakyPass # concat (map (failed_attempt ex_attempts ex_t 4 [0, 100, 200, 250]) [0 ..< k]) @ evs)"
  using attempts_follow_policy[OF _ ex_multiplies, where t = ex_t and fr = FlakyPass] ex_delays
  by (simp add: ex_policy_def ex_attempts_def)

text \<open>
  What is accepted as a retry policy: a count that fits into 32 bits, or a table whose jitter
  has a delay to act on and whose exponential backoff starts with a positive delay, has a positive
  count and is capped, if at all, at no less than that delay.
\<close>

theorem accepted_retry_policies:
  "deserialize_retry_policy v = Inr p \<longleftrightarrow>
    (\<exists>n. v = RetryNumber n \<and> 0 \<le> n \<and> n < 2 ^ 32 \<and> p = Fixed (word_of_int n) 0 False) \<or>
    v = RetryTable p \<and> (case p of
      Fixed _ delay jitter \<Rightarrow> jitter \<longrightarrow> 0 < delay
    | Exponential count delay _ max_delay \<Rightarrow>
        0 < count \<and> 0 < delay \<and> (\<forall>m. max_delay = Some m \<longrightarrow> delay \<le> m))"
  by (auto simp: deserialize_retry_policy_def retry_visit_def new_without_delay_def word_gt_0
      split: retry_value.splits retry_policy.splits option.splits if_splits)

text \<open>
  The largest count that is accepted gives no retries at all: the number of attempts is computed
  with 32 bits and wraps to 0, so that a test that fails is reported as finished after its first
  attempt.
\<close>

theorem largest_count_never_retries:
  assumes "retry_count p = - 1" "ae_start env"
  shows "run_test_instance env t Matches fr p = Ret [Started t fr, Finished t (ae_run env 1 0)]"
  using assms by (simp add: run_test_instance_def attempt_loop.simps Let_def)

theorem largest_count_never_retries_witness:
  "run_test_instance ex_attempts ex_t Matches FlakyPass (Fixed 4294967295 5 False) =
    Ret [Started ex_t FlakyPass,
      Finished ex_t (ae_run ex_attempts 1 0)] \<and>
    \<not> is_success (es_result (ae_run ex_attempts 1 0))"
  using largest_count_never_retries[of "Fixed 4294967295 5 False" ex_attempts "ex_t" FlakyPass]
  by (simp add: ex_attempts_def)

end
