(* ===== verification/Recorded_Run.thy ===== *)
theory Recorded_Run
  imports Partition
begin

text \<open>
  Recorded runs: what the run store knows about a run
  (\<open>RecordedRunInfo\<close> in \<open>nextest-runner/src/record/store.rs\<close>), its serialisation format in
  \<open>runs.json.zst\<close>, the format versions (\<open>nextest-runner/src/record/format.rs\<close>), and whether a run
  can be replayed.

  Run ids are UUIDs, which are values of 128 bits; times are nanoseconds on one clock. The version
  of nextest and the run's duration, a floating-point number, are only carried along.
\<close>

type_synonym run_id = "128 word"
type_synonym timestamp = int

section \<open>Format versions\<close>

record store_format_version =
  sv_major :: u32
  sv_minor :: u32

datatype too_old_guidance =
    UseOlderNextest string
  | DiscardRecording string
  | UnknownGuidance

datatype store_version_incompatibility =
    RecordingTooOld u32 u32 too_old_guidance
  | RecordingTooNew u32 u32
  | MinorTooNew u32 u32

definition major_guidance :: "u32 \<Rightarrow> too_old_guidance" where
  "major_guidance v =
     (if v = 1 then DiscardRecording ''0.9.130''
      else if v = 2 then DiscardRecording ''0.9.149''
      else UnknownGuidance)"

definition check_readable_by ::
  "store_format_version \<Rightarrow> store_format_version \<Rightarrow> store_version_incompatibility + unit" where
  "check_readable_by v supported =
     (if sv_major v < sv_major supported
      then Inl (RecordingTooOld (sv_major v) (sv_major supported) (major_guidance (sv_major v)))
      else if sv_major v > sv_major supported
      then Inl (RecordingTooNew (sv_major v) (sv_major supported))
      else if sv_minor v > sv_minor supported
      then Inl (MinorTooNew (sv_minor v) (sv_minor supported))
      else Inr ())"

definition STORE_FORMAT_VERSION :: store_format_version where
  "STORE_FORMAT_VERSION = \<lparr>sv_major = 3, sv_minor = 0\<rparr>"

definition RUNS_JSON_FORMAT_VERSION :: u32 where
  "RUNS_JSON_FORMAT_VERSION = 3"


section \<open>A recorded run\<close>

record component_sizes =
  cs_compressed :: u64
  cs_uncompressed :: u64
  cs_entries :: u64

record recorded_sizes =
  rz_log :: component_sizes
  rz_store :: component_sizes

definition no_sizes :: recorded_sizes where
  "no_sizes = \<lparr>rz_log = \<lparr>cs_compressed = 0, cs_uncompressed = 0, cs_entries = 0\<rparr>,
     rz_store = \<lparr>cs_compressed = 0, cs_uncompressed = 0, cs_entries = 0\<rparr>\<rparr>"

definition total_compressed :: "recorded_sizes \<Rightarrow> u64" where
  "total_compressed z = cs_compressed (rz_log z) + cs_compressed (rz_store z)"

definition total_uncompressed :: "recorded_sizes \<Rightarrow> u64" where
  "total_uncompressed z = cs_uncompressed (rz_log z) + cs_uncompressed (rz_store z)"

definition total_entries :: "recorded_sizes \<Rightarrow> u64" where
  "total_entries z = cs_entries (rz_log z) + cs_entries (rz_store z)"

record completed_run_stats =
  cr_initial_run_count :: nat
  cr_passed :: nat
  cr_failed :: nat
  cr_exit_code :: int

record stress_completed_run_stats =
  scr_initial_iteration_count :: "u32 option"
  scr_success_count :: u32
  scr_failed_count :: u32
  scr_exit_code :: int

datatype recorded_run_status =
    RecIncomplete
  | RecCompleted completed_run_stats
  | RecCancelled completed_run_stats
  | RecStressCompleted stress_completed_run_stats
  | RecStressCancelled stress_completed_run_stats
  | RecUnknown

fun status_exit_code :: "recorded_run_status \<Rightarrow> int option" where
  "status_exit_code RecIncomplete = None"
| "status_exit_code RecUnknown = None"
| "status_exit_code (RecCompleted stats) = Some (cr_exit_code stats)"
| "status_exit_code (RecCancelled stats) = Some (cr_exit_code stats)"
| "status_exit_code (RecStressCompleted stats) = Some (scr_exit_code stats)"
| "status_exit_code (RecStressCancelled stats) = Some (scr_exit_code stats)"

record recorded_run_info =
  rr_run_id :: run_id
  rr_store_format_version :: store_format_version
  rr_nextest_version :: string
  rr_started_at :: timestamp
  rr_last_written_at :: timestamp
  rr_duration_secs :: "u64 option"
  rr_cli_args :: "string list"
  rr_env_vars :: "(string \<times> string) list"
  rr_parent_run_id :: "run_id option"
  rr_sizes :: recorded_sizes
  rr_status :: recorded_run_status

abbreviation run_size :: "recorded_run_info \<Rightarrow> u64" where
  "run_size r \<equiv> total_compressed (rr_sizes r)"


section \<open>The format of runs.json.zst\<close>

datatype recorded_run_status_format =
    FmtIncomplete
  | FmtCompleted nat nat nat int
  | FmtCancelled nat nat nat int
  | FmtStressCompleted "u32 option" u32 u32 int
  | FmtStressCancelled "u32 option" u32 u32 int
  | FmtUnknown

record component_sizes_format =
  cf_compressed :: u64
  cf_uncompressed :: u64
  cf_entries :: u64

record recorded_sizes_format =
  zf_log :: component_sizes_format
  zf_store :: component_sizes_format

record recorded_run =
  rf_run_id :: run_id
  rf_store_format_version :: u32
  rf_store_format_minor_version :: u32
  rf_nextest_version :: string
  rf_started_at :: timestamp
  rf_last_written_at :: timestamp
  rf_duration_secs :: "u64 option"
  rf_cli_args :: "string list"
  rf_env_vars :: "(string \<times> string) list"
  rf_parent_run_id :: "run_id option"
  rf_sizes :: recorded_sizes_format
  rf_status :: recorded_run_status_format

definition sizes_to_format :: "recorded_sizes \<Rightarrow> recorded_sizes_format" where
  "sizes_to_format z =
     \<lparr>zf_log = \<lparr>cf_compressed = cs_compressed (rz_log z), cf_uncompressed = cs_uncompressed (rz_log z),
        cf_entries = cs_entries (rz_log z)\<rparr>,
      zf_store = \<lparr>cf_compressed = cs_compressed (rz_store z), cf_uncompressed = cs_uncompressed (rz_store z),
        cf_entries = cs_entries (rz_store z)\<rparr>\<rparr>"

definition sizes_of_format :: "recorded_sizes_format \<Rightarrow> recorded_sizes" where
  "sizes_of_format z =
     \<lparr>rz_log = \<lparr>cs_compressed = cf_compressed (zf_log z), cs_uncompressed = cf_uncompressed (zf_log z),
        cs_entries = cf_entries (zf_log z)\<rparr>,
      rz_store = \<lparr>cs_compressed = cf_compressed (zf_store z), cs_uncompressed = cf_uncompressed (zf_store z),
        cs_entries = cf_entries (zf_store z)\<rparr>\<rparr>"

fun status_to_format :: "recorded_run_status \<Rightarrow> recorded_run_status_format" where
  "status_to_format RecIncomplete = FmtIncomplete"
| "status_to_format RecUnknown = FmtUnknown"
| "status_to_format (RecCompleted s) =
     FmtCompleted (cr_initial_run_count s) (cr_passed s) (cr_failed s) (cr_exit_code s)"
| "status_to_format (RecCancelled s) =
     FmtCancelled (cr_initial_run_count s) (cr_passed s) (cr_failed s) (cr_exit_code s)"
| "status_to_format (RecStressCompleted s) =
     FmtStressCompleted (scr_initial_iteration_count s) (scr_success_count s) (scr_failed_count s) (scr_exit_code s)"
| "status_to_format (RecStressCancelled s) =
     FmtStressCancelled (scr_initial_iteration_count s) (scr_success_count s) (scr_failed_count s) (scr_exit_code s)"

fun status_of_format :: "recorded_run_status_format \<Rightarrow> recorded_run_status" where
  "status_of_format FmtIncomplete = RecIncomplete"
| "status_of_format FmtUnknown = RecUnknown"
| "status_of_format (FmtCompleted n p f c) =
     RecCompleted \<lparr>cr_initial_run_count = n, cr_passed = p, cr_failed = f, cr_exit_code = c\<rparr>"
| "status_of_format (FmtCancelled n p f c) =
     RecCancelled \<lparr>cr_initial_run_count = n, cr_passed = p, cr_failed = f, cr_exit_code = c\<rparr>"
| "status_of_format (FmtStressCompleted n p f c) = RecStressCompleted
     \<lparr>scr_initial_iteration_count = n, scr_success_count = p, scr_failed_count = f, scr_exit_code = c\<rparr>"
| "status_of_format (FmtStressCancelled n p f c) = RecStressCancelled
     \<lparr>scr_initial_iteration_count = n, scr_success_count = p, scr_failed_count = f, scr_exit_code = c\<rparr>"

definition run_to_format :: "recorded_run_info \<Rightarrow> recorded_run" where
  "run_to_format r =
     \<lparr>rf_run_id = rr_run_id r,
      rf_store_format_version = sv_major (rr_store_format_version r),
      rf_store_format_minor_version = sv_minor (rr_store_format_version r),
      rf_nextest_version = rr_nextest_version r,
      rf_started_at = rr_started_at r,
      rf_last_written_at = rr_last_written_at r,
      rf_duration_secs = rr_duration_secs r,
      rf_cli_args = rr_cli_args r,
      rf_env_vars = rr_env_vars r,
      rf_parent_run_id = rr_parent_run_id r,
      rf_sizes = sizes_to_format (rr_sizes r),
      rf_status = status_to_format (rr_status r)\<rparr>"

definition run_of_format :: "recorded_run \<Rightarrow> recorded_run_info" where
  "run_of_format r =
     \<lparr>rr_run_id = rf_run_id r,
      rr_store_format_version =
        \<lparr>sv_major = rf_store_format_version r, sv_minor = rf_store_format_minor_version r\<rparr>,
      rr_nextest_version = rf_nextest_version r,
      rr_started_at = rf_started_at r,
      rr_last_written_at = rf_last_written_at r,
      rr_duration_secs = rf_duration_secs r,
      rr_cli_args = rf_cli_args r,
      rr_env_vars = rf_env_vars r,
      rr_parent_run_id = rf_parent_run_id r,
      rr_sizes = sizes_of_format (rf_sizes r),
      rr_status = status_of_format (rf_status r)\<rparr>"

record recorded_run_list =
  rl_format_version :: u32
  rl_last_pruned_at :: "timestamp option"
  rl_runs :: "recorded_run list"

datatype runs_json_write_permission = WriteAllowed | WriteDenied u32 u32

definition into_data :: "recorded_run_list \<Rightarrow> recorded_run_info list \<times> timestamp option" where
  "into_data l = (map run_of_format (rl_runs l), rl_last_pruned_at l)"

definition from_data :: "recorded_run_info list \<Rightarrow> timestamp option \<Rightarrow> recorded_run_list" where
  "from_data runs pruned =
     \<lparr>rl_format_version = RUNS_JSON_FORMAT_VERSION, rl_last_pruned_at = pruned, rl_runs = map run_to_format runs\<rparr>"

definition write_permission_of :: "recorded_run_list \<Rightarrow> runs_json_write_permission" where
  "write_permission_of l =
     (if rl_format_version l > RUNS_JSON_FORMAT_VERSION
      then WriteDenied (rl_format_version l) RUNS_JSON_FORMAT_VERSION
      else WriteAllowed)"

lemma sizes_round_trip [simp]: "sizes_of_format (sizes_to_format z) = z"
  by (simp add: sizes_of_format_def sizes_to_format_def)

lemma status_round_trip [simp]: "status_of_format (status_to_format s) = s"
  by (cases s) simp_all

lemma run_round_trip [simp]: "run_of_format (run_to_format r) = r"
  by (simp add: run_of_format_def run_to_format_def)

lemma into_data_from_data [simp]: "into_data (from_data runs pruned) = (runs, pruned)"
  by (simp add: into_data_def from_data_def o_def)

lemma from_data_writable [simp]: "write_permission_of (from_data runs pruned) = WriteAllowed"
  by (simp add: write_permission_of_def from_data_def)


section \<open>Replaying a run\<close>

datatype non_replayable_reason =
    StoreVersionIncompatible store_version_incompatibility
  | MissingStoreZip
  | MissingRunLog
  | StatusUnknown

datatype replayability_status =
    Replayable
  | NotReplayable "non_replayable_reason list"
  | IncompleteRun

text \<open>\<open>RunFilesExist\<close>: whether \<open>store.zip\<close> and \<open>run.log.zst\<close> are there.\<close>

record run_files =
  fs_store_zip_exists :: bool
  fs_run_log_exists :: bool

definition check_replayability :: "recorded_run_info \<Rightarrow> run_files \<Rightarrow> replayability_status" where
  "check_replayability r files =
     (let blocking =
            (case check_readable_by (rr_store_format_version r) STORE_FORMAT_VERSION of
               Inl e \<Rightarrow> [StoreVersionIncompatible e] | Inr _ \<Rightarrow> []);
          blocking = (if \<not> fs_store_zip_exists files then blocking @ [MissingStoreZip] else blocking);
          blocking = (if \<not> fs_run_log_exists files then blocking @ [MissingRunLog] else blocking);
          (blocking, is_incomplete) =
            (case rr_status r of
               RecUnknown \<Rightarrow> (blocking @ [StatusUnknown], False)
             | RecIncomplete \<Rightarrow> (blocking, True)
             | _ \<Rightarrow> (blocking, False))
      in if blocking \<noteq> [] then NotReplayable blocking
         else if is_incomplete then IncompleteRun
         else Replayable)"

end
