(* ===== verification/Run_Index.thy ===== *)
theory Run_Index
  imports Recorded_Run "HOL-Library.Char_ord" "HOL-Library.List_Lexorder"
begin

text \<open>
  Finding a recorded run by a prefix of its id
  (\<open>nextest-runner/src/record/run_id_index.rs\<close>): the selectors of the command line, the sorted
  index, the shortest prefix that identifies a run, and the resolution of a prefix.

  How an id is printed is a parameter \<open>to_str\<close>: hexadecimal digits in groups of 8, 4, 4, 4 and 12
  with dashes between them (\<open>uuid_string\<close>). Strings compare by their bytes.
\<close>

section \<open>Selectors\<close>

datatype run_id_selector = SelLatest | SelPrefix string

datatype run_id_or_recording_selector = SelRunId run_id_selector | SelRecordingPath string

definition parse_run_id_selector :: "string \<Rightarrow> string + run_id_selector" where
  "parse_run_id_selector s =
     (if s = ''latest'' then Inr SelLatest
      else
        let is_valid = s \<noteq> [] \<and> (\<forall>c \<in> set s. is_hexdigit c \<or> c = CHR ''-'')
        in if is_valid then Inr (SelPrefix s) else Inl s)"

fun show_run_id_selector :: "run_id_selector \<Rightarrow> string" where
  "show_run_id_selector SelLatest = ''latest''"
| "show_run_id_selector (SelPrefix pre) = pre"

text \<open>\<open>has_zip\<close> is \<open>has_zip_extension\<close>, which uses the path library.\<close>

definition parse_run_id_or_recording ::
  "(string \<Rightarrow> bool) \<Rightarrow> string \<Rightarrow> string + run_id_or_recording_selector" where
  "parse_run_id_or_recording has_zip s =
     (if has_zip s then Inr (SelRecordingPath s)
      else (case parse_run_id_selector s of
              Inr sel \<Rightarrow> Inr (SelRunId sel)
            | Inl _ \<Rightarrow> if CHR ''/'' \<in> set s then Inr (SelRecordingPath s) else Inl s))"

fun show_run_id_or_recording :: "run_id_or_recording_selector \<Rightarrow> string" where
  "show_run_id_or_recording (SelRunId sel) = show_run_id_selector sel"
| "show_run_id_or_recording (SelRecordingPath path) = path"


section \<open>The index\<close>

record run_id_index_entry =
  ie_run_id :: run_id
  ie_hex :: string

type_synonym run_id_index = "run_id_index_entry list"

definition normalize_hex :: "string \<Rightarrow> string" where
  "normalize_hex s = to_lowercase (filter (\<lambda>c. c \<noteq> CHR ''-'') s)"

definition run_id_index_new :: "(run_id \<Rightarrow> string) \<Rightarrow> recorded_run_info list \<Rightarrow> run_id_index" where
  "run_id_index_new to_str runs =
     sort_key ie_hex
       (map (\<lambda>r. \<lparr>ie_run_id = rr_run_id r, ie_hex = normalize_hex (to_str (rr_run_id r))\<rparr>) runs)"

definition common_hex_prefix_len :: "string \<Rightarrow> string \<Rightarrow> nat" where
  "common_hex_prefix_len a b = length (takeWhile (\<lambda>(ca, cb). ca = cb) (zip a b))"

fun index_position :: "('a \<Rightarrow> bool) \<Rightarrow> 'a list \<Rightarrow> nat option" where
  "index_position P [] = None"
| "index_position P (x # xs) = (if P x then Some 0 else map_option Suc (index_position P xs))"

definition shortest_unique_prefix_len :: "run_id_index \<Rightarrow> run_id \<Rightarrow> nat option" where
  "shortest_unique_prefix_len entries run_id =
     (case index_position (\<lambda>e. ie_run_id e = run_id) entries of
        None \<Rightarrow> None
      | Some pos \<Rightarrow>
          (let target_hex = ie_hex (entries ! pos);
               min_len = 1;
               min_len =
                 (if pos > 0
                  then max min_len (common_hex_prefix_len target_hex (ie_hex (entries ! (pos - 1))) + 1)
                  else min_len);
               min_len =
                 (if pos + 1 < length entries
                  then max min_len (common_hex_prefix_len target_hex (ie_hex (entries ! (pos + 1))) + 1)
                  else min_len)
           in Some min_len))"

record shortest_run_id_prefix =
  sp_prefix :: string
  sp_rest :: string

definition hex_len_to_string_index :: "nat \<Rightarrow> nat" where
  "hex_len_to_string_index hex_len =
     (let dashes =
        (if hex_len \<le> 8 then 0
         else if hex_len \<le> 12 then 1
         else if hex_len \<le> 16 then 2
         else if hex_len \<le> 20 then 3
         else 4)
      in hex_len + dashes)"

definition shortest_run_id_prefix_new :: "(run_id \<Rightarrow> string) \<Rightarrow> run_id \<Rightarrow> nat \<Rightarrow> shortest_run_id_prefix" where
  "shortest_run_id_prefix_new to_str run_id hex_len =
     (let full = to_str run_id;
          split_index = min (hex_len_to_string_index hex_len) (length full)
      in \<lparr>sp_prefix = take split_index full, sp_rest = drop split_index full\<rparr>)"

definition prefix_full :: "shortest_run_id_prefix \<Rightarrow> string" where
  "prefix_full p = sp_prefix p @ sp_rest p"

definition shortest_unique_prefix ::
  "(run_id \<Rightarrow> string) \<Rightarrow> run_id_index \<Rightarrow> run_id \<Rightarrow> shortest_run_id_prefix option" where
  "shortest_unique_prefix to_str entries run_id =
     (case shortest_unique_prefix_len entries run_id of
        None \<Rightarrow> None
      | Some prefix_len \<Rightarrow> Some (shortest_run_id_prefix_new to_str run_id prefix_len))"

datatype prefix_resolution_error =
    PrefixNotFound
  | PrefixAmbiguous nat "run_id list"
  | InvalidPrefix

text \<open>
  \<open>partition_point\<close> finds, by binary search, the first entry that is not smaller; the entries
  are sorted.
\<close>

definition resolve_prefix :: "run_id_index \<Rightarrow> string \<Rightarrow> prefix_resolution_error + run_id" where
  "resolve_prefix entries pre =
     (let normalized = normalize_hex pre
      in if \<not> (\<forall>c \<in> set normalized. is_hexdigit c) then Inl InvalidPrefix
         else
           (let from_start = dropWhile (\<lambda>e. ie_hex e < normalized) entries;
                matches = map ie_run_id (takeWhile (\<lambda>e. prefix normalized (ie_hex e)) from_start)
            in (case matches of
                  [] \<Rightarrow> Inl PrefixNotFound
                | [r] \<Rightarrow> Inr r
                | _ \<Rightarrow> Inl (PrefixAmbiguous (length matches) (take 8 matches)))))"


section \<open>Printed ids\<close>

definition uuid_string :: "string \<Rightarrow> bool" where
  "uuid_string s \<longleftrightarrow> length s = 36 \<and>
     (\<forall>i < 36. if i \<in> {8, 13, 18, 23} then s ! i = CHR ''-''
               else is_hexdigit (s ! i) \<and> to_ascii_lower (s ! i) = s ! i)"

definition uuid_hex :: "string \<Rightarrow> string" where
  "uuid_hex s = filter (\<lambda>c. c \<noteq> CHR ''-'') s"

end
