(* ===== verification/Run_Store.thy ===== *)
theory Run_Store
  imports Run_Index
begin

text \<open>
  The store of recorded runs: the retention policy and pruning
  (\<open>nextest-runner/src/record/retention.rs\<close>), the operations on the locked store and its snapshot
  (\<open>nextest-runner/src/record/store.rs\<close>).

  The store is its list of runs in memory, together with the list in \<open>runs.json.zst\<close>, which only
  \<open>write_runs_json\<close> changes. What the file system, the clock and the floating-point unit answer is
  an input (\<open>store_env\<close>): whether a write succeeds, how the removal of a run's directory ends, what
  is listed in the runs directory, and the thresholds of implicit pruning. A \<open>HashSet\<close> is iterated
  in an order that is an input too.
\<close>

section \<open>Retention\<close>

record retention_policy =
  rp_max_count :: "nat option"
  rp_max_total_size :: "u64 option"
  rp_max_age :: "nat option"

datatype remove_result = DirRemoved | DirNotFound | DirRemoveFailed

datatype dir_entry = EntryUnreadable | FileTypeUnreadable string | DirEntry string bool

datatype dir_listing = NoRunsDir | RunsDirUnreadable | Listing "dir_entry list"

record store_env =
  se_now :: timestamp
  se_time_delta_max :: int
  se_scale_count :: "nat \<Rightarrow> nat"
  se_scale_size :: "u64 \<Rightarrow> u64"
  se_to_str :: "run_id \<Rightarrow> string"
  se_parse_id :: "string \<Rightarrow> run_id option"
  se_hash_order :: "run_id set \<Rightarrow> run_id list"
  se_remove_dir :: "run_id \<Rightarrow> remove_result"
  se_listing :: dir_listing
  se_write_ok :: bool
  se_recorder_ok :: bool
  se_version :: store_format_version

text \<open>One pass over the runs, from the most recently used one.\<close>

definition exceeds_limit :: "store_env \<Rightarrow> retention_policy \<Rightarrow> nat \<Rightarrow> u64 \<Rightarrow> recorded_run_info \<Rightarrow> bool" where
  "exceeds_limit env p kept_count kept_size r =
     ((case rp_max_count p of Some max_count \<Rightarrow> kept_count \<ge> max_count | None \<Rightarrow> False) \<or>
      (case rp_max_total_size p of Some max_total_size \<Rightarrow> kept_size + run_size r > max_total_size | None \<Rightarrow> False) \<or>
      (case rp_max_age p of
         Some max_age \<Rightarrow> max 0 (se_now env - rr_last_written_at r) > min (int max_age) (se_time_delta_max env)
       | None \<Rightarrow> False))"

fun delete_pass ::
  "store_env \<Rightarrow> retention_policy \<Rightarrow> nat \<Rightarrow> u64 \<Rightarrow> recorded_run_info list \<Rightarrow> run_id list" where
  "delete_pass env p kept_count kept_size [] = []"
| "delete_pass env p kept_count kept_size (r # rs) =
     (if exceeds_limit env p kept_count kept_size r
      then rr_run_id r # delete_pass env p kept_count kept_size rs
      else delete_pass env p (kept_count + 1) (kept_size + run_size r) rs)"

definition compute_runs_to_delete :: "store_env \<Rightarrow> retention_policy \<Rightarrow> recorded_run_info list \<Rightarrow> run_id list" where
  "compute_runs_to_delete env p runs =
     delete_pass env p 0 0 (sort_key (\<lambda>r. - rr_last_written_at r) runs)"

definition total_size :: "recorded_run_info list \<Rightarrow> u64" where
  "total_size runs = sum_list (map run_size runs)"

definition limits_exceeded_by_factor :: "store_env \<Rightarrow> retention_policy \<Rightarrow> recorded_run_info list \<Rightarrow> bool" where
  "limits_exceeded_by_factor env p runs =
     ((case rp_max_count p of Some max_count \<Rightarrow> length runs > se_scale_count env max_count | None \<Rightarrow> False) \<or>
      (case rp_max_total_size p of Some max_total_size \<Rightarrow> total_size runs > se_scale_size env max_total_size
       | None \<Rightarrow> False))"


section \<open>Pruning\<close>

datatype prune_kind = ExplicitPrune | ImplicitPrune

datatype record_prune_error =
    DeleteRun run_id
  | ReadRunsDir
  | ReadDirEntry
  | ReadFileType string
  | DeleteOrphan run_id

record prune_result =
  pr_kind :: prune_kind
  pr_deleted_count :: nat
  pr_orphans_deleted :: nat
  pr_freed_bytes :: u64
  pr_errors :: "record_prune_error list"

definition empty_prune_result :: prune_result where
  "empty_prune_result = \<lparr>pr_kind = ExplicitPrune, pr_deleted_count = 0, pr_orphans_deleted = 0,
     pr_freed_bytes = 0, pr_errors = []\<rparr>"

definition prune_plan_new :: "recorded_run_info list \<Rightarrow> recorded_run_info list" where
  "prune_plan_new runs = sort_key rr_started_at runs"

definition prune_plan_compute ::
  "store_env \<Rightarrow> recorded_run_info list \<Rightarrow> retention_policy \<Rightarrow> recorded_run_info list" where
  "prune_plan_compute env runs p =
     (let to_delete = set (compute_runs_to_delete env p runs)
      in prune_plan_new (filter (\<lambda>r. rr_run_id r \<in> to_delete) runs))"

definition find_size :: "recorded_run_info list \<Rightarrow> run_id \<Rightarrow> u64" where
  "find_size runs run_id =
     (case find (\<lambda>r. rr_run_id r = run_id) runs of Some r \<Rightarrow> run_size r | None \<Rightarrow> 0)"

definition delete_run_dir ::
  "store_env \<Rightarrow> recorded_run_info list \<Rightarrow> run_id \<Rightarrow> prune_result \<Rightarrow> prune_result" where
  "delete_run_dir env runs run_id result =
     (let size_bytes = find_size runs run_id;
          counted = result\<lparr>pr_deleted_count := pr_deleted_count result + 1,
            pr_freed_bytes := pr_freed_bytes result + size_bytes\<rparr>
      in case se_remove_dir env run_id of
           DirRemoved \<Rightarrow> counted
         | DirNotFound \<Rightarrow> counted
         | DirRemoveFailed \<Rightarrow> result\<lparr>pr_errors := pr_errors result @ [DeleteRun run_id]\<rparr>)"

definition delete_runs ::
  "store_env \<Rightarrow> recorded_run_info list \<Rightarrow> run_id set \<Rightarrow> recorded_run_info list \<times> prune_result" where
  "delete_runs env runs to_delete =
     (let result = fold (delete_run_dir env runs) (se_hash_order env to_delete) empty_prune_result
      in (filter (\<lambda>r. rr_run_id r \<notin> to_delete) runs, result))"

definition delete_orphan :: "store_env \<Rightarrow> run_id set \<Rightarrow> dir_entry \<Rightarrow> prune_result \<Rightarrow> prune_result" where
  "delete_orphan env known_runs entry result =
     (case entry of
        EntryUnreadable \<Rightarrow> result\<lparr>pr_errors := pr_errors result @ [ReadDirEntry]\<rparr>
      | FileTypeUnreadable name \<Rightarrow> result\<lparr>pr_errors := pr_errors result @ [ReadFileType name]\<rparr>
      | DirEntry name is_dir \<Rightarrow>
          if \<not> is_dir then result
          else (case se_parse_id env name of
                  None \<Rightarrow> result
                | Some run_id \<Rightarrow>
                    if run_id \<in> known_runs then result
                    else (case se_remove_dir env run_id of
                            DirRemoved \<Rightarrow> result\<lparr>pr_orphans_deleted := pr_orphans_deleted result + 1\<rparr>
                          | DirNotFound \<Rightarrow> result
                          | DirRemoveFailed \<Rightarrow> result\<lparr>pr_errors := pr_errors result @ [DeleteOrphan run_id]\<rparr>)))"

definition delete_orphaned_dirs :: "store_env \<Rightarrow> run_id set \<Rightarrow> prune_result \<Rightarrow> prune_result" where
  "delete_orphaned_dirs env known_runs result =
     (case se_listing env of
        NoRunsDir \<Rightarrow> result
      | RunsDirUnreadable \<Rightarrow> result\<lparr>pr_errors := pr_errors result @ [ReadRunsDir]\<rparr>
      | Listing entries \<Rightarrow> fold (delete_orphan env known_runs) entries result)"


section \<open>The locked store\<close>

record run_store =
  rs_runs :: "recorded_run_info list"
  rs_last_pruned_at :: "timestamp option"
  rs_write_permission :: runs_json_write_permission
  rs_file :: "recorded_run_list option"

datatype run_store_error =
    FormatVersionTooNew u32 u32
  | RunListWrite
  | RecorderError

text \<open>\<open>read_runs_json\<close> when the file can be read: what is in memory once the store is locked.\<close>

definition open_store :: "recorded_run_list option \<Rightarrow> run_store" where
  "open_store file = (case file of
     None \<Rightarrow> \<lparr>rs_runs = [], rs_last_pruned_at = None, rs_write_permission = WriteAllowed, rs_file = None\<rparr>
   | Some l \<Rightarrow> (let (runs, pruned) = into_data l
       in \<lparr>rs_runs = runs, rs_last_pruned_at = pruned, rs_write_permission = write_permission_of l,
           rs_file = Some l\<rparr>))"

definition write_runs_json :: "store_env \<Rightarrow> run_store \<Rightarrow> run_store \<times> (run_store_error + unit)" where
  "write_runs_json env s =
     (if se_write_ok env then (s\<lparr>rs_file := Some (from_data (rs_runs s) (rs_last_pruned_at s))\<rparr>, Inr ())
      else (s, Inl RunListWrite))"

fun mark_run_completed ::
  "timestamp \<Rightarrow> run_id \<Rightarrow> recorded_sizes \<Rightarrow> recorded_run_status \<Rightarrow> u64 option \<Rightarrow>
     recorded_run_info list \<Rightarrow> recorded_run_info list \<times> bool" where
  "mark_run_completed now run_id sizes st secs [] = ([], False)"
| "mark_run_completed now run_id sizes st secs (r # rs) =
     (if rr_run_id r = run_id
      then (r\<lparr>rr_sizes := sizes, rr_status := st, rr_duration_secs := secs, rr_last_written_at := now\<rparr> # rs, True)
      else (let (rs, found) = mark_run_completed now run_id sizes st secs rs in (r # rs, found)))"

definition complete_run ::
  "store_env \<Rightarrow> run_id \<Rightarrow> recorded_sizes \<Rightarrow> recorded_run_status \<Rightarrow> u64 option \<Rightarrow> run_store
     \<Rightarrow> run_store \<times> (run_store_error + bool)" where
  "complete_run env run_id sizes st secs s =
     (case rs_write_permission s of
        WriteDenied v w \<Rightarrow> (s, Inl (FormatVersionTooNew v w))
      | WriteAllowed \<Rightarrow>
          (let (runs, found) = mark_run_completed (se_now env) run_id sizes st secs (rs_runs s);
               s = s\<lparr>rs_runs := runs\<rparr>
           in if found then (case write_runs_json env s of
                  (s, Inl e) \<Rightarrow> (s, Inl e) | (s, Inr _) \<Rightarrow> (s, Inr found))
              else (s, Inr found)))"

definition prune :: "store_env \<Rightarrow> retention_policy \<Rightarrow> prune_kind \<Rightarrow> run_store \<Rightarrow> run_store \<times> (run_store_error + prune_result)" where
  "prune env p kind s =
     (case rs_write_permission s of
        WriteDenied v w \<Rightarrow> (s, Inl (FormatVersionTooNew v w))
      | WriteAllowed \<Rightarrow>
          (let to_delete = set (compute_runs_to_delete env p (rs_runs s));
               (runs, result) = (if to_delete = {} then (rs_runs s, empty_prune_result)
                                 else delete_runs env (rs_runs s) to_delete);
               s = s\<lparr>rs_runs := runs\<rparr>;
               result = result\<lparr>pr_kind := kind\<rparr>;
               result = delete_orphaned_dirs env (rr_run_id ` set runs) result
           in if pr_deleted_count result > 0 \<or> pr_orphans_deleted result > 0
              then (case write_runs_json env (s\<lparr>rs_last_pruned_at := Some (se_now env)\<rparr>) of
                      (s, Inl e) \<Rightarrow> (s, Inl e) | (s, Inr _) \<Rightarrow> (s, Inr result))
              else (s, Inr result)))"

definition PRUNE_INTERVAL :: int where
  "PRUNE_INTERVAL = 86400 * 1000000000"

definition prune_if_needed ::
  "store_env \<Rightarrow> retention_policy \<Rightarrow> run_store \<Rightarrow> run_store \<times> (run_store_error + prune_result option)" where
  "prune_if_needed env p s =
     (let time_since_last_prune = (case rs_last_pruned_at s of
            Some prev \<Rightarrow> se_now env - prev | None \<Rightarrow> se_time_delta_max env);
          should_prune = time_since_last_prune \<ge> PRUNE_INTERVAL \<or> limits_exceeded_by_factor env p (rs_runs s)
      in if should_prune
         then (case prune env p ImplicitPrune s of (s, Inl e) \<Rightarrow> (s, Inl e) | (s, Inr res) \<Rightarrow> (s, Inr (Some res)))
         else (s, Inr None))"

fun touch_first :: "timestamp \<Rightarrow> run_id \<Rightarrow> recorded_run_info list \<Rightarrow> recorded_run_info list" where
  "touch_first now run_id [] = []"
| "touch_first now run_id (r # rs) =
     (if rr_run_id r = run_id then r\<lparr>rr_last_written_at := now\<rparr> # rs else r # touch_first now run_id rs)"

definition new_run ::
  "store_env \<Rightarrow> run_id \<Rightarrow> string \<Rightarrow> timestamp \<Rightarrow> string list \<Rightarrow> (string \<times> string) list \<Rightarrow> run_id option
     \<Rightarrow> recorded_run_info" where
  "new_run env run_id version started_at cli_args env_vars parent =
     \<lparr>rr_run_id = run_id, rr_store_format_version = se_version env, rr_nextest_version = version,
      rr_started_at = started_at, rr_last_written_at = se_now env, rr_duration_secs = None,
      rr_cli_args = cli_args, rr_env_vars = env_vars, rr_parent_run_id = parent, rr_sizes = no_sizes,
      rr_status = RecIncomplete\<rparr>"

text \<open>\<open>create_run_recorder\<close>: the panic is the \<open>expect\<close> that the new run has a prefix.\<close>

definition create_run_recorder ::
  "store_env \<Rightarrow> run_id \<Rightarrow> string \<Rightarrow> timestamp \<Rightarrow> string list \<Rightarrow> (string \<times> string) list \<Rightarrow> run_id option
     \<Rightarrow> run_store \<Rightarrow> (run_store \<times> (run_store_error + shortest_run_id_prefix)) outcome" where
  "create_run_recorder env run_id version started_at cli_args env_vars parent s =
     (case rs_write_permission s of
        WriteDenied v w \<Rightarrow> Ret (s, Inl (FormatVersionTooNew v w))
      | WriteAllowed \<Rightarrow>
          (let runs = rs_runs s @ [new_run env run_id version started_at cli_args env_vars parent];
               runs = (case parent of Some p \<Rightarrow> touch_first (se_now env) p runs | None \<Rightarrow> runs);
               s = s\<lparr>rs_runs := runs\<rparr>
           in case write_runs_json env s of
                (s, Inl e) \<Rightarrow> Ret (s, Inl e)
              | (s, Inr _) \<Rightarrow>
                  (case shortest_unique_prefix (se_to_str env) (run_id_index_new (se_to_str env) (rs_runs s)) run_id of
                     None \<Rightarrow> Panic
                   | Some pre \<Rightarrow> Ret (s, if se_recorder_ok env then Inr pre else Inl RecorderError))))"


section \<open>The snapshot\<close>

record run_store_snapshot =
  ss_runs :: "recorded_run_info list"
  ss_index :: run_id_index

definition into_snapshot :: "(run_id \<Rightarrow> string) \<Rightarrow> run_store \<Rightarrow> run_store_snapshot" where
  "into_snapshot to_str s = \<lparr>ss_runs = rs_runs s, ss_index = run_id_index_new to_str (rs_runs s)\<rparr>"

definition get_run :: "run_store_snapshot \<Rightarrow> run_id \<Rightarrow> recorded_run_info option" where
  "get_run snap run_id = find (\<lambda>r. rr_run_id r = run_id) (ss_runs snap)"

text \<open>\<open>max_by_key\<close> returns the last of several maximal elements.\<close>

fun max_by_key :: "('a \<Rightarrow> 'b :: linorder) \<Rightarrow> 'a list \<Rightarrow> 'a option" where
  "max_by_key f [] = None"
| "max_by_key f (x # xs) = (case max_by_key f xs of None \<Rightarrow> Some x | Some y \<Rightarrow> if f x > f y then Some x else Some y)"

datatype run_id_resolution_error =
    ResNoRuns
  | ResNotFound string
  | ResAmbiguous string nat "recorded_run_info list"
  | ResInvalidPrefix string

definition most_recent_run :: "run_store_snapshot \<Rightarrow> run_id_resolution_error + run_id" where
  "most_recent_run snap =
     (case max_by_key rr_started_at (ss_runs snap) of Some r \<Rightarrow> Inr (rr_run_id r) | None \<Rightarrow> Inl ResNoRuns)"

definition resolve_run_id_prefix :: "run_store_snapshot \<Rightarrow> string \<Rightarrow> run_id_resolution_error + run_id" where
  "resolve_run_id_prefix snap pre =
     (case resolve_prefix (ss_index snap) pre of
        Inr i \<Rightarrow> Inr i
      | Inl PrefixNotFound \<Rightarrow> Inl (ResNotFound pre)
      | Inl (PrefixAmbiguous n candidates) \<Rightarrow>
          Inl (ResAmbiguous pre n
            (sort_key (\<lambda>r. - rr_started_at r) (List.map_filter (get_run snap) candidates)))
      | Inl InvalidPrefix \<Rightarrow> Inl (ResInvalidPrefix pre))"

definition resolve_run_id :: "run_store_snapshot \<Rightarrow> run_id_selector \<Rightarrow> run_id_resolution_error + run_id" where
  "resolve_run_id snap selector =
     (case selector of SelLatest \<Rightarrow> most_recent_run snap | SelPrefix pre \<Rightarrow> resolve_run_id_prefix snap pre)"

definition compute_prune_plan :: "store_env \<Rightarrow> run_store_snapshot \<Rightarrow> retention_policy \<Rightarrow> recorded_run_info list" where
  "compute_prune_plan env snap p = prune_plan_compute env (ss_runs snap) p"

end
