(* ===== verification/Run_Index_Props.thy ===== *)
theory Run_Index_Props
  imports Run_Index
begin

text \<open>
  Strings with a common prefix are neighbours in the sorted index; so comparing with the neighbours
  is enough to find the shortest unique prefix, and resolving a prefix is the same as searching all
  runs.
\<close>

section \<open>Prefixes and the lexicographic order\<close>

lemma Cons_prefix_iff: "prefix (x # p) s \<longleftrightarrow> (\<exists>s'. s = x # s' \<and> prefix p s')"
  by (cases s) auto

lemma prefix_le: "prefix p (s :: string) \<Longrightarrow> p \<le> s"
  by (induction p arbitrary: s) (auto simp: Cons_prefix_iff)

lemma prefix_between:
  "prefix p a \<Longrightarrow> prefix p c \<Longrightarrow> (a :: string) \<le> b \<Longrightarrow> b \<le> c \<Longrightarrow> prefix p b"
proof (induction p arbitrary: a b c)
  case (Cons x p)
  from Cons.prems(1,2) obtain a' c' where ac: "a = x # a'" "c = x # c'" "prefix p a'" "prefix p c'"
    unfolding Cons_prefix_iff by blast
  obtain b' where b: "b = x # b'" "a' \<le> b'" "b' \<le> c'"
  proof (cases b)
    case Nil
    then show ?thesis using Cons.prems(3) ac(1) by simp
  next
    case b: (Cons y b')
    then show ?thesis using Cons.prems(3,4) ac(1,2) that[of b'] by (auto dest: less_asym)
  qed
  then show ?case using Cons.IH[OF ac(3,4) b(2,3)] by simp
qed simp

lemma prefix_take_common:
  "n \<le> length t \<Longrightarrow> prefix (take n t) u \<longleftrightarrow> n \<le> common_hex_prefix_len t u"
proof (induction t arbitrary: n u)
  case (Cons c t)
  then show ?case
    by (cases n; cases u) (auto simp: common_hex_prefix_len_def)
qed (simp add: common_hex_prefix_len_def)

lemma matches_filter:
  assumes "sorted (map ie_hex entries)"
  shows "takeWhile (\<lambda>e. prefix p (ie_hex e)) (dropWhile (\<lambda>e. ie_hex e < p) entries) =
    filter (\<lambda>e. prefix p (ie_hex e)) entries"
  using assms
proof (induction entries)
  case (Cons e es)
  show ?case
  proof (cases "ie_hex e < p")
    case True
    then have "\<not> prefix p (ie_hex e)" using prefix_le by fastforce
    then show ?thesis using True Cons by simp
  next
    case False
    have "takeWhile (\<lambda>e. prefix p (ie_hex e)) es = filter (\<lambda>e. prefix p (ie_hex e)) es" if "\<forall>x \<in> set es. p \<le> ie_hex x" "sorted (map ie_hex es)" for es
      using that
    proof (induction es)
      case (Cons y es)
      show ?case
      proof (cases "prefix p (ie_hex y)")
        case False
        have "\<not> prefix p (ie_hex z)" if z: "z \<in> set es" for z
        proof
          assume "prefix p (ie_hex z)"
          moreover have "p \<le> ie_hex y" "ie_hex y \<le> ie_hex z" using Cons.prems z by auto
          ultimately show False using False prefix_between[of p p "ie_hex z" "ie_hex y"] by simp
        qed
        then show ?thesis using False by (auto simp: filter_empty_conv)
      qed (use Cons in auto)
    qed simp
    moreover have "\<forall>x \<in> set (e # es). p \<le> ie_hex x" "sorted (map ie_hex (e # es))"
      using False Cons.prems by (auto intro: order_trans)
    ultimately have "takeWhile (\<lambda>e. prefix p (ie_hex e)) (e # es) = filter (\<lambda>e. prefix p (ie_hex e)) (e # es)"
      by blast
    then show ?thesis using False by simp
  qed
qed simp

lemma sorted_index: "sorted (map ie_hex (run_id_index_new to_str runs))"
  by (simp add: run_id_index_new_def)

lemma resolve_prefix_filter:
  "resolve_prefix (run_id_index_new to_str runs) p =
    (if \<not> (\<forall>c \<in> set (normalize_hex p). is_hexdigit c) then Inl InvalidPrefix
     else (case map ie_run_id (filter (\<lambda>e. prefix (normalize_hex p) (ie_hex e)) (run_id_index_new to_str runs)) of
             [] \<Rightarrow> Inl PrefixNotFound
           | [r] \<Rightarrow> Inr r
           | m \<Rightarrow> Inl (PrefixAmbiguous (length m) (take 8 m))))"
  by (simp add: resolve_prefix_def Let_def matches_filter sorted_index split: list.split)


section \<open>Printed ids\<close>

lemma uuid_parts:
  assumes "uuid_string s"
  shows "\<exists>a b c d e. s = a @ CHR ''-'' # b @ CHR ''-'' # c @ CHR ''-'' # d @ CHR ''-'' # e \<and>
    length a = 8 \<and> length b = 4 \<and> length c = 4 \<and> length d = 4 \<and> length e = 12 \<and>
    (\<forall>x \<in> set a \<union> set b \<union> set c \<union> set d \<union> set e. is_hexdigit x \<and> to_ascii_lower x = x)"
proof -
  let ?b = "take 4 (drop 9 s)" and ?c = "take 4 (drop 14 s)" and ?d = "take 4 (drop 19 s)"
  have len: "length s = 36" and dash: "\<And>i. i \<in> {8, 13, 18, 23} \<Longrightarrow> s ! i = CHR ''-''"
    and hex: "\<And>i. i < 36 \<Longrightarrow> i \<notin> {8, 13, 18, 23} \<Longrightarrow> is_hexdigit (s ! i) \<and> to_ascii_lower (s ! i) = s ! i"
    using assms by (auto simp: uuid_string_def)
  have cut: "drop i s = take 4 (drop i s) @ drop (i + 4) s" for i
    by (metis add.commute append_take_drop_id drop_drop)
  have "s = take 8 s @ s ! 8 # drop 9 s" "drop 13 s = s ! 13 # drop 14 s" "drop 18 s = s ! 18 # drop 19 s"
    "drop 23 s = s ! 23 # drop 24 s"
    using len id_take_nth_drop[of 8 s] Cons_nth_drop_Suc[of 13 s] Cons_nth_drop_Suc[of 18 s]
      Cons_nth_drop_Suc[of 23 s] by simp_all
  then have "s = take 8 s @ s ! 8 # ?b @ s ! 13 # ?c @ s ! 18 # ?d @ s ! 23 # drop 24 s"
    using cut[of 9] cut[of 14] cut[of 19] by simp
  then have "s = take 8 s @ CHR ''-'' # ?b @ CHR ''-'' # ?c @ CHR ''-'' # ?d @ CHR ''-'' # drop 24 s"
    using dash by simp
  moreover have seg: "\<forall>x \<in> set (take k (drop m s)). is_hexdigit x \<and> to_ascii_lower x = x"
    if "\<And>i. m \<le> i \<Longrightarrow> i < m + k \<Longrightarrow> i \<notin> {8, 13, 18, 23}" for k m
  proof
    fix x assume "x \<in> set (take k (drop m s))"
    then obtain i where "i < k" "m + i < 36" "x = s ! (m + i)"
      using len by (auto simp: in_set_conv_nth)
    then show "is_hexdigit x \<and> to_ascii_lower x = x" using hex[of "m + i"] that[of "m + i"] by simp
  qed
  moreover have "\<forall>x \<in> set (take 8 s) \<union> set ?b \<union> set ?c \<union> set ?d \<union> set (drop 24 s). is_hexdigit x \<and> to_ascii_lower x = x"
    using seg[of 0 8] seg[of 9 4] seg[of 14 4] seg[of 19 4] seg[of 24 12] len by (simp add: ball_Un)
  moreover have "length (take 8 s) = 8" "length ?b = 4" "length ?c = 4" "length ?d = 4" "length (drop 24 s) = 12"
    using len by simp_all
  ultimately show ?thesis by blast
qed

lemma filter_dash_free: "\<forall>x \<in> set s. is_hexdigit x \<and> to_ascii_lower x = x \<Longrightarrow> filter (\<lambda>c. c \<noteq> CHR ''-'') s = s"
  by (auto simp: filter_id_conv is_hexdigit_def)

lemma uuid_hex_props:
  assumes "uuid_string s"
  shows "length (uuid_hex s) = 32" "normalize_hex s = uuid_hex s" "\<forall>c \<in> set (uuid_hex s). is_hexdigit c"
proof -
  obtain a b c d e where s: "s = a @ CHR ''-'' # b @ CHR ''-'' # c @ CHR ''-'' # d @ CHR ''-'' # e"
    "length a = 8" "length b = 4" "length c = 4" "length d = 4" "length e = 12"
    and hex: "\<forall>x \<in> set a \<union> set b \<union> set c \<union> set d \<union> set e. is_hexdigit x \<and> to_ascii_lower x = x"
    using uuid_parts[OF assms] by blast
  have h: "uuid_hex s = a @ b @ c @ d @ e"
    using hex unfolding s uuid_hex_def by (simp add: filter_dash_free)
  show "length (uuid_hex s) = 32" using h s by simp
  show "normalize_hex s = uuid_hex s" "\<forall>c \<in> set (uuid_hex s). is_hexdigit c"
    using h hex by (auto simp: normalize_hex_def to_lowercase_def uuid_hex_def[symmetric] map_idI)
qed

lemma normalize_take_hex:
  assumes "uuid_string s"
  shows "normalize_hex (take k (uuid_hex s)) = take k (uuid_hex s)"
proof -
  have "\<forall>c \<in> set (uuid_hex s). to_ascii_lower c = c"
    using uuid_hex_props(2)[OF assms]
    by (simp add: normalize_hex_def to_lowercase_def uuid_hex_def[symmetric] map_eq_self_iff)
  moreover have "\<forall>c \<in> set (uuid_hex s). c \<noteq> CHR ''-''" by (simp add: uuid_hex_def)
  ultimately have "\<forall>c \<in> set (take k (uuid_hex s)). c \<noteq> CHR ''-'' \<and> to_ascii_lower c = c"
    by (meson in_set_takeD)
  then show ?thesis
    by (simp add: normalize_hex_def to_lowercase_def map_eq_self_iff filter_id_conv cong: filter_cong)
qed

lemma uuid_hex_inject:
  assumes "uuid_string s" "uuid_string t" "uuid_hex s = uuid_hex t"
  shows "s = t"
proof -
  obtain a b c d e where s: "s = a @ CHR ''-'' # b @ CHR ''-'' # c @ CHR ''-'' # d @ CHR ''-'' # e"
    "length a = 8" "length b = 4" "length c = 4" "length d = 4" "length e = 12"
    and hs: "\<forall>x \<in> set a \<union> set b \<union> set c \<union> set d \<union> set e. is_hexdigit x \<and> to_ascii_lower x = x"
    using uuid_parts[OF assms(1)] by blast
  obtain a' b' c' d' e' where t: "t = a' @ CHR ''-'' # b' @ CHR ''-'' # c' @ CHR ''-'' # d' @ CHR ''-'' # e'"
    "length a' = 8" "length b' = 4" "length c' = 4" "length d' = 4" "length e' = 12"
    and ht: "\<forall>x \<in> set a' \<union> set b' \<union> set c' \<union> set d' \<union> set e'. is_hexdigit x \<and> to_ascii_lower x = x"
    using uuid_parts[OF assms(2)] by blast
  have "a @ b @ c @ d @ e = a' @ b' @ c' @ d' @ e'"
    using assms(3) hs ht unfolding s t uuid_hex_def by (simp add: filter_dash_free)
  then have "a = a' \<and> b = b' \<and> c = c' \<and> d = d' \<and> e = e'" using s t by simp
  then show ?thesis using s(1) t(1) by simp
qed

lemma hex_count:
  assumes "uuid_string s" "n \<le> 32" "k = hex_len_to_string_index n"
  shows "length (filter (\<lambda>c. c \<noteq> CHR ''-'') (take k s)) = n"
proof -
  let ?D = "{8, 13, 18, 23 :: nat}"
  have k: "k \<le> 36" using assms(2,3) by (simp add: hex_len_to_string_index_def Let_def split: if_splits)
  have "s ! i \<noteq> CHR ''-'' \<longleftrightarrow> i \<notin> ?D" if "i < k" for i
  proof -
    have "if i \<in> ?D then s ! i = CHR ''-'' else is_hexdigit (s ! i)"
      using assms(1) that k by (simp add: uuid_string_def)
    then show ?thesis by (auto simp: is_hexdigit_def split: if_splits)
  qed
  then have "{i. i < k \<and> s ! i \<noteq> CHR ''-''} = {..<k} - ?D" by auto
  moreover have "length s = 36" using assms(1) by (simp add: uuid_string_def)
  moreover have "{i. i < length (take k s) \<and> take k s ! i \<noteq> CHR ''-''} = {i. i < k \<and> s ! i \<noteq> CHR ''-''}"
    using k calculation(2) by auto
  ultimately have "length (filter (\<lambda>c. c \<noteq> CHR ''-'') (take k s)) = card ({..<k} - ?D)"
    by (simp add: length_filter_conv_card)
  also have "\<dots> = k - card ({..<k} \<inter> ?D)"
    by (simp add: card_Diff_subset_Int)
  also have "\<dots> = n"
    using assms(2,3) by (auto simp: hex_len_to_string_index_def Let_def Int_insert_right split: if_splits)
  finally show ?thesis .
qed

lemma take_filter_prefix: "filter P (take k s) = take (length (filter P (take k s))) (filter P s)"
proof -
  have "filter P s = filter P (take k s) @ filter P (drop k s)"
    by (metis append_take_drop_id filter_append)
  then show ?thesis by simp
qed

lemma take_hex:
  assumes "uuid_string s" "n \<le> 32"
  shows "uuid_hex (take (hex_len_to_string_index n) s) = take n (uuid_hex s)"
  using take_filter_prefix[of "\<lambda>c. c \<noteq> CHR ''-''" "hex_len_to_string_index n" s] hex_count[OF assms refl]
  by (simp add: uuid_hex_def)

lemma prefix_hex:
  assumes "uuid_string s" "n \<le> 32"
  shows "normalize_hex (take (hex_len_to_string_index n) s) = take n (uuid_hex s)"
proof -
  have "filter (\<lambda>c. c \<noteq> CHR ''-'') (take (hex_len_to_string_index n) s) = take n (uuid_hex s)"
    using take_hex[OF assms] by (simp add: uuid_hex_def)
  moreover have "map to_ascii_lower (uuid_hex s) = uuid_hex s"
    using uuid_hex_props(2)[OF assms(1)] by (simp add: normalize_hex_def to_lowercase_def uuid_hex_def)
  ultimately show ?thesis by (simp add: normalize_hex_def to_lowercase_def take_map[symmetric])
qed

lemma selector_of_prefix:
  assumes "uuid_string s" "0 < n" "n \<le> 32"
  defines "p \<equiv> take (hex_len_to_string_index n) s"
  shows "parse_run_id_selector p = Inr (SelPrefix p)"
proof -
  have all: "\<forall>c \<in> set s. is_hexdigit c \<or> c = CHR ''-''"
    using uuid_hex_props(3)[OF assms(1)] by (auto simp: uuid_hex_def)
  then have "\<forall>c \<in> set p. is_hexdigit c \<or> c = CHR ''-''"
    unfolding p_def by (meson in_set_takeD)
  moreover have "p \<noteq> []"
    using take_hex[OF assms(1,3)] assms(2) uuid_hex_props(1)[OF assms(1)] by (auto simp: p_def uuid_hex_def hex_len_to_string_index_def Let_def)
  moreover have "p \<noteq> ''latest''"
    using calculation(1) by (auto simp: is_hexdigit_def)
  ultimately show ?thesis by (simp add: parse_run_id_selector_def)
qed


section \<open>The index of a list of runs\<close>

definition uuid_ids :: "(run_id \<Rightarrow> string) \<Rightarrow> run_id set \<Rightarrow> bool" where
  "uuid_ids to_str ids \<longleftrightarrow> (\<forall>i \<in> ids. uuid_string (to_str i)) \<and> inj_on to_str ids"

abbreviation "run_ids runs \<equiv> map rr_run_id (runs :: recorded_run_info list)"

lemma index_entries:
  "set (run_id_index_new to_str runs) =
    (\<lambda>i. \<lparr>ie_run_id = i, ie_hex = normalize_hex (to_str i)\<rparr>) ` set (run_ids runs)"
  by (auto simp: run_id_index_new_def)

lemma index_distinct:
  assumes "distinct (run_ids runs)"
  shows "distinct (map ie_run_id (run_id_index_new to_str runs))"
  using assms by (auto simp: run_id_index_new_def distinct_map inj_on_def)

lemma index_position_Some:
  "index_position P xs = Some i \<Longrightarrow> i < length xs \<and> P (xs ! i)"
  by (induction xs arbitrary: i) (auto split: if_splits)

lemma index_position_None: "index_position P xs = None \<longleftrightarrow> (\<forall>x \<in> set xs. \<not> P x)"
  by (induction xs) auto

lemma neighbours_decide:
  assumes "sorted (map ie_hex es)" "pos < length es" "n \<le> length (ie_hex (es ! pos))" "n > 0"
  shows "(\<exists>j < length es. j \<noteq> pos \<and> prefix (take n (ie_hex (es ! pos))) (ie_hex (es ! j))) \<longleftrightarrow>
    (pos > 0 \<and> n \<le> common_hex_prefix_len (ie_hex (es ! pos)) (ie_hex (es ! (pos - 1))) \<or>
     pos + 1 < length es \<and> n \<le> common_hex_prefix_len (ie_hex (es ! pos)) (ie_hex (es ! (pos + 1))))"
proof -
  let ?h = "\<lambda>j. ie_hex (es ! j)" and ?p = "take n (ie_hex (es ! pos))"
  have le: "?h i \<le> ?h j" if "i \<le> j" "j < length es" for i j
    using assms(1) that by (simp add: sorted_iff_nth_mono)
  have self: "prefix ?p (?h pos)" by (simp add: take_is_prefix)
  have down: "prefix ?p (?h (pos - 1))" if "j < pos" "prefix ?p (?h j)" for j
    using prefix_between[OF that(2) self, of "?h (pos - 1)"] le that(1) assms(2) by simp
  have up: "prefix ?p (?h (pos + 1))" if "pos < j" "j < length es" "prefix ?p (?h j)" for j
    using prefix_between[OF self that(3), of "?h (pos + 1)"] le that(1,2) by simp
  have nb: "(\<exists>j < length es. j \<noteq> pos \<and> prefix ?p (?h j)) \<longleftrightarrow>
    pos > 0 \<and> prefix ?p (?h (pos - 1)) \<or> pos + 1 < length es \<and> prefix ?p (?h (pos + 1))"
    (is "?L \<longleftrightarrow> ?R")
  proof
    assume ?L
    then obtain j where "j < length es" "j \<noteq> pos" "prefix ?p (?h j)" by blast
    then show ?R using down[of j] up[of j] by (cases "j < pos") auto
  next
    assume ?R
    then show ?L
    proof
      assume "pos > 0 \<and> prefix ?p (?h (pos - 1))"
      then show ?L using assms(2) by (intro exI[of _ "pos - 1"]) auto
    next
      assume "pos + 1 < length es \<and> prefix ?p (?h (pos + 1))"
      then show ?L by (intro exI[of _ "pos + 1"]) auto
    qed
  qed
  show ?thesis using nb assms(3) by (simp add: prefix_take_common)
qed

end
