(* ===== verification/Record_Examples.thy ===== *)
theory Record_Examples
  imports Run_Store Run_Index_Props
begin

text \<open>
  A small store of recorded runs, on which the properties of the store are evaluated.
\<close>

definition ex_id_str :: "run_id \<Rightarrow> string" where
  "ex_id_str i = (if i = 1 then ''a1b2c3d4-0000-4000-8000-00000000000a'' else ''a1b2c3d4-00ff-4000-8000-00000000000b'')"

definition ex_store_env :: store_env where
  "ex_store_env = \<lparr>se_now = 30, se_time_delta_max = 10 ^ 24, se_scale_count = \<lambda>n. n + n div 2, se_scale_size = \<lambda>n. n,
     se_to_str = ex_id_str, se_parse_id = \<lambda>_. None, se_hash_order = sorted_list_of_set,
     se_remove_dir = \<lambda>_. DirRemoved, se_listing = Listing [], se_write_ok = True, se_recorder_ok = True,
     se_version = STORE_FORMAT_VERSION\<rparr>"

definition ex_recorded :: "run_id \<Rightarrow> timestamp \<Rightarrow> u64 \<Rightarrow> recorded_run_info" where
  "ex_recorded i t z =
     \<lparr>rr_run_id = i, rr_store_format_version = STORE_FORMAT_VERSION, rr_nextest_version = ''0.9.150'',
      rr_started_at = t, rr_last_written_at = t, rr_duration_secs = None, rr_cli_args = [], rr_env_vars = [],
      rr_parent_run_id = None,
      rr_sizes = \<lparr>rz_log = \<lparr>cs_compressed = z, cs_uncompressed = z, cs_entries = 1\<rparr>,
        rz_store = \<lparr>cs_compressed = 0, cs_uncompressed = 0, cs_entries = 0\<rparr>\<rparr>,
      rr_status = RecCompleted \<lparr>cr_initial_run_count = 1, cr_passed = 1, cr_failed = 0, cr_exit_code = 0\<rparr>\<rparr>"

definition ex_recorded_runs :: "recorded_run_info list" where
  "ex_recorded_runs = [ex_recorded 1 10 500, ex_recorded 2 20 700]"

definition ex_store :: run_store where
  "ex_store = open_store (Some (from_data ex_recorded_runs None))"

definition ex_retention :: retention_policy where
  "ex_retention = \<lparr>rp_max_count = Some 2, rp_max_total_size = Some 1000, rp_max_age = None\<rparr>"

lemma uuid_string_range:
  "uuid_string s \<longleftrightarrow> length s = 36 \<and>
     (\<forall>i \<in> {0 ..< 36}. if i \<in> {8, 13, 18, 23} then s ! i = CHR ''-''
               else is_hexdigit (s ! i) \<and> to_ascii_lower (s ! i) = s ! i)"
  unfolding uuid_string_def Ball_def atLeastLessThan_iff by simp

lemma ex_uuid: "uuid_ids ex_id_str (set (run_ids ex_recorded_runs))"
proof -
  have "uuid_string (ex_id_str 1)" "uuid_string (ex_id_str 2)"
    unfolding uuid_string_range ex_id_str_def by code_simp+
  then show ?thesis by (simp add: uuid_ids_def ex_recorded_runs_def ex_recorded_def ex_id_str_def)
qed

lemma ex_distinct: "distinct (run_ids ex_recorded_runs)" "set (run_ids ex_recorded_runs) = {1, 2}"
  by (simp_all add: ex_recorded_runs_def ex_recorded_def)

lemma ex_store_fields:
  "rs_runs ex_store = ex_recorded_runs" "rs_write_permission ex_store = WriteAllowed" "open_store (rs_file ex_store) = ex_store"
  by (simp_all add: ex_store_def open_store_def)

lemma ex_hash_order: "finite A \<Longrightarrow> set (se_hash_order ex_store_env A) = A"
  by (simp add: ex_store_env_def)

end
