(* ===== verification/Record_Claims.thy ===== *)
theory Record_Claims
  imports Record_Examples
begin

text \<open>
  Properties of the recorded runs: finding a run by a prefix of its id.
\<close>

section \<open>Finding runs\<close>

definition matching_ids :: "(run_id \<Rightarrow> string) \<Rightarrow> recorded_run_info list \<Rightarrow> string \<Rightarrow> run_id set" where
  "matching_ids to_str runs p =
     {i \<in> set (run_ids runs). prefix (normalize_hex p) (normalize_hex (to_str i))}"

lemma found_ids:
  fixes to_str p
  assumes "distinct (run_ids runs)"
  defines "m \<equiv> map ie_run_id (filter (\<lambda>e. prefix (normalize_hex p) (ie_hex e)) (run_id_index_new to_str runs))"
  shows "distinct m" "set m = matching_ids to_str runs p"
proof -
  show "distinct m" unfolding m_def
    using index_distinct[OF assms(1), of to_str] by (rule distinct_map_filter)
  show "set m = matching_ids to_str runs p"
    unfolding m_def by (force simp: matching_ids_def index_entries[of to_str runs])
qed

text \<open>
  A prefix is resolved to exactly the run it stands for: it is rejected as invalid if it holds
  anything but hexadecimal digits and dashes; otherwise it is resolved if exactly one run id starts
  with it, whatever its case and its dashes, not found if none does, and ambiguous if several do,
  with their number and up to eight of them.
\<close>

theorem prefix_resolution_exact:
  assumes "distinct (run_ids runs)"
  shows "case resolve_prefix (run_id_index_new to_str runs) p of
      Inr i \<Rightarrow> matching_ids to_str runs p = {i}
    | Inl InvalidPrefix \<Rightarrow> \<not> (\<forall>c \<in> set (normalize_hex p). is_hexdigit c)
    | Inl PrefixNotFound \<Rightarrow> matching_ids to_str runs p = {}
    | Inl (PrefixAmbiguous n c) \<Rightarrow> n = card (matching_ids to_str runs p) \<and> 2 \<le> n \<and>
        set c \<subseteq> matching_ids to_str runs p \<and> distinct c \<and> length c = min 8 n"
proof -
  define m where "m = map ie_run_id (filter (\<lambda>e. prefix (normalize_hex p) (ie_hex e)) (run_id_index_new to_str runs))"
  have m: "distinct m" "set m = matching_ids to_str runs p"
    using found_ids[OF assms] by (simp_all add: m_def)
  have "case m of [] \<Rightarrow> matching_ids to_str runs p = {} | [i] \<Rightarrow> matching_ids to_str runs p = {i}
    | _ \<Rightarrow> length m = card (matching_ids to_str runs p) \<and> 2 \<le> length m \<and>
        set (take 8 m) \<subseteq> matching_ids to_str runs p \<and> distinct (take 8 m) \<and> length (take 8 m) = min 8 (length m)"
    using m distinct_card[OF m(1)] set_take_subset[of 8 m] distinct_take[OF m(1), of 8] by (auto split: list.split simp del: take_Suc_Cons take_Cons_numeral)
  then show ?thesis
    unfolding resolve_prefix_filter m_def[symmetric] by (auto split: list.split)
qed

lemma shortest_len:
  assumes "distinct (run_ids runs)" "uuid_ids to_str (set (run_ids runs))" "i \<in> set (run_ids runs)"
  shows "\<exists>n. shortest_unique_prefix_len (run_id_index_new to_str runs) i = Some n \<and> 0 < n \<and> n \<le> 32 \<and>
    matching_ids to_str runs (take n (uuid_hex (to_str i))) = {i} \<and>
    (\<forall>k. 0 < k \<longrightarrow> k < n \<longrightarrow> matching_ids to_str runs (take k (uuid_hex (to_str i))) \<noteq> {i})"
proof -
  let ?es = "run_id_index_new to_str runs" and ?h = "uuid_hex (to_str i)"
  have hex: "normalize_hex (to_str j) = uuid_hex (to_str j)" "length (uuid_hex (to_str j)) = 32"
    if "j \<in> set (run_ids runs)" for j
    using assms(2) that uuid_hex_props by (auto simp: uuid_ids_def)
  have norm: "normalize_hex (take k ?h) = take k ?h" for k
    using assms(2,3) normalize_take_hex by (auto simp: uuid_ids_def)
  obtain pos where pos: "index_position (\<lambda>e. ie_run_id e = i) ?es = Some pos"
    using index_position_None[of "\<lambda>e. ie_run_id e = i" ?es] assms(3) index_entries[of to_str runs]
    by (cases "index_position (\<lambda>e. ie_run_id e = i) ?es") auto
  then have at: "pos < length ?es" "ie_run_id (?es ! pos) = i"
    using index_position_Some[OF pos] by auto
  have entry: "ie_run_id (?es ! j) \<in> set (run_ids runs) \<and> ie_hex (?es ! j) = uuid_hex (to_str (ie_run_id (?es ! j)))"
    if "j < length ?es" for j
    using nth_mem[OF that] index_entries[of to_str runs] hex by auto
  have h: "ie_hex (?es ! pos) = ?h" using entry[OF at(1)] at(2) by simp
  let ?c = "\<lambda>j. common_hex_prefix_len ?h (ie_hex (?es ! j))"
  define n where "n = (let m = 1; m = (if pos > 0 then max m (?c (pos - 1) + 1) else m) in
    (if pos + 1 < length ?es then max m (?c (pos + 1) + 1) else m))"
  have len: "shortest_unique_prefix_len ?es i = Some n"
    using pos h by (simp add: shortest_unique_prefix_len_def n_def Let_def)
  have other: "matching_ids to_str runs (take k ?h) = {i} \<longleftrightarrow>
      \<not> (\<exists>j < length ?es. j \<noteq> pos \<and> prefix (take k ?h) (ie_hex (?es ! j)))" for k
  proof -
    have mem: "x \<in> matching_ids to_str runs (take k ?h) \<longleftrightarrow>
        (\<exists>j < length ?es. ie_run_id (?es ! j) = x \<and> prefix (take k ?h) (ie_hex (?es ! j)))" for x
    proof -
      have "x \<in> matching_ids to_str runs (take k ?h) \<longleftrightarrow>
          (\<exists>e \<in> set ?es. ie_run_id e = x \<and> prefix (take k ?h) (ie_hex e))"
        using index_entries[of to_str runs] norm by (auto simp: matching_ids_def)
      then show ?thesis by (metis in_set_conv_nth)
    qed
    have uniq: "j = pos" if "j < length ?es" "ie_run_id (?es ! j) = i" for j
      using nth_eq_iff_index_eq[OF index_distinct[OF assms(1), of to_str], of j pos] that at by simp
    have "i \<in> matching_ids to_str runs (take k ?h)"
      unfolding mem using at h by (intro exI[of _ pos]) (simp add: take_is_prefix)
    moreover have "(\<exists>x. x \<noteq> i \<and> x \<in> matching_ids to_str runs (take k ?h)) \<longleftrightarrow>
        (\<exists>j < length ?es. j \<noteq> pos \<and> prefix (take k ?h) (ie_hex (?es ! j)))"
      unfolding mem using uniq at(2) by blast
    ultimately show ?thesis by blast
  qed
  have small: "?c j < 32" if "j < length ?es" "j \<noteq> pos" for j
  proof (rule ccontr)
    assume "\<not> ?c j < 32"
    then have "prefix ?h (ie_hex (?es ! j))"
      using prefix_take_common[of 32 ?h "ie_hex (?es ! j)"] hex(2)[OF assms(3)] by simp
    then have "uuid_hex (to_str (ie_run_id (?es ! j))) = ?h"
      using entry[OF that(1)] hex(2) assms(3) by (metis append_eq_conv_conj prefix_def take_all_iff order_refl)
    then have "ie_run_id (?es ! j) = i"
      using uuid_hex_inject assms(2,3) entry[OF that(1)] unfolding uuid_ids_def inj_on_def by blast
    then show False
      using nth_eq_iff_index_eq[OF index_distinct[OF assms(1), of to_str], of j pos] that at by simp
  qed
  have unique: "matching_ids to_str runs (take k ?h) = {i} \<longleftrightarrow> n \<le> k" if "0 < k" "k \<le> 32" for k
    unfolding other
    using neighbours_decide[OF sorted_index at(1), of k] that hex(2)[OF assms(3)] h
    by (auto simp: n_def Let_def not_le)
  have "0 < n" "n \<le> 32"
    using small[of "pos - 1"] small[of "pos + 1"] at(1)
    by (simp_all add: n_def Let_def Suc_le_eq less_imp_diff_less)
  then show ?thesis using len unique by (intro exI[of _ n]) auto
qed

theorem prefix_resolution_exact_witness:
  "resolve_prefix (run_id_index_new ex_id_str ex_recorded_runs) ''A1b2-c3d400F'' = Inr 2 \<and>
    matching_ids ex_id_str ex_recorded_runs ''A1b2-c3d400F'' = {2}"
proof -
  have "resolve_prefix (run_id_index_new ex_id_str ex_recorded_runs) ''A1b2-c3d400F'' = Inr 2"
    by code_simp
  then show ?thesis using prefix_resolution_exact[OF ex_distinct(1), of ex_id_str "''A1b2-c3d400F''"] by simp
qed

text \<open>
  C18. The prefix that is shown for a run is the shortest one that identifies it: together with the rest
  it is the id, resolving it, as a selector, gives the run, and no shorter prefix of the id stands
  for this run alone. It is at most the whole id, however alike the ids are.
\<close>

theorem shortest_prefix_resolves:
  assumes "distinct (run_ids runs)" "uuid_ids to_str (set (run_ids runs))" "i \<in> set (run_ids runs)"
  defines "entries \<equiv> run_id_index_new to_str runs"
  shows "\<exists>p n. shortest_unique_prefix to_str entries i = Some p \<and> prefix_full p = to_str i \<and>
    n = length (uuid_hex (sp_prefix p)) \<and>
    parse_run_id_selector (sp_prefix p) = Inr (SelPrefix (sp_prefix p)) \<and>
    resolve_prefix entries (sp_prefix p) = Inr i \<and>
    (\<forall>k. 0 < k \<longrightarrow> k < n \<longrightarrow>
      (\<exists>m c. resolve_prefix entries (take k (uuid_hex (to_str i))) = Inl (PrefixAmbiguous m c)))"
proof -
  let ?s = "to_str i" and ?h = "uuid_hex (to_str i)"
  obtain n where n: "shortest_unique_prefix_len entries i = Some n" "0 < n" "n \<le> 32"
    and single: "matching_ids to_str runs (take n ?h) = {i}"
    and shorter: "\<forall>k. 0 < k \<longrightarrow> k < n \<longrightarrow> matching_ids to_str runs (take k ?h) \<noteq> {i}"
    using shortest_len[OF assms(1-3)] unfolding entries_def by blast
  define p where "p = shortest_run_id_prefix_new to_str i n"
  have u: "uuid_string ?s" using assms(2,3) by (auto simp: uuid_ids_def)
  have pre: "sp_prefix p = take (hex_len_to_string_index n) ?s"
    by (simp add: p_def shortest_run_id_prefix_new_def Let_def min_def)
  have norm: "normalize_hex (sp_prefix p) = take n ?h" "uuid_hex (sp_prefix p) = take n ?h"
    using prefix_hex[OF u n(3)] take_hex[OF u n(3)] pre by simp_all
  have i: "i \<in> matching_ids to_str runs (take k ?h)" for k
    using assms(3) normalize_take_hex[OF u] uuid_hex_props(2)[OF u] by (simp add: matching_ids_def take_is_prefix)
  have digits: "\<forall>c \<in> set (take k ?h). is_hexdigit c" for k
    using uuid_hex_props(3)[OF u] by (meson in_set_takeD)
  have same: "matching_ids to_str runs (sp_prefix p) = {i}"
    using single norm(1) normalize_take_hex[OF u] by (simp add: matching_ids_def)
  have "resolve_prefix entries (sp_prefix p) = Inr i"
    using prefix_resolution_exact[OF assms(1), of to_str "sp_prefix p"] same norm(1) digits
    unfolding entries_def by (auto split: sum.splits prefix_resolution_error.splits)
  moreover have "\<exists>m c. resolve_prefix entries (take k ?h) = Inl (PrefixAmbiguous m c)" if "0 < k" "k < n" for k
    using prefix_resolution_exact[OF assms(1), of to_str "take k ?h"] shorter that i[of k] digits
      normalize_take_hex[OF u, of k]
    unfolding entries_def by (auto split: sum.splits prefix_resolution_error.splits)
  moreover have "parse_run_id_selector (sp_prefix p) = Inr (SelPrefix (sp_prefix p))"
    using selector_of_prefix[OF u n(2,3)] by (simp add: pre)
  moreover have "length (uuid_hex (sp_prefix p)) = n" using norm(2) n(3) uuid_hex_props(1)[OF u] by simp
  moreover have "prefix_full p = ?s"
    by (simp add: p_def prefix_full_def shortest_run_id_prefix_new_def Let_def)
  ultimately show ?thesis using n(1) by (intro exI[of _ p]) (simp add: shortest_unique_prefix_def p_def)
qed

theorem shortest_prefix_resolves_witness:
  "\<exists>p. shortest_unique_prefix ex_id_str (run_id_index_new ex_id_str ex_recorded_runs) 2 = Some p \<and>
    prefix_full p = ''a1b2c3d4-00ff-4000-8000-00000000000b'' \<and>
    resolve_prefix (run_id_index_new ex_id_str ex_recorded_runs) (sp_prefix p) = Inr 2"
  using shortest_prefix_resolves[OF ex_distinct(1) ex_uuid, of 2] ex_distinct(2)
  by (auto simp: ex_id_str_def)

end
