(* ===== verification/Store_Claims.thy ===== *)
theory Store_Claims
  imports Record_Examples "HOL-Library.Multiset"
begin

text \<open>
  Properties of the run store: what pruning keeps and deletes, that the store in memory and the
  file agree, and what a rerun does to its parent.
\<close>

section \<open>What a pass deletes\<close>

abbreviation "kept del rs \<equiv> filter (\<lambda>r. rr_run_id r \<notin> set del) (rs :: recorded_run_info list)"

lemma delete_pass_ids: "set (delete_pass env p n z rs) \<subseteq> set (run_ids rs)"
  by (induction env p n z rs rule: delete_pass.induct) auto

lemma kept_fresh: "i \<notin> set (run_ids xs) \<Longrightarrow> kept (i # d) xs = kept d xs"
  by (induction xs) auto

lemma delete_pass_split:
  assumes "distinct (run_ids (xs @ r # ys))" "del = delete_pass env p n z (xs @ r # ys)"
  shows "rr_run_id r \<in> set del \<longleftrightarrow>
    exceeds_limit env p (n + length (kept del xs)) (z + total_size (kept del xs)) r"
  using assms
proof (induction xs arbitrary: n z del)
  case Nil
  then show ?case using delete_pass_ids[of env p _ _ ys] by (auto simp: total_size_def)
next
  case (Cons x xs)
  have ne: "rr_run_id r \<noteq> rr_run_id x" and fresh: "rr_run_id x \<notin> set (run_ids (xs @ r # ys))" using Cons.prems(1) by auto
  show ?case
  proof (cases "exceeds_limit env p n z x")
    case True
    let ?d = "delete_pass env p n z (xs @ r # ys)"
    have k: "kept (rr_run_id x # ?d) xs = kept ?d xs"
      using fresh by (intro kept_fresh) auto
    show ?thesis using Cons.IH[of ?d n z] Cons.prems True ne k by simp
  next
    case False
    let ?d = "delete_pass env p (n + 1) (z + run_size x) (xs @ r # ys)"
    have "rr_run_id x \<notin> set ?d" using fresh delete_pass_ids by blast
    then show ?thesis using Cons.IH[of ?d "n + 1" "z + run_size x"] Cons.prems False
      by (simp add: total_size_def add.assoc)
  qed
qed

lemma delete_pass_kept:
  assumes "distinct (run_ids rs)" "del = delete_pass env p n z rs"
  shows "delete_pass env p n z (kept del rs) = []"
  using assms
proof (induction rs arbitrary: n z del)
  case (Cons x xs)
  have fresh: "rr_run_id x \<notin> set (run_ids xs)" using Cons.prems(1) by auto
  show ?case
  proof (cases "exceeds_limit env p n z x")
    case True
    let ?d = "delete_pass env p n z xs"
    have k: "kept (rr_run_id x # ?d) xs = kept ?d xs"
      using fresh by (rule kept_fresh)
    show ?thesis using Cons.IH[of ?d n z] Cons.prems True k by simp
  next
    case False
    let ?d = "delete_pass env p (n + 1) (z + run_size x) xs"
    have "rr_run_id x \<notin> set ?d" using fresh delete_pass_ids by blast
    then show ?thesis using Cons.IH[of ?d "n + 1" "z + run_size x"] Cons.prems False by simp
  qed
qed simp

abbreviation by_last_use :: "recorded_run_info list \<Rightarrow> recorded_run_info list" where
  "by_last_use runs \<equiv> sort_key (\<lambda>r. - rr_last_written_at r) runs"

definition size_sum :: "recorded_run_info list \<Rightarrow> nat" where
  "size_sum rs = sum_list (map (\<lambda>r. unat (run_size r)) rs)"

lemma unat_total_size: "size_sum rs < 2 ^ 64 \<Longrightarrow> unat (total_size rs) = size_sum rs"
proof (induction rs)
  case (Cons r rs)
  then have "unat (total_size rs) = size_sum rs" "unat (run_size r) + size_sum rs < 2 ^ 64"
    by (auto simp: size_sum_def)
  then show ?case by (simp add: total_size_def size_sum_def unat_word_ariths)
qed (simp add: total_size_def size_sum_def)

lemma size_sum_filter: "size_sum (filter P rs) \<le> size_sum rs"
  by (induction rs) (auto simp: size_sum_def)

lemma distinct_run_ids_sort: "distinct (run_ids (sort_key f runs)) = distinct (run_ids runs)"
  by (simp add: distinct_map)

text \<open>What it means for a run to go beyond a limit, in unbounded arithmetic.\<close>

definition beyond_limits ::
  "store_env \<Rightarrow> retention_policy \<Rightarrow> recorded_run_info list \<Rightarrow> recorded_run_info \<Rightarrow> bool" where
  "beyond_limits env p newer r \<longleftrightarrow>
     (\<exists>m. rp_max_count p = Some m \<and> m \<le> length newer) \<or>
     (\<exists>m. rp_max_total_size p = Some m \<and> unat m < size_sum newer + unat (run_size r)) \<or>
     (\<exists>m. rp_max_age p = Some m \<and>
        min (int m) (se_time_delta_max env) < max 0 (se_now env - rr_last_written_at r))"

lemma exceeds_beyond:
  assumes "size_sum newer + unat (run_size r) < 2 ^ 64"
  shows "exceeds_limit env p (length newer) (total_size newer) r \<longleftrightarrow> beyond_limits env p newer r"
proof -
  have "unat (total_size newer + run_size r) = size_sum newer + unat (run_size r)"
    using assms unat_total_size[of newer] by (simp add: unat_word_ariths)
  then show ?thesis
    by (simp add: exceeds_limit_def beyond_limits_def word_less_nat_alt split: option.split)
qed

section \<open>What pruning keeps\<close>

text \<open>The runs that pruning keeps, from the most recently used one.\<close>

definition kept_runs :: "store_env \<Rightarrow> retention_policy \<Rightarrow> recorded_run_info list \<Rightarrow> recorded_run_info list" where
  "kept_runs env p runs = kept (compute_runs_to_delete env p runs) (by_last_use runs)"

lemma size_sum_sort: "size_sum (sort_key f runs) = size_sum runs"
proof -
  have "mset (map (\<lambda>r. unat (run_size r)) (sort_key f runs)) = mset (map (\<lambda>r. unat (run_size r)) runs)"
    by simp
  then show ?thesis unfolding size_sum_def by (metis sum_mset_sum_list)
qed

lemma kept_iff:
  assumes "distinct (run_ids runs)" "size_sum runs < 2 ^ 64" "by_last_use runs = xs @ r # ys"
  shows "rr_run_id r \<in> set (compute_runs_to_delete env p runs) \<longleftrightarrow>
    beyond_limits env p (kept (compute_runs_to_delete env p runs) xs) r"
proof -
  let ?d = "compute_runs_to_delete env p runs"
  have "size_sum (xs @ r # ys) = size_sum runs"
    unfolding assms(3)[symmetric] by (rule size_sum_sort)
  then have "size_sum (kept ?d xs) + unat (run_size r) < 2 ^ 64"
    using assms(2) size_sum_filter[of "\<lambda>r. rr_run_id r \<notin> set ?d" xs] by (simp add: size_sum_def)
  moreover have "rr_run_id r \<in> set ?d \<longleftrightarrow>
      exceeds_limit env p (0 + length (kept ?d xs)) (0 + total_size (kept ?d xs)) r"
    using assms(1,3) by (intro delete_pass_split[of xs r ys])
      (simp_all add: compute_runs_to_delete_def distinct_run_ids_sort flip: assms(3))
  ultimately show ?thesis using exceeds_beyond by simp
qed

text \<open>
  C16. Pruning keeps a run exactly if it fits into the limits together with the kept runs that were used
  more recently; so what is kept respects the limits on the number of runs, on their total size and
  on their age.
\<close>

theorem pruning_respects_limits:
  assumes "distinct (run_ids runs)" "size_sum runs < 2 ^ 64"
  shows "(\<forall>xs r ys. by_last_use runs = xs @ r # ys \<longrightarrow>
      (rr_run_id r \<in> set (compute_runs_to_delete env p runs) \<longleftrightarrow>
        beyond_limits env p (kept (compute_runs_to_delete env p runs) xs) r)) \<and>
    (\<forall>m. rp_max_count p = Some m \<longrightarrow> length (kept_runs env p runs) \<le> m) \<and>
    (\<forall>m. rp_max_total_size p = Some m \<longrightarrow> size_sum (kept_runs env p runs) \<le> unat m) \<and>
    (\<forall>m. rp_max_age p = Some m \<longrightarrow> (\<forall>r \<in> set (kept_runs env p runs). se_now env - rr_last_written_at r \<le> int m))"
proof -
  let ?d = "compute_runs_to_delete env p runs"
  have iff: "rr_run_id r \<in> set ?d \<longleftrightarrow> beyond_limits env p (kept ?d xs) r" if "by_last_use runs = xs @ r # ys" for xs r ys
    using kept_iff[OF assms that] .
  have within: "(\<forall>m. rp_max_count p = Some m \<longrightarrow> length (kept ?d xs) \<le> m) \<and>
      (\<forall>m. rp_max_total_size p = Some m \<longrightarrow> size_sum (kept ?d xs) \<le> unat m)"
    if "by_last_use runs = xs @ ys" for xs ys
    using that
  proof (induction xs arbitrary: ys rule: rev_induct)
    case (snoc r xs)
    then show ?case using iff[of xs r ys] snoc.IH[of "r # ys"]
      by (auto simp: beyond_limits_def size_sum_def not_less)
  qed (simp add: size_sum_def)
  have age: "se_now env - rr_last_written_at r \<le> int m"
    if r: "r \<in> set (kept_runs env p runs)" and m: "rp_max_age p = Some m" for r m
  proof -
    from r have "r \<in> set (by_last_use runs)" "rr_run_id r \<notin> set ?d"
      by (simp_all add: kept_runs_def)
    moreover from split_list[OF this(1)] obtain xs ys where "by_last_use runs = xs @ r # ys" by blast
    ultimately have "\<not> beyond_limits env p (kept ?d xs) r" using iff by blast
    then show ?thesis using m by (auto simp: beyond_limits_def not_less)
  qed
  have "length (kept_runs env p runs) \<le> m" if "rp_max_count p = Some m" for m
    using within[of "by_last_use runs" "[]"] that unfolding kept_runs_def by simp
  moreover have "size_sum (kept_runs env p runs) \<le> unat m" if "rp_max_total_size p = Some m" for m
    using within[of "by_last_use runs" "[]"] that unfolding kept_runs_def by simp
  ultimately show ?thesis using iff age by blast
qed


theorem pruning_respects_limits_witness:
  "compute_runs_to_delete ex_store_env ex_retention ex_recorded_runs = [1] \<and>
    size_sum (kept_runs ex_store_env ex_retention ex_recorded_runs) \<le> 1000"
proof -
  have "compute_runs_to_delete ex_store_env ex_retention ex_recorded_runs = [1]"
    by (simp add: compute_runs_to_delete_def exceeds_limit_def ex_store_env_def ex_retention_def
        ex_recorded_runs_def ex_recorded_def total_compressed_def insort_key.simps)
  moreover have "size_sum ex_recorded_runs < 2 ^ 64"
    by (simp add: size_sum_def ex_recorded_runs_def ex_recorded_def total_compressed_def)
  ultimately show ?thesis
    using pruning_respects_limits[OF ex_distinct(1), of ex_store_env ex_retention] by (simp add: ex_retention_def)
qed


section \<open>Pruning the store\<close>

lemma kept_runs_sort: "kept_runs env p runs = by_last_use (kept (compute_runs_to_delete env p runs) runs)"
  by (simp add: kept_runs_def filter_sort)

lemma prune_fields:
  fixes env p
  assumes "rs_write_permission s = WriteAllowed"
  defines "to_delete \<equiv> compute_runs_to_delete env p (rs_runs s)"
  shows "rs_runs (fst (prune env p kind s)) = kept to_delete (rs_runs s)"
    "rs_write_permission (fst (prune env p kind s)) = WriteAllowed"
proof -
  have "(if set to_delete = {} then (rs_runs s, empty_prune_result) else delete_runs env (rs_runs s) (set to_delete)) =
      (kept to_delete (rs_runs s), if set to_delete = {} then empty_prune_result else snd (delete_runs env (rs_runs s) (set to_delete)))"
    by (simp add: delete_runs_def Let_def)
  then show "rs_runs (fst (prune env p kind s)) = kept to_delete (rs_runs s)"
    "rs_write_permission (fst (prune env p kind s)) = WriteAllowed"
    using assms(1) by (auto simp: prune_def write_runs_json_def to_delete_def Let_def split: sum.split prod.split)
qed

text \<open>
  The plan that is shown is what pruning does: with the same clock and policy, pruning removes
  exactly the runs of the plan and keeps the others in their order, and pruning again would delete
  nothing.
\<close>

theorem prune_follows_plan:
  fixes env p to_str kind
  assumes "distinct (run_ids (rs_runs s))" "rs_write_permission s = WriteAllowed"
  defines "plan \<equiv> compute_prune_plan env (into_snapshot to_str s) p" and "s' \<equiv> fst (prune env p kind s)"
  shows "rs_runs s' = filter (\<lambda>r. r \<notin> set plan) (rs_runs s) \<and>
    set (rs_runs s') \<union> set plan = set (rs_runs s) \<and>
    compute_prune_plan env (into_snapshot to_str s') p = []"
proof -
  let ?d = "compute_runs_to_delete env p (rs_runs s)"
  have plan: "set plan = {r \<in> set (rs_runs s). rr_run_id r \<in> set ?d}"
    by (auto simp: plan_def compute_prune_plan_def prune_plan_compute_def prune_plan_new_def into_snapshot_def Let_def)
  have runs: "rs_runs s' = kept ?d (rs_runs s)"
    using prune_fields(1)[OF assms(2)] by (simp add: s'_def)
  have "compute_runs_to_delete env p (kept ?d (rs_runs s)) = []"
    using delete_pass_kept[of "by_last_use (rs_runs s)" ?d env p 0 0] assms(1)
    by (simp add: compute_runs_to_delete_def distinct_run_ids_sort filter_sort)
  then have "compute_prune_plan env (into_snapshot to_str s') p = []"
    by (simp add: compute_prune_plan_def prune_plan_compute_def prune_plan_new_def into_snapshot_def runs Let_def)
  moreover have "rs_runs s' = filter (\<lambda>r. r \<notin> set plan) (rs_runs s)"
    unfolding runs plan by (rule filter_cong) auto
  moreover have "set (rs_runs s') \<union> set plan = set (rs_runs s)" unfolding runs plan by auto
  ultimately show ?thesis by blast
qed


theorem prune_follows_plan_witness:
  "set (rs_runs (fst (prune ex_store_env ex_retention ExplicitPrune ex_store))) \<union>
    set (compute_prune_plan ex_store_env (into_snapshot ex_id_str ex_store) ex_retention) = set ex_recorded_runs"
  using prune_follows_plan[where s = ex_store and env = ex_store_env and p = ex_retention and kind = ExplicitPrune
      and to_str = ex_id_str, unfolded ex_store_fields(1,2), OF ex_distinct(1) refl] by blast


section \<open>Memory and file\<close>

lemma open_store_from_data:
  "open_store (Some (from_data runs pruned)) =
    \<lparr>rs_runs = runs, rs_last_pruned_at = pruned, rs_write_permission = WriteAllowed,
     rs_file = Some (from_data runs pruned)\<rparr>"
  by (simp add: open_store_def)

lemma write_synced:
  assumes "write_runs_json env s = (s', Inr ())" "rs_write_permission s = WriteAllowed"
  shows "open_store (rs_file s') = s'"
  using assms by (auto simp: write_runs_json_def open_store_from_data split: if_splits)

lemma mark_not_found: "mark_run_completed now i z st secs rs = (rs', False) \<Longrightarrow> rs' = rs"
  by (induction rs arbitrary: rs') (auto split: if_splits prod.splits)

lemma delete_dirs_count:
  "pr_deleted_count (fold (delete_run_dir env runs) ids res) + length (pr_errors (fold (delete_run_dir env runs) ids res)) =
    pr_deleted_count res + length (pr_errors res) + length ids"
  by (induction ids arbitrary: res) (auto simp: delete_run_dir_def Let_def split: remove_result.split)

lemma delete_orphan_counts:
  "pr_deleted_count (delete_orphan env known e res) = pr_deleted_count res \<and>
   length (pr_errors res) \<le> length (pr_errors (delete_orphan env known e res)) \<and>
   pr_orphans_deleted res \<le> pr_orphans_deleted (delete_orphan env known e res)"
  by (auto simp: delete_orphan_def split: dir_entry.split option.split remove_result.split)

lemma delete_orphans_counts:
  "pr_deleted_count (delete_orphaned_dirs env known res) = pr_deleted_count res \<and>
   length (pr_errors res) \<le> length (pr_errors (delete_orphaned_dirs env known res))"
proof -
  have "pr_deleted_count (fold (delete_orphan env known) es res) = pr_deleted_count res \<and>
      length (pr_errors res) \<le> length (pr_errors (fold (delete_orphan env known) es res))" for es
    by (induction es arbitrary: res) (use delete_orphan_counts in \<open>simp_all, metis le_trans\<close>)
  then show ?thesis by (simp add: delete_orphaned_dirs_def split: dir_listing.split)
qed

lemma prune_synced:
  assumes "open_store (rs_file s) = s" "\<And>A. finite A \<Longrightarrow> set (se_hash_order env A) = A"
    "prune env p kind s = (s', Inr res)"
  shows "open_store (rs_file s') = s' \<or>
    rs_file s' = rs_file s \<and> pr_deleted_count res = 0 \<and> pr_orphans_deleted res = 0 \<and> pr_errors res \<noteq> []"
proof -
  let ?D = "set (compute_runs_to_delete env p (rs_runs s))"
  have perm: "rs_write_permission s = WriteAllowed"
    using assms(3) by (auto simp: prune_def split: runs_json_write_permission.splits)
  obtain runs r0 where del: "(if ?D = {} then (rs_runs s, empty_prune_result) else delete_runs env (rs_runs s) ?D) = (runs, r0)"
    by (metis surj_pair)
  let ?res = "delete_orphaned_dirs env (rr_run_id ` set runs) (r0\<lparr>pr_kind := kind\<rparr>)"
  show ?thesis
  proof (cases "pr_deleted_count ?res > 0 \<or> pr_orphans_deleted ?res > 0")
    case True
    then have "write_runs_json env (s\<lparr>rs_runs := runs, rs_last_pruned_at := Some (se_now env)\<rparr>) = (s', Inr ())"
      using assms(3) perm del by (auto simp: prune_def Let_def split: prod.splits sum.splits)
    from write_synced[OF this] show ?thesis using perm by simp
  next
    case False
    then have s': "s' = s\<lparr>rs_runs := runs\<rparr>" "res = ?res" using assms(3) perm del by (auto simp: prune_def Let_def)
    show ?thesis
    proof (cases "?D = {}")
      case True
      then show ?thesis using del s' assms(1) by simp
    next
      case D: False
      then have "length (se_hash_order env ?D) > 0" using assms(2)[of ?D] by fastforce
      moreover have "r0 = fold (delete_run_dir env (rs_runs s)) (se_hash_order env ?D) empty_prune_result"
        using del D by (simp add: delete_runs_def Let_def)
      moreover have "pr_deleted_count r0 = 0" "length (pr_errors r0) \<le> length (pr_errors res)"
        using False delete_orphans_counts[of env _ "r0\<lparr>pr_kind := kind\<rparr>"] s'(2) by auto
      ultimately have "pr_errors res \<noteq> []"
        using delete_dirs_count[of env "rs_runs s" "se_hash_order env ?D" empty_prune_result] by auto
      then show ?thesis using s' False by simp
    qed
  qed
qed

text \<open>
  C38. If the file was written by a newer version of nextest, every
  operation that would write it fails and changes nothing. Otherwise the file is what the store
  holds in memory after every operation that succeeds, so that the next process that opens the file
  goes on from there, with one exception: a pruning that could not remove a single directory
  succeeds with errors, drops the runs that the policy gives up from memory and leaves the file as it
  was, so that it still lists them.
\<close>

theorem store_file_in_sync:
  assumes "open_store (rs_file s) = s" "\<And>A. finite A \<Longrightarrow> set (se_hash_order env A) = A"
  shows "(rs_write_permission s = WriteDenied v w \<longrightarrow>
      complete_run env i z st secs s = (s, Inl (FormatVersionTooNew v w)) \<and>
      prune env p kind s = (s, Inl (FormatVersionTooNew v w)) \<and>
      create_run_recorder env i ver t args vars parent s = Ret (s, Inl (FormatVersionTooNew v w))) \<and>
    (complete_run env i z st secs s = (s', Inr b) \<longrightarrow> open_store (rs_file s') = s') \<and>
    (create_run_recorder env i ver t args vars parent s = Ret (s', Inr pre) \<longrightarrow> open_store (rs_file s') = s') \<and>
    (prune env p kind s = (s', Inr res) \<longrightarrow> open_store (rs_file s') = s' \<or>
      rs_file s' = rs_file s \<and> rs_runs s' = kept (compute_runs_to_delete env p (rs_runs s)) (rs_runs s) \<and>
      pr_deleted_count res = 0 \<and> pr_orphans_deleted res = 0 \<and> pr_errors res \<noteq> [])"
proof -
  have "open_store (rs_file s') = s'" if ok: "complete_run env i z st secs s = (s', Inr b)"
  proof -
    have perm: "rs_write_permission s = WriteAllowed"
      using ok by (auto simp: complete_run_def split: runs_json_write_permission.splits)
    obtain runs found where m: "mark_run_completed (se_now env) i z st secs (rs_runs s) = (runs, found)"
      by (metis surj_pair)
    show ?thesis
    proof (cases found)
      case True
      then have "write_runs_json env (s\<lparr>rs_runs := runs\<rparr>) = (s', Inr ())"
        using ok perm m by (auto simp: complete_run_def split: prod.splits sum.splits)
      from write_synced[OF this] show ?thesis using perm by simp
    next
      case False
      then show ?thesis using ok perm m mark_not_found[of "se_now env" i z st secs "rs_runs s" runs] assms(1)
        by (auto simp: complete_run_def)
    qed
  qed
  moreover have "open_store (rs_file s') = s'"
    if ok: "create_run_recorder env i ver t args vars parent s = Ret (s', Inr pre)"
  proof -
    have perm: "rs_write_permission s = WriteAllowed"
      using ok by (auto simp: create_run_recorder_def split: runs_json_write_permission.splits)
    then obtain runs where "write_runs_json env (s\<lparr>rs_runs := runs\<rparr>) = (s', Inr ())"
      using ok by (auto simp: create_run_recorder_def Let_def split: prod.splits sum.splits option.splits if_splits)
    from write_synced[OF this] show ?thesis using perm by simp
  qed
  moreover have "open_store (rs_file s') = s' \<or>
      rs_file s' = rs_file s \<and> rs_runs s' = kept (compute_runs_to_delete env p (rs_runs s)) (rs_runs s) \<and>
      pr_deleted_count res = 0 \<and> pr_orphans_deleted res = 0 \<and> pr_errors res \<noteq> []"
    if ok: "prune env p kind s = (s', Inr res)"
  proof -
    have "rs_write_permission s = WriteAllowed"
      using ok by (auto simp: prune_def split: runs_json_write_permission.splits)
    from prune_fields(1)[OF this, of env p kind] prune_synced[OF assms ok] ok show ?thesis by auto
  qed
  ultimately show ?thesis by (auto simp: complete_run_def prune_def create_run_recorder_def)
qed


theorem store_file_in_sync_witness:
  "\<exists>s'. complete_run ex_store_env 2 no_sizes RecUnknown None ex_store = (s', Inr True) \<and>
    open_store (rs_file s') = s'"
proof -
  obtain s' where "complete_run ex_store_env 2 no_sizes RecUnknown None ex_store = (s', Inr True)"
    by (simp add: complete_run_def ex_store_fields ex_recorded_runs_def ex_recorded_def write_runs_json_def ex_store_env_def)
  then show ?thesis
    using store_file_in_sync[OF ex_store_fields(3) ex_hash_order, where s' = s' and b = True] by blast
qed


text \<open>
  The exception occurs: if the directory of run 1 cannot be removed, the pruning succeeds and the run
  is gone from memory, but not from the file.
\<close>

theorem failed_pruning_keeps_file:
  "\<exists>s' res. prune (ex_store_env\<lparr>se_remove_dir := \<lambda>_. DirRemoveFailed\<rparr>) ex_retention ExplicitPrune ex_store = (s', Inr res) \<and>
     run_ids (rs_runs s') = [2] \<and> rs_file s' = rs_file ex_store \<and> run_ids (rs_runs (open_store (rs_file s'))) = [1, 2]"
proof -
  let ?env = "ex_store_env\<lparr>se_remove_dir := \<lambda>_. DirRemoveFailed\<rparr>"
  have "compute_runs_to_delete ?env ex_retention ex_recorded_runs = [1]"
    by (simp add: compute_runs_to_delete_def exceeds_limit_def ex_store_env_def ex_retention_def
        ex_recorded_runs_def ex_recorded_def total_compressed_def insort_key.simps)
  then obtain s' res where "prune ?env ex_retention ExplicitPrune ex_store = (s', Inr res)"
      "rs_runs s' = [ex_recorded 2 20 700]" "rs_file s' = rs_file ex_store"
    by (simp add: prune_def ex_store_fields delete_runs_def delete_run_dir_def delete_orphaned_dirs_def
        empty_prune_result_def ex_store_env_def ex_recorded_runs_def ex_recorded_def Let_def)
  then show ?thesis using ex_store_fields by (intro exI[of _ s'] exI[of _ res]) (simp add: ex_recorded_def ex_recorded_runs_def)
qed


section \<open>Reruns\<close>

lemma touch_first_split:
  "q \<in> set (run_ids rs) \<Longrightarrow> \<exists>xs r ys. rs = xs @ r # ys \<and> rr_run_id r = q \<and> q \<notin> set (run_ids xs) \<and>
    touch_first now q rs = xs @ r\<lparr>rr_last_written_at := now\<rparr> # ys"
proof (induction rs)
  case (Cons r rs)
  show ?case
  proof (cases "rr_run_id r = q")
    case True
    then show ?thesis by (intro exI[of _ "[]"] exI[of _ r] exI[of _ rs]) simp
  next
    case False
    then obtain xs r' ys where "rs = xs @ r' # ys" "rr_run_id r' = q" "q \<notin> set (run_ids xs)"
      "touch_first now q rs = xs @ r'\<lparr>rr_last_written_at := now\<rparr> # ys"
      using Cons by auto
    then show ?thesis using False by (intro exI[of _ "r # xs"] exI[of _ r'] exI[of _ ys]) simp
  qed
qed simp

lemma distinct_all_eq: "distinct xs \<Longrightarrow> \<forall>x \<in> set xs. x = y \<Longrightarrow> xs = [] \<or> xs = [y]"
  by (cases xs rule: remdups_adj.cases) auto

lemma not_deleted_first:
  assumes "distinct (run_ids runs)" "r \<in> set runs"
    "\<forall>x \<in> set runs. x \<noteq> r \<longrightarrow> rr_last_written_at r \<le> rr_last_written_at x \<longrightarrow> x = y"
    "\<not> exceeds_limit env p 0 0 r" "\<not> exceeds_limit env p 1 (run_size y) r"
  shows "rr_run_id r \<notin> set (compute_runs_to_delete env p runs)"
proof -
  let ?d = "compute_runs_to_delete env p runs"
  from assms(2) obtain xs zs where split: "by_last_use runs = xs @ r # zs"
    using split_list[of r "by_last_use runs"] by auto
  have d: "distinct (run_ids (xs @ r # zs))"
    using assms(1) unfolding split[symmetric] by (simp add: distinct_run_ids_sort)
  have "x = y" if "x \<in> set xs" for x
  proof -
    have "sorted (map (\<lambda>r. - rr_last_written_at r) (by_last_use runs))" by simp
    then have "rr_last_written_at r \<le> rr_last_written_at x"
      using that unfolding split by (auto simp: sorted_append)
    moreover have "x \<noteq> r" using d that by auto
    moreover have "x \<in> set runs" using that split by (metis Un_iff set_append set_sort)
    ultimately show ?thesis using assms(3) by blast
  qed
  moreover have "distinct xs" using d by (auto simp: distinct_map)
  ultimately have "xs = [] \<or> xs = [y]" by (intro distinct_all_eq) auto
  then have "kept ?d xs = [] \<or> kept ?d xs = [y]" by (auto split: if_splits)
  moreover have "rr_run_id r \<in> set ?d \<longleftrightarrow>
      exceeds_limit env p (0 + length (kept ?d xs)) (0 + total_size (kept ?d xs)) r"
    using d by (intro delete_pass_split[of xs r zs]) (simp_all add: compute_runs_to_delete_def flip: split)
  ultimately show ?thesis using assms(4,5) by (auto simp: total_size_def)
qed

text \<open>
  A rerun protects its parent: once a rerun is recorded, neither it nor the run that it reruns is
  deleted by pruning, as long as the policy allows two runs and the size of the parent, however old
  the parent is, and whatever else is stored.
\<close>

theorem rerun_protects_parent:
  assumes "create_run_recorder env i ver t args vars (Some q) s = Ret (s', Inr pre)"
    and "distinct (run_ids (rs_runs s))" "i \<notin> set (run_ids (rs_runs s))"
    and "\<forall>r \<in> set (rs_runs s). rr_last_written_at r < se_now env"
    and "parent \<in> set (rs_runs s)" "rr_run_id parent = q"
    and "\<forall>m. rp_max_count p = Some m \<longrightarrow> 2 \<le> m"
    and "\<forall>m. rp_max_total_size p = Some m \<longrightarrow> run_size parent \<le> m"
    and "0 \<le> se_time_delta_max env"
  shows "i \<in> set (run_ids (rs_runs s')) \<and> i \<notin> set (compute_runs_to_delete env p (rs_runs s')) \<and>
    q \<notin> set (compute_runs_to_delete env p (rs_runs s'))"
proof -
  define n where "n = new_run env i ver t args vars (Some q)"
  define r' where "r' = parent\<lparr>rr_last_written_at := se_now env\<rparr>"
  have n: "rr_run_id n = i" "rr_last_written_at n = se_now env" "run_size n = 0"
    by (simp_all add: n_def new_run_def total_compressed_def no_sizes_def)
  have runs: "rs_runs s' = touch_first (se_now env) q (rs_runs s @ [n])"
    using assms(1) by (auto simp: create_run_recorder_def Let_def write_runs_json_def n_def
        split: runs_json_write_permission.splits if_splits option.splits)
  have "q \<in> set (run_ids (rs_runs s @ [n]))" using assms(5,6) by auto
  then obtain xs r ys where split: "rs_runs s @ [n] = xs @ r # ys" "rr_run_id r = q"
    "rs_runs s' = xs @ r\<lparr>rr_last_written_at := se_now env\<rparr> # ys"
    using touch_first_split[of q _ "se_now env"] unfolding runs by blast
  have dist: "distinct (run_ids (rs_runs s @ [n]))" using assms(2,3) n(1) by simp
  then have "r = parent"
    using split assms(5,6) by (metis (no_types, lifting) Un_iff distinct_map inj_onD in_set_conv_decomp set_append)
  then have s': "rs_runs s' = xs @ r' # ys" "rr_run_id r' = q" "run_size r' = run_size parent"
    "rr_last_written_at r' = se_now env"
    using split assms(6) by (simp_all add: r'_def)
  have d': "distinct (run_ids (rs_runs s'))" using dist split s' by simp
  have ne: "i \<noteq> q" using assms(3,5,6) by auto
  have mem: "x = n \<or> x = r' \<or> rr_last_written_at x < se_now env" if "x \<in> set (rs_runs s')" for x
  proof -
    have "x = r' \<or> x \<in> set (rs_runs s @ [n])" using that s'(1) split(1) by auto
    then show ?thesis using assms(4) by auto
  qed
  have "n \<in> set (xs @ r # ys)" unfolding split(1)[symmetric] by simp
  then have n': "n \<in> set (rs_runs s')" using ne n(1) split(2) s'(1) by auto
  have lim: "\<not> exceeds_limit env p 0 0 n" "\<not> exceeds_limit env p 1 (run_size r') n"
    "\<not> exceeds_limit env p 0 0 r'" "\<not> exceeds_limit env p 1 (run_size n) r'"
    using assms(7-9) n s'(3,4) by (auto simp: exceeds_limit_def not_less split: option.splits)
  have "rr_run_id n \<notin> set (compute_runs_to_delete env p (rs_runs s'))"
    using not_deleted_first[OF d' n' _ lim(1,2)] mem n(2) by fastforce
  moreover have "rr_run_id r' \<notin> set (compute_runs_to_delete env p (rs_runs s'))"
    using not_deleted_first[OF d' _ _ lim(3,4)] mem s'(1,4) by fastforce
  moreover have "i \<in> set (run_ids (rs_runs s'))" using n' n(1) by force
  ultimately show ?thesis using n(1) s'(2) by simp
qed

theorem rerun_protects_parent_witness:
  "\<exists>s' pre. create_run_recorder ex_store_env 3 [] 25 [] [] (Some 1) \<lparr>rs_runs = [ex_recorded 1 10 500], rs_last_pruned_at = None,
        rs_write_permission = WriteAllowed, rs_file = None\<rparr> = Ret (s', Inr pre) \<and>
    3 \<in> set (run_ids (rs_runs s')) \<and> 1 \<notin> set (compute_runs_to_delete ex_store_env ex_retention (rs_runs s'))"
  (is "\<exists>s' pre. create_run_recorder _ _ _ _ _ _ _ ?s = _ \<and> _")
proof -
  have "\<exists>s' pre. create_run_recorder ex_store_env 3 [] 25 [] [] (Some 1) ?s = Ret (s', Inr pre)"
    by (simp add: create_run_recorder_def write_runs_json_def ex_store_env_def new_run_def ex_recorded_def
        shortest_unique_prefix_def shortest_unique_prefix_len_def run_id_index_new_def ex_id_str_def Let_def)
  then obtain s' pre where "create_run_recorder ex_store_env 3 [] 25 [] [] (Some 1) ?s = Ret (s', Inr pre)" by blast
  then show ?thesis
    using rerun_protects_parent[of ex_store_env 3 "[]" 25 "[]" "[]" 1 ?s s' pre "ex_recorded 1 10 500" ex_retention]
    by (auto simp: ex_recorded_def ex_retention_def ex_store_env_def total_compressed_def)
qed

text \<open>
  A run can be replayed exactly if its major format version is the supported one, its minor version
  is not newer, both of its files are there, and it was completed or cancelled.
\<close>

theorem replayable_iff:
  "check_replayability r files = Replayable \<longleftrightarrow>
    sv_major (rr_store_format_version r) = 3 \<and> sv_minor (rr_store_format_version r) = 0 \<and>
    fs_store_zip_exists files \<and> fs_run_log_exists files \<and>
    rr_status r \<noteq> RecIncomplete \<and> rr_status r \<noteq> RecUnknown"
  by (cases "rr_status r")
    (auto simp: check_replayability_def check_readable_by_def STORE_FORMAT_VERSION_def Let_def word_gt_0 split: if_splits)

end
