(* ===== verification/Run_Tree.thy ===== *)
theory Run_Tree
  imports Recorded_Run "HOL-Library.Product_Lexorder"
begin

text \<open>
  The tree in which recorded runs are listed: reruns below the runs that they rerun
  (\<open>nextest-runner/src/record/tree.rs\<close>). A parent that was pruned is shown by a virtual node. The
  parents that the runs name need not form a tree: the code guards against cycles.

  The stacks are lists with their top first. The order in which the set of virtual parents is
  iterated is a parameter.
\<close>

record run_info =
  ti_run_id :: run_id
  ti_parent_run_id :: "run_id option"
  ti_started_at :: timestamp

datatype root_entry = RootReal run_id | RootVirtual run_id

record tree_iter_item =
  it_run_id :: "run_id option"
  it_depth :: nat
  it_is_last :: bool
  it_is_only_child :: bool
  it_continuation_flags :: "bool list"

definition tree_prefix_width :: "tree_iter_item \<Rightarrow> nat" where
  "tree_prefix_width it =
     (if it_depth it = 0 then 0
      else length (it_continuation_flags it) + (if it_is_only_child it then 0 else 1))"

section \<open>Parents and children\<close>

type_synonym run_children = "run_id \<rightharpoonup> run_id list"

definition run_map :: "run_info list \<Rightarrow> run_id \<rightharpoonup> run_info" where
  "run_map runs = map_of (rev (map (\<lambda>r. (ti_run_id r, r)) runs))"

definition start_time :: "run_info list \<Rightarrow> run_id \<Rightarrow> timestamp option" where
  "start_time runs i = map_option ti_started_at (run_map runs i)"

text \<open>Descending order on optional times, where no time comes last.\<close>

definition desc :: "timestamp option \<Rightarrow> nat \<times> int" where
  "desc t = (case t of None \<Rightarrow> (1, 0) | Some t \<Rightarrow> (0, - t))"

record family =
  fm_children :: run_children
  fm_is_child :: "run_id set"
  fm_virtual_parents :: "run_id set"

definition add_to_family :: "run_info list \<Rightarrow> run_info \<Rightarrow> family \<Rightarrow> family" where
  "add_to_family runs r f = (case ti_parent_run_id r of
     None \<Rightarrow> f
   | Some q \<Rightarrow>
       \<lparr>fm_children = (fm_children f)(q \<mapsto> (case fm_children f q of None \<Rightarrow> [] | Some l \<Rightarrow> l) @ [ti_run_id r]),
        fm_is_child = insert (ti_run_id r) (fm_is_child f),
        fm_virtual_parents = (if run_map runs q = None then insert q (fm_virtual_parents f)
          else fm_virtual_parents f)\<rparr>)"

definition family_of :: "run_info list \<Rightarrow> family" where
  "family_of runs =
     (let f = fold (add_to_family runs) runs \<lparr>fm_children = Map.empty, fm_is_child = {}, fm_virtual_parents = {}\<rparr>
      in f\<lparr>fm_children := map_option (sort_key (\<lambda>i. desc (start_time runs i))) \<circ> fm_children f\<rparr>)"

definition children_list :: "run_children \<Rightarrow> run_id \<Rightarrow> run_id list" where
  "children_list children i = (case children i of None \<Rightarrow> [] | Some l \<Rightarrow> l)"


section \<open>The latest start in a subtree\<close>

definition later :: "timestamp option \<Rightarrow> timestamp option \<Rightarrow> timestamp option" where
  "later max_time t = (case t of
     None \<Rightarrow> max_time
   | Some t \<Rightarrow> Some (case max_time of None \<Rightarrow> t | Some m \<Rightarrow> max m t))"

function subtree_loop ::
  "run_children \<Rightarrow> (run_id \<Rightarrow> timestamp option) \<Rightarrow> run_id list \<Rightarrow> timestamp option \<Rightarrow> run_id set
     \<Rightarrow> timestamp option \<times> run_id set" where
  "subtree_loop children time [] max_time reachable = (max_time, reachable)"
| "subtree_loop children time (i # stack) max_time reachable =
     (if i \<in> reachable then subtree_loop children time stack max_time reachable
      else subtree_loop children time (rev (children_list children i) @ stack) (later max_time (time i))
             (insert i reachable))"
  by pat_completeness auto

termination
proof (relation "measures [\<lambda>(children, time, stack, max_time, reachable). card (- reachable),
    \<lambda>(children, time, stack, max_time, reachable). length stack]", goal_cases)
  case (3 children time i stack max_time reachable)
  then have "card (- insert i reachable) < card (- reachable)"
    by (intro psubset_card_mono) auto
  then show ?case by simp
qed auto

definition max_subtree_time ::
  "run_info list \<Rightarrow> run_children \<Rightarrow> root_entry \<Rightarrow> run_id set \<Rightarrow> timestamp option \<times> run_id set" where
  "max_subtree_time runs children root reachable =
     subtree_loop children (start_time runs)
       (case root of RootReal i \<Rightarrow> [i] | RootVirtual q \<Rightarrow> rev (children_list children q)) None reachable"

fun root_times ::
  "run_info list \<Rightarrow> run_children \<Rightarrow> root_entry list \<Rightarrow> run_id set \<Rightarrow> (root_entry \<times> timestamp option) list \<times> run_id set" where
  "root_times runs children [] reachable = ([], reachable)"
| "root_times runs children (root # roots) reachable =
     (let (t, reachable) = max_subtree_time runs children root reachable;
          (rest, reachable) = root_times runs children roots reachable
      in ((root, t) # rest, reachable))"

text \<open>The roots for runs that are not reachable from the others: one after the other.\<close>

fun cycle_roots ::
  "run_info list \<Rightarrow> run_children \<Rightarrow> run_info list \<Rightarrow> run_id set \<Rightarrow> (root_entry \<times> timestamp option) list" where
  "cycle_roots runs children [] reachable = []"
| "cycle_roots runs children (r # rs) reachable =
     (if ti_run_id r \<notin> reachable
      then (let (t, reachable) = max_subtree_time runs children (RootReal (ti_run_id r)) reachable
            in (RootReal (ti_run_id r), t) # cycle_roots runs children rs reachable)
      else cycle_roots runs children rs reachable)"


section \<open>The traversal\<close>

record node_state =
  ns_run_id :: "run_id option"
  ns_children_key :: run_id
  ns_depth :: nat
  ns_is_last :: bool
  ns_is_only_child :: bool
  ns_continuation_flags :: "bool list"

fun root_node :: "root_entry \<Rightarrow> node_state" where
  "root_node (RootReal i) = \<lparr>ns_run_id = Some i, ns_children_key = i, ns_depth = 0, ns_is_last = True,
     ns_is_only_child = False, ns_continuation_flags = []\<rparr>"
| "root_node (RootVirtual i) = \<lparr>ns_run_id = None, ns_children_key = i, ns_depth = 0, ns_is_last = True,
     ns_is_only_child = False, ns_continuation_flags = []\<rparr>"

definition node_item :: "node_state \<Rightarrow> tree_iter_item" where
  "node_item n = \<lparr>it_run_id = ns_run_id n, it_depth = ns_depth n, it_is_last = ns_is_last n,
     it_is_only_child = ns_is_only_child n, it_continuation_flags = ns_continuation_flags n\<rparr>"

definition child_node :: "node_state \<Rightarrow> nat \<Rightarrow> nat \<times> run_id \<Rightarrow> node_state" where
  "child_node n child_count = (\<lambda>(i, child_id).
     (let child_depth = ns_depth n + 1
      in \<lparr>ns_run_id = Some child_id, ns_children_key = child_id, ns_depth = child_depth,
          ns_is_last = (i = child_count - 1),
          ns_is_only_child = (child_count = 1 \<and> child_depth > 1),
          ns_continuation_flags =
            (if child_depth = 1 then []
             else if ns_is_only_child n then ns_continuation_flags n
             else ns_continuation_flags n @ [\<not> ns_is_last n])\<rparr>))"

definition child_nodes :: "run_children \<Rightarrow> node_state \<Rightarrow> node_state list" where
  "child_nodes children n =
     (let ids = children_list children (ns_children_key n)
      in map (child_node n (length ids)) (enumerate 0 ids))"

function traverse :: "run_children \<Rightarrow> node_state list \<Rightarrow> run_id set \<Rightarrow> tree_iter_item list" where
  "traverse children [] visited = []"
| "traverse children (n # stack) visited =
     (if ns_children_key n \<in> visited then traverse children stack visited
      else node_item n #
        traverse children (child_nodes children n @ stack) (insert (ns_children_key n) visited))"
  by pat_completeness auto

termination
proof (relation "measures [\<lambda>(children, stack, visited). card (- visited),
    \<lambda>(children, stack, visited). length stack]", goal_cases)
  case (3 children n stack visited)
  then have "card (- insert (ns_children_key n) visited) < card (- visited)"
    by (intro psubset_card_mono) auto
  then show ?case by simp
qed auto

definition build_traversal :: "(root_entry \<times> timestamp option) list \<Rightarrow> run_children \<Rightarrow> tree_iter_item list" where
  "build_traversal roots children = traverse children (map (root_node \<circ> fst) roots) {}"

definition tree_roots :: "(run_id set \<Rightarrow> run_id list) \<Rightarrow> run_info list \<Rightarrow> (root_entry \<times> timestamp option) list" where
  "tree_roots hash_order runs =
     (let f = family_of runs;
          natural = map (RootReal \<circ> ti_run_id) (filter (\<lambda>r. ti_run_id r \<notin> fm_is_child f) runs) @
                    map RootVirtual (hash_order (fm_virtual_parents f));
          (roots, reachable) = root_times runs (fm_children f) natural {};
          roots = roots @ cycle_roots runs (fm_children f) runs reachable
      in sort_key (desc \<circ> snd) roots)"

definition run_tree_build :: "(run_id set \<Rightarrow> run_id list) \<Rightarrow> run_info list \<Rightarrow> tree_iter_item list" where
  "run_tree_build hash_order runs =
     (if runs = [] then []
      else build_traversal (tree_roots hash_order runs) (fm_children (family_of runs)))"

end
