(* ===== verification/Run_Tree_Props.thy ===== *)
theory Run_Tree_Props
  imports Run_Tree
begin

text \<open>
  The tree of recorded runs shows every run once, below its parent.
\<close>

section \<open>Families\<close>

abbreviation "tree_ids runs \<equiv> ti_run_id ` set (runs :: run_info list)"

definition missing_parents :: "run_info list \<Rightarrow> run_id set" where
  "missing_parents runs = {q. \<exists>r \<in> set runs. ti_parent_run_id r = Some q \<and> q \<notin> tree_ids runs}"

lemma run_map_None: "run_map runs i = None \<longleftrightarrow> i \<notin> tree_ids runs"
  by (auto simp: run_map_def map_of_eq_None_iff image_image)

lemma children_list_simps:
  "children_list (m(q \<mapsto> l)) p = (if p = q then l else children_list m p)"
  "(case m p of None \<Rightarrow> [] | Some l \<Rightarrow> l) = children_list m p"
  by (simp_all add: children_list_def)

lemma fold_family:
  "children_list (fm_children (fold (add_to_family runs) rs f)) q =
     children_list (fm_children f) q @ map ti_run_id (filter (\<lambda>r. ti_parent_run_id r = Some q) rs)"
  "fm_is_child (fold (add_to_family runs) rs f) = fm_is_child f \<union> ti_run_id ` {r \<in> set rs. ti_parent_run_id r \<noteq> None}"
  "fm_virtual_parents (fold (add_to_family runs) rs f) =
     fm_virtual_parents f \<union> {q. \<exists>r \<in> set rs. ti_parent_run_id r = Some q \<and> q \<notin> tree_ids runs}"
  by (induction rs arbitrary: f)
    (auto simp: add_to_family_def children_list_simps run_map_None split: option.splits)

lemma family_facts:
  shows "set (children_list (fm_children (family_of runs)) q) = ti_run_id ` {r \<in> set runs. ti_parent_run_id r = Some q}"
    "fm_is_child (family_of runs) = ti_run_id ` {r \<in> set runs. ti_parent_run_id r \<noteq> None}"
    "fm_virtual_parents (family_of runs) = missing_parents runs"
proof -
  let ?f = "fold (add_to_family runs) runs \<lparr>fm_children = Map.empty, fm_is_child = {}, fm_virtual_parents = {}\<rparr>"
  have "set (children_list (fm_children (family_of runs)) q) = set (children_list (fm_children ?f) q)"
    by (simp add: family_of_def children_list_def Let_def split: option.split)
  also have "\<dots> = ti_run_id ` {r \<in> set runs. ti_parent_run_id r = Some q}"
    unfolding fold_family by (simp add: children_list_def)
  finally show "set (children_list (fm_children (family_of runs)) q) = ti_run_id ` {r \<in> set runs. ti_parent_run_id r = Some q}" .
  show "fm_is_child (family_of runs) = ti_run_id ` {r \<in> set runs. ti_parent_run_id r \<noteq> None}"
    "fm_virtual_parents (family_of runs) = missing_parents runs"
    by (simp_all add: family_of_def fold_family Let_def missing_parents_def)
qed

definition child_edges :: "run_children \<Rightarrow> (run_id \<times> run_id) set" where
  "child_edges children = {(p, c). c \<in> set (children_list children p)}"


text \<open>
  Which run a run names as its parent, and the runs among whose ancestors, themselves included,
  there is a cycle.
\<close>

definition parent_in :: "run_info list \<Rightarrow> run_id \<Rightarrow> run_id \<Rightarrow> bool" where
  "parent_in runs i q \<longleftrightarrow> (\<exists>r \<in> set runs. ti_run_id r = i \<and> ti_parent_run_id r = Some q)"

definition cyclic_ancestry :: "run_info list \<Rightarrow> run_id \<Rightarrow> bool" where
  "cyclic_ancestry runs i \<longleftrightarrow> (\<exists>q. (q, q) \<in> {(q, i). parent_in runs i q}\<^sup>+ \<and> (q, i) \<in> {(q, i). parent_in runs i q}\<^sup>*)"

lemma child_edges_family: "child_edges (fm_children (family_of runs)) = {(q, i). parent_in runs i q}"
  by (auto simp: child_edges_def family_facts parent_in_def)

lemma cyclic_ancestry_child: "parent_in runs i q \<Longrightarrow> cyclic_ancestry runs q \<Longrightarrow> cyclic_ancestry runs i"
  unfolding cyclic_ancestry_def by (meson case_prodI mem_Collect_eq rtrancl.rtrancl_into_rtrancl)

lemma wf_acyclic_ancestry: "wf {(q, i). parent_in runs i q \<and> \<not> cyclic_ancestry runs i}" (is "wf ?E")
proof (rule finite_acyclic_wf)
  show "finite ?E" by (rule finite_subset [of _ UNIV]) auto
  have sub: "?E\<^sup>+ \<subseteq> {(q, i). parent_in runs i q}\<^sup>+" by (rule trancl_mono_subset) auto
  show "acyclic ?E"
    unfolding acyclic_def
  proof (intro allI notI)
    fix i assume loop: "(i, i) \<in> ?E\<^sup>+"
    then have "\<not> cyclic_ancestry runs i" by (metis (no_types, lifting) case_prodD mem_Collect_eq tranclD2)
    moreover have "cyclic_ancestry runs i" unfolding cyclic_ancestry_def using loop sub by blast
    ultimately show False by blast
  qed
qed


section \<open>Reachability\<close>

abbreviation "below children A \<equiv> (child_edges children)\<^sup>* `` A"

lemma below_child: "c \<in> set (children_list children p) \<Longrightarrow> below children {c} \<subseteq> below children {p}"
  by (auto simp: child_edges_def intro: converse_rtrancl_into_rtrancl)

lemma below_insert: "below children (insert i A) = below children {i} \<union> below children A"
  by auto

lemma below_children: "below children (set (children_list children i)) \<subseteq> below children {i}"
proof
  fix x assume "x \<in> below children (set (children_list children i))"
  then obtain c where "c \<in> set (children_list children i)" "x \<in> below children {c}" by blast
  then show "x \<in> below children {i}" using below_child by blast
qed

lemma below_mono: "A \<subseteq> B \<Longrightarrow> below children A \<subseteq> below children B" by auto

lemma below_self: "A \<subseteq> below children A" by auto

definition closed_under :: "run_children \<Rightarrow> run_id set \<Rightarrow> bool" where
  "closed_under children R \<longleftrightarrow> (\<forall>i \<in> R. set (children_list children i) \<subseteq> R)"

lemma closed_below: "closed_under children R \<Longrightarrow> A \<subseteq> R \<Longrightarrow> below children A \<subseteq> R"
  by (auto simp: closed_under_def child_edges_def elim!: rtrancl_induct)

lemma subtree_loop_reachable:
  assumes "subtree_loop children time stack m R = (t, R')"
  shows "R \<subseteq> R' \<and> set stack \<subseteq> R' \<and> R' \<subseteq> R \<union> below children (set stack) \<and>
    (\<forall>i \<in> R' - R. set (children_list children i) \<subseteq> R')"
  using assms
proof (induction children time stack m R arbitrary: t R' rule: subtree_loop.induct)
  case (2 children time i stack m R)
  show ?case
  proof (cases "i \<in> R")
    case True
    then show ?thesis using 2(1)[OF True] 2(3) by fastforce
  next
    case False
    have "subtree_loop children time (rev (children_list children i) @ stack) (later m (time i)) (insert i R) = (t, R')"
      using 2(3) False by simp
    from 2(2)[OF False this] have IH: "insert i R \<subseteq> R'" "set (children_list children i) \<union> set stack \<subseteq> R'"
      "R' \<subseteq> insert i R \<union> below children (set (children_list children i) \<union> set stack)"
      "\<forall>j \<in> R' - insert i R. set (children_list children j) \<subseteq> R'" by auto
    have "i \<in> below children {i}" by simp
    then have "R' \<subseteq> R \<union> below children (set (i # stack))"
      using IH(3) below_children[of children i] below_insert[of children i "set stack"] by (auto simp: Image_Un)
    then show ?thesis using IH by auto
  qed
qed simp

fun root_key :: "root_entry \<Rightarrow> run_id" where
  "root_key (RootReal i) = i"
| "root_key (RootVirtual i) = i"

lemma max_subtree_reachable:
  assumes "max_subtree_time runs children root R = (t, R')"
  shows "R \<subseteq> R'" "R' \<subseteq> R \<union> below children {root_key root}" "\<forall>i \<in> R' - R. set (children_list children i) \<subseteq> R'"
    "root = RootReal i \<Longrightarrow> i \<in> R'" "root = RootVirtual q \<Longrightarrow> set (children_list children q) \<subseteq> R'"
proof -
  note sub = subtree_loop_reachable[OF assms[unfolded max_subtree_time_def]]
  show "R \<subseteq> R'" "\<forall>i \<in> R' - R. set (children_list children i) \<subseteq> R'"
    "root = RootReal i \<Longrightarrow> i \<in> R'" "root = RootVirtual q \<Longrightarrow> set (children_list children q) \<subseteq> R'"
    using sub by auto
  show "R' \<subseteq> R \<union> below children {root_key root}"
  proof (cases root)
    case (RootReal i)
    then show ?thesis using sub by simp
  next
    case (RootVirtual q)
    then have "R' \<subseteq> R \<union> below children (set (children_list children q))" using sub by simp
    then show ?thesis using below_children[of children q] RootVirtual by fastforce
  qed
qed

lemma root_times_reachable:
  assumes "root_times runs children roots R = (rts, R')"
  shows "map fst rts = roots \<and> R \<subseteq> R' \<and> R' \<subseteq> R \<union> below children (root_key ` set roots) \<and>
    (\<forall>i \<in> R' - R. set (children_list children i) \<subseteq> R') \<and>
    (\<forall>i. RootReal i \<in> set roots \<longrightarrow> i \<in> R') \<and>
    (\<forall>q. RootVirtual q \<in> set roots \<longrightarrow> set (children_list children q) \<subseteq> R')"
  using assms
proof (induction roots arbitrary: R rts R')
  case (Cons root roots)
  obtain t R1 where 1: "max_subtree_time runs children root R = (t, R1)" by fastforce
  obtain rest R2 where 2: "root_times runs children roots R1 = (rest, R2)" by fastforce
  have eq: "rts = (root, t) # rest" "R' = R2" using Cons.prems 1 2 by auto
  note m = max_subtree_reachable[OF 1]
  from Cons.IH[OF 2] have IH: "map fst rest = roots" "R1 \<subseteq> R2" "R2 \<subseteq> R1 \<union> below children (root_key ` set roots)"
    "\<And>i. i \<in> R2 - R1 \<Longrightarrow> set (children_list children i) \<subseteq> R2"
    "\<And>i. RootReal i \<in> set roots \<Longrightarrow> i \<in> R2" "\<And>q. RootVirtual q \<in> set roots \<Longrightarrow> set (children_list children q) \<subseteq> R2"
    by blast+
  have "R2 \<subseteq> R \<union> below children (root_key ` set (root # roots))"
    using IH(3) m(2) below_insert[of children "root_key root" "root_key ` set roots"] by auto
  moreover have "set (children_list children i) \<subseteq> R2" if "i \<in> R2 - R" for i
    using IH(2) IH(4)[of i] m(3) that by (cases "i \<in> R1") blast+
  moreover have "set (children_list children q) \<subseteq> R2" if "RootVirtual q \<in> set (root # roots)" for q
    using m(5)[of q] IH(2) IH(6)[of q] that by auto
  moreover have "i \<in> R2" if "RootReal i \<in> set (root # roots)" for i
    using m(4)[of i] IH(2) IH(5)[of i] that by auto
  moreover have "R \<subseteq> R2" using m(1) IH(2) by (rule order_trans)
  moreover have "map fst rts = root # roots" using eq IH(1) by simp
  ultimately show ?case unfolding eq(2) by (intro conjI ballI allI impI)
qed auto

lemma cycle_roots_reachable:
  "tree_ids rs \<subseteq> R \<union> below children (root_key ` fst ` set (cycle_roots runs children rs R)) \<and>
   fst ` set (cycle_roots runs children rs R) \<subseteq> RootReal ` tree_ids rs"
proof (induction rs arbitrary: R)
  case (Cons r rs)
  show ?case
  proof (cases "ti_run_id r \<in> R")
    case True
    then show ?thesis using Cons[of R] by auto
  next
    case False
    obtain t R1 where 1: "max_subtree_time runs children (RootReal (ti_run_id r)) R = (t, R1)" by fastforce
    have "R1 \<subseteq> R \<union> below children {ti_run_id r}" using max_subtree_reachable(2)[OF 1] by simp
    moreover have "ti_run_id r \<in> below children {ti_run_id r}" by simp
    ultimately show ?thesis using False 1 Cons[of R1]
        below_insert[of children "ti_run_id r" "root_key ` fst ` set (cycle_roots runs children rs R1)"] by auto
  qed
qed simp

lemma cycle_roots_fresh: "RootReal i \<in> fst ` set (cycle_roots runs children rs R) \<Longrightarrow> i \<notin> R"
proof (induction rs arbitrary: R)
  case (Cons r rs)
  show ?case
  proof (cases "ti_run_id r \<in> R")
    case True
    then show ?thesis using Cons.prems Cons.IH[of R] by simp
  next
    case False
    obtain t R1 where 1: "max_subtree_time runs children (RootReal (ti_run_id r)) R = (t, R1)" by fastforce
    have "R \<subseteq> R1" using max_subtree_reachable(1)[OF 1] .
    then show ?thesis using False 1 Cons.prems Cons.IH[of R1] by auto
  qed
qed simp


section \<open>The roots\<close>

lemma tree_roots_facts:
  fixes runs
  assumes "\<And>A. finite A \<Longrightarrow> set (hash_order A) = A"
  defines "roots \<equiv> fst ` set (tree_roots hash_order runs)" and "children \<equiv> fm_children (family_of runs)"
  shows "tree_ids runs \<subseteq> below children (root_key ` roots)"
    "\<And>q. RootVirtual q \<in> roots \<longleftrightarrow> q \<in> missing_parents runs"
    "\<And>i. RootReal i \<in> roots \<Longrightarrow> i \<in> tree_ids runs"
    "\<And>i q. RootReal i \<in> roots \<Longrightarrow> parent_in runs i q \<Longrightarrow> cyclic_ancestry runs i"
proof -
  define natural where "natural = map (RootReal \<circ> ti_run_id) (filter (\<lambda>r. ti_run_id r \<notin> fm_is_child (family_of runs)) runs) @
    map RootVirtual (hash_order (fm_virtual_parents (family_of runs)))"
  obtain rts R where rt: "root_times runs children natural {} = (rts, R)" by fastforce
  let ?cyc = "cycle_roots runs children runs R"
  have fin: "finite (missing_parents runs)"
    by (rule finite_subset[of _ "(the \<circ> ti_parent_run_id) ` set runs"]) (force simp: missing_parents_def)+
  have nat: "set natural = RootReal ` (tree_ids runs - ti_run_id ` {r \<in> set runs. ti_parent_run_id r \<noteq> None}) \<union>
      RootVirtual ` missing_parents runs"
    using assms(1)[OF fin] by (auto simp: natural_def family_facts)
  have roots: "roots = set natural \<union> fst ` set ?cyc"
    using root_times_reachable[OF rt] rt
    by (auto simp: roots_def tree_roots_def Let_def natural_def children_def image_Un simp flip: set_map split: prod.splits)
  have "R \<subseteq> below children (root_key ` set natural)" using root_times_reachable[OF rt] by simp
  then show "tree_ids runs \<subseteq> below children (root_key ` roots)"
    using cycle_roots_reachable[of runs R children runs] unfolding roots by (auto simp: image_Un Image_Un)
  show "RootVirtual q \<in> roots \<longleftrightarrow> q \<in> missing_parents runs" for q
    using cycle_roots_reachable[of runs R children runs] unfolding roots nat by auto
  show "RootReal i \<in> roots \<Longrightarrow> i \<in> tree_ids runs" for i
    using cycle_roots_reachable[of runs R children runs] unfolding roots nat by auto
  have closed: "closed_under children R"
    using root_times_reachable[OF rt] by (auto simp: closed_under_def)
  have reached: "j \<in> tree_ids runs \<Longrightarrow> \<not> cyclic_ancestry runs j \<Longrightarrow> j \<in> R" for j
  proof (induction j rule: wf_induct_rule[OF wf_acyclic_ancestry[of runs]])
    case (1 j)
    show ?case
    proof (cases "\<exists>q. parent_in runs j q")
      case False
      then have "RootReal j \<in> set natural" unfolding nat using 1(2) by (auto simp: parent_in_def)
      then show ?thesis using root_times_reachable[OF rt] by blast
    next
      case True
      then obtain q where q: "parent_in runs j q" by blast
      then have child: "j \<in> set (children_list children q)"
        by (auto simp: children_def family_facts parent_in_def)
      show ?thesis
      proof (cases "q \<in> tree_ids runs")
        case True
        have "\<not> cyclic_ancestry runs q" using cyclic_ancestry_child[OF q] 1(3) by blast
        then have "q \<in> R" using 1(1)[of q] q 1(3) True by simp
        then show ?thesis using closed child by (auto simp: closed_under_def)
      next
        case False
        then have "RootVirtual q \<in> set natural" unfolding nat using q by (auto simp: missing_parents_def parent_in_def)
        then show ?thesis using root_times_reachable[OF rt] child by blast
      qed
    qed
  qed
  show "cyclic_ancestry runs i" if i: "RootReal i \<in> roots" and q: "parent_in runs i q" for i q
  proof (rule ccontr)
    assume "\<not> cyclic_ancestry runs i"
    moreover have "i \<in> tree_ids runs" using q by (auto simp: parent_in_def)
    ultimately have "i \<in> R" using reached by blast
    then have "RootReal i \<in> set natural" using i cycle_roots_fresh[of i runs children runs R] unfolding roots by blast
    then show False using q unfolding nat by (auto simp: parent_in_def)
  qed
qed


section \<open>The traversal\<close>

text \<open>The nodes that are visited, in order; their items are what is shown.\<close>

function traverse_nodes :: "run_children \<Rightarrow> node_state list \<Rightarrow> run_id set \<Rightarrow> node_state list" where
  "traverse_nodes children [] visited = []"
| "traverse_nodes children (n # stack) visited =
     (if ns_children_key n \<in> visited then traverse_nodes children stack visited
      else n # traverse_nodes children (child_nodes children n @ stack) (insert (ns_children_key n) visited))"
  by pat_completeness auto

termination
proof (relation "measures [\<lambda>(children, stack, visited). card (- visited),
    \<lambda>(children, stack, visited). length stack]", goal_cases)
  case (3 children n stack visited)
  then have "card (- insert (ns_children_key n) visited) < card (- visited)"
    by (intro psubset_card_mono) auto
  then show ?case by simp
qed auto

lemma traverse_items: "traverse children stack visited = map node_item (traverse_nodes children stack visited)"
  by (induction children stack visited rule: traverse.induct) auto

lemma child_nodes_set:
  "n' \<in> set (child_nodes children n) \<Longrightarrow> ns_run_id n' = Some (ns_children_key n') \<and>
     ns_children_key n' \<in> set (children_list children (ns_children_key n)) \<and> ns_depth n' = ns_depth n + 1"
  by (auto simp: child_nodes_def child_node_def Let_def enumerate_eq_zip dest: set_zip_rightD)

lemma child_nodes_keys: "map ns_children_key (child_nodes children n) = children_list children (ns_children_key n)"
  by (simp add: child_nodes_def Let_def o_def child_node_def case_prod_beta)

lemma traverse_keys:
  defines "keys \<equiv> \<lambda>ns. map ns_children_key ns"
  shows "distinct (keys (traverse_nodes children stack visited)) \<and>
    set (keys (traverse_nodes children stack visited)) \<inter> visited = {} \<and>
    set (keys stack) \<subseteq> visited \<union> set (keys (traverse_nodes children stack visited)) \<and>
    (\<forall>k \<in> set (keys (traverse_nodes children stack visited)).
      set (children_list children k) \<subseteq> visited \<union> set (keys (traverse_nodes children stack visited))) \<and>
    (\<forall>n \<in> set (traverse_nodes children stack visited). n \<in> set stack \<or>
      ns_depth n > 0 \<and> ns_run_id n = Some (ns_children_key n) \<and> (\<exists>k. ns_children_key n \<in> set (children_list children k)))"
proof (induction children stack visited rule: traverse_nodes.induct)
  case (2 children n stack visited)
  show ?case
  proof (cases "ns_children_key n \<in> visited")
    case True
    then show ?thesis using 2(1)[OF True] unfolding keys_def by auto
  next
    case False
    let ?ns = "traverse_nodes children (child_nodes children n @ stack) (insert (ns_children_key n) visited)"
    note IH = 2(2)[OF False]
    have kids: "set (children_list children (ns_children_key n)) \<subseteq> insert (ns_children_key n) visited \<union> set (keys ?ns)"
      using IH child_nodes_keys[of children n] unfolding keys_def by auto
    have "\<forall>m \<in> set ?ns. m \<in> set stack \<or> ns_depth m > 0 \<and> ns_run_id m = Some (ns_children_key m) \<and>
        (\<exists>k. ns_children_key m \<in> set (children_list children k))"
      using IH child_nodes_set[of _ children n] by fastforce
    then show ?thesis using IH kids False unfolding keys_def by auto
  qed
qed (simp add: keys_def)

text \<open>
  A node is attached to the nodes before it if it is a root, or if the last node before it that
  lies less deep is its parent, one level up.
\<close>

definition attached :: "run_children \<Rightarrow> node_state list \<Rightarrow> node_state \<Rightarrow> bool" where
  "attached children pre n \<longleftrightarrow> ns_depth n = 0 \<or>
     (\<exists>xs p ys. pre = xs @ p # ys \<and> ns_depth p + 1 = ns_depth n \<and> (\<forall>y \<in> set ys. ns_depth n \<le> ns_depth y) \<and>
       ns_children_key n \<in> set (children_list children (ns_children_key p)))"

lemma attached_snoc:
  assumes "attached children pre n" "ns_depth n \<le> ns_depth m"
  shows "attached children (pre @ [m]) n"
proof (cases "ns_depth n = 0")
  case False
  then obtain xs p ys where "pre = xs @ p # ys" "ns_depth p + 1 = ns_depth n" "\<forall>y \<in> set ys. ns_depth n \<le> ns_depth y"
    "ns_children_key n \<in> set (children_list children (ns_children_key p))"
    using assms(1) by (auto simp: attached_def)
  then show ?thesis using assms(2)
    by (intro iffD2[OF attached_def] disjI2 exI[of _ xs] exI[of _ p] exI[of _ "ys @ [m]"]) auto
qed (simp add: attached_def)

lemma traverse_attached:
  assumes "\<forall>n \<in> set stack. attached children pre n" "sorted_wrt (\<lambda>n m. ns_depth m \<le> ns_depth n) stack"
    "traverse_nodes children stack visited = as @ n # bs"
  shows "attached children (pre @ as) n"
  using assms
proof (induction children stack visited arbitrary: pre as rule: traverse_nodes.induct)
  case (2 children m stack visited)
  show ?case
  proof (cases "ns_children_key m \<in> visited")
    case True
    then show ?thesis using 2(1)[OF True] 2(3-5) by auto
  next
    case False
    let ?kids = "child_nodes children m"
    have "attached children (pre @ [m]) k" if "k \<in> set ?kids" for k
      using child_nodes_set[OF that]
      by (intro iffD2[OF attached_def] disjI2 exI[of _ pre] exI[of _ m] exI[of _ "[]"]) auto
    moreover have "attached children (pre @ [m]) k" if "k \<in> set stack" for k
      using attached_snoc 2(3,4) that by auto
    ultimately have att: "\<forall>k \<in> set (?kids @ stack). attached children (pre @ [m]) k" by auto
    have "sorted_wrt (\<lambda>n m. ns_depth m \<le> ns_depth n) ?kids"
      using child_nodes_set[of _ children m] by (auto simp: sorted_wrt_iff_nth_less)
    then have srt: "sorted_wrt (\<lambda>n m. ns_depth m \<le> ns_depth n) (?kids @ stack)"
      using 2(4) child_nodes_set[of _ children m] by (fastforce simp: sorted_wrt_append)
    show ?thesis
    proof (cases as)
      case Nil
      then show ?thesis using 2(3,5) False by simp
    next
      case (Cons a as')
      then have "a = m" "traverse_nodes children (?kids @ stack) (insert (ns_children_key m) visited) = as' @ n # bs"
        using 2(5) False by auto
      then show ?thesis using 2(2)[OF False att srt] Cons by simp
    qed
  qed
qed simp


section \<open>Claims\<close>

text \<open>Run 2 reruns run 1; the parent of run 3, run 9, was pruned.\<close>

definition ex_tree_runs :: "run_info list" where
  "ex_tree_runs = [\<lparr>ti_run_id = 1, ti_parent_run_id = None, ti_started_at = 10\<rparr>,
     \<lparr>ti_run_id = 2, ti_parent_run_id = Some 1, ti_started_at = 20\<rparr>,
     \<lparr>ti_run_id = 3, ti_parent_run_id = Some 9, ti_started_at = 30\<rparr>]"

lemma tree_nodes:
  assumes "\<And>A. finite A \<Longrightarrow> set (hash_order A) = A" "runs \<noteq> []"
  shows "\<exists>ns. run_tree_build hash_order runs = map node_item ns \<and>
    distinct (map ns_children_key ns) \<and> set (map ns_children_key ns) = tree_ids runs \<union> missing_parents runs \<and>
    (\<forall>n \<in> set ns. ns_run_id n = (if ns_children_key n \<in> tree_ids runs then Some (ns_children_key n) else None) \<and>
      (ns_depth n = 0 \<longrightarrow> n \<in> root_node ` fst ` set (tree_roots hash_order runs))) \<and>
    (\<forall>as n bs. ns = as @ n # bs \<longrightarrow> attached (fm_children (family_of runs)) as n)"
proof -
  let ?ch = "fm_children (family_of runs)" and ?roots = "tree_roots hash_order runs"
  let ?stack = "map (root_node \<circ> fst) ?roots"
  define ns where "ns = traverse_nodes ?ch ?stack {}"
  note roots = tree_roots_facts[where runs = runs and hash_order = hash_order, OF assms(1)]
  note keys = traverse_keys[of ?ch ?stack "{}", folded ns_def]
  have visited: "\<forall>n \<in> set ns. n \<in> set ?stack \<or> ns_depth n > 0 \<and> ns_run_id n = Some (ns_children_key n) \<and>
      (\<exists>k. ns_children_key n \<in> set (children_list ?ch k))"
    using keys by (elim conjE)
  have stack: "ns_children_key (root_node r) = root_key r" "ns_depth (root_node r) = 0" for r
    by (cases r; simp)+
  have kids: "set (children_list ?ch k) \<subseteq> tree_ids runs" for k by (auto simp: family_facts)
  have root_id: "ns_run_id n = (if ns_children_key n \<in> tree_ids runs then Some (ns_children_key n) else None) \<and>
      ns_children_key n \<in> tree_ids runs \<union> missing_parents runs" if "n \<in> set ?stack" for n
  proof -
    from that obtain r where r: "r \<in> fst ` set ?roots" "n = root_node r" by auto
    show ?thesis
    proof (cases r)
      case (RootReal i)
      then show ?thesis using roots(3)[of i] r by simp
    next
      case (RootVirtual q)
      then have "q \<in> missing_parents runs" using roots(2)[of q] r by simp
      then show ?thesis using RootVirtual r by (auto simp: missing_parents_def)
    qed
  qed
  have node: "ns_run_id n = (if ns_children_key n \<in> tree_ids runs then Some (ns_children_key n) else None) \<and>
      (ns_depth n = 0 \<longrightarrow> n \<in> root_node ` fst ` set ?roots) \<and> ns_children_key n \<in> tree_ids runs \<union> missing_parents runs"
    if mem: "n \<in> set ns" for n
  proof -
    from bspec[OF visited mem] show ?thesis
    proof
      assume "n \<in> set ?stack"
      then show ?thesis using root_id[of n] by auto
    next
      assume "ns_depth n > 0 \<and> ns_run_id n = Some (ns_children_key n) \<and> (\<exists>k. ns_children_key n \<in> set (children_list ?ch k))"
      moreover from this have "ns_children_key n \<in> tree_ids runs" using kids by blast
      ultimately show ?thesis by simp
    qed
  qed
  have "root_key ` fst ` set ?roots \<subseteq> set (map ns_children_key ns)"
    using keys stack(1) by (auto simp: image_image)
  moreover have "closed_under ?ch (set (map ns_children_key ns))"
    using keys by (auto simp: closed_under_def)
  ultimately have "tree_ids runs \<subseteq> set (map ns_children_key ns)"
    using roots(1) closed_below by (meson order_trans)
  moreover have "missing_parents runs \<subseteq> set (map ns_children_key ns)"
  proof
    fix q assume "q \<in> missing_parents runs"
    then have "q \<in> root_key ` fst ` set ?roots" using roots(2)[of q] by force
    then show "q \<in> set (map ns_children_key ns)"
      using \<open>root_key ` fst ` set ?roots \<subseteq> set (map ns_children_key ns)\<close> by blast
  qed
  moreover have "set (map ns_children_key ns) \<subseteq> tree_ids runs \<union> missing_parents runs"
  proof
    fix k assume "k \<in> set (map ns_children_key ns)"
    then obtain n where "n \<in> set ns" "k = ns_children_key n" by auto
    then show "k \<in> tree_ids runs \<union> missing_parents runs" using node[of n] by blast
  qed
  ultimately have "set (map ns_children_key ns) = tree_ids runs \<union> missing_parents runs"
    by blast
  moreover have "attached ?ch as n" if "ns = as @ n # bs" for as n bs
    using traverse_attached[of ?stack ?ch "[]" "{}" as n bs] that stack(2)
    by (auto simp: ns_def attached_def sorted_wrt_iff_nth_less)
  moreover have "run_tree_build hash_order runs = map node_item ns"
    using assms(2) by (simp add: run_tree_build_def build_traversal_def traverse_items ns_def)
  moreover have "distinct (map ns_children_key ns)" using keys by (elim conjE)
  moreover have "\<forall>n \<in> set ns. ns_run_id n = (if ns_children_key n \<in> tree_ids runs then Some (ns_children_key n) else None) \<and>
      (ns_depth n = 0 \<longrightarrow> n \<in> root_node ` fst ` set ?roots)"
  proof
    fix n assume "n \<in> set ns"
    from node[OF this] show "ns_run_id n = (if ns_children_key n \<in> tree_ids runs then Some (ns_children_key n) else None) \<and>
      (ns_depth n = 0 \<longrightarrow> n \<in> root_node ` fst ` set ?roots)" by (elim conjE) (intro conjI)
  qed
  ultimately show ?thesis by (intro exI[of _ ns] conjI allI impI) assumption+
qed

text \<open>
  C15. The list of runs shows every recorded run exactly once, and every pruned parent once, as a virtual
  entry; each entry that is indented stands below its parent: the closest entry above it with a
  smaller depth is its parent, one level up; and an entry that is not indented names no parent, unless
  there is a cycle among its ancestors. So every run that names a parent stands below it where that
  is possible. This holds whatever parents the runs name.
\<close>

theorem run_tree_shows_every_run:
  fixes runs
  assumes "\<And>A. finite A \<Longrightarrow> set (hash_order A) = A"
  defines "items \<equiv> run_tree_build hash_order runs"
  shows "\<exists>keys. distinct keys \<and> set keys = tree_ids runs \<union> missing_parents runs \<and>
    map it_run_id items = map (\<lambda>k. if k \<in> tree_ids runs then Some k else None) keys \<and>
    (\<forall>i < length items. it_depth (items ! i) > 0 \<longrightarrow>
      (\<exists>j < i. it_depth (items ! j) + 1 = it_depth (items ! i) \<and> parent_in runs (keys ! i) (keys ! j) \<and>
        (\<forall>k. j < k \<longrightarrow> k < i \<longrightarrow> it_depth (items ! i) \<le> it_depth (items ! k)))) \<and>
    (\<forall>i < length items. it_depth (items ! i) = 0 \<longrightarrow> (\<exists>q. parent_in runs (keys ! i) q) \<longrightarrow> cyclic_ancestry runs (keys ! i))"
proof (cases "runs = []")
  case True
  then show ?thesis by (auto simp: items_def run_tree_build_def missing_parents_def)
next
  case False
  obtain ns where ns: "items = map node_item ns" "distinct (map ns_children_key ns)"
    "set (map ns_children_key ns) = tree_ids runs \<union> missing_parents runs"
    "\<forall>n \<in> set ns. ns_run_id n = (if ns_children_key n \<in> tree_ids runs then Some (ns_children_key n) else None)"
    and root: "\<forall>n \<in> set ns. ns_depth n = 0 \<longrightarrow> n \<in> root_node ` fst ` set (tree_roots hash_order runs)"
    and att: "\<And>as n bs. ns = as @ n # bs \<Longrightarrow> attached (fm_children (family_of runs)) as n"
    using tree_nodes[OF assms(1) False] unfolding items_def by blast
  have depth: "it_depth (node_item n) = ns_depth n" "it_run_id (node_item n) = ns_run_id n" for n
    by (simp_all add: node_item_def)
  have nest: "\<exists>j < i. ns_depth (ns ! j) + 1 = ns_depth (ns ! i) \<and>
      parent_in runs (ns_children_key (ns ! i)) (ns_children_key (ns ! j)) \<and>
      (\<forall>k. j < k \<longrightarrow> k < i \<longrightarrow> ns_depth (ns ! i) \<le> ns_depth (ns ! k))"
    if i: "i < length ns" "ns_depth (ns ! i) > 0" for i
  proof -
    obtain xs p ys where p: "take i ns = xs @ p # ys" "ns_depth p + 1 = ns_depth (ns ! i)"
      "\<forall>y \<in> set ys. ns_depth (ns ! i) \<le> ns_depth y"
      "ns_children_key (ns ! i) \<in> set (children_list (fm_children (family_of runs)) (ns_children_key p))"
      using att[OF id_take_nth_drop[OF i(1)]] i(2) by (auto simp: attached_def)
    have len: "i = length xs + Suc (length ys)" using arg_cong[OF p(1), of length] i(1) by simp
    have at: "ns ! k = (xs @ p # ys) ! k" if "k < i" for k using p(1) that by (metis nth_take)
    have "ns ! length xs = p" using at[of "length xs"] len by simp
    moreover have "ns ! k \<in> set ys" if "length xs < k" "k < i" for k
      using at[OF that(2)] that len by (auto simp: nth_append nth_Cons split: nat.split)
    ultimately show ?thesis using p len
      by (intro exI[of _ "length xs"]) (auto simp: family_facts parent_in_def)
  qed
  have "\<exists>j < i. it_depth (items ! j) + 1 = it_depth (items ! i) \<and>
      parent_in runs (map ns_children_key ns ! i) (map ns_children_key ns ! j) \<and>
      (\<forall>k. j < k \<longrightarrow> k < i \<longrightarrow> it_depth (items ! i) \<le> it_depth (items ! k))"
    if i: "i < length items" "it_depth (items ! i) > 0" for i
  proof -
    have len: "i < length ns" using i(1) ns(1) by simp
    have item: "it_depth (items ! k) = ns_depth (ns ! k)" "map ns_children_key ns ! k = ns_children_key (ns ! k)"
      if "k \<le> i" for k using that len depth by (simp_all add: ns(1))
    have "ns_depth (ns ! i) > 0" using i(2) item(1)[of i] by simp
    from nest[OF len this] obtain j where j: "j < i" "ns_depth (ns ! j) + 1 = ns_depth (ns ! i)"
      "parent_in runs (ns_children_key (ns ! i)) (ns_children_key (ns ! j))"
      "\<forall>k. j < k \<longrightarrow> k < i \<longrightarrow> ns_depth (ns ! i) \<le> ns_depth (ns ! k)" by (elim exE conjE)
    show ?thesis
    proof (intro exI[of _ j] conjI allI impI)
      show "it_depth (items ! i) \<le> it_depth (items ! k)" if "j < k" "k < i" for k
        using j(4) that item(1)[of i] item(1)[of k] by simp
    qed (use j(1-3) item[of i] item[of j] in simp_all)
  qed
  moreover have "map it_run_id items = map (\<lambda>k. if k \<in> tree_ids runs then Some k else None) (map ns_children_key ns)"
    using ns(1,4) depth by simp
  moreover have "cyclic_ancestry runs (map ns_children_key ns ! i)"
    if i: "i < length items" "it_depth (items ! i) = 0" "parent_in runs (map ns_children_key ns ! i) q" for i q
  proof -
    let ?n = "ns ! i"
    have n: "?n \<in> set ns" "ns_depth ?n = 0" "parent_in runs (ns_children_key ?n) q"
      using i by (simp_all add: ns(1) depth)
    have "ns_children_key ?n \<in> tree_ids runs" using n(3) by (force simp: parent_in_def)
    then have "ns_run_id ?n = Some (ns_children_key ?n)" using bspec[OF ns(4) n(1)] by simp
    moreover obtain r where r: "r \<in> fst ` set (tree_roots hash_order runs)" "?n = root_node r"
      using bspec[OF root n(1)] n(2) by (auto simp del: split_paired_Ex)
    ultimately have "r = RootReal (ns_children_key ?n)" by (cases r) auto
    then show ?thesis
      using tree_roots_facts(4)[OF assms(1), of "ns_children_key ?n" runs q] r(1) n(3) i(1) by (simp add: ns(1))
  qed
  ultimately show ?thesis using ns(2,3) by (intro exI[of _ "map ns_children_key ns"]) blast
qed

theorem run_tree_shows_every_run_witness:
  "\<exists>keys. distinct keys \<and> set keys = {1, 2, 3, 9} \<and>
    (let items = run_tree_build sorted_list_of_set ex_tree_runs
     in map it_run_id items = map (\<lambda>k. if k \<in> {1, 2, 3} then Some k else None) keys \<and>
       (\<forall>i < length items. keys ! i \<in> {2, 3} \<longrightarrow> it_depth (items ! i) > 0))"
proof -
  have ids: "tree_ids ex_tree_runs = {1, 2, 3}" "missing_parents ex_tree_runs = {9}"
    by (auto simp: ex_tree_runs_def missing_parents_def)
  have edges: "{(q, i). parent_in ex_tree_runs i q} = {(1, 2), (9, 3)}"
    by (auto simp: parent_in_def ex_tree_runs_def)
  moreover have "acyclic {(1 :: run_id, 2 :: run_id), (9, 3)}"
    by (simp add: acyclic_insert rtrancl_insert acyclic_def[of "{}"])
  ultimately have "\<not> cyclic_ancestry ex_tree_runs i" for i by (simp add: cyclic_ancestry_def acyclic_def)
  moreover have "parent_in ex_tree_runs 2 1" "parent_in ex_tree_runs 3 9" using edges by blast+
  moreover obtain keys where keys: "distinct keys" "set keys = {1, 2, 3, 9}"
    "map it_run_id (run_tree_build sorted_list_of_set ex_tree_runs) = map (\<lambda>k. if k \<in> {1, 2, 3} then Some k else None) keys"
    "\<forall>i < length (run_tree_build sorted_list_of_set ex_tree_runs).
      it_depth (run_tree_build sorted_list_of_set ex_tree_runs ! i) = 0 \<longrightarrow> (\<exists>q. parent_in ex_tree_runs (keys ! i) q) \<longrightarrow>
      cyclic_ancestry ex_tree_runs (keys ! i)"
    using run_tree_shows_every_run[of sorted_list_of_set ex_tree_runs] unfolding ids by (auto simp: insert_commute)
  ultimately have "\<forall>i < length (run_tree_build sorted_list_of_set ex_tree_runs). keys ! i \<in> {2, 3} \<longrightarrow>
      it_depth (run_tree_build sorted_list_of_set ex_tree_runs ! i) > 0" by (metis empty_iff gr0I insert_iff)
  then show ?thesis using keys(1-3) by (intro exI[of _ keys]) (simp add: Let_def)
qed

end
