(* ===== verification/Config_Inherit.thy ===== *)
theory Config_Inherit
  imports Config_Profile
begin

text \<open>
  Inheritance of profiles: what the validation rejects, and that it is exactly what would keep the
  chain of ancestors of some profile from being resolved.
\<close>

section \<open>The chain of ancestors\<close>

text \<open>What a hash map without the default profile gives: distinct names, none of them \<open>default\<close>.\<close>

definition profiles_wf :: "profiles_config \<Rightarrow> bool" where
  "profiles_wf c \<longleftrightarrow> distinct (map fst (pc_other_profiles c)) \<and> DEFAULT_PROFILE \<notin> fst ` set (pc_other_profiles c)"

definition profile_exists :: "profiles_config \<Rightarrow> profile_name \<Rightarrow> bool" where
  "profile_exists c name \<longleftrightarrow> name = DEFAULT_PROFILE \<or> name \<in> fst ` set (pc_other_profiles c)"

text \<open>The ancestors from \<open>cur\<close> on, each the profile the one before inherits from, up to the default profile.\<close>

fun inherits_path :: "profiles_config \<Rightarrow> profile_name option \<Rightarrow> (profile_name \<times> custom_profile) list \<Rightarrow> bool" where
  "inherits_path c cur [] \<longleftrightarrow> cur = None \<or> cur = Some DEFAULT_PROFILE"
| "inherits_path c cur ((n, p) # rest) \<longleftrightarrow>
     cur = Some n \<and> get_profile c n = Inr (Some p) \<and> inherits_path c (cp_inherits p) rest"

lemma get_profile_cases:
  obtains (Default) "name = DEFAULT_PROFILE" "get_profile c name = Inr None"
  | (Custom) p where "name \<noteq> DEFAULT_PROFILE" "map_of (pc_other_profiles c) name = Some p"
      "get_profile c name = Inr (Some p)"
  | (Missing) "\<not> profile_exists c name" "get_profile c name = Inl (profile_not_found_new name (all_profiles c))"
  by (cases "map_of (pc_other_profiles c) name")
    (auto simp: get_profile_def profile_exists_def map_of_eq_None_iff split: if_splits)

lemma get_profile_exists: "isl (get_profile c name) \<longleftrightarrow> \<not> profile_exists c name"
  by (rule get_profile_cases [of name c]) (auto simp: profile_exists_def dest: map_of_SomeD intro: rev_image_eqI)

lemma get_profile_Some_iff:
  "get_profile c n = Inr (Some p) \<longleftrightarrow> n \<noteq> DEFAULT_PROFILE \<and> map_of (pc_other_profiles c) n = Some p"
  by (rule get_profile_cases [of n c]) (auto simp: profile_exists_def dest!: map_of_SomeD intro: rev_image_eqI)

lemma inherits_path_unique:
  "inherits_path c cur ch1 \<Longrightarrow> inherits_path c cur ch2 \<Longrightarrow> ch1 = ch2"
proof (induction ch1 arbitrary: cur ch2)
  case Nil
  then show ?case by (cases ch2) (auto simp: get_profile_def)
next
  case (Cons np ch1)
  then show ?case by (cases np; cases ch2) (auto simp: get_profile_def split: if_splits)
qed

lemma chain_loop_path:
  assumes ret: "chain_loop c cur chain = Some (Inr r)"
  shows "\<exists>ch. r = chain @ ch \<and> inherits_path c cur ch"
proof -
  have "\<forall>r. res = Inr r \<longrightarrow> (\<exists>ch. r = chain @ ch \<and> inherits_path c cur ch)"
    if res: "chain_loop c cur chain = Some res" for res
  proof (rule chain_loop.raw_induct [where P = "\<lambda>c cur chain res. \<forall>r.
      res = Inr r \<longrightarrow> (\<exists>ch. r = chain @ ch \<and> inherits_path c cur ch)", OF _ res], intro allI impI)
    fix f c cur chain res r
    assume IH: "\<And>c cur chain res. f c cur chain = Some res \<Longrightarrow> \<forall>r.
        res = Inr r \<longrightarrow> (\<exists>ch. r = chain @ ch \<and> inherits_path c cur ch)"
      and eq: "(case cur of None \<Rightarrow> Some (Inr chain)
         | Some name \<Rightarrow> (case get_profile c name of Inl e \<Rightarrow> Some (Inl e)
           | Inr None \<Rightarrow> Some (Inr chain)
           | Inr (Some p) \<Rightarrow> f c (cp_inherits p) (chain @ [(name, p)]))) = Some res"
      and r: "res = Inr r"
    show "\<exists>ch. r = chain @ ch \<and> inherits_path c cur ch"
    proof (cases cur)
      case None
      then show ?thesis using eq r by simp
    next
      case (Some name)
      show ?thesis
      proof (cases rule: get_profile_cases [of name c])
        case (Custom p)
        then have "f c (cp_inherits p) (chain @ [(name, p)]) = Some res" using eq Some by simp
        from IH [OF this] r obtain ch where "r = (chain @ [(name, p)]) @ ch" "inherits_path c (cp_inherits p) ch"
          by auto
        then show ?thesis using Custom Some by (intro exI [of _ "(name, p) # ch"]) simp
      qed (use eq r Some in auto)
    qed
  qed
  then show ?thesis using ret by simp
qed

text \<open>The relation from a profile to the one it inherits from.\<close>

definition inherits_rel :: "profiles_config \<Rightarrow> (profile_name \<times> profile_name) set" where
  "inherits_rel c = {(n, i). \<exists>p. get_profile c n = Inr (Some p) \<and> cp_inherits p = Some i}"

lemma finite_inherits_rel: "finite (inherits_rel c)"
proof -
  have "inherits_rel c \<subseteq> (\<lambda>(n, p). (n, the (cp_inherits p))) ` set (pc_other_profiles c)"
    by (force simp: inherits_rel_def get_profile_Some_iff dest: map_of_SomeD)
  then show ?thesis by (rule finite_subset) simp
qed

lemma chain_loop_ends:
  assumes wf: "wf ((inherits_rel c)\<inverse>)"
    and known: "\<And>n i. (n, i) \<in> inherits_rel c \<Longrightarrow> profile_exists c i"
    and cur: "\<And>n. cur = Some n \<Longrightarrow> profile_exists c n"
  shows "\<exists>ch. chain_loop c cur chain = Some (Inr (chain @ ch)) \<and> inherits_path c cur ch"
proof (cases cur)
  case None
  then show ?thesis by (simp add: chain_loop.simps)
next
  case (Some n)
  have "\<exists>ch. chain_loop c (Some n) chain = Some (Inr (chain @ ch)) \<and> inherits_path c (Some n) ch"
    using wf cur [OF Some]
  proof (induction n arbitrary: chain rule: wf_induct_rule)
    case (less n)
    show ?case
    proof (cases rule: get_profile_cases [of n c])
      case (Custom p)
      show ?thesis
      proof (cases "cp_inherits p")
        case None
        then show ?thesis using Custom by (intro exI [of _ "[(n, p)]"]) (simp add: chain_loop.simps)
      next
        case (Some i)
        then have "(n, i) \<in> inherits_rel c" using Custom by (simp add: inherits_rel_def)
        with less known obtain ch where "chain_loop c (Some i) (chain @ [(n, p)]) = Some (Inr ((chain @ [(n, p)]) @ ch))"
          "inherits_path c (Some i) ch" by blast
        then show ?thesis using Custom Some by (intro exI [of _ "(n, p) # ch"]) (simp add: chain_loop.simps [of c "Some n"])
      qed
    next
      case Missing
      then show ?thesis using less by simp
    qed (simp add: chain_loop.simps)
  qed
  then show ?thesis using Some by simp
qed



section \<open>The graph and the errors\<close>

text \<open>The edge and the errors that one profile contributes.\<close>

definition profile_edges :: "profiles_config \<Rightarrow> profile_name \<times> custom_profile \<Rightarrow> (profile_name \<times> profile_name) list" where
  "profile_edges c = (\<lambda>(name, p). if starts_with_default name then [] else case cp_inherits p of
       None \<Rightarrow> []
     | Some i \<Rightarrow> if i \<noteq> name \<and> profile_exists c i then [(name, i)] else [])"

definition profile_errors ::
  "profiles_config \<Rightarrow> profile_name set \<Rightarrow> profile_name \<times> custom_profile \<Rightarrow> inherits_error list" where
  "profile_errors c known = (\<lambda>(name, p). case cp_inherits p of
       None \<Rightarrow> []
     | Some i \<Rightarrow>
         if starts_with_default name then [DefaultProfileInheritance name]
         else if i = name then [SelfReferentialInheritance name]
         else if profile_exists c i \<or> i \<in> known then [] else [UnknownInheritance name i])"

definition graph_wf :: "profile_graph \<Rightarrow> bool" where
  "graph_wf g \<longleftrightarrow> distinct (gr_nodes g) \<and> set (gr_edges g) \<subseteq> set (gr_nodes g) \<times> set (gr_nodes g)"

text \<open>
  \<open>kosaraju_scc\<close> partitions the nodes into the classes of nodes that reach each other.
\<close>

definition mutually_reachable :: "profile_graph \<Rightarrow> profile_name \<Rightarrow> profile_name \<Rightarrow> bool" where
  "mutually_reachable g a b \<longleftrightarrow> (a, b) \<in> (set (gr_edges g))\<^sup>* \<and> (b, a) \<in> (set (gr_edges g))\<^sup>*"

definition scc_ok :: "scc_function \<Rightarrow> bool" where
  "scc_ok f \<longleftrightarrow> (\<forall>g. graph_wf g \<longrightarrow>
     distinct (concat (f g)) \<and> set (concat (f g)) = set (gr_nodes g) \<and>
     (\<forall>comp \<in> set (f g). \<forall>a \<in> set comp. set comp = {b \<in> set (gr_nodes g). mutually_reachable g a b}))"

lemma add_node_wf: "graph_wf g \<Longrightarrow> graph_wf (add_node n g) \<and> n \<in> set (gr_nodes (add_node n g))
   \<and> set (gr_nodes g) \<subseteq> set (gr_nodes (add_node n g)) \<and> gr_edges (add_node n g) = gr_edges g"
  by (auto simp: graph_wf_def add_node_def)

lemma sanitize_custom_profile_eq:
  assumes "graph_wf g"
  obtains g' where "sanitize_custom_profile c known np (g, errs) = (g', errs @ profile_errors c known np)"
    "graph_wf g'" "gr_edges g' = gr_edges g @ profile_edges c np"
proof -
  obtain name p where np: "np = (name, p)" by (cases np)
  define g' where "g' = fst (sanitize_custom_profile c known np (g, errs))"
  have "graph_wf (add_edge name i (add_node i (add_node name g)))" for i
    using assms by (auto simp: graph_wf_def add_edge_def add_node_def)
  then have "graph_wf g'" "gr_edges g' = gr_edges g @ profile_edges c np"
    using assms add_node_wf
    by (auto simp: g'_def np sanitize_custom_profile_def sanitize_custom_default_profile_inherits_def
        add_profile_to_graph_def profile_edges_def get_profile_exists add_edge_def Let_def split: option.splits)
  moreover have "sanitize_custom_profile c known np (g, errs) = (g', errs @ profile_errors c known np)"
    by (auto simp: g'_def np sanitize_custom_profile_def sanitize_custom_default_profile_inherits_def
        add_profile_to_graph_def profile_errors_def get_profile_exists Let_def split: option.splits)
  ultimately show thesis by (rule that [rotated 1])
qed

lemma sanitize_fold_eq:
  assumes "graph_wf g"
  shows "\<exists>g'. fold (sanitize_custom_profile c known) nps (g, errs) = (g', errs @ concat (map (profile_errors c known) nps))
     \<and> graph_wf g' \<and> gr_edges g' = gr_edges g @ concat (map (profile_edges c) nps)"
  using assms
proof (induction nps arbitrary: g errs)
  case (Cons np nps)
  from sanitize_custom_profile_eq [OF Cons.prems] obtain g1 where
    "sanitize_custom_profile c known np (g, errs) = (g1, errs @ profile_errors c known np)"
    "graph_wf g1" "gr_edges g1 = gr_edges g @ profile_edges c np" .
  then show ?case using Cons.IH [of g1 "errs @ profile_errors c known np"] by simp
qed simp

definition cycles_of :: "scc_function \<Rightarrow> profile_graph \<Rightarrow> inherits_error list" where
  "cycles_of scc g = check_inheritance_cycles scc g []"

text \<open>All errors, in the order they are reported.\<close>

lemma sanitize_errors:
  obtains g where "graph_wf g" "gr_edges g = concat (map (profile_edges c) (pc_other_profiles c))"
    "sanitize_profile_inherits scc c known =
      (let errs = (if dp_inherits (pc_default_profile c) \<noteq> None then [DefaultProfileInheritance DEFAULT_PROFILE] else [])
                  @ concat (map (profile_errors c known) (pc_other_profiles c)) @ cycles_of scc g
       in if errs \<noteq> [] then Inl errs else Inr ())"
proof -
  have "graph_wf \<lparr>gr_nodes = [], gr_edges = []\<rparr>" by (simp add: graph_wf_def)
  from sanitize_fold_eq [OF this, of c known "pc_other_profiles c" "sanitize_default_profile_inherits c []"]
  obtain g where g: "fold (sanitize_custom_profile c known) (pc_other_profiles c)
      (\<lparr>gr_nodes = [], gr_edges = []\<rparr>, sanitize_default_profile_inherits c []) =
      (g, sanitize_default_profile_inherits c [] @ concat (map (profile_errors c known) (pc_other_profiles c)))"
    "graph_wf g" "gr_edges g = concat (map (profile_edges c) (pc_other_profiles c))" by auto
  show thesis
    by (rule that [OF g(2,3)])
      (unfold sanitize_profile_inherits_def sanitize_custom_profile_inherits_def g(1),
        simp add: cycles_of_def check_inheritance_cycles_def sanitize_default_profile_inherits_def Let_def)
qed

text \<open>There is an error for a cycle exactly if two different profiles reach each other.\<close>

lemma no_cycles_iff:
  assumes scc: "scc_ok f" and g: "graph_wf g"
  shows "cycles_of f g = [] \<longleftrightarrow> (\<forall>a b. mutually_reachable g a b \<longrightarrow> a = b)"
proof -
  have part: "distinct (concat (f g))" "set (concat (f g)) = set (gr_nodes g)"
    "\<And>comp a. comp \<in> set (f g) \<Longrightarrow> a \<in> set comp \<Longrightarrow> set comp = {b \<in> set (gr_nodes g). mutually_reachable g a b}"
    using scc g unfolding scc_ok_def by blast+
  have nodes: "a \<in> set (gr_nodes g) \<and> b \<in> set (gr_nodes g)" if "(a, b) \<in> (set (gr_edges g))\<^sup>*" "a \<noteq> b" for a b
  proof -
    from that have "(a, b) \<in> (set (gr_edges g))\<^sup>+" by (simp add: rtrancl_eq_or_trancl)
    then show ?thesis using g trancl_subset_Sigma [of "set (gr_edges g)" "set (gr_nodes g)"]
      by (auto simp: graph_wf_def)
  qed
  have "(\<exists>comp \<in> set (f g). 2 \<le> length comp) \<longleftrightarrow> (\<exists>a b. mutually_reachable g a b \<and> a \<noteq> b)"
  proof
    assume "\<exists>comp \<in> set (f g). 2 \<le> length comp"
    then obtain comp where comp: "comp \<in> set (f g)" "2 \<le> length comp" by auto
    from comp(2) obtain a b rest where ab: "comp = a # b # rest"
      by (auto simp: numeral_2_eq_2 Suc_le_length_iff)
    have "distinct comp" using part(1) comp(1) by (simp add: distinct_concat_iff)
    then show "\<exists>a b. mutually_reachable g a b \<and> a \<noteq> b" using part(3) [OF comp(1), of a] ab by auto
  next
    assume "\<exists>a b. mutually_reachable g a b \<and> a \<noteq> b"
    then obtain a b where ab: "mutually_reachable g a b" "a \<noteq> b" by auto
    then have "a \<in> set (gr_nodes g)" "b \<in> set (gr_nodes g)" using nodes by (auto simp: mutually_reachable_def)
    then obtain comp where comp: "comp \<in> set (f g)" "a \<in> set comp" using part(2) by auto
    then have "b \<in> set comp" using part(3) ab \<open>b \<in> set (gr_nodes g)\<close> by auto
    then have "card {a, b} \<le> card (set comp)" using comp(2) by (intro card_mono) auto
    then have "2 \<le> length comp" using ab(2) card_length [of comp] by simp
    then show "\<exists>comp \<in> set (f g). 2 \<le> length comp" using comp(1) by blast
  qed
  then show ?thesis by (auto simp: cycles_of_def check_inheritance_cycles_def Let_def filter_empty_conv)
qed

lemma acyclic_iff_mutual:
  assumes "\<And>a. (a, a) \<notin> set (gr_edges g)"
  shows "acyclic (set (gr_edges g)) \<longleftrightarrow> (\<forall>a b. mutually_reachable g a b \<longrightarrow> a = b)"
proof
  assume "acyclic (set (gr_edges g))"
  then show "\<forall>a b. mutually_reachable g a b \<longrightarrow> a = b"
    using acyclic_impl_antisym_rtrancl by (auto simp: mutually_reachable_def antisym_def)
next
  assume anti: "\<forall>a b. mutually_reachable g a b \<longrightarrow> a = b"
  show "acyclic (set (gr_edges g))"
  proof (rule acyclicI, rule allI, rule notI)
    fix a assume "(a, a) \<in> (set (gr_edges g))\<^sup>+"
    then obtain b where "(a, b) \<in> set (gr_edges g)" "(b, a) \<in> (set (gr_edges g))\<^sup>*"
      by (meson tranclD)
    moreover from this have "a = b" using anti by (auto simp: mutually_reachable_def)
    ultimately show False using assms by auto
  qed
qed


section \<open>What the validation accepts\<close>

text \<open>Every profile has a chain of ancestors, and no default profile inherits.\<close>

definition defaults_inherit_nothing :: "profiles_config \<Rightarrow> bool" where
  "defaults_inherit_nothing c \<longleftrightarrow> dp_inherits (pc_default_profile c) = None \<and>
     (\<forall>(name, p) \<in> set (pc_other_profiles c). starts_with_default name \<longrightarrow> cp_inherits p = None)"

lemma get_profile_mem:
  assumes "profiles_wf c"
  shows "get_profile c n = Inr (Some p) \<longleftrightarrow> (n, p) \<in> set (pc_other_profiles c)"
  using assms by (force simp: get_profile_Some_iff profiles_wf_def)

lemma inherits_rel_mem:
  "profiles_wf c \<Longrightarrow> inherits_rel c = {(n, i). \<exists>p. (n, p) \<in> set (pc_other_profiles c) \<and> cp_inherits p = Some i}"
  by (simp add: inherits_rel_def get_profile_mem)

lemma profile_errors_eq_Nil:
  "profile_errors c known (n, p) = [] \<longleftrightarrow> (starts_with_default n \<longrightarrow> cp_inherits p = None) \<and>
     (\<forall>i. cp_inherits p = Some i \<longrightarrow> n \<noteq> i \<and> (profile_exists c i \<or> i \<in> known))"
  by (auto simp: profile_errors_def split: option.split)

lemma profile_errors_Nil:
  assumes "profiles_wf c"
  shows "concat (map (profile_errors c known) (pc_other_profiles c)) = [] \<longleftrightarrow>
     (\<forall>(n, p) \<in> set (pc_other_profiles c). starts_with_default n \<longrightarrow> cp_inherits p = None) \<and>
     (\<forall>(n, i) \<in> inherits_rel c. n \<noteq> i \<and> (profile_exists c i \<or> i \<in> known))"
proof -
  have "concat (map (profile_errors c known) (pc_other_profiles c)) = [] \<longleftrightarrow>
      (\<forall>(n, p) \<in> set (pc_other_profiles c). profile_errors c known (n, p) = [])" by auto
  then show ?thesis unfolding profile_errors_eq_Nil inherits_rel_mem [OF assms] by blast
qed

lemma profile_edges_rel:
  assumes "profiles_wf c" "concat (map (profile_errors c {}) (pc_other_profiles c)) = []"
  shows "set (concat (map (profile_edges c) (pc_other_profiles c))) = inherits_rel c"
proof -
  have "set (profile_edges c (n, p)) = {n} \<times> set_option (cp_inherits p)" if "(n, p) \<in> set (pc_other_profiles c)" for n p
    using assms(2) that profile_errors_eq_Nil [of c "{}" n p]
    by (auto simp: profile_edges_def split: option.splits)
  then have "set (concat (map (profile_edges c) (pc_other_profiles c))) =
      (\<Union>(n, p) \<in> set (pc_other_profiles c). {n} \<times> set_option (cp_inherits p))" by auto
  then show ?thesis unfolding inherits_rel_mem [OF assms(1)] by force
qed

lemma sanitize_ok_iff:
  assumes "scc_ok scc" "profiles_wf c"
  shows "sanitize_profile_inherits scc c {} = Inr () \<longleftrightarrow>
     defaults_inherit_nothing c \<and> acyclic (inherits_rel c) \<and> (\<forall>(n, i) \<in> inherits_rel c. profile_exists c i)"
proof -
  obtain g where g: "graph_wf g" "gr_edges g = concat (map (profile_edges c) (pc_other_profiles c))"
    "sanitize_profile_inherits scc c {} =
      (let errs = (if dp_inherits (pc_default_profile c) \<noteq> None then [DefaultProfileInheritance DEFAULT_PROFILE] else [])
                  @ concat (map (profile_errors c {}) (pc_other_profiles c)) @ cycles_of scc g
       in if errs \<noteq> [] then Inl errs else Inr ())"
    by (rule sanitize_errors)
  have irrefl: "(a, a) \<notin> set (gr_edges g)" for a
    by (auto simp: g(2) profile_edges_def split: option.splits if_splits)
  have ok: "sanitize_profile_inherits scc c {} = Inr () \<longleftrightarrow> dp_inherits (pc_default_profile c) = None \<and>
      concat (map (profile_errors c {}) (pc_other_profiles c)) = [] \<and> acyclic (set (gr_edges g))"
    unfolding acyclic_iff_mutual [OF irrefl] no_cycles_iff [OF assms(1) g(1), symmetric]
    by (auto simp: g(3) Let_def)
  have "n \<noteq> i" if "acyclic (inherits_rel c)" "(n, i) \<in> inherits_rel c" for n i
    using that by (auto simp: acyclic_def)
  then show ?thesis
    using profile_edges_rel [OF assms(2), folded g(2)]
    unfolding ok defaults_inherit_nothing_def profile_errors_Nil [OF assms(2)]
    by (smt (verit) case_prodI2 case_prod_conv empty_iff)
qed

lemma acyclic_resolves:
  assumes "acyclic (inherits_rel c)" "\<forall>(n, i) \<in> inherits_rel c. profile_exists c i" "profile_exists c n"
  shows "\<exists>ch. resolve_inheritance_chain c n = Some (Inr ch) \<and>
     (case get_profile c n of Inr (Some p) \<Rightarrow> inherits_path c (cp_inherits p) ch | _ \<Rightarrow> ch = [])"
proof -
  have wf: "wf ((inherits_rel c)\<inverse>)"
    using finite_inherits_rel assms(1) by (rule finite_acyclic_wf_converse)
  show ?thesis
  proof (cases rule: get_profile_cases [of n c])
    case (Custom p)
    have "profile_exists c i" if "cp_inherits p = Some i" for i
      using assms(2) Custom that by (fastforce simp: inherits_rel_def)
    then have "\<exists>ch. chain_loop c (cp_inherits p) [] = Some (Inr ([] @ ch)) \<and> inherits_path c (cp_inherits p) ch"
      by (rule chain_loop_ends [OF wf, rotated 1]) (use assms(2) in auto)
    then show ?thesis using Custom by (auto simp: resolve_inheritance_chain_def)
  next
    case Missing
    then show ?thesis using assms(3) by simp
  qed (simp add: resolve_inheritance_chain_def chain_loop.simps)
qed

text \<open>The ranks: the lengths of the chains, which decrease along the relation.\<close>

lemma resolves_acyclic:
  assumes "\<And>n. profile_exists c n \<Longrightarrow> \<exists>ch. resolve_inheritance_chain c n = Some (Inr ch)"
  shows "acyclic (inherits_rel c) \<and> (\<forall>(n, i) \<in> inherits_rel c. profile_exists c i)"
proof -
  define rank where "rank n = length (THE ch. inherits_path c (Some n) ch)" for n
  have rank: "rank n = length ch" if "inherits_path c (Some n) ch" for n ch
    using that inherits_path_unique unfolding rank_def by (metis the_equality)
  have step: "rank i < rank n \<and> profile_exists c i" if edge: "(n, i) \<in> inherits_rel c" for n i
  proof -
    obtain p where p: "get_profile c n = Inr (Some p)" "cp_inherits p = Some i"
      using edge by (auto simp: inherits_rel_def)
    then have "profile_exists c n" using get_profile_exists [of c n] by simp
    then obtain ch where "resolve_inheritance_chain c n = Some (Inr ch)" using assms by blast
    then have ch: "inherits_path c (Some i) ch"
      using chain_loop_path [of c "Some i" "[]" ch] p by (simp add: resolve_inheritance_chain_def)
    then have "inherits_path c (Some n) ((n, p) # ch)" using p by simp
    from rank [OF this] rank [OF ch] have "rank i < rank n" by simp
    moreover have "profile_exists c i"
      using ch get_profile_exists [of c i] by (cases ch) (auto simp: profile_exists_def)
    ultimately show ?thesis by simp
  qed
  have "(inherits_rel c)\<inverse> \<subseteq> measure rank" using step by auto
  then have "wf ((inherits_rel c)\<inverse>)" using wf_measure wf_subset by blast
  then have "acyclic (inherits_rel c)" using wf_acyclic acyclic_converse by blast
  then show ?thesis using step by auto
qed

end
