(* ===== verification/Config_Settings.thy ===== *)
theory Config_Settings
  imports Config_Override Test_Filter
begin

text \<open>
  What a profile means for a test (\<open>config/core/imp.rs\<close>, \<open>config/overrides/imp.rs\<close>,
  \<open>config/overrides/group_membership.rs\<close>, \<open>config/scripts/imp.rs\<close>): the settings of the profile and
  its ancestors, the settings of a single test after the overrides, the wrapper script for listing a
  binary, test groups, and the setup scripts that the selected tests need.

  A filter is evaluated with the fuel of \<open>Filterset_Expr\<close>.
\<close>

section \<open>Evaluatable profiles\<close>

datatype script_command_relative_to = RelativeToNothing | RelativeToTargetDir | RelativeToWorkspaceRoot

record script_command =
  scmd_program :: string
  scmd_args :: "string list"
  scmd_env :: "(string \<times> string) list"
  scmd_relative_to :: script_command_relative_to

datatype wrapper_target_runner = RunnerIgnore | OverridesWrapper | WithinWrapper | AroundWrapper

record wrapper_script_config =
  wsc_command :: script_command
  wsc_target_runner :: wrapper_target_runner

record setup_script_config =
  ssc_command :: script_command
  ssc_slow_timeout :: "setup_script_slow_timeout option"
  ssc_leak_timeout :: "leak_timeout option"
  ssc_capture_stdout :: bool
  ssc_capture_stderr :: bool
  ssc_junit_store_success_output :: bool
  ssc_junit_store_failure_output :: bool

text \<open>Index maps, in the order of their keys.\<close>

record script_config =
  sc_setup :: "(config_script_id \<times> setup_script_config) list"
  sc_wrapper :: "(config_script_id \<times> wrapper_script_config) list"

record test_group_config =
  tgc_max_threads :: test_threads

record early_profile =
  ea_name :: profile_name
  ea_store_dir :: string
  ea_default_profile :: default_profile
  ea_custom_profile :: "custom_profile option"
  ea_inheritance_chain :: "custom_profile list"
  ea_test_groups :: "config_identifier \<rightharpoonup> test_group_config"
  ea_scripts :: script_config
  ea_compiled_data :: "unit compiled_data"

record evaluatable_profile =
  ep_name :: profile_name
  ep_store_dir :: string
  ep_default_profile :: default_profile
  ep_custom_profile :: "custom_profile option"
  ep_inheritance_chain :: "custom_profile list"
  ep_test_groups :: "config_identifier \<rightharpoonup> test_group_config"
  ep_scripts :: script_config
  ep_compiled_data :: "final_config compiled_data"
  ep_resolved_default_filter :: compiled_default_filter

text \<open>\<open>Iterator::find_map\<close>, and \<open>Option::or\<close>.\<close>

fun find_map :: "('a \<Rightarrow> 'b option) \<Rightarrow> 'a list \<Rightarrow> 'b option" where
  "find_map f [] = None"
| "find_map f (x # xs) = (case f x of Some y \<Rightarrow> Some y | None \<Rightarrow> find_map f xs)"

definition or_else :: "'a option \<Rightarrow> 'a option \<Rightarrow> 'a option" where
  "or_else a b = (case a of Some x \<Rightarrow> Some x | None \<Rightarrow> b)"

definition unwrap_or :: "'a option \<Rightarrow> 'a \<Rightarrow> 'a" where
  "unwrap_or a d = (case a of Some x \<Rightarrow> x | None \<Rightarrow> d)"

definition default_filter_if_matches_platform ::
  "final_config compiled_override \<Rightarrow> compiled_default_filter option" where
  "default_filter_if_matches_platform ov = (case od_filter (co_data ov) of
     Some (OverrideDefaultFilter f) \<Rightarrow>
       if host_eval (co_state ov) \<and> target_eval (co_state ov) then Some f else None
   | _ \<Rightarrow> None)"

definition apply_build_platforms :: "build_platforms \<Rightarrow> early_profile \<Rightarrow> evaluatable_profile outcome" where
  "apply_build_platforms platforms p =
     (let d = data_apply_platforms platforms (ea_compiled_data p)
      in bind_outcome (case find_map default_filter_if_matches_platform (cd_overrides d) of
             Some f \<Rightarrow> Ret f
           | None \<Rightarrow> expect_some (cd_profile_default_filter d)) (\<lambda>f.
         Ret \<lparr>ep_name = ea_name p, ep_store_dir = ea_store_dir p, ep_default_profile = ea_default_profile p,
              ep_custom_profile = ea_custom_profile p, ep_inheritance_chain = ea_inheritance_chain p,
              ep_test_groups = ea_test_groups p, ep_scripts = ea_scripts p, ep_compiled_data = d,
              ep_resolved_default_filter = f\<rparr>))"

definition filterset_ecx :: "config_env \<Rightarrow> evaluatable_profile \<Rightarrow> eval_context" where
  "filterset_ecx env p =
     \<lparr>ec_regex = fe_regex env, ec_default_filter = cdf_expr (ep_resolved_default_filter p)\<rparr>"


section \<open>Settings of a profile\<close>

text \<open>\<open>profile_field!\<close>: the custom profile, then its ancestors, then the default profile.\<close>

definition profile_chain :: "evaluatable_profile \<Rightarrow> custom_profile list" where
  "profile_chain p = (case ep_custom_profile p of Some c \<Rightarrow> [c] | None \<Rightarrow> []) @ ep_inheritance_chain p"

definition profile_field ::
  "(custom_profile \<Rightarrow> 'a option) \<Rightarrow> (default_profile \<Rightarrow> 'a) \<Rightarrow> evaluatable_profile \<Rightarrow> 'a" where
  "profile_field f d p = unwrap_or (find_map f (profile_chain p)) (d (ep_default_profile p))"

definition profile_field_optional ::
  "(custom_profile \<Rightarrow> 'a option) \<Rightarrow> (default_profile \<Rightarrow> 'a option) \<Rightarrow> evaluatable_profile \<Rightarrow> 'a option" where
  "profile_field_optional f d p = or_else (find_map f (profile_chain p)) (d (ep_default_profile p))"

definition profile_retries where "profile_retries = profile_field cp_retries dp_retries"
definition profile_flaky_result where "profile_flaky_result = profile_field cp_flaky_result dp_flaky_result"
definition profile_test_threads where "profile_test_threads = profile_field cp_test_threads dp_test_threads"
definition profile_threads_required where
  "profile_threads_required = profile_field cp_threads_required dp_threads_required"
definition profile_run_extra_args where
  "profile_run_extra_args = profile_field cp_run_extra_args dp_run_extra_args"
definition profile_slow_timeout where
  "profile_slow_timeout run_mode = profile_field (cp_slow_timeout_for run_mode) (dp_slow_timeout_for run_mode)"
definition profile_global_timeout where
  "profile_global_timeout run_mode = profile_field (cp_global_timeout_for run_mode) (dp_global_timeout_for run_mode)"
definition profile_leak_timeout where "profile_leak_timeout = profile_field cp_leak_timeout dp_leak_timeout"
definition profile_status_level where "profile_status_level = profile_field cp_status_level dp_status_level"
definition profile_final_status_level where
  "profile_final_status_level = profile_field cp_final_status_level dp_final_status_level"
definition profile_failure_output where
  "profile_failure_output = profile_field cp_failure_output dp_failure_output"
definition profile_success_output where
  "profile_success_output = profile_field cp_success_output dp_success_output"
definition profile_max_fail where "profile_max_fail = profile_field cp_max_fail dp_max_fail"
definition profile_archive_config where "profile_archive_config = profile_field cp_archive dp_archive"

text \<open>\<open>Utf8Path::join\<close>: an absolute path replaces the base.\<close>

definition path_join :: "string \<Rightarrow> string \<Rightarrow> string" where
  "path_join base rel =
     (if prefix ''/'' rel then rel
      else if base = [] \<or> suffix ''/'' base then base @ rel
      else base @ ''/'' @ rel)"

record junit_config =
  jc_path :: string
  jc_report_name :: string
  jc_store_success_output :: bool
  jc_store_failure_output :: bool
  jc_report_skipped :: report_skip_policy
  jc_flaky_fail_status :: junit_flaky_fail_status

definition profile_junit :: "evaluatable_profile \<Rightarrow> junit_config option" where
  "profile_junit p =
     map_option (\<lambda>path.
       \<lparr>jc_path = path_join (ep_store_dir p) path,
        jc_report_name = profile_field (ji_report_name \<circ> cp_junit) (dj_report_name \<circ> dp_junit) p,
        jc_store_success_output =
          profile_field (ji_store_success_output \<circ> cp_junit) (dj_store_success_output \<circ> dp_junit) p,
        jc_store_failure_output =
          profile_field (ji_store_failure_output \<circ> cp_junit) (dj_store_failure_output \<circ> dp_junit) p,
        jc_report_skipped = profile_field (ji_report_skipped \<circ> cp_junit) (dj_report_skipped \<circ> dp_junit) p,
        jc_flaky_fail_status =
          profile_field (ji_flaky_fail_status \<circ> cp_junit) (dj_flaky_fail_status \<circ> dp_junit) p\<rparr>)
     (profile_field_optional (ji_path \<circ> cp_junit) (dj_path \<circ> dp_junit) p)"


section \<open>Whether overrides and scripts apply\<close>

definition platform_enabled :: "final_config \<Rightarrow> binary_query \<Rightarrow> bool" where
  "platform_enabled st query \<longleftrightarrow>
     host_eval st \<and> \<not> (bq_platform query = Host \<and> \<not> host_test_eval st) \<and>
     \<not> (bq_platform query = Target \<and> \<not> target_eval st)"

definition override_filter :: "'st compiled_override \<Rightarrow> filterset option" where
  "override_filter ov = (case od_filter (co_data ov) of Some (OverrideFilter f) \<Rightarrow> Some f | _ \<Rightarrow> None)"

definition matches_optional ::
  "nat \<Rightarrow> eval_context \<Rightarrow> test_query \<Rightarrow> filterset option \<Rightarrow> bool evaluation" where
  "matches_optional fuel ecx query expr = (case expr of
     Some f \<Rightarrow> matches_test fuel (ec_regex ecx) (ec_default_filter ecx) query (fs_compiled f)
   | None \<Rightarrow> Some (Ret True))"

definition matches_test_query ::
  "nat \<Rightarrow> final_config compiled_override \<Rightarrow> test_query \<Rightarrow> eval_context \<Rightarrow> bool evaluation" where
  "matches_test_query fuel ov query ecx =
     (if \<not> platform_enabled (co_state ov) (binary_query_of query) then Some (Ret False)
      else matches_optional fuel ecx query (override_filter ov))"

definition script_is_enabled ::
  "nat \<Rightarrow> final_config compiled_profile_scripts \<Rightarrow> test_query \<Rightarrow> eval_context \<Rightarrow> bool evaluation" where
  "script_is_enabled fuel s query ecx =
     (if \<not> platform_enabled (cps_state s) (binary_query_of query) then Some (Ret False)
      else matches_optional fuel ecx query (psd_expr (cps_data s)))"

text \<open>The inner option is Kleene's unknown value.\<close>

definition script_is_enabled_binary ::
  "nat \<Rightarrow> final_config compiled_profile_scripts \<Rightarrow> binary_query \<Rightarrow> eval_context \<Rightarrow> bool option option" where
  "script_is_enabled_binary fuel s query ecx =
     (if \<not> platform_enabled (cps_state s) query then Some (Some False)
      else case psd_expr (cps_data s) of
             Some f \<Rightarrow> matches_binary fuel (ec_regex ecx) (ec_default_filter ecx) query (fs_compiled f)
           | None \<Rightarrow> Some (Some True))"


section \<open>Settings of a test\<close>

datatype setting_source =
    SourceDefault
  | SourceProfile
  | SourceOverride "final_config compiled_override"
  | SourceScript "final_config compiled_profile_scripts"

type_synonym 'a setting = "'a \<times> setting_source"

text \<open>The variables of the loop over the overrides.\<close>

record partial_settings =
  pa_priority :: "test_priority setting option"
  pa_threads_required :: "threads_required setting option"
  pa_run_extra_args :: "string list setting option"
  pa_retries :: "retry_policy setting option"
  pa_flaky_result :: "flaky_result setting option"
  pa_slow_timeout :: "slow_timeout setting option"
  pa_leak_timeout :: "leak_timeout setting option"
  pa_test_group :: "test_group setting option"
  pa_success_output :: "test_output_display setting option"
  pa_failure_output :: "test_output_display setting option"
  pa_junit_store_success_output :: "bool setting option"
  pa_junit_store_failure_output :: "bool setting option"
  pa_junit_report_skipped :: "report_skip_policy setting option"
  pa_junit_flaky_fail_status :: "junit_flaky_fail_status setting option"

definition no_settings :: partial_settings where
  "no_settings = \<lparr>pa_priority = None, pa_threads_required = None, pa_run_extra_args = None,
     pa_retries = None, pa_flaky_result = None, pa_slow_timeout = None, pa_leak_timeout = None,
     pa_test_group = None, pa_success_output = None, pa_failure_output = None,
     pa_junit_store_success_output = None, pa_junit_store_failure_output = None,
     pa_junit_report_skipped = None, pa_junit_flaky_fail_status = None\<rparr>"

text \<open>There is no fallback from the bench timeout to the test timeout.\<close>

fun od_timeout_for_mode :: "nextest_run_mode \<Rightarrow> profile_override_data \<Rightarrow> slow_timeout option" where
  "od_timeout_for_mode ModeTest d = od_slow_timeout d"
| "od_timeout_for_mode ModeBenchmark d = od_bench_slow_timeout d"

text \<open>\<open>if x.is_none() \&\& let Some(v) = .. { x = Some(track_override(v)) }\<close>\<close>

definition set_once ::
  "final_config compiled_override \<Rightarrow> (profile_override_data \<Rightarrow> 'a option) \<Rightarrow> 'a setting option
     \<Rightarrow> 'a setting option" where
  "set_once ov field acc =
     (if acc = None then map_option (\<lambda>v. (v, SourceOverride ov)) (field (co_data ov)) else acc)"

definition override_step ::
  "nextest_run_mode \<Rightarrow> final_config compiled_override \<Rightarrow> partial_settings \<Rightarrow> partial_settings" where
  "override_step run_mode ov acc =
     \<lparr>pa_priority = set_once ov od_priority (pa_priority acc),
      pa_threads_required = set_once ov od_threads_required (pa_threads_required acc),
      pa_run_extra_args = set_once ov od_run_extra_args (pa_run_extra_args acc),
      pa_retries = set_once ov od_retries (pa_retries acc),
      pa_flaky_result = set_once ov od_flaky_result (pa_flaky_result acc),
      pa_slow_timeout = set_once ov (od_timeout_for_mode run_mode) (pa_slow_timeout acc),
      pa_leak_timeout = set_once ov od_leak_timeout (pa_leak_timeout acc),
      pa_test_group = set_once ov od_test_group (pa_test_group acc),
      pa_success_output = set_once ov od_success_output (pa_success_output acc),
      pa_failure_output = set_once ov od_failure_output (pa_failure_output acc),
      pa_junit_store_success_output =
        set_once ov (djo_store_success_output \<circ> od_junit) (pa_junit_store_success_output acc),
      pa_junit_store_failure_output =
        set_once ov (djo_store_failure_output \<circ> od_junit) (pa_junit_store_failure_output acc),
      pa_junit_report_skipped = set_once ov (djo_report_skipped \<circ> od_junit) (pa_junit_report_skipped acc),
      pa_junit_flaky_fail_status =
        set_once ov (djo_flaky_fail_status \<circ> od_junit) (pa_junit_flaky_fail_status acc)\<rparr>"

fun override_loop ::
  "nat \<Rightarrow> eval_context \<Rightarrow> nextest_run_mode \<Rightarrow> test_query \<Rightarrow> final_config compiled_override list
     \<Rightarrow> partial_settings \<Rightarrow> partial_settings evaluation" where
  "override_loop fuel ecx run_mode query [] acc = Some (Ret acc)"
| "override_loop fuel ecx run_mode query (ov # ovs) acc =
     bind_eval (matches_test_query fuel ov query ecx) (\<lambda>m.
       override_loop fuel ecx run_mode query ovs (if m then override_step run_mode ov acc else acc))"

fun run_wrapper_loop ::
  "nat \<Rightarrow> eval_context \<Rightarrow> test_query \<Rightarrow> final_config compiled_profile_scripts list
     \<Rightarrow> config_script_id setting option \<Rightarrow> config_script_id setting option evaluation" where
  "run_wrapper_loop fuel ecx query [] acc = Some (Ret acc)"
| "run_wrapper_loop fuel ecx query (s # ss) acc =
     bind_eval (script_is_enabled fuel s query ecx) (\<lambda>m.
       run_wrapper_loop fuel ecx query ss
         (if m \<and> acc = None then map_option (\<lambda>w. (w, SourceScript s)) (cps_run_wrapper s) else acc))"

definition map_wrapper_script ::
  "evaluatable_profile \<Rightarrow> config_script_id \<Rightarrow> wrapper_script_config outcome" where
  "map_wrapper_script p script = expect_some (map_of (sc_wrapper (ep_scripts p)) script)"

record test_settings =
  ts_priority :: "test_priority setting"
  ts_threads_required :: "threads_required setting"
  ts_run_wrapper :: "wrapper_script_config setting option"
  ts_run_extra_args :: "string list setting"
  ts_retries :: "retry_policy setting"
  ts_flaky_result :: "flaky_result setting"
  ts_slow_timeout :: "slow_timeout setting"
  ts_leak_timeout :: "leak_timeout setting"
  ts_test_group :: "test_group setting"
  ts_success_output :: "test_output_display setting"
  ts_failure_output :: "test_output_display setting"
  ts_junit_store_success_output :: "bool setting"
  ts_junit_store_failure_output :: "bool setting"
  ts_junit_report_skipped :: "report_skip_policy setting"
  ts_junit_flaky_fail_status :: "junit_flaky_fail_status setting"

text \<open>The settings once the loops are done: what no override set comes from the profile.\<close>

definition finish_settings ::
  "evaluatable_profile \<Rightarrow> nextest_run_mode \<Rightarrow> partial_settings \<Rightarrow> wrapper_script_config setting option
     \<Rightarrow> test_settings" where
  "finish_settings p run_mode acc run_wrapper =
     \<lparr>ts_priority = unwrap_or (pa_priority acc) (TestPriority 0, SourceDefault),
      ts_threads_required = unwrap_or (pa_threads_required acc) (profile_threads_required p, SourceProfile),
      ts_run_wrapper = run_wrapper,
      ts_run_extra_args = unwrap_or (pa_run_extra_args acc) (profile_run_extra_args p, SourceProfile),
      ts_retries = unwrap_or (pa_retries acc) (profile_retries p, SourceProfile),
      ts_flaky_result = unwrap_or (pa_flaky_result acc) (profile_flaky_result p, SourceProfile),
      ts_slow_timeout = unwrap_or (pa_slow_timeout acc) (profile_slow_timeout run_mode p, SourceProfile),
      ts_leak_timeout = unwrap_or (pa_leak_timeout acc) (profile_leak_timeout p, SourceProfile),
      ts_test_group = unwrap_or (pa_test_group acc) (GlobalGroup, SourceProfile),
      ts_success_output = unwrap_or (pa_success_output acc) (profile_success_output p, SourceProfile),
      ts_failure_output = unwrap_or (pa_failure_output acc) (profile_failure_output p, SourceProfile),
      ts_junit_store_success_output = unwrap_or (pa_junit_store_success_output acc)
        (case profile_junit p of Some j \<Rightarrow> jc_store_success_output j | None \<Rightarrow> False, SourceProfile),
      ts_junit_store_failure_output = unwrap_or (pa_junit_store_failure_output acc)
        (case profile_junit p of Some j \<Rightarrow> jc_store_failure_output j | None \<Rightarrow> False, SourceProfile),
      ts_junit_report_skipped = unwrap_or (pa_junit_report_skipped acc)
        (case profile_junit p of Some j \<Rightarrow> jc_report_skipped j | None \<Rightarrow> ReportNone, SourceProfile),
      ts_junit_flaky_fail_status = unwrap_or (pa_junit_flaky_fail_status acc)
        (case profile_junit p of Some j \<Rightarrow> jc_flaky_fail_status j | None \<Rightarrow> FlakyAsFailure, SourceProfile)\<rparr>"

definition settings_for ::
  "nat \<Rightarrow> config_env \<Rightarrow> evaluatable_profile \<Rightarrow> nextest_run_mode \<Rightarrow> test_query \<Rightarrow> test_settings evaluation" where
  "settings_for fuel env p run_mode query =
     (let ecx = filterset_ecx env p
      in bind_eval (override_loop fuel ecx run_mode query (cd_overrides (ep_compiled_data p)) no_settings) (\<lambda>acc.
         bind_eval (run_wrapper_loop fuel ecx query (cd_scripts (ep_compiled_data p)) None) (\<lambda>wrapper.
         bind_eval (Some (case wrapper of
              None \<Rightarrow> Ret None
            | Some (w, src) \<Rightarrow> bind_outcome (map_wrapper_script p w) (\<lambda>cfg. Ret (Some (cfg, src))))) (\<lambda>run_wrapper.
           Some (Ret (finish_settings p run_mode acc run_wrapper))))))"


section \<open>Settings for listing a binary\<close>

text \<open>\<open>ListSettings::new\<close>: the wrapper is looked up before its filter is evaluated.\<close>

fun list_wrapper_loop ::
  "nat \<Rightarrow> evaluatable_profile \<Rightarrow> eval_context \<Rightarrow> binary_query \<Rightarrow> final_config compiled_profile_scripts list
     \<Rightarrow> wrapper_script_config setting option \<Rightarrow> wrapper_script_config setting option evaluation" where
  "list_wrapper_loop fuel p ecx query [] acc = Some (Ret acc)"
| "list_wrapper_loop fuel p ecx query (s # ss) acc =
     (case cps_list_wrapper s of
        Some wrapper \<Rightarrow>
          if acc = None then
            bind_eval (Some (map_wrapper_script p wrapper)) (\<lambda>cfg.
            bind_eval (map_option expect_some (script_is_enabled_binary fuel s query ecx)) (\<lambda>enabled.
              list_wrapper_loop fuel p ecx query ss (if enabled then Some (cfg, SourceScript s) else acc)))
          else list_wrapper_loop fuel p ecx query ss acc
      | None \<Rightarrow> list_wrapper_loop fuel p ecx query ss acc)"

definition list_settings_for ::
  "nat \<Rightarrow> config_env \<Rightarrow> evaluatable_profile \<Rightarrow> binary_query \<Rightarrow> wrapper_script_config setting option evaluation" where
  "list_settings_for fuel env p query =
     list_wrapper_loop fuel p (filterset_ecx env p) query (cd_scripts (ep_compiled_data p)) None"


section \<open>Test groups\<close>

type_synonym group_membership = "test_instance_id \<rightharpoonup> test_group"

fun precompute_loop ::
  "nat \<Rightarrow> config_env \<Rightarrow> evaluatable_profile \<Rightarrow> test_query list \<Rightarrow> group_membership \<Rightarrow> group_membership evaluation" where
  "precompute_loop fuel env p [] m = Some (Ret m)"
| "precompute_loop fuel env p (test # tests) m =
     bind_eval (settings_for fuel env p ModeTest test) (\<lambda>s.
       let g = fst (ts_test_group s)
       in precompute_loop fuel env p tests
            (if g \<noteq> GlobalGroup
             then m((bq_binary_id (binary_query_of test), tq_test_name test) \<mapsto> g) else m))"

definition precompute_group_memberships ::
  "nat \<Rightarrow> config_env \<Rightarrow> evaluatable_profile \<Rightarrow> test_query list \<Rightarrow> group_membership evaluation" where
  "precompute_group_memberships fuel env p tests = precompute_loop fuel env p tests Map.empty"

definition is_member_test :: "regex_engine \<Rightarrow> group_membership \<Rightarrow> group_lookup" where
  "is_member_test re m test matcher =
     (case m (bq_binary_id (binary_query_of test), tq_test_name test) of
        Some (CustomGroup g) \<Rightarrow> is_match re matcher (ident_str g)
      | _ \<Rightarrow> is_match re matcher GLOBAL_TEST_GROUP)"


section \<open>Setup scripts\<close>

record setup_script =
  ss_id :: config_script_id
  ss_config :: setup_script_config
  ss_compiled :: "final_config compiled_profile_scripts list"

text \<open>\<open>by_script_id\<close>: for every script that is mentioned, the sections that mention it, once per mention.\<close>

definition by_script_id ::
  "final_config compiled_profile_scripts list
     \<Rightarrow> (config_script_id \<rightharpoonup> final_config compiled_profile_scripts list)" where
  "by_script_id profile_scripts =
     fold (\<lambda>s. fold (\<lambda>sid m. m(sid \<mapsto> (case m sid of Some l \<Rightarrow> l | None \<Rightarrow> []) @ [s])) (cps_setup s))
       profile_scripts Map.empty"

fun any_enabled ::
  "nat \<Rightarrow> eval_context \<Rightarrow> test_query \<Rightarrow> final_config compiled_profile_scripts list \<Rightarrow> bool evaluation" where
  "any_enabled fuel ecx query [] = Some (Ret False)"
| "any_enabled fuel ecx query (s # ss) =
     bind_eval (script_is_enabled fuel s query ecx) (\<lambda>m.
       if m then Some (Ret True) else any_enabled fuel ecx query ss)"

text \<open>For one test, the entries of \<open>by_script_id\<close>, in the order of the hash map.\<close>

fun enable_for_test ::
  "nat \<Rightarrow> eval_context \<Rightarrow> test_query \<Rightarrow> (config_script_id \<times> final_config compiled_profile_scripts list) list
     \<Rightarrow> config_script_id set \<Rightarrow> config_script_id set evaluation" where
  "enable_for_test fuel ecx query [] ids = Some (Ret ids)"
| "enable_for_test fuel ecx query ((sid, compiled) # es) ids =
     (if sid \<in> ids then enable_for_test fuel ecx query es ids
      else bind_eval (any_enabled fuel ecx query compiled) (\<lambda>m.
             enable_for_test fuel ecx query es (if m then insert sid ids else ids)))"

fun enable_for_tests ::
  "nat \<Rightarrow> eval_context \<Rightarrow> (config_script_id \<times> final_config compiled_profile_scripts list) list
     \<Rightarrow> test_query list \<Rightarrow> config_script_id set \<Rightarrow> config_script_id set evaluation" where
  "enable_for_tests fuel ecx entries [] ids = Some (Ret ids)"
| "enable_for_tests fuel ecx entries (t # ts) ids =
     bind_eval (enable_for_test fuel ecx t entries ids) (enable_for_tests fuel ecx entries ts)"

fun collect_enabled ::
  "(config_script_id \<rightharpoonup> final_config compiled_profile_scripts list) \<Rightarrow> config_script_id set
     \<Rightarrow> (config_script_id \<times> setup_script_config) list \<Rightarrow> setup_script list outcome" where
  "collect_enabled m ids [] = Ret []"
| "collect_enabled m ids ((sid, config) # cs) =
     (if sid \<in> ids then
        bind_outcome (expect_some (m sid)) (\<lambda>compiled.
        bind_outcome (collect_enabled (m(sid := None)) ids cs) (\<lambda>rest.
          Ret (\<lparr>ss_id = sid, ss_config = config, ss_compiled = compiled\<rparr> # rest)))
      else collect_enabled m ids cs)"

text \<open>\<open>order\<close> lists the entries of the hash map in the order of iteration.\<close>

definition setup_scripts_new ::
  "nat \<Rightarrow> config_env
     \<Rightarrow> ((config_script_id \<rightharpoonup> final_config compiled_profile_scripts list)
          \<Rightarrow> (config_script_id \<times> final_config compiled_profile_scripts list) list)
     \<Rightarrow> evaluatable_profile \<Rightarrow> test_query list \<Rightarrow> setup_script list evaluation" where
  "setup_scripts_new fuel env order p matching_tests =
     (let profile_scripts = cd_scripts (ep_compiled_data p); m = by_script_id profile_scripts
      in if profile_scripts = [] then Some (Ret [])
         else bind_eval (enable_for_tests fuel (filterset_ecx env p) (order m) matching_tests {}) (\<lambda>ids.
                Some (collect_enabled m ids (sc_setup (ep_scripts p)))))"

text \<open>\<open>SetupScript::is_enabled\<close> and \<open>SetupScriptExecuteData::apply\<close>: later scripts overwrite earlier ones.\<close>

fun apply_setup_env ::
  "nat \<Rightarrow> eval_context \<Rightarrow> test_query \<Rightarrow> (setup_script \<times> (string \<times> string) list) list
     \<Rightarrow> (string \<rightharpoonup> string) \<Rightarrow> (string \<rightharpoonup> string) evaluation" where
  "apply_setup_env fuel ecx test [] command = Some (Ret command)"
| "apply_setup_env fuel ecx test ((script, env_map) # rest) command =
     bind_eval (any_enabled fuel ecx test (ss_compiled script)) (\<lambda>m.
       apply_setup_env fuel ecx test rest
         (if m then fold (\<lambda>(key, value) cmd. cmd(key \<mapsto> value)) env_map command else command))"

end
