(* ===== verification/Config_Load.thy ===== *)
theory Config_Load
  imports Config_Settings
begin

text \<open>
  Loading the configuration (\<open>config/core/imp.rs\<close>, \<open>config/core/sources.rs\<close>,
  \<open>config/scripts/imp.rs\<close>): the files in order of priority, the checks on each of them, the
  compiled data that they add, the final configuration, and how a profile is made from it.

  Parsing TOML, layering the sources and deserializing them is done by third-party crates. A file is
  given by what they answer for it (\<open>file_config\<close>), and the layered configuration of all files is an
  argument, \<open>composite\<close>. Resolving a path, and reading a file, are arguments as well.
\<close>

section \<open>Which files are loaded\<close>

type_synonym tool_config_file = "string \<times> string"

datatype script_type = SetupScript | WrapperScript

datatype profile_script_type = UseSetup | UseListWrapper | UseRunWrapper

datatype config_parse_error_kind =
    PathResolveError string
  | BuildError string
  | DeserializeError string
  | ReadFileError string
  | CompileErrors compile_errors
  | InvalidTestGroupsDefined "config_identifier set"
  | InvalidTestGroupsDefinedByTool "config_identifier set"
  | UnknownTestGroups "(profile_name \<times> test_group) list" "test_group set"
  | BothScriptAndScriptsDefined
  | InvalidConfigScriptsDefined "config_script_id set"
  | InvalidConfigScriptsDefinedByTool "config_script_id set"
  | DuplicateConfigScriptNames "config_script_id set"
  | ProfileScriptErrors
      "(profile_name \<times> config_script_id) list"
      "(profile_name \<times> config_script_id \<times> profile_script_type \<times> script_type) list"
      "(profile_name \<times> config_script_id \<times> parsed_leaf list) list"
      "config_script_id set"
  | ExperimentalFeaturesNotEnabled "string set"
  | DuplicateToolConfigFile string string
  | InheritanceErrors "inherits_error list"

text \<open>An error comes with the file it is about.\<close>

type_synonym config_parse_error = "string \<times> config_parse_error_kind"

type_synonym path_resolver = "string \<Rightarrow> string + string"

fun resolve_tools ::
  "path_resolver \<Rightarrow> tool_config_file list \<Rightarrow> config_parse_error + (string \<times> config_source) list" where
  "resolve_tools resolve [] = Inr []"
| "resolve_tools resolve ((tool, file) # fs) = (case resolve file of
     Inl e \<Rightarrow> Inl (file, PathResolveError e)
   | Inr path \<Rightarrow> (case resolve_tools resolve fs of
       Inl e \<Rightarrow> Inl e
     | Inr rest \<Rightarrow> Inr ((tool, \<lparr>cs_path = path, cs_kind = SourceTool tool\<rparr>) # rest)))"

text \<open>The walk over the tools in command-line order, with the path first seen for each.\<close>

fun check_duplicate_tools ::
  "(string \<times> config_source) list \<Rightarrow> (string \<rightharpoonup> string) \<Rightarrow> config_parse_error option" where
  "check_duplicate_tools [] seen = None"
| "check_duplicate_tools ((tool, source) # rest) seen = (case seen tool of
     None \<Rightarrow> check_duplicate_tools rest (seen(tool \<mapsto> cs_path source))
   | Some first \<Rightarrow> Some (cs_path source, DuplicateToolConfigFile tool first))"

definition repo_config_path :: "path_resolver \<Rightarrow> string \<Rightarrow> string option \<Rightarrow> config_parse_error + string" where
  "repo_config_path resolve shared_config config_file = (case config_file of
     Some path \<Rightarrow> (case resolve path of Inl e \<Rightarrow> Inl (path, PathResolveError e) | Inr p \<Rightarrow> Inr p)
   | None \<Rightarrow> Inr shared_config)"

definition config_sources ::
  "path_resolver \<Rightarrow> string \<Rightarrow> string option \<Rightarrow> tool_config_file list \<Rightarrow> config_parse_error + config_source list" where
  "config_sources resolve shared_config config_file tool_config_files_rev =
     (case resolve_tools resolve tool_config_files_rev of
        Inl e \<Rightarrow> Inl e
      | Inr tool_sources \<Rightarrow> (case check_duplicate_tools (rev tool_sources) Map.empty of
          Some e \<Rightarrow> Inl e
        | None \<Rightarrow> (case repo_config_path resolve shared_config config_file of
            Inl e \<Rightarrow> Inl e
          | Inr path \<Rightarrow> Inr (map snd tool_sources @
              [\<lparr>cs_path = path,
                cs_kind = (case config_file of Some _ \<Rightarrow> ExplicitRepository | None \<Rightarrow> DiscoveredRepository)\<rparr>]))))"

definition source_required :: "config_source \<Rightarrow> bool" where
  "source_required s = (case cs_kind s of DiscoveredRepository \<Rightarrow> False | _ \<Rightarrow> True)"

datatype 'c file_read = FileContents 'c | FileAbsent string | FileUnreadable string

text \<open>\<open>FileAbsent\<close> stands for the kinds \<open>NotFound\<close> and \<open>NotADirectory\<close>.\<close>

fun source_read :: "config_source \<Rightarrow> 'c file_read \<Rightarrow> config_parse_error + 'c option" where
  "source_read s (FileContents c) = Inr (Some c)"
| "source_read s (FileAbsent e) =
     (if \<not> source_required s then Inr None else Inl (cs_path s, ReadFileError e))"
| "source_read s (FileUnreadable e) = Inl (cs_path s, ReadFileError e)"


section \<open>Deserialized configurations\<close>

record nextest_config_deserialize =
  ncd_store_dir :: string
  ncd_test_groups :: "(config_identifier \<times> test_group_config) list"
  ncd_old_setup_scripts :: "(config_script_id \<times> setup_script_config) list"
  ncd_scripts :: script_config
  ncd_profiles :: "(profile_name \<times> custom_profile) list"

record nextest_config_impl =
  nci_store_dir :: string
  nci_test_groups :: "(config_identifier \<times> test_group_config) list"
  nci_scripts :: script_config
  nci_profiles :: profiles_config

text \<open>The first pair of a name is the entry of the map; old setup scripts do not replace new ones.\<close>

definition into_config_impl :: "nextest_config_deserialize \<Rightarrow> nextest_config_impl outcome" where
  "into_config_impl c =
     bind_outcome (expect_some (map_of (ncd_profiles c) DEFAULT_PROFILE)) (\<lambda>p.
     bind_outcome (default_profile_new p) (\<lambda>d.
       Ret \<lparr>nci_store_dir = ncd_store_dir c,
            nci_test_groups = ncd_test_groups c,
            nci_scripts = (ncd_scripts c)\<lparr>sc_setup := sc_setup (ncd_scripts c) @
              filter (\<lambda>(sid, _). sid \<notin> fst ` set (sc_setup (ncd_scripts c))) (ncd_old_setup_scripts c)\<rparr>,
            nci_profiles = \<lparr>pc_default_profile = d,
              pc_other_profiles = filter (\<lambda>(name, _). name \<noteq> DEFAULT_PROFILE) (ncd_profiles c)\<rparr>\<rparr>))"

definition scripts_is_empty :: "script_config \<Rightarrow> bool" where
  "scripts_is_empty s \<longleftrightarrow> sc_setup s = [] \<and> sc_wrapper s = []"

definition script_info :: "script_config \<Rightarrow> config_script_id \<Rightarrow> script_type outcome" where
  "script_info s sid =
     (if sid \<in> fst ` set (sc_setup s) then Ret SetupScript
      else if sid \<in> fst ` set (sc_wrapper s) then Ret WrapperScript
      else Panic)"

definition all_script_ids :: "script_config \<Rightarrow> config_script_id list" where
  "all_script_ids s = map fst (sc_setup s) @ map fst (sc_wrapper s)"

definition duplicate_script_ids :: "script_config \<Rightarrow> config_script_id set" where
  "duplicate_script_ids s = set (filter (\<lambda>k. k \<in> fst ` set (sc_setup s)) (map fst (sc_wrapper s)))"

fun script_type_matches :: "script_type \<Rightarrow> profile_script_type \<Rightarrow> bool" where
  "script_type_matches SetupScript u = (u = UseSetup)"
| "script_type_matches WrapperScript u = (u = UseListWrapper \<or> u = UseRunWrapper)"


section \<open>One file\<close>

datatype default_filter_lookup = FilterFound string | FilterNotFound | FilterLookupError string

text \<open>What the third-party crates answer for a file, alone and layered over the default configuration.\<close>

record file_config =
  fc_layered_error :: "string option"
  fc_deserialized :: "string + nextest_config_deserialize"
  fc_unknown_keys :: "string set"
  fc_default_filter :: default_filter_lookup

datatype config_warning =
    UnknownConfigKeys string "string set"
  | UnknownReservedProfiles string "profile_name list"
  | DeprecatedScriptConfig string
  | EmptyScriptSections string profile_name nat

record load_state =
  ld_compiled :: compiled_by_profile
  ld_known_groups :: "config_identifier set"
  ld_known_scripts :: "config_script_id \<rightharpoonup> script_type"
  ld_known_profiles :: "profile_name set"
  ld_warnings :: "config_warning list"

text \<open>Whether a name defined in a file has the form that is required there.\<close>

definition named_as_expected :: "string option \<Rightarrow> config_identifier \<Rightarrow> bool" where
  "named_as_expected tool ident = (case tool of
     Some t \<Rightarrow> (case tool_components ident of Some (tool_name, _) \<Rightarrow> tool_name = t | None \<Rightarrow> False)
   | None \<Rightarrow> \<not> is_tool_identifier ident)"

definition missing_features :: "string set \<Rightarrow> script_config \<Rightarrow> string set" where
  "missing_features experimental s =
     (if sc_setup s \<noteq> [] \<and> ''setup-scripts'' \<notin> experimental then {''setup-scripts''} else {}) \<union>
     (if sc_wrapper s \<noteq> [] \<and> ''wrapper-scripts'' \<notin> experimental then {''wrapper-scripts''} else {})"

definition test_group_errors ::
  "config_identifier set \<Rightarrow> (profile_name \<times> unit compiled_data) list \<Rightarrow> (profile_name \<times> test_group) list" where
  "test_group_errors known_groups profiles =
     concat (map (\<lambda>(name, d). concat (map (\<lambda>ov. case od_test_group (co_data ov) of
         Some (CustomGroup g) \<Rightarrow> if g \<notin> known_groups then [(name, CustomGroup g)] else []
       | _ \<Rightarrow> []) (cd_overrides d))) profiles)"

record profile_script_errors =
  pse_unknown_scripts :: "(profile_name \<times> config_script_id) list"
  pse_wrong_script_types :: "(profile_name \<times> config_script_id \<times> profile_script_type \<times> script_type) list"
  pse_list_scripts_using_run_filters :: "(profile_name \<times> config_script_id \<times> parsed_leaf list) list"

definition no_script_errors :: profile_script_errors where
  "no_script_errors = \<lparr>pse_unknown_scripts = [], pse_wrong_script_types = [],
     pse_list_scripts_using_run_filters = []\<rparr>"

definition check_script_id ::
  "(config_script_id \<rightharpoonup> script_type) \<Rightarrow> profile_name \<Rightarrow> profile_script_type \<Rightarrow> filterset option
     \<Rightarrow> config_script_id \<Rightarrow> profile_script_errors \<Rightarrow> profile_script_errors" where
  "check_script_id known profile_name u expr script errs = (case known script of
     None \<Rightarrow> errs\<lparr>pse_unknown_scripts := pse_unknown_scripts errs @ [(profile_name, script)]\<rparr>
   | Some ty \<Rightarrow>
       (let errs1 = (if \<not> script_type_matches ty u
              then errs\<lparr>pse_wrong_script_types := pse_wrong_script_types errs @ [(profile_name, script, u, ty)]\<rparr>
              else errs)
        in case expr of
             None \<Rightarrow> errs1
           | Some f \<Rightarrow>
               if u = UseListWrapper \<and> runtime_only_leaves (fs_parsed f) \<noteq> []
               then errs1\<lparr>pse_list_scripts_using_run_filters := pse_list_scripts_using_run_filters errs1 @
                      [(profile_name, script, runtime_only_leaves (fs_parsed f))]\<rparr>
               else errs1))"

definition check_script_ids ::
  "(config_script_id \<rightharpoonup> script_type) \<Rightarrow> profile_name \<Rightarrow> profile_script_type \<Rightarrow> filterset option
     \<Rightarrow> config_script_id list \<Rightarrow> profile_script_errors \<Rightarrow> profile_script_errors" where
  "check_script_ids known profile_name u expr scripts errs =
     fold (check_script_id known profile_name u expr) scripts errs"

definition option_slice :: "'a option \<Rightarrow> 'a list" where
  "option_slice v = (case v of Some x \<Rightarrow> [x] | None \<Rightarrow> [])"

definition check_profile_scripts ::
  "(config_script_id \<rightharpoonup> script_type) \<Rightarrow> profile_name \<Rightarrow> unit compiled_profile_scripts
     \<Rightarrow> profile_script_errors \<Rightarrow> profile_script_errors" where
  "check_profile_scripts known name s errs =
     check_script_ids known name UseRunWrapper (psd_expr (cps_data s)) (option_slice (cps_run_wrapper s))
       (check_script_ids known name UseListWrapper (psd_expr (cps_data s)) (option_slice (cps_list_wrapper s))
         (check_script_ids known name UseSetup (psd_expr (cps_data s)) (cps_setup s) errs))"

definition script_section_is_empty :: "unit compiled_profile_scripts \<Rightarrow> bool" where
  "script_section_is_empty s \<longleftrightarrow> cps_setup s = [] \<and> cps_list_wrapper s = None \<and> cps_run_wrapper s = None"

definition empty_section_warnings ::
  "string \<Rightarrow> (profile_name \<times> unit compiled_data) list \<Rightarrow> config_warning list" where
  "empty_section_warnings path profiles =
     concat (map (\<lambda>(name, d).
       (let n = length (filter script_section_is_empty (cd_scripts d))
        in if n > 0 then [EmptyScriptSections path name n] else [])) profiles)"

definition profile_script_errors_of ::
  "(config_script_id \<rightharpoonup> script_type) \<Rightarrow> (profile_name \<times> unit compiled_data) list \<Rightarrow> profile_script_errors" where
  "profile_script_errors_of known profiles =
     fold (\<lambda>(name, d). fold (check_profile_scripts known name) (cd_scripts d)) profiles no_script_errors"

text \<open>The compiled data of a file is added reversed: to what is there, or as a new entry.\<close>

definition add_compiled ::
  "unit compiled_data \<times> (profile_name \<times> unit compiled_data) list \<Rightarrow> compiled_by_profile \<Rightarrow> compiled_by_profile" where
  "add_compiled = (\<lambda>(d, others) out.
     \<lparr>cbp_default = extend_reverse (cbp_default out) d,
      cbp_other = fold (\<lambda>(name, data) m. m(name \<mapsto> (case m name of
          None \<Rightarrow> reverse_data data
        | Some e \<Rightarrow> extend_reverse e data))) others (cbp_other out)\<rparr>)"

definition script_infos :: "script_config \<Rightarrow> config_script_id list \<Rightarrow> (config_script_id \<times> script_type) list outcome" where
  "script_infos s sids = foldr (\<lambda>sid acc.
     bind_outcome (script_info s sid) (\<lambda>ty. bind_outcome acc (\<lambda>rest. Ret ((sid, ty) # rest)))) sids (Ret [])"

text \<open>\<open>NextestConfig::DEFAULT_PROFILES\<close>.\<close>

definition DEFAULT_PROFILES :: "profile_name list" where
  "DEFAULT_PROFILES = [DEFAULT_PROFILE, DEFAULT_MIRI_PROFILE]"

text \<open>An error keeps the warnings given so far.\<close>

definition load_error ::
  "load_state \<Rightarrow> string \<Rightarrow> config_parse_error_kind \<Rightarrow> (config_warning list \<times> config_parse_error) + load_state" where
  "load_error ls path kind = Inl (ld_warnings ls, path, kind)"

text \<open>The checks on the compiled profiles, and their data added.\<close>

definition check_compiled_profiles ::
  "string \<Rightarrow> unit compiled_data \<times> (profile_name \<times> unit compiled_data) list \<Rightarrow> load_state
     \<Rightarrow> (config_warning list \<times> config_parse_error) + load_state" where
  "check_compiled_profiles path = (\<lambda>(d, others) ls.
     (let profiles = (DEFAULT_PROFILE, d) # others;
          group_errs = test_group_errors (ld_known_groups ls) profiles
      in if group_errs \<noteq> []
         then load_error ls path (UnknownTestGroups group_errs (make_all_groups (ld_known_groups ls)))
         else
           (let script_errs = profile_script_errors_of (ld_known_scripts ls) profiles;
                ls1 = ls\<lparr>ld_warnings := ld_warnings ls @ empty_section_warnings path profiles\<rparr>
            in if script_errs \<noteq> no_script_errors
               then load_error ls1 path (ProfileScriptErrors (pse_unknown_scripts script_errs)
                 (pse_wrong_script_types script_errs)
                 (pse_list_scripts_using_run_filters script_errs) (dom (ld_known_scripts ls1)))
               else Inr (ls1\<lparr>ld_compiled := add_compiled (d, others) (ld_compiled ls1)\<rparr>))))"

definition filter_lookup :: "default_filter_lookup \<Rightarrow> string option" where
  "filter_lookup l = (case l of FilterFound f \<Rightarrow> Some f | _ \<Rightarrow> None)"

definition warn_reserved_profiles :: "string \<Rightarrow> nextest_config_impl \<Rightarrow> load_state \<Rightarrow> load_state" where
  "warn_reserved_profiles path this ls =
     (let unknown = filter (\<lambda>p. starts_with_default p \<and> p \<notin> set DEFAULT_PROFILES) (all_profiles (nci_profiles this))
      in if unknown \<noteq> [] then ls\<lparr>ld_warnings := ld_warnings ls @ [UnknownReservedProfiles path unknown]\<rparr> else ls)"

text \<open>From the inheritance of the profiles on.\<close>

definition deserialize_profiles ::
  "config_env \<Rightarrow> scc_function \<Rightarrow> config_source \<Rightarrow> file_config \<Rightarrow> nextest_config_impl \<Rightarrow> load_state
     \<Rightarrow> ((config_warning list \<times> config_parse_error) + load_state) outcome" where
  "deserialize_profiles env scc source fc this ls =
     (let path = cs_path source; ls1 = warn_reserved_profiles path this ls
      in case sanitize_profile_inherits scc (nci_profiles this) (ld_known_profiles ls1) of
           Inl es \<Rightarrow> Ret (load_error ls1 path (InheritanceErrors es))
         | Inr _ \<Rightarrow>
             (let ls2 = ls1\<lparr>ld_known_profiles := ld_known_profiles ls1 \<union>
                     fst ` set (pc_other_profiles (nci_profiles this))\<rparr>
              in case fc_default_filter fc of
                   FilterLookupError e \<Rightarrow> Ret (load_error ls2 path (BuildError e))
                 | lookup \<Rightarrow>
                     bind_outcome (compiled_by_profile_new env source (nci_profiles this) (filter_lookup lookup)) (\<lambda>r.
                     case r of
                       Inl es \<Rightarrow> Ret (load_error ls2 path (CompileErrors es))
                     | Inr compiled \<Rightarrow> Ret (check_compiled_profiles path compiled ls2))))"

text \<open>The checks on the scripts of a file, with the old setup scripts already moved over.\<close>

definition deserialize_scripts ::
  "config_env \<Rightarrow> scc_function \<Rightarrow> string set \<Rightarrow> config_source \<Rightarrow> file_config \<Rightarrow> nextest_config_deserialize
     \<Rightarrow> load_state \<Rightarrow> ((config_warning list \<times> config_parse_error) + load_state) outcome" where
  "deserialize_scripts env scc experimental source fc this ls =
     (let path = cs_path source; tool = source_tool source;
          missing = missing_features experimental (ncd_scripts this);
          dups = duplicate_script_ids (ncd_scripts this);
          sids = all_script_ids (ncd_scripts this);
          invalid_scripts = set (filter (\<lambda>s. \<not> named_as_expected tool s) sids)
      in if missing \<noteq> {} then Ret (load_error ls path (ExperimentalFeaturesNotEnabled missing))
         else if dups \<noteq> {} then Ret (load_error ls path (DuplicateConfigScriptNames dups))
         else if invalid_scripts \<noteq> {}
         then Ret (load_error ls path (if tool \<noteq> None then InvalidConfigScriptsDefinedByTool invalid_scripts
                       else InvalidConfigScriptsDefined invalid_scripts))
         else
           bind_outcome (script_infos (ncd_scripts this) (filter (named_as_expected tool) sids)) (\<lambda>infos.
           bind_outcome (into_config_impl this) (\<lambda>config.
             deserialize_profiles env scc source fc config
               (ls\<lparr>ld_known_scripts := ld_known_scripts ls ++ map_of infos\<rparr>))))"

definition deserialize_test_groups ::
  "config_env \<Rightarrow> scc_function \<Rightarrow> string set \<Rightarrow> config_source \<Rightarrow> file_config \<Rightarrow> nextest_config_deserialize
     \<Rightarrow> load_state \<Rightarrow> ((config_warning list \<times> config_parse_error) + load_state) outcome" where
  "deserialize_test_groups env scc experimental source fc this ls =
     (let path = cs_path source; tool = source_tool source;
          groups = map fst (ncd_test_groups this);
          invalid_groups = set (filter (\<lambda>g. \<not> named_as_expected tool g) groups)
      in if invalid_groups \<noteq> {}
         then Ret (load_error ls path (if tool \<noteq> None then InvalidTestGroupsDefinedByTool invalid_groups
                       else InvalidTestGroupsDefined invalid_groups))
         else
           (let ls1 = ls\<lparr>ld_known_groups := ld_known_groups ls \<union> set (filter (named_as_expected tool) groups)\<rparr>
            in if \<not> scripts_is_empty (ncd_scripts this) \<and> ncd_old_setup_scripts this \<noteq> []
               then Ret (load_error ls1 path BothScriptAndScriptsDefined)
               else if ncd_old_setup_scripts this \<noteq> []
               then deserialize_scripts env scc experimental source fc
                      (this\<lparr>ncd_scripts := (ncd_scripts this)\<lparr>sc_setup := ncd_old_setup_scripts this\<rparr>\<rparr>)
                      (ls1\<lparr>ld_warnings := ld_warnings ls1 @ [DeprecatedScriptConfig path]\<rparr>)
               else deserialize_scripts env scc experimental source fc this ls1))"

definition deserialize_individual_config ::
  "config_env \<Rightarrow> scc_function \<Rightarrow> string set \<Rightarrow> config_source \<Rightarrow> file_config \<Rightarrow> load_state
     \<Rightarrow> ((config_warning list \<times> config_parse_error) + load_state) outcome" where
  "deserialize_individual_config env scc experimental source fc ls =
     (let path = cs_path source
      in case fc_layered_error fc of
           Some e \<Rightarrow> Ret (load_error ls path (BuildError e))
         | None \<Rightarrow> (case fc_deserialized fc of
             Inl e \<Rightarrow> Ret (load_error ls path (DeserializeError e))
           | Inr this \<Rightarrow>
               deserialize_test_groups env scc experimental source fc this
                 (if fc_unknown_keys fc \<noteq> {}
                  then ls\<lparr>ld_warnings := ld_warnings ls @ [UnknownConfigKeys path (fc_unknown_keys fc)]\<rparr> else ls)))"


section \<open>All files\<close>

definition initial_load :: load_state where
  "initial_load = \<lparr>ld_compiled = compiled_for_default_config, ld_known_groups = {},
     ld_known_scripts = Map.empty, ld_known_profiles = {}, ld_warnings = []\<rparr>"

text \<open>\<open>files\<close> pairs each source with what reading and parsing it gives.\<close>

fun load_files ::
  "config_env \<Rightarrow> scc_function \<Rightarrow> string set \<Rightarrow> (config_source \<times> (string + file_config) file_read) list \<Rightarrow> load_state
     \<Rightarrow> ((config_warning list \<times> config_parse_error) + load_state \<times> file_config list) outcome" where
  "load_files env scc experimental [] ls = Ret (Inr (ls, []))"
| "load_files env scc experimental ((source, read) # fs) ls = (case source_read source read of
     Inl e \<Rightarrow> Ret (Inl (ld_warnings ls, e))
   | Inr None \<Rightarrow> load_files env scc experimental fs ls
   | Inr (Some (Inl e)) \<Rightarrow> Ret (Inl (ld_warnings ls, cs_path source, BuildError e))
   | Inr (Some (Inr fc)) \<Rightarrow>
       bind_outcome (deserialize_individual_config env scc experimental source fc ls) (\<lambda>r. case r of
           Inl e \<Rightarrow> Ret (Inl e)
         | Inr ls1 \<Rightarrow> bind_outcome (load_files env scc experimental fs ls1) (\<lambda>r2. case r2 of
               Inl e \<Rightarrow> Ret (Inl e)
             | Inr (ls2, fcs) \<Rightarrow> Ret (Inr (ls2, fc # fcs)))))"

definition reverse_compiled :: "compiled_by_profile \<Rightarrow> compiled_by_profile" where
  "reverse_compiled c =
     \<lparr>cbp_default = reverse_data (cbp_default c), cbp_other = (\<lambda>name. map_option reverse_data (cbp_other c name))\<rparr>"

record nextest_config =
  nc_workspace_root :: string
  nc_inner :: nextest_config_impl
  nc_compiled :: compiled_by_profile

definition read_from_sources ::
  "config_env \<Rightarrow> scc_function \<Rightarrow> (file_config list \<Rightarrow> config_parse_error_kind + nextest_config_deserialize)
     \<Rightarrow> string set \<Rightarrow> string \<Rightarrow> string \<Rightarrow> (config_source \<times> (string + file_config) file_read) list
     \<Rightarrow> ((config_warning list \<times> config_parse_error) + nextest_config) outcome" where
  "read_from_sources env scc composite experimental workspace_root config_file files =
     bind_outcome (load_files env scc experimental files initial_load) (\<lambda>r. case r of
         Inl e \<Rightarrow> Ret (Inl e)
       | Inr (ls, fcs) \<Rightarrow>
           (let err = (\<lambda>kind. Ret (Inl (ld_warnings ls, config_file, kind)))
            in case composite fcs of
                 Inl kind \<Rightarrow> err kind
               | Inr d \<Rightarrow> bind_outcome (into_config_impl d) (\<lambda>config.
                   case sanitize_profile_inherits scc (nci_profiles config) {} of
                     Inl es \<Rightarrow> err (InheritanceErrors es)
                   | Inr _ \<Rightarrow> Ret (Inr \<lparr>nc_workspace_root = workspace_root, nc_inner = config,
                       nc_compiled = reverse_compiled (ld_compiled ls)\<rparr>))))"


section \<open>Profiles\<close>

text \<open>The result is \<open>None\<close> if the chain of ancestors has no end.\<close>

definition make_profile ::
  "nextest_config \<Rightarrow> profile_name \<Rightarrow> (profile_not_found + early_profile) option" where
  "make_profile nc name =
     (let profiles = nci_profiles (nc_inner nc)
      in case get_profile profiles name of
           Inl e \<Rightarrow> Some (Inl e)
         | Inr custom_profile \<Rightarrow> (case resolve_inheritance_chain profiles name of
             None \<Rightarrow> None
           | Some (Inl e) \<Rightarrow> Some (Inl e)
           | Some (Inr ch) \<Rightarrow>
               Some (Inr \<lparr>
                 ea_name = name,
                 ea_store_dir = path_join (path_join (nc_workspace_root nc) (nci_store_dir (nc_inner nc))) name,
                 ea_default_profile = pc_default_profile profiles,
                 ea_custom_profile = custom_profile,
                 ea_inheritance_chain = map snd ch,
                 ea_test_groups = map_of (nci_test_groups (nc_inner nc)),
                 ea_scripts = nci_scripts (nc_inner nc),
                 ea_compiled_data =
                   fold (\<lambda>profile_name d. case cbp_other (nc_compiled nc) profile_name of
                       Some data \<Rightarrow> chain_data data d
                     | None \<Rightarrow> d)
                     (rev (map fst ch) @ [name]) (cbp_default (nc_compiled nc))\<rparr>)))"

end
