(* ===== verification/Config_Load_Props.thy ===== *)
theory Config_Load_Props
  imports Config_Inherit Config_Load
begin

text \<open>
  What a loaded configuration holds: the compiled overrides and scripts of every file, in the
  documented order of precedence, all of them well formed.
\<close>

section \<open>Compiling one file\<close>

lemma bind_sum_eq_Ret:
  "bind_outcome m (case_sum f g) = Ret y \<longleftrightarrow>
     (\<exists>a. m = Ret (Inl a) \<and> f a = Ret y) \<or> (\<exists>b. m = Ret (Inr b) \<and> g b = Ret y)"
  by (cases m) (auto split: sum.split)

lemma compile_each_errors:
  "compile_each f i xs errs = Ret (ys, errs') \<Longrightarrow> prefix errs errs'"
proof (induction f i xs errs arbitrary: ys errs' rule: compile_each.induct)
  case (2 f i x xs errs)
  from "2.prems" obtain r where r: "f i x = Ret r" by (auto simp: bind_outcome_eq_Ret)
  show ?case
  proof (cases r)
    case (Inl e)
    then show ?thesis using 2 r by (auto dest: append_prefixD)
  next
    case (Inr y)
    then show ?thesis using 2 r by (auto simp: bind_outcome_eq_Ret)
  qed
qed simp

lemma compile_each_ok:
  assumes "compile_each f i xs errs = Ret (ys, [])"
  shows "errs = [] \<and> list_all2 (\<lambda>(j, x) y. f j x = Ret (Inr y)) (enumerate i xs) ys"
  using assms
proof (induction f i xs errs arbitrary: ys rule: compile_each.induct)
  case (2 f i x xs errs)
  then obtain r where r: "f i x = Ret r" by (auto simp: bind_outcome_eq_Ret)
  show ?case
  proof (cases r)
    case (Inl e)
    then have "compile_each f (Suc i) xs (errs @ [e]) = Ret (ys, [])" using 2 r by simp
    from compile_each_errors [OF this] show ?thesis by simp
  next
    case (Inr y)
    with 2 r obtain ys' where "compile_each f (Suc i) xs errs = Ret (ys', [])" "ys = y # ys'"
      by (auto simp: bind_outcome_eq_Ret)
    then show ?thesis using 2 r Inr by auto
  qed
qed simp

definition overrides_compile ::
  "config_env \<Rightarrow> config_source \<Rightarrow> profile_name \<Rightarrow> deserialized_override list \<Rightarrow> unit compiled_override list \<Rightarrow> bool" where
  "overrides_compile env source name srcs ovs \<longleftrightarrow>
     list_all2 (\<lambda>(i, src) ov. compiled_override_new env source name i src = Ret (Inr ov)) (enumerate 0 srcs) ovs"

definition scripts_compile ::
  "config_env \<Rightarrow> profile_name \<Rightarrow> deserialized_profile_script list \<Rightarrow> unit compiled_profile_scripts list \<Rightarrow> bool" where
  "scripts_compile env name srcs ss \<longleftrightarrow>
     list_all2 (\<lambda>(i, src) s. compiled_profile_scripts_new env name i src = Ret (Inr s)) (enumerate 0 srcs) ss"

text \<open>The data of a profile compiled without an error.\<close>

definition data_compiles ::
  "config_env \<Rightarrow> config_source \<Rightarrow> profile_name \<Rightarrow> string option \<Rightarrow> deserialized_override list
     \<Rightarrow> deserialized_profile_script list \<Rightarrow> unit compiled_data \<Rightarrow> bool" where
  "data_compiles env source name df srcs scripts d \<longleftrightarrow>
     (case df of
        None \<Rightarrow> cd_profile_default_filter d = None
      | Some s \<Rightarrow> (\<exists>f. filterset_parse env s KDefaultFilter Unavailable = Ret (Inr f) \<and>
          cd_profile_default_filter d =
            Some \<lparr>cdf_expr = fs_compiled f, cdf_profile = name, cdf_section = FilterOfProfile\<rparr>)) \<and>
     overrides_compile env source name srcs (cd_overrides d) \<and>
     scripts_compile env name scripts (cd_scripts d)"

lemma compiled_data_new_cases:
  assumes "compiled_data_new env source name df srcs scripts errs = Ret (d, errs')"
  obtains f errs1 os errs2 ss where "compile_default_filter env name df errs = Ret (f, errs1)"
    "compile_each (compiled_override_new env source name) 0 srcs errs1 = Ret (os, errs2)"
    "compile_each (compiled_profile_scripts_new env name) 0 scripts errs2 = Ret (ss, errs')"
    "d = \<lparr>cd_profile_default_filter = f, cd_overrides = os, cd_scripts = ss\<rparr>"
  using assms by (auto simp: compiled_data_new_def bind_outcome_eq_Ret)

lemma compile_default_filter_errors:
  "compile_default_filter env name df errs = Ret (f, errs') \<Longrightarrow> prefix errs errs'"
  by (auto simp: compile_default_filter_def bind_sum_eq_Ret split: option.splits)

lemma compiled_data_new_errors:
  assumes "compiled_data_new env source name df srcs scripts errs = Ret (d, errs')"
  shows "prefix errs errs'"
  using assms by (rule compiled_data_new_cases)
    (blast dest: compile_default_filter_errors compile_each_errors intro: prefix_order.trans)

lemma compiled_data_new_ok:
  assumes "compiled_data_new env source name df srcs scripts errs = Ret (d, [])"
  shows "errs = [] \<and> data_compiles env source name df srcs scripts d"
proof -
  from assms obtain f errs1 os errs2 ss where
    1: "compile_default_filter env name df errs = Ret (f, errs1)"
    and 2: "compile_each (compiled_override_new env source name) 0 srcs errs1 = Ret (os, errs2)"
    and 3: "compile_each (compiled_profile_scripts_new env name) 0 scripts errs2 = Ret (ss, [])"
    and d: "d = \<lparr>cd_profile_default_filter = f, cd_overrides = os, cd_scripts = ss\<rparr>"
    by (rule compiled_data_new_cases)
  have 4: "errs2 = []" using compile_each_ok [OF 3] by simp
  have 5: "errs1 = []" using compile_each_ok [OF 2 [unfolded 4]] by simp
  have "errs = []" using compile_default_filter_errors [OF 1] 5 by simp
  moreover have "case df of None \<Rightarrow> f = None | Some s \<Rightarrow> (\<exists>g. filterset_parse env s KDefaultFilter Unavailable = Ret (Inr g) \<and>
      f = Some \<lparr>cdf_expr = fs_compiled g, cdf_profile = name, cdf_section = FilterOfProfile\<rparr>)"
    using 1 5 by (auto simp: compile_default_filter_def bind_sum_eq_Ret split: option.splits)
  ultimately show ?thesis
    using compile_each_ok [OF 3] compile_each_ok [OF 2 [unfolded 4]] d
    by (simp add: data_compiles_def overrides_compile_def scripts_compile_def split: option.splits)
qed

lemma compile_others_errors:
  "compile_others env source ps errs = Ret (ds, errs') \<Longrightarrow> prefix errs errs'"
proof (induction env source ps errs arbitrary: ds errs' rule: compile_others.induct)
  case (2 env source name p ps errs)
  then show ?case
    by (auto simp: bind_outcome_eq_Ret dest!: compiled_data_new_errors intro: prefix_order.trans)
qed simp

definition others_compile ::
  "config_env \<Rightarrow> config_source \<Rightarrow> (profile_name \<times> custom_profile) list
     \<Rightarrow> (profile_name \<times> unit compiled_data) list \<Rightarrow> bool" where
  "others_compile env source ps ds \<longleftrightarrow>
     list_all2 (\<lambda>(name, p) (name', d). name' = name \<and>
       data_compiles env source name (cp_default_filter p) (cp_overrides p) (cp_scripts p) d) ps ds"

lemma compile_others_ok:
  assumes "compile_others env source ps errs = Ret (ds, [])"
  shows "errs = [] \<and> others_compile env source ps ds"
  using assms
proof (induction env source ps errs arbitrary: ds rule: compile_others.induct)
  case (2 env source name p ps errs)
  then obtain d errs1 ds' where
    1: "compiled_data_new env source name (cp_default_filter p) (cp_overrides p) (cp_scripts p) errs = Ret (d, errs1)"
    and 2: "compile_others env source ps errs1 = Ret (ds', [])" and ds: "ds = (name, d) # ds'"
    by (auto simp: bind_outcome_eq_Ret)
  from 2 "2.IH" have "errs1 = []" "others_compile env source ps ds'" by auto
  with compiled_data_new_ok [of env source name] 1 ds show ?case by (auto simp: others_compile_def)
qed (simp add: others_compile_def)

lemma compiled_by_profile_new_ok:
  assumes "compiled_by_profile_new env source config df = Ret (Inr (d, others))"
  shows "data_compiles env source DEFAULT_PROFILE df (dp_overrides (pc_default_profile config))
           (dp_scripts (pc_default_profile config)) d \<and>
     others_compile env source (pc_other_profiles config) others"
proof -
  from assms obtain errs1 where
    1: "compiled_data_new env source DEFAULT_PROFILE df (dp_overrides (pc_default_profile config))
      (dp_scripts (pc_default_profile config)) [] = Ret (d, errs1)"
    and 2: "compile_others env source (pc_other_profiles config) errs1 = Ret (others, [])"
    by (auto simp: compiled_by_profile_new_def bind_outcome_eq_Ret split: if_splits)
  from compile_others_ok [OF 2] 1 compiled_data_new_ok show ?thesis by fastforce
qed


section \<open>Loading one file\<close>

lemma script_infos_ok:
  "script_infos s sids = Ret infos \<Longrightarrow> (sid, ty) \<in> set infos \<Longrightarrow> script_info s sid = Ret ty"
proof (induction sids arbitrary: infos)
  case (Cons x sids)
  then show ?case by (auto simp: script_infos_def bind_outcome_eq_Ret)
qed (simp add: script_infos_def)

text \<open>What an accepted file contributes: its profiles, compiled, which passed the checks.\<close>

record file_data =
  fd_default :: "unit compiled_data"
  fd_others :: "(profile_name \<times> unit compiled_data) list"

definition file_loaded ::
  "config_env \<Rightarrow> config_source \<Rightarrow> file_config \<Rightarrow> load_state \<Rightarrow> load_state \<Rightarrow> file_data \<Rightarrow> bool" where
  "file_loaded env source fc ls ls' fd \<longleftrightarrow> (\<exists>dn this config.
     fc_deserialized fc = Inr dn \<and> ncd_profiles this = ncd_profiles dn \<and>
     sc_wrapper (ncd_scripts this) = sc_wrapper (ncd_scripts dn) \<and>
     into_config_impl this = Ret config \<and>
     compiled_by_profile_new env source (nci_profiles config) (filter_lookup (fc_default_filter fc)) =
       Ret (Inr (fd_default fd, fd_others fd)) \<and>
     ld_compiled ls' = add_compiled (fd_default fd, fd_others fd) (ld_compiled ls) \<and>
     ld_known_groups ls' = ld_known_groups ls \<union> fst ` set (ncd_test_groups dn) \<and>
     (\<forall>g \<in> fst ` set (ncd_test_groups dn). named_as_expected (source_tool source) g) \<and>
     test_group_errors (ld_known_groups ls') ((DEFAULT_PROFILE, fd_default fd) # fd_others fd) = [] \<and>
     profile_script_errors_of (ld_known_scripts ls') ((DEFAULT_PROFILE, fd_default fd) # fd_others fd) = no_script_errors \<and>
     (\<forall>sid ty. ld_known_scripts ls' sid = Some ty \<longrightarrow>
        ld_known_scripts ls sid = Some ty \<or> script_info (ncd_scripts this) sid = Ret ty))"

lemma check_compiled_profiles_ok:
  assumes "check_compiled_profiles path (d, others) ls = Inr ls'"
  shows "ld_compiled ls' = add_compiled (d, others) (ld_compiled ls) \<and>
    ld_known_groups ls' = ld_known_groups ls \<and> ld_known_scripts ls' = ld_known_scripts ls \<and>
    test_group_errors (ld_known_groups ls) ((DEFAULT_PROFILE, d) # others) = [] \<and>
    profile_script_errors_of (ld_known_scripts ls) ((DEFAULT_PROFILE, d) # others) = no_script_errors"
  using assms by (auto simp: check_compiled_profiles_def load_error_def Let_def split: if_splits)

lemma warn_reserved_profiles_simps [simp]:
  "ld_compiled (warn_reserved_profiles path this ls) = ld_compiled ls"
  "ld_known_groups (warn_reserved_profiles path this ls) = ld_known_groups ls"
  "ld_known_scripts (warn_reserved_profiles path this ls) = ld_known_scripts ls"
  by (simp_all add: warn_reserved_profiles_def Let_def)

lemma deserialize_profiles_ok:
  assumes "deserialize_profiles env scc source fc this ls = Ret (Inr ls')"
  obtains d others ls2 where
    "compiled_by_profile_new env source (nci_profiles this) (filter_lookup (fc_default_filter fc)) = Ret (Inr (d, others))"
    "check_compiled_profiles (cs_path source) (d, others) ls2 = Inr ls'"
    "ld_compiled ls2 = ld_compiled ls" "ld_known_groups ls2 = ld_known_groups ls"
    "ld_known_scripts ls2 = ld_known_scripts ls"
proof -
  define ls1 where "ls1 = warn_reserved_profiles (cs_path source) this ls"
  define ls2 where "ls2 = ls1\<lparr>ld_known_profiles := ld_known_profiles ls1 \<union>
    fst ` set (pc_other_profiles (nci_profiles this))\<rparr>"
  have ls2: "ld_compiled ls2 = ld_compiled ls" "ld_known_groups ls2 = ld_known_groups ls"
    "ld_known_scripts ls2 = ld_known_scripts ls" by (simp_all add: ls2_def ls1_def)
  obtain u where "sanitize_profile_inherits scc (nci_profiles this) (ld_known_profiles ls1) = Inr u"
    using assms by (auto simp: deserialize_profiles_def Let_def ls1_def load_error_def split: sum.splits)
  then have "(case fc_default_filter fc of
       FilterLookupError e \<Rightarrow> Ret (load_error ls2 (cs_path source) (BuildError e))
     | lookup \<Rightarrow> bind_outcome (compiled_by_profile_new env source (nci_profiles this) (filter_lookup lookup))
         (case_sum (\<lambda>es. Ret (load_error ls2 (cs_path source) (CompileErrors es)))
            (\<lambda>c. Ret (check_compiled_profiles (cs_path source) c ls2)))) = Ret (Inr ls')"
    using assms unfolding deserialize_profiles_def Let_def ls1_def [symmetric] ls2_def [symmetric] by simp
  then obtain c where "compiled_by_profile_new env source (nci_profiles this) (filter_lookup (fc_default_filter fc)) = Ret (Inr c)"
    "check_compiled_profiles (cs_path source) c ls2 = Inr ls'"
    by (auto simp: bind_sum_eq_Ret load_error_def split: default_filter_lookup.splits)
  then show thesis using that [of "fst c" "snd c"] ls2 by simp
qed

lemma deserialize_scripts_ok:
  assumes "deserialize_scripts env scc experimental source fc this ls = Ret (Inr ls')"
  obtains config ls1 where "into_config_impl this = Ret config"
    "deserialize_profiles env scc source fc config ls1 = Ret (Inr ls')"
    "ld_compiled ls1 = ld_compiled ls" "ld_known_groups ls1 = ld_known_groups ls"
    "\<And>sid ty. ld_known_scripts ls1 sid = Some ty \<Longrightarrow>
       ld_known_scripts ls sid = Some ty \<or> script_info (ncd_scripts this) sid = Ret ty"
proof -
  obtain infos sids config where infos: "script_infos (ncd_scripts this) sids = Ret infos"
    and config: "into_config_impl this = Ret config"
    and ok: "deserialize_profiles env scc source fc config
      (ls\<lparr>ld_known_scripts := ld_known_scripts ls ++ map_of infos\<rparr>) = Ret (Inr ls')"
    using assms by (auto simp: deserialize_scripts_def Let_def load_error_def bind_outcome_eq_Ret split: if_splits)
  show thesis
    by (rule that [OF config ok]) (auto simp: map_add_Some_iff dest!: map_of_SomeD script_infos_ok [OF infos])
qed

lemma deserialize_test_groups_ok:
  assumes "deserialize_test_groups env scc experimental source fc dn ls = Ret (Inr ls')"
  obtains this ls1 where "deserialize_scripts env scc experimental source fc this ls1 = Ret (Inr ls')"
    "ncd_profiles this = ncd_profiles dn" "sc_wrapper (ncd_scripts this) = sc_wrapper (ncd_scripts dn)"
    "\<forall>g \<in> fst ` set (ncd_test_groups dn). named_as_expected (source_tool source) g"
    "ld_compiled ls1 = ld_compiled ls" "ld_known_scripts ls1 = ld_known_scripts ls"
    "ld_known_groups ls1 = ld_known_groups ls \<union> fst ` set (ncd_test_groups dn)"
proof -
  have named: "\<forall>g \<in> fst ` set (ncd_test_groups dn). named_as_expected (source_tool source) g"
    using assms by (auto simp: deserialize_test_groups_def Let_def load_error_def filter_empty_conv split: if_splits)
  then have keep: "filter (\<lambda>g. \<not> named_as_expected (source_tool source) g) (map fst (ncd_test_groups dn)) = []"
    "filter (named_as_expected (source_tool source)) (map fst (ncd_test_groups dn)) = map fst (ncd_test_groups dn)"
    by (auto simp: filter_empty_conv intro!: filter_True)
  show thesis
  proof (cases "ncd_old_setup_scripts dn = []")
    case True
    then show thesis using assms named
      by (intro that [of dn "ls\<lparr>ld_known_groups := ld_known_groups ls \<union> fst ` set (ncd_test_groups dn)\<rparr>"])
        (simp_all add: deserialize_test_groups_def Let_def keep)
  next
    case False
    from assms False that named show thesis
      unfolding deserialize_test_groups_def Let_def keep by (fastforce simp: load_error_def split: if_splits)
  qed
qed

lemma deserialize_individual_config_ok:
  assumes "deserialize_individual_config env scc experimental source fc ls = Ret (Inr ls')"
  shows "\<exists>fd. file_loaded env source fc ls ls' fd"
proof -
  obtain dn where dn: "fc_deserialized fc = Inr dn"
    using assms by (auto simp: deserialize_individual_config_def Let_def load_error_def split: option.splits sum.splits)
  then obtain ls0 where groups: "deserialize_test_groups env scc experimental source fc dn ls0 = Ret (Inr ls')"
    and ls0: "ld_compiled ls0 = ld_compiled ls" "ld_known_groups ls0 = ld_known_groups ls"
      "ld_known_scripts ls0 = ld_known_scripts ls"
    using assms by (auto simp: deserialize_individual_config_def Let_def load_error_def split: option.splits if_splits)
  from groups obtain this ls1 where this1: "deserialize_scripts env scc experimental source fc this ls1 = Ret (Inr ls')"
    and this2: "ncd_profiles this = ncd_profiles dn" "sc_wrapper (ncd_scripts this) = sc_wrapper (ncd_scripts dn)"
    and named: "\<forall>g \<in> fst ` set (ncd_test_groups dn). named_as_expected (source_tool source) g"
    and ls1: "ld_compiled ls1 = ld_compiled ls0" "ld_known_scripts ls1 = ld_known_scripts ls0"
      "ld_known_groups ls1 = ld_known_groups ls0 \<union> fst ` set (ncd_test_groups dn)"
    by (rule deserialize_test_groups_ok)
  from this1 obtain config ls2 where config: "into_config_impl this = Ret config"
    and prof: "deserialize_profiles env scc source fc config ls2 = Ret (Inr ls')"
    and ls2: "ld_compiled ls2 = ld_compiled ls1" "ld_known_groups ls2 = ld_known_groups ls1"
    and known: "\<And>sid ty. ld_known_scripts ls2 sid = Some ty \<Longrightarrow>
       ld_known_scripts ls1 sid = Some ty \<or> script_info (ncd_scripts this) sid = Ret ty"
    by (rule deserialize_scripts_ok) blast
  from prof obtain d others ls3 where comp: "compiled_by_profile_new env source (nci_profiles config)
        (filter_lookup (fc_default_filter fc)) = Ret (Inr (d, others))"
    and chk: "check_compiled_profiles (cs_path source) (d, others) ls3 = Inr ls'"
    and ls3: "ld_compiled ls3 = ld_compiled ls2" "ld_known_groups ls3 = ld_known_groups ls2"
      "ld_known_scripts ls3 = ld_known_scripts ls2" by (rule deserialize_profiles_ok)
  show ?thesis
    unfolding file_loaded_def
    using dn this2 config comp named check_compiled_profiles_ok [OF chk] ls0 ls1 ls2 ls3 known
    by (intro exI [of _ "\<lparr>fd_default = d, fd_others = others\<rparr>"] exI [of _ dn] exI [of _ this] exI [of _ config]) auto
qed


section \<open>Loading all files\<close>

text \<open>The files that are there, lowest priority first.\<close>

fun loaded_files ::
  "(config_source \<times> (string + file_config) file_read) list \<Rightarrow> (config_source \<times> file_config) list" where
  "loaded_files [] = []"
| "loaded_files ((source, FileContents (Inr fc)) # fs) = (source, fc) # loaded_files fs"
| "loaded_files (_ # fs) = loaded_files fs"

fun files_loaded ::
  "config_env \<Rightarrow> (config_source \<times> file_config) list \<Rightarrow> load_state \<Rightarrow> file_data list \<Rightarrow> load_state \<Rightarrow> bool" where
  "files_loaded env [] ls [] ls' \<longleftrightarrow> ls = ls'"
| "files_loaded env ((source, fc) # fs) ls (fd # fds) ls' \<longleftrightarrow>
     (\<exists>ls1. file_loaded env source fc ls ls1 fd \<and> files_loaded env fs ls1 fds ls')"
| "files_loaded _ _ _ _ _ \<longleftrightarrow> False"

lemma load_files_ok:
  assumes "load_files env scc ex files ls = Ret (Inr (ls', fcs))"
  shows "fcs = map snd (loaded_files files) \<and> (\<exists>fds. files_loaded env (loaded_files files) ls fds ls')"
  using assms
proof (induction env scc ex files ls arbitrary: ls' fcs rule: load_files.induct)
  case (1 env scc ex ls)
  then show ?case by (auto intro: exI [of _ "[]"])
next
  case (2 env scc ex source rd fs ls)
  consider (absent) "source_read source rd = Inr None" "loaded_files ((source, rd) # fs) = loaded_files fs"
    | (there) fc where "rd = FileContents (Inr fc)"
  proof (cases rd)
    case (FileContents c)
    then show ?thesis using 2 that by (cases c) auto
  next
    case (FileAbsent e)
    then show ?thesis using 2 that by (auto split: if_splits)
  next
    case (FileUnreadable e)
    then show ?thesis using 2 by simp
  qed
  then show ?case
  proof cases
    case absent
    then show ?thesis using 2 by simp
  next
    case (there fc)
    with 2 obtain ls1 fcs' where one: "deserialize_individual_config env scc ex source fc ls = Ret (Inr ls1)"
      and rest: "load_files env scc ex fs ls1 = Ret (Inr (ls', fcs'))" and fcs: "fcs = fc # fcs'"
      by (auto simp: bind_sum_eq_Ret)
    from deserialize_individual_config_ok [OF one] obtain fd where "file_loaded env source fc ls ls1 fd" ..
    moreover have "fcs' = map snd (loaded_files fs) \<and> (\<exists>fds. files_loaded env (loaded_files fs) ls1 fds ls')"
      using 2(2) there one rest by simp
    ultimately obtain fds where "files_loaded env ((source, fc) # loaded_files fs) ls (fd # fds) ls'"
      "fcs' = map snd (loaded_files fs)" by auto
    then show ?thesis unfolding there fcs loaded_files.simps by (simp del: files_loaded.simps) blast
  qed
qed

lemma files_loaded_nth:
  assumes "files_loaded env fs ls fds ls'"
  shows "length fds = length fs \<and> (\<forall>i < length fs. \<exists>l l'. file_loaded env (fst (fs ! i)) (snd (fs ! i)) l l' (fds ! i))"
  using assms
proof (induction env fs ls fds ls' rule: files_loaded.induct)
  case (2 env source fc fs ls fd fds ls')
  then show ?case by (auto simp: nth_Cons split: nat.split)
qed auto

text \<open>Known groups only grow, and a known wrapper script is defined in a loaded file.\<close>

lemma files_loaded_groups:
  "files_loaded env fs ls fds ls' \<Longrightarrow> ld_known_groups ls \<subseteq> ld_known_groups ls'"
  by (induction env fs ls fds ls' rule: files_loaded.induct) (auto simp: file_loaded_def)


section \<open>The compiled data of a profile\<close>

definition file_profile :: "file_data \<Rightarrow> profile_name \<Rightarrow> unit compiled_data option" where
  "file_profile fd p = (if p = DEFAULT_PROFILE then Some (fd_default fd) else map_of (fd_others fd) p)"

definition cbp_lookup :: "compiled_by_profile \<Rightarrow> profile_name \<Rightarrow> unit compiled_data option" where
  "cbp_lookup c p = (if p = DEFAULT_PROFILE then Some (cbp_default c) else cbp_other c p)"

text \<open>A part of the data, nothing if there is none.\<close>

definition part :: "('d \<Rightarrow> 'a list) \<Rightarrow> 'd option \<Rightarrow> 'a list" where
  "part f d = (case d of None \<Rightarrow> [] | Some x \<Rightarrow> f x)"

lemma part_simps [simp]: "part f None = []" "part f (Some x) = f x"
  by (simp_all add: part_def)

definition fd_wf :: "file_data \<Rightarrow> bool" where
  "fd_wf fd \<longleftrightarrow> distinct (map fst (fd_others fd)) \<and> DEFAULT_PROFILE \<notin> fst ` set (fd_others fd)"

definition extended :: "unit compiled_data option \<Rightarrow> unit compiled_data option \<Rightarrow> unit compiled_data option" where
  "extended old new = (case new of
     None \<Rightarrow> old
   | Some data \<Rightarrow> Some (case old of None \<Rightarrow> reverse_data data | Some e \<Rightarrow> extend_reverse e data))"

lemma fold_add_others:
  assumes "distinct (map fst others)"
  shows "fold (\<lambda>(name, data) m. m(name \<mapsto> (case m name of
      None \<Rightarrow> reverse_data data | Some e \<Rightarrow> extend_reverse e data))) others m p = extended (m p) (map_of others p)"
  using assms
proof (induction others arbitrary: m)
  case (Cons x others)
  obtain n d where x: "x = (n, d)" by (cases x)
  then have "map_of others n = None" using Cons.prems by (simp add: map_of_eq_None_iff)
  then show ?case using Cons x by (auto simp: extended_def)
qed (simp add: extended_def)

lemma cbp_lookup_add:
  assumes "fd_wf fd"
  shows "cbp_lookup (add_compiled (fd_default fd, fd_others fd) c) p = extended (cbp_lookup c p) (file_profile fd p)"
  using assms by (auto simp: cbp_lookup_def add_compiled_def file_profile_def fd_wf_def fold_add_others)
    (auto simp: extended_def)

lemma part_extended:
  "part cd_overrides (extended old new) = part cd_overrides old @ rev (part cd_overrides new)"
  "part cd_scripts (extended old new) = part cd_scripts old @ rev (part cd_scripts new)"
  by (auto simp: extended_def reverse_data_def extend_reverse_def split: option.splits)

definition part_filter :: "unit compiled_data option \<Rightarrow> compiled_default_filter option" where
  "part_filter d = Option.bind d cd_profile_default_filter"

lemma part_filter_extended: "part_filter (extended old new) = or_else (part_filter new) (part_filter old)"
  by (auto simp: part_filter_def extended_def reverse_data_def extend_reverse_def or_else_def split: option.splits)

lemma find_map_single [simp]: "find_map f [x] = f x"
  by (cases "f x") simp_all

lemma find_map_cong: "(\<And>x. x \<in> set xs \<Longrightarrow> f x = g x) \<Longrightarrow> find_map f xs = find_map g xs"
  by (induction xs) (auto split: option.split)

lemma find_map_append: "find_map f (xs @ ys) = or_else (find_map f xs) (find_map f ys)"
  by (induction xs) (auto simp: or_else_def split: option.splits)

lemma or_else_simps [simp]: "or_else None b = b" "or_else a None = a" "or_else (Some x) b = Some x"
  by (auto simp: or_else_def split: option.splits)

lemma or_else_assoc: "or_else (or_else a b) c = or_else a (or_else b c)"
  by (auto simp: or_else_def split: option.splits)

definition add_file :: "file_data \<Rightarrow> compiled_by_profile \<Rightarrow> compiled_by_profile" where
  "add_file fd = add_compiled (fd_default fd, fd_others fd)"

lemma files_loaded_compiled:
  "files_loaded env fs ls fds ls' \<Longrightarrow> ld_compiled ls' = fold add_file fds (ld_compiled ls)"
  by (induction env fs ls fds ls' rule: files_loaded.induct) (auto simp: file_loaded_def add_file_def)

lemma fold_add_file:
  assumes "\<forall>fd \<in> set fds. fd_wf fd"
  shows "part cd_overrides (cbp_lookup (fold add_file fds c) p) =
      part cd_overrides (cbp_lookup c p) @ rev (concat (map (\<lambda>fd. part cd_overrides (file_profile fd p)) (rev fds)))"
    "part cd_scripts (cbp_lookup (fold add_file fds c) p) =
      part cd_scripts (cbp_lookup c p) @ rev (concat (map (\<lambda>fd. part cd_scripts (file_profile fd p)) (rev fds)))"
    "part_filter (cbp_lookup (fold add_file fds c) p) =
      or_else (find_map (\<lambda>fd. part_filter (file_profile fd p)) (rev fds)) (part_filter (cbp_lookup c p))"
  using assms
  by (induction fds arbitrary: c)
    (simp_all add: add_file_def cbp_lookup_add part_extended part_filter_extended find_map_append or_else_assoc
      del: find_map.simps(2))


section \<open>What a file says about a profile\<close>

text \<open>The tables of a file have distinct keys.\<close>

definition file_wf :: "file_config \<Rightarrow> bool" where
  "file_wf fc \<longleftrightarrow> (case fc_deserialized fc of Inl _ \<Rightarrow> True | Inr dn \<Rightarrow> distinct (map fst (ncd_profiles dn)))"

definition file_section :: "file_config \<Rightarrow> profile_name \<Rightarrow> custom_profile option" where
  "file_section fc p = (case fc_deserialized fc of Inl _ \<Rightarrow> None | Inr dn \<Rightarrow> map_of (ncd_profiles dn) p)"

definition file_overrides :: "file_config \<Rightarrow> profile_name \<Rightarrow> deserialized_override list" where
  "file_overrides fc p = (case file_section fc p of None \<Rightarrow> [] | Some cp \<Rightarrow> cp_overrides cp)"

definition file_scripts :: "file_config \<Rightarrow> profile_name \<Rightarrow> deserialized_profile_script list" where
  "file_scripts fc p = (case file_section fc p of None \<Rightarrow> [] | Some cp \<Rightarrow> cp_scripts cp)"

definition file_filter :: "file_config \<Rightarrow> profile_name \<Rightarrow> string option" where
  "file_filter fc p =
     (if p = DEFAULT_PROFILE then filter_lookup (fc_default_filter fc)
      else Option.bind (file_section fc p) cp_default_filter)"

definition filter_compiles :: "config_env \<Rightarrow> profile_name \<Rightarrow> string option \<Rightarrow> compiled_default_filter option \<Rightarrow> bool" where
  "filter_compiles env name df cdf \<longleftrightarrow> (case df of
     None \<Rightarrow> cdf = None
   | Some s \<Rightarrow> (\<exists>f. filterset_parse env s KDefaultFilter Unavailable = Ret (Inr f) \<and>
       cdf = Some \<lparr>cdf_expr = fs_compiled f, cdf_profile = name, cdf_section = FilterOfProfile\<rparr>))"

lemma default_profile_new_lists:
  "default_profile_new p = Ret d \<Longrightarrow> dp_overrides d = cp_overrides p \<and> dp_scripts d = cp_scripts p"
  by (auto simp: default_profile_new_def bind_outcome_eq_Ret)

lemma into_config_impl_profiles:
  assumes "into_config_impl this = Ret config"
  obtains p where "map_of (ncd_profiles this) DEFAULT_PROFILE = Some p"
    "dp_overrides (pc_default_profile (nci_profiles config)) = cp_overrides p"
    "dp_scripts (pc_default_profile (nci_profiles config)) = cp_scripts p"
    "pc_other_profiles (nci_profiles config) = filter (\<lambda>(name, _). name \<noteq> DEFAULT_PROFILE) (ncd_profiles this)"
proof -
  from assms obtain p d where "map_of (ncd_profiles this) DEFAULT_PROFILE = Some p" "default_profile_new p = Ret d"
    "pc_default_profile (nci_profiles config) = d"
    "pc_other_profiles (nci_profiles config) = filter (\<lambda>(name, _). name \<noteq> DEFAULT_PROFILE) (ncd_profiles this)"
    by (auto simp: into_config_impl_def bind_outcome_eq_Ret expect_some_def split: option.splits)
  with default_profile_new_lists [of p d] show thesis by (intro that [of p]) auto
qed

lemma map_of_filter_ne: "p \<noteq> k \<Longrightarrow> map_of (filter (\<lambda>(name, _). name \<noteq> k) xs) p = map_of xs p"
  by (induction xs) auto

lemma others_compile_keys: "others_compile env source ps ds \<Longrightarrow> map fst ds = map fst ps"
  unfolding others_compile_def by (induction ps ds rule: list_all2_induct) auto

lemma others_compile_lookup:
  assumes "others_compile env source ps ds"
  shows "case map_of ps p of
      None \<Rightarrow> map_of ds p = None
    | Some cp \<Rightarrow> \<exists>d. map_of ds p = Some d \<and>
        data_compiles env source p (cp_default_filter cp) (cp_overrides cp) (cp_scripts cp) d"
  using assms unfolding others_compile_def
  by (induction ps ds rule: list_all2_induct) (auto split: option.splits)

lemma overrides_compile_Nil [simp]: "overrides_compile env source p [] []"
  by (simp add: overrides_compile_def)

lemma scripts_compile_Nil [simp]: "scripts_compile env p [] []"
  by (simp add: scripts_compile_def)

lemma file_loaded_profile:
  assumes "file_loaded env source fc ls ls' fd" "file_wf fc"
  shows "fd_wf fd"
    and "overrides_compile env source p (file_overrides fc p) (part cd_overrides (file_profile fd p))"
    and "scripts_compile env p (file_scripts fc p) (part cd_scripts (file_profile fd p))"
    and "filter_compiles env p (file_filter fc p) (part_filter (file_profile fd p))"
proof -
  from assms(1) obtain dn this config where dn: "fc_deserialized fc = Inr dn" "ncd_profiles this = ncd_profiles dn"
    and config: "into_config_impl this = Ret config"
    and comp: "compiled_by_profile_new env source (nci_profiles config) (filter_lookup (fc_default_filter fc)) =
       Ret (Inr (fd_default fd, fd_others fd))"
    unfolding file_loaded_def by blast
  from config obtain dp where dp: "map_of (ncd_profiles dn) DEFAULT_PROFILE = Some dp"
    "dp_overrides (pc_default_profile (nci_profiles config)) = cp_overrides dp"
    "dp_scripts (pc_default_profile (nci_profiles config)) = cp_scripts dp"
    and others: "pc_other_profiles (nci_profiles config) = filter (\<lambda>(name, _). name \<noteq> DEFAULT_PROFILE) (ncd_profiles dn)"
    unfolding dn(2) [symmetric] by (rule into_config_impl_profiles)
  from compiled_by_profile_new_ok [OF comp, unfolded dp others] have
    c: "data_compiles env source DEFAULT_PROFILE (filter_lookup (fc_default_filter fc)) (cp_overrides dp) (cp_scripts dp) (fd_default fd)"
      "others_compile env source (filter (\<lambda>(name, _). name \<noteq> DEFAULT_PROFILE) (ncd_profiles dn)) (fd_others fd)"
    by auto
  have keys: "map fst (fd_others fd) = map fst (filter (\<lambda>(name, _). name \<noteq> DEFAULT_PROFILE) (ncd_profiles dn))"
    by (rule others_compile_keys [OF c(2)])
  then have "DEFAULT_PROFILE \<notin> fst ` set (fd_others fd)" unfolding set_map [symmetric] by auto
  then show "fd_wf fd" using keys assms(2) dn(1) by (simp add: fd_wf_def file_wf_def distinct_map_filter)
  have sec: "file_section fc q = map_of (ncd_profiles dn) q" for q by (simp add: file_section_def dn)
  have "overrides_compile env source p (file_overrides fc p) (part cd_overrides (file_profile fd p)) \<and>
    scripts_compile env p (file_scripts fc p) (part cd_scripts (file_profile fd p)) \<and>
    filter_compiles env p (file_filter fc p) (part_filter (file_profile fd p))"
  proof (cases "p = DEFAULT_PROFILE")
    case True
    then show ?thesis using c(1) dp(1)
      by (simp add: data_compiles_def file_overrides_def file_scripts_def file_filter_def sec file_profile_def
        filter_compiles_def part_filter_def)
  next
    case False
    then have fp: "file_profile fd p = map_of (fd_others fd) p" by (simp add: file_profile_def)
    have lookup: "case map_of (ncd_profiles dn) p of None \<Rightarrow> file_profile fd p = None
      | Some cp \<Rightarrow> \<exists>d. file_profile fd p = Some d \<and>
          data_compiles env source p (cp_default_filter cp) (cp_overrides cp) (cp_scripts cp) d"
      using others_compile_lookup [OF c(2), of p] unfolding map_of_filter_ne [OF False] fp .
    show ?thesis
    proof (cases "map_of (ncd_profiles dn) p")
      case None
      then show ?thesis using lookup False
        by (simp add: file_overrides_def file_scripts_def file_filter_def sec filter_compiles_def part_filter_def)
    next
      case (Some cp)
      with lookup obtain d where "file_profile fd p = Some d"
        "data_compiles env source p (cp_default_filter cp) (cp_overrides cp) (cp_scripts cp) d" by auto
      then show ?thesis using Some False
        by (simp add: data_compiles_def file_overrides_def file_scripts_def file_filter_def sec filter_compiles_def
          part_filter_def)
    qed
  qed
  then show "overrides_compile env source p (file_overrides fc p) (part cd_overrides (file_profile fd p))"
    "scripts_compile env p (file_scripts fc p) (part cd_scripts (file_profile fd p))"
    "filter_compiles env p (file_filter fc p) (part_filter (file_profile fd p))" by simp_all
qed


section \<open>The compiled data of a loaded profile\<close>

text \<open>The profile, its ancestors and the default profile.\<close>

definition profile_order :: "profile_name \<Rightarrow> (profile_name \<times> custom_profile) list \<Rightarrow> profile_name list" where
  "profile_order name ch = (if name = DEFAULT_PROFILE then [] else [name]) @ map fst ch @ [DEFAULT_PROFILE]"

lemma chain_fold:
  fixes c :: compiled_by_profile
  defines "merge \<equiv> \<lambda>p d. case cbp_other c p of Some data \<Rightarrow> chain_data data d | None \<Rightarrow> d"
  shows "cd_overrides (fold merge ps d) = concat (map (\<lambda>p. part cd_overrides (cbp_other c p)) (rev ps)) @ cd_overrides d"
    "cd_scripts (fold merge ps d) = concat (map (\<lambda>p. part cd_scripts (cbp_other c p)) (rev ps)) @ cd_scripts d"
    "cd_profile_default_filter (fold merge ps d) =
      or_else (find_map (\<lambda>p. part_filter (cbp_other c p)) (rev ps)) (cd_profile_default_filter d)"
  unfolding merge_def
  by (induction ps arbitrary: d)
    (auto simp: chain_data_def part_filter_def find_map_append or_else_assoc or_else_def
      split: option.splits simp del: find_map.simps(2))

lemma make_profile_Inr:
  assumes "make_profile nc name = Some (Inr ep)"
  obtains ch where "resolve_inheritance_chain (nci_profiles (nc_inner nc)) name = Some (Inr ch)"
    "profile_exists (nci_profiles (nc_inner nc)) name" "ea_inheritance_chain ep = map snd ch"
    "ea_scripts ep = nci_scripts (nc_inner nc)"
    "ea_compiled_data ep = fold (\<lambda>p d. case cbp_other (nc_compiled nc) p of Some data \<Rightarrow> chain_data data d | None \<Rightarrow> d)
       (rev (map fst ch) @ [name]) (cbp_default (nc_compiled nc))"
proof -
  from assms obtain cp ch where get: "get_profile (nci_profiles (nc_inner nc)) name = Inr cp"
    and ch: "resolve_inheritance_chain (nci_profiles (nc_inner nc)) name = Some (Inr ch)"
    by (auto simp: make_profile_def Let_def split: sum.splits option.splits)
  then have "profile_exists (nci_profiles (nc_inner nc)) name"
    using get_profile_exists [of "nci_profiles (nc_inner nc)" name] by simp
  then show thesis using assms get ch that [of ch] by (auto simp: make_profile_def Let_def)
qed

lemma chain_avoids_default:
  assumes "resolve_inheritance_chain c name = Some (Inr ch)"
  shows "DEFAULT_PROFILE \<notin> fst ` set ch" "name = DEFAULT_PROFILE \<Longrightarrow> ch = []"
proof -
  have path: "DEFAULT_PROFILE \<notin> fst ` set ch" if "inherits_path c cur ch" for cur
    using that by (induction c cur ch rule: inherits_path.induct) (auto simp: get_profile_Some_iff)
  from assms obtain p where "get_profile c name = Inr p" "chain_loop c (Option.bind p cp_inherits) [] = Some (Inr ch)"
    by (auto simp: resolve_inheritance_chain_def split: sum.splits)
  with chain_loop_path path show "DEFAULT_PROFILE \<notin> fst ` set ch" "name = DEFAULT_PROFILE \<Longrightarrow> ch = []"
    by (fastforce simp: get_profile_def chain_loop.simps)+
qed

lemma make_profile_data:
  assumes "make_profile nc name = Some (Inr ep)" and other: "cbp_other (nc_compiled nc) DEFAULT_PROFILE = None"
  obtains ch where "resolve_inheritance_chain (nci_profiles (nc_inner nc)) name = Some (Inr ch)"
    "ea_scripts ep = nci_scripts (nc_inner nc)"
    "cd_overrides (ea_compiled_data ep) =
       concat (map (\<lambda>p. part cd_overrides (cbp_lookup (nc_compiled nc) p)) (profile_order name ch))"
    "cd_scripts (ea_compiled_data ep) =
       concat (map (\<lambda>p. part cd_scripts (cbp_lookup (nc_compiled nc) p)) (profile_order name ch))"
    "cd_profile_default_filter (ea_compiled_data ep) =
       find_map (\<lambda>p. part_filter (cbp_lookup (nc_compiled nc) p)) (profile_order name ch)"
proof -
  let ?c = "nc_compiled nc"
  from assms(1) obtain ch where ch: "resolve_inheritance_chain (nci_profiles (nc_inner nc)) name = Some (Inr ch)"
    and scripts: "ea_scripts ep = nci_scripts (nc_inner nc)"
    and data: "ea_compiled_data ep = fold (\<lambda>p d. case cbp_other (nc_compiled nc) p of Some data \<Rightarrow> chain_data data d | None \<Rightarrow> d)
       (rev (map fst ch) @ [name]) (cbp_default (nc_compiled nc))" by (rule make_profile_Inr)
  note avoid = chain_avoids_default [OF ch]
  have look: "map (\<lambda>p. f (cbp_lookup ?c p)) (map fst ch) = map (\<lambda>p. f (cbp_other ?c p)) (map fst ch)" for f :: "_ \<Rightarrow> 'x"
    using avoid(1) by (auto simp: cbp_lookup_def intro: rev_image_eqI)
  have find: "find_map (\<lambda>p. part_filter (cbp_lookup ?c p)) (map fst ch) = find_map (\<lambda>p. part_filter (cbp_other ?c p)) (map fst ch)"
    using avoid(1) by (intro find_map_cong) (auto simp: cbp_lookup_def intro: rev_image_eqI)
  show thesis
    apply (rule that [OF ch scripts])
    unfolding data chain_fold profile_order_def map_append concat_append rev_append rev_rev_ident find_map_append find look
    using avoid(2) other by (auto simp: cbp_lookup_def part_filter_def or_else_assoc simp del: find_map.simps(2))
qed


lemma no_error_iff: "(\<forall>e. r \<noteq> Inl e) \<longleftrightarrow> r = Inr ()" for r :: "'e + unit"
  by (cases r) auto

lemma read_from_sources_ok:
  assumes "read_from_sources env scc composite ex ws cfg files = Ret (Inr nc)"
  obtains ls fds d where "files_loaded env (loaded_files files) initial_load fds ls"
    "nc_compiled nc = reverse_compiled (fold add_file fds compiled_for_default_config)"
    "composite (map snd (loaded_files files)) = Inr d" "into_config_impl d = Ret (nc_inner nc)"
    "sanitize_profile_inherits scc (nci_profiles (nc_inner nc)) {} = Inr ()"
proof -
  from assms obtain ls fcs where load: "load_files env scc ex files initial_load = Ret (Inr (ls, fcs))"
    and rest: "(case composite fcs of
         Inl kind \<Rightarrow> Ret (Inl (ld_warnings ls, cfg, kind))
       | Inr d \<Rightarrow> bind_outcome (into_config_impl d) (\<lambda>config.
           case sanitize_profile_inherits scc (nci_profiles config) {} of
             Inl es \<Rightarrow> Ret (Inl (ld_warnings ls, cfg, InheritanceErrors es))
           | Inr _ \<Rightarrow> Ret (Inr \<lparr>nc_workspace_root = ws, nc_inner = config,
               nc_compiled = reverse_compiled (ld_compiled ls)\<rparr>))) = Ret (Inr nc)"
    by (auto simp: read_from_sources_def bind_sum_eq_Ret Let_def)
  from load_files_ok [OF load] obtain fds where fcs: "fcs = map snd (loaded_files files)"
    and fds: "files_loaded env (loaded_files files) initial_load fds ls" by auto
  from rest obtain d config where "composite fcs = Inr d" "into_config_impl d = Ret config"
    "sanitize_profile_inherits scc (nci_profiles config) {} = Inr ()"
    "nc = \<lparr>nc_workspace_root = ws, nc_inner = config, nc_compiled = reverse_compiled (ld_compiled ls)\<rparr>"
    by (auto simp: bind_outcome_eq_Ret no_error_iff split: sum.splits)
  then show thesis using that [OF fds] files_loaded_compiled [OF fds] fcs by (simp add: initial_load_def)
qed

lemma cbp_lookup_reverse: "cbp_lookup (reverse_compiled c) p = map_option reverse_data (cbp_lookup c p)"
  by (simp add: cbp_lookup_def reverse_compiled_def)

lemma part_reverse:
  "part cd_overrides (map_option reverse_data d) = rev (part cd_overrides d)"
  "part cd_scripts (map_option reverse_data d) = rev (part cd_scripts d)"
  "part_filter (map_option reverse_data d) = part_filter d"
  by (cases d; simp add: reverse_data_def part_filter_def)+

lemma add_file_other:
  assumes "fd_wf fd" "cbp_other c DEFAULT_PROFILE = None"
  shows "cbp_other (add_file fd c) DEFAULT_PROFILE = None"
proof -
  have "map_of (fd_others fd) DEFAULT_PROFILE = None" using assms(1) by (simp add: fd_wf_def map_of_eq_None_iff)
  then show ?thesis using assms
    by (simp add: add_file_def add_compiled_def fold_add_others fd_wf_def extended_def)
qed

lemma fold_add_file_other:
  "\<forall>fd \<in> set fds. fd_wf fd \<Longrightarrow> cbp_other c DEFAULT_PROFILE = None \<Longrightarrow>
     cbp_other (fold add_file fds c) DEFAULT_PROFILE = None"
  by (induction fds arbitrary: c) (simp_all add: add_file_other)

text \<open>
  The sections of a profile that applies: for each name, in order, those of each file, the file with
  the highest priority first.
\<close>

definition documented_sections ::
  "(profile_name \<Rightarrow> file_config \<Rightarrow> 'a list) \<Rightarrow> (config_source \<times> file_config) list \<Rightarrow> profile_name list
     \<Rightarrow> (config_source \<times> profile_name \<times> nat \<times> 'a) list" where
  "documented_sections f files ps =
     concat (map (\<lambda>p. concat (map (\<lambda>(source, fc).
       map (\<lambda>(i, x). (source, p, i, x)) (enumerate 0 (f p fc))) (rev files))) ps)"

lemma list_all2_concat: "list_all2 (list_all2 P) xss yss \<Longrightarrow> list_all2 P (concat xss) (concat yss)"
  by (induction rule: list_all2_induct) (auto intro: list_all2_appendI)

lemma documented_sections_compile:
  assumes wf: "\<forall>(source, fc) \<in> set (loaded_files files). file_wf fc"
    and load: "files_loaded env (loaded_files files) initial_load fds ls"
    and comp: "\<And>source fc ls ls' fd p. file_loaded env source fc ls ls' fd \<Longrightarrow> file_wf fc \<Longrightarrow>
      list_all2 (\<lambda>ix. R (source, p, ix)) (enumerate 0 (f p fc)) (part g (file_profile fd p))"
  shows "list_all2 R (documented_sections f (loaded_files files) ps)
    (concat (map (\<lambda>p. concat (map (\<lambda>fd. part g (file_profile fd p)) (rev fds))) ps))"
  unfolding documented_sections_def
proof (intro list_all2_concat)
  let ?fs = "loaded_files files"
  have one: "list_all2 (\<lambda>sf fd. list_all2 R (map (\<lambda>ix. (fst sf, p, ix)) (enumerate 0 (f p (snd sf))))
     (part g (file_profile fd p))) ?fs fds" for p
  proof (rule list_all2_all_nthI)
    show "length ?fs = length fds" using files_loaded_nth [OF load] by simp
    fix i assume i: "i < length ?fs"
    obtain source fc where fs: "?fs ! i = (source, fc)" by fastforce
    with files_loaded_nth [OF load] i obtain l l' where "file_loaded env source fc l l' (fds ! i)" by fastforce
    moreover have "file_wf fc" using wf fs i by (metis (mono_tags, lifting) nth_mem case_prodD)
    ultimately show "list_all2 R (map (\<lambda>ix. (fst (?fs ! i), p, ix)) (enumerate 0 (f p (snd (?fs ! i)))))
       (part g (file_profile (fds ! i) p))"
      using comp [of source fc l l' "fds ! i" p] fs by (simp add: list.rel_map case_prod_beta)
  qed
  show "list_all2 (list_all2 R) (map (\<lambda>p. concat (map (\<lambda>(source, fc).
       map (\<lambda>(i, x). (source, p, i, x)) (enumerate 0 (f p fc))) (rev ?fs))) ps)
     (map (\<lambda>p. concat (map (\<lambda>fd. part g (file_profile fd p)) (rev fds))) ps)"
    unfolding list.rel_map
  proof (rule list.rel_refl, rule list_all2_concat)
    fix p
    show "list_all2 (list_all2 R) (map (\<lambda>(source, fc). map (\<lambda>(i, x). (source, p, i, x)) (enumerate 0 (f p fc))) (rev ?fs))
       (map (\<lambda>fd. part g (file_profile fd p)) (rev fds))"
      using one [of p] by (simp add: list.rel_map case_prod_beta rev_map [symmetric])
  qed
qed

end
