(* ===== verification/Config_Settings_Props.thy ===== *)
theory Config_Settings_Props
  imports Config_Load_Props
begin

text \<open>
  What a well-formed profile means for a test: the loops over the overrides and scripts against a
  direct reading of the documentation, test groups, and setup scripts.
\<close>

section \<open>Which overrides and scripts apply\<close>

definition filter_holds :: "eval_context \<Rightarrow> test_query \<Rightarrow> filterset option \<Rightarrow> bool" where
  "filter_holds ecx q expr \<longleftrightarrow> (case expr of
     None \<Rightarrow> True
   | Some f \<Rightarrow> test_sem (ec_regex ecx) (ec_default_filter ecx) q (\<lambda>_ _. False) (fs_compiled f))"

definition override_applies :: "eval_context \<Rightarrow> test_query \<Rightarrow> final_config compiled_override \<Rightarrow> bool" where
  "override_applies ecx q ov \<longleftrightarrow>
     platform_enabled (co_state ov) (binary_query_of q) \<and> filter_holds ecx q (override_filter ov)"

definition script_applies :: "eval_context \<Rightarrow> test_query \<Rightarrow> final_config compiled_profile_scripts \<Rightarrow> bool" where
  "script_applies ecx q s \<longleftrightarrow>
     platform_enabled (cps_state s) (binary_query_of q) \<and> filter_holds ecx q (psd_expr (cps_data s))"

definition expr_ok :: "filterset option \<Rightarrow> bool" where
  "expr_ok expr \<longleftrightarrow> (\<forall>f. expr = Some f \<longrightarrow> group_free (fs_compiled f))"

text \<open>A filter that is decided for every binary, without the default filter.\<close>

definition expr_decided :: "filterset option \<Rightarrow> bool" where
  "expr_decided expr \<longleftrightarrow> (\<forall>f. expr = Some f \<longrightarrow>
     (\<forall>l \<in> set (compiled_leaves (fs_compiled f)). binary_decided_leaf l \<and> l \<noteq> LDefault))"

definition override_ok :: "'st compiled_override \<Rightarrow> bool" where
  "override_ok ov \<longleftrightarrow> expr_ok (override_filter ov)"

definition script_ok :: "config_script_id set \<Rightarrow> 'st compiled_profile_scripts \<Rightarrow> bool" where
  "script_ok wrappers s \<longleftrightarrow> expr_ok (psd_expr (cps_data s)) \<and>
     (cps_list_wrapper s \<noteq> None \<longrightarrow> expr_decided (psd_expr (cps_data s))) \<and>
     set_option (cps_list_wrapper s) \<union> set_option (cps_run_wrapper s) \<subseteq> wrappers"

definition wrapper_ids :: "script_config \<Rightarrow> config_script_id set" where
  "wrapper_ids s = fst ` set (sc_wrapper s)"

definition profile_ok :: "evaluatable_profile \<Rightarrow> bool" where
  "profile_ok p \<longleftrightarrow> default_ok (cdf_expr (ep_resolved_default_filter p)) \<and>
     (\<forall>ov \<in> set (cd_overrides (ep_compiled_data p)). override_ok ov) \<and>
     (\<forall>s \<in> set (cd_scripts (ep_compiled_data p)). script_ok (wrapper_ids (ep_scripts p)) s)"

lemma matches_optional_eq:
  assumes "default_ok (ec_default_filter ecx)" "expr_ok expr"
  shows "matches_optional (Suc (Suc fuel)) ecx q expr = Some (Ret (filter_holds ecx q expr))"
  using assms matches_test_impl_denotes [of "ec_default_filter ecx" NoGroups]
  by (auto simp: matches_optional_def filter_holds_def matches_test_def expr_ok_def resolver_ok_def
      split: option.split simp del: matches_test_impl.simps)

lemma matches_test_query_eq:
  assumes "default_ok (ec_default_filter ecx)" "override_ok ov"
  shows "matches_test_query (Suc (Suc fuel)) ov q ecx = Some (Ret (override_applies ecx q ov))"
  using assms by (simp add: matches_test_query_def override_applies_def matches_optional_eq override_ok_def)

lemma script_is_enabled_eq:
  assumes "default_ok (ec_default_filter ecx)" "expr_ok (psd_expr (cps_data s))"
  shows "script_is_enabled (Suc (Suc fuel)) s q ecx = Some (Ret (script_applies ecx q s))"
  using assms by (simp add: script_is_enabled_def script_applies_def matches_optional_eq)

lemma matches_binary_decided_self:
  assumes "\<forall>l \<in> set (compiled_leaves e). binary_decided_leaf l \<and> l \<noteq> LDefault"
  shows "\<exists>b. matches_binary (Suc fuel) re df q e = Some (Some b)"
  unfolding matches_binary.simps(2) using assms
  by (auto simp del: matches_binary.simps intro!: collapse_binary_decided leaf_binary_decided)

text \<open>For a binary, the answer is known and is the answer for each of its tests.\<close>

lemma script_is_enabled_binary_eq:
  assumes "default_ok (ec_default_filter ecx)" "expr_decided (psd_expr (cps_data s))" "binary_query_of q = bq"
  shows "script_is_enabled_binary (Suc (Suc fuel)) s bq ecx = Some (Some (script_applies ecx q s))"
proof (cases "psd_expr (cps_data s)")
  case None
  then show ?thesis using assms(3) by (simp add: script_is_enabled_binary_def script_applies_def filter_holds_def)
next
  case (Some f)
  let ?e = "fs_compiled f"
  obtain b where b: "matches_binary (Suc (Suc fuel)) (ec_regex ecx) (ec_default_filter ecx) bq ?e = Some (Some b)"
    using matches_binary_decided_self assms(2) Some unfolding expr_decided_def by metis
  have "b = test_sem (ec_regex ecx) (ec_default_filter ecx) q (\<lambda>_ _. False) ?e"
    using matches_binary_known [OF assms(1), of fuel "ec_regex ecx" q ?e "\<lambda>_ _. False"] b assms(3)
    by (auto simp: known_as_def approx_def simp del: matches_binary.simps)
  then show ?thesis using b assms(3) Some
    by (simp add: script_is_enabled_binary_def script_applies_def filter_holds_def del: matches_binary.simps)
qed


section \<open>The loops\<close>

text \<open>A setting is the value of the first override that applies and has one.\<close>

definition first_set ::
  "final_config compiled_override list \<Rightarrow> (profile_override_data \<Rightarrow> 'a option) \<Rightarrow> 'a setting option" where
  "first_set ovs field = find_map (\<lambda>ov. map_option (\<lambda>v. (v, SourceOverride ov)) (field (co_data ov))) ovs"

definition first_settings ::
  "nextest_run_mode \<Rightarrow> final_config compiled_override list \<Rightarrow> partial_settings" where
  "first_settings run_mode ovs =
     \<lparr>pa_priority = first_set ovs od_priority,
      pa_threads_required = first_set ovs od_threads_required,
      pa_run_extra_args = first_set ovs od_run_extra_args,
      pa_retries = first_set ovs od_retries,
      pa_flaky_result = first_set ovs od_flaky_result,
      pa_slow_timeout = first_set ovs (od_timeout_for_mode run_mode),
      pa_leak_timeout = first_set ovs od_leak_timeout,
      pa_test_group = first_set ovs od_test_group,
      pa_success_output = first_set ovs od_success_output,
      pa_failure_output = first_set ovs od_failure_output,
      pa_junit_store_success_output = first_set ovs (djo_store_success_output \<circ> od_junit),
      pa_junit_store_failure_output = first_set ovs (djo_store_failure_output \<circ> od_junit),
      pa_junit_report_skipped = first_set ovs (djo_report_skipped \<circ> od_junit),
      pa_junit_flaky_fail_status = first_set ovs (djo_flaky_fail_status \<circ> od_junit)\<rparr>"

lemma first_set_snoc: "first_set (ovs @ [ov]) field = set_once ov field (first_set ovs field)"
  by (simp add: first_set_def find_map_append set_once_def or_else_def split: option.split del: find_map.simps(2))

lemma override_step_first:
  "override_step run_mode ov (first_settings run_mode ovs) = first_settings run_mode (ovs @ [ov])"
  by (simp add: override_step_def first_settings_def first_set_snoc)

lemma override_loop_from:
  assumes "default_ok (ec_default_filter ecx)" "\<forall>ov \<in> set ovs. override_ok ov"
  shows "override_loop (Suc (Suc fuel)) ecx run_mode q ovs (first_settings run_mode before) =
    Some (Ret (first_settings run_mode (before @ filter (override_applies ecx q) ovs)))"
  using assms
proof (induction ovs arbitrary: before)
  case (Cons ov ovs)
  then show ?case
    using Cons.IH [of "before @ [ov]"] Cons.IH [of before] by (simp add: matches_test_query_eq override_step_first)
qed simp

lemma override_loop_eq:
  assumes "default_ok (ec_default_filter ecx)" "\<forall>ov \<in> set ovs. override_ok ov"
  shows "override_loop (Suc (Suc fuel)) ecx run_mode q ovs no_settings =
    Some (Ret (first_settings run_mode (filter (override_applies ecx q) ovs)))"
proof -
  have "no_settings = first_settings run_mode []" by (simp add: no_settings_def first_settings_def first_set_def)
  then show ?thesis using override_loop_from [OF assms, of fuel run_mode q "[]"] by simp
qed

definition first_wrapper ::
  "(final_config compiled_profile_scripts \<Rightarrow> 'a option) \<Rightarrow> final_config compiled_profile_scripts list
     \<Rightarrow> 'a setting option" where
  "first_wrapper field ss = find_map (\<lambda>s. map_option (\<lambda>w. (w, SourceScript s)) (field s)) ss"

lemma run_wrapper_loop_eq:
  assumes "default_ok (ec_default_filter ecx)" "\<forall>s \<in> set ss. expr_ok (psd_expr (cps_data s))"
  shows "run_wrapper_loop (Suc (Suc fuel)) ecx q ss acc =
    Some (Ret (or_else acc (first_wrapper cps_run_wrapper (filter (script_applies ecx q) ss))))"
  using assms(2)
proof (induction ss arbitrary: acc)
  case (Cons s ss)
  then show ?case
    by (cases acc; cases "cps_run_wrapper s")
      (simp_all add: script_is_enabled_eq [OF assms(1)] first_wrapper_def or_else_def)
qed (simp add: first_wrapper_def)

lemma map_wrapper_script_known:
  "w \<in> wrapper_ids (ep_scripts p) \<Longrightarrow> \<exists>cfg. map_wrapper_script p w = Ret cfg \<and> map_of (sc_wrapper (ep_scripts p)) w = Some cfg"
  by (cases "map_of (sc_wrapper (ep_scripts p)) w")
    (auto simp: map_wrapper_script_def expect_some_def wrapper_ids_def map_of_eq_None_iff)

lemma find_map_Some: "find_map f xs = Some y \<Longrightarrow> \<exists>x \<in> set xs. f x = Some y"
  by (induction xs) (auto split: option.splits)

text \<open>The wrapper with its definition.\<close>

definition wrapper_config ::
  "evaluatable_profile \<Rightarrow> config_script_id setting option \<Rightarrow> wrapper_script_config setting option" where
  "wrapper_config p w = map_option (map_prod (\<lambda>i. the (map_of (sc_wrapper (ep_scripts p)) i)) id) w"

definition reference_settings ::
  "config_env \<Rightarrow> evaluatable_profile \<Rightarrow> nextest_run_mode \<Rightarrow> test_query \<Rightarrow> test_settings" where
  "reference_settings env p run_mode q =
     finish_settings p run_mode
       (first_settings run_mode (filter (override_applies (filterset_ecx env p) q) (cd_overrides (ep_compiled_data p))))
       (wrapper_config p (first_wrapper cps_run_wrapper
         (filter (script_applies (filterset_ecx env p) q) (cd_scripts (ep_compiled_data p)))))"

lemma settings_for_eq:
  assumes "profile_ok p"
  shows "settings_for (Suc (Suc fuel)) env p run_mode q = Some (Ret (reference_settings env p run_mode q))"
proof -
  let ?ecx = "filterset_ecx env p"
  let ?w = "first_wrapper cps_run_wrapper (filter (script_applies ?ecx q) (cd_scripts (ep_compiled_data p)))"
  have df: "default_ok (ec_default_filter ?ecx)" using assms by (simp add: profile_ok_def filterset_ecx_def)
  have ss: "\<forall>s \<in> set (cd_scripts (ep_compiled_data p)). expr_ok (psd_expr (cps_data s))"
    using assms by (auto simp: profile_ok_def script_ok_def)
  have ovs: "\<forall>ov \<in> set (cd_overrides (ep_compiled_data p)). override_ok ov"
    using assms by (simp add: profile_ok_def)
  have w: "(case ?w of None \<Rightarrow> Ret None
     | Some (w, src) \<Rightarrow> bind_outcome (map_wrapper_script p w) (\<lambda>cfg. Ret (Some (cfg, src)))) = Ret (wrapper_config p ?w)"
  proof (cases ?w)
    case (Some ws)
    then obtain s w where s: "s \<in> set (cd_scripts (ep_compiled_data p))" "cps_run_wrapper s = Some w" "ws = (w, SourceScript s)"
      by (auto simp: first_wrapper_def dest!: find_map_Some)
    then have "w \<in> wrapper_ids (ep_scripts p)" using assms by (auto simp: profile_ok_def script_ok_def)
    with map_wrapper_script_known s Some show ?thesis by (fastforce simp: wrapper_config_def)
  qed (simp add: wrapper_config_def)
  show ?thesis
    unfolding settings_for_def Let_def override_loop_eq [OF df ovs] run_wrapper_loop_eq [OF df ss] bind_eval_simps
      or_else_simps w reference_settings_def ..
qed


lemma list_wrapper_loop_eq:
  assumes "default_ok (ec_default_filter ecx)" "\<forall>s \<in> set ss. script_ok (wrapper_ids (ep_scripts p)) s"
    and q: "binary_query_of q = bq"
  shows "list_wrapper_loop (Suc (Suc fuel)) p ecx bq ss acc =
    Some (Ret (or_else acc (wrapper_config p (first_wrapper cps_list_wrapper (filter (script_applies ecx q) ss)))))"
  using assms(2)
proof (induction ss arbitrary: acc)
  case Nil
  then show ?case by (simp add: first_wrapper_def wrapper_config_def)
next
  case (Cons s ss)
  show ?case
  proof (cases "cps_list_wrapper s")
    case None
    then show ?thesis using Cons by (simp add: first_wrapper_def)
  next
    case (Some w)
    show ?thesis
    proof (cases acc)
      case None
      have "w \<in> wrapper_ids (ep_scripts p)" "expr_decided (psd_expr (cps_data s))"
        using Cons.prems Some by (auto simp: script_ok_def)
      with map_wrapper_script_known script_is_enabled_binary_eq [OF assms(1) _ q]
      obtain cfg where "map_wrapper_script p w = Ret cfg" "map_of (sc_wrapper (ep_scripts p)) w = Some cfg"
        "script_is_enabled_binary (Suc (Suc fuel)) s bq ecx = Some (Some (script_applies ecx q s))" by metis
      then show ?thesis using Cons Some None by (simp add: first_wrapper_def wrapper_config_def expect_some_def)
    next
      case (Some a)
      then show ?thesis using Cons \<open>cps_list_wrapper s = Some w\<close> by simp
    qed
  qed
qed

lemma list_settings_for_eq:
  assumes "profile_ok p" "binary_query_of q = bq"
  shows "list_settings_for (Suc (Suc fuel)) env p bq = Some (Ret (wrapper_config p
     (first_wrapper cps_list_wrapper (filter (script_applies (filterset_ecx env p) q) (cd_scripts (ep_compiled_data p))))))"
  using assms list_wrapper_loop_eq [of "filterset_ecx env p" "cd_scripts (ep_compiled_data p)" p q bq fuel None]
  by (simp add: list_settings_for_def profile_ok_def filterset_ecx_def)


section \<open>Test groups\<close>

definition test_id_of :: "test_query \<Rightarrow> test_instance_id" where
  "test_id_of q = (bq_binary_id (binary_query_of q), tq_test_name q)"

text \<open>The group of a test, in the settings of a normal run.\<close>

definition group_of :: "config_env \<Rightarrow> evaluatable_profile \<Rightarrow> test_query \<Rightarrow> test_group" where
  "group_of env p q = fst (ts_test_group (reference_settings env p ModeTest q))"

lemma precompute_loop_eq:
  assumes "profile_ok p" "distinct (map test_id_of tests)"
  shows "\<exists>m'. precompute_loop (Suc (Suc fuel)) env p tests m = Some (Ret m') \<and>
    (\<forall>q \<in> set tests. m' (test_id_of q) =
       (if group_of env p q = GlobalGroup then m (test_id_of q) else Some (group_of env p q))) \<and>
    (\<forall>k. k \<notin> test_id_of ` set tests \<longrightarrow> m' k = m k)"
  using assms(2)
proof (induction tests arbitrary: m)
  case (Cons t tests)
  let ?m = "if group_of env p t = GlobalGroup then m else m(test_id_of t \<mapsto> group_of env p t)"
  from Cons obtain m' where m': "precompute_loop (Suc (Suc fuel)) env p tests ?m = Some (Ret m')"
    "\<forall>q \<in> set tests. m' (test_id_of q) =
       (if group_of env p q = GlobalGroup then ?m (test_id_of q) else Some (group_of env p q))"
    "\<forall>k. k \<notin> test_id_of ` set tests \<longrightarrow> m' k = ?m k" by fastforce
  have "precompute_loop (Suc (Suc fuel)) env p (t # tests) m = Some (Ret m')"
    using m'(1) by (simp add: settings_for_eq [OF assms(1)] test_id_of_def group_of_def Let_def split: if_splits)
  moreover have new: "test_id_of q \<noteq> test_id_of t" if "q \<in> set tests" for q
    using that Cons.prems by (auto simp: image_iff)
  have "m' (test_id_of q) = (if group_of env p q = GlobalGroup then m (test_id_of q) else Some (group_of env p q))"
    if "q \<in> set (t # tests)" for q
  proof (cases "q = t")
    case True
    have "test_id_of t \<notin> test_id_of ` set tests" using Cons.prems by simp
    then have "m' (test_id_of t) = ?m (test_id_of t)" using m'(3) by blast
    then show ?thesis using True by simp
  next
    case False
    then have q: "q \<in> set tests" using that by simp
    have "?m (test_id_of q) = m (test_id_of q)" using new [OF q] by simp
    then show ?thesis using bspec [OF m'(2) q] by simp
  qed
  moreover have "m' k = m k" if "k \<notin> test_id_of ` set (t # tests)" for k
  proof -
    have "k \<notin> test_id_of ` set tests" using that by simp
    then have "m' k = ?m k" using m'(3) by blast
    then show ?thesis using that by simp
  qed
  ultimately show ?case by blast
qed simp

lemma is_member_test_eq:
  "is_member_test re m q matcher =
    is_match re matcher (group_str (case m (test_id_of q) of Some g \<Rightarrow> g | None \<Rightarrow> GlobalGroup))"
  by (auto simp: is_member_test_def test_id_of_def split: option.split test_group.split)

lemma precompute_member:
  assumes "profile_ok p" "distinct (map test_id_of tests)"
  shows "\<exists>m. precompute_group_memberships (Suc (Suc fuel)) env p tests = Some (Ret m) \<and>
    (\<forall>re matcher. \<forall>q \<in> set tests. is_member_test re m q matcher = is_match re matcher (group_str (group_of env p q)))"
proof -
  from precompute_loop_eq [OF assms, of fuel env Map.empty] obtain m where
    m: "precompute_loop (Suc (Suc fuel)) env p tests Map.empty = Some (Ret m)"
    "\<And>q. q \<in> set tests \<Longrightarrow> m (test_id_of q) = (if group_of env p q = GlobalGroup then None else Some (group_of env p q))"
    by auto
  then show ?thesis by (intro exI [of _ m]) (simp add: precompute_group_memberships_def is_member_test_eq)
qed


section \<open>Setup scripts\<close>

text \<open>The sections that mention a script, in order, once for each mention.\<close>

definition mentions ::
  "final_config compiled_profile_scripts list \<Rightarrow> config_script_id \<Rightarrow> final_config compiled_profile_scripts list" where
  "mentions sections sid = concat (map (\<lambda>s. map (\<lambda>_. s) (filter (\<lambda>i. i = sid) (cps_setup s))) sections)"

definition nonempty_map :: "('k \<Rightarrow> 'v list) \<Rightarrow> 'k \<rightharpoonup> 'v list" where
  "nonempty_map f = (\<lambda>k. if f k = [] then None else Some (f k))"

lemma add_mentions:
  "fold (\<lambda>sid m. m(sid \<mapsto> (case m sid of Some l \<Rightarrow> l | None \<Rightarrow> []) @ [s])) ids (nonempty_map f) =
    nonempty_map (\<lambda>k. f k @ map (\<lambda>_. s) (filter (\<lambda>i. i = k) ids))"
proof (induction ids arbitrary: f)
  case (Cons i ids)
  have "(nonempty_map f)(i \<mapsto> (case nonempty_map f i of Some l \<Rightarrow> l | None \<Rightarrow> []) @ [s]) =
      nonempty_map (f(i := f i @ [s]))" by (auto simp: nonempty_map_def)
  then have "fold (\<lambda>sid m. m(sid \<mapsto> (case m sid of Some l \<Rightarrow> l | None \<Rightarrow> []) @ [s])) (i # ids) (nonempty_map f) =
      nonempty_map (\<lambda>k. (f(i := f i @ [s])) k @ map (\<lambda>_. s) (filter (\<lambda>i. i = k) ids))"
    by (simp only: fold_simps Cons.IH)
  then show ?case by (simp only:) (auto simp: nonempty_map_def)
qed simp

lemma by_script_id_eq: "by_script_id sections = nonempty_map (mentions sections)"
proof -
  have "fold (\<lambda>s. fold (\<lambda>sid m. m(sid \<mapsto> (case m sid of Some l \<Rightarrow> l | None \<Rightarrow> []) @ [s])) (cps_setup s))
       sections (nonempty_map f) = nonempty_map (\<lambda>k. f k @ mentions sections k)" for f
    by (induction sections arbitrary: f) (simp_all add: add_mentions mentions_def)
  from this [of "\<lambda>_. []"] show ?thesis by (simp add: by_script_id_def nonempty_map_def)
qed

lemma any_enabled_eq:
  assumes "default_ok (ec_default_filter ecx)" "\<forall>s \<in> set ss. expr_ok (psd_expr (cps_data s))"
  shows "any_enabled (Suc (Suc fuel)) ecx q ss = Some (Ret (\<exists>s \<in> set ss. script_applies ecx q s))"
  using assms(2) by (induction ss) (auto simp: script_is_enabled_eq [OF assms(1)])

lemma enable_for_test_eq:
  assumes "default_ok (ec_default_filter ecx)" "\<forall>(_, ss) \<in> set es. \<forall>s \<in> set ss. expr_ok (psd_expr (cps_data s))"
  shows "enable_for_test (Suc (Suc fuel)) ecx q es ids =
    Some (Ret (ids \<union> {sid. \<exists>ss. (sid, ss) \<in> set es \<and> (\<exists>s \<in> set ss. script_applies ecx q s)}))"
  using assms(2)
proof (induction es arbitrary: ids)
  case (Cons e es)
  obtain sid ss where e: "e = (sid, ss)" by (cases e)
  have IH: "enable_for_test (Suc (Suc fuel)) ecx q es ids' =
    Some (Ret (ids' \<union> {sid. \<exists>ss. (sid, ss) \<in> set es \<and> (\<exists>s \<in> set ss. script_applies ecx q s)}))" for ids'
    using Cons by simp
  have "any_enabled (Suc (Suc fuel)) ecx q ss = Some (Ret (\<exists>s \<in> set ss. script_applies ecx q s))"
    using Cons.prems e by (intro any_enabled_eq [OF assms(1)]) auto
  then show ?case unfolding e by (simp add: IH) blast
qed simp

lemma enable_for_tests_eq:
  assumes "default_ok (ec_default_filter ecx)" "\<forall>(_, ss) \<in> set es. \<forall>s \<in> set ss. expr_ok (psd_expr (cps_data s))"
  shows "enable_for_tests (Suc (Suc fuel)) ecx es tests ids =
    Some (Ret (ids \<union> {sid. \<exists>q \<in> set tests. \<exists>ss. (sid, ss) \<in> set es \<and> (\<exists>s \<in> set ss. script_applies ecx q s)}))"
  by (induction tests arbitrary: ids) (auto simp: enable_for_test_eq [OF assms])

lemma collect_enabled_eq:
  assumes "distinct (map fst cs)" "\<forall>sid \<in> ids \<inter> fst ` set cs. m sid \<noteq> None"
  shows "collect_enabled m ids cs = Ret (map (\<lambda>(sid, cfg). \<lparr>ss_id = sid, ss_config = cfg, ss_compiled = the (m sid)\<rparr>)
     (filter (\<lambda>(sid, _). sid \<in> ids) cs))"
  using assms
proof (induction cs arbitrary: m)
  case (Cons c cs)
  obtain sid cfg where c: "c = (sid, cfg)" by (cases c)
  have IH: "collect_enabled m' ids cs = Ret (map (\<lambda>(sid, cfg). \<lparr>ss_id = sid, ss_config = cfg, ss_compiled = the (m sid)\<rparr>)
     (filter (\<lambda>(sid, _). sid \<in> ids) cs))" if "\<And>i. i \<in> fst ` set cs \<Longrightarrow> m' i = m i" for m'
  proof -
    have "collect_enabled m' ids cs = Ret (map (\<lambda>(sid, cfg). \<lparr>ss_id = sid, ss_config = cfg, ss_compiled = the (m' sid)\<rparr>)
       (filter (\<lambda>(sid, _). sid \<in> ids) cs))" using Cons that by (intro Cons.IH) auto
    also have "\<dots> = Ret (map (\<lambda>(sid, cfg). \<lparr>ss_id = sid, ss_config = cfg, ss_compiled = the (m sid)\<rparr>)
       (filter (\<lambda>(sid, _). sid \<in> ids) cs))" using that by (force intro!: map_cong)
    finally show ?thesis .
  qed
  show ?case
  proof (cases "sid \<in> ids")
    case True
    then obtain l where "m sid = Some l" using Cons.prems(2) c by force
    moreover have "collect_enabled (m(sid := None)) ids cs =
      Ret (map (\<lambda>(sid, cfg). \<lparr>ss_id = sid, ss_config = cfg, ss_compiled = the (m sid)\<rparr>) (filter (\<lambda>(sid, _). sid \<in> ids) cs))"
      using Cons.prems(1) c by (intro IH) auto
    ultimately show ?thesis using True c by (simp add: expect_some_def)
  next
    case False
    then show ?thesis using c IH [of m] by simp
  qed
qed simp

definition script_needed ::
  "eval_context \<Rightarrow> final_config compiled_profile_scripts list \<Rightarrow> test_query list \<Rightarrow> config_script_id \<Rightarrow> bool" where
  "script_needed ecx sections tests sid \<longleftrightarrow>
     (\<exists>q \<in> set tests. \<exists>s \<in> set sections. sid \<in> set (cps_setup s) \<and> script_applies ecx q s)"

lemma set_mentions: "set (mentions sections sid) = {s \<in> set sections. sid \<in> set (cps_setup s)}"
  by (auto simp: mentions_def)

lemma setup_scripts_new_eq:
  assumes "profile_ok p" "distinct (map fst (sc_setup (ep_scripts p)))"
    and order: "set (order (by_script_id (cd_scripts (ep_compiled_data p)))) =
      {(k, v). by_script_id (cd_scripts (ep_compiled_data p)) k = Some v}"
  shows "setup_scripts_new (Suc (Suc fuel)) env order p tests =
    Some (Ret (map (\<lambda>(sid, cfg). \<lparr>ss_id = sid, ss_config = cfg, ss_compiled = mentions (cd_scripts (ep_compiled_data p)) sid\<rparr>)
      (filter (\<lambda>(sid, _). script_needed (filterset_ecx env p) (cd_scripts (ep_compiled_data p)) tests sid)
        (sc_setup (ep_scripts p)))))"
proof -
  let ?ss = "cd_scripts (ep_compiled_data p)" and ?ecx = "filterset_ecx env p"
  let ?m = "by_script_id ?ss"
  let ?ids = "{sid. script_needed ?ecx ?ss tests sid}"
  have df: "default_ok (ec_default_filter ?ecx)" using assms(1) by (simp add: profile_ok_def filterset_ecx_def)
  have entries: "(sid, l) \<in> set (order ?m) \<longleftrightarrow> l = mentions ?ss sid \<and> l \<noteq> []" for sid l
    unfolding order by (auto simp: by_script_id_eq nonempty_map_def)
  have "\<forall>(_, ss) \<in> set (order ?m). \<forall>s \<in> set ss. expr_ok (psd_expr (cps_data s))"
    using assms(1) by (auto simp: entries set_mentions profile_ok_def script_ok_def)
  from enable_for_tests_eq [OF df this, of fuel tests "{}"]
  have ids: "enable_for_tests (Suc (Suc fuel)) ?ecx (order ?m) tests {} = Some (Ret ?ids)"
    by (simp add: entries script_needed_def set_mentions) (metis (mono_tags, lifting) empty_iff empty_set mem_Collect_eq set_mentions)
  have known: "?m sid = Some (mentions ?ss sid)" if "sid \<in> ?ids" for sid
    using that set_mentions [of ?ss sid] by (auto simp: by_script_id_eq nonempty_map_def script_needed_def)
  have "collect_enabled ?m ?ids (sc_setup (ep_scripts p)) =
    Ret (map (\<lambda>(sid, cfg). \<lparr>ss_id = sid, ss_config = cfg, ss_compiled = the (?m sid)\<rparr>)
      (filter (\<lambda>(sid, _). sid \<in> ?ids) (sc_setup (ep_scripts p))))"
    using assms(2) known by (intro collect_enabled_eq) auto
  also have "\<dots> = Ret (map (\<lambda>(sid, cfg). \<lparr>ss_id = sid, ss_config = cfg, ss_compiled = mentions ?ss sid\<rparr>)
      (filter (\<lambda>(sid, _). sid \<in> ?ids) (sc_setup (ep_scripts p))))"
    using known by auto
  finally show ?thesis using ids by (auto simp: setup_scripts_new_def Let_def script_needed_def)
qed

end
