(* ===== verification/Config_Loaded.thy ===== *)
theory Config_Loaded
  imports Config_Settings_Props
begin

text \<open>
  Profiles of a loaded configuration are well formed: their filters hold no \<open>group()\<close>, the default
  filter does not refer to itself, and the wrapper scripts that are named are defined.
\<close>

section \<open>Filtersets\<close>

lemma filterset_parse_ok:
  assumes "filterset_parse env s kind kg = Ret (Inr f)"
  shows "compile (fe_regex env) (fe_graph env) (fs_parsed f) kind kg = Ret (Inr (fs_compiled f))"
  using assms by (auto simp: filterset_parse_def bind_sum_eq_Ret split: option.splits if_splits)

lemma filterset_parse_option_ok:
  assumes "filterset_parse_option env s kind kg = Ret (Inr (Some f))"
  shows "compile (fe_regex env) (fe_graph env) (fs_parsed f) kind kg = Ret (Inr (fs_compiled f))"
  using assms filterset_parse_ok
  by (auto simp: filterset_parse_option_def bind_sum_eq_Ret split: option.splits)

lemma compile_not_runtime_only:
  assumes "compile re graph e kind kg = Ret (Inr c)" "runtime_only_leaves e = []" "leaf \<in> set (compiled_leaves c)"
  shows "binary_decided_leaf leaf \<and> leaf \<noteq> LDefault"
proof -
  from assms(1) obtain cx where "compile_expr re graph cx kg e [] = Ret (c, [])" by (rule compile_InrE)
  then obtain p es es' where p: "p \<in> set (parsed_leaves e)"
    and sd: "compile_set_def re graph cx kg p es = Ret (leaf, es')" using assms(3) by (rule compile_expr_leaf)
  from p assms(2) have "\<not> parsed_is_runtime_only p" by (auto simp: runtime_only_leaves_def filter_empty_conv)
  then have "\<not> is_group_parsed p" "\<And>m s. p \<noteq> PTest m s" "\<And>s. p \<noteq> PDefault s" by (cases p; auto)+
  with compile_set_def_shape [OF sd] show ?thesis by simp
qed


section \<open>Compiled overrides and scripts\<close>

lemma compiled_override_new_ok:
  assumes "compiled_override_new env source name i src = Ret (Inr ov)"
  shows "(\<exists>f. filterset_parse_option env (do_filter src) KOverrideFilter Unavailable = Ret (Inr f) \<and>
      override_filter ov = f) \<and>
    (\<forall>d. od_filter (co_data ov) = Some (OverrideDefaultFilter d) \<longrightarrow>
      (\<exists>g. filterset_parse_option env (do_default_filter src) KDefaultFilter Unavailable = Ret (Inr (Some g)) \<and>
        cdf_expr d = fs_compiled g \<and> cdf_profile d = name \<and> cdf_section d = FilterOfOverride i))"
proof -
  from assms obtain rf rd where rf: "filterset_parse_option env (do_filter src) KOverrideFilter Unavailable = Ret rf"
    and rd: "filterset_parse_option env (do_default_filter src) KDefaultFilter Unavailable = Ret rd"
    by (auto simp: compiled_override_new_def Let_def bind_outcome_eq_Ret split: if_splits)
  from assms rf rd obtain f d where fd: "rf = Inr f" "rd = Inr d"
    by (cases rf; cases rd) (auto simp: compiled_override_new_def Let_def split: if_splits sum.splits)
  show ?thesis using assms rf rd unfolding fd
    by (cases f; cases d)
      (auto simp: compiled_override_new_def Let_def override_filter_def split: if_splits sum.splits)
qed

lemma override_filter_group_free: "compile re graph e KOverrideFilter kg = Ret (Inr c) \<Longrightarrow> group_free c"
  by (erule compile_group_free) (simp add: bans_group_def)

lemma default_filter_group_free: "compile re graph e KDefaultFilter kg = Ret (Inr c) \<Longrightarrow> group_free c"
  by (erule compile_group_free) (simp add: bans_group_def)

lemma compiled_override_ok:
  assumes "compiled_override_new env source name i src = Ret (Inr ov)"
  shows "override_ok ov"
    and "od_filter (co_data ov) = Some (OverrideDefaultFilter d) \<Longrightarrow> default_ok (cdf_expr d)"
  using compiled_override_new_ok [OF assms]
  by (auto simp: override_ok_def expr_ok_def
      dest!: filterset_parse_option_ok dest: override_filter_group_free compile_default_ok)

lemma compiled_scripts_new_ok:
  assumes "compiled_profile_scripts_new env name i src = Ret (Inr s)"
  shows "filterset_parse_option env (dps_filter src) KDefaultFilter Unavailable = Ret (Inr (psd_expr (cps_data s)))"
proof -
  from assms obtain r where r: "filterset_parse_option env (dps_filter src) KDefaultFilter Unavailable = Ret r"
    by (auto simp: compiled_profile_scripts_new_def Let_def bind_outcome_eq_Ret split: if_splits)
  then show ?thesis using assms
    by (cases r) (auto simp: compiled_profile_scripts_new_def Let_def split: if_splits sum.splits)
qed

lemma compiled_scripts_ok:
  assumes "compiled_profile_scripts_new env name i src = Ret (Inr s)"
  shows "expr_ok (psd_expr (cps_data s))"
    and "(\<And>f. psd_expr (cps_data s) = Some f \<Longrightarrow> runtime_only_leaves (fs_parsed f) = []) \<Longrightarrow>
      expr_decided (psd_expr (cps_data s))"
proof -
  have "compile (fe_regex env) (fe_graph env) (fs_parsed f) KDefaultFilter Unavailable = Ret (Inr (fs_compiled f))"
    if "psd_expr (cps_data s) = Some f" for f
    using compiled_scripts_new_ok [OF assms] that by (auto dest: filterset_parse_option_ok)
  then show "expr_ok (psd_expr (cps_data s))"
    "(\<And>f. psd_expr (cps_data s) = Some f \<Longrightarrow> runtime_only_leaves (fs_parsed f) = []) \<Longrightarrow>
      expr_decided (psd_expr (cps_data s))"
    by (auto simp: expr_ok_def expr_decided_def dest: default_filter_group_free compile_not_runtime_only)
qed


section \<open>The checks on the scripts of a file\<close>

lemma fold_no_errors:
  assumes "\<And>x e. x \<in> set xs \<Longrightarrow> g x e = z \<longleftrightarrow> e = z \<and> P x"
  shows "fold g xs e = z \<longleftrightarrow> e = z \<and> (\<forall>x \<in> set xs. P x)"
  using assms by (induction xs arbitrary: e) auto

definition script_use_ok ::
  "(config_script_id \<rightharpoonup> script_type) \<Rightarrow> profile_script_type \<Rightarrow> filterset option \<Rightarrow> config_script_id \<Rightarrow> bool" where
  "script_use_ok known u expr script \<longleftrightarrow> (\<exists>ty. known script = Some ty \<and> script_type_matches ty u) \<and>
     (u = UseListWrapper \<longrightarrow> (\<forall>f. expr = Some f \<longrightarrow> runtime_only_leaves (fs_parsed f) = []))"

lemma check_script_id_none:
  "check_script_id known name u expr script errs = no_script_errors \<longleftrightarrow>
     errs = no_script_errors \<and> script_use_ok known u expr script"
  by (cases errs) (auto simp: check_script_id_def script_use_ok_def no_script_errors_def Let_def split: option.split)

lemma check_script_ids_none:
  "check_script_ids known name u expr scripts errs = no_script_errors \<longleftrightarrow>
     errs = no_script_errors \<and> (\<forall>s \<in> set scripts. script_use_ok known u expr s)"
  unfolding check_script_ids_def by (rule fold_no_errors) (rule check_script_id_none)

definition section_ok :: "(config_script_id \<rightharpoonup> script_type) \<Rightarrow> unit compiled_profile_scripts \<Rightarrow> bool" where
  "section_ok known s \<longleftrightarrow>
     (\<forall>sid \<in> set (cps_setup s). script_use_ok known UseSetup (psd_expr (cps_data s)) sid) \<and>
     (\<forall>sid \<in> set_option (cps_list_wrapper s). script_use_ok known UseListWrapper (psd_expr (cps_data s)) sid) \<and>
     (\<forall>sid \<in> set_option (cps_run_wrapper s). script_use_ok known UseRunWrapper (psd_expr (cps_data s)) sid)"

lemma set_option_slice: "set (option_slice v) = set_option v"
  by (cases v) (simp_all add: option_slice_def)

lemma check_profile_scripts_none:
  "check_profile_scripts known name s errs = no_script_errors \<longleftrightarrow> errs = no_script_errors \<and> section_ok known s"
  by (auto simp: check_profile_scripts_def check_script_ids_none section_ok_def set_option_slice)

lemma profile_script_errors_none:
  "profile_script_errors_of known profiles = no_script_errors \<longleftrightarrow>
     (\<forall>(name, d) \<in> set profiles. \<forall>s \<in> set (cd_scripts d). section_ok known s)"
proof -
  have "fold (\<lambda>(name, d). fold (check_profile_scripts known name) (cd_scripts d)) profiles e = no_script_errors \<longleftrightarrow>
      e = no_script_errors \<and> (\<forall>x \<in> set profiles. \<forall>s \<in> set (cd_scripts (snd x)). section_ok known s)" for e
    by (rule fold_no_errors) (auto simp: case_prod_beta intro!: fold_no_errors check_profile_scripts_none)
  then show ?thesis by (auto simp: profile_script_errors_of_def)
qed

lemma script_info_wrapper: "script_info s sid = Ret WrapperScript \<Longrightarrow> sid \<in> wrapper_ids s"
  by (auto simp: script_info_def wrapper_ids_def split: if_splits)

definition known_wrappers :: "load_state \<Rightarrow> config_script_id set" where
  "known_wrappers ls = {sid. ld_known_scripts ls sid = Some WrapperScript}"

definition file_wrappers :: "file_config \<Rightarrow> config_script_id set" where
  "file_wrappers fc = (case fc_deserialized fc of Inl _ \<Rightarrow> {} | Inr dn \<Rightarrow> wrapper_ids (ncd_scripts dn))"

lemma file_loaded_wrappers:
  "file_loaded env source fc ls ls' fd \<Longrightarrow> known_wrappers ls' \<subseteq> known_wrappers ls \<union> file_wrappers fc"
  by (fastforce simp: file_loaded_def known_wrappers_def file_wrappers_def wrapper_ids_def dest: script_info_wrapper)

lemma section_ok_wrappers:
  assumes "section_ok (ld_known_scripts ls) s"
  shows "set_option (cps_list_wrapper s) \<union> set_option (cps_run_wrapper s) \<subseteq> known_wrappers ls"
    and "cps_list_wrapper s \<noteq> None \<Longrightarrow> psd_expr (cps_data s) = Some f \<Longrightarrow> runtime_only_leaves (fs_parsed f) = []"
proof -
  have "known sid = Some WrapperScript" if "script_use_ok known u e sid" "u = UseListWrapper \<or> u = UseRunWrapper" for known u e sid
  proof -
    from that obtain ty where "known sid = Some ty" "script_type_matches ty u" by (auto simp: script_use_ok_def)
    then show ?thesis using that(2) by (cases ty) auto
  qed
  then show "set_option (cps_list_wrapper s) \<union> set_option (cps_run_wrapper s) \<subseteq> known_wrappers ls"
    using assms by (fastforce simp: section_ok_def known_wrappers_def)
  show "cps_list_wrapper s \<noteq> None \<Longrightarrow> psd_expr (cps_data s) = Some f \<Longrightarrow> runtime_only_leaves (fs_parsed f) = []"
    using assms by (auto simp: section_ok_def script_use_ok_def)
qed

lemma file_loaded_sections:
  assumes "file_loaded env source fc ls ls' fd" "s \<in> set (part cd_scripts (file_profile fd p))"
  shows "section_ok (ld_known_scripts ls') s"
proof -
  have ok: "\<forall>(name, d) \<in> set ((DEFAULT_PROFILE, fd_default fd) # fd_others fd). \<forall>s \<in> set (cd_scripts d). section_ok (ld_known_scripts ls') s"
    using assms(1) unfolding profile_script_errors_none [symmetric] file_loaded_def by blast
  from assms(2) obtain d where d: "file_profile fd p = Some d" "s \<in> set (cd_scripts d)"
    by (cases "file_profile fd p") auto
  then have "\<exists>name. (name, d) \<in> set ((DEFAULT_PROFILE, fd_default fd) # fd_others fd)"
    by (auto simp: file_profile_def split: if_splits dest: map_of_SomeD)
  then show ?thesis using ok d(2) by blast
qed


section \<open>The profile that is loaded\<close>

definition profile_loaded ::
  "config_env \<Rightarrow> scc_function \<Rightarrow> (file_config list \<Rightarrow> config_parse_error_kind + nextest_config_deserialize)
     \<Rightarrow> string set \<Rightarrow> (config_source \<times> (string + file_config) file_read) list \<Rightarrow> profile_name
     \<Rightarrow> nextest_config \<Rightarrow> early_profile \<Rightarrow> bool" where
  "profile_loaded env scc composite ex files name nc ep \<longleftrightarrow>
     (\<forall>(source, fc) \<in> set (loaded_files files). file_wf fc) \<and>
     (\<exists>ws cfg. read_from_sources env scc composite ex ws cfg files = Ret (Inr nc)) \<and>
     make_profile nc name = Some (Inr ep)"

definition default_filter_parses :: "config_env \<Rightarrow> profile_name \<times> string \<Rightarrow> compiled_default_filter \<Rightarrow> bool" where
  "default_filter_parses env = (\<lambda>(p, s) d. \<exists>f. filterset_parse env s KDefaultFilter Unavailable = Ret (Inr f) \<and>
     d = \<lparr>cdf_expr = fs_compiled f, cdf_profile = p, cdf_section = FilterOfProfile\<rparr>)"

definition documented_default_filter ::
  "(config_source \<times> file_config) list \<Rightarrow> profile_name list \<Rightarrow> (profile_name \<times> string) option" where
  "documented_default_filter files ps =
     find_map (\<lambda>p. find_map (\<lambda>(source, fc). map_option (Pair p) (file_filter fc p)) (rev files)) ps"

definition documented_overrides ::
  "(config_source \<times> file_config) list \<Rightarrow> profile_name list
     \<Rightarrow> (config_source \<times> profile_name \<times> nat \<times> deserialized_override) list" where
  "documented_overrides = documented_sections (\<lambda>p fc. file_overrides fc p)"

definition documented_scripts ::
  "(config_source \<times> file_config) list \<Rightarrow> profile_name list
     \<Rightarrow> (config_source \<times> profile_name \<times> nat \<times> deserialized_profile_script) list" where
  "documented_scripts = documented_sections (\<lambda>p fc. file_scripts fc p)"

lemma find_map_rel:
  "list_all2 (\<lambda>x y. rel_option Q (f x) (g y)) xs ys \<Longrightarrow> rel_option Q (find_map f xs) (find_map g ys)"
  by (induction rule: list_all2_induct) (auto split: option.split)

lemma filter_compiles_rel:
  "filter_compiles env p df d \<longleftrightarrow> rel_option (default_filter_parses env) (map_option (Pair p) df) d"
  by (cases df; cases d) (auto simp: filter_compiles_def default_filter_parses_def)

lemma files_filters:
  assumes wf: "\<forall>(source, fc) \<in> set (loaded_files files). file_wf fc"
    and load: "files_loaded env (loaded_files files) initial_load fds ls"
  shows "rel_option (default_filter_parses env) (documented_default_filter (loaded_files files) ps)
    (find_map (\<lambda>p. find_map (\<lambda>fd. part_filter (file_profile fd p)) (rev fds)) ps)"
  unfolding documented_default_filter_def
proof (intro find_map_rel list.rel_refl)
  fix p
  let ?fs = "loaded_files files"
  have "list_all2 (\<lambda>sf fd. rel_option (default_filter_parses env)
      (case sf of (source, fc) \<Rightarrow> map_option (Pair p) (file_filter fc p)) (part_filter (file_profile fd p))) ?fs fds"
  proof (rule list_all2_all_nthI)
    show "length ?fs = length fds" using files_loaded_nth [OF load] by simp
    fix i assume i: "i < length ?fs"
    obtain source fc where fs: "?fs ! i = (source, fc)" by fastforce
    with files_loaded_nth [OF load] i obtain l l' where "file_loaded env source fc l l' (fds ! i)" by fastforce
    moreover have "file_wf fc" using wf fs i by (metis (mono_tags, lifting) nth_mem case_prodD)
    ultimately show "rel_option (default_filter_parses env)
      (case ?fs ! i of (source, fc) \<Rightarrow> map_option (Pair p) (file_filter fc p)) (part_filter (file_profile (fds ! i) p))"
      using file_loaded_profile(4) [of env source fc l l' "fds ! i" p] fs by (simp add: filter_compiles_rel)
  qed
  then show "list_all2 (\<lambda>sf fd. rel_option (default_filter_parses env)
      (case sf of (source, fc) \<Rightarrow> map_option (Pair p) (file_filter fc p)) (part_filter (file_profile fd p)))
      (rev ?fs) (rev fds)" by simp
qed

lemma initial_lookup:
  "part cd_overrides (cbp_lookup compiled_for_default_config p) = []"
  "part cd_scripts (cbp_lookup compiled_for_default_config p) = []"
  "part_filter (cbp_lookup compiled_for_default_config p) =
    (if p = DEFAULT_PROFILE then Some default_filter_for_default_config else None)"
  by (simp_all add: cbp_lookup_def compiled_for_default_config_def part_filter_def)

lemma files_loaded_wf:
  assumes wf: "\<forall>(source, fc) \<in> set (loaded_files files). file_wf fc"
    and load: "files_loaded env (loaded_files files) ls0 fds ls"
  shows "\<forall>fd \<in> set fds. fd_wf fd"
proof
  fix fd assume "fd \<in> set fds"
  then obtain i where i: "i < length (loaded_files files)" "fd = fds ! i"
    using files_loaded_nth [OF load] by (auto simp: in_set_conv_nth)
  then obtain l l' where "file_loaded env (fst (loaded_files files ! i)) (snd (loaded_files files ! i)) l l' fd"
    using files_loaded_nth [OF load] by blast
  moreover have "file_wf (snd (loaded_files files ! i))"
    using wf i(1) by (metis (mono_tags, lifting) nth_mem case_prod_beta)
  ultimately show "fd_wf fd" by (rule file_loaded_profile(1))
qed

lemma find_map_or_last:
  "find_map (\<lambda>p. or_else (f p) (if p = k then Some d else None)) (ps @ [k]) =
    (if k \<in> set ps then find_map (\<lambda>p. or_else (f p) (if p = k then Some d else None)) ps
     else or_else (find_map f (ps @ [k])) (Some d))"
  by (induction ps) (auto simp: or_else_def split: option.split)

lemma profile_loaded_data:
  assumes "profile_loaded env scc composite ex files name nc ep"
  obtains ch fds ls where "resolve_inheritance_chain (nci_profiles (nc_inner nc)) name = Some (Inr ch)"
    "files_loaded env (loaded_files files) initial_load fds ls"
    "ea_scripts ep = nci_scripts (nc_inner nc)"
    "cd_overrides (ea_compiled_data ep) =
       concat (map (\<lambda>p. concat (map (\<lambda>fd. part cd_overrides (file_profile fd p)) (rev fds))) (profile_order name ch))"
    "cd_scripts (ea_compiled_data ep) =
       concat (map (\<lambda>p. concat (map (\<lambda>fd. part cd_scripts (file_profile fd p)) (rev fds))) (profile_order name ch))"
    "cd_profile_default_filter (ea_compiled_data ep) =
       or_else (find_map (\<lambda>p. find_map (\<lambda>fd. part_filter (file_profile fd p)) (rev fds)) (profile_order name ch))
         (Some default_filter_for_default_config)"
proof -
  from assms obtain ws cfg where wf: "\<forall>(source, fc) \<in> set (loaded_files files). file_wf fc"
    and read: "read_from_sources env scc composite ex ws cfg files = Ret (Inr nc)"
    and make: "make_profile nc name = Some (Inr ep)" by (auto simp: profile_loaded_def)
  from read obtain ls fds d where load: "files_loaded env (loaded_files files) initial_load fds ls"
    and comp: "nc_compiled nc = reverse_compiled (fold add_file fds compiled_for_default_config)"
    by (rule read_from_sources_ok)
  have fds: "\<forall>fd \<in> set fds. fd_wf fd" using files_loaded_wf [OF wf load] .
  have "cbp_other (fold add_file fds compiled_for_default_config) DEFAULT_PROFILE = None"
    by (rule fold_add_file_other [OF fds]) (simp add: compiled_for_default_config_def)
  then have "cbp_other (nc_compiled nc) DEFAULT_PROFILE = None" by (simp add: comp reverse_compiled_def)
  with make obtain ch where ch: "resolve_inheritance_chain (nci_profiles (nc_inner nc)) name = Some (Inr ch)"
    and scripts: "ea_scripts ep = nci_scripts (nc_inner nc)"
    and data: "cd_overrides (ea_compiled_data ep) =
       concat (map (\<lambda>p. part cd_overrides (cbp_lookup (nc_compiled nc) p)) (profile_order name ch))"
    "cd_scripts (ea_compiled_data ep) =
       concat (map (\<lambda>p. part cd_scripts (cbp_lookup (nc_compiled nc) p)) (profile_order name ch))"
    "cd_profile_default_filter (ea_compiled_data ep) =
       find_map (\<lambda>p. part_filter (cbp_lookup (nc_compiled nc) p)) (profile_order name ch)"
    by (rule make_profile_data)
  have "DEFAULT_PROFILE \<notin> set ((if name = DEFAULT_PROFILE then [] else [name]) @ map fst ch)"
    using chain_avoids_default [OF ch] by auto
  then have filter: "cd_profile_default_filter (ea_compiled_data ep) =
       or_else (find_map (\<lambda>p. find_map (\<lambda>fd. part_filter (file_profile fd p)) (rev fds)) (profile_order name ch))
         (Some default_filter_for_default_config)"
    unfolding data comp cbp_lookup_reverse part_reverse fold_add_file [OF fds] initial_lookup profile_order_def
      append_assoc [symmetric] find_map_or_last by (simp only: if_False)
  show thesis
    using data(1,2) unfolding comp cbp_lookup_reverse part_reverse fold_add_file [OF fds] initial_lookup
      append_Nil rev_rev_ident by (rule that [OF ch load scripts _ _ filter])
qed


lemma loaded_data_compiles:
  assumes "profile_loaded env scc composite ex files name nc ep"
  obtains ch where "resolve_inheritance_chain (nci_profiles (nc_inner nc)) name = Some (Inr ch)"
    "list_all2 (\<lambda>(source, p, i, src) ov. compiled_override_new env source p i src = Ret (Inr ov))
      (documented_overrides (loaded_files files) (profile_order name ch)) (cd_overrides (ea_compiled_data ep))"
    "list_all2 (\<lambda>(source, p, i, src) s. compiled_profile_scripts_new env p i src = Ret (Inr s))
      (documented_scripts (loaded_files files) (profile_order name ch)) (cd_scripts (ea_compiled_data ep))"
    "case documented_default_filter (loaded_files files) (profile_order name ch) of
       None \<Rightarrow> cd_profile_default_filter (ea_compiled_data ep) = Some default_filter_for_default_config
     | Some ps \<Rightarrow> \<exists>d. cd_profile_default_filter (ea_compiled_data ep) = Some d \<and> default_filter_parses env ps d"
proof -
  have wf: "\<forall>(source, fc) \<in> set (loaded_files files). file_wf fc" using assms by (auto simp: profile_loaded_def)
  from assms obtain ch fds ls where ch: "resolve_inheritance_chain (nci_profiles (nc_inner nc)) name = Some (Inr ch)"
    and load: "files_loaded env (loaded_files files) initial_load fds ls"
    and data: "cd_overrides (ea_compiled_data ep) =
       concat (map (\<lambda>p. concat (map (\<lambda>fd. part cd_overrides (file_profile fd p)) (rev fds))) (profile_order name ch))"
    "cd_scripts (ea_compiled_data ep) =
       concat (map (\<lambda>p. concat (map (\<lambda>fd. part cd_scripts (file_profile fd p)) (rev fds))) (profile_order name ch))"
    "cd_profile_default_filter (ea_compiled_data ep) =
       or_else (find_map (\<lambda>p. find_map (\<lambda>fd. part_filter (file_profile fd p)) (rev fds)) (profile_order name ch))
         (Some default_filter_for_default_config)" by (rule profile_loaded_data)
  show thesis
  proof (rule that [OF ch])
    show "list_all2 (\<lambda>(source, p, i, src) ov. compiled_override_new env source p i src = Ret (Inr ov))
      (documented_overrides (loaded_files files) (profile_order name ch)) (cd_overrides (ea_compiled_data ep))"
      unfolding documented_overrides_def data
      by (rule documented_sections_compile [OF wf load])
        (use file_loaded_profile(2) in \<open>simp add: overrides_compile_def case_prod_unfold\<close>)
    show "list_all2 (\<lambda>(source, p, i, src) s. compiled_profile_scripts_new env p i src = Ret (Inr s))
      (documented_scripts (loaded_files files) (profile_order name ch)) (cd_scripts (ea_compiled_data ep))"
      unfolding documented_scripts_def data
      by (rule documented_sections_compile [OF wf load])
        (use file_loaded_profile(3) in \<open>simp add: scripts_compile_def case_prod_unfold\<close>)
    show "case documented_default_filter (loaded_files files) (profile_order name ch) of
       None \<Rightarrow> cd_profile_default_filter (ea_compiled_data ep) = Some default_filter_for_default_config
     | Some ps \<Rightarrow> \<exists>d. cd_profile_default_filter (ea_compiled_data ep) = Some d \<and> default_filter_parses env ps d"
      using files_filters [OF wf load, of "profile_order name ch"] unfolding data
      by (auto split: option.splits elim: option.rel_cases simp: option_rel_Some1)
  qed
qed

text \<open>Layering the files keeps the wrapper scripts of each.\<close>

definition keeps_wrappers :: "(file_config list \<Rightarrow> 'e + nextest_config_deserialize) \<Rightarrow> bool" where
  "keeps_wrappers composite \<longleftrightarrow> (\<forall>fcs d. composite fcs = Inr d \<longrightarrow>
     (\<forall>fc \<in> set fcs. file_wrappers fc \<subseteq> wrapper_ids (ncd_scripts d)))"

lemma files_loaded_sections:
  assumes "files_loaded env fs ls fds ls'" "known_wrappers ls \<subseteq> W" "\<forall>(source, fc) \<in> set fs. file_wrappers fc \<subseteq> W"
    and "fd \<in> set fds" "s \<in> set (part cd_scripts (file_profile fd p))"
  shows "set_option (cps_list_wrapper s) \<union> set_option (cps_run_wrapper s) \<subseteq> W \<and>
    (cps_list_wrapper s \<noteq> None \<longrightarrow> (\<forall>f. psd_expr (cps_data s) = Some f \<longrightarrow> runtime_only_leaves (fs_parsed f) = []))"
  using assms
proof (induction env fs ls fds ls' rule: files_loaded.induct)
  case (2 env source fc fs ls fd' fds ls')
  then obtain ls1 where one: "file_loaded env source fc ls ls1 fd'" and rest: "files_loaded env fs ls1 fds ls'" by auto
  have W: "known_wrappers ls1 \<subseteq> W" using file_loaded_wrappers [OF one] 2(3,4) by auto
  show ?case
  proof (cases "fd = fd'")
    case True
    then show ?thesis using file_loaded_sections [OF one, of s p] 2(6) section_ok_wrappers [of ls1 s] W by blast
  next
    case False
    then show ?thesis using 2 rest W by auto
  qed
qed auto

lemma list_all2_set2: "list_all2 P xs ys \<Longrightarrow> y \<in> set ys \<Longrightarrow> \<exists>x \<in> set xs. P x y"
  by (auto simp: list_all2_conv_all_nth in_set_conv_nth) (metis nth_mem)

lemma into_config_impl_scripts:
  "into_config_impl d = Ret config \<Longrightarrow> wrapper_ids (nci_scripts config) = wrapper_ids (ncd_scripts d) \<and>
     sc_setup (nci_scripts config) = sc_setup (ncd_scripts d) @
       filter (\<lambda>(sid, _). sid \<notin> fst ` set (sc_setup (ncd_scripts d))) (ncd_old_setup_scripts d)"
  by (auto simp: into_config_impl_def bind_outcome_eq_Ret wrapper_ids_def)

lemma apply_build_platforms_Ret:
  assumes "cd_profile_default_filter (ea_compiled_data ep) = Some d"
  shows "apply_build_platforms bp ep = Ret
    \<lparr>ep_name = ea_name ep, ep_store_dir = ea_store_dir ep, ep_default_profile = ea_default_profile ep,
     ep_custom_profile = ea_custom_profile ep, ep_inheritance_chain = ea_inheritance_chain ep,
     ep_test_groups = ea_test_groups ep, ep_scripts = ea_scripts ep,
     ep_compiled_data = data_apply_platforms bp (ea_compiled_data ep),
     ep_resolved_default_filter = unwrap_or (find_map default_filter_if_matches_platform
       (map (override_apply_platforms bp) (cd_overrides (ea_compiled_data ep)))) d\<rparr>"
  using assms
  by (auto simp: apply_build_platforms_def Let_def data_apply_platforms_def unwrap_or_def expect_some_def split: option.split)


lemma apply_platforms_simps [simp]:
  "co_data (override_apply_platforms bp ov) = co_data ov"
  "cps_data (scripts_apply_platforms bp s) = cps_data s"
  "cps_setup (scripts_apply_platforms bp s) = cps_setup s"
  "cps_list_wrapper (scripts_apply_platforms bp s) = cps_list_wrapper s"
  "cps_run_wrapper (scripts_apply_platforms bp s) = cps_run_wrapper s"
  "override_filter (override_apply_platforms bp ov) = override_filter ov"
  by (simp_all add: override_apply_platforms_def scripts_apply_platforms_def override_filter_def)

lemma apply_platforms_ok [simp]:
  "override_ok (override_apply_platforms bp ov) = override_ok ov"
  "script_ok W (scripts_apply_platforms bp s) = script_ok W s"
  by (simp_all add: override_ok_def script_ok_def)

lemma profile_loaded_filter:
  assumes "profile_loaded env scc composite ex files name nc ep"
  obtains d where "cd_profile_default_filter (ea_compiled_data ep) = Some d" "default_ok (cdf_expr d)"
proof -
  from assms obtain ch where data:
    "case documented_default_filter (loaded_files files) (profile_order name ch) of
       None \<Rightarrow> cd_profile_default_filter (ea_compiled_data ep) = Some default_filter_for_default_config
     | Some ps \<Rightarrow> \<exists>d. cd_profile_default_filter (ea_compiled_data ep) = Some d \<and> default_filter_parses env ps d"
    by (rule loaded_data_compiles)
  have "default_ok (cdf_expr d)" if "default_filter_parses env ps d" for ps d
    using that by (cases ps) (auto simp: default_filter_parses_def dest!: filterset_parse_ok dest: compile_default_ok)
  moreover have "default_ok (cdf_expr default_filter_for_default_config)"
    by (simp add: default_filter_for_default_config_def compiled_ALL_def default_ok_def default_free_def group_free_def)
  ultimately show thesis using data that by (auto split: option.splits)
qed

lemma profile_loaded_scripts_ok:
  assumes loaded: "profile_loaded env scc composite ex files name nc ep" and "keeps_wrappers composite"
    and s: "s \<in> set (cd_scripts (ea_compiled_data ep))"
  shows "script_ok (wrapper_ids (ea_scripts ep)) s"
proof -
  from loaded obtain ws cfg where wf: "\<forall>(source, fc) \<in> set (loaded_files files). file_wf fc"
    and read: "read_from_sources env scc composite ex ws cfg files = Ret (Inr nc)" by (auto simp: profile_loaded_def)
  from read obtain d where d: "composite (map snd (loaded_files files)) = Inr d" "into_config_impl d = Ret (nc_inner nc)"
    by (rule read_from_sources_ok)
  from loaded obtain ch fds ls where load: "files_loaded env (loaded_files files) initial_load fds ls"
    and scripts: "ea_scripts ep = nci_scripts (nc_inner nc)"
    and data: "cd_scripts (ea_compiled_data ep) =
       concat (map (\<lambda>p. concat (map (\<lambda>fd. part cd_scripts (file_profile fd p)) (rev fds))) (profile_order name ch))"
    by (rule profile_loaded_data)
  from s data obtain p fd where fd: "fd \<in> set fds" "s \<in> set (part cd_scripts (file_profile fd p))" by auto
  have W: "wrapper_ids (ea_scripts ep) = wrapper_ids (ncd_scripts d)"
    using into_config_impl_scripts [OF d(2)] scripts by simp
  have "\<forall>(source, fc) \<in> set (loaded_files files). file_wrappers fc \<subseteq> wrapper_ids (ea_scripts ep)"
    using assms(2) d(1) unfolding keeps_wrappers_def W by force
  moreover have "known_wrappers initial_load \<subseteq> wrapper_ids (ea_scripts ep)"
    by (simp add: known_wrappers_def initial_load_def)
  ultimately have use: "set_option (cps_list_wrapper s) \<union> set_option (cps_run_wrapper s) \<subseteq> wrapper_ids (ea_scripts ep)"
    "cps_list_wrapper s \<noteq> None \<Longrightarrow> psd_expr (cps_data s) = Some f \<Longrightarrow> runtime_only_leaves (fs_parsed f) = []" for f
    using files_loaded_sections [OF load _ _ fd] by blast+
  from loaded obtain ch' where "list_all2 (\<lambda>(source, p, i, src) s. compiled_profile_scripts_new env p i src = Ret (Inr s))
      (documented_scripts (loaded_files files) (profile_order name ch')) (cd_scripts (ea_compiled_data ep))"
    by (rule loaded_data_compiles)
  from list_all2_set2 [OF this s] obtain p i src where "compiled_profile_scripts_new env p i src = Ret (Inr s)" by auto
  from compiled_scripts_ok [OF this] use show ?thesis by (auto simp: script_ok_def)
qed

lemma profile_loaded_overrides_ok:
  assumes "profile_loaded env scc composite ex files name nc ep" "ov \<in> set (cd_overrides (ea_compiled_data ep))"
  shows "override_ok ov \<and> (\<forall>d. od_filter (co_data ov) = Some (OverrideDefaultFilter d) \<longrightarrow> default_ok (cdf_expr d))"
proof -
  from assms(1) obtain ch where "list_all2 (\<lambda>(source, p, i, src) ov. compiled_override_new env source p i src = Ret (Inr ov))
      (documented_overrides (loaded_files files) (profile_order name ch)) (cd_overrides (ea_compiled_data ep))"
    by (rule loaded_data_compiles)
  from list_all2_set2 [OF this assms(2)] obtain source p i src where
    "compiled_override_new env source p i src = Ret (Inr ov)" by auto
  from compiled_override_ok [OF this] show ?thesis by blast
qed

lemma default_filter_of_override:
  assumes "default_filter_if_matches_platform ov = Some f"
  shows "od_filter (co_data ov) = Some (OverrideDefaultFilter f)"
proof (cases "od_filter (co_data ov)")
  case (Some x)
  then show ?thesis using assms
    by (cases x) (simp_all add: default_filter_if_matches_platform_def split: if_splits)
qed (use assms in \<open>simp add: default_filter_if_matches_platform_def\<close>)

lemma default_filter_ok:
  assumes loaded: "profile_loaded env scc composite ex files name nc ep" and bp: "apply_build_platforms bp ep = Ret p"
  shows "default_ok (cdf_expr (ep_resolved_default_filter p))"
proof -
  from loaded obtain d where d: "cd_profile_default_filter (ea_compiled_data ep) = Some d" "default_ok (cdf_expr d)"
    by (rule profile_loaded_filter)
  let ?ovs = "map (override_apply_platforms bp) (cd_overrides (ea_compiled_data ep))"
  have p: "ep_resolved_default_filter p = unwrap_or (find_map default_filter_if_matches_platform ?ovs) d"
    using bp unfolding apply_build_platforms_Ret [OF d(1)] by auto
  show ?thesis
  proof (cases "find_map default_filter_if_matches_platform ?ovs")
    case (Some f)
    from find_map_Some [OF this] obtain ov where "ov \<in> set (cd_overrides (ea_compiled_data ep))"
      "od_filter (co_data ov) = Some (OverrideDefaultFilter f)" by (auto dest: default_filter_of_override)
    with profile_loaded_overrides_ok [OF loaded] Some p show ?thesis by (auto simp: unwrap_or_def)
  qed (simp add: p unwrap_or_def d(2))
qed

lemma loaded_profile_ok:
  assumes loaded: "profile_loaded env scc composite ex files name nc ep" and keeps: "keeps_wrappers composite"
    and bp: "apply_build_platforms bp ep = Ret p"
  shows "profile_ok p"
proof -
  from loaded obtain d where d: "cd_profile_default_filter (ea_compiled_data ep) = Some d" by (rule profile_loaded_filter)
  have p: "ep_scripts p = ea_scripts ep" "ep_compiled_data p = data_apply_platforms bp (ea_compiled_data ep)"
    using bp unfolding apply_build_platforms_Ret [OF d] by auto
  then show ?thesis
    using default_filter_ok [OF loaded bp] profile_loaded_overrides_ok [OF loaded] profile_loaded_scripts_ok [OF loaded keeps]
    by (auto simp: profile_ok_def data_apply_platforms_def)
qed

end
