(* ===== verification/Config_Example.thy ===== *)
theory Config_Example
  imports Config_Loaded Filterset_Props
begin

text \<open>
  A configuration of two files, that of a tool and that of the repository, with a profile that
  inherits from another, on which the properties are instantiated.
\<close>

section \<open>Strongly connected components\<close>

text \<open>The classes of the nodes, each once.\<close>

definition ex_scc :: scc_function where
  "ex_scc g = remdups (map (\<lambda>a. filter (mutually_reachable g a) (gr_nodes g)) (gr_nodes g))"

lemma mutually_reachable_equiv:
  "mutually_reachable g a a" "mutually_reachable g a b \<Longrightarrow> mutually_reachable g b a"
  "mutually_reachable g a b \<Longrightarrow> mutually_reachable g b c \<Longrightarrow> mutually_reachable g a c"
  by (auto simp: mutually_reachable_def)

lemma ex_scc_ok: "scc_ok ex_scc"
  unfolding scc_ok_def
proof (intro allI impI conjI ballI)
  fix g assume g: "graph_wf g"
  let ?R = "mutually_reachable g" and ?ns = "gr_nodes g"
  have same: "filter (?R a) ?ns = filter (?R b) ?ns" if "?R a b" for a b
    using that mutually_reachable_equiv [of g] by (intro filter_cong) blast+
  have ns: "distinct ?ns" using g by (simp add: graph_wf_def)
  show "set (concat (ex_scc g)) = set ?ns" using mutually_reachable_equiv(1) [of g] by (auto simp: ex_scc_def)
  show "distinct (concat (ex_scc g))"
    unfolding distinct_concat_iff ex_scc_def
  proof (intro conjI allI impI ballI)
    fix ys zs assume cs: "ys \<in> set (remdups (map (\<lambda>a. filter (?R a) ?ns) ?ns)) \<and>
      zs \<in> set (remdups (map (\<lambda>a. filter (?R a) ?ns) ?ns)) \<and> ys \<noteq> zs"
    then obtain a b where ab: "ys = filter (?R a) ?ns" "zs = filter (?R b) ?ns" by auto
    show "set ys \<inter> set zs = {}"
    proof (rule ccontr)
      assume "set ys \<inter> set zs \<noteq> {}"
      then obtain x where "?R a x" "?R b x" using ab by auto
      then have "?R a b" using mutually_reachable_equiv [of g] by blast
      then show False using same cs ab by metis
    qed
  qed (use ns in \<open>auto simp: distinct_removeAll\<close>)
  fix comp a assume "comp \<in> set (ex_scc g)" "a \<in> set comp"
  then obtain n where "comp = filter (?R n) ?ns" "?R n a" by (auto simp: ex_scc_def)
  then show "set comp = {b \<in> set ?ns. ?R a b}"
    using same [of n a] by (auto simp flip: set_filter)
qed


section \<open>Two files\<close>

definition ex_env :: config_env where
  "ex_env = \<lparr>fe_syntax = (\<lambda>s. if s = ''test(slow)'' then Some (Some (ESet (PTest (Contains ''slow'' True) (5, 4))), [])
       else if s = ''package(core)'' then Some (Some (ESet (PPackage (Equal ''core'' False) (8, 4))), [])
       else if s = ''none()'' then Some (Some (ESet PNone), []) else None),
     fe_regex = ex_engine, fe_graph = ex_graph,
     fe_target_spec = (\<lambda>s. if s = ''cfg(unix)'' then Inr (\<lambda>p. Some (p = ''linux'')) else Inl ''unknown'')\<rparr>"

definition no_junit_output :: deserialized_junit_output where
  "no_junit_output = \<lparr>djo_store_success_output = None, djo_store_failure_output = None, djo_report_skipped = None,
     djo_flaky_fail_status = None\<rparr>"

definition ex_override :: "string option \<Rightarrow> string option \<Rightarrow> retry_policy option \<Rightarrow> test_group option \<Rightarrow> deserialized_override" where
  "ex_override target flt retries grp =
     \<lparr>do_platform = \<lparr>pf_host = None, pf_target = target\<rparr>, do_filter = flt, do_priority = None, do_default_filter = None,
      do_threads_required = None, do_run_extra_args = None, do_retries = retries, do_flaky_result = None,
      do_slow_timeout = None, do_leak_timeout = None, do_test_group = grp, do_success_output = None,
      do_failure_output = None, do_junit = no_junit_output, do_bench_slow_timeout = None\<rparr>"

definition no_junit :: junit_impl where
  "no_junit = \<lparr>ji_path = None, ji_report_name = None, ji_store_success_output = None, ji_store_failure_output = None,
     ji_report_skipped = None, ji_flaky_fail_status = None\<rparr>"

definition ex_profile ::
  "profile_name option \<Rightarrow> string option \<Rightarrow> deserialized_override list \<Rightarrow> deserialized_profile_script list \<Rightarrow> custom_profile" where
  "ex_profile inherits flt ovs scripts =
     \<lparr>cp_default_filter = flt, cp_retries = None, cp_flaky_result = None, cp_test_threads = None,
      cp_threads_required = None, cp_run_extra_args = None, cp_status_level = None, cp_final_status_level = None,
      cp_failure_output = None, cp_success_output = None, cp_max_fail = None, cp_slow_timeout = None,
      cp_global_timeout = None, cp_leak_timeout = None, cp_overrides = ovs, cp_scripts = scripts, cp_junit = no_junit,
      cp_archive = None, cp_bench = None, cp_inherits = inherits\<rparr>"

text \<open>The default profile, with the settings of the default configuration.\<close>

definition ex_slow :: slow_timeout where
  "ex_slow = \<lparr>st_period = 60 * 1000000000, st_terminate_after = None, st_grace_period = default_grace_period,
     st_on_timeout = SlowFail\<rparr>"

definition ex_default :: "deserialized_override list \<Rightarrow> custom_profile" where
  "ex_default ovs =
     \<lparr>cp_default_filter = Some ''all()'', cp_retries = Some (Fixed 0 0 False), cp_flaky_result = Some FlakyPass,
      cp_test_threads = Some NumCpus, cp_threads_required = Some (RequiredCount 1), cp_run_extra_args = Some [],
      cp_status_level = Some StatusPass, cp_final_status_level = Some FinalFlaky,
      cp_failure_output = Some DisplayImmediate, cp_success_output = Some DisplayNever,
      cp_max_fail = Some max_fail.All, cp_slow_timeout = Some ex_slow,
      cp_global_timeout = Some \<lparr>gt_period = 0\<rparr>, cp_leak_timeout = Some \<lparr>lt_period = 200000000, lt_result = LeakPass\<rparr>,
      cp_overrides = ovs, cp_scripts = [],
      cp_junit = \<lparr>ji_path = None, ji_report_name = Some ''nextest-run'', ji_store_success_output = Some False,
        ji_store_failure_output = Some True, ji_report_skipped = Some ReportNone,
        ji_flaky_fail_status = Some FlakyAsFailure\<rparr>,
      cp_archive = Some \<lparr>ac_include = []\<rparr>,
      cp_bench = Some \<lparr>bc_slow_timeout = Some ex_slow, bc_global_timeout = Some \<lparr>gt_period = 0\<rparr>\<rparr>, cp_inherits = None\<rparr>"

definition ex_scripts_section :: deserialized_profile_script where
  "ex_scripts_section = \<lparr>dps_platform = \<lparr>pf_host = None, pf_target = None\<rparr>, dps_filter = Some ''package(core)'',
     dps_setup = [RegularIdent ''db''], dps_list_wrapper = Some (RegularIdent ''wrap''),
     dps_run_wrapper = Some (RegularIdent ''wrap'')\<rparr>"

definition ex_command :: "string \<Rightarrow> script_command" where
  "ex_command program = \<lparr>scmd_program = program, scmd_args = [], scmd_env = [], scmd_relative_to = RelativeToNothing\<rparr>"

definition ex_setup_config :: setup_script_config where
  "ex_setup_config = \<lparr>ssc_command = ex_command ''start-db'', ssc_slow_timeout = None, ssc_leak_timeout = None,
     ssc_capture_stdout = False, ssc_capture_stderr = False, ssc_junit_store_success_output = False,
     ssc_junit_store_failure_output = False\<rparr>"

definition ex_wrapper_config :: wrapper_script_config where
  "ex_wrapper_config = \<lparr>wsc_command = ex_command ''wrapper'', wsc_target_runner = RunnerIgnore\<rparr>"

definition ex_script_config :: script_config where
  "ex_script_config = \<lparr>sc_setup = [(RegularIdent ''db'', ex_setup_config)],
     sc_wrapper = [(RegularIdent ''wrap'', ex_wrapper_config)]\<rparr>"

definition ex_retries :: "nat \<Rightarrow> retry_policy option" where
  "ex_retries n = Some (Fixed (word_of_nat n) 0 False)"

definition tool_dn :: nextest_config_deserialize where
  "tool_dn = \<lparr>ncd_store_dir = ''target/nextest'', ncd_test_groups = [], ncd_old_setup_scripts = [],
     ncd_scripts = \<lparr>sc_setup = [], sc_wrapper = []\<rparr>,
     ncd_profiles =
       [(''default'', ex_default [ex_override None (Some ''package(core)'') (ex_retries 5) None]),
        (''ci'', ex_profile None None [ex_override None (Some ''package(core)'') (ex_retries 2) None] [])]\<rparr>"

definition serial :: config_identifier where "serial = RegularIdent ''serial''"

definition repo_dn :: nextest_config_deserialize where
  "repo_dn = \<lparr>ncd_store_dir = ''target/nextest'', ncd_test_groups = [(serial, \<lparr>tgc_max_threads = ThreadsCount 1\<rparr>)],
     ncd_old_setup_scripts = [], ncd_scripts = ex_script_config,
     ncd_profiles =
       [(''default'', ex_default [ex_override (Some ''cfg(unix)'') None (ex_retries 3) None]),
        (''ci'', ex_profile (Some ''base'') None
           [ex_override None (Some ''test(slow)'') (ex_retries 4) (Some (CustomGroup serial))] [ex_scripts_section]),
        (''base'', ex_profile None (Some ''none()'') [] [])]\<rparr>"

definition tool_fc :: file_config where
  "tool_fc = \<lparr>fc_layered_error = None, fc_deserialized = Inr tool_dn, fc_unknown_keys = {}, fc_default_filter = FilterNotFound\<rparr>"

definition repo_fc :: file_config where
  "repo_fc = \<lparr>fc_layered_error = None, fc_deserialized = Inr repo_dn, fc_unknown_keys = {}, fc_default_filter = FilterNotFound\<rparr>"

definition tool_source :: config_source where
  "tool_source = \<lparr>cs_path = ''/tool.toml'', cs_kind = SourceTool ''mytool''\<rparr>"

definition repo_source :: config_source where
  "repo_source = \<lparr>cs_path = ''/ws/.config/nextest.toml'', cs_kind = DiscoveredRepository\<rparr>"

definition ex_files :: "(config_source \<times> (string + file_config) file_read) list" where
  "ex_files = [(tool_source, FileContents (Inr tool_fc)), (repo_source, FileContents (Inr repo_fc))]"

text \<open>Layered, the repository's profiles replace those of the tool.\<close>

definition ex_composite :: "file_config list \<Rightarrow> config_parse_error_kind + nextest_config_deserialize" where
  "ex_composite fcs = (if fcs = [tool_fc, repo_fc] then Inr repo_dn else Inl (BuildError []))"

definition ex_experimental :: "string set" where
  "ex_experimental = {''setup-scripts'', ''wrapper-scripts''}"

lemma ex_keeps: "keeps_wrappers ex_composite"
  by (auto simp: keeps_wrappers_def ex_composite_def file_wrappers_def tool_fc_def repo_fc_def wrapper_ids_def tool_dn_def
      split: if_splits)


section \<open>What the files compile to\<close>

definition ex_core :: filterset where
  "ex_core = \<lparr>fs_input = ''package(core)'', fs_parsed = ESet (PPackage (Equal ''core'' False) (8, 4)),
     fs_compiled = CSet (LPackages {''core 1.0''})\<rparr>"

definition ex_slow_tests :: filterset where
  "ex_slow_tests = \<lparr>fs_input = ''test(slow)'', fs_parsed = ESet (PTest (Contains ''slow'' True) (5, 4)),
     fs_compiled = CSet (LTest (Contains ''slow'' True) (5, 4))\<rparr>"

lemma ex_compile_core:
  "compile ex_engine ex_graph (ESet (PPackage (Equal ''core'' False) (8, 4))) KOverrideFilter Unavailable =
     Ret (Inr (CSet (LPackages {''core 1.0''})))"
  "compile ex_engine ex_graph (ESet (PPackage (Equal ''core'' False) (8, 4))) KDefaultFilter Unavailable =
     Ret (Inr (CSet (LPackages {''core 1.0''})))"
  "compile ex_engine ex_graph (ESet (PTest (Contains ''slow'' True) (5, 4))) KOverrideFilter Unavailable =
     Ret (Inr (CSet (LTest (Contains ''slow'' True) (5, 4))))"
  "compile ex_engine ex_graph (ESet PNone) KDefaultFilter Unavailable = Ret (Inr (CSet LNone))"
  by code_simp+

lemma ex_parse:
  "filterset_parse ex_env ''package(core)'' KOverrideFilter Unavailable = Ret (Inr ex_core)"
  "filterset_parse ex_env ''package(core)'' KDefaultFilter Unavailable = Ret (Inr ex_core)"
  "filterset_parse ex_env ''test(slow)'' KOverrideFilter Unavailable = Ret (Inr ex_slow_tests)"
  "filterset_parse ex_env ''none()'' KDefaultFilter Unavailable =
     Ret (Inr \<lparr>fs_input = ''none()'', fs_parsed = ESet PNone, fs_compiled = CSet LNone\<rparr>)"
  by (simp_all add: filterset_parse_def ex_env_def ex_compile_core ex_core_def ex_slow_tests_def)

definition ex_co ::
  "config_source \<Rightarrow> profile_name \<Rightarrow> maybe_target_spec \<Rightarrow> filterset option \<Rightarrow> retry_policy option
     \<Rightarrow> test_group option \<Rightarrow> unit compiled_override" where
  "ex_co source name target flt retries grp = \<lparr>
     co_id = \<lparr>oi_config_source = source, oi_profile_name = name, oi_index = 0\<rparr>,
     co_state = (),
     co_data = \<lparr>od_host_spec = AnySpec, od_target_spec = target, od_filter = map_option OverrideFilter flt,
       od_priority = None, od_threads_required = None, od_run_extra_args = None, od_retries = retries,
       od_flaky_result = None, od_slow_timeout = None, od_bench_slow_timeout = None, od_leak_timeout = None,
       od_test_group = grp, od_success_output = None, od_failure_output = None, od_junit = no_junit_output\<rparr>\<rparr>"

definition ex_unix :: target_spec where "ex_unix = (\<lambda>p. Some (p = ''linux''))"

definition ex_cs :: "unit compiled_profile_scripts" where
  "ex_cs = \<lparr>cps_setup = [RegularIdent ''db''], cps_list_wrapper = Some (RegularIdent ''wrap''),
     cps_run_wrapper = Some (RegularIdent ''wrap''),
     cps_data = \<lparr>psd_host_spec = AnySpec, psd_target_spec = AnySpec, psd_expr = Some ex_core\<rparr>, cps_state = ()\<rparr>"

lemma ex_override_new:
  "compiled_override_new ex_env src p 0 (ex_override None (Some ''package(core)'') r g) =
     Ret (Inr (ex_co src p AnySpec (Some ex_core) r g))"
  "compiled_override_new ex_env src p 0 (ex_override None (Some ''test(slow)'') r g) =
     Ret (Inr (ex_co src p AnySpec (Some ex_slow_tests) r g))"
  "compiled_override_new ex_env src p 0 (ex_override (Some ''cfg(unix)'') None r g) =
     Ret (Inr (ex_co src p (ProvidedSpec ex_unix) None r g))"
  by (simp_all add: compiled_override_new_def Let_def filterset_parse_option_def ex_parse maybe_target_spec_new_def
      ex_override_def ex_co_def ex_env_def [THEN arg_cong [of _ _ fe_target_spec]] ex_unix_def)

lemma ex_scripts_new: "compiled_profile_scripts_new ex_env p 0 ex_scripts_section = Ret (Inr ex_cs)"
  by (simp add: compiled_profile_scripts_new_def ex_scripts_section_def Let_def filterset_parse_option_def ex_parse
      maybe_target_spec_new_def ex_cs_def)

definition tool_default_data :: "unit compiled_data" where
  "tool_default_data = \<lparr>cd_profile_default_filter = None,
     cd_overrides = [ex_co tool_source ''default'' AnySpec (Some ex_core) (ex_retries 5) None], cd_scripts = []\<rparr>"

definition tool_other_data :: "(profile_name \<times> unit compiled_data) list" where
  "tool_other_data = [(''ci'', \<lparr>cd_profile_default_filter = None,
     cd_overrides = [ex_co tool_source ''ci'' AnySpec (Some ex_core) (ex_retries 2) None], cd_scripts = []\<rparr>)]"

definition repo_default_data :: "unit compiled_data" where
  "repo_default_data = \<lparr>cd_profile_default_filter = None,
     cd_overrides = [ex_co repo_source ''default'' (ProvidedSpec ex_unix) None (ex_retries 3) None], cd_scripts = []\<rparr>"

definition ex_base_filter :: compiled_default_filter where
  "ex_base_filter = \<lparr>cdf_expr = CSet LNone, cdf_profile = ''base'', cdf_section = FilterOfProfile\<rparr>"

definition repo_other_data :: "(profile_name \<times> unit compiled_data) list" where
  "repo_other_data =
     [(''ci'', \<lparr>cd_profile_default_filter = None,
        cd_overrides = [ex_co repo_source ''ci'' AnySpec (Some ex_slow_tests) (ex_retries 4) (Some (CustomGroup serial))],
        cd_scripts = [ex_cs]\<rparr>),
      (''base'', \<lparr>cd_profile_default_filter = Some ex_base_filter, cd_overrides = [], cd_scripts = []\<rparr>)]"

definition ex_default_profile :: default_profile where
  "ex_default_profile = (case default_profile_new (ex_default []) of Ret d \<Rightarrow> d)"

lemma ex_default_new: "default_profile_new (ex_default ovs) = Ret (ex_default_profile\<lparr>dp_overrides := ovs\<rparr>)"
  by (simp add: ex_default_profile_def default_profile_new_def ex_default_def junit_for_default_profile_def
      bench_for_default_profile_def)

definition ex_impl :: "nextest_config_deserialize \<Rightarrow> deserialized_override list \<Rightarrow> nextest_config_impl" where
  "ex_impl dn ovs = \<lparr>nci_store_dir = ncd_store_dir dn, nci_test_groups = ncd_test_groups dn, nci_scripts = ncd_scripts dn,
     nci_profiles = \<lparr>pc_default_profile = ex_default_profile\<lparr>dp_overrides := ovs\<rparr>,
       pc_other_profiles = tl (ncd_profiles dn)\<rparr>\<rparr>"

lemma ex_into_config:
  "into_config_impl tool_dn = Ret (ex_impl tool_dn [ex_override None (Some ''package(core)'') (ex_retries 5) None])"
  "into_config_impl repo_dn = Ret (ex_impl repo_dn [ex_override (Some ''cfg(unix)'') None (ex_retries 3) None])"
  by (simp_all add: into_config_impl_def tool_dn_def repo_dn_def DEFAULT_PROFILE_def ex_default_new ex_impl_def
      ex_script_config_def)

lemma ex_default_lists: "dp_scripts ex_default_profile = []" "dp_inherits ex_default_profile = None"
  by (simp_all add: ex_default_profile_def default_profile_new_def ex_default_def junit_for_default_profile_def
      bench_for_default_profile_def)

lemma ex_compiled_by_profile:
  "compiled_by_profile_new ex_env tool_source
     (nci_profiles (ex_impl tool_dn [ex_override None (Some ''package(core)'') (ex_retries 5) None])) None =
   Ret (Inr (tool_default_data, tool_other_data))"
  "compiled_by_profile_new ex_env repo_source
     (nci_profiles (ex_impl repo_dn [ex_override (Some ''cfg(unix)'') None (ex_retries 3) None])) None =
   Ret (Inr (repo_default_data, repo_other_data))"
  by (simp_all add: compiled_by_profile_new_def compiled_data_new_def compile_default_filter_def ex_impl_def
      ex_override_new ex_scripts_new ex_parse ex_default_lists tool_dn_def repo_dn_def ex_profile_def DEFAULT_PROFILE_def
      tool_default_data_def tool_other_data_def repo_default_data_def repo_other_data_def ex_base_filter_def)

lemma ex_no_cycle:
  "check_inheritance_cycles ex_scc \<lparr>gr_nodes = [''ci'', ''base''], gr_edges = [(''ci'', ''base'')]\<rparr> [] = []"
  "check_inheritance_cycles ex_scc \<lparr>gr_nodes = [], gr_edges = []\<rparr> [] = []"
proof -
  let ?g = "\<lparr>gr_nodes = [''ci'', ''base''], gr_edges = [(''ci'', ''base'')]\<rparr>"
  have "acyclic {(''ci'', ''base'')}" by (simp add: acyclic_insert) (simp add: acyclic_def)
  then have "\<forall>a b. mutually_reachable ?g a b \<longrightarrow> a = b" using acyclic_iff_mutual [of ?g] by fastforce
  then show "check_inheritance_cycles ex_scc ?g [] = []"
    using no_cycles_iff [OF ex_scc_ok, of ?g] by (simp add: cycles_of_def graph_wf_def)
qed (simp add: check_inheritance_cycles_def ex_scc_def)

lemma ex_sanitize:
  "sanitize_profile_inherits ex_scc (nci_profiles (ex_impl tool_dn ovs)) known = Inr ()"
  "sanitize_profile_inherits ex_scc (nci_profiles (ex_impl repo_dn ovs)) known = Inr ()"
  by (simp_all add: sanitize_profile_inherits_def sanitize_default_profile_inherits_def sanitize_custom_profile_inherits_def
      sanitize_custom_profile_def sanitize_custom_default_profile_inherits_def add_profile_to_graph_def starts_with_default_def
      ex_impl_def tool_dn_def repo_dn_def ex_profile_def ex_default_lists get_profile_def DEFAULT_PROFILE_def
      add_node_def add_edge_def ex_no_cycle)

text \<open>The states after each file.\<close>

definition tool_loaded :: load_state where
  "tool_loaded = initial_load\<lparr>ld_known_profiles := {''ci''},
     ld_compiled := add_compiled (tool_default_data, tool_other_data) compiled_for_default_config\<rparr>"

definition repo_loaded :: load_state where
  "repo_loaded = tool_loaded\<lparr>ld_known_groups := {serial},
     ld_known_scripts := [RegularIdent ''wrap'' \<mapsto> WrapperScript, RegularIdent ''db'' \<mapsto> SetupScript],
     ld_known_profiles := {''ci'', ''base''},
     ld_compiled := add_compiled (repo_default_data, repo_other_data) (ld_compiled tool_loaded)\<rparr>"

lemma ex_dn_simps:
  "ncd_test_groups tool_dn = []" "ncd_old_setup_scripts tool_dn = []"
  "ncd_scripts tool_dn = \<lparr>sc_setup = [], sc_wrapper = []\<rparr>"
  "map fst (ncd_profiles tool_dn) = [''default'', ''ci'']" "ncd_test_groups repo_dn = [(serial, \<lparr>tgc_max_threads = ThreadsCount 1\<rparr>)]"
  "ncd_old_setup_scripts repo_dn = []" "ncd_scripts repo_dn = ex_script_config"
  "map fst (ncd_profiles repo_dn) = [''default'', ''ci'', ''base'']"
  by (simp_all add: tool_dn_def repo_dn_def)

lemma ex_fc_simps:
  "fc_layered_error tool_fc = None" "fc_deserialized tool_fc = Inr tool_dn" "fc_unknown_keys tool_fc = {}"
  "fc_default_filter tool_fc = FilterNotFound"
  "fc_layered_error repo_fc = None" "fc_deserialized repo_fc = Inr repo_dn" "fc_unknown_keys repo_fc = {}"
  "fc_default_filter repo_fc = FilterNotFound"
  by (simp_all add: tool_fc_def repo_fc_def)

lemma ex_profile_names:
  "map fst (pc_other_profiles (nci_profiles (ex_impl tool_dn ovs))) = [''ci'']"
  "map fst (pc_other_profiles (nci_profiles (ex_impl repo_dn ovs))) = [''ci'', ''base'']"
  by (simp_all add: ex_impl_def tool_dn_def repo_dn_def)

lemma ex_warn: "warn_reserved_profiles path (ex_impl tool_dn ovs) ls = ls" "warn_reserved_profiles path (ex_impl repo_dn ovs) ls = ls"
  by (simp_all add: warn_reserved_profiles_def all_profiles_def ex_profile_names starts_with_default_def DEFAULT_PROFILE_def)

lemmas ex_check_simps = check_compiled_profiles_def Let_def test_group_errors_def profile_script_errors_of_def
  no_script_errors_def empty_section_warnings_def check_profile_scripts_def check_script_ids_def check_script_id_def
  option_slice_def script_section_is_empty_def ex_co_def ex_cs_def tool_default_data_def tool_other_data_def
  repo_default_data_def repo_other_data_def

lemma ex_checks_tool:
  "test_group_errors groups ((''default'', tool_default_data) # tool_other_data) = []"
  "empty_section_warnings path ((''default'', tool_default_data) # tool_other_data) = []"
  "profile_script_errors_of known ((''default'', tool_default_data) # tool_other_data) = no_script_errors"
  by (simp_all add: ex_check_simps)

lemma ex_checks_repo:
  "serial \<in> groups \<Longrightarrow> test_group_errors groups ((''default'', repo_default_data) # repo_other_data) = []"
  "empty_section_warnings path ((''default'', repo_default_data) # repo_other_data) = []"
  "known (RegularIdent ''db'') = Some SetupScript \<Longrightarrow> known (RegularIdent ''wrap'') = Some WrapperScript \<Longrightarrow>
     profile_script_errors_of known ((''default'', repo_default_data) # repo_other_data) = no_script_errors"
  by (simp_all add: ex_check_simps ex_core_def runtime_only_leaves_def)

lemma ex_check_compiled:
  "check_compiled_profiles path (tool_default_data, tool_other_data) ls =
     Inr (ls\<lparr>ld_compiled := add_compiled (tool_default_data, tool_other_data) (ld_compiled ls)\<rparr>)"
  "serial \<in> ld_known_groups ls \<Longrightarrow> ld_known_scripts ls (RegularIdent ''db'') = Some SetupScript \<Longrightarrow>
     ld_known_scripts ls (RegularIdent ''wrap'') = Some WrapperScript \<Longrightarrow>
     check_compiled_profiles path (repo_default_data, repo_other_data) ls =
     Inr (ls\<lparr>ld_compiled := add_compiled (repo_default_data, repo_other_data) (ld_compiled ls)\<rparr>)"
  by (simp_all add: check_compiled_profiles_def Let_def ex_checks_tool ex_checks_repo DEFAULT_PROFILE_def)

lemma ex_other_names:
  "fst ` set (pc_other_profiles (nci_profiles (ex_impl tool_dn ovs))) = {''ci''}"
  "fst ` set (pc_other_profiles (nci_profiles (ex_impl repo_dn ovs))) = {''ci'', ''base''}"
  by (simp_all add: ex_profile_names flip: set_map)

lemmas ex_load_simps = deserialize_individual_config_def deserialize_test_groups_def deserialize_scripts_def
  deserialize_profiles_def scripts_is_empty_def missing_features_def duplicate_script_ids_def all_script_ids_def
  script_infos_def Let_def ex_into_config ex_dn_simps ex_fc_simps ex_warn ex_sanitize filter_lookup_def
  ex_compiled_by_profile ex_check_compiled named_as_expected_def ex_other_names

lemma ex_load_tool:
  "deserialize_individual_config ex_env ex_scc ex_experimental tool_source tool_fc initial_load = Ret (Inr tool_loaded)"
  by (simp add: ex_load_simps) (simp add: tool_loaded_def initial_load_def)

lemma ex_script_simps:
  "source_tool repo_source = None" "named_as_expected None ident \<longleftrightarrow> \<not> is_tool_identifier ident"
  "(\<exists>x. (x = a \<or> x = b) \<and> P x) \<longleftrightarrow> P a \<or> P b" "(\<forall>x. x \<noteq> a \<and> x \<noteq> b \<or> P x) \<longleftrightarrow> P a \<and> P b"
  "\<not> is_tool_identifier serial" "ld_known_groups tool_loaded = {}" "ld_known_scripts tool_loaded = Map.empty"
  "ld_known_profiles tool_loaded = {''ci''}"
  by (auto simp: repo_source_def named_as_expected_def serial_def tool_loaded_def initial_load_def)

lemma ex_load_repo:
  "deserialize_individual_config ex_env ex_scc ex_experimental repo_source repo_fc tool_loaded = Ret (Inr repo_loaded)"
  by (simp add: ex_load_simps ex_script_config_def ex_experimental_def script_info_def ex_script_simps
      del: source_tool.simps)
    (simp add: repo_loaded_def insert_commute)

section \<open>The profile \<open>ci\<close>\<close>

definition ex_nc :: nextest_config where
  "ex_nc = \<lparr>nc_workspace_root = ''/ws'',
     nc_inner = ex_impl repo_dn [ex_override (Some ''cfg(unix)'') None (ex_retries 3) None],
     nc_compiled = reverse_compiled (ld_compiled repo_loaded)\<rparr>"

lemma ex_read:
  "read_from_sources ex_env ex_scc ex_composite ex_experimental ''/ws'' ''/ws/.config/nextest.toml'' ex_files = Ret (Inr ex_nc)"
  by (simp add: read_from_sources_def ex_files_def ex_load_tool ex_load_repo ex_composite_def ex_into_config ex_sanitize
      Let_def ex_nc_def)

definition ex_ci :: custom_profile where
  "ex_ci = ex_profile (Some ''base'') None
     [ex_override None (Some ''test(slow)'') (ex_retries 4) (Some (CustomGroup serial))] [ex_scripts_section]"

definition ex_base :: custom_profile where "ex_base = ex_profile None (Some ''none()'') [] []"

definition ex_data :: "unit compiled_data" where
  "ex_data = \<lparr>cd_profile_default_filter = Some ex_base_filter,
     cd_overrides =
       [ex_co repo_source ''ci'' AnySpec (Some ex_slow_tests) (ex_retries 4) (Some (CustomGroup serial)),
        ex_co tool_source ''ci'' AnySpec (Some ex_core) (ex_retries 2) None,
        ex_co repo_source ''default'' (ProvidedSpec ex_unix) None (ex_retries 3) None,
        ex_co tool_source ''default'' AnySpec (Some ex_core) (ex_retries 5) None],
     cd_scripts = [ex_cs]\<rparr>"

lemma ex_compiled_data:
  "cbp_default (nc_compiled ex_nc) = \<lparr>cd_profile_default_filter = Some default_filter_for_default_config,
     cd_overrides = [ex_co repo_source ''default'' (ProvidedSpec ex_unix) None (ex_retries 3) None,
        ex_co tool_source ''default'' AnySpec (Some ex_core) (ex_retries 5) None], cd_scripts = []\<rparr>"
  "cbp_other (nc_compiled ex_nc) ''ci'' = Some \<lparr>cd_profile_default_filter = None,
     cd_overrides = [ex_co repo_source ''ci'' AnySpec (Some ex_slow_tests) (ex_retries 4) (Some (CustomGroup serial)),
        ex_co tool_source ''ci'' AnySpec (Some ex_core) (ex_retries 2) None], cd_scripts = [ex_cs]\<rparr>"
  "cbp_other (nc_compiled ex_nc) ''base'' = Some \<lparr>cd_profile_default_filter = Some ex_base_filter,
     cd_overrides = [], cd_scripts = []\<rparr>"
  by (simp_all add: ex_nc_def repo_loaded_def tool_loaded_def add_compiled_def reverse_compiled_def extend_reverse_def
      reverse_data_def compiled_for_default_config_def tool_default_data_def tool_other_data_def repo_default_data_def
      repo_other_data_def)

lemma ex_get_profile:
  "get_profile (nci_profiles (nc_inner ex_nc)) ''ci'' = Inr (Some ex_ci)"
  "get_profile (nci_profiles (nc_inner ex_nc)) ''base'' = Inr (Some ex_base)"
  by (simp_all add: ex_nc_def ex_impl_def repo_dn_def get_profile_def DEFAULT_PROFILE_def ex_ci_def ex_base_def)

lemma ex_inherits: "cp_inherits ex_ci = Some ''base''" "cp_inherits ex_base = None"
  by (simp_all add: ex_ci_def ex_base_def ex_profile_def)

lemma ex_chain: "resolve_inheritance_chain (nci_profiles (nc_inner ex_nc)) ''ci'' = Some (Inr [(''base'', ex_base)])"
  by (simp add: resolve_inheritance_chain_def ex_get_profile ex_inherits chain_loop.simps)

definition ex_early :: early_profile where
  "ex_early = \<lparr>ea_name = ''ci'', ea_store_dir = ''/ws/target/nextest/ci'',
     ea_default_profile = ex_default_profile\<lparr>dp_overrides := [ex_override (Some ''cfg(unix)'') None (ex_retries 3) None]\<rparr>,
     ea_custom_profile = Some ex_ci, ea_inheritance_chain = [ex_base], ea_test_groups = [serial \<mapsto> \<lparr>tgc_max_threads = ThreadsCount 1\<rparr>],
     ea_scripts = ex_script_config, ea_compiled_data = ex_data\<rparr>"

lemma ex_make: "make_profile ex_nc ''ci'' = Some (Inr ex_early)"
  by (simp add: make_profile_def Let_def ex_get_profile ex_chain ex_compiled_data chain_data_def ex_early_def ex_data_def)
    (simp add: ex_nc_def ex_impl_def repo_dn_def path_join_def suffix_def)

lemma ex_loaded: "profile_loaded ex_env ex_scc ex_composite ex_experimental ex_files ''ci'' ex_nc ex_early"
  unfolding profile_loaded_def using ex_read ex_make
  by (auto simp: ex_files_def file_wf_def ex_fc_simps ex_dn_simps)

end
