(* ===== verification/Config_Claims.thy ===== *)
theory Config_Claims
  imports Config_Example
begin

text \<open>
  The properties of the configuration: inheritance, the order of overrides, the settings of a test,
  the default filter, test groups and setup scripts, each on a loaded profile.
\<close>

section \<open>Inheritance\<close>

text \<open>C12. The profiles of a configuration are accepted exactly if no default profile inherits from
  another and the chain of ancestors of every profile can be resolved: the walk along \<open>inherits\<close>,
  which has no bound of its own, then ends without a missing profile, at a profile that inherits
  nothing or from the default profile.\<close>

theorem accepted_inheritance_resolves:
  assumes "scc_ok scc" and "profiles_wf c"
  shows "sanitize_profile_inherits scc c {} = Inr () \<longleftrightarrow>
    defaults_inherit_nothing c \<and>
    (\<forall>n. profile_exists c n \<longrightarrow> (\<exists>ch. resolve_inheritance_chain c n = Some (Inr ch) \<and>
      (case get_profile c n of Inr (Some p) \<Rightarrow> inherits_path c (cp_inherits p) ch | _ \<Rightarrow> ch = [])))"
  unfolding sanitize_ok_iff [OF assms] using acyclic_resolves [of c] resolves_acyclic [of c] by meson

theorem accepted_inheritance_resolves_witness:
  "\<exists>ch. resolve_inheritance_chain (nci_profiles (nc_inner ex_nc)) ''ci'' = Some (Inr ch) \<and>
     inherits_path (nci_profiles (nc_inner ex_nc)) (Some ''base'') ch"
proof -
  let ?c = "nci_profiles (nc_inner ex_nc)"
  have "profiles_wf ?c" by (simp add: profiles_wf_def ex_nc_def ex_impl_def repo_dn_def DEFAULT_PROFILE_def)
  moreover have "sanitize_profile_inherits ex_scc ?c {} = Inr ()" by (simp add: ex_nc_def ex_sanitize)
  moreover have "profile_exists ?c ''ci''" by (simp add: profile_exists_def ex_nc_def ex_impl_def repo_dn_def)
  ultimately obtain ch where "resolve_inheritance_chain ?c ''ci'' = Some (Inr ch)"
    "case get_profile ?c ''ci'' of Inr (Some p) \<Rightarrow> inherits_path ?c (cp_inherits p) ch | _ \<Rightarrow> ch = []"
    using accepted_inheritance_resolves [OF ex_scc_ok, of ?c] by blast
  then show ?thesis by (auto simp: ex_get_profile ex_inherits)
qed


text \<open>Each of two files can pass the check on inheritance while their combination has a cycle: the file
  with the higher priority redefines \<open>a\<close>, from which \<open>b\<close> of the other file inherits, so that it
  inherits from \<open>b\<close>. Only the last check, on the merged configuration, finds it.\<close>

definition cycle_profiles :: "(profile_name \<times> profile_name option) list \<Rightarrow> profiles_config" where
  "cycle_profiles ps = \<lparr>pc_default_profile = ex_default_profile,
     pc_other_profiles = map (\<lambda>(name, inherits). (name, ex_profile inherits None [] [])) ps\<rparr>"

theorem inheritance_cycle_across_files:
  "sanitize_profile_inherits ex_scc (cycle_profiles [(''a'', None), (''b'', Some ''a'')]) {} = Inr () \<and>
   sanitize_profile_inherits ex_scc (cycle_profiles [(''a'', Some ''b'')]) {''a'', ''b''} = Inr () \<and>
   sanitize_profile_inherits ex_scc (cycle_profiles [(''a'', Some ''b''), (''b'', Some ''a'')]) {} \<noteq> Inr ()"
proof (intro conjI)
  let ?low = "cycle_profiles [(''a'', None), (''b'', Some ''a'')]"
  let ?merged = "cycle_profiles [(''a'', Some ''b''), (''b'', Some ''a'')]"
  have inherits: "cp_inherits (ex_profile i flt ovs scripts) = i" for i flt ovs scripts by (simp add: ex_profile_def)
  have wf: "profiles_wf ?low" "profiles_wf ?merged"
    by (simp_all add: profiles_wf_def cycle_profiles_def DEFAULT_PROFILE_def)
  have rel: "inherits_rel ?low = {(''b'', ''a'')}" "inherits_rel ?merged = {(''a'', ''b''), (''b'', ''a'')}"
    unfolding inherits_rel_mem [OF wf(1)] inherits_rel_mem [OF wf(2)]
    by (auto simp: cycle_profiles_def inherits)
  have "acyclic (inherits_rel ?low)" unfolding rel by (simp add: acyclic_insert) (simp add: acyclic_def)
  then show "sanitize_profile_inherits ex_scc ?low {} = Inr ()"
    unfolding sanitize_ok_iff [OF ex_scc_ok wf(1)] rel
    by (simp add: defaults_inherit_nothing_def cycle_profiles_def ex_profile_def ex_default_lists starts_with_default_def
      profile_exists_def)
  have "(''a'', ''a'') \<in> (inherits_rel ?merged)\<^sup>+" unfolding rel
    by (meson insertI1 insertI2 trancl.intros)
  then have "\<not> acyclic (inherits_rel ?merged)" by (auto simp: acyclic_def)
  then show "sanitize_profile_inherits ex_scc ?merged {} \<noteq> Inr ()"
    unfolding sanitize_ok_iff [OF ex_scc_ok wf(2)] by blast
  show "sanitize_profile_inherits ex_scc (cycle_profiles [(''a'', Some ''b'')]) {''a'', ''b''} = Inr ()"
    by (simp add: sanitize_profile_inherits_def sanitize_default_profile_inherits_def sanitize_custom_profile_inherits_def
      sanitize_custom_profile_def sanitize_custom_default_profile_inherits_def add_profile_to_graph_def starts_with_default_def
      cycle_profiles_def ex_profile_def ex_default_lists get_profile_def DEFAULT_PROFILE_def ex_no_cycle)
qed


section \<open>Order of overrides and scripts\<close>

text \<open>C11. The overrides of a loaded profile are, in this order, those of the profile, of each ancestor,
  and of the default profile; for each of these, those of the repository's file come first, then
  those of the tools, the highest priority first; in each file they keep their order. Each is
  compiled from its source without an error. The same holds for the script sections.\<close>

theorem overrides_in_documented_order:
  assumes "profile_loaded env scc composite ex files name nc ep"
  shows "\<exists>ch. resolve_inheritance_chain (nci_profiles (nc_inner nc)) name = Some (Inr ch) \<and>
    list_all2 (\<lambda>(source, p, i, src) ov. compiled_override_new env source p i src = Ret (Inr ov))
      (documented_overrides (loaded_files files) (profile_order name ch)) (cd_overrides (ea_compiled_data ep)) \<and>
    list_all2 (\<lambda>(source, p, i, src) s. compiled_profile_scripts_new env p i src = Ret (Inr s))
      (documented_scripts (loaded_files files) (profile_order name ch)) (cd_scripts (ea_compiled_data ep))"
  using assms by (rule loaded_data_compiles) blast

lemma ex_documented:
  "documented_overrides (loaded_files ex_files) (profile_order ''ci'' [(''base'', ex_base)]) =
    [(repo_source, ''ci'', 0, ex_override None (Some ''test(slow)'') (ex_retries 4) (Some (CustomGroup serial))),
     (tool_source, ''ci'', 0, ex_override None (Some ''package(core)'') (ex_retries 2) None),
     (repo_source, ''default'', 0, ex_override (Some ''cfg(unix)'') None (ex_retries 3) None),
     (tool_source, ''default'', 0, ex_override None (Some ''package(core)'') (ex_retries 5) None)]"
  by (simp add: documented_overrides_def documented_sections_def profile_order_def DEFAULT_PROFILE_def ex_files_def
      file_overrides_def file_section_def ex_fc_simps tool_dn_def repo_dn_def ex_profile_def ex_default_def)

theorem overrides_in_documented_order_witness:
  "list_all2 (\<lambda>(source, p, i, src) ov. compiled_override_new ex_env source p i src = Ret (Inr ov))
    [(repo_source, ''ci'', 0, ex_override None (Some ''test(slow)'') (ex_retries 4) (Some (CustomGroup serial))),
     (tool_source, ''ci'', 0, ex_override None (Some ''package(core)'') (ex_retries 2) None),
     (repo_source, ''default'', 0, ex_override (Some ''cfg(unix)'') None (ex_retries 3) None),
     (tool_source, ''default'', 0, ex_override None (Some ''package(core)'') (ex_retries 5) None)]
    (cd_overrides ex_data)"
  using overrides_in_documented_order [OF ex_loaded]
  by (auto simp: ex_chain ex_documented ex_early_def)


section \<open>Default filters\<close>

text \<open>C21. The build platforms can be applied to every loaded profile. The default filter is the one of the
  first override, in the order above, that has one and whose platform specifications hold for host
  and target; otherwise the one that the first of the profile, its ancestors and the default profile
  has in the file with the highest priority; otherwise all tests are selected. A default filter
  never refers to itself.\<close>

theorem default_filter_resolved:
  assumes "profile_loaded env scc composite ex files name nc ep"
  shows "\<exists>p ch. apply_build_platforms bp ep = Ret p \<and>
    ep_compiled_data p = data_apply_platforms bp (ea_compiled_data ep) \<and>
    resolve_inheritance_chain (nci_profiles (nc_inner nc)) name = Some (Inr ch) \<and>
    default_free (cdf_expr (ep_resolved_default_filter p)) \<and>
    (case find_map default_filter_if_matches_platform (cd_overrides (ep_compiled_data p)) of
       Some d \<Rightarrow> ep_resolved_default_filter p = d
     | None \<Rightarrow> (case documented_default_filter (loaded_files files) (profile_order name ch) of
         Some ps \<Rightarrow> default_filter_parses env ps (ep_resolved_default_filter p)
       | None \<Rightarrow> ep_resolved_default_filter p = default_filter_for_default_config))"
proof -
  from assms obtain ch where ch: "resolve_inheritance_chain (nci_profiles (nc_inner nc)) name = Some (Inr ch)"
    and filter: "case documented_default_filter (loaded_files files) (profile_order name ch) of
       None \<Rightarrow> cd_profile_default_filter (ea_compiled_data ep) = Some default_filter_for_default_config
     | Some ps \<Rightarrow> \<exists>d. cd_profile_default_filter (ea_compiled_data ep) = Some d \<and> default_filter_parses env ps d"
    by (rule loaded_data_compiles)
  from assms obtain d where d: "cd_profile_default_filter (ea_compiled_data ep) = Some d" by (rule profile_loaded_filter)
  from apply_build_platforms_Ret [OF d, of bp] obtain p where p: "apply_build_platforms bp ep = Ret p"
    "ep_compiled_data p = data_apply_platforms bp (ea_compiled_data ep)"
    "ep_resolved_default_filter p = unwrap_or (find_map default_filter_if_matches_platform (cd_overrides (ep_compiled_data p))) d"
    by (simp add: data_apply_platforms_def)
  have "default_free (cdf_expr (ep_resolved_default_filter p))"
    using default_filter_ok [OF assms p(1)] by (simp add: default_ok_def)
  then show ?thesis using p ch filter d by (auto simp: unwrap_or_def split: option.splits)
qed

definition ex_platforms :: build_platforms where
  "ex_platforms = \<lparr>bp_host = ''linux'', bp_target = None\<rparr>"

theorem default_filter_resolved_witness:
  "\<exists>p. apply_build_platforms ex_platforms ex_early = Ret p \<and> ep_resolved_default_filter p = ex_base_filter"
proof -
  have doc: "documented_default_filter (loaded_files ex_files) (profile_order ''ci'' [(''base'', ex_base)]) =
      Some (''base'', ''none()'')"
    by (simp add: documented_default_filter_def profile_order_def DEFAULT_PROFILE_def ex_files_def file_filter_def
      file_section_def ex_fc_simps tool_dn_def repo_dn_def ex_profile_def)
  have "default_filter_if_matches_platform (override_apply_platforms ex_platforms ov) = None" if "ov \<in> set (cd_overrides ex_data)" for ov
    using that by (auto simp: ex_data_def ex_co_def default_filter_if_matches_platform_def)
  then have none: "find_map default_filter_if_matches_platform (cd_overrides (data_apply_platforms ex_platforms ex_data)) = None"
    by (auto simp: data_apply_platforms_def ex_data_def)
  show ?thesis
    using default_filter_resolved [OF ex_loaded, of ex_platforms]
    by (auto simp: ex_chain doc none default_filter_parses_def ex_parse ex_base_filter_def ex_early_def)
qed

section \<open>Well-formed profiles\<close>


definition ex_ready :: evaluatable_profile where
  "ex_ready = \<lparr>ep_name = ''ci'', ep_store_dir = ''/ws/target/nextest/ci'', ep_default_profile = ea_default_profile ex_early,
     ep_custom_profile = Some ex_ci, ep_inheritance_chain = [ex_base], ep_test_groups = ea_test_groups ex_early,
     ep_scripts = ex_script_config, ep_compiled_data = data_apply_platforms ex_platforms ex_data,
     ep_resolved_default_filter = ex_base_filter\<rparr>"

lemma ex_apply: "apply_build_platforms ex_platforms ex_early = Ret ex_ready"
proof -
  have "find_map default_filter_if_matches_platform (map (override_apply_platforms ex_platforms) (cd_overrides ex_data)) = None"
    by (simp add: ex_data_def ex_co_def default_filter_if_matches_platform_def)
  then show ?thesis
    using apply_build_platforms_Ret [of ex_early ex_base_filter ex_platforms]
    by (simp add: ex_early_def ex_ready_def unwrap_or_def) (simp add: ex_data_def)
qed



section \<open>Settings of tests\<close>

text \<open>C10. For a loaded profile the settings of every test are found without a panic. Each setting is that of
  the first override, in the documented order, that applies to the test and has the setting, and
  otherwise that of the profile; the wrapper script for running the test, and the one for listing its
  binary, is that of the first script section that applies and names one.\<close>

theorem settings_first_match:
  assumes "profile_loaded env scc composite ex files name nc ep" "keeps_wrappers composite"
    and "apply_build_platforms bp ep = Ret p"
  shows "settings_for (Suc (Suc fuel)) env p run_mode q = Some (Ret (reference_settings env p run_mode q)) \<and>
    list_settings_for (Suc (Suc fuel)) env p (binary_query_of q) = Some (Ret (wrapper_config p
      (first_wrapper cps_list_wrapper
        (filter (script_applies (filterset_ecx env p) q) (cd_scripts (ep_compiled_data p))))))"
  using settings_for_eq list_settings_for_eq loaded_profile_ok [OF assms] by blast

lemma ex_applies:
  "map (override_applies (filterset_ecx ex_env ex_ready) (ex_query ''slow_one'')) (cd_overrides (ep_compiled_data ex_ready)) =
     [True, True, True, True]"
  "map (override_applies (filterset_ecx ex_env ex_ready) (ex_query ''quick'')) (cd_overrides (ep_compiled_data ex_ready)) =
     [False, True, True, True]"
  by (simp_all add: ex_ready_def data_apply_platforms_def ex_data_def ex_co_def override_applies_def filter_holds_def
      override_apply_platforms_def override_filter_def evaluate_platforms_def platform_enabled_def ex_platforms_def
      ex_unix_def ex_core_def ex_slow_tests_def test_sem_def filterset_ecx_def ex_env_def ex_engine_def ex_query_def)

lemma ex_reference:
  "fst (ts_retries (reference_settings ex_env ex_ready ModeTest (ex_query ''slow_one''))) = Fixed 4 0 False"
  "fst (ts_test_group (reference_settings ex_env ex_ready ModeTest (ex_query ''slow_one''))) = CustomGroup serial"
  "fst (ts_retries (reference_settings ex_env ex_ready ModeTest (ex_query ''quick''))) = Fixed 2 0 False"
  "fst (ts_test_group (reference_settings ex_env ex_ready ModeTest (ex_query ''quick''))) = GlobalGroup"
proof -
  note d = reference_settings_def finish_settings_def first_settings_def first_set_def unwrap_or_def ex_retries_def
  have ovs: "cd_overrides (ep_compiled_data ex_ready) = map (override_apply_platforms ex_platforms) (cd_overrides ex_data)"
    by (simp add: ex_ready_def data_apply_platforms_def)
  note s = ex_applies [unfolded ovs, unfolded ex_data_def, simplified]
  show "fst (ts_retries (reference_settings ex_env ex_ready ModeTest (ex_query ''slow_one''))) = Fixed 4 0 False"
    "fst (ts_test_group (reference_settings ex_env ex_ready ModeTest (ex_query ''slow_one''))) = CustomGroup serial"
    "fst (ts_retries (reference_settings ex_env ex_ready ModeTest (ex_query ''quick''))) = Fixed 2 0 False"
    "fst (ts_test_group (reference_settings ex_env ex_ready ModeTest (ex_query ''quick''))) = GlobalGroup"
    using s by (simp_all add: d ovs ex_data_def) (simp_all add: ex_co_def)
qed

theorem settings_first_match_witness:
  "(\<exists>s. settings_for 2 ex_env ex_ready ModeTest (ex_query ''slow_one'') = Some (Ret s) \<and>
     fst (ts_retries s) = Fixed 4 0 False \<and> fst (ts_test_group s) = CustomGroup serial) \<and>
   (\<exists>s. settings_for 2 ex_env ex_ready ModeTest (ex_query ''quick'') = Some (Ret s) \<and>
     fst (ts_retries s) = Fixed 2 0 False \<and> fst (ts_test_group s) = GlobalGroup)"
  using settings_first_match [OF ex_loaded ex_keeps ex_apply, of 0 ModeTest] ex_reference
  by (simp add: numeral_2_eq_2)


section \<open>Test groups\<close>

text \<open>C29. The test groups that are computed before the filtersets of a run are evaluated agree with the
  groups under which the tests are then run, in any mode: for every test of the list, a matcher
  accepts the test's group in \<open>group()\<close> exactly if it matches the name of the group in the test's
  settings.\<close>

theorem group_membership_agrees:
  assumes "profile_loaded env scc composite ex files name nc ep" "keeps_wrappers composite"
    and "apply_build_platforms bp ep = Ret p" and "distinct (map test_id_of tests)"
  shows "\<exists>m. precompute_group_memberships (Suc (Suc fuel)) env p tests = Some (Ret m) \<and>
    (\<forall>q \<in> set tests. \<forall>run_mode s. settings_for (Suc (Suc fuel)) env p run_mode q = Some (Ret s) \<longrightarrow>
      (\<forall>re matcher. is_member_test re m q matcher = is_match re matcher (group_str (fst (ts_test_group s)))))"
proof -
  note ok = loaded_profile_ok [OF assms(1-3)]
  have "fst (ts_test_group (reference_settings env p run_mode q)) = group_of env p q" for run_mode q
    by (simp add: group_of_def reference_settings_def finish_settings_def first_settings_def)
  then show ?thesis
    using precompute_member [OF ok assms(4), of fuel env] by (auto simp: settings_for_eq [OF ok])
qed

theorem group_membership_agrees_witness:
  "\<exists>m. precompute_group_memberships 2 ex_env ex_ready [ex_query ''slow_one'', ex_query ''quick''] = Some (Ret m) \<and>
     is_member_test ex_engine m (ex_query ''slow_one'') (Equal ''serial'' False) \<and>
     \<not> is_member_test ex_engine m (ex_query ''quick'') (Equal ''serial'' False)"
proof -
  have "distinct (map test_id_of [ex_query ''slow_one'', ex_query ''quick''])"
    by (simp add: test_id_of_def ex_query_def)
  from group_membership_agrees [OF ex_loaded ex_keeps ex_apply this, of 0] obtain m where
    m: "precompute_group_memberships 2 ex_env ex_ready [ex_query ''slow_one'', ex_query ''quick''] = Some (Ret m)"
    and eq: "\<And>q run_mode s re matcher. q \<in> {ex_query ''slow_one'', ex_query ''quick''} \<Longrightarrow>
      settings_for 2 ex_env ex_ready run_mode q = Some (Ret s) \<Longrightarrow>
      is_member_test re m q matcher = is_match re matcher (group_str (fst (ts_test_group s)))"
    unfolding numeral_2_eq_2 by (metis empty_iff insert_iff list.set(1) list.set(2))
  have "settings_for 2 ex_env ex_ready ModeTest q = Some (Ret (reference_settings ex_env ex_ready ModeTest q))" for q
    using settings_for_eq [OF loaded_profile_ok [OF ex_loaded ex_keeps ex_apply], of 0] by (simp add: numeral_2_eq_2)
  from eq [OF _ this] have "is_member_test ex_engine m (ex_query ''slow_one'') (Equal ''serial'' False)"
    "\<not> is_member_test ex_engine m (ex_query ''quick'') (Equal ''serial'' False)"
    by (simp_all add: ex_reference serial_def GLOBAL_TEST_GROUP_def)
  then show ?thesis using m by blast
qed


section \<open>Setup scripts\<close>

text \<open>C30. The setup scripts of a run are the defined ones, in the order of their definitions, that some
  script section mentions which applies to one of the selected tests. The order in which the hash map
  of scripts is iterated does not matter.\<close>

theorem setup_scripts_needed:
  assumes "profile_loaded env scc composite ex files name nc ep" "keeps_wrappers composite"
    and "apply_build_platforms bp ep = Ret p" "distinct (map fst (sc_setup (ep_scripts p)))"
    and "set (order (by_script_id (cd_scripts (ep_compiled_data p)))) =
      {(k, v). by_script_id (cd_scripts (ep_compiled_data p)) k = Some v}"
  shows "\<exists>scripts. setup_scripts_new (Suc (Suc fuel)) env order p tests = Some (Ret scripts) \<and>
    map (\<lambda>s. (ss_id s, ss_config s)) scripts =
      filter (\<lambda>(sid, _). script_needed (filterset_ecx env p) (cd_scripts (ep_compiled_data p)) tests sid)
        (sc_setup (ep_scripts p)) \<and>
    (\<forall>s \<in> set scripts. ss_compiled s = mentions (cd_scripts (ep_compiled_data p)) (ss_id s))"
  using setup_scripts_new_eq [where order = order, OF loaded_profile_ok [OF assms(1-3)] assms(4,5), where fuel = fuel and env = env and tests = tests]
  by (auto simp: comp_def case_prod_unfold)

definition ex_order :: "(config_script_id \<rightharpoonup> 'v) \<Rightarrow> (config_script_id \<times> 'v) list" where
  "ex_order m = (case m (RegularIdent ''db'') of Some v \<Rightarrow> [(RegularIdent ''db'', v)] | None \<Rightarrow> [])"

theorem setup_scripts_needed_witness:
  "\<exists>scripts. setup_scripts_new 2 ex_env ex_order ex_ready [ex_query ''quick''] = Some (Ret scripts) \<and>
     map ss_config scripts = [ex_setup_config]"
proof -
  let ?ss = "cd_scripts (ep_compiled_data ex_ready)"
  have ss: "?ss = [scripts_apply_platforms ex_platforms ex_cs]"
    by (simp add: ex_ready_def data_apply_platforms_def ex_data_def)
  then have m: "by_script_id ?ss = [RegularIdent ''db'' \<mapsto> ?ss]"
    by (simp add: by_script_id_def) (simp add: ex_cs_def)
  have order: "set (ex_order (by_script_id ?ss)) = {(k, v). by_script_id ?ss k = Some v}"
    by (auto simp: m ex_order_def split: if_splits)
  have dist: "distinct (map fst (sc_setup (ep_scripts ex_ready)))"
    by (simp add: ex_ready_def ex_script_config_def)
  have needed: "script_needed (filterset_ecx ex_env ex_ready) ?ss [ex_query ''quick''] (RegularIdent ''db'')"
    unfolding script_needed_def ss
    by (simp add: ex_cs_def script_applies_def filter_holds_def scripts_apply_platforms_def
      evaluate_platforms_def platform_enabled_def ex_platforms_def ex_core_def test_sem_def ex_query_def)
  obtain scripts where "setup_scripts_new 2 ex_env ex_order ex_ready [ex_query ''quick''] = Some (Ret scripts)"
    "map (\<lambda>s. (ss_id s, ss_config s)) scripts = [(RegularIdent ''db'', ex_setup_config)]"
    using setup_scripts_needed [where order = ex_order, OF ex_loaded ex_keeps ex_apply dist order,
        where fuel = 0 and tests = "[ex_query ''quick'']"] needed
    by (auto simp: numeral_2_eq_2 ex_ready_def ex_script_config_def)
  then show ?thesis by (auto intro!: exI [of _ scripts])
qed

end
