(* ===== verification/Spec2Isabelle.thy ===== *)
theory Spec2Isabelle
  imports Filterset_Props Parser_Claims Replay_Claims Dispatch_Claims Component_Claims List_Claims Rerun_Claims Attempt_Claims Record_Claims Store_Claims
    Run_Tree_Props Config_Claims
begin

text \<open>
  A verification library for \<^bold>\<open>cargo-nextest\<close>, a test runner for Rust. The runner loads its
  configuration, lists the tests of the binaries of a workspace, selects some of them with filtersets,
  runs each in a process of its own, many at a time, reports on them, and records the run, so that it
  can be rerun.

  \<^bold>\<open>The program and the theories.\<close> Paths are those below \<open>nextest-runner/src\<close> unless said otherwise.

  \<^item> \<open>Prelude\<close>: Rust calls that may panic (\<open>outcome\<close>), strings, generic lemmas. \<open>Rust_Num\<close>: parsing and
    printing of machine integers.
  \<^item> \<open>Binary_Id\<close> (\<open>nextest-metadata/src/test_list.rs\<close>): binary identifiers with their canonical order,
    test names, test instance identifiers.
  \<^item> \<open>Filterset_Expr\<close> (\<open>nextest-filtering/src/expression.rs\<close>): name matchers, compiled filtersets, their
    evaluation on tests and, in three-valued logic, on binaries. \<open>Filterset_Compile\<close>
    (\<open>compile.rs\<close>, and the syntax trees of \<open>parsing.rs\<close> and \<open>errors.rs\<close>): from parsed to compiled
    filtersets. \<open>Filterset_Props\<close>: the properties of both.
  \<^item> \<open>Filterset_Parser\<close> (\<open>nextest-filtering/src/parsing.rs\<close>, \<open>parsing/unicode_string.rs\<close>,
    \<open>parsing/glob.rs\<close>): the concrete syntax. The record \<open>span\<close> is \<open>Span\<close>: what is unread, where it starts,
    and the errors reported; a parser takes a span and gives a \<open>reply\<close>. \<open>Filterset_Parser_Props\<close>: what
    it guarantees on every input. \<open>Filterset_Display\<close> (the \<open>Display\<close> instances): the printed form;
    \<open>Filterset_Round_Trip\<close>: printed expressions are read back. \<open>Unicode_Text\<close>: strings in UTF-8.
    \<open>Parser_Claims\<close>: the properties, and the parser in the place that \<open>Config_Override\<close> has for it.
  \<^item> \<open>Config_Elements\<close> (\<open>config/elements\<close>, \<open>config/core/identifier.rs\<close>, with \<open>Max_Fail\<close> for the fail-fast
    setting): the values of the configuration. \<open>Config_Profile\<close> (\<open>config/core/imp.rs\<close>): profiles, what
    they inherit, and the check of it; \<open>Config_Inherit\<close>: when profiles are accepted.
    \<open>Config_Override\<close> (\<open>config/overrides/imp.rs\<close>, \<open>config/scripts/imp.rs\<close>): overrides and script sections,
    compiled, and how the data of files and profiles is put together. \<open>Config_Settings\<close>: profiles on the
    build platforms, the settings of a test, wrapper scripts, test groups, setup scripts.
    \<open>Config_Load\<close> (\<open>config/core/imp.rs\<close>, \<open>config/core/sources.rs\<close>): loading the files and making a profile.
    \<open>Config_Load_Props\<close>, \<open>Config_Settings_Props\<close>, \<open>Config_Loaded\<close>: what a loaded profile holds and means;
    \<open>Config_Example\<close>: a configuration of two files; \<open>Config_Claims\<close>: the properties.
  \<^item> \<open>Test_Filter\<close> (\<open>test_filter.rs\<close>): which tests are selected, and which binaries need not be listed;
    \<open>Filter_Props\<close>. \<open>Partition\<close> (\<open>partition.rs\<close>): shards. \<open>Test_List\<close> (\<open>list/test_list.rs\<close>): parsing what
    the binaries print, the list with its counts and its queue, applying partitions;
    \<open>Test_List_Props\<close>, \<open>Test_List_Claims\<close>, \<open>List_Claims\<close>: the properties.
  \<^item> \<open>Run_Events\<close> (\<open>reporter/events.rs\<close>): execution results, run statistics, final summaries and run
    outcomes. \<open>Timers\<close> (\<open>time/stopwatch.rs\<close>, \<open>time/pausable_sleep.rs\<close>).
  \<^item> \<open>Dispatcher\<close> (\<open>runner/dispatcher.rs\<close>, \<open>runner/internal_events.rs\<close>, \<open>signal.rs\<close>, the stress loop of
    \<open>runner/imp.rs\<close>): the state machine between the executor, the signals, the timers and the
    reporter; the record \<open>dispatcher\<close> is \<open>DispatcherContext\<close>, \<open>handle_event\<close> and \<open>respond\<close> are the body
    of its loop, \<open>run_step\<close> is one pass. \<open>Dispatch_Run\<close>: sequences of passes, the states reachable
    through any number of stress sub-runs, and what an event changes. \<open>Dispatch_Props\<close>: the
    invariants. \<open>Dispatch_Claims\<close>: the properties, with examples.
  \<^item> \<open>Unit_Run\<close> (\<open>runner/executor.rs\<close>, \<open>runner/unix.rs\<close>): the loop that waits for the process of one
    attempt of a test, its slow timeout, the requests of the dispatcher, and the termination of
    the process. \<open>Unit_Props\<close>: its properties. \<open>Attempts\<close> (\<open>config/elements/retry_policy.rs\<close>,
    \<open>runner/executor.rs\<close>): retry policies, delays, and the loop over the attempts of a test;
    \<open>Attempt_Claims\<close>.
  \<^item> \<open>Recorded_Run\<close>, \<open>Run_Store\<close> (\<open>record/format.rs\<close>, \<open>record/store.rs\<close>, \<open>record/retention.rs\<close>): recorded
    runs, the store and its pruning. \<open>Run_Index\<close> (\<open>record/run_id_index.rs\<close>): finding a run by a prefix of
    its id. \<open>Run_Tree\<close> (\<open>record/tree.rs\<close>): how runs are listed. \<open>Rerun\<close> (\<open>record/rerun.rs\<close>): which tests a
    rerun has to run. Their properties are in \<open>Run_Index_Props\<close>, \<open>Record_Claims\<close>, \<open>Store_Claims\<close>,
    \<open>Run_Tree_Props\<close> and \<open>Rerun_Claims\<close>, the examples in \<open>Record_Examples\<close>.
  \<^item> \<open>Output_Events\<close> (\<open>reporter/events.rs\<close>, \<open>record/summary.rs\<close>): the events of the reporter with the outputs
    of tests and scripts. \<open>Recorder\<close> (\<open>record/recorder.rs\<close>, \<open>record/summary.rs\<close>): what is recorded of
    them, and the archive of outputs with their names and their truncation. \<open>Replay\<close> (\<open>record/reader.rs\<close>,
    \<open>record/replay.rs\<close>): reading the archive and making the events again. \<open>Replay_Props\<close>,
    \<open>Replay_Claims\<close>: what is recorded comes back.
  \<^item> \<open>Component_Claims\<close>: properties of the smaller components.

  \<^bold>\<open>How the parts interact.\<close> The configuration gives the profile (\<open>make_profile\<close>), the default filter, the
  settings of each test and the test groups. The test list asks the binaries for their tests; filtersets,
  the default filter, a partition and, in a rerun, the outcomes of the parent decide which run. The
  executor sends the dispatcher events about setup scripts and tests (\<open>executor_event\<close>); a unit starts
  only once the dispatcher has answered (\<open>dc_unblocked\<close>). The dispatcher sends requests to running units
  (\<open>dc_sent\<close>), which \<open>Unit_Run\<close> takes as \<open>Request\<close> events, and tells the reporter (\<open>dc_reported\<close>), whose
  events are recorded and read again by a rerun.

  \<^bold>\<open>Conventions.\<close> A call that may panic returns \<open>Ret\<close> or \<open>Panic\<close>; errors are values of sum types.
  Asynchronous code is modelled by its events: one event taken by \<open>select!\<close> is one step, in any
  order that the guards of \<open>select!\<close> and the timers permit. Counters of tests are natural numbers,
  durations are nanoseconds, and clocks are inputs of the steps; counts, sizes and shards that can
  overflow are words. The model is of the release build on Unix.

  \<^bold>\<open>Parameters.\<close> What third-party code answers is an argument of the definitions that use it: regular
  expressions, globs, the package graph, \<open>aho-corasick\<close>, \<open>xxh64\<close>, the maps of \<open>iddqd\<close>, the order of hash
  maps and sets, printed UUIDs, products and jitter in floating point, \<open>target-spec\<close>, \<open>humantime\<close>,
  strongly connected components (\<open>petgraph\<close>), and parsing, layering and deserializing TOML. Laws that
  are relied on are hypotheses, each with an instance: \<open>aho_ok\<close>, \<open>scc_ok\<close>, \<open>keeps_wrappers\<close>, the laws
  of ordered maps, and for the archive of outputs (\<open>archive_libs\<close>: hash, compression) \<open>archive_ok\<close>. Answers of the file system are inputs. The filterset parser is written
  with the combinators of \<open>winnow\<close>, which are defined by their documented behaviour; it has the libraries
  it calls in the record \<open>syntax_libs\<close>, with the laws \<open>syntax_spans_ok\<close> and \<open>libs_ok\<close>. A configuration takes
  any parser (\<open>fe_syntax\<close>); \<open>filterset_syntax_of\<close> is the one of the code.

  \<^bold>\<open>Fuel and termination.\<close> The evaluation of a filterset on a test or a binary has fuel: the
  default filter is a filterset that could refer to itself. Two levels are enough whenever the
  default filter holds no \<open>default()\<close>, which compilation enforces; without that no amount is
  enough (\<open>default_in_default_diverges\<close>). The parser has fuel for nested
  expressions, one more than the input is long; each level reads a byte at least, so that it never
  runs out (\<open>filterset_parser_answers\<close>). The walk along \<open>inherits\<close> has no bound: it is a partial
  function (\<open>chain_loop\<close>), which ends for every profile exactly if the configuration is accepted. The
  loop over attempts ends because each attempt uses up one of the policy, the walks over the tree of
  runs because each step visits a new id of 128 bits. Every other definition is total.

  \<^bold>\<open>What the lemmas show.\<close> Filtersets: the parser answers on every input, its errors
  lie inside the input, it reports an error unless it returns an expression in standard form, what is
  printed is read back, and what is read can be printed if its texts survive that; compilation keeps the meaning of the expression, reports
  exactly the errors of its leaves, and what is decided for a binary holds for its tests.
  Configuration: accepted profiles resolve, overrides apply in the documented order, the first one that
  matches decides, loaded profiles never panic, groups and setup scripts follow from the settings.
  Selection: the filter selects exactly the tests that fit, shards divide them, and lists do not depend
  on the order of listing. Dispatcher: nothing starts after a cancellation, failures past the limit
  cancel, signals escalate, every counter of the statistics is the number of results it stands for,
  the events that panic are known, reruns and stress runs report what happened. Units: timeouts, termination, job control and retries.
  Records: what is recorded is replayed, the store and its file agree, pruning respects its limits, prefixes identify runs, the tree
  shows every run, and a chain of reruns loses no outstanding test. Where the code departs from its
  intention the property states what it does: the grace period after a stop and continue, continue
  requests during termination, immediate fail-fast, the count of missing answers, a continue signal in
  the next sub-run, an exact skip pattern given alone, the largest retry count, quotation marks and
  escaped prefixes in a printed filterset, a report of tests not seen that is empty or has skipped
  tests, and a pruning that can remove no directory.

  \<^bold>\<open>Not modelled.\<close> Processes, pipes, files, terminals and serialisation are I/O. Also not modelled: the
  required version in configuration files, the command line, the display of the reporter and its
  JUnit, and of recordings the JSON and zip formats, portable archives and traces.
\<close>

end
